(* ===== verification/Prelude.thy ===== *)
theory Prelude
  imports Main "HOL-Library.Multiset" "HOL-Library.Char_ord" "HOL-Library.List_Lexorder"
    "HOL-Library.Product_Lexorder" "HOL-Library.Sublist"
begin

text \<open>
  Shared vocabulary of the development: the rule collections, the machine-integer bound, results
  of fallible Go functions as sums, the comparison sorts of package \<open>sort\<close> as insertion by a
  comparator, and the interface a comparator offers when it is the order of a key.
\<close>

named_theorems go_defs \<open>definitions of small helpers that proofs unfold\<close>
named_theorems go_order \<open>comparators rewritten to the order of their keys\<close>

subsection \<open>Results and machine integers\<close>

text \<open>A fallible Go function returns \<open>(value, error)\<close>; the model returns one or the other.\<close>

type_synonym ('e, 'a) res = "'e + 'a"

definition max_int :: int where
  "max_int = 9223372036854775807"

text \<open>A loop that stops at the first error, with the index the code reports in its message.\<close>

fun first_error :: "(nat \<Rightarrow> 'a \<Rightarrow> 'e option) \<Rightarrow> nat \<Rightarrow> 'a list \<Rightarrow> 'e option" where
  "first_error chk i [] = None"
| "first_error chk i (x # xs) =
     (case chk i x of Some e \<Rightarrow> Some e | None \<Rightarrow> first_error chk (Suc i) xs)"

lemma first_error_None:
  "first_error chk i xs = None \<longleftrightarrow> (\<forall>k < length xs. chk (i + k) (xs ! k) = None)"
proof (induction xs arbitrary: i)
  case (Cons x xs)
  have "(\<forall>k < length (x # xs). chk (i + k) ((x # xs) ! k) = None)
      \<longleftrightarrow> chk i x = None \<and> (\<forall>k < length xs. chk (Suc i + k) (xs ! k) = None)"
    by (auto simp: less_Suc_eq_0_disj)
  then show ?case
    using Cons.IH [of "Suc i"] by (auto split: option.splits)
qed simp

lemma first_error_uniform:
  "(\<And>i x. chk i x = None \<longleftrightarrow> P x) \<Longrightarrow> first_error chk i xs = None \<longleftrightarrow> (\<forall>x \<in> set xs. P x)"
proof (induction xs arbitrary: i)
  case (Cons x xs)
  have "first_error chk i (x # xs) = None \<longleftrightarrow> chk i x = None \<and> first_error chk (Suc i) xs = None"
    by (simp split: option.splits)
  also have "\<dots> \<longleftrightarrow> P x \<and> (\<forall>y \<in> set xs. P y)"
    using Cons by simp
  finally show ?case by simp
qed simp

lemma filter_head: "filter P xs = x # ys \<Longrightarrow> x \<in> set xs \<and> P x"
  by (auto simp: filter_eq_Cons_iff)

subsection \<open>First occurrences\<close>

text \<open>
  A Go map keyed by what a loop has already seen keeps the first occurrence of every key.
\<close>

fun nub_by :: "('a \<Rightarrow> 'k) \<Rightarrow> 'k list \<Rightarrow> 'a list \<Rightarrow> 'a list" where
  "nub_by key seen [] = []"
| "nub_by key seen (x # xs) =
     (if key x \<in> set seen then nub_by key seen xs else x # nub_by key (key x # seen) xs)"

lemma nub_by_keys: "key ` set (nub_by key seen xs) = key ` set xs - set seen"
  by (induction xs arbitrary: seen) auto

lemma nub_by_subset: "set (nub_by key seen xs) \<subseteq> set xs"
proof (induction xs arbitrary: seen)
  case (Cons x xs)
  from Cons.IH [of seen] Cons.IH [of "key x # seen"] show ?case by auto
qed simp

lemma nub_by_distinct: "distinct (map key (nub_by key seen xs))"
proof (induction xs arbitrary: seen)
  case (Cons x xs)
  have "key x \<notin> key ` set (nub_by key (key x # seen) xs)"
    by (simp add: nub_by_keys)
  with Cons show ?case by simp
qed simp

lemma nub_by_id: "distinct (map key xs) \<Longrightarrow> key ` set xs \<inter> set seen = {} \<Longrightarrow> nub_by key seen xs = xs"
  by (induction xs arbitrary: seen) auto

lemma nub_by_first:
  assumes "z \<in> set (nub_by key seen xs)"
  shows "\<exists>ys zs. xs = ys @ z # zs \<and> key z \<notin> key ` set ys \<and> key z \<notin> set seen"
  using assms
proof (induction xs arbitrary: seen)
  case (Cons x xs)
  consider "key x \<in> set seen" "z \<in> set (nub_by key seen xs)"
    | "key x \<notin> set seen" "z = x"
    | "key x \<notin> set seen" "z \<in> set (nub_by key (key x # seen) xs)"
    using Cons.prems by (auto split: if_splits)
  then show ?case
  proof cases
    case 1
    from Cons.IH [OF 1(2)] obtain ys zs
      where "xs = ys @ z # zs" "key z \<notin> key ` set ys" "key z \<notin> set seen" by blast
    with 1(1) have "x # xs = (x # ys) @ z # zs \<and> key z \<notin> key ` set (x # ys) \<and> key z \<notin> set seen"
      by auto
    then show ?thesis by blast
  next
    case 2
    then have "x # xs = [] @ z # xs \<and> key z \<notin> key ` set [] \<and> key z \<notin> set seen" by simp
    then show ?thesis by blast
  next
    case 3
    from Cons.IH [OF 3(2)] obtain ys zs
      where "xs = ys @ z # zs" "key z \<notin> key ` set ys" "key z \<notin> set (key x # seen)" by blast
    then have "x # xs = (x # ys) @ z # zs \<and> key z \<notin> key ` set (x # ys) \<and> key z \<notin> set seen"
      by auto
    then show ?thesis by blast
  qed
qed simp

lemma nub_by_nonempty: "xs \<noteq> [] \<Longrightarrow> nub_by key [] xs \<noteq> []"
  by (cases xs) auto

subsection \<open>Sorting by a comparator\<close>

text \<open>
  \<open>sort.Slice\<close>, \<open>sort.SliceStable\<close> and \<open>slices.SortFunc\<close> take the comparison as a function.
  The model is insertion by that function. It is stable, which is what \<open>SliceStable\<close> promises;
  where the code calls an unstable sort, the users below show that equal elements cannot be told
  apart or do not occur, so the result is the one every correct sort returns.
\<close>

fun insert_by :: "('a \<Rightarrow> 'a \<Rightarrow> bool) \<Rightarrow> 'a \<Rightarrow> 'a list \<Rightarrow> 'a list" where
  "insert_by lt x [] = [x]"
| "insert_by lt x (y # ys) = (if lt y x then y # insert_by lt x ys else x # y # ys)"

fun sort_by :: "('a \<Rightarrow> 'a \<Rightarrow> bool) \<Rightarrow> 'a list \<Rightarrow> 'a list" where
  "sort_by lt [] = []"
| "sort_by lt (x # xs) = insert_by lt x (sort_by lt xs)"

lemma mset_insert_by: "mset (insert_by lt x xs) = add_mset x (mset xs)"
  by (induction xs) auto

lemma list_sorted_mset_eq:
  fixes xs ys :: "'k::linorder list"
  assumes "sorted xs" and "sorted ys" and "mset xs = mset ys"
  shows "xs = ys"
  using assms by (metis properties_for_sort)

lemma mset_sort_by [simp]: "mset (sort_by lt xs) = mset xs"
  by (induction xs) (auto simp: mset_insert_by)

lemma mset_map_sort_by [simp]: "mset (map f (sort_by lt xs)) = mset (map f xs)"
  by (simp only: mset_map mset_sort_by)

lemma set_sort_by [simp]: "set (sort_by lt xs) = set xs"
  using mset_sort_by by (metis set_mset_mset)

lemma length_sort_by [simp]: "length (sort_by lt xs) = length xs"
  using mset_sort_by by (metis size_mset)

lemma sort_by_eq_Nil [simp]: "sort_by lt xs = [] \<longleftrightarrow> xs = []"
  by (metis length_0_conv length_sort_by)

text \<open>
  The interface of a comparator: on the values the code compares (the carrier \<open>good\<close>) it is the
  strict order of a key in a linear order.
\<close>

locale key_comparator =
  fixes lt :: "'a \<Rightarrow> 'a \<Rightarrow> bool"
    and key :: "'a \<Rightarrow> 'k::linorder"
    and good :: "'a \<Rightarrow> bool"
  assumes less_key: "good x \<Longrightarrow> good y \<Longrightarrow> lt x y \<longleftrightarrow> key x < key y"
begin

lemma sort_by_key: "\<forall>x \<in> set xs. good x \<Longrightarrow> sort_by lt xs = sort_key key xs"
proof (induction xs)
  case (Cons x xs)
  have ins: "insert_by lt x ys = insort_key key x ys" if "\<forall>y \<in> set ys. good y" for ys
    using that Cons.prems by (induction ys) (auto simp: less_key not_le)
  from Cons have "sort_by lt xs = sort_key key xs" by simp
  moreover have "\<forall>y \<in> set (sort_by lt xs). good y" using Cons.prems by simp
  ultimately show ?case using ins by simp
qed simp

lemma sorted_sort_by: "\<forall>x \<in> set xs. good x \<Longrightarrow> sorted (map key (sort_by lt xs))"
  by (simp add: sort_by_key)

lemma sort_by_sorted: "\<forall>x \<in> set xs. good x \<Longrightarrow> sorted (map key xs) \<Longrightarrow> sort_by lt xs = xs"
  by (simp add: sort_by_key sort_key_id_if_sorted)

lemma sort_by_perm:
  assumes "mset xs = mset ys" and "inj_on key (set xs)" and "\<forall>x \<in> set xs. good x"
  shows "sort_by lt xs = sort_by lt ys"
proof -
  have eq: "set xs = set ys" using assms(1) by (metis set_mset_mset)
  with assms(3) have "sort_by lt xs = sort_key key xs" "sort_by lt ys = sort_key key ys"
    by (simp_all add: sort_by_key)
  moreover have "sort_key key xs = sort_key key ys"
  proof (rule map_inj_on)
    show "map key (sort_key key xs) = map key (sort_key key ys)"
      by (rule list_sorted_mset_eq) (simp_all add: assms(1))
    show "inj_on key (set (sort_key key xs) \<union> set (sort_key key ys))"
      using assms(2) eq by simp
  qed
  ultimately show ?thesis by simp
qed

end

text \<open>Strictly sorted lists with the same elements are equal.\<close>

lemma sorted_key_set_unique:
  fixes key :: "'a \<Rightarrow> 'k::linorder"
  assumes "sorted (map key xs)" "sorted (map key ys)" "distinct (map key xs)" "distinct (map key ys)"
    and "set xs = set ys"
  shows "xs = ys"
proof (rule map_inj_on)
  show "map key xs = map key ys"
    using assms by (intro sorted_distinct_set_unique) (auto simp: image_set [symmetric])
  show "inj_on key (set xs \<union> set ys)" using assms(3,5) by (simp add: distinct_map)
qed

subsection \<open>Budgets\<close>

text \<open>
  A resource that operations consume one unit at a time. \<open>run_ops\<close> counts the operations that
  consumed a unit; the locale says what a provider promises, and its client lemma is that no
  sequence of operations consumes more than what was left.
\<close>

fun run_ops :: "('e \<Rightarrow> 's \<Rightarrow> bool \<times> 's) \<Rightarrow> 'e list \<Rightarrow> 's \<Rightarrow> nat \<times> 's" where
  "run_ops doit [] s = (0, s)"
| "run_ops doit (e # es) s =
     (case doit e s of (consumed, s') \<Rightarrow>
        (case run_ops doit es s' of (n, s'') \<Rightarrow> ((if consumed then Suc n else n), s'')))"

locale budget =
  fixes doit :: "'e \<Rightarrow> 's \<Rightarrow> bool \<times> 's"
    and used :: "'s \<Rightarrow> int"
    and limit :: "'s \<Rightarrow> int"
    and ok :: "'s \<Rightarrow> bool"
  assumes ok_step: "ok s \<Longrightarrow> ok (snd (doit e s))"
    and limit_step: "ok s \<Longrightarrow> limit (snd (doit e s)) = limit s"
    and used_step: "ok s \<Longrightarrow> used (snd (doit e s)) = used s + (if fst (doit e s) then 1 else 0)"
    and within: "ok s \<Longrightarrow> used s \<le> limit s"
begin

lemma run_ops_budget:
  "ok s \<Longrightarrow> run_ops doit es s = (n, s') \<Longrightarrow>
     ok s' \<and> limit s' = limit s \<and> used s' = used s + int n"
proof (induction es arbitrary: s n s')
  case (Cons e es)
  obtain c t where c: "doit e s = (c, t)" by (cases "doit e s")
  obtain m u where m: "run_ops doit es t = (m, u)" by (cases "run_ops doit es t")
  from Cons.prems c m have n: "n = (if c then Suc m else m)" "s' = u" by (auto split: if_splits)
  from ok_step [OF Cons.prems(1), of e] limit_step [OF Cons.prems(1), of e]
    used_step [OF Cons.prems(1), of e] c
  have "ok t" "limit t = limit s" "used t = used s + (if c then 1 else 0)" by simp_all
  with Cons.IH [OF _ m] n show ?case by simp
qed simp

lemma run_ops_within: "ok s \<Longrightarrow> run_ops doit es s = (n, s') \<Longrightarrow> used s + int n \<le> limit s"
  using run_ops_budget [of s es n s'] within [of s'] by simp

end

end
