(* ===== verification/GoText.thy ===== *)
theory GoText
  imports Prelude
begin

text \<open>
  The part of Go's string library that the program uses. A Go string is a sequence of bytes, so
  the model is \<^typ>\<open>string\<close> with one \<^typ>\<open>char\<close> per byte; the order on strings is Go's bytewise
  order. Runes are decoded from UTF-8 as package \<open>unicode/utf8\<close> does, malformed bytes included,
  because \<open>strings.TrimSpace\<close> and \<open>strings.Fields\<close> look at runes.
\<close>

type_synonym gostring = string

subsection \<open>Runes (package utf8)\<close>

definition rune_error :: nat where
  "rune_error = 65533"

definition byte :: "char \<Rightarrow> nat" where
  "byte c = of_char c"

definition cont_byte :: "nat \<Rightarrow> bool" where
  "cont_byte b \<longleftrightarrow> 128 \<le> b \<and> b \<le> 191"

definition rune_start :: "char \<Rightarrow> bool" where
  "rune_start c \<longleftrightarrow> \<not> cont_byte (byte c)"

text \<open>The range of the second byte, and the length, that a leading byte asks for.\<close>

definition lead_info :: "nat \<Rightarrow> (nat \<times> nat \<times> nat) option" where
  "lead_info b =
     (if 194 \<le> b \<and> b \<le> 223 then Some (2, 128, 191)
      else if b = 224 then Some (3, 160, 191)
      else if b = 237 then Some (3, 128, 159)
      else if 225 \<le> b \<and> b \<le> 239 then Some (3, 128, 191)
      else if b = 240 then Some (4, 144, 191)
      else if b = 244 then Some (4, 128, 143)
      else if 241 \<le> b \<and> b \<le> 243 then Some (4, 128, 191)
      else None)"

text \<open>\<open>utf8.DecodeRuneInString\<close>: the first rune and its width in bytes.\<close>

fun decode_rune :: "gostring \<Rightarrow> nat \<times> nat" where
  "decode_rune [] = (rune_error, 0)"
| "decode_rune (c # cs) =
     (let b = byte c in
      if b < 128 then (b, 1)
      else (case lead_info b of
              None \<Rightarrow> (rune_error, 1)
            | Some (n, lo, hi) \<Rightarrow>
                (case map byte cs of
                   b1 # bs \<Rightarrow>
                     if b1 < lo \<or> hi < b1 then (rune_error, 1)
                     else if n = 2 then ((b - 192) * 64 + (b1 - 128), 2)
                     else (case bs of
                             b2 # bs' \<Rightarrow>
                               if \<not> cont_byte b2 then (rune_error, 1)
                               else if n = 3 then ((b - 224) * 4096 + (b1 - 128) * 64 + (b2 - 128), 3)
                               else (case bs' of
                                       b3 # _ \<Rightarrow>
                                         if \<not> cont_byte b3 then (rune_error, 1)
                                         else ((b - 240) * 262144 + (b1 - 128) * 4096
                                                + (b2 - 128) * 64 + (b3 - 128), 4)
                                     | [] \<Rightarrow> (rune_error, 1))
                           | [] \<Rightarrow> (rune_error, 1))
                 | [] \<Rightarrow> (rune_error, 1))))"

declare decode_rune.simps(2) [simp del]

lemma decode_rune_width: "s \<noteq> [] \<Longrightarrow> 1 \<le> snd (decode_rune s) \<and> snd (decode_rune s) \<le> 4"
  by (cases s) (auto simp: decode_rune.simps Let_def split: option.splits list.splits prod.splits)

lemma decode_rune_ascii [simp]: "byte c < 128 \<Longrightarrow> decode_rune (c # cs) = (byte c, 1)"
  by (simp add: decode_rune.simps)

text \<open>
  \<open>for _, r := range s\<close>: the runes of a string, each with the bytes it was decoded from.
\<close>

function chunks :: "gostring \<Rightarrow> (nat \<times> gostring) list" where
  "chunks [] = []"
| "chunks (c # cs) =
     (let rw = decode_rune (c # cs)
      in (fst rw, take (snd rw) (c # cs)) # chunks (drop (snd rw) (c # cs)))"
  by pat_completeness auto
termination
proof (relation "measure length")
  fix c :: char and cs rw
  assume "rw = decode_rune (c # cs)"
  then have "1 \<le> snd rw" using decode_rune_width [of "c # cs"] by simp
  then show "(drop (snd rw) (c # cs), c # cs) \<in> measure length" by simp
qed simp

declare chunks.simps(2) [simp del]

lemma chunks_ascii [simp]: "byte c < 128 \<Longrightarrow> chunks (c # cs) = (byte c, [c]) # chunks cs"
  by (simp add: chunks.simps)

lemma concat_chunks: "concat (map snd (chunks s)) = s"
proof (induction s rule: chunks.induct)
  case (2 c cs)
  then show ?case by (simp add: chunks.simps Let_def del: take_Cons' drop_Cons')
qed simp

definition runes :: "gostring \<Rightarrow> nat list" where
  "runes s = map fst (chunks s)"

text \<open>\<open>utf8.ValidString\<close>: only real encodings; an encoded U+FFFD is three bytes wide.\<close>

definition valid_utf8 :: "gostring \<Rightarrow> bool" where
  "valid_utf8 s \<longleftrightarrow> (\<forall>(r, bs) \<in> set (chunks s). \<not> (r = rune_error \<and> length bs = 1))"

text \<open>\<open>utf8.DecodeLastRuneInString\<close>: it looks back at most four bytes for a leading byte.\<close>

definition decode_last_rune :: "gostring \<Rightarrow> nat \<times> nat" where
  "decode_last_rune s =
     (if s = [] then (rune_error, 0)
      else if byte (last s) < 128 then (byte (last s), 1)
      else (case filter (\<lambda>k. k \<le> length s \<and> rune_start (s ! (length s - k))) [2, 3, 4] of
              [] \<Rightarrow> (rune_error, 1)
            | k # _ \<Rightarrow>
                (let rw = decode_rune (drop (length s - k) s)
                 in if snd rw = k then rw else (rune_error, 1))))"

lemma decode_last_rune_width:
  "s \<noteq> [] \<Longrightarrow> 1 \<le> snd (decode_last_rune s) \<and> snd (decode_last_rune s) \<le> length s"
proof -
  assume ne: "s \<noteq> []"
  from ne have len: "1 \<le> length s" by (cases s) auto
  show ?thesis
  proof (cases "byte (last s) < 128")
    case True
    with ne len show ?thesis by (simp add: decode_last_rune_def)
  next
    case False
    define ks where "ks = filter (\<lambda>k. k \<le> length s \<and> rune_start (s ! (length s - k))) [2, 3, 4]"
    from ne False have eq: "decode_last_rune s = (case ks of [] \<Rightarrow> (rune_error, 1)
        | k # _ \<Rightarrow> (let rw = decode_rune (drop (length s - k) s)
                     in if snd rw = k then rw else (rune_error, 1)))"
      unfolding decode_last_rune_def ks_def by (simp only: if_False)
    show ?thesis
    proof (cases ks)
      case Nil
      with eq len show ?thesis by simp
    next
      case (Cons k ks')
      from filter_head [OF Cons [unfolded ks_def]] have "k \<le> length s \<and> 1 \<le> k" by auto
      with Cons eq len show ?thesis by (simp add: Let_def)
    qed
  qed
qed

text \<open>\<open>unicode.IsSpace\<close>\<close>

definition is_space :: "nat \<Rightarrow> bool" where
  "is_space r \<longleftrightarrow>
     (9 \<le> r \<and> r \<le> 13) \<or> r = 32 \<or> r = 133 \<or> r = 160 \<or> r = 5760 \<or> (8192 \<le> r \<and> r \<le> 8202)
     \<or> r = 8232 \<or> r = 8233 \<or> r = 8239 \<or> r = 8287 \<or> r = 12288"

text \<open>\<open>unicode.IsControl\<close>\<close>

definition is_control :: "nat \<Rightarrow> bool" where
  "is_control r \<longleftrightarrow> r < 32 \<or> (127 \<le> r \<and> r < 160)"

subsection \<open>Package strings\<close>

definition has_prefix :: "gostring \<Rightarrow> gostring \<Rightarrow> bool" where
  "has_prefix s p \<longleftrightarrow> take (length p) s = p"

definition has_suffix :: "gostring \<Rightarrow> gostring \<Rightarrow> bool" where
  "has_suffix s p \<longleftrightarrow> length p \<le> length s \<and> drop (length s - length p) s = p"

definition trim_prefix :: "gostring \<Rightarrow> gostring \<Rightarrow> gostring" where
  "trim_prefix s p = (if has_prefix s p then drop (length p) s else s)"

definition trim_suffix :: "gostring \<Rightarrow> gostring \<Rightarrow> gostring" where
  "trim_suffix s p = (if has_suffix s p then take (length s - length p) s else s)"

text \<open>\<open>strings.Split\<close> with a one-byte separator.\<close>

fun split_on :: "char \<Rightarrow> gostring \<Rightarrow> gostring list" where
  "split_on d [] = [[]]"
| "split_on d (c # cs) =
     (if c = d then [] # split_on d cs
      else (case split_on d cs of [] \<Rightarrow> [[c]] | w # ws \<Rightarrow> (c # w) # ws))"

fun join :: "gostring \<Rightarrow> gostring list \<Rightarrow> gostring" where
  "join sep [] = []"
| "join sep [w] = w"
| "join sep (w # v # ws) = w @ sep @ join sep (v # ws)"

text \<open>\<open>strings.Cut\<close> at the first occurrence of a byte.\<close>

fun cut_at :: "char \<Rightarrow> gostring \<Rightarrow> gostring \<times> gostring \<times> bool" where
  "cut_at d [] = ([], [], False)"
| "cut_at d (c # cs) =
     (if c = d then ([], cs, True)
      else (case cut_at d cs of (a, b, f) \<Rightarrow> (c # a, b, f)))"

text \<open>\<open>strings.IndexByte\<close>: \<open>None\<close> is the code's \<open>-1\<close>.\<close>

fun index_byte :: "gostring \<Rightarrow> char \<Rightarrow> nat option" where
  "index_byte [] d = None"
| "index_byte (c # cs) d = (if c = d then Some 0 else map_option Suc (index_byte cs d))"

definition replace_byte :: "char \<Rightarrow> char \<Rightarrow> gostring \<Rightarrow> gostring" where
  "replace_byte old new s = map (\<lambda>c. if c = old then new else c) s"

definition contains_any :: "gostring \<Rightarrow> gostring \<Rightarrow> bool" where
  "contains_any s cs \<longleftrightarrow> (\<exists>c \<in> set s. c \<in> set cs)"

text \<open>\<open>strings.TrimSpace\<close> trims spaces from the left, then from the right.\<close>

definition trim_left :: "gostring \<Rightarrow> gostring" where
  "trim_left s = concat (map snd (dropWhile (\<lambda>ch. is_space (fst ch)) (chunks s)))"

function trim_right :: "gostring \<Rightarrow> gostring" where
  "trim_right s =
     (if s \<noteq> [] \<and> is_space (fst (decode_last_rune s))
      then trim_right (take (length s - snd (decode_last_rune s)) s) else s)"
  by pat_completeness auto
termination
proof (relation "measure length")
  fix s :: gostring
  assume "s \<noteq> [] \<and> is_space (fst (decode_last_rune s))"
  then show "(take (length s - snd (decode_last_rune s)) s, s) \<in> measure length"
    using decode_last_rune_width [of s] by auto
qed simp

declare trim_right.simps [simp del]

definition trim_space :: "gostring \<Rightarrow> gostring" where
  "trim_space s = trim_right (trim_left s)"

text \<open>A text whose first and last bytes are ASCII and no spaces is left alone.\<close>

definition plain_ends :: "gostring \<Rightarrow> bool" where
  "plain_ends s \<longleftrightarrow> s \<noteq> [] \<and> byte (hd s) < 128 \<and> \<not> is_space (byte (hd s))
     \<and> byte (last s) < 128 \<and> \<not> is_space (byte (last s))"

lemma trim_space_plain: "plain_ends s \<Longrightarrow> trim_space s = s"
proof -
  assume p: "plain_ends s"
  then obtain c cs where s: "s = c # cs" by (cases s) (auto simp: plain_ends_def)
  with p have "trim_left s = concat (map snd (chunks s))"
    by (simp add: trim_left_def plain_ends_def)
  then have "trim_left s = s" by (simp add: concat_chunks)
  with p show ?thesis
    by (subst trim_space_def, subst trim_right.simps) (simp add: plain_ends_def decode_last_rune_def)
qed

text \<open>A text that starts with an ASCII byte that is no space is not blank.\<close>

lemma decode_last_rune_after_ascii:
  assumes "byte c < 128" "s \<noteq> []"
  shows "snd (decode_last_rune (c # s)) \<le> length s"
proof (cases "byte (last s) < 128")
  case True
  with assms show ?thesis by (cases s) (auto simp: decode_last_rune_def)
next
  case False
  define ks where "ks = filter (\<lambda>k. k \<le> length (c # s) \<and> rune_start ((c # s) ! (length (c # s) - k))) [2, 3, 4]"
  from assms False have eq: "decode_last_rune (c # s) = (case ks of [] \<Rightarrow> (rune_error, 1)
      | k # _ \<Rightarrow> (let rw = decode_rune (drop (length (c # s) - k) (c # s))
                   in if snd rw = k then rw else (rune_error, 1)))"
    unfolding decode_last_rune_def ks_def by (simp only: last.simps if_False list.distinct simp_thms)
  have pos: "1 \<le> length s" using assms(2) by (cases s) auto
  show ?thesis
  proof (cases ks)
    case Nil
    with eq pos show ?thesis by simp
  next
    case (Cons k ks')
    from filter_head [OF Cons [unfolded ks_def]] have k: "k \<le> length (c # s) \<and> 2 \<le> k" by auto
    show ?thesis
    proof (cases "k = length (c # s)")
      case True
      with assms k Cons eq pos show ?thesis by simp
    next
      case False
      with k Cons eq pos show ?thesis by (auto simp: Let_def)
    qed
  qed
qed

lemma trim_right_nonblank:
  "s \<noteq> [] \<Longrightarrow> byte (hd s) < 128 \<Longrightarrow> \<not> is_space (byte (hd s)) \<Longrightarrow> trim_right s \<noteq> []"
proof (induction s rule: trim_right.induct)
  case (1 s)
  show ?case
  proof (cases "is_space (fst (decode_last_rune s))")
    case True
    obtain c t where s: "s = c # t" using 1(2) by (cases s) auto
    have "t \<noteq> []" using True 1(3,4) s by (auto simp: decode_last_rune_def)
    with decode_last_rune_after_ascii [of c t] 1(3) s
    have "0 < length s - snd (decode_last_rune s)" by auto
    then obtain t' where t': "take (length s - snd (decode_last_rune s)) s = c # t'"
      using s by (cases "length s - snd (decode_last_rune s)") auto
    have "trim_right (take (length s - snd (decode_last_rune s)) s) \<noteq> []"
      by (rule 1(1)) (use 1(2,3,4) True t' s in simp_all)
    with 1(2) True show ?thesis by (subst trim_right.simps) simp
  next
    case False
    with 1(2) show ?thesis by (subst trim_right.simps) auto
  qed
qed

lemma trim_space_nonblank:
  "byte c < 128 \<Longrightarrow> \<not> is_space (byte c) \<Longrightarrow> trim_space (c # s) \<noteq> []"
  using trim_right_nonblank [of "c # s"]
  by (simp add: trim_space_def trim_left_def concat_chunks)

text \<open>\<open>strings.Fields\<close>: the maximal runs of runes that are not spaces.\<close>

fun group_fields :: "gostring \<Rightarrow> (nat \<times> gostring) list \<Rightarrow> gostring list" where
  "group_fields acc [] = (if acc = [] then [] else [acc])"
| "group_fields acc ((r, bs) # rest) =
     (if is_space r then (if acc = [] then group_fields [] rest else acc # group_fields [] rest)
      else group_fields (acc @ bs) rest)"

definition str_fields :: "gostring \<Rightarrow> gostring list" where
  "str_fields s = group_fields [] (chunks s)"

text \<open>
  \<open>strings.ToValidUTF8\<close>: every run of malformed bytes becomes one replacement.
\<close>

fun valid_chunks :: "gostring \<Rightarrow> bool \<Rightarrow> (nat \<times> gostring) list \<Rightarrow> gostring" where
  "valid_chunks rep inbad [] = []"
| "valid_chunks rep inbad ((r, bs) # rest) =
     (if r = rune_error \<and> length bs = 1
      then (if inbad then [] else rep) @ valid_chunks rep True rest
      else bs @ valid_chunks rep False rest)"

definition to_valid_utf8 :: "gostring \<Rightarrow> gostring \<Rightarrow> gostring" where
  "to_valid_utf8 s rep = valid_chunks rep False (chunks s)"

text \<open>The ASCII part of \<open>strings.ToLower\<close>.\<close>

definition ascii_lower :: "char \<Rightarrow> char" where
  "ascii_lower c = (if 65 \<le> byte c \<and> byte c \<le> 90 then char_of (byte c + 32) else c)"

lemma trim_space_Nil [simp]: "trim_space [] = []"
  by (simp add: trim_space_def trim_left_def trim_right.simps)

subsection \<open>Facts about splitting and joining\<close>

lemma split_on_nonempty [simp]: "split_on d s \<noteq> []"
  by (cases s) (auto split: list.splits)

lemma split_on_no_sep: "d \<notin> set s \<Longrightarrow> split_on d s = [s]"
  by (induction s) auto

lemma split_on_parts: "w \<in> set (split_on d s) \<Longrightarrow> d \<notin> set w \<and> set w \<subseteq> set s"
proof (induction s arbitrary: w)
  case (Cons c cs)
  obtain v vs where "split_on d cs = v # vs" by (metis list.exhaust split_on_nonempty)
  with Cons.IH Cons.prems show ?case by (fastforce split: if_splits)
qed simp

lemma split_on_append: "d \<notin> set w \<Longrightarrow> split_on d (w @ d # s) = w # split_on d s"
  by (induction w) auto

lemma split_on_sep: "split_on d (a @ d # b) = split_on d a @ split_on d b"
proof (induction a)
  case (Cons c a)
  obtain w ws where "split_on d a = w # ws" by (metis list.exhaust split_on_nonempty)
  with Cons show ?case by auto
qed simp

lemma join_split_on: "join [d] (split_on d s) = s"
proof (induction s)
  case (Cons c cs)
  obtain v vs where vs: "split_on d cs = v # vs" by (metis list.exhaust split_on_nonempty)
  with Cons show ?case by (cases vs) auto
qed simp

lemma join_append: "xs \<noteq> [] \<Longrightarrow> ys \<noteq> [] \<Longrightarrow> join sep (xs @ ys) = join sep xs @ sep @ join sep ys"
proof (induction xs)
  case (Cons x xs)
  then show ?case by (cases xs; cases ys) auto
qed simp

text \<open>A component is what stands between two separators or ends.\<close>

definition component_at :: "char \<Rightarrow> gostring \<Rightarrow> gostring \<Rightarrow> bool" where
  "component_at d w s \<longleftrightarrow> d \<notin> set w \<and>
     (\<exists>a b. (s = w \<or> s = a @ d # w \<or> s = w @ d # b \<or> s = a @ d # w @ d # b))"

lemma component_at_iff: "component_at d w s \<longleftrightarrow> w \<in> set (split_on d s)"
proof
  assume "component_at d w s"
  then show "w \<in> set (split_on d s)"
    by (auto simp: component_at_def split_on_no_sep split_on_sep)
next
  show "w \<in> set (split_on d s) \<Longrightarrow> component_at d w s"
  proof (induction s arbitrary: w)
    case (Cons c s)
    obtain v vs where v: "split_on d s = v # vs" by (metis list.exhaust split_on_nonempty)
    have front: "v = s \<or> (\<exists>b. s = v @ d # b)"
      using join_split_on [of d s] v by (cases vs) auto
    have later: "\<exists>a b. s = a @ d # w \<or> s = a @ d # w @ d # b" if w: "w \<in> set vs" for w
    proof -
      obtain x y where xy: "vs = x @ w # y" using split_list [OF w] by blast
      have "s = join [d] ((v # x) @ (w # y))" using join_split_on [of d s] v xy by simp
      also have "\<dots> = join [d] (v # x) @ d # join [d] (w # y)"
        using join_append [of "v # x" "w # y" "[d]"] by simp
      finally show ?thesis by (cases y) auto
    qed
    from Cons.prems v have
      "(c = d \<and> w = []) \<or> (c = d \<and> w \<in> set (v # vs)) \<or> (c \<noteq> d \<and> w = c # v)
       \<or> (c \<noteq> d \<and> w \<in> set vs)" by (auto split: if_splits)
    then consider (1) "c = d \<and> w = []" | (2) "c = d \<and> w \<in> set (v # vs)"
      | (3) "c \<noteq> d \<and> w = c # v" | (4) "c \<noteq> d \<and> w \<in> set vs" by blast
    then show ?case
    proof cases
      case 1
      then show ?thesis by (auto simp: component_at_def)
    next
      case 2
      with Cons.IH v have "component_at d w s" by simp
      with 2 show ?thesis unfolding component_at_def by (metis append_Cons append_Nil)
    next
      case 3
      with split_on_parts [of v d s] v front show ?thesis by (fastforce simp: component_at_def)
    next
      case 4
      with split_on_parts [of w d s] v 4 have "d \<notin> set w" by simp
      with later [of w] 4 show ?thesis unfolding component_at_def by (metis append_Cons)
    qed
  qed (simp add: component_at_def)
qed

lemma split_join:
  "ws \<noteq> [] \<Longrightarrow> \<forall>w \<in> set ws. d \<notin> set w \<Longrightarrow> split_on d (join [d] ws) = ws"
proof (induction "[d]" ws rule: join.induct)
  case (3 w v ws)
  then show ?case by (simp add: split_on_append)
qed (auto simp: split_on_no_sep)

lemma join_eq_Nil: "\<forall>w \<in> set ws. w \<noteq> [] \<Longrightarrow> join sep ws = [] \<longleftrightarrow> ws = []"
  by (induction sep ws rule: join.induct) auto

lemma hd_join: "ws \<noteq> [] \<Longrightarrow> hd ws \<noteq> [] \<Longrightarrow> hd (join sep ws) = hd (hd ws)"
  by (induction sep ws rule: join.induct) auto

lemma set_join: "set (join sep ws) \<subseteq> (\<Union>w \<in> set ws. set w) \<union> set sep"
  by (induction sep ws rule: join.induct) auto

lemma index_byte_None: "index_byte s d = None \<longleftrightarrow> d \<notin> set s"
  by (induction s) auto

lemma index_byte_Some: "index_byte s d = Some i \<Longrightarrow> i < length s \<and> s ! i = d"
  by (induction s arbitrary: i) (auto split: if_splits)

lemma cut_at_spec:
  "cut_at d s = (a, b, f) \<Longrightarrow> d \<notin> set a \<and> (if f then s = a @ d # b else s = a \<and> b = [])"
  by (induction s arbitrary: a b f) (auto split: if_splits prod.splits)

lemma has_prefix_append [simp]: "has_prefix (p @ s) p"
  by (simp add: has_prefix_def)

subsection \<open>Runes that only ASCII bytes give\<close>

lemma lead_info_bounds:
  "lead_info b = Some (n, lo, hi) \<Longrightarrow>
     (n = 2 \<and> 194 \<le> b \<or> n = 3 \<and> 225 \<le> b \<or> n = 3 \<and> b = 224 \<and> lo = 160
      \<or> n = 4 \<and> 241 \<le> b \<or> n = 4 \<and> b = 240 \<and> lo = 144) \<and> 128 \<le> lo"
  by (auto simp: lead_info_def split: if_splits)

lemma decode_rune_non_ascii:
  assumes "128 \<le> byte c"
  shows "128 \<le> fst (decode_rune (c # cs))"
proof (cases "lead_info (byte c)")
  case None
  with assms show ?thesis by (simp add: decode_rune.simps rune_error_def)
next
  case (Some i)
  obtain n lo hi where i: "i = (n, lo, hi)" by (cases i)
  note b = lead_info_bounds [OF Some [unfolded i]]
  have step: "128 \<le> fst (if p then (rune_error, 1) else q)" if "\<not> p \<Longrightarrow> 128 \<le> fst q" for p and q :: "nat \<times> nat"
    using that by (simp add: rune_error_def)
  have err: "128 \<le> fst (rune_error, 1 :: nat)" by (simp add: rune_error_def)
  show ?thesis
    using assms Some i b err
    by (simp add: decode_rune.simps Let_def rune_error_def split: list.split)
      (auto simp: rune_error_def)
qed

lemma runes_Cons_ascii [simp]: "byte c < 128 \<Longrightarrow> runes (c # cs) = byte c # runes cs"
  by (simp add: runes_def)

lemma runes_Nil [simp]: "runes [] = []"
  by (simp add: runes_def)

text \<open>A test that only ASCII runes pass is a test of the bytes.\<close>

lemma runes_all:
  assumes "\<And>r. P r \<Longrightarrow> r < 128"
  shows "list_all P (runes s) \<longleftrightarrow> list_all (\<lambda>c. P (byte c)) s"
proof (induction s)
  case (Cons c cs)
  show ?case
  proof (cases "byte c < 128")
    case True
    with Cons show ?thesis by simp
  next
    case False
    then have "\<not> P (fst (decode_rune (c # cs)))"
      using decode_rune_non_ascii [of c cs] assms by fastforce
    moreover have "\<not> P (byte c)" using False assms by blast
    ultimately show ?thesis by (simp add: runes_def chunks.simps Let_def)
  qed
qed simp

end
