(* ===== verification/GoHash.thy ===== *)
theory GoHash
  imports GoText "HOL-Library.Word"
begin

unbundle bit_operations_syntax

text \<open>
  The hashing the program takes from Go's library: \<open>binary.BigEndian.PutUint64\<close>,
  \<open>crypto/sha256\<close> (FIPS 180-4, on 32-bit words that wrap) and \<open>encoding/hex\<close>. Digests are byte
  strings. The framing lemmas say that the length-prefixed encoding of a field sequence
  determines the fields, so two inputs of a framed hash differ whenever their fields do.
\<close>

type_synonym u32 = "32 word"

subsection \<open>Big-endian integers\<close>

text \<open>\<open>PutUint64\<close> of a Go \<open>int\<close>: conversion to \<open>uint64\<close> wraps, eight bytes, high byte first.\<close>

definition be64 :: "int \<Rightarrow> gostring" where
  "be64 n = map (\<lambda>k. char_of (nat ((n mod 18446744073709551616) div 256 ^ k mod 256)))
              [7, 6, 5, 4, 3, 2, 1, 0]"

definition be32 :: "u32 \<Rightarrow> gostring" where
  "be32 w = map (\<lambda>k. char_of (unat w div 256 ^ k mod 256)) [3, 2, 1, 0]"

definition un_be :: "gostring \<Rightarrow> int" where
  "un_be s = foldl (\<lambda>acc c. acc * 256 + int (byte c)) 0 s"

lemma length_be64 [simp]: "length (be64 n) = 8"
  by (simp add: be64_def)

lemma length_be32 [simp]: "length (be32 w) = 4"
  by (simp add: be32_def)

lemma byte_char_of: "n < 256 \<Longrightarrow> byte (char_of n) = n"
  by (simp add: byte_def)

lemma horner:
  assumes "j = Suc k"
  shows "(m :: int) div 256 ^ j * 256 + m div 256 ^ k mod 256 = m div 256 ^ k"
proof -
  have "m div 256 ^ j = m div 256 ^ k div 256"
    by (simp add: assms zdiv_zmult2_eq [symmetric] mult.commute)
  then show ?thesis by simp
qed

lemma un_be_be64: "un_be (be64 n) = n mod 18446744073709551616"
proof -
  define m where "m = n mod 18446744073709551616"
  have m: "0 \<le> m" "m < 18446744073709551616" by (auto simp: m_def)
  have b: "int (byte (char_of (nat (m div 256 ^ k mod 256)))) = m div 256 ^ k mod 256" for k
  proof -
    have r: "0 \<le> m div 256 ^ k mod 256" "m div 256 ^ k mod 256 < 256" by auto
    then have "nat (m div 256 ^ k mod 256) < 256" by linarith
    with r show ?thesis by (simp add: byte_char_of)
  qed
  have "un_be (be64 n) = ((((((((m div 256 ^ 7 mod 256) * 256 + m div 256 ^ 6 mod 256) * 256
      + m div 256 ^ 5 mod 256) * 256 + m div 256 ^ 4 mod 256) * 256 + m div 256 ^ 3 mod 256) * 256
      + m div 256 ^ 2 mod 256) * 256 + m div 256 ^ 1 mod 256) * 256 + m div 256 ^ 0 mod 256)"
    by (simp only: un_be_def be64_def m_def [symmetric] list.map foldl.simps b add_0 mult_zero_left)
  also have "m div 256 ^ 7 mod 256 = m div 256 ^ 7"
  proof (rule mod_pos_pos_trivial)
    show "0 \<le> m div 256 ^ 7" using m by (simp add: pos_imp_zdiv_nonneg_iff)
    have "m div 256 ^ 7 \<le> 18446744073709551615 div 256 ^ 7"
      by (rule zdiv_mono1) (use m in simp_all)
    then show "m div 256 ^ 7 < 256" by simp
  qed
  also have "m div 256 ^ 7 * 256 + m div 256 ^ 6 mod 256 = m div 256 ^ 6" by (rule horner) simp
  also have "m div 256 ^ 6 * 256 + m div 256 ^ 5 mod 256 = m div 256 ^ 5" by (rule horner) simp
  also have "m div 256 ^ 5 * 256 + m div 256 ^ 4 mod 256 = m div 256 ^ 4" by (rule horner) simp
  also have "m div 256 ^ 4 * 256 + m div 256 ^ 3 mod 256 = m div 256 ^ 3" by (rule horner) simp
  also have "m div 256 ^ 3 * 256 + m div 256 ^ 2 mod 256 = m div 256 ^ 2" by (rule horner) simp
  also have "m div 256 ^ 2 * 256 + m div 256 ^ 1 mod 256 = m div 256 ^ 1" by (rule horner) simp
  also have "m div 256 ^ 1 * 256 + m div 256 ^ 0 mod 256 = m" by simp
  finally show ?thesis by (simp add: m_def)
qed

lemma be64_inject:
  assumes "0 \<le> m" "m < 18446744073709551616" "0 \<le> n" "n < 18446744073709551616"
  shows "be64 m = be64 n \<longleftrightarrow> m = n"
  using un_be_be64 [of m] un_be_be64 [of n] assms by (metis mod_pos_pos_trivial)

subsection \<open>Hexadecimal\<close>

definition hex_digit :: "nat \<Rightarrow> char" where
  "hex_digit n = (if n < 10 then char_of (48 + n) else char_of (87 + n))"

definition hex :: "gostring \<Rightarrow> gostring" where
  "hex s = concat (map (\<lambda>c. [hex_digit (byte c div 16), hex_digit (byte c mod 16)]) s)"

definition is_lower_hex :: "char \<Rightarrow> bool" where
  "is_lower_hex c \<longleftrightarrow> (48 \<le> byte c \<and> byte c \<le> 57) \<or> (97 \<le> byte c \<and> byte c \<le> 102)"

text \<open>The digits \<open>hex.DecodeString\<close> takes: either case.\<close>

definition is_hex :: "char \<Rightarrow> bool" where
  "is_hex c \<longleftrightarrow> is_lower_hex c \<or> (65 \<le> byte c \<and> byte c \<le> 70)"

text \<open>\<open>hex.DecodeString\<close> succeeds on an even number of digits.\<close>

definition hex_decodable :: "gostring \<Rightarrow> bool" where
  "hex_decodable s \<longleftrightarrow> even (length s) \<and> list_all is_hex s"

lemma byte_less: "byte c < 256"
  using nat_of_char_less_256 [of c] by (simp add: byte_def)

lemma length_hex: "length (hex s) = 2 * length s"
  by (induction s) (simp_all add: hex_def)

lemma hex_digit_lower: "n < 16 \<Longrightarrow> is_lower_hex (hex_digit n)"
  by (auto simp: is_lower_hex_def hex_digit_def byte_char_of)

lemma hex_lower: "list_all is_lower_hex (hex s)"
proof (induction s)
  case (Cons c s)
  have "byte c div 16 < 16" using byte_less [of c] by (simp add: less_mult_imp_div_less)
  then show ?case using Cons by (simp add: hex_def hex_digit_lower)
qed (simp add: hex_def)

lemma hex_digit_inject: "m < 16 \<Longrightarrow> n < 16 \<Longrightarrow> hex_digit m = hex_digit n \<longleftrightarrow> m = n"
  using arg_cong [of "hex_digit m" "hex_digit n" byte]
  by (auto simp: hex_digit_def byte_char_of split: if_splits)

lemma hex_inject: "hex s = hex t \<longleftrightarrow> s = t"
proof (induction s arbitrary: t)
  case Nil
  then show ?case by (cases t) (simp_all add: hex_def)
next
  case (Cons c s)
  show ?case
  proof (cases t)
    case (Cons d t')
    have "byte c div 16 = byte d div 16 \<and> byte c mod 16 = byte d mod 16 \<longleftrightarrow> c = d"
      by (metis byte_def div_mult_mod_eq of_char_eq_iff)
    with Cons.IH [of t'] Cons show ?thesis
      using byte_less [of c] byte_less [of d] by (auto simp: hex_def hex_digit_inject)
  qed (simp add: hex_def)
qed

lemma hex_decodable_hex: "hex_decodable (hex s)"
  using hex_lower [of s] by (auto simp: hex_decodable_def length_hex is_hex_def list_all_iff)

subsection \<open>SHA-256\<close>

definition sha_k :: "u32 list" where
  "sha_k = [
    1116352408, 1899447441, 3049323471, 3921009573, 961987163, 1508970993, 2453635748, 2870763221,
    3624381080, 310598401, 607225278, 1426881987, 1925078388, 2162078206, 2614888103, 3248222580,
    3835390401, 4022224774, 264347078, 604807628, 770255983, 1249150122, 1555081692, 1996064986,
    2554220882, 2821834349, 2952996808, 3210313671, 3336571891, 3584528711, 113926993, 338241895,
    666307205, 773529912, 1294757372, 1396182291, 1695183700, 1986661051, 2177026350, 2456956037,
    2730485921, 2820302411, 3259730800, 3345764771, 3516065817, 3600352804, 4094571909, 275423344,
    430227734, 506948616, 659060556, 883997877, 958139571, 1322822218, 1537002063, 1747873779,
    1955562222, 2024104815, 2227730452, 2361852424, 2428436474, 2756734187, 3204031479, 3329325298]"

definition sha_h0 :: "u32 list" where
  "sha_h0 = [
    1779033703, 3144134277, 1013904242, 2773480762, 1359893119, 2600822924, 528734635, 1541459225]"

definition rotr :: "nat \<Rightarrow> u32 \<Rightarrow> u32" where
  "rotr n x = (drop_bit n x) OR (push_bit (32 - n) x)"

definition small_sigma0 :: "u32 \<Rightarrow> u32" where
  "small_sigma0 x = rotr 7 x XOR rotr 18 x XOR drop_bit 3 x"

definition small_sigma1 :: "u32 \<Rightarrow> u32" where
  "small_sigma1 x = rotr 17 x XOR rotr 19 x XOR drop_bit 10 x"

definition big_sigma0 :: "u32 \<Rightarrow> u32" where
  "big_sigma0 x = rotr 2 x XOR rotr 13 x XOR rotr 22 x"

definition big_sigma1 :: "u32 \<Rightarrow> u32" where
  "big_sigma1 x = rotr 6 x XOR rotr 11 x XOR rotr 25 x"

text \<open>The message schedule, newest word first.\<close>

fun sha_schedule :: "nat \<Rightarrow> u32 list \<Rightarrow> u32 list" where
  "sha_schedule 0 ws = ws"
| "sha_schedule (Suc n) ws =
     sha_schedule n
       ((small_sigma1 (ws ! 1) + ws ! 6 + small_sigma0 (ws ! 14) + ws ! 15) # ws)"

fun sha_round :: "u32 list \<Rightarrow> u32 \<times> u32 \<Rightarrow> u32 list" where
  "sha_round [a, b, c, d, e, f, g, h] (k, w) =
     (let t1 = h + big_sigma1 e + ((e AND f) XOR (NOT e AND g)) + k + w;
          t2 = big_sigma0 a + ((a AND b) XOR (a AND c) XOR (b AND c))
      in [t1 + t2, a, b, c, d + t1, e, f, g])"
| "sha_round hs _ = hs"

definition sha_block :: "u32 list \<Rightarrow> u32 list \<Rightarrow> u32 list" where
  "sha_block hs ws =
     map2 (+) hs (foldl sha_round hs (zip sha_k (rev (sha_schedule 48 (rev ws)))))"

definition sha_pad :: "gostring \<Rightarrow> gostring" where
  "sha_pad s = s @ [char_of (128 :: nat)]
     @ replicate ((119 - length s mod 64) mod 64) (char_of (0 :: nat)) @ be64 (8 * int (length s))"

fun sha_words :: "gostring \<Rightarrow> u32 list" where
  "sha_words (a # b # c # d # rest) =
     of_nat (((byte a * 256 + byte b) * 256 + byte c) * 256 + byte d) # sha_words rest"
| "sha_words _ = []"

fun sha_blocks :: "nat \<Rightarrow> u32 list \<Rightarrow> u32 list \<Rightarrow> u32 list" where
  "sha_blocks 0 hs ws = hs"
| "sha_blocks (Suc n) hs ws = sha_blocks n (sha_block hs (take 16 ws)) (drop 16 ws)"

definition sha256 :: "gostring \<Rightarrow> gostring" where
  "sha256 s =
     (let ws = sha_words (sha_pad s)
      in concat (map be32 (sha_blocks (length ws div 16) sha_h0 ws)))"

text \<open>A digest is 32 bytes whatever the message.\<close>

lemma length_sha_round [simp]: "length (sha_round hs kw) = length hs"
  by (induction hs kw rule: sha_round.induct) (simp_all add: Let_def)

lemma length_sha_fold [simp]: "length (foldl sha_round hs kws) = length hs"
  by (induction kws arbitrary: hs) simp_all

lemma length_sha_blocks [simp]: "length (sha_blocks n hs ws) = length hs"
  by (induction n hs ws rule: sha_blocks.induct) (simp_all add: sha_block_def)

lemma length_sha256 [simp]: "length (sha256 s) = 32"
proof -
  have "length (concat (map be32 hs)) = 4 * length hs" for hs by (induction hs) simp_all
  then show ?thesis by (simp add: sha256_def Let_def sha_h0_def)
qed

subsection \<open>Length-prefixed framing\<close>

text \<open>Every identity hash of the program frames its fields with their length.\<close>

definition frame :: "gostring \<Rightarrow> gostring" where
  "frame s = be64 (int (length s)) @ s"

definition frames :: "gostring list \<Rightarrow> gostring" where
  "frames fs = concat (map frame fs)"

definition fits :: "gostring \<Rightarrow> bool" where
  "fits s \<longleftrightarrow> int (length s) \<le> max_int"

lemma fits_length: "fits s \<Longrightarrow> int (length s) < 18446744073709551616"
  by (simp add: fits_def max_int_def)

lemma frame_inject:
  assumes "fits s" "fits t" "frame s @ xs = frame t @ ys"
  shows "s = t \<and> xs = ys"
proof -
  from assms(3) have "be64 (int (length s)) = be64 (int (length t))" and rest: "s @ xs = t @ ys"
    by (auto simp: frame_def append_eq_append_conv)
  then have "length s = length t"
    using be64_inject fits_length [OF assms(1)] fits_length [OF assms(2)] by simp
  with rest show ?thesis by simp
qed

lemma frames_inject:
  assumes "length fs = length gs" "\<forall>s \<in> set (fs @ gs). fits s" "frames fs @ xs = frames gs @ ys"
  shows "fs = gs \<and> xs = ys"
  using assms
proof (induction fs gs rule: list_induct2)
  case (Cons f fs g gs)
  from Cons.prems have "frame f @ (frames fs @ xs) = frame g @ (frames gs @ ys)"
    and "fits f" "fits g" by (auto simp: frames_def)
  then have "f = g \<and> frames fs @ xs = frames gs @ ys" using frame_inject by blast
  with Cons show ?case by simp
qed (simp add: frames_def)

end
