(* ===== verification/GoPath.thy ===== *)
theory GoPath
  imports GoText
begin

text \<open>
  Package \<open>path/filepath\<close> on Linux, the only platform the program runs on: slash-separated paths,
  \<open>ToSlash\<close> and \<open>FromSlash\<close> the identity, and \<open>Clean\<close> and \<open>Rel\<close> on the list of components.
\<close>

definition slash :: char where
  "slash = CHR ''/''"

definition backslash :: char where
  "backslash = CHR 0x5C"

text \<open>The special components, named so that proofs need not look at their characters.\<close>

definition dot :: gostring where
  "dot = ''.''"

definition dotdot :: gostring where
  "dotdot = ''..''"

lemma dots [simp]:
  "dot \<noteq> []" "[] \<noteq> dot" "dotdot \<noteq> []" "[] \<noteq> dotdot" "dot \<noteq> dotdot" "dotdot \<noteq> dot"
  "slash \<notin> set dot" "slash \<notin> set dotdot"
  by (simp_all add: dot_def dotdot_def slash_def)

definition is_abs :: "gostring \<Rightarrow> bool" where
  "is_abs p \<longleftrightarrow> p \<noteq> [] \<and> hd p = slash"

text \<open>
  The components of a cleaned path: empty and \<open>.\<close> components go, \<open>..\<close> removes the component
  before it, or stays at the front of a relative path. The stack is kept reversed.
\<close>

fun clean_comps :: "bool \<Rightarrow> gostring list \<Rightarrow> gostring list \<Rightarrow> gostring list" where
  "clean_comps rooted st [] = rev st"
| "clean_comps rooted st (c # cs) =
     (if c = [] \<or> c = dot then clean_comps rooted st cs
      else if c = dotdot then
        (case st of
           [] \<Rightarrow> clean_comps rooted (if rooted then [] else [dotdot]) cs
         | t # st' \<Rightarrow> clean_comps rooted (if t = dotdot then dotdot # st else st') cs)
      else clean_comps rooted (c # st) cs)"

definition path_clean :: "gostring \<Rightarrow> gostring" where
  "path_clean p =
     (if p = [] then dot
      else (let cs = clean_comps (is_abs p) [] (split_on slash p)
            in if is_abs p then slash # join [slash] cs
               else if cs = [] then dot else join [slash] cs))"

text \<open>A component list that \<open>clean_comps\<close> leaves alone.\<close>

fun ups_first :: "gostring list \<Rightarrow> bool" where
  "ups_first [] = True"
| "ups_first (c # cs) = (if c = dotdot then ups_first cs else dotdot \<notin> set cs)"

definition clean_form :: "bool \<Rightarrow> gostring list \<Rightarrow> bool" where
  "clean_form rooted cs \<longleftrightarrow>
     [] \<notin> set cs \<and> dot \<notin> set cs \<and> (\<forall>c \<in> set cs. slash \<notin> set c)
     \<and> ups_first cs \<and> (rooted \<longrightarrow> dotdot \<notin> set cs)"

lemma ups_first_append:
  "ups_first (xs @ ys) \<longleftrightarrow>
     ups_first xs \<and> (if set xs \<subseteq> {dotdot} then ups_first ys else dotdot \<notin> set ys)"
  by (induction xs) auto

lemma clean_comps_form:
  assumes "clean_form rooted (rev st)" and "\<forall>c \<in> set cs. slash \<notin> set c"
  shows "clean_form rooted (clean_comps rooted st cs)"
  using assms
proof (induction rooted st cs rule: clean_comps.induct)
  case (2 rooted st c cs)
  have up: "clean_form rooted (rev st @ [dotdot])"
    if "c = dotdot" "st = [] \<or> hd st = dotdot" "\<not> rooted"
  proof -
    have "set (rev st) \<subseteq> {dotdot}"
    proof (cases st)
      case (Cons t st')
      with that "2.prems"(1) have "ups_first (rev st' @ [dotdot])" by (simp add: clean_form_def)
      then have "set (rev st') \<subseteq> {dotdot}" by (auto simp: ups_first_append split: if_splits)
      with Cons that show ?thesis by auto
    qed simp
    with that "2.prems"(1) show ?thesis by (auto simp: clean_form_def ups_first_append)
  qed
  have pop: "clean_form rooted (rev st')" if "st = t # st'" for t st'
    using that "2.prems"(1) by (auto simp: clean_form_def ups_first_append split: if_splits)
  have push: "clean_form rooted (rev st @ [c])" if "c \<noteq> []" "c \<noteq> dot" "c \<noteq> dotdot"
    using that "2.prems" by (auto simp: clean_form_def ups_first_append)
  have root: "st = [] \<or> hd st \<noteq> dotdot" if rooted
    using that "2.prems"(1) by (cases st) (auto simp: clean_form_def)
  have tail: "\<forall>c \<in> set cs. slash \<notin> set c" using "2.prems"(2) by simp
  show ?case
  proof (cases "c = [] \<or> c = dot")
    case True
    with "2.IH"(1) "2.prems"(1) tail show ?thesis by simp
  next
    case F: False
    show ?thesis
    proof (cases "c = dotdot")
      case True
      show ?thesis
      proof (cases st)
        case Nil
        with up True "2.prems"(1) have "clean_form rooted (rev (if rooted then [] else [dotdot]))"
          by (cases rooted) auto
        with "2.IH"(2) F True Nil tail show ?thesis by simp
      next
        case (Cons t st')
        have "clean_form rooted (rev (if t = dotdot then dotdot # st else st'))"
          using up [OF True] pop [OF Cons] root Cons by (cases rooted) auto
        with "2.IH"(3) F True Cons tail show ?thesis by (simp split: if_splits)
      qed
    next
      case False
      with F push "2.IH"(4) tail show ?thesis by simp
    qed
  qed
qed simp

lemma clean_comps_id:
  "clean_form rooted (rev st @ cs) \<Longrightarrow> clean_comps rooted st cs = rev st @ cs"
proof (induction cs arbitrary: st)
  case (Cons c cs)
  then have ne: "c \<noteq> []" "c \<noteq> dot" by (auto simp: clean_form_def)
  have step: "clean_comps rooted (c # st) cs = rev st @ c # cs"
    using Cons.IH [of "c # st"] Cons.prems by simp
  show ?case
  proof (cases "c = dotdot")
    case True
    with Cons.prems have nr: "\<not> rooted" by (auto simp: clean_form_def)
    have "set (rev st) \<subseteq> {dotdot}"
      using Cons.prems True by (auto simp: clean_form_def ups_first_append split: if_splits)
    then show ?thesis using True step nr by (cases st) auto
  next
    case False
    with ne step show ?thesis by simp
  qed
qed simp

lemma clean_form_join:
  assumes "clean_form rooted cs"
  shows "cs \<noteq> [] \<Longrightarrow> split_on slash (join [slash] cs) = cs"
    and "\<not> is_abs (join [slash] cs)"
proof -
  show "cs \<noteq> [] \<Longrightarrow> split_on slash (join [slash] cs) = cs"
    using assms by (intro split_join) (auto simp: clean_form_def)
  show "\<not> is_abs (join [slash] cs)"
  proof (cases cs)
    case (Cons c cs')
    with assms have "c \<noteq> []" "slash \<notin> set c" by (auto simp: clean_form_def)
    then have "hd (join [slash] cs) \<noteq> slash"
      using Cons hd_join [of cs "[slash]"] by (cases c) auto
    then show ?thesis by (simp add: is_abs_def)
  qed (simp add: is_abs_def)
qed

lemma clean_form_split: "clean_form r (clean_comps r [] (split_on slash p))"
  by (rule clean_comps_form) (use split_on_parts in \<open>auto simp: clean_form_def\<close>)

lemma clean_comps_drop_empty: "clean_comps r st ([] # cs) = clean_comps r st cs"
  by simp

lemma not_abs_dot [simp]: "\<not> is_abs dot"
  by (simp add: is_abs_def dot_def slash_def)

lemma path_clean_abs:
  "is_abs p \<Longrightarrow> path_clean p = slash # join [slash] (clean_comps True [] (split_on slash p))"
  by (auto simp: path_clean_def is_abs_def Let_def)

lemma path_clean_rel:
  "p \<noteq> [] \<Longrightarrow> \<not> is_abs p \<Longrightarrow> path_clean p =
     (if clean_comps False [] (split_on slash p) = [] then dot
      else join [slash] (clean_comps False [] (split_on slash p)))"
  by (simp add: path_clean_def Let_def)

lemma path_clean_nonempty [simp]: "path_clean p \<noteq> []"
proof -
  have "clean_form (is_abs p) (clean_comps (is_abs p) [] (split_on slash p))" by (rule clean_form_split)
  then have "clean_comps (is_abs p) [] (split_on slash p) \<noteq> [] \<Longrightarrow>
      join [slash] (clean_comps (is_abs p) [] (split_on slash p)) \<noteq> []"
    using join_eq_Nil by (auto simp: clean_form_def)
  then show ?thesis by (auto simp: path_clean_def Let_def)
qed

text \<open>Cleaning a relative path without \<open>..\<close> components keeps it so.\<close>

lemma clean_comps_subset: "dotdot \<notin> set st \<union> set cs \<Longrightarrow> set (clean_comps r st cs) \<subseteq> set st \<union> set cs"
proof (induction r st cs rule: clean_comps.induct)
  case (2 r st c cs)
  show ?case
  proof (cases "c = [] \<or> c = dot")
    case True
    with 2 show ?thesis by auto
  next
    case False
    with "2.prems" have "c \<noteq> dotdot" by auto
    with False "2.IH"(4) "2.prems" show ?thesis by auto
  qed
qed auto

lemma path_clean_no_up:
  assumes "p \<noteq> []" "\<not> is_abs p" "dotdot \<notin> set (split_on slash p)"
  shows "\<not> is_abs (path_clean p) \<and> dotdot \<notin> set (split_on slash (path_clean p))"
proof -
  let ?cs = "clean_comps False [] (split_on slash p)"
  have form: "clean_form False ?cs" using clean_form_split [of "is_abs p" p] assms(2) by simp
  have up: "dotdot \<notin> set ?cs" using clean_comps_subset [of "[]" "split_on slash p" False] assms(3) by auto
  show ?thesis
  proof (cases "?cs = []")
    case True
    with assms show ?thesis by (simp add: path_clean_rel split_on_no_sep)
  next
    case False
    with assms up clean_form_join [OF form] show ?thesis by (simp add: path_clean_rel)
  qed
qed

theorem path_clean_idem: "path_clean (path_clean p) = path_clean p"
proof -
  have dot: "path_clean dot = dot" by (simp add: path_clean_rel not_abs_dot split_on_no_sep)
  show ?thesis
  proof (cases "p = []")
    case True
    then have "path_clean p = dot" by (simp add: path_clean_def)
    with dot show ?thesis by simp
  next
    case ne: False
    define cs where "cs = clean_comps (is_abs p) [] (split_on slash p)"
    have form: "clean_form (is_abs p) cs" unfolding cs_def by (rule clean_form_split)
    note self = clean_comps_id [of "is_abs p" "[]" cs, simplified, OF form]
    show ?thesis
    proof (cases "is_abs p")
      case True
      then have q: "path_clean p = slash # join [slash] cs" by (simp add: path_clean_abs cs_def)
      have "clean_comps True [] (split_on slash (slash # join [slash] cs)) = cs"
        using clean_form_join(1) [OF form] self True by (cases "cs = []") auto
      then show ?thesis by (simp add: q path_clean_abs is_abs_def del: split_on.simps)
    next
      case False
      show ?thesis
      proof (cases "cs = []")
        case True
        with ne False have "path_clean p = dot" by (simp add: path_clean_rel cs_def)
        with dot show ?thesis by simp
      next
        case ncs: False
        with ne False have q: "path_clean p = join [slash] cs"
          by (simp add: path_clean_rel cs_def)
        have "join [slash] cs \<noteq> []"
          using form ncs join_eq_Nil [of cs "[slash]"] by (auto simp: clean_form_def)
        then show ?thesis
          using clean_form_join [OF form] self False ncs by (simp add: q path_clean_rel)
      qed
    qed
  qed
qed

subsection \<open>Relative paths\<close>

definition abs_comps :: "gostring \<Rightarrow> gostring list" where
  "abs_comps p = clean_comps (is_abs p) [] (split_on slash p)"

fun strip_common :: "gostring list \<Rightarrow> gostring list \<Rightarrow> gostring list \<times> gostring list" where
  "strip_common (b # bs) (t # ts) = (if b = t then strip_common bs ts else (b # bs, t # ts))"
| "strip_common bs ts = (bs, ts)"

text \<open>\<open>filepath.Rel\<close>; \<open>None\<close> is its error.\<close>

definition path_rel :: "gostring \<Rightarrow> gostring \<Rightarrow> gostring option" where
  "path_rel base targ =
     (if path_clean base = path_clean targ then Some dot
      else if is_abs base \<noteq> is_abs targ then None
      else (case strip_common (abs_comps base) (abs_comps targ) of
              (bs, ts) \<Rightarrow>
                if bs \<noteq> [] \<and> hd bs = dotdot then None
                else Some (join [slash] (replicate (length bs) dotdot @ ts))))"

text \<open>\<open>filepath.Join\<close> of two elements, the first not empty.\<close>

definition path_join :: "gostring \<Rightarrow> gostring \<Rightarrow> gostring" where
  "path_join a b =
     (if a = [] then (if b = [] then [] else path_clean b)
      else if b = [] then path_clean a else path_clean (a @ slash # b))"

text \<open>\<open>path.Base\<close>, \<open>path.Dir\<close> and \<open>path.Ext\<close>.\<close>

definition path_base :: "gostring \<Rightarrow> gostring" where
  "path_base p =
     (if p = [] then dot
      else (let q = rev (dropWhile (\<lambda>c. c = slash) (rev p))
            in if q = [] then [slash] else last (split_on slash q)))"

definition path_dir :: "gostring \<Rightarrow> gostring" where
  "path_dir p = path_clean (rev (dropWhile (\<lambda>c. c \<noteq> slash) (rev p)))"

definition path_ext :: "gostring \<Rightarrow> gostring" where
  "path_ext p =
     (let name = last (split_on slash p);
          tail = takeWhile (\<lambda>c. c \<noteq> CHR ''.'') (rev name)
      in if length tail = length name then [] else CHR ''.'' # rev tail)"

end
