(* ===== verification/Findings.thy ===== *)
theory Findings
  imports GoHash GoPath
begin

text \<open>
  \<open>internal/finding\<close>: the normalized finding, its repository-relative path, its validation and its
  fingerprint (\<open>finding.go\<close>, \<open>path.go\<close>). Field names are the struct's; a Go \<open>int\<close> line number is
  an \<^typ>\<open>int\<close>, since the code only compares line numbers.
\<close>

subsection \<open>Data\<close>

type_synonym severity = gostring

definition sev_error :: severity where "sev_error = ''error''"
definition sev_warning :: severity where "sev_warning = ''warning''"
definition sev_info :: severity where "sev_info = ''info''"

record occurrence =
  OccLine :: int
  OccEndLine :: int

record finding =
  Gate :: gostring
  Language :: gostring
  RuleID :: gostring
  Severity :: severity
  File :: gostring
  Line :: int
  EndLine :: int
  Snippet :: gostring
  Occurrences :: "occurrence list"
  Message :: gostring
  Fingerprint :: gostring

subsection \<open>Repository paths\<close>

datatype path_error = PathEmpty | PathNotRelative | PathTraversal | PathOutsideRoot

definition is_letter :: "char \<Rightarrow> bool" where
  "is_letter c \<longleftrightarrow> (97 \<le> byte c \<and> byte c \<le> 122) \<or> (65 \<le> byte c \<and> byte c \<le> 90)"

definition is_windows_absolute :: "gostring \<Rightarrow> bool" where
  "is_windows_absolute p \<longleftrightarrow>
     3 \<le> length p \<and> is_letter (p ! 0) \<and> p ! 1 = CHR '':'' \<and> p ! 2 = slash"

definition normalize_file :: "gostring \<Rightarrow> gostring" where
  "normalize_file f = path_clean f"

definition parse_path :: "gostring \<Rightarrow> (path_error, gostring) res" where
  "parse_path p =
     (if trim_space p = [] then Inl PathEmpty
      else (let portable = replace_byte backslash slash p
            in if is_abs p \<or> has_prefix portable [slash] \<or> is_windows_absolute portable
               then Inl PathNotRelative
               else if dotdot \<in> set (split_on slash portable) then Inl PathTraversal
               else Inr (normalize_file p)))"

definition new_path :: "gostring \<Rightarrow> gostring \<Rightarrow> (path_error, gostring) res" where
  "new_path root reported =
     (if trim_space reported = [] then Inl PathEmpty
      else (let clean = path_clean reported;
                inside =
                  (if is_abs clean then
                     (case path_rel root clean of
                        None \<Rightarrow> None
                      | Some r \<Rightarrow> if r = dotdot \<or> has_prefix r (dotdot @ [slash]) then None else Some r)
                   else Some clean)
            in (case inside of
                  None \<Rightarrow> Inl PathOutsideRoot
                | Some rel \<Rightarrow>
                    (case parse_path rel of Inl _ \<Rightarrow> Inl PathOutsideRoot | Inr q \<Rightarrow> Inr q))))"

subsection \<open>Fingerprints\<close>

definition normalize_snippet :: "gostring \<Rightarrow> gostring" where
  "normalize_snippet s = join '' '' (str_fields s)"

text \<open>What a fingerprint covers: gate, rule, normalized file and normalized snippet.\<close>

definition identity_fields :: "finding \<Rightarrow> gostring list" where
  "identity_fields f =
     [Gate f, RuleID f, normalize_file (File f), normalize_snippet (Snippet f)]"

definition fingerprint :: "finding \<Rightarrow> gostring" where
  "fingerprint f = hex (sha256 (frames (identity_fields f)))"

definition valid_fingerprint :: "gostring \<Rightarrow> bool" where
  "valid_fingerprint v \<longleftrightarrow> length v = 64 \<and> (\<forall>(r, bs) \<in> set (chunks v).
     (48 \<le> r \<and> r \<le> 57) \<or> (97 \<le> r \<and> r \<le> 102))"

subsection \<open>Validation\<close>

datatype finding_error =
    GateRequired | LanguageRequired | RuleRequired | RuleNotQualified | InvalidSeverity severity
  | FileRequired | SnippetRequired | MessageRequired | InvalidPath path_error
  | LineNotPositive | EndLinePrecedesLine | InvalidOccurrence nat finding_error
  | FingerprintMismatch

definition valid_severity :: "severity \<Rightarrow> bool" where
  "valid_severity s \<longleftrightarrow> s = sev_error \<or> s = sev_warning \<or> s = sev_info"

definition tool_qualified_rule_id :: "gostring \<Rightarrow> bool" where
  "tool_qualified_rule_id r =
     (case index_byte r slash of None \<Rightarrow> False | Some i \<Rightarrow> 0 < i \<and> i < length r - 1)"

definition validate_identity :: "finding \<Rightarrow> finding_error option" where
  "validate_identity f =
     (if trim_space (Gate f) = [] then Some GateRequired
      else if trim_space (Language f) = [] then Some LanguageRequired
      else if trim_space (RuleID f) = [] then Some RuleRequired
      else if \<not> tool_qualified_rule_id (RuleID f) then Some RuleNotQualified
      else if \<not> valid_severity (Severity f) then Some (InvalidSeverity (Severity f))
      else if File f = [] then Some FileRequired
      else if trim_space (Snippet f) = [] then Some SnippetRequired
      else if trim_space (Message f) = [] then Some MessageRequired
      else (case parse_path (File f) of Inl e \<Rightarrow> Some (InvalidPath e) | Inr _ \<Rightarrow> None))"

definition validate_location :: "int \<Rightarrow> int \<Rightarrow> finding_error option" where
  "validate_location line end_line =
     (if line \<le> 0 then Some LineNotPositive
      else if end_line \<noteq> 0 \<and> end_line < line then Some EndLinePrecedesLine
      else None)"

definition validate :: "finding \<Rightarrow> finding_error option" where
  "validate f =
     (case validate_identity f of Some e \<Rightarrow> Some e | None \<Rightarrow>
      (case validate_location (Line f) (EndLine f) of Some e \<Rightarrow> Some e | None \<Rightarrow>
       (case first_error (\<lambda>i oc. map_option (InvalidOccurrence i)
                            (validate_location (OccLine oc) (OccEndLine oc))) 0 (Occurrences f)
        of Some e \<Rightarrow> Some e | None \<Rightarrow>
          if Fingerprint f \<noteq> [] \<and> Fingerprint f \<noteq> fingerprint f then Some FingerprintMismatch
          else None)))"

text \<open>The same conditions as one predicate, which proofs use.\<close>

definition good_location :: "int \<Rightarrow> int \<Rightarrow> bool" where
  "good_location line end_line \<longleftrightarrow> 0 < line \<and> (end_line = 0 \<or> line \<le> end_line)"

definition good_occurrence :: "occurrence \<Rightarrow> bool" where
  "good_occurrence oc \<longleftrightarrow> good_location (OccLine oc) (OccEndLine oc)"

definition good_identity :: "finding \<Rightarrow> bool" where
  "good_identity f \<longleftrightarrow>
     trim_space (Gate f) \<noteq> [] \<and> trim_space (Language f) \<noteq> [] \<and> trim_space (RuleID f) \<noteq> []
     \<and> tool_qualified_rule_id (RuleID f) \<and> valid_severity (Severity f) \<and> File f \<noteq> []
     \<and> trim_space (Snippet f) \<noteq> [] \<and> trim_space (Message f) \<noteq> []
     \<and> parse_path (File f) = Inr (normalize_file (File f))"

lemma parse_path_value: "parse_path p = Inr q \<Longrightarrow> q = normalize_file p"
  by (auto simp: parse_path_def Let_def split: if_splits)

lemma validate_location_None: "validate_location l e = None \<longleftrightarrow> good_location l e"
  by (auto simp: validate_location_def good_location_def)

lemma validate_identity_None: "validate_identity f = None \<longleftrightarrow> good_identity f"
  by (auto simp: validate_identity_def good_identity_def dest: parse_path_value
      split: sum.splits)

lemma validate_None:
  "validate f = None \<longleftrightarrow>
     good_identity f \<and> good_location (Line f) (EndLine f)
     \<and> (\<forall>oc \<in> set (Occurrences f). good_occurrence oc)
     \<and> (Fingerprint f = [] \<or> Fingerprint f = fingerprint f)"
proof -
  have "first_error (\<lambda>i oc. map_option (InvalidOccurrence i)
           (validate_location (OccLine oc) (OccEndLine oc))) 0 (Occurrences f) = None
        \<longleftrightarrow> (\<forall>oc \<in> set (Occurrences f). good_occurrence oc)"
    by (rule first_error_uniform) (simp add: good_occurrence_def validate_location_None)
  then show ?thesis
    unfolding validate_def validate_identity_None [symmetric] validate_location_None [symmetric]
    by (auto split: option.split)
qed

subsection \<open>Facts about identities\<close>

lemma normalize_file_idem [simp]: "normalize_file (normalize_file f) = normalize_file f"
  by (simp add: normalize_file_def path_clean_idem)

lemma identity_fields_update [simp]:
  "identity_fields (f\<lparr>Line := l\<rparr>) = identity_fields f"
  "identity_fields (f\<lparr>EndLine := l\<rparr>) = identity_fields f"
  "identity_fields (f\<lparr>Occurrences := os\<rparr>) = identity_fields f"
  "identity_fields (f\<lparr>Severity := s\<rparr>) = identity_fields f"
  "identity_fields (f\<lparr>Message := m\<rparr>) = identity_fields f"
  "identity_fields (f\<lparr>Fingerprint := p\<rparr>) = identity_fields f"
  "identity_fields (f\<lparr>File := normalize_file (File f)\<rparr>) = identity_fields f"
  by (simp_all add: identity_fields_def)

lemma fingerprint_cong: "identity_fields f = identity_fields g \<Longrightarrow> fingerprint f = fingerprint g"
  by (simp add: fingerprint_def)

lemma length_fingerprint [simp]: "length (fingerprint f) = 64"
  by (simp add: fingerprint_def length_hex)

lemma fingerprint_nonempty [simp]: "fingerprint f \<noteq> []"
  using length_fingerprint [of f] by (metis length_0_conv zero_neq_numeral)

lemma chunks_lower_hex:
  "list_all is_lower_hex s \<Longrightarrow> chunks s = map (\<lambda>c. (byte c, [c])) s"
  by (induction s) (auto simp: is_lower_hex_def)

text \<open>Reading backslashes as slashes loses no component, so the traversal check covers both.\<close>

lemma component_at_portable:
  assumes "component_at slash w p" "backslash \<notin> set w"
  shows "component_at slash w (replace_byte backslash slash p)"
proof -
  define r where "r = replace_byte backslash slash"
  have app: "r (a @ b) = r a @ r b" "r (slash # b) = slash # r b" for a b
    by (simp_all add: r_def replace_byte_def slash_def backslash_def)
  have w: "r w = w" using assms(2) by (auto simp: r_def replace_byte_def intro: map_idI)
  from assms(1) obtain a b where "slash \<notin> set w"
    and "p = w \<or> p = a @ slash # w \<or> p = w @ slash # b \<or> p = a @ slash # w @ slash # b"
    unfolding component_at_def by blast
  then have "slash \<notin> set w \<and> (r p = w \<or> r p = r a @ slash # w \<or> r p = w @ slash # r b
      \<or> r p = r a @ slash # w @ slash # r b)" by (metis app w)
  then show ?thesis unfolding component_at_def r_def by blast
qed

lemma portable_component:
  assumes "w \<in> set (split_on slash p)" "backslash \<notin> set w"
  shows "w \<in> set (split_on slash (replace_byte backslash slash p))"
  using component_at_portable assms by (simp add: component_at_iff [symmetric])

lemma parse_path_Inr:
  "parse_path p = Inr q \<longleftrightarrow> q = normalize_file p \<and> trim_space p \<noteq> [] \<and> \<not> is_abs p
     \<and> \<not> has_prefix (replace_byte backslash slash p) [slash]
     \<and> \<not> is_windows_absolute (replace_byte backslash slash p)
     \<and> dotdot \<notin> set (split_on slash (replace_byte backslash slash p))"
  unfolding parse_path_def Let_def by (simp split: if_split) blast

lemma parse_path_relative:
  assumes "parse_path p = Inr q"
  shows "p \<noteq> []" "\<not> is_abs p" "dotdot \<notin> set (split_on slash p)"
proof -
  from assms show "p \<noteq> []" unfolding parse_path_Inr by auto
  have "backslash \<notin> set dotdot" by (simp add: backslash_def dotdot_def)
  with assms portable_component [of dotdot p]
  show "\<not> is_abs p" "dotdot \<notin> set (split_on slash p)"
    unfolding parse_path_Inr by blast+
qed

text \<open>Rules that evaluate the path functions on literals.\<close>

lemma trim_space_head: "byte c < 128 \<Longrightarrow> is_space (byte c) \<Longrightarrow> trim_space (c # s) = trim_space s"
  by (simp add: trim_space_def trim_left_def)

lemmas path_eval = parse_path_def trim_space_head trim_space_nonblank byte_def is_space_def Let_def
  replace_byte_def backslash_def slash_def is_abs_def has_prefix_def is_windows_absolute_def
  is_letter_def dotdot_def dot_def normalize_file_def path_clean_def

subsection \<open>Properties\<close>

text \<open>A path that \<open>ParsePath\<close> mints does not start with a slash and is clean, not empty and free of traversal.\<close>

theorem parse_path_safe:
  assumes "parse_path p = Inr q"
  shows "q \<noteq> [] \<and> \<not> is_abs q \<and> dotdot \<notin> set (split_on slash q) \<and> normalize_file q = q"
proof -
  from assms have q: "q = path_clean p" unfolding parse_path_Inr normalize_file_def by blast
  have "\<not> is_abs q \<and> dotdot \<notin> set (split_on slash q)"
    unfolding q by (rule path_clean_no_up) (rule parse_path_relative [OF assms])+
  then show ?thesis by (simp add: q normalize_file_def path_clean_idem)
qed

theorem parse_path_safe_witness:
  "parse_path ''a//./b.go'' = Inr ''a/b.go'' \<and> \<not> is_abs ''a/b.go''"
proof -
  have p: "parse_path ''a//./b.go'' = Inr ''a/b.go''" by (simp add: path_eval)
  with parse_path_safe [OF p] show ?thesis by simp
qed

text \<open>
  \<open>ParsePath\<close> judges the text it was given and returns the cleaned text, so it mints
  values it would itself reject: a Windows drive path, a blank path and a backslash-rooted one.
\<close>

theorem parse_path_not_closed:
  "parse_path ''./C:/x'' = Inr ''C:/x'' \<and> parse_path ''C:/x'' = Inl PathNotRelative
   \<and> parse_path ''./ '' = Inr '' '' \<and> parse_path '' '' = Inl PathEmpty
   \<and> parse_path [CHR ''.'', slash, backslash, CHR ''x''] = Inr [backslash, CHR ''x'']
   \<and> parse_path [backslash, CHR ''x''] = Inl PathNotRelative"
  by (intro conjI; simp add: path_eval)

text \<open>
  C21: A fingerprint always has the shape \<open>ValidFingerprint\<close> asks for, and it identifies a finding: when SHA-256
  does not collide on the two framed texts, two findings whose fields fit a Go string have the same fingerprint
  exactly when gate, rule, cleaned file and normalized snippet are the same.
\<close>

theorem fingerprint_identity:
  assumes "\<forall>s \<in> {Gate f, RuleID f, normalize_file (File f), normalize_snippet (Snippet f),
      Gate g, RuleID g, normalize_file (File g), normalize_snippet (Snippet g)}. fits s"
    "inj_on sha256 {frames [Gate f, RuleID f, normalize_file (File f), normalize_snippet (Snippet f)],
      frames [Gate g, RuleID g, normalize_file (File g), normalize_snippet (Snippet g)]}"
  shows "valid_fingerprint (fingerprint f)
    \<and> (fingerprint f = fingerprint g \<longleftrightarrow> Gate f = Gate g \<and> RuleID f = RuleID g
         \<and> normalize_file (File f) = normalize_file (File g) \<and> normalize_snippet (Snippet f) = normalize_snippet (Snippet g))"
proof
  have "list_all is_lower_hex (fingerprint f)" by (simp add: fingerprint_def hex_lower)
  moreover from this have "chunks (fingerprint f) = map (\<lambda>c. (byte c, [c])) (fingerprint f)"
    by (rule chunks_lower_hex)
  ultimately show "valid_fingerprint (fingerprint f)"
    by (auto simp: valid_fingerprint_def list_all_iff is_lower_hex_def)
  have "length (identity_fields f) = length (identity_fields g)" by (simp add: identity_fields_def)
  from frames_inject [OF this, of "[]" "[]"] assms(1)
  have "frames (identity_fields f) = frames (identity_fields g) \<longleftrightarrow> identity_fields f = identity_fields g"
    by (auto simp: identity_fields_def)
  moreover have "fingerprint f = fingerprint g \<longleftrightarrow> frames (identity_fields f) = frames (identity_fields g)"
    unfolding fingerprint_def hex_inject identity_fields_def by (rule inj_on_eq_iff [OF assms(2)]) (rule insertI1 insertI2 singletonI)+
  ultimately show "fingerprint f = fingerprint g \<longleftrightarrow> Gate f = Gate g \<and> RuleID f = RuleID g
       \<and> normalize_file (File f) = normalize_file (File g) \<and> normalize_snippet (Snippet f) = normalize_snippet (Snippet g)"
    by (simp add: identity_fields_def)
qed

text \<open>A concrete finding for the witnesses.\<close>

definition sample_finding :: finding where
  "sample_finding = \<lparr>Gate = ''lint'', Language = ''go'', RuleID = ''golangci/errcheck'',
     Severity = ''error'', File = ''pkg/a.go'', Line = 7, EndLine = 0, Snippet = ''f()'',
     Occurrences = [], Message = ''unchecked'', Fingerprint = []\<rparr>"

lemma sample_good: "good_identity sample_finding"
  by (simp add: good_identity_def sample_finding_def tool_qualified_rule_id_def valid_severity_def
      sev_error_def path_eval)

lemma sample_valid: "validate sample_finding = None"
  by (simp add: validate_None sample_good) (simp add: sample_finding_def good_location_def)

lemma sample_valid_at: "0 < l \<Longrightarrow> validate (sample_finding\<lparr>Line := l\<rparr>) = None"
  using sample_good by (simp add: validate_None good_identity_def)
    (simp add: sample_finding_def good_location_def)

theorem fingerprint_identity_witness:
  "valid_fingerprint (fingerprint sample_finding)
   \<and> fingerprint (sample_finding\<lparr>File := ''./pkg//a.go'', Line := 8\<rparr>) = fingerprint sample_finding"
proof -
  let ?g = "sample_finding\<lparr>File := ''./pkg//a.go'', Line := 8\<rparr>"
  have same: "normalize_file (File ?g) = normalize_file (File sample_finding)"
    by (simp add: sample_finding_def path_eval)
  have fit: "\<forall>s \<in> {Gate sample_finding, RuleID sample_finding, normalize_file (File sample_finding),
      normalize_snippet (Snippet sample_finding), Gate ?g, RuleID ?g, normalize_file (File ?g), normalize_snippet (Snippet ?g)}. fits s"
    by (simp add: fits_def max_int_def sample_finding_def normalize_snippet_def str_fields_def path_eval)
  have apart: "inj_on sha256 {frames [Gate sample_finding, RuleID sample_finding, normalize_file (File sample_finding),
      normalize_snippet (Snippet sample_finding)],
    frames [Gate ?g, RuleID ?g, normalize_file (File ?g), normalize_snippet (Snippet ?g)]}"
    unfolding same by (simp add: sample_finding_def)
  note found = fingerprint_identity [OF fit apart]
  have "Gate sample_finding = Gate ?g \<and> RuleID sample_finding = RuleID ?g
      \<and> normalize_file (File sample_finding) = normalize_file (File ?g)
      \<and> normalize_snippet (Snippet sample_finding) = normalize_snippet (Snippet ?g)"
    unfolding same by simp
  with found show ?thesis by metis
qed

end
