(* ===== verification/Grouping.thy ===== *)
theory Grouping
  imports Findings
begin

text \<open>
  \<open>internal/finding/group.go\<close>: findings with one fingerprint become one finding with every location,
  and the report order. The Go code collects the groups in a map and sorts what the map's iteration
  yields; the model keeps the groups in order of first appearance, and \<open>group_perm\<close> below
  shows that no order of the input changes the result.
\<close>

subsection \<open>Comparators\<close>

definition severity_precedence :: "severity \<Rightarrow> int" where
  "severity_precedence s =
     (if s = sev_error then 3 else if s = sev_warning then 2 else if s = sev_info then 1 else 0)"

definition less_metadata :: "finding \<Rightarrow> finding \<Rightarrow> bool" where
  "less_metadata l r =
     (if Severity l \<noteq> Severity r
      then severity_precedence (Severity l) > severity_precedence (Severity r)
      else if Language l \<noteq> Language r then Language l < Language r
      else if Message l \<noteq> Message r then Message l < Message r
      else if Snippet l \<noteq> Snippet r then Snippet l < Snippet r
      else False)"

definition less_occurrence :: "occurrence \<Rightarrow> occurrence \<Rightarrow> bool" where
  "less_occurrence l r =
     (if OccLine l \<noteq> OccLine r then OccLine l < OccLine r else OccEndLine l < OccEndLine r)"

definition less_finding :: "finding \<Rightarrow> finding \<Rightarrow> bool" where
  "less_finding l r =
     (if File l \<noteq> File r then File l < File r
      else if Line l \<noteq> Line r then Line l < Line r
      else if Gate l \<noteq> Gate r then Gate l < Gate r
      else if RuleID l \<noteq> RuleID r then RuleID l < RuleID r
      else Fingerprint l < Fingerprint r)"

text \<open>Their keys.\<close>

definition metadata_key :: "finding \<Rightarrow> int \<times> gostring \<times> gostring \<times> gostring" where
  "metadata_key f = (- severity_precedence (Severity f), Language f, Message f, Snippet f)"

definition occurrence_key :: "occurrence \<Rightarrow> int \<times> int" where
  "occurrence_key oc = (OccLine oc, OccEndLine oc)"

definition finding_key :: "finding \<Rightarrow> gostring \<times> int \<times> gostring \<times> gostring \<times> gostring" where
  "finding_key f = (File f, Line f, Gate f, RuleID f, Fingerprint f)"

lemma severities_distinct [simp]:
  "sev_error \<noteq> sev_warning" "sev_error \<noteq> sev_info" "sev_warning \<noteq> sev_info"
  "sev_warning \<noteq> sev_error" "sev_info \<noteq> sev_error" "sev_info \<noteq> sev_warning"
  by (simp_all add: sev_error_def sev_warning_def sev_info_def)

lemma severity_precedence_inj:
  "valid_severity s \<Longrightarrow> valid_severity t \<Longrightarrow> severity_precedence s = severity_precedence t \<longleftrightarrow> s = t"
  by (auto simp: valid_severity_def severity_precedence_def)

interpretation metadata: key_comparator less_metadata metadata_key "\<lambda>f. valid_severity (Severity f)"
proof
  fix x y :: finding
  assume "valid_severity (Severity x)" "valid_severity (Severity y)"
  then show "less_metadata x y \<longleftrightarrow> metadata_key x < metadata_key y"
    using severity_precedence_inj [of "Severity x" "Severity y"]
    by (auto simp: less_metadata_def metadata_key_def)
qed

interpretation occurrence: key_comparator less_occurrence occurrence_key "\<lambda>_. True"
  by unfold_locales (auto simp: less_occurrence_def occurrence_key_def)

interpretation report_order: key_comparator less_finding finding_key "\<lambda>_. True"
  by unfold_locales (auto simp: less_finding_def finding_key_def)

lemma occurrence_key_inj: "inj occurrence_key"
  by (rule injI) (simp add: occurrence_key_def)

subsection \<open>Combining one group\<close>

text \<open>\<open>locatedFinding\<close>: a location with the index of the member it came from.\<close>

type_synonym located = "nat \<times> occurrence"

definition primary_location :: "finding \<Rightarrow> occurrence" where
  "primary_location f = \<lparr>OccLine = Line f, OccEndLine = EndLine f\<rparr>"

definition locations_of :: "finding \<Rightarrow> occurrence list" where
  "locations_of f = primary_location f # Occurrences f"

fun located_from :: "nat \<Rightarrow> finding list \<Rightarrow> located list" where
  "located_from i [] = []"
| "located_from i (f # fs) = map (Pair i) (locations_of f) @ located_from (Suc i) fs"

text \<open>\<open>appendLocation\<close> with its \<open>seen\<close> map: the first member at a location keeps it.\<close>

definition combined_locations :: "finding list \<Rightarrow> located list" where
  "combined_locations fs =
     sort_by (\<lambda>l r. less_occurrence (snd l) (snd r)) (nub_by snd [] (located_from 0 fs))"

definition highest_severity :: "finding list \<Rightarrow> severity" where
  "highest_severity fs =
     foldl (\<lambda>h f. if severity_precedence (Severity f) > severity_precedence h
                  then Severity f else h) (Severity (hd fs)) (tl fs)"

definition combine :: "finding list \<Rightarrow> finding" where
  "combine members =
     (let fs = sort_by less_metadata members;
          locs = combined_locations fs;
          primary = hd locs
      in (fs ! fst primary)
           \<lparr>Line := OccLine (snd primary), EndLine := OccEndLine (snd primary),
            Severity := highest_severity fs, Occurrences := map snd (tl locs)\<rparr>)"

subsection \<open>Group\<close>

definition canonical_copy :: "finding \<Rightarrow> finding" where
  "canonical_copy f =
     (let g = f\<lparr>File := normalize_file (File f)\<rparr> in g\<lparr>Fingerprint := fingerprint g\<rparr>)"

definition members :: "gostring \<Rightarrow> finding list \<Rightarrow> finding list" where
  "members p fs = filter (\<lambda>f. Fingerprint f = p) fs"

definition group_valid :: "finding list \<Rightarrow> finding list" where
  "group_valid fs =
     (let copies = map canonical_copy fs
      in sort_by less_finding
           (map (\<lambda>p. combine (members p copies)) (nub_by id [] (map Fingerprint copies))))"

definition group :: "finding list \<Rightarrow> (nat \<times> finding_error, finding list) res" where
  "group fs =
     (case first_error (\<lambda>i f. map_option (Pair i) (validate f)) 0 fs of
        Some e \<Rightarrow> Inl e
      | None \<Rightarrow> Inr (group_valid fs))"

lemma group_Inr: "group fs = Inr gs \<longleftrightarrow> (\<forall>f \<in> set fs. validate f = None) \<and> gs = group_valid fs"
proof -
  have "first_error (\<lambda>i f. map_option (Pair i) (validate f)) 0 fs = None
        \<longleftrightarrow> (\<forall>f \<in> set fs. validate f = None)"
    by (rule first_error_uniform) simp
  then show ?thesis by (auto simp: group_def split: option.splits)
qed

subsection \<open>What combining keeps\<close>

lemma located_from_set:
  "set (located_from k fs) = {(k + j, oc) | j oc. j < length fs \<and> oc \<in> set (locations_of (fs ! j))}"
proof (induction fs arbitrary: k)
  case (Cons f fs)
  have "{(k + j, oc) | j oc. j < length (f # fs) \<and> oc \<in> set (locations_of ((f # fs) ! j))}
      = Pair k ` set (locations_of f)
        \<union> {(Suc k + j, oc) | j oc. j < length fs \<and> oc \<in> set (locations_of (fs ! j))}"
    by (auto simp: less_Suc_eq_0_disj)
  then show ?case by (simp add: Cons.IH)
qed simp

lemma located_from_sorted: "sorted (map fst (located_from k fs)) \<and> (\<forall>z \<in> set (located_from k fs). k \<le> fst z)"
proof (induction fs arbitrary: k)
  case (Cons f fs)
  have "sorted (map (\<lambda>x. k) xs)" for xs :: "occurrence list" by (induction xs) auto
  with Cons.IH [of "Suc k"] show ?case
    by (auto simp: sorted_append comp_def intro: Suc_leD)
qed simp

lemma located_snd: "snd ` set (located_from k fs) = (\<Union>f \<in> set fs. set (locations_of f))"
  by (induction fs arbitrary: k) (simp_all add: image_Un image_image)

text \<open>The members of a group in metadata order, and what its locations are.\<close>

lemma combined_first:
  assumes "(i, oc) \<in> set (combined_locations fs)"
  shows "i < length fs \<and> oc \<in> set (locations_of (fs ! i))
    \<and> (\<forall>j < i. oc \<notin> set (locations_of (fs ! j)))"
proof -
  from assms have "(i, oc) \<in> set (nub_by snd [] (located_from 0 fs))"
    by (simp add: combined_locations_def)
  then obtain ys zs where split: "located_from 0 fs = ys @ (i, oc) # zs"
    and new: "oc \<notin> snd ` set ys" using nub_by_first by fastforce
  have "(i, oc) \<in> set (located_from 0 fs)" by (simp add: split)
  then have i: "i < length fs" "oc \<in> set (locations_of (fs ! i))"
    by (auto simp: located_from_set)
  have "oc \<notin> set (locations_of (fs ! j))" if "j < i" for j
  proof
    assume "oc \<in> set (locations_of (fs ! j))"
    with that i have "(j, oc) \<in> set (located_from 0 fs)" by (auto simp: located_from_set)
    moreover have "\<forall>z \<in> set ((i, oc) # zs). i \<le> fst z"
      using located_from_sorted [of 0 fs] by (auto simp: split sorted_append)
    ultimately have "(j, oc) \<in> set ys" using that by (auto simp: split)
    with new show False by force
  qed
  with i show ?thesis by blast
qed

lemma combined_set: "snd ` set (combined_locations fs) = (\<Union>f \<in> set fs. set (locations_of f))"
  by (simp add: combined_locations_def nub_by_keys located_snd)

lemma located_order: "key_comparator (\<lambda>l r. less_occurrence (snd l) (snd r)) (occurrence_key \<circ> snd) (\<lambda>_. True)"
  by unfold_locales (simp add: occurrence.less_key)

lemma combined_sorted:
  "sorted (map (occurrence_key \<circ> snd) (combined_locations fs))
   \<and> distinct (map snd (combined_locations fs))"
proof
  show "sorted (map (occurrence_key \<circ> snd) (combined_locations fs))"
    unfolding combined_locations_def
    by (rule key_comparator.sorted_sort_by [OF located_order]) simp
  have "mset (map snd (combined_locations fs)) = mset (map snd (nub_by snd [] (located_from 0 fs)))"
    by (simp add: combined_locations_def)
  then show "distinct (map snd (combined_locations fs))"
    using nub_by_distinct mset_eq_imp_distinct_iff by blast
qed

lemma combined_nonempty: "fs \<noteq> [] \<Longrightarrow> combined_locations fs \<noteq> []"
  using combined_set [of fs] by (cases fs) (auto simp: locations_of_def)

text \<open>\<open>combine\<close> is a member with other locations and the highest severity.\<close>

lemma combine_locations:
  assumes "ms \<noteq> []"
  shows "set (locations_of (combine ms)) = (\<Union>f \<in> set ms. set (locations_of f))"
    and "sorted (map occurrence_key (locations_of (combine ms)))"
    and "distinct (locations_of (combine ms))"
proof -
  let ?fs = "sort_by less_metadata ms"
  from assms have "combined_locations ?fs \<noteq> []" by (intro combined_nonempty) simp
  then have locs: "locations_of (combine ms) = map snd (combined_locations ?fs)"
    by (cases "combined_locations ?fs")
      (simp_all add: combine_def Let_def locations_of_def primary_location_def)
  then show "set (locations_of (combine ms)) = (\<Union>f \<in> set ms. set (locations_of f))"
    using combined_set [of ?fs] by simp
  show "sorted (map occurrence_key (locations_of (combine ms)))"
    and "distinct (locations_of (combine ms))"
    using combined_sorted [of ?fs] locs by (simp_all add: comp_def)
qed

lemma combine_member:
  assumes "ms \<noteq> []"
  shows "\<exists>m \<in> set ms. Gate (combine ms) = Gate m \<and> Language (combine ms) = Language m
    \<and> RuleID (combine ms) = RuleID m \<and> File (combine ms) = File m
    \<and> Snippet (combine ms) = Snippet m \<and> Message (combine ms) = Message m
    \<and> Fingerprint (combine ms) = Fingerprint m"
proof -
  let ?fs = "sort_by less_metadata ms"
  let ?p = "hd (combined_locations ?fs)"
  from assms have "combined_locations ?fs \<noteq> []" by (intro combined_nonempty) simp
  then have "?p \<in> set (combined_locations ?fs)" by simp
  then have "fst ?p < length ?fs" using combined_first [of "fst ?p" "snd ?p" ?fs] by simp
  then have "?fs ! fst ?p \<in> set ?fs" by (rule nth_mem)
  then show ?thesis by (intro bexI [of _ "?fs ! fst ?p"]) (simp_all add: combine_def Let_def)
qed

lemma highest_fold:
  assumes "\<forall>f \<in> set fs. valid_severity (Severity f)" "valid_severity h"
  defines "s \<equiv> foldl (\<lambda>h f. if severity_precedence (Severity f) > severity_precedence h
                  then Severity f else h) h fs"
  shows "s \<in> insert h (Severity ` set fs)
    \<and> (\<forall>t \<in> insert h (Severity ` set fs). severity_precedence t \<le> severity_precedence s)"
  using assms(1,2) unfolding s_def
proof (induction fs arbitrary: h)
  case (Cons f fs)
  let ?h = "if severity_precedence (Severity f) > severity_precedence h then Severity f else h"
  from Cons.prems have "\<forall>f \<in> set fs. valid_severity (Severity f)" "valid_severity ?h" by auto
  from Cons.IH [OF this] show ?case by (auto split: if_splits)
qed simp

text \<open>The severity of a group is the highest severity among its members.\<close>

lemma combine_severity:
  assumes "ms \<noteq> []" "\<forall>f \<in> set ms. valid_severity (Severity f)"
  shows "Severity (combine ms) \<in> Severity ` set ms
    \<and> (\<forall>f \<in> set ms. severity_precedence (Severity f) \<le> severity_precedence (Severity (combine ms)))"
proof -
  let ?fs = "sort_by less_metadata ms"
  from assms have ne: "?fs \<noteq> []" by simp
  have sev: "Severity (combine ms) = highest_severity ?fs" by (simp add: combine_def Let_def)
  have all: "insert (Severity (hd ?fs)) (Severity ` set (tl ?fs)) = Severity ` set ms"
    using ne by (metis image_insert list.collapse list.simps(15) set_sort_by)
  have "\<forall>f \<in> set (tl ?fs). valid_severity (Severity f)" "valid_severity (Severity (hd ?fs))"
    using assms(2) ne by (metis list.set_sel(2) set_sort_by, metis list.set_sel(1) set_sort_by)
  from highest_fold [OF this] all show ?thesis
    unfolding sev highest_severity_def by blast
qed

text \<open>
  Up to its locations a group's finding is the least member, in metadata order, that has the
  group's first location. Members that tie in that order agree on everything else when equal
  fingerprints mean equal identities, so no tie-breaking of the sort can be seen.
\<close>

definition first_location :: "finding list \<Rightarrow> occurrence" where
  "first_location ms = hd (locations_of (combine ms))"

lemma combine_base:
  assumes "ms \<noteq> []" "\<forall>f \<in> set ms. valid_severity (Severity f)"
  shows "\<exists>b \<in> set ms. first_location ms \<in> set (locations_of b)
    \<and> (\<forall>m \<in> set ms. first_location ms \<in> set (locations_of m) \<longrightarrow> metadata_key b \<le> metadata_key m)
    \<and> combine ms = b\<lparr>Line := Line (combine ms), EndLine := EndLine (combine ms),
         Severity := Severity (combine ms), Occurrences := Occurrences (combine ms)\<rparr>"
proof -
  let ?fs = "sort_by less_metadata ms"
  let ?p = "hd (combined_locations ?fs)"
  let ?b = "?fs ! fst ?p"
  from assms have "combined_locations ?fs \<noteq> []" by (intro combined_nonempty) simp
  then have "?p \<in> set (combined_locations ?fs)" by simp
  then have p: "fst ?p < length ?fs" "snd ?p \<in> set (locations_of ?b)"
    and first: "\<And>j. j < fst ?p \<Longrightarrow> snd ?p \<notin> set (locations_of (?fs ! j))"
    using combined_first [of "fst ?p" "snd ?p" ?fs] by auto
  have loc: "first_location ms = snd ?p"
    by (simp add: first_location_def combine_def Let_def locations_of_def primary_location_def)
  have least: "metadata_key ?b \<le> metadata_key m"
    if "m \<in> set ms" and at: "snd ?p \<in> set (locations_of m)" for m
  proof -
    from that(1) have "m \<in> set ?fs" by simp
    then obtain j where j: "j < length ?fs" "?fs ! j = m" by (metis in_set_conv_nth)
    with at first have "fst ?p \<le> j" by (metis not_le)
    with j p(1) metadata.sorted_sort_by [of ms] assms(2) show ?thesis
      by (metis (no_types, lifting) length_map nth_map sorted_nth_mono)
  qed
  have "?b \<in> set ms" using p(1) by (metis nth_mem set_sort_by)
  then show ?thesis
    using p(2) least by (intro bexI [of _ ?b]) (auto simp: loc, simp add: combine_def Let_def)
qed

lemma combine_perm:
  assumes set: "set ms = set ns" and ne: "ms \<noteq> []"
    and sev: "\<forall>f \<in> set ms. valid_severity (Severity f)"
    and ident: "\<forall>f \<in> set ms. \<forall>g \<in> set ms. Gate f = Gate g \<and> RuleID f = RuleID g
       \<and> File f = File g \<and> Fingerprint f = Fingerprint g"
  shows "combine ms = combine ns"
proof -
  from set ne have ne': "ns \<noteq> []" by auto
  from set sev have sev': "\<forall>f \<in> set ns. valid_severity (Severity f)" by simp
  have locs: "locations_of (combine ms) = locations_of (combine ns)"
  proof (rule sorted_key_set_unique [of occurrence_key])
    show "set (locations_of (combine ms)) = set (locations_of (combine ns))"
      using combine_locations(1) ne ne' set by simp
  qed (use combine_locations(2,3) ne ne' occurrence_key_inj in \<open>auto simp: distinct_map intro: inj_on_subset\<close>)
  then have loc: "first_location ms = first_location ns"
    and occ: "Occurrences (combine ms) = Occurrences (combine ns)"
    and line: "Line (combine ms) = Line (combine ns)" "EndLine (combine ms) = EndLine (combine ns)"
    by (simp_all add: first_location_def locations_of_def primary_location_def)
  have sevs: "Severity (combine ms) = Severity (combine ns)"
  proof -
    from combine_severity [OF ne sev] combine_severity [OF ne' sev'] set
    have "severity_precedence (Severity (combine ms)) = severity_precedence (Severity (combine ns))"
      and "valid_severity (Severity (combine ms))" "valid_severity (Severity (combine ns))"
      using sev by (auto intro: antisym)
    then show ?thesis using severity_precedence_inj by blast
  qed
  obtain b where b: "b \<in> set ms" "first_location ms \<in> set (locations_of b)"
      "\<forall>m \<in> set ms. first_location ms \<in> set (locations_of m) \<longrightarrow> metadata_key b \<le> metadata_key m"
    and cb: "combine ms = b\<lparr>Line := Line (combine ms), EndLine := EndLine (combine ms),
         Severity := Severity (combine ms), Occurrences := Occurrences (combine ms)\<rparr>"
    using combine_base [OF ne sev] by blast
  obtain d where d: "d \<in> set ns" "first_location ns \<in> set (locations_of d)"
      "\<forall>m \<in> set ns. first_location ns \<in> set (locations_of m) \<longrightarrow> metadata_key d \<le> metadata_key m"
    and cd: "combine ns = d\<lparr>Line := Line (combine ns), EndLine := EndLine (combine ns),
         Severity := Severity (combine ns), Occurrences := Occurrences (combine ns)\<rparr>"
    using combine_base [OF ne' sev'] by blast
  have "metadata_key b = metadata_key d"
    using b d set loc by (metis antisym)
  moreover have "Gate b = Gate d \<and> RuleID b = RuleID d \<and> File b = File d \<and> Fingerprint b = Fingerprint d"
    using ident b(1) d(1) set by blast
  ultimately have "b\<lparr>Line := l, EndLine := e, Severity := s, Occurrences := os\<rparr>
      = d\<lparr>Line := l, EndLine := e, Severity := s, Occurrences := os\<rparr>" for l e s os
    by (simp add: metadata_key_def)
  then show ?thesis using cb cd line occ sevs by metis
qed

subsection \<open>What Group returns\<close>

lemma canonical_copy_fields [simp]:
  "Fingerprint (canonical_copy f) = fingerprint f"
  "File (canonical_copy f) = normalize_file (File f)"
  "Gate (canonical_copy f) = Gate f" "Language (canonical_copy f) = Language f"
  "RuleID (canonical_copy f) = RuleID f" "Severity (canonical_copy f) = Severity f"
  "Snippet (canonical_copy f) = Snippet f" "Message (canonical_copy f) = Message f"
  "Line (canonical_copy f) = Line f" "EndLine (canonical_copy f) = EndLine f"
  "Occurrences (canonical_copy f) = Occurrences f"
  "identity_fields (canonical_copy f) = identity_fields f"
  "fingerprint (canonical_copy f) = fingerprint f"
  "locations_of (canonical_copy f) = locations_of f"
  by (simp_all add: canonical_copy_def Let_def fingerprint_def locations_of_def primary_location_def)

lemma members_copies: "set (members p (map canonical_copy fs)) = canonical_copy ` {f \<in> set fs. fingerprint f = p}"
  by (auto simp: members_def)

lemma members_nonempty: "p \<in> fingerprint ` set fs \<Longrightarrow> members p (map canonical_copy fs) \<noteq> []"
  using members_copies [of p fs] by (metis (mono_tags, lifting) Collect_empty_eq empty_set imageE image_is_empty)

lemma group_valid_set:
  "set (group_valid fs) = (\<lambda>p. combine (members p (map canonical_copy fs))) ` fingerprint ` set fs"
  using nub_by_keys [of id "[]" "map fingerprint fs"]
  by (simp add: group_valid_def Let_def comp_def)

lemma combine_copies_fingerprint:
  "p \<in> fingerprint ` set fs \<Longrightarrow> Fingerprint (combine (members p (map canonical_copy fs))) = p"
  using combine_member [OF members_nonempty [of p fs]] members_copies [of p fs] by force

lemma group_valid_mset:
  "mset (map Fingerprint (group_valid fs)) = mset (nub_by id [] (map fingerprint fs))"
proof -
  have "set (nub_by id [] (map fingerprint fs)) = fingerprint ` set fs"
    using nub_by_keys [of id "[]" "map fingerprint fs"] by simp
  then have "map (\<lambda>p. Fingerprint (combine (members p (map canonical_copy fs))))
        (nub_by id [] (map fingerprint fs)) = nub_by id [] (map fingerprint fs)"
    by (intro map_idI combine_copies_fingerprint) simp
  then show ?thesis by (simp add: group_valid_def Let_def comp_def del: mset_map)
qed

lemma group_valid_distinct: "distinct (map Fingerprint (group_valid fs))"
  using nub_by_distinct [of id "[]" "map fingerprint fs"] mset_eq_imp_distinct_iff [OF group_valid_mset]
  by simp

lemma group_valid_member:
  assumes "g \<in> set (group_valid fs)"
  shows "\<exists>f \<in> set fs. fingerprint f = Fingerprint g \<and> Gate g = Gate f \<and> Language g = Language f
    \<and> RuleID g = RuleID f \<and> File g = normalize_file (File f) \<and> Snippet g = Snippet f
    \<and> Message g = Message f"
    and "set (locations_of g) = (\<Union>f \<in> {f \<in> set fs. fingerprint f = Fingerprint g}. set (locations_of f))"
    and "sorted (map occurrence_key (locations_of g))" and "distinct (locations_of g)"
    and "\<forall>f \<in> set fs. valid_severity (Severity f) \<Longrightarrow>
      (\<exists>f \<in> set fs. fingerprint f = Fingerprint g \<and> Severity g = Severity f)
      \<and> (\<forall>f \<in> set fs. fingerprint f = Fingerprint g \<longrightarrow>
           severity_precedence (Severity f) \<le> severity_precedence (Severity g))"
proof -
  from assms obtain p where p: "p \<in> fingerprint ` set fs"
    and g: "g = combine (members p (map canonical_copy fs))" by (auto simp: group_valid_set)
  note ne = members_nonempty [OF p]
  from p g have fp: "Fingerprint g = p" using combine_copies_fingerprint by simp
  show "\<exists>f \<in> set fs. fingerprint f = Fingerprint g \<and> Gate g = Gate f \<and> Language g = Language f
    \<and> RuleID g = RuleID f \<and> File g = normalize_file (File f) \<and> Snippet g = Snippet f
    \<and> Message g = Message f"
  proof -
    obtain m where "m \<in> set (members p (map canonical_copy fs))" "Gate g = Gate m"
      "Language g = Language m" "RuleID g = RuleID m" "File g = File m" "Snippet g = Snippet m"
      "Message g = Message m" using combine_member [OF ne] g by blast
    moreover from this obtain f where "f \<in> set fs" "fingerprint f = p" "m = canonical_copy f"
      by (auto simp: members_copies)
    ultimately show ?thesis using fp by (intro bexI [of _ f]) simp_all
  qed
  show "set (locations_of g) = (\<Union>f \<in> {f \<in> set fs. fingerprint f = Fingerprint g}. set (locations_of f))"
    using combine_locations(1) [OF ne] members_copies [of p fs] fp g by simp
  show "sorted (map occurrence_key (locations_of g))" "distinct (locations_of g)"
    using combine_locations(2,3) [OF ne] g by simp_all
  assume sev: "\<forall>f \<in> set fs. valid_severity (Severity f)"
  then have "\<forall>f \<in> set (members p (map canonical_copy fs)). valid_severity (Severity f)"
    using members_copies [of p fs] by auto
  from combine_severity [OF ne this]
  have "Severity g \<in> Severity ` {f \<in> set fs. fingerprint f = p}"
    "\<forall>f \<in> {f \<in> set fs. fingerprint f = p}. severity_precedence (Severity f) \<le> severity_precedence (Severity g)"
    by (simp_all add: members_copies g image_image)
  then show "(\<exists>f \<in> set fs. fingerprint f = Fingerprint g \<and> Severity g = Severity f)
      \<and> (\<forall>f \<in> set fs. fingerprint f = Fingerprint g \<longrightarrow>
           severity_precedence (Severity f) \<le> severity_precedence (Severity g))"
    unfolding fp by auto
qed

text \<open>No two different identities of the input share a digest.\<close>

definition collision_free :: "finding list \<Rightarrow> bool" where
  "collision_free fs \<longleftrightarrow>
     (\<forall>f \<in> set fs. \<forall>g \<in> set fs. fingerprint f = fingerprint g \<longrightarrow> identity_fields f = identity_fields g)"

lemma validate_severity: "validate f = None \<Longrightarrow> valid_severity (Severity f)"
  by (simp add: validate_None good_identity_def)

lemma group_valid_perm:
  assumes "mset fs = mset fs'" and "collision_free fs" and "\<forall>f \<in> set fs. valid_severity (Severity f)"
  shows "group_valid fs = group_valid fs'"
proof -
  have set: "set fs = set fs'" using assms(1) by (metis set_mset_mset)
  let ?c = "\<lambda>p. combine (members p (map canonical_copy fs))"
  let ?c' = "\<lambda>p. combine (members p (map canonical_copy fs'))"
  let ?n = "nub_by id [] (map fingerprint fs)" and ?n' = "nub_by id [] (map fingerprint fs')"
  have n: "set ?n = fingerprint ` set fs" "set ?n' = fingerprint ` set fs"
    using nub_by_keys [of id "[]" "map fingerprint fs"] nub_by_keys [of id "[]" "map fingerprint fs'"] set
    by simp_all
  moreover have "distinct ?n" "distinct ?n'"
    using nub_by_distinct [of id "[]" "map fingerprint fs"] nub_by_distinct [of id "[]" "map fingerprint fs'"]
    by simp_all
  ultimately have mn: "mset ?n = mset ?n'" by (metis set_eq_iff_mset_eq_distinct)
  have same: "?c p = ?c' p" if "p \<in> fingerprint ` set fs" for p
  proof (rule combine_perm)
    show "set (members p (map canonical_copy fs)) = set (members p (map canonical_copy fs'))"
      by (simp add: members_copies set)
    show "members p (map canonical_copy fs) \<noteq> []" using that by (rule members_nonempty)
    show "\<forall>f \<in> set (members p (map canonical_copy fs)). valid_severity (Severity f)"
      using assms(3) by (auto simp: members_copies)
    show "\<forall>f \<in> set (members p (map canonical_copy fs)). \<forall>g \<in> set (members p (map canonical_copy fs)).
        Gate f = Gate g \<and> RuleID f = RuleID g \<and> File f = File g \<and> Fingerprint f = Fingerprint g"
      using assms(2) by (auto simp: members_copies collision_free_def identity_fields_def)
  qed
  have "mset (map ?c ?n) = mset (map ?c' ?n')"
  proof -
    have "map ?c ?n = map ?c' ?n" by (rule map_cong) (use same n(1) in simp_all)
    moreover have "mset (map ?c' ?n) = mset (map ?c' ?n')" by (simp only: mset_map mn)
    ultimately show ?thesis by (simp only:)
  qed
  moreover have "inj_on finding_key (set (map ?c ?n))"
    using combine_copies_fingerprint n(1) by (auto simp: inj_on_def finding_key_def)
  ultimately have "sort_by less_finding (map ?c ?n) = sort_by less_finding (map ?c' ?n')"
    by (rule report_order.sort_by_perm) simp
  then show ?thesis by (simp add: group_valid_def Let_def comp_def)
qed

subsection \<open>Canonical findings\<close>

text \<open>A finding that \<open>Group\<close> returns unchanged, when it is valid.\<close>

definition canonical_finding :: "finding \<Rightarrow> bool" where
  "canonical_finding f \<longleftrightarrow>
     File f = normalize_file (File f) \<and> Fingerprint f = fingerprint f
     \<and> sorted (map occurrence_key (locations_of f)) \<and> distinct (locations_of f)"

lemma nub_located_single:
  "distinct (locations_of f) \<Longrightarrow> nub_by snd [] (located_from 0 [f]) = map (Pair 0) (locations_of f)"
  by (simp add: nub_by_id comp_def)

lemma combine_single:
  assumes "sorted (map occurrence_key (locations_of f))" "distinct (locations_of f)"
  shows "combine [f] = f"
proof -
  have "combined_locations [f] = map (Pair 0) (locations_of f)"
    unfolding combined_locations_def nub_located_single [OF assms(2)]
    by (rule key_comparator.sort_by_sorted [OF located_order]) (use assms(1) in \<open>simp_all add: comp_def\<close>)
  then show ?thesis
    by (simp add: combine_def Let_def locations_of_def primary_location_def highest_severity_def comp_def)
qed

lemma canonical_copy_id: "canonical_finding f \<Longrightarrow> canonical_copy f = f"
  by (simp add: canonical_finding_def canonical_copy_def Let_def)

lemma members_distinct:
  "distinct (map Fingerprint fs) \<Longrightarrow> f \<in> set fs \<Longrightarrow> members (Fingerprint f) fs = [f]"
  unfolding members_def by (induction fs) (auto simp: filter_empty_conv, metis image_eqI)

lemma group_valid_fixed:
  assumes "\<forall>f \<in> set fs. canonical_finding f" "distinct (map Fingerprint fs)" "sorted (map finding_key fs)"
  shows "group_valid fs = fs"
proof -
  have copies: "map canonical_copy fs = fs" using assms(1) by (simp add: map_idI canonical_copy_id)
  have "map (\<lambda>p. combine (members p fs)) (map Fingerprint fs) = map (\<lambda>f. combine [f]) fs"
    using assms(2) by (simp add: members_distinct)
  also have "\<dots> = fs"
    using assms(1) by (intro map_idI combine_single) (auto simp: canonical_finding_def)
  finally show ?thesis
    using assms(2,3) by (simp add: group_valid_def Let_def copies nub_by_id report_order.sort_by_sorted)
qed

lemma group_valid_canonical:
  assumes "g \<in> set (group_valid fs)"
  shows "canonical_finding g"
proof -
  from group_valid_member(1) [OF assms] obtain f where "f \<in> set fs" "fingerprint f = Fingerprint g"
    "Gate g = Gate f" "RuleID g = RuleID f" "File g = normalize_file (File f)" "Snippet g = Snippet f"
    by blast
  then have "Fingerprint g = fingerprint g" "File g = normalize_file (File g)"
    by (simp_all add: fingerprint_def identity_fields_def)
  with group_valid_member(3,4) [OF assms] show ?thesis by (simp add: canonical_finding_def)
qed

lemma group_valid_sorted: "sorted (map finding_key (group_valid fs))"
  unfolding group_valid_def Let_def by (rule report_order.sorted_sort_by) simp

text \<open>What grouping returns is valid again, if its cleaned path is one that is accepted.\<close>

lemma group_valid_validates:
  assumes val: "\<forall>f \<in> set fs. validate f = None" and g: "g \<in> set (group_valid fs)"
    and path: "parse_path (File g) = Inr (File g)"
  shows "validate g = None"
proof -
  from g have can: "canonical_finding g" by (rule group_valid_canonical)
  from group_valid_member(1) [of g fs] g obtain f where f: "f \<in> set fs" "Gate g = Gate f"
    "Language g = Language f" "RuleID g = RuleID f" "Snippet g = Snippet f" "Message g = Message f"
    by blast
  have vf: "validate f = None" using val f(1) by blast
  have sev: "valid_severity (Severity g)"
    using group_valid_member(5) [of g fs] g val by (metis validate_severity)
  have locs: "good_occurrence oc" if "oc \<in> set (locations_of g)" for oc
    using group_valid_member(2) [of g fs] g val that
    by (auto simp: validate_None locations_of_def primary_location_def good_occurrence_def)
  have "good_identity g"
    using vf f sev can path parse_path_value [of "File g" "File g"]
    by (auto simp: validate_None good_identity_def dest: parse_path_relative(1))
  moreover have "good_location (Line g) (EndLine g)"
    using locs [of "primary_location g"]
    by (simp add: locations_of_def primary_location_def good_occurrence_def)
  ultimately show ?thesis using locs can
    by (auto simp: validate_None canonical_finding_def locations_of_def primary_location_def
        good_occurrence_def)
qed

subsection \<open>Properties\<close>

text \<open>
  C18: \<open>Group\<close> returns one finding per fingerprint of its input, in report order; each carries
  the identity of a member, every location of every member once and in line order, and the highest
  severity any member had.
\<close>

theorem group_result:
  assumes "group fs = Inr gs"
  shows "distinct (map Fingerprint gs) \<and> Fingerprint ` set gs = fingerprint ` set fs
    \<and> sorted (map finding_key gs)
    \<and> (\<forall>g \<in> set gs.
         (\<exists>f \<in> set fs. fingerprint f = Fingerprint g \<and> Gate g = Gate f \<and> RuleID g = RuleID f
            \<and> Language g = Language f \<and> File g = normalize_file (File f) \<and> Snippet g = Snippet f
            \<and> Message g = Message f)
         \<and> set (locations_of g)
             = (\<Union>f \<in> {f \<in> set fs. fingerprint f = Fingerprint g}. set (locations_of f))
         \<and> sorted (map occurrence_key (locations_of g)) \<and> distinct (locations_of g)
         \<and> Severity g \<in> Severity ` {f \<in> set fs. fingerprint f = Fingerprint g}
         \<and> (\<forall>f \<in> set fs. fingerprint f = Fingerprint g \<longrightarrow>
              severity_precedence (Severity f) \<le> severity_precedence (Severity g)))"
proof -
  from assms have gs: "gs = group_valid fs" and val: "\<forall>f \<in> set fs. validate f = None"
    by (simp_all add: group_Inr)
  from val have sev: "\<forall>f \<in> set fs. valid_severity (Severity f)" by (simp add: validate_severity)
  have keys: "Fingerprint ` set gs = fingerprint ` set fs"
    using arg_cong [OF group_valid_mset [of fs], of set_mset] nub_by_keys [of id "[]" "map fingerprint fs"]
    by (simp add: gs)
  have member: "(\<exists>f \<in> set fs. fingerprint f = Fingerprint g \<and> Gate g = Gate f \<and> RuleID g = RuleID f
            \<and> Language g = Language f \<and> File g = normalize_file (File f) \<and> Snippet g = Snippet f
            \<and> Message g = Message f)" if "g \<in> set gs" for g
    using group_valid_member(1) [of g fs] that gs by blast
  have locs: "set (locations_of g)
      = (\<Union>f \<in> {f \<in> set fs. fingerprint f = Fingerprint g}. set (locations_of f))
      \<and> sorted (map occurrence_key (locations_of g)) \<and> distinct (locations_of g)" if "g \<in> set gs" for g
    using group_valid_member(2-4) [of g fs] that gs by blast
  have sevs: "Severity g \<in> Severity ` {f \<in> set fs. fingerprint f = Fingerprint g}
      \<and> (\<forall>f \<in> set fs. fingerprint f = Fingerprint g \<longrightarrow>
           severity_precedence (Severity f) \<le> severity_precedence (Severity g))" if "g \<in> set gs" for g
    using group_valid_member(5) [of g fs] that gs sev by blast
  show ?thesis
    using keys member locs sevs group_valid_distinct group_valid_sorted by (simp add: gs)
qed

theorem group_result_witness:
  "\<exists>gs. group [sample_finding, sample_finding\<lparr>Line := 9\<rparr>] = Inr gs
     \<and> Fingerprint ` set gs = {fingerprint sample_finding} \<and> sorted (map finding_key gs)"
proof -
  have "validate (sample_finding\<lparr>Line := 9\<rparr>) = None"
    by (rule sample_valid_at) simp
  then obtain gs where gs: "group [sample_finding, sample_finding\<lparr>Line := 9\<rparr>] = Inr gs"
    by (simp add: group_Inr sample_valid)
  have "fingerprint (sample_finding\<lparr>Line := 9\<rparr>) = fingerprint sample_finding"
    by (rule fingerprint_cong) simp
  with group_result [OF gs] gs show ?thesis by auto
qed

text \<open>
  C19: No reordering of the findings a gate reported changes what \<open>Group\<close> returns, as long as
  different identities have different digests.
\<close>

theorem group_perm:
  assumes "mset fs = mset fs'" "collision_free fs" "group fs = Inr gs"
  shows "group fs' = Inr gs"
proof -
  have "set fs = set fs'" using assms(1) by (metis set_mset_mset)
  with assms(3) have "\<forall>f \<in> set fs'. validate f = None" "\<forall>f \<in> set fs. valid_severity (Severity f)"
    by (auto simp: group_Inr validate_severity)
  with assms group_valid_perm [of fs fs'] show ?thesis by (simp add: group_Inr)
qed

theorem group_perm_witness:
  "group [sample_finding\<lparr>Line := 9\<rparr>, sample_finding] = group [sample_finding, sample_finding\<lparr>Line := 9\<rparr>]
   \<and> (\<exists>gs. group [sample_finding, sample_finding\<lparr>Line := 9\<rparr>] = Inr gs)"
proof -
  let ?fs = "[sample_finding, sample_finding\<lparr>Line := 9\<rparr>]"
  have "validate (sample_finding\<lparr>Line := 9\<rparr>) = None"
    by (rule sample_valid_at) simp
  then obtain gs where gs: "group ?fs = Inr gs"
    by (simp add: group_Inr sample_valid)
  have "collision_free ?fs" by (simp add: collision_free_def)
  with group_perm [OF _ this gs, of "[sample_finding\<lparr>Line := 9\<rparr>, sample_finding]"] gs
  show ?thesis by (simp add: add_mset_commute)
qed

text \<open>Grouping is idempotent on paths that \<open>ParsePath\<close> accepts again.\<close>

lemma group_again:
  assumes "group fs = Inr gs" "\<forall>g \<in> set gs. parse_path (File g) = Inr (File g)"
  shows "group gs = Inr gs"
proof -
  from assms(1) have gs: "gs = group_valid fs" and val: "\<forall>f \<in> set fs. validate f = None"
    by (simp_all add: group_Inr)
  have "validate g = None" if "g \<in> set gs" for g
    using group_valid_validates [OF val] assms(2) that gs by simp
  moreover have "group_valid gs = gs"
    by (rule group_valid_fixed)
      (simp_all add: gs group_valid_canonical group_valid_distinct group_valid_sorted)
  ultimately show ?thesis by (simp add: group_Inr)
qed

end
