(* ===== verification/Scope.thy ===== *)
theory Scope
  imports Grouping
begin

text \<open>
  \<open>internal/finding/scope.go\<close>: touched-entity scope. A Go map has no order; \<open>ChangedLines\<close> is the
  list of its entries in the order one iteration yields them, and the theorems hold for all.
\<close>

record line_range =
  Start :: int
  End :: int

type_synonym changed_lines = "(gostring \<times> line_range list) list"

datatype scope_error =
    ChangedPath path_error
  | ChangedRange gostring nat line_range
  | ScopeFinding nat finding_error

definition bad_range :: "line_range \<Rightarrow> bool" where
  "bad_range r \<longleftrightarrow> Start r \<le> 0 \<or> End r < Start r"

fun validated_changed_lines :: "changed_lines \<Rightarrow> (scope_error, changed_lines) res" where
  "validated_changed_lines [] = Inr []"
| "validated_changed_lines ((path, ranges) # rest) =
     (case parse_path path of
        Inl e \<Rightarrow> Inl (ChangedPath e)
      | Inr canonical \<Rightarrow>
          (case first_error (\<lambda>i r. if bad_range r then Some (ChangedRange path i r) else None) 0 ranges of
             Some e \<Rightarrow> Inl e
           | None \<Rightarrow>
               (case validated_changed_lines rest of
                  Inl e \<Rightarrow> Inl e
                | Inr m \<Rightarrow> Inr ((canonical, ranges) # m))))"

definition validate_changed_lines :: "changed_lines \<Rightarrow> scope_error option" where
  "validate_changed_lines ch =
     (case validated_changed_lines ch of Inl e \<Rightarrow> Some e | Inr _ \<Rightarrow> None)"

text \<open>\<open>changedPaths[file]\<close>: entries whose paths canonicalize alike are appended.\<close>

definition ranges_at :: "changed_lines \<Rightarrow> gostring \<Rightarrow> line_range list" where
  "ranges_at m q = concat (map snd (filter (\<lambda>e. fst e = q) m))"

definition overlaps_changed :: "occurrence \<Rightarrow> line_range list \<Rightarrow> bool" where
  "overlaps_changed loc ranges \<longleftrightarrow>
     (let e = (if OccEndLine loc = 0 then OccLine loc else OccEndLine loc)
      in \<exists>r \<in> set ranges. OccLine loc \<le> End r \<and> Start r \<le> e)"

definition restrict_finding :: "finding \<Rightarrow> gostring \<Rightarrow> line_range list \<Rightarrow> finding option" where
  "restrict_finding f q ranges =
     (let survivors = sort_by less_occurrence
                        (filter (\<lambda>loc. overlaps_changed loc ranges) (locations_of f))
      in case survivors of
           [] \<Rightarrow> None
         | s # rest \<Rightarrow> Some (f\<lparr>File := q, Line := OccLine s, EndLine := OccEndLine s,
                               Occurrences := rest\<rparr>))"

fun filter_from :: "nat \<Rightarrow> finding list \<Rightarrow> changed_lines \<Rightarrow> (scope_error, finding list) res" where
  "filter_from i [] m = Inr []"
| "filter_from i (f # fs) m =
     (case validate f of
        Some e \<Rightarrow> Inl (ScopeFinding i e)
      | None \<Rightarrow>
          (case parse_path (File f) of
             Inl e \<Rightarrow> Inl (ScopeFinding i (InvalidPath e))
           | Inr q \<Rightarrow>
               (case filter_from (Suc i) fs m of
                  Inl e \<Rightarrow> Inl e
                | Inr gs \<Rightarrow>
                    (let ranges = ranges_at m q
                     in if ranges = [] then Inr gs
                        else (case restrict_finding f q ranges of
                                None \<Rightarrow> Inr gs
                              | Some g \<Rightarrow> Inr (g # gs))))))"

definition filter_touched :: "finding list \<Rightarrow> changed_lines \<Rightarrow> (scope_error, finding list) res" where
  "filter_touched fs ch =
     (case validated_changed_lines ch of Inl e \<Rightarrow> Inl e | Inr m \<Rightarrow> filter_from 0 fs m)"

subsection \<open>The touched lines as a set\<close>

text \<open>The specification: a location covers lines, a diff changes lines, and touching is sharing one.\<close>

definition covered_lines :: "occurrence \<Rightarrow> int set" where
  "covered_lines loc =
     {OccLine loc .. (if OccEndLine loc = 0 then OccLine loc else OccEndLine loc)}"

definition changed_set :: "changed_lines \<Rightarrow> gostring \<Rightarrow> int set" where
  "changed_set ch file =
     (\<Union>(path, ranges) \<in> {e \<in> set ch. normalize_file (fst e) = normalize_file file}.
        \<Union>r \<in> set ranges. {Start r .. End r})"

lemma validated_changed_lines_Inr:
  "validated_changed_lines ch = Inr m \<Longrightarrow>
     m = map (\<lambda>(p, rs). (normalize_file p, rs)) ch \<and> (\<forall>(p, rs) \<in> set ch. \<forall>r \<in> set rs. \<not> bad_range r)"
proof (induction ch arbitrary: m)
  case (Cons e ch)
  obtain p rs where e: "e = (p, rs)" by (cases e)
  have chk: "first_error (\<lambda>i r. if bad_range r then Some (ChangedRange p i r) else None) 0 rs = None
      \<longleftrightarrow> (\<forall>r \<in> set rs. \<not> bad_range r)"
    by (rule first_error_uniform) simp
  from Cons.prems e obtain m' where "validated_changed_lines ch = Inr m'"
    "m = (normalize_file p, rs) # m'" "\<forall>r \<in> set rs. \<not> bad_range r"
    using chk by (auto split: sum.splits option.splits dest: parse_path_value)
  with Cons.IH e show ?case by auto
qed simp

lemma ranges_at_set:
  "m = map (\<lambda>(p, rs). (normalize_file p, rs)) ch \<Longrightarrow>
     (\<Union>r \<in> set (ranges_at m (normalize_file file)). {Start r .. End r}) = changed_set ch file"
  by (auto simp: ranges_at_def changed_set_def; force)

lemma overlaps_iff:
  assumes "good_occurrence loc" and "\<forall>r \<in> set rs. \<not> bad_range r"
  shows "overlaps_changed loc rs \<longleftrightarrow> covered_lines loc \<inter> (\<Union>r \<in> set rs. {Start r .. End r}) \<noteq> {}"
proof -
  let ?e = "if OccEndLine loc = 0 then OccLine loc else OccEndLine loc"
  have le: "OccLine loc \<le> ?e"
    using assms(1) by (auto simp: good_occurrence_def good_location_def)
  have one: "OccLine loc \<le> End r \<and> Start r \<le> ?e \<longleftrightarrow> {OccLine loc .. ?e} \<inter> {Start r .. End r} \<noteq> {}"
    if "Start r \<le> End r" for r
    using that le by (auto simp: Int_atLeastAtMost max_def min_def)
  have "overlaps_changed loc rs \<longleftrightarrow> (\<exists>r \<in> set rs. {OccLine loc .. ?e} \<inter> {Start r .. End r} \<noteq> {})"
    unfolding overlaps_changed_def Let_def using one assms(2) by (meson bad_range_def not_le)
  moreover have "covered_lines loc = {OccLine loc .. ?e}" by (simp only: covered_lines_def)
  ultimately show ?thesis by (simp only:) blast
qed

lemma restrict_finding_Some:
  assumes "restrict_finding f q rs = Some g"
  shows "identity_fields g = identity_fields (f\<lparr>File := q\<rparr>)"
    and "File g = q" "Gate g = Gate f" "Language g = Language f" "RuleID g = RuleID f"
      "Severity g = Severity f" "Snippet g = Snippet f" "Message g = Message f"
      "Fingerprint g = Fingerprint f"
    and "mset (locations_of g) = mset (filter (\<lambda>loc. overlaps_changed loc rs) (locations_of f))"
    and "sorted (map occurrence_key (locations_of g))"
proof -
  let ?s = "sort_by less_occurrence (filter (\<lambda>loc. overlaps_changed loc rs) (locations_of f))"
  from assms obtain s rest where s: "?s = s # rest"
    and g: "g = f\<lparr>File := q, Line := OccLine s, EndLine := OccEndLine s, Occurrences := rest\<rparr>"
    by (auto simp: restrict_finding_def Let_def split: list.splits)
  have locs: "locations_of g = ?s"
    using g s by (simp add: locations_of_def primary_location_def)
  show "identity_fields g = identity_fields (f\<lparr>File := q\<rparr>)" "File g = q" "Gate g = Gate f"
    "Language g = Language f" "RuleID g = RuleID f"
    "Severity g = Severity f" "Snippet g = Snippet f" "Message g = Message f" "Fingerprint g = Fingerprint f"
    using g by (simp_all add: identity_fields_def)
  show "mset (locations_of g) = mset (filter (\<lambda>loc. overlaps_changed loc rs) (locations_of f))"
    unfolding locs by (rule mset_sort_by)
  show "sorted (map occurrence_key (locations_of g))"
    unfolding locs by (rule occurrence.sorted_sort_by) simp
qed

lemma restrict_finding_None:
  "restrict_finding f q rs = None \<longleftrightarrow> (\<forall>loc \<in> set (locations_of f). \<not> overlaps_changed loc rs)"
proof -
  have "restrict_finding f q rs = None
      \<longleftrightarrow> sort_by less_occurrence (filter (\<lambda>loc. overlaps_changed loc rs) (locations_of f)) = []"
    by (auto simp: restrict_finding_def Let_def split: list.splits)
  then show ?thesis by (simp add: filter_empty_conv)
qed

text \<open>\<open>FilterTouched\<close> as one pass that drops or restricts each finding.\<close>

definition touch :: "changed_lines \<Rightarrow> finding \<Rightarrow> finding option" where
  "touch m f = restrict_finding f (normalize_file (File f)) (ranges_at m (normalize_file (File f)))"

lemma filter_from_Inr:
  "filter_from i fs m = Inr gs \<Longrightarrow>
     (\<forall>f \<in> set fs. validate f = None) \<and> gs = List.map_filter (touch m) fs"
proof (induction fs arbitrary: i gs)
  case (Cons f fs)
  from Cons.prems obtain q gs' where v: "validate f = None" and q: "parse_path (File f) = Inr q"
    and rest: "filter_from (Suc i) fs m = Inr gs'"
    by (auto split: option.splits sum.splits)
  from q have qv: "q = normalize_file (File f)" by (rule parse_path_value)
  have none: "ranges_at m q = [] \<Longrightarrow> touch m f = None"
    by (simp add: touch_def qv [symmetric] restrict_finding_None overlaps_changed_def)
  have "gs = (case touch m f of None \<Rightarrow> gs' | Some g \<Rightarrow> g # gs')"
    using Cons.prems v q rest none
    by (auto simp: Let_def touch_def qv [symmetric] split: option.splits if_splits)
  with Cons.IH [OF rest] v show ?case by (auto split: option.splits simp: map_filter_simps)
qed (simp add: map_filter_simps)

subsection \<open>Properties\<close>

text \<open>
  C20: \<open>FilterTouched\<close> keeps, in order, exactly the findings with a location on a changed
  line; each kept finding has its identity and exactly its locations on changed lines, in line order.
\<close>

theorem filter_touched_exact:
  assumes "filter_touched fs ch = Inr gs"
  shows "\<exists>t. gs = List.map_filter t fs
    \<and> (\<forall>f \<in> set fs. t f = None \<longleftrightarrow>
         (\<forall>loc \<in> set (locations_of f). covered_lines loc \<inter> changed_set ch (File f) = {}))
    \<and> (\<forall>f \<in> set fs. \<forall>g. t f = Some g \<longrightarrow>
         identity_fields g = identity_fields f \<and> Fingerprint g = Fingerprint f
         \<and> Severity g = Severity f \<and> Message g = Message f
         \<and> mset (locations_of g) = mset (filter (\<lambda>loc. covered_lines loc \<inter> changed_set ch (File f) \<noteq> {})
              (locations_of f))
         \<and> sorted (map occurrence_key (locations_of g)))"
proof -
  from assms obtain m where m: "validated_changed_lines ch = Inr m" and ff: "filter_from 0 fs m = Inr gs"
    by (auto simp: filter_touched_def split: sum.splits)
  note mv = validated_changed_lines_Inr [OF m]
  note fv = filter_from_Inr [OF ff]
  have touched: "overlaps_changed loc (ranges_at m (normalize_file (File f)))
      \<longleftrightarrow> covered_lines loc \<inter> changed_set ch (File f) \<noteq> {}"
    if "f \<in> set fs" "loc \<in> set (locations_of f)" for f loc
  proof -
    have "good_occurrence loc" using that fv
      by (auto simp: validate_None locations_of_def primary_location_def good_occurrence_def)
    moreover have "\<forall>r \<in> set (ranges_at m (normalize_file (File f))). \<not> bad_range r"
      using mv by (force simp: ranges_at_def)
    moreover have "(\<Union>r \<in> set (ranges_at m (normalize_file (File f))). {Start r .. End r})
        = changed_set ch (File f)"
      by (rule ranges_at_set) (use mv in blast)
    ultimately show ?thesis using overlaps_iff by simp
  qed
  have none: "touch m f = None \<longleftrightarrow>
      (\<forall>loc \<in> set (locations_of f). covered_lines loc \<inter> changed_set ch (File f) = {})" if "f \<in> set fs" for f
    using touched [OF that] by (simp add: touch_def restrict_finding_None)
  have some: "identity_fields g = identity_fields f \<and> Fingerprint g = Fingerprint f
         \<and> Severity g = Severity f \<and> Message g = Message f
         \<and> mset (locations_of g) = mset (filter (\<lambda>loc. covered_lines loc \<inter> changed_set ch (File f) \<noteq> {})
              (locations_of f))
         \<and> sorted (map occurrence_key (locations_of g))" if f: "f \<in> set fs" and g: "touch m f = Some g" for f g
  proof -
    note r = restrict_finding_Some [OF g [unfolded touch_def]]
    have "filter (\<lambda>loc. overlaps_changed loc (ranges_at m (normalize_file (File f)))) (locations_of f)
        = filter (\<lambda>loc. covered_lines loc \<inter> changed_set ch (File f) \<noteq> {}) (locations_of f)"
      by (rule filter_cong) (use touched [OF f] in auto)
    with r show ?thesis by simp
  qed
  show ?thesis by (intro exI [of _ "touch m"]) (use fv none some in blast)
qed

theorem filter_touched_exact_witness:
  "\<exists>gs. filter_touched [sample_finding] [(''pkg/a.go'', [\<lparr>Start = 5, End = 8\<rparr>])] = Inr gs
     \<and> length gs = 1"
proof -
  let ?ch = "[(''pkg/a.go'', [\<lparr>Start = 5, End = 8\<rparr>])]"
  have p: "parse_path (''pkg/a.go'') = Inr ''pkg/a.go''" by (simp add: path_eval)
  then have "validated_changed_lines ?ch = Inr ?ch" by (simp add: bad_range_def)
  moreover have "File sample_finding = ''pkg/a.go''" by (simp add: sample_finding_def)
  ultimately have "\<exists>gs. filter_touched [sample_finding] ?ch = Inr gs"
    by (auto simp: filter_touched_def sample_valid p Let_def split: option.split)
  then obtain gs where gs: "filter_touched [sample_finding] ?ch = Inr gs" by blast
  from filter_touched_exact [OF gs] obtain t where t: "gs = List.map_filter t [sample_finding]"
    and all: "\<forall>f \<in> set [sample_finding]. t f = None \<longleftrightarrow> (\<forall>loc \<in> set (locations_of f).
         covered_lines loc \<inter> changed_set ?ch (File f) = {})"
    by (elim exE conjE) (rule that)
  have "primary_location sample_finding \<in> set (locations_of sample_finding)"
    "7 \<in> covered_lines (primary_location sample_finding)"
    "7 \<in> changed_set ?ch (File sample_finding)"
    by (simp_all add: locations_of_def covered_lines_def primary_location_def changed_set_def
        sample_finding_def)
  with all have "t sample_finding \<noteq> None" by fastforce
  then obtain g where "t sample_finding = Some g" by blast
  with t gs show ?thesis by (simp add: map_filter_simps)
qed

end
