(* ===== verification/Rails.thy ===== *)
theory Rails
  imports Prelude
begin

text \<open>
  \<open>internal/flywheel/rails.go\<close>: the iteration and wall-clock budgets of one fix loop. Times are
  nanoseconds since an epoch. Every method takes the reading its call of the injected clock
  returned as an argument; readings may go backwards. A method holds the mutex from start to end,
  so one method call is one atomic step. Only \<open>ExecutionContext\<close> splits: its state change is the
  one of the \<open>Snapshot\<close> it takes.
\<close>

subsection \<open>State and operations\<close>

datatype rail_kind = RailIterations | RailWallClock

datatype rails_error =
    MaxIterationsNotPositive | MaxWallClockNotPositive | ClockRequired
  | RailsUninitialized | ParentContextRequired | RailExhausted rail_kind

record rail_config =
  cfgMaxIterations :: int
  cfgMaxWallClock :: int

record rails =
  maxIterations :: int
  iterations :: int
  maxWallClock :: int
  startedAt :: int
  deadline :: int
  observedAt :: int
  hasClock :: bool

record rail_snapshot =
  snapMaxIterations :: int
  snapIterations :: int
  snapMaxWallClock :: int
  snapStartedAt :: int
  snapDeadline :: int
  snapElapsed :: int

text \<open>The clock is \<open>None\<close> when nil, else \<open>Some\<close> of its first reading.\<close>

definition new_rails :: "rail_config \<Rightarrow> int option \<Rightarrow> (rails_error, rails) res" where
  "new_rails config now =
     (if cfgMaxIterations config \<le> 0 then Inl MaxIterationsNotPositive
      else if cfgMaxWallClock config \<le> 0 then Inl MaxWallClockNotPositive
      else (case now of
              None \<Rightarrow> Inl ClockRequired
            | Some t \<Rightarrow>
                Inr \<lparr>maxIterations = cfgMaxIterations config, iterations = 0,
                     maxWallClock = cfgMaxWallClock config, startedAt = t,
                     deadline = t + cfgMaxWallClock config, observedAt = t, hasClock = True\<rparr>))"

definition rails_validate :: "rails \<Rightarrow> rails_error option" where
  "rails_validate r =
     (if \<not> hasClock r \<or> maxIterations r \<le> 0 \<or> maxWallClock r \<le> 0
      then Some RailsUninitialized else None)"

definition observe_locked :: "int \<Rightarrow> rails \<Rightarrow> rails" where
  "observe_locked observed r = (if observed > observedAt r then r\<lparr>observedAt := observed\<rparr> else r)"

definition admit_attempt :: "int \<Rightarrow> rails \<Rightarrow> rails_error option \<times> rails" where
  "admit_attempt t r =
     (case rails_validate r of
        Some e \<Rightarrow> (Some e, r)
      | None \<Rightarrow>
          (let r' = observe_locked t r
           in if \<not> observedAt r' < deadline r' then (Some (RailExhausted RailWallClock), r')
              else if iterations r' \<ge> maxIterations r' then (Some (RailExhausted RailIterations), r')
              else (None, r'\<lparr>iterations := iterations r' + 1\<rparr>)))"

definition admit_landing :: "int \<Rightarrow> rails \<Rightarrow> rails_error option \<times> rails" where
  "admit_landing t r =
     (case rails_validate r of
        Some e \<Rightarrow> (Some e, r)
      | None \<Rightarrow>
          (let r' = observe_locked t r
           in if \<not> observedAt r' < deadline r' then (Some (RailExhausted RailWallClock), r')
              else (None, r')))"

definition snapshot :: "int \<Rightarrow> rails \<Rightarrow> rail_snapshot \<times> rails" where
  "snapshot t r =
     (if \<not> hasClock r then (\<lparr>snapMaxIterations = 0, snapIterations = 0, snapMaxWallClock = 0,
                              snapStartedAt = 0, snapDeadline = 0, snapElapsed = 0\<rparr>, r)
      else (let r' = observe_locked t r;
                elapsed = observedAt r' - startedAt r'
            in (\<lparr>snapMaxIterations = maxIterations r', snapIterations = iterations r',
                 snapMaxWallClock = maxWallClock r', snapStartedAt = startedAt r',
                 snapDeadline = deadline r',
                 snapElapsed = (if elapsed < 0 then 0 else elapsed)\<rparr>, r')))"

text \<open>The timeout of the derived context. \<open>parent\<close> says whether the parent context is not nil.\<close>

definition execution_context :: "bool \<Rightarrow> int \<Rightarrow> rails \<Rightarrow> (rails_error, int) res \<times> rails" where
  "execution_context parent t r =
     (if \<not> parent then (Inl ParentContextRequired, r)
      else (case rails_validate r of
              Some e \<Rightarrow> (Inl e, r)
            | None \<Rightarrow>
                (case snapshot t r of (snap, r') \<Rightarrow>
                   (let remaining = snapMaxWallClock snap - snapElapsed snap
                    in if remaining \<le> 0 then (Inl (RailExhausted RailWallClock), r')
                       else (Inr remaining, r')))))"

text \<open>\<open>exhausted\<close>: the context ended because its rail timeout fired.\<close>

definition observe_execution_context :: "bool \<Rightarrow> rails \<Rightarrow> rails" where
  "observe_execution_context exhausted r =
     (if \<not> exhausted then r
      else if deadline r > observedAt r then r\<lparr>observedAt := deadline r\<rparr> else r)"

subsection \<open>Histories\<close>

datatype rail_op = OpAttempt int | OpLanding int | OpSnapshot int | OpContext bool int | OpObserve bool

definition rail_do :: "rail_op \<Rightarrow> rails \<Rightarrow> rails_error option \<times> rails" where
  "rail_do op r =
     (case op of
        OpAttempt t \<Rightarrow> admit_attempt t r
      | OpLanding t \<Rightarrow> admit_landing t r
      | OpSnapshot t \<Rightarrow> (None, snd (snapshot t r))
      | OpContext p t \<Rightarrow>
          (case execution_context p t r of
             (Inl e, r') \<Rightarrow> (Some e, r') | (Inr _, r') \<Rightarrow> (None, r'))
      | OpObserve b \<Rightarrow> (None, observe_execution_context b r))"

text \<open>A history of method calls with their answers, first call first.\<close>

inductive rails_run :: "rails \<Rightarrow> (rail_op \<times> rails_error option) list \<Rightarrow> rails \<Rightarrow> bool" where
  rails_done: "rails_run r [] r"
| rails_step: "rail_do op r = (answer, r') \<Longrightarrow> rails_run r' log r'' \<Longrightarrow>
     rails_run r ((op, answer) # log) r''"

inductive_simps rails_run_Nil [simp]: "rails_run r [] r'"
inductive_cases rails_run_ConsE: "rails_run r (x # log) r'"

definition rails_ok :: "rails \<Rightarrow> bool" where
  "rails_ok r \<longleftrightarrow> hasClock r \<and> 0 < maxIterations r \<and> 0 < maxWallClock r
     \<and> 0 \<le> iterations r \<and> iterations r \<le> maxIterations r
     \<and> deadline r = startedAt r + maxWallClock r \<and> startedAt r \<le> observedAt r"

text \<open>What no method touches.\<close>

definition rails_limits :: "rails \<Rightarrow> int \<times> int \<times> int \<times> int" where
  "rails_limits r = (maxIterations r, maxWallClock r, startedAt r, deadline r)"

definition consumed :: "(rail_op \<times> rails_error option) list \<Rightarrow> nat" where
  "consumed log = length (filter (\<lambda>(op, a). a = None \<and> (\<exists>t. op = OpAttempt t)) log)"

lemma new_rails_ok: "new_rails config now = Inr r \<Longrightarrow> rails_ok r \<and> iterations r = 0"
  by (auto simp: new_rails_def rails_ok_def split: if_splits option.splits)

lemma rails_ok_validate [simp]: "rails_ok r \<Longrightarrow> rails_validate r = None"
  by (simp add: rails_ok_def rails_validate_def)

lemma observe_locked_fields [simp]:
  "iterations (observe_locked t r) = iterations r"
  "maxIterations (observe_locked t r) = maxIterations r"
  "maxWallClock (observe_locked t r) = maxWallClock r"
  "startedAt (observe_locked t r) = startedAt r"
  "deadline (observe_locked t r) = deadline r"
  "hasClock (observe_locked t r) = hasClock r"
  "observedAt (observe_locked t r) = max t (observedAt r)"
  by (simp_all add: observe_locked_def max_def)

lemma rail_do_effect:
  assumes "rails_ok r" "rail_do op r = (a, r')"
  shows "rails_ok r'" "rails_limits r' = rails_limits r" "observedAt r \<le> observedAt r'"
    "iterations r' = iterations r + (if a = None \<and> (\<exists>t. op = OpAttempt t) then 1 else 0)"
    "deadline r \<le> observedAt r \<Longrightarrow>
       (\<exists>t. op = OpAttempt t \<or> op = OpLanding t) \<Longrightarrow> a = Some (RailExhausted RailWallClock)"
proof -
  note defs = rail_do_def admit_attempt_def admit_landing_def snapshot_def execution_context_def
    observe_execution_context_def rails_limits_def Let_def
  from assms have "rails_ok r' \<and> rails_limits r' = rails_limits r \<and> observedAt r \<le> observedAt r'
    \<and> iterations r' = iterations r + (if a = None \<and> (\<exists>t. op = OpAttempt t) then 1 else 0)
    \<and> (deadline r \<le> observedAt r \<longrightarrow>
       (\<exists>t. op = OpAttempt t \<or> op = OpLanding t) \<longrightarrow> a = Some (RailExhausted RailWallClock))"
    by (cases op) (auto simp: defs rails_ok_def rails_validate_def max_def split: if_splits)
  then show "rails_ok r'" "rails_limits r' = rails_limits r" "observedAt r \<le> observedAt r'"
    "iterations r' = iterations r + (if a = None \<and> (\<exists>t. op = OpAttempt t) then 1 else 0)"
    "deadline r \<le> observedAt r \<Longrightarrow>
       (\<exists>t. op = OpAttempt t \<or> op = OpLanding t) \<Longrightarrow> a = Some (RailExhausted RailWallClock)"
    by blast+
qed

text \<open>The rails are a budget of attempts.\<close>

definition spend :: "rail_op \<Rightarrow> rails \<Rightarrow> bool \<times> rails" where
  "spend op r = (case rail_do op r of (a, r') \<Rightarrow> (a = None \<and> (\<exists>t. op = OpAttempt t), r'))"

interpretation attempts: budget spend iterations maxIterations rails_ok
proof
  fix r op
  assume ok: "rails_ok r"
  obtain a r' where d: "rail_do op r = (a, r')" by (cases "rail_do op r")
  note e = rail_do_effect [OF ok d]
  show "rails_ok (snd (spend op r))" using d e(1) by (simp add: spend_def)
  show "maxIterations (snd (spend op r)) = maxIterations r"
    using d e(2) by (simp add: spend_def rails_limits_def)
  show "iterations (snd (spend op r)) = iterations r + (if fst (spend op r) then 1 else 0)"
    using d e(4) by (simp add: spend_def)
  show "iterations r \<le> maxIterations r" using ok by (simp add: rails_ok_def)
qed

lemma rails_run_ops: "rails_run r log r' \<Longrightarrow> run_ops spend (map fst log) r = (consumed log, r')"
  by (induction rule: rails_run.induct) (auto simp: consumed_def spend_def)

lemma rails_run_effect:
  "rails_run r log r' \<Longrightarrow> rails_ok r \<Longrightarrow>
     rails_ok r' \<and> rails_limits r' = rails_limits r \<and> observedAt r \<le> observedAt r'"
proof (induction rule: rails_run.induct)
  case (rails_step op r a r' log r'')
  from rail_do_effect(1-3) [OF rails_step.prems rails_step.hyps(1)] rails_step.IH
  show ?case by auto
qed simp

subsection \<open>Properties\<close>

text \<open>
  C25: Whatever methods are called on fresh rails and whatever the clock reads, the attempts
  admitted are the iterations counted and never more than the configured maximum, the limits never
  change and the observed time never goes back.
\<close>

theorem rails_bounded:
  assumes "new_rails config now = Inr r" "rails_run r log r'"
  shows "iterations r' = int (consumed log) \<and> int (consumed log) \<le> cfgMaxIterations config
    \<and> rails_limits r' = rails_limits r \<and> observedAt r \<le> observedAt r'"
proof -
  have cfg: "maxIterations r = cfgMaxIterations config"
    using assms(1) by (auto simp: new_rails_def split: if_splits option.splits)
  note ok = new_rails_ok [OF assms(1)]
  from attempts.run_ops_budget [OF _ rails_run_ops [OF assms(2)]]
    attempts.run_ops_within [OF _ rails_run_ops [OF assms(2)]] rails_run_effect [OF assms(2)] ok cfg
  show ?thesis by simp
qed

theorem rails_bounded_witness:
  "\<exists>r r'. new_rails \<lparr>cfgMaxIterations = 1, cfgMaxWallClock = 10\<rparr> (Some 100) = Inr r
     \<and> rails_run r [(OpAttempt 90, None), (OpAttempt 95, Some (RailExhausted RailIterations))] r'
     \<and> iterations r' = 1"
proof -
  obtain r where r: "new_rails \<lparr>cfgMaxIterations = 1, cfgMaxWallClock = 10\<rparr> (Some 100) = Inr r"
    and rv: "r = \<lparr>maxIterations = 1, iterations = 0, maxWallClock = 10, startedAt = 100, deadline = 110,
      observedAt = 100, hasClock = True\<rparr>"
    by (simp add: new_rails_def)
  have "rails_run r [(OpAttempt 90, None), (OpAttempt 95, Some (RailExhausted RailIterations))]
      (r\<lparr>iterations := 1\<rparr>)"
    by (rule rails_step, simp add: rv rail_do_def admit_attempt_def rails_validate_def observe_locked_def,
        rule rails_step, simp add: rv rail_do_def admit_attempt_def rails_validate_def observe_locked_def)
      (simp add: rv)
  with r rails_bounded [OF r this] show ?thesis by (auto simp: consumed_def)
qed

text \<open>
  Once the observed time has reached the deadline, by a clock reading or by the execution
  context's timeout, every later attempt and landing is refused by the wall-clock rail and consumes
  nothing, even if the clock then reads an earlier time.
\<close>

theorem wall_clock_permanent:
  assumes "rails_ok r" "deadline r \<le> observedAt r" "rails_run r log r'"
  shows "iterations r' = iterations r \<and> consumed log = 0
    \<and> (\<forall>(op, a) \<in> set log. (\<exists>t. op = OpAttempt t \<or> op = OpLanding t)
          \<longrightarrow> a = Some (RailExhausted RailWallClock))"
  using assms(3,1,2)
proof (induction rule: rails_run.induct)
  case (rails_step op r a r' log r'')
  note e = rail_do_effect [OF rails_step.prems(1) rails_step.hyps(1)]
  from e(2,3) rails_step.prems(2) have "deadline r' \<le> observedAt r'" by (simp add: rails_limits_def)
  with rails_step.IH e(1) have rest: "iterations r'' = iterations r' \<and> consumed log = 0
    \<and> (\<forall>(op, a) \<in> set log. (\<exists>t. op = OpAttempt t \<or> op = OpLanding t)
          \<longrightarrow> a = Some (RailExhausted RailWallClock))" by blast
  have here: "(\<exists>t. op = OpAttempt t \<or> op = OpLanding t) \<longrightarrow> a = Some (RailExhausted RailWallClock)"
    using e(5) rails_step.prems(2) by blast
  with e(4) have "iterations r' = iterations r" by auto
  with rest here show ?case by (auto simp: consumed_def)
qed (simp add: consumed_def)

theorem wall_clock_permanent_witness:
  "\<exists>r r'. rails_run r [(OpAttempt 0, Some (RailExhausted RailWallClock))] r' \<and> iterations r' = 0
     \<and> maxIterations r' = 3"
proof -
  let ?r = "\<lparr>maxIterations = 3, iterations = 0, maxWallClock = 10, startedAt = 100, deadline = 110,
      observedAt = 110, hasClock = True\<rparr>"
  have run: "rails_run ?r [(OpAttempt 0, Some (RailExhausted RailWallClock))] ?r"
    by (rule rails_step) (simp_all add: rail_do_def admit_attempt_def rails_validate_def observe_locked_def)
  have "rails_ok ?r" "deadline ?r \<le> observedAt ?r" by (simp_all add: rails_ok_def)
  from wall_clock_permanent [OF this run] run show ?thesis
    by (intro exI [of _ ?r] conjI) simp_all
qed

text \<open>
  An execution context is granted exactly while the deadline has not been observed, and its
  timeout ends at the deadline; letting it expire and recording that exhausts the wall clock.
\<close>

theorem execution_context_deadline:
  assumes "rails_ok r" "execution_context True t r = (answer, r')"
  shows "answer = (if max t (observedAt r) < deadline r then Inr (deadline r - max t (observedAt r))
                   else Inl (RailExhausted RailWallClock))
    \<and> deadline (observe_execution_context True r') \<le> observedAt (observe_execution_context True r')
    \<and> fst (admit_landing u (observe_execution_context True r')) = Some (RailExhausted RailWallClock)"
  using assms
  by (auto simp: execution_context_def snapshot_def rails_ok_def rails_validate_def Let_def
      observe_execution_context_def admit_landing_def max_def split: if_splits)

theorem execution_context_deadline_witness:
  "fst (execution_context True 103 \<lparr>maxIterations = 3, iterations = 0, maxWallClock = 10,
      startedAt = 100, deadline = 110, observedAt = 101, hasClock = True\<rparr>) = Inr 7"
proof -
  let ?r = "\<lparr>maxIterations = 3, iterations = 0, maxWallClock = 10, startedAt = 100, deadline = 110,
      observedAt = 101, hasClock = True\<rparr>"
  obtain a r' where e: "execution_context True 103 ?r = (a, r')" by (cases "execution_context True 103 ?r")
  have "rails_ok ?r" by (simp add: rails_ok_def)
  from execution_context_deadline [OF this e, of 0] e show ?thesis by simp
qed

end
