(* ===== verification/Plans.thy ===== *)
theory Plans
  imports Scope "HOL-Library.AList"
begin

text \<open>
  \<open>internal/flywheel/plan.go\<close>: the plan of a fix wave. Canonical blocking findings are sorted and cut
  into batches, one per primary file, and every batch carries a digest identity that binds it to its
  wave. A Go \<open>map[string]int\<close> is an association list in the order its iteration yields the keys. The
  \<open>clone\<close> functions copy memory and are the identity on values.
\<close>

subsection \<open>Data\<close>

datatype batch_status =
  BatchPending | BatchRunning | BatchDone | BatchStuck | BatchStatusOther gostring

datatype attempt_status = AttemptRunning | AttemptPassed | AttemptFailed

record attempt =
  attNumber :: nat
  attStatus :: attempt_status
  attFailure :: gostring
  attChangedFiles :: "gostring list"
  attCommit :: gostring

text \<open>
  \<open>BatchProof\<close>: the fields the orchestration reads. \<open>owner\<close> is compared by identity, a validation
  snapshot is seen through its private root, and \<open>proofCapture\<close> stands for the captured files,
  directories, index and protected tree, which only \<open>worktree.go\<close> looks into.
\<close>

record batch_proof =
  proofOwner :: "nat option"
  proofTree :: gostring
  proofChanged :: "gostring list"
  proofVerify :: bool
  proofValidation :: "gostring option option"
  proofCapture :: nat

definition no_proof :: batch_proof where
  "no_proof = \<lparr>proofOwner = None, proofTree = [], proofChanged = [], proofVerify = False,
               proofValidation = None, proofCapture = 0\<rparr>"

record batch_identity =
  waveDigest :: gostring
  identityProof :: gostring

record batch =
  batchName :: gostring
  primaryFile :: gostring
  batchFindings :: "finding list"
  batchStatus :: batch_status
  batchAttempts :: "attempt list"
  batchIdentity :: batch_identity
  batchProof :: batch_proof

record plan =
  schemaVersion :: int
  planBatches :: "batch list"

definition empty_plan :: plan where
  "empty_plan = \<lparr>schemaVersion = 0, planBatches = []\<rparr>"

subsection \<open>Canonical findings\<close>

datatype plan_error =
    FingerprintMissing nat
  | PlanFinding nat finding_error
  | NotCanonicallyGrouped nat
  | DuplicateFingerprint nat gostring

definition less_plan_finding :: "finding \<Rightarrow> finding \<Rightarrow> bool" where
  "less_plan_finding l r =
     (if File l \<noteq> File r then File l < File r
      else if Line l \<noteq> Line r then Line l < Line r
      else if Gate l \<noteq> Gate r then Gate l < Gate r
      else if RuleID l \<noteq> RuleID r then RuleID l < RuleID r
      else Fingerprint l < Fingerprint r)"

fun canonical_from :: "nat \<Rightarrow> gostring list \<Rightarrow> finding list \<Rightarrow> (plan_error, finding list) res" where
  "canonical_from i seen [] = Inr []"
| "canonical_from i seen (f # fs) =
     (if Fingerprint f = [] then Inl (FingerprintMissing i)
      else (case group [f] of
              Inl (_, e) \<Rightarrow> Inl (PlanFinding i e)
            | Inr grouped \<Rightarrow>
                if length grouped \<noteq> 1 \<or> hd grouped \<noteq> f then Inl (NotCanonicallyGrouped i)
                else if Fingerprint f \<in> set seen then Inl (DuplicateFingerprint i (Fingerprint f))
                else (case canonical_from (Suc i) (Fingerprint f # seen) fs of
                        Inl e \<Rightarrow> Inl e
                      | Inr rest \<Rightarrow> Inr (f # rest))))"

definition canonical_findings :: "finding list \<Rightarrow> (plan_error, finding list) res" where
  "canonical_findings fs =
     (case canonical_from 0 [] fs of
        Inl e \<Rightarrow> Inl e
      | Inr ordered \<Rightarrow> Inr (sort_by less_plan_finding ordered))"

subsection \<open>Blocking multisets\<close>

type_synonym counts = "(gostring \<times> int) list"

definition count_of :: "counts \<Rightarrow> gostring \<Rightarrow> int" where
  "count_of m k = (case map_of m k of None \<Rightarrow> 0 | Some n \<Rightarrow> n)"

definition blocking_multiset :: "finding list \<Rightarrow> (plan_error, counts) res" where
  "blocking_multiset fs =
     (case canonical_findings fs of
        Inl e \<Rightarrow> Inl e
      | Inr canonical \<Rightarrow>
          Inr (foldl (\<lambda>m f. AList.update (Fingerprint f)
                        (count_of m (Fingerprint f) + (1 + int (length (Occurrences f)))) m)
                 [] canonical))"

text \<open>The two loops of \<open>StrictlyShrinks\<close>; \<open>None\<close> is \<open>return false\<close>.\<close>

fun shrink_after :: "counts \<Rightarrow> bool \<Rightarrow> counts \<Rightarrow> bool option" where
  "shrink_after before strict [] = Some strict"
| "shrink_after before strict ((p, n) # rest) =
     (if n \<le> 0 \<or> n > count_of before p then None
      else shrink_after before (strict \<or> n < count_of before p) rest)"

fun shrink_before :: "counts \<Rightarrow> bool \<Rightarrow> counts \<Rightarrow> bool option" where
  "shrink_before after strict [] = Some strict"
| "shrink_before after strict ((p, n) # rest) =
     (if n \<le> 0 then None
      else shrink_before after (strict \<or> map_of after p = None) rest)"

definition strictly_shrinks :: "counts \<Rightarrow> counts \<Rightarrow> bool" where
  "strictly_shrinks after before =
     (case shrink_after before False after of
        None \<Rightarrow> False
      | Some strict \<Rightarrow>
          (case shrink_before after strict before of None \<Rightarrow> False | Some strict' \<Rightarrow> strict'))"

subsection \<open>Identities and plans\<close>

definition zero_byte :: char where
  "zero_byte = CHR 0x00"

definition blocker_wave_digest :: "finding list \<Rightarrow> gostring" where
  "blocker_wave_digest fs =
     hex (sha256 (''togi/fix-wave-identity/v1'' @ zero_byte
       # concat (map (\<lambda>f. be64 (int (length (Fingerprint f))) @ Fingerprint f
                          @ be64 (1 + int (length (Occurrences f)))) fs)))"

definition batch_id :: "gostring \<Rightarrow> gostring \<Rightarrow> gostring" where
  "batch_id file digest =
     ''batch-'' @ hex (sha256 (''togi/fix-batch-identity/v1'' @ zero_byte # frames [file, digest]))"

definition finding_fields :: "finding \<Rightarrow> gostring list" where
  "finding_fields f =
     [Gate f, Language f, RuleID f, Severity f, File f, Snippet f, Message f, Fingerprint f]"

definition proof_finding :: "finding \<Rightarrow> gostring" where
  "proof_finding f =
     frames (finding_fields f) @ be64 (Line f) @ be64 (EndLine f)
     @ be64 (int (length (Occurrences f)))
     @ concat (map (\<lambda>oc. be64 (OccLine oc) @ be64 (OccEndLine oc)) (Occurrences f))"

definition proof_bytes :: "gostring \<Rightarrow> gostring \<Rightarrow> gostring \<Rightarrow> finding list \<Rightarrow> gostring" where
  "proof_bytes bid file digest fs =
     ''togi/validated-fix-batch/v1'' @ zero_byte # frames [bid, file, digest]
     @ be64 (int (length fs)) @ concat (map proof_finding fs)"

definition batch_identity_proof :: "gostring \<Rightarrow> gostring \<Rightarrow> gostring \<Rightarrow> finding list \<Rightarrow> gostring" where
  "batch_identity_proof bid file digest fs = sha256 (proof_bytes bid file digest fs)"

text \<open>One step of the loop that cuts the ordered findings into batches.\<close>

definition add_finding :: "gostring \<Rightarrow> batch list \<Rightarrow> finding \<Rightarrow> batch list" where
  "add_finding digest bs f =
     (if bs = [] \<or> primaryFile (last bs) \<noteq> File f
      then bs @ [\<lparr>batchName = batch_id (File f) digest, primaryFile = File f, batchFindings = [f],
                  batchStatus = BatchPending, batchAttempts = [],
                  batchIdentity = \<lparr>waveDigest = [], identityProof = []\<rparr>, batchProof = no_proof\<rparr>]
      else butlast bs @ [(last bs)\<lparr>batchFindings := batchFindings (last bs) @ [f]\<rparr>])"

definition identify_batch :: "gostring \<Rightarrow> batch \<Rightarrow> batch" where
  "identify_batch digest b =
     b\<lparr>batchIdentity := \<lparr>waveDigest = digest,
         identityProof = batch_identity_proof (batchName b) (primaryFile b) digest (batchFindings b)\<rparr>\<rparr>"

definition new_plan :: "finding list \<Rightarrow> (plan_error, plan) res" where
  "new_plan fs =
     (case canonical_findings fs of
        Inl e \<Rightarrow> Inl e
      | Inr ordered \<Rightarrow>
          (let digest = blocker_wave_digest ordered
           in Inr \<lparr>schemaVersion = 1,
                   planBatches = map (identify_batch digest) (foldl (add_finding digest) [] ordered)\<rparr>))"

subsection \<open>What canonical findings are\<close>

lemma less_plan_finding_order [go_order]: "less_plan_finding = less_finding"
  by (intro ext) (simp add: less_plan_finding_def less_finding_def)

lemma group_single:
  assumes "group [f] = Inr gs"
  shows "length gs = 1" "hd gs = f \<longleftrightarrow> canonical_finding f"
proof -
  from assms have gs: "gs = group_valid [f]" by (simp add: group_Inr)
  have "mset (map Fingerprint gs) = {#fingerprint f#}" using group_valid_mset [of "[f]"] gs by simp
  then show len: "length gs = 1"
    by (metis length_map One_nat_def size_mset size_single)
  then obtain g where g: "gs = [g]" by (metis One_nat_def length_0_conv length_Suc_conv)
  show "hd gs = f \<longleftrightarrow> canonical_finding f"
  proof
    assume "hd gs = f"
    then show "canonical_finding f" using group_valid_canonical [of g "[f]"] g gs by simp
  next
    assume "canonical_finding f"
    then show "hd gs = f" using group_valid_fixed [of "[f]"] gs by simp
  qed
qed

definition canonical_input :: "finding list \<Rightarrow> bool" where
  "canonical_input fs \<longleftrightarrow>
     (\<forall>f \<in> set fs. validate f = None \<and> canonical_finding f) \<and> distinct (map Fingerprint fs)"

lemma canonical_from_Inr:
  "canonical_from i seen fs = Inr gs \<longleftrightarrow>
     gs = fs \<and> canonical_input fs \<and> Fingerprint ` set fs \<inter> set seen = {}"
proof (induction fs arbitrary: i seen gs)
  case (Cons f fs)
  show ?case
  proof (cases "validate f = None \<and> canonical_finding f")
    case True
    then have fp: "Fingerprint f \<noteq> []" by (simp add: canonical_finding_def)
    from True have "group [f] = Inr [f]"
      using group_valid_fixed [of "[f]"] by (simp add: group_Inr)
    with fp have "canonical_from i seen (f # fs) = Inr gs \<longleftrightarrow>
        Fingerprint f \<notin> set seen
        \<and> (\<exists>rest. canonical_from (Suc i) (Fingerprint f # seen) fs = Inr rest \<and> gs = f # rest)"
      by (auto split: sum.split)
    also have "\<dots> \<longleftrightarrow> Fingerprint f \<notin> set seen \<and> gs = f # fs \<and> canonical_input fs
        \<and> Fingerprint ` set fs \<inter> set (Fingerprint f # seen) = {}"
      unfolding Cons.IH by blast
    finally show ?thesis using True by (auto simp: canonical_input_def)
  next
    case False
    have "canonical_from i seen (f # fs) \<noteq> Inr gs"
    proof
      assume a: "canonical_from i seen (f # fs) = Inr gs"
      then obtain hs where hs: "group [f] = Inr hs" and "hd hs = f"
        by (auto split: if_splits sum.splits)
      with group_single(2) [OF hs] False show False by (simp add: group_Inr)
    qed
    with False show ?thesis by (auto simp: canonical_input_def)
  qed
qed (auto simp: canonical_input_def)

lemma canonical_findings_Inr:
  "canonical_findings fs = Inr gs \<longleftrightarrow> canonical_input fs \<and> gs = sort_by less_finding fs"
  by (auto simp: canonical_findings_def canonical_from_Inr go_order split: sum.splits)
    (metis canonical_from_Inr empty_iff empty_set inf_bot_right sum.distinct(1))

lemma canonical_input_cong: "mset fs = mset gs \<Longrightarrow> canonical_input fs \<longleftrightarrow> canonical_input gs"
  unfolding canonical_input_def by (metis mset_eq_imp_distinct_iff mset_map set_mset_mset)

lemma canonical_sort_unique:
  assumes "mset fs = mset gs" "canonical_input fs"
  shows "sort_by less_finding fs = sort_by less_finding gs"
proof (rule report_order.sort_by_perm)
  show "inj_on finding_key (set fs)"
    using assms(2) by (auto simp: canonical_input_def finding_key_def distinct_map inj_on_def)
qed (use assms in simp_all)

lemma canonical_input_part: "canonical_input (xs @ ys @ zs) \<Longrightarrow> canonical_input ys"
  by (auto simp: canonical_input_def)

subsection \<open>Blocking multisets as multisets\<close>

lemma update_new_key: "k \<notin> fst ` set m \<Longrightarrow> AList.update k v m = m @ [(k, v)]"
  by (induction m) auto

lemma blocking_fold:
  "distinct (map Fingerprint fs) \<Longrightarrow> Fingerprint ` set fs \<inter> fst ` set m = {} \<Longrightarrow>
     foldl (\<lambda>m f. AList.update (Fingerprint f)
        (count_of m (Fingerprint f) + (1 + int (length (Occurrences f)))) m) m fs
     = m @ map (\<lambda>f. (Fingerprint f, 1 + int (length (Occurrences f)))) fs"
proof (induction fs arbitrary: m)
  case (Cons f fs)
  have "Fingerprint f \<notin> fst ` set m" using Cons.prems by auto
  then have "map_of m (Fingerprint f) = None"
    and "AList.update (Fingerprint f) n m = m @ [(Fingerprint f, n)]" for n
    by (simp_all add: map_of_eq_None_iff update_new_key)
  with Cons show ?case by (auto simp: count_of_def)
qed simp

lemma blocking_multiset_Inr:
  "blocking_multiset fs = Inr m \<longleftrightarrow>
     canonical_input fs
     \<and> m = map (\<lambda>f. (Fingerprint f, 1 + int (length (Occurrences f)))) (sort_by less_finding fs)"
proof -
  have "distinct (map Fingerprint (sort_by less_finding fs))" if "canonical_input fs"
  proof -
    have "mset (map Fingerprint (sort_by less_finding fs)) = mset (map Fingerprint fs)" by simp
    with that show ?thesis unfolding canonical_input_def using mset_eq_imp_distinct_iff by blast
  qed
  then show ?thesis
    using blocking_fold [of "sort_by less_finding fs" "[]"]
    by (auto simp: blocking_multiset_def canonical_findings_Inr split: sum.split)
      (metis canonical_findings_Inr sum.distinct(1))
qed

text \<open>Counts of a Go map built by \<open>BlockingMultiset\<close>, and the multiset they denote.\<close>

definition counts_ok :: "counts \<Rightarrow> bool" where
  "counts_ok m \<longleftrightarrow> distinct (map fst m) \<and> (\<forall>(p, n) \<in> set m. 0 < n)"

fun count_mset :: "counts \<Rightarrow> gostring multiset" where
  "count_mset [] = {#}"
| "count_mset ((p, n) # rest) = replicate_mset (nat n) p + count_mset rest"

lemma count_mset_count: "counts_ok m \<Longrightarrow> int (count (count_mset m) p) = count_of m p"
proof (induction m)
  case (Cons e m)
  obtain q n where e: "e = (q, n)" by (cases e)
  from Cons.prems e have q: "q \<notin> fst ` set m" "0 < n" and "counts_ok m"
    by (simp_all add: counts_ok_def)
  with Cons.IH have ih: "int (count (count_mset m) p) = count_of m p" by simp
  have "count_of m q = 0" using q(1) by (simp add: count_of_def map_of_eq_None_iff [THEN iffD2])
  with ih q(2) e show ?case by (simp add: count_of_def)
qed (simp add: count_of_def)

lemma shrink_after_Some:
  "shrink_after before s m = Some t \<longleftrightarrow>
     (\<forall>(p, n) \<in> set m. 0 < n \<and> n \<le> count_of before p)
     \<and> (t \<longleftrightarrow> s \<or> (\<exists>(p, n) \<in> set m. n < count_of before p))"
proof (induction m arbitrary: s)
  case (Cons e m)
  obtain p n where e: "e = (p, n)" by (cases e)
  show ?case
  proof (cases "0 < n \<and> n \<le> count_of before p")
    case True
    with e Cons.IH [of "s \<or> n < count_of before p"] show ?thesis by simp
  qed (use e in auto)
qed auto

lemma shrink_before_Some:
  "shrink_before after s m = Some t \<longleftrightarrow>
     (\<forall>(p, n) \<in> set m. 0 < n) \<and> (t \<longleftrightarrow> s \<or> (\<exists>(p, n) \<in> set m. map_of after p = None))"
proof (induction m arbitrary: s)
  case (Cons e m)
  obtain p n where e: "e = (p, n)" by (cases e)
  show ?case
  proof (cases "0 < n")
    case True
    with e Cons.IH [of "s \<or> map_of after p = None"] show ?thesis by simp
  qed (use e in auto)
qed auto

lemma strictly_shrinks_iff:
  "strictly_shrinks after before \<longleftrightarrow>
     (\<forall>(p, n) \<in> set after. 0 < n \<and> n \<le> count_of before p) \<and> (\<forall>(p, n) \<in> set before. 0 < n)
     \<and> ((\<exists>(p, n) \<in> set after. n < count_of before p) \<or> (\<exists>(p, n) \<in> set before. map_of after p = None))"
proof (cases "shrink_after before False after")
  case None
  then have "\<not> (\<forall>(p, n) \<in> set after. 0 < n \<and> n \<le> count_of before p)"
    using shrink_after_Some [of before False after "\<exists>(p, n) \<in> set after. n < count_of before p"] by simp
  with None show ?thesis by (simp add: strictly_shrinks_def)
next
  case (Some s)
  note a = Some [unfolded shrink_after_Some]
  show ?thesis
  proof (cases "shrink_before after s before")
    case None
    then have "\<not> (\<forall>(p, n) \<in> set before. 0 < n)"
      using shrink_before_Some [of after s before "s \<or> (\<exists>(p, n) \<in> set before. map_of after p = None)"]
      by simp
    with None Some show ?thesis by (simp add: strictly_shrinks_def)
  next
    case (Some t)
    with a \<open>shrink_after before False after = Some s\<close> Some [unfolded shrink_before_Some]
    show ?thesis by (simp add: strictly_shrinks_def)
  qed
qed

lemma count_of_mem: "distinct (map fst m) \<Longrightarrow> (p, n) \<in> set m \<Longrightarrow> count_of m p = n"
  by (simp add: count_of_def)

lemma counts_pos:
  assumes "counts_ok m"
  shows "0 \<le> count_of m p"
  using count_mset_count [OF assms, of p] by linarith

lemma counts_le_iff:
  assumes "counts_ok a" "counts_ok b"
  shows "(\<forall>p. count_of a p \<le> count_of b p) \<longleftrightarrow> (\<forall>(p, n) \<in> set a. 0 < n \<and> n \<le> count_of b p)"
proof (intro iffI allI)
  assume "\<forall>p. count_of a p \<le> count_of b p"
  then show "\<forall>(p, n) \<in> set a. 0 < n \<and> n \<le> count_of b p"
    using assms(1) count_of_mem [of a] by (fastforce simp: counts_ok_def)
next
  fix p
  assume h: "\<forall>(p, n) \<in> set a. 0 < n \<and> n \<le> count_of b p"
  show "count_of a p \<le> count_of b p"
  proof (cases "map_of a p")
    case None
    then show ?thesis using counts_pos [OF assms(2)] by (simp add: count_of_def)
  next
    case (Some n)
    then have "(p, n) \<in> set a" by (rule map_of_SomeD)
    with h Some show ?thesis by (auto simp: count_of_def)
  qed
qed

lemma counts_less_iff:
  assumes "counts_ok a" "counts_ok b"
  shows "(\<exists>p. count_of a p < count_of b p) \<longleftrightarrow>
      (\<exists>(p, n) \<in> set a. n < count_of b p) \<or> (\<exists>(p, n) \<in> set b. map_of a p = None)"
proof
  assume "\<exists>p. count_of a p < count_of b p"
  then obtain p where p: "count_of a p < count_of b p" ..
  show "(\<exists>(p, n) \<in> set a. n < count_of b p) \<or> (\<exists>(p, n) \<in> set b. map_of a p = None)"
  proof (cases "map_of a p")
    case None
    with p have "0 < count_of b p" by (simp add: count_of_def)
    then obtain n where "map_of b p = Some n" by (auto simp: count_of_def split: option.splits)
    then have "(p, n) \<in> set b" by (rule map_of_SomeD)
    with None show ?thesis by blast
  next
    case (Some n)
    then have "(p, n) \<in> set a" by (rule map_of_SomeD)
    with Some p show ?thesis by (auto simp: count_of_def)
  qed
next
  assume "(\<exists>(p, n) \<in> set a. n < count_of b p) \<or> (\<exists>(p, n) \<in> set b. map_of a p = None)"
  then consider p n where "(p, n) \<in> set a" "n < count_of b p"
    | p n where "(p, n) \<in> set b" "map_of a p = None" by blast
  then show "\<exists>p. count_of a p < count_of b p"
  proof cases
    case 1
    with assms(1) count_of_mem [of a p n] show ?thesis by (auto simp: counts_ok_def)
  next
    case 2
    with assms(2) have "0 < n" "distinct (map fst b)" by (auto simp: counts_ok_def)
    with 2 count_of_mem [of b p n] show ?thesis
      by (intro exI [of _ p]) (simp add: count_of_def)
  qed
qed

lemma count_mset_subset:
  assumes "counts_ok a" "counts_ok b"
  shows "count_mset a \<subset># count_mset b \<longleftrightarrow>
    (\<forall>p. count_of a p \<le> count_of b p) \<and> (\<exists>p. count_of a p < count_of b p)"
proof -
  note c = count_mset_count [OF assms(1), symmetric] count_mset_count [OF assms(2), symmetric]
  show ?thesis
    unfolding c of_nat_le_iff of_nat_less_iff subset_mset.less_le_not_le subseteq_mset_def
    by (auto simp: not_le)
qed

lemma shrinks_subset:
  assumes "counts_ok a" "counts_ok b"
  shows "strictly_shrinks a b \<longleftrightarrow> count_mset a \<subset># count_mset b"
proof -
  have "\<forall>(p, n) \<in> set b. 0 < n" using assms(2) by (simp add: counts_ok_def)
  then show ?thesis
    unfolding strictly_shrinks_iff count_mset_subset [OF assms] counts_le_iff [OF assms]
      counts_less_iff [OF assms] by blast
qed

lemma blocking_counts_ok: "blocking_multiset fs = Inr m \<Longrightarrow> counts_ok m"
proof -
  assume "blocking_multiset fs = Inr m"
  then have inp: "canonical_input fs"
    and m: "m = map (\<lambda>f. (Fingerprint f, 1 + int (length (Occurrences f)))) (sort_by less_finding fs)"
    by (simp_all add: blocking_multiset_Inr)
  have "mset (map fst m) = mset (map Fingerprint fs)" by (simp add: m comp_def)
  then have "distinct (map fst m)"
    using inp mset_eq_imp_distinct_iff unfolding canonical_input_def by blast
  then show ?thesis by (auto simp: counts_ok_def m)
qed

subsection \<open>Batches of a plan\<close>

definition batch_shape :: "gostring \<Rightarrow> batch \<Rightarrow> bool" where
  "batch_shape digest b \<longleftrightarrow>
     batchName b = batch_id (primaryFile b) digest \<and> batchFindings b \<noteq> []
     \<and> (\<forall>f \<in> set (batchFindings b). File f = primaryFile b)
     \<and> batchStatus b = BatchPending \<and> batchAttempts b = [] \<and> batchProof b = no_proof"

lemma add_findings_invariant:
  assumes "sorted (map File fs)"
  shows "concat (map batchFindings (foldl (add_finding d) [] fs)) = fs
    \<and> (\<forall>b \<in> set (foldl (add_finding d) [] fs). batch_shape d b)
    \<and> sorted_wrt (<) (map primaryFile (foldl (add_finding d) [] fs))
    \<and> (fs \<noteq> [] \<longrightarrow> foldl (add_finding d) [] fs \<noteq> []
          \<and> primaryFile (last (foldl (add_finding d) [] fs)) = File (last fs))"
  using assms
proof (induction fs rule: rev_induct)
  case (snoc f fs)
  define bs where "bs = foldl (add_finding d) [] fs"
  have sorted: "sorted (map File fs)" and le: "\<forall>g \<in> set fs. File g \<le> File f"
    using snoc.prems by (auto simp: sorted_append)
  from snoc.IH [OF sorted] have ih: "concat (map batchFindings bs) = fs" "\<forall>b \<in> set bs. batch_shape d b"
    "sorted_wrt (<) (map primaryFile bs)"
    "fs \<noteq> [] \<Longrightarrow> bs \<noteq> [] \<and> primaryFile (last bs) = File (last fs)"
    by (simp_all add: bs_def)
  have step: "foldl (add_finding d) [] (fs @ [f]) = add_finding d bs f" by (simp add: bs_def)
  show ?case
  proof (cases "bs = [] \<or> primaryFile (last bs) \<noteq> File f")
    case True
    have "primaryFile b < File f" if "b \<in> set bs" for b
    proof -
      from that have bs: "bs \<noteq> []" by auto
      then obtain g where "g \<in> set (batchFindings (last bs))" "File g = primaryFile (last bs)"
        using ih(2) last_in_set [OF bs] unfolding batch_shape_def by (metis list.set_sel(1))
      with ih(1) le bs have "primaryFile (last bs) \<le> File f" by (metis UN_I last_in_set list.set_map set_concat image_eqI)
      with True bs have "primaryFile (last bs) < File f" by simp
      moreover have "primaryFile b \<le> primaryFile (last bs)"
      proof -
        obtain xs l where xs: "bs = xs @ [l]" using bs by (metis append_butlast_last_id)
        with ih(3) that show ?thesis by (auto simp: sorted_wrt_append)
      qed
      ultimately show ?thesis by simp
    qed
    then have smaller: "\<forall>b \<in> set bs. primaryFile b < File f" by blast
    define c where "c = \<lparr>batchName = batch_id (File f) d, primaryFile = File f, batchFindings = [f],
        batchStatus = BatchPending, batchAttempts = [],
        batchIdentity = \<lparr>waveDigest = [], identityProof = []\<rparr>, batchProof = no_proof\<rparr>"
    have c: "primaryFile c = File f" "batchFindings c = [f]" "batch_shape d c"
      by (simp_all add: c_def batch_shape_def)
    have "add_finding d bs f = bs @ [c]" using True by (auto simp: add_finding_def c_def)
    with ih(1-3) c smaller show ?thesis unfolding step by (simp add: sorted_wrt_append)
  next
    case False
    then obtain xs b where bs: "bs = xs @ [b]" by (metis append_butlast_last_id)
    define c where "c = b\<lparr>batchFindings := batchFindings b @ [f]\<rparr>"
    have c: "primaryFile c = File f" "batchFindings c = batchFindings b @ [f]"
      "primaryFile b = File f" "batch_shape d b"
      using False bs ih(2) by (simp_all add: c_def)
    then have "batch_shape d c" by (auto simp: batch_shape_def c_def)
    moreover have "add_finding d bs f = xs @ [c]" using False bs by (simp add: add_finding_def c_def)
    moreover have "sorted_wrt (<) (map primaryFile (xs @ [c]))"
      using ih(3) c(1,3) bs by (simp add: sorted_wrt_append)
    ultimately show ?thesis using ih(1,2) bs c(2) unfolding step by (simp add: c(1))
  qed
qed simp

lemma sorted_by_file: "sorted (map finding_key fs) \<Longrightarrow> sorted (map File fs)"
proof (induction fs)
  case (Cons f fs)
  then show ?case by (auto simp: finding_key_def)
qed simp

lemma sort_findings_sorted: "sorted (map finding_key (sort_by less_finding fs))"
  by (rule report_order.sorted_sort_by) simp

lemma sorted_concat_part:
  "sorted (map k (concat xss)) \<Longrightarrow> xs \<in> set xss \<Longrightarrow> sorted (map k xs)"
  by (induction xss) (auto simp: sorted_append)

text \<open>The batches of a plan, with their identities.\<close>

lemma new_plan_batches:
  assumes "new_plan fs = Inr p"
  defines "d \<equiv> blocker_wave_digest (sort_by less_finding fs)"
  shows "concat (map batchFindings (planBatches p)) = sort_by less_finding fs"
    and "sorted_wrt (<) (map primaryFile (planBatches p))"
    and "b \<in> set (planBatches p) \<Longrightarrow> batch_shape d b \<and> sorted (map finding_key (batchFindings b))
       \<and> canonical_input (batchFindings b) \<and> batchIdentity b = \<lparr>waveDigest = d,
         identityProof = batch_identity_proof (batchName b) (primaryFile b) d (batchFindings b)\<rparr>"
    and "schemaVersion p = 1" and "canonical_input fs"
proof -
  let ?o = "sort_by less_finding fs"
  let ?bs = "foldl (add_finding d) [] ?o"
  from assms(1) have inp: "canonical_input fs" and p: "schemaVersion p = 1"
    "planBatches p = map (identify_batch d) ?bs"
    by (auto simp: new_plan_def canonical_findings_Inr Let_def d_def split: sum.splits)
  note inv = add_findings_invariant [OF sorted_by_file [OF sort_findings_sorted [of fs]], of d]
  have id: "batchFindings (identify_batch d b) = batchFindings b"
    "primaryFile (identify_batch d b) = primaryFile b" for b by (simp_all add: identify_batch_def)
  show cc: "concat (map batchFindings (planBatches p)) = ?o"
    using inv by (simp add: p comp_def id)
  show "sorted_wrt (<) (map primaryFile (planBatches p))" using inv by (simp add: p comp_def id)
  show "schemaVersion p = 1" "canonical_input fs" by (fact p(1), fact inp)
  assume b: "b \<in> set (planBatches p)"
  then obtain b0 where b0: "b0 \<in> set ?bs" "b = identify_batch d b0" by (auto simp: p(2))
  have "sorted (map finding_key (batchFindings b))"
    using sorted_concat_part [of finding_key "map batchFindings (planBatches p)"] cc
      sort_findings_sorted [of fs] b by simp
  moreover have "canonical_input (batchFindings b)"
  proof -
    obtain us vs where "planBatches p = us @ b # vs" using split_list [OF b] by blast
    then have "?o = concat (map batchFindings us) @ batchFindings b @ concat (map batchFindings vs)"
      using cc by simp
    moreover have "canonical_input ?o" using inp canonical_input_cong [of ?o fs] by simp
    ultimately show ?thesis by (metis canonical_input_part)
  qed
  moreover have "batch_shape d b" using inv b0 by (auto simp: identify_batch_def batch_shape_def)
  ultimately show "batch_shape d b \<and> sorted (map finding_key (batchFindings b))
       \<and> canonical_input (batchFindings b) \<and> batchIdentity b = \<lparr>waveDigest = d,
         identityProof = batch_identity_proof (batchName b) (primaryFile b) d (batchFindings b)\<rparr>"
    by (simp add: b0(2) identify_batch_def)
qed

lemma new_plan_total: "canonical_input fs \<Longrightarrow> \<exists>p. new_plan fs = Inr p"
proof -
  assume "canonical_input fs"
  then have "canonical_findings fs = Inr (sort_by less_finding fs)" by (simp add: canonical_findings_Inr)
  then show ?thesis by (simp add: new_plan_def Let_def)
qed

lemma new_plan_empty: "new_plan fs = Inr p \<Longrightarrow> planBatches p = [] \<longleftrightarrow> fs = []"
proof
  assume np: "new_plan fs = Inr p" and "planBatches p = []"
  with new_plan_batches(1) [OF np] have "sort_by less_finding fs = []" by simp
  then show "fs = []" by (metis mset_sort_by mset_zero_iff)
next
  assume "new_plan fs = Inr p" "fs = []"
  then show "planBatches p = []"
    by (auto simp: new_plan_def canonical_findings_def Let_def)
qed

subsection \<open>What an identity proof binds\<close>

text \<open>Values a Go process can hold: lengths and line numbers fit an \<open>int\<close>.\<close>

definition line_fits :: "int \<Rightarrow> bool" where
  "line_fits n \<longleftrightarrow> 0 \<le> n \<and> n \<le> max_int"

definition finding_fits :: "finding \<Rightarrow> bool" where
  "finding_fits f \<longleftrightarrow>
     (\<forall>s \<in> set (finding_fields f). fits s) \<and> line_fits (Line f) \<and> line_fits (EndLine f)
     \<and> int (length (Occurrences f)) \<le> max_int
     \<and> (\<forall>oc \<in> set (Occurrences f). line_fits (OccLine oc) \<and> line_fits (OccEndLine oc))"

lemma be64_fits: "line_fits m \<Longrightarrow> line_fits n \<Longrightarrow> be64 m @ xs = be64 n @ ys \<longleftrightarrow> m = n \<and> xs = ys"
  using be64_inject [of m n] by (auto simp: line_fits_def max_int_def)

lemma be64_line: "line_fits m \<Longrightarrow> line_fits n \<Longrightarrow> be64 m = be64 n \<longleftrightarrow> m = n"
  using be64_fits [of m n "[]" "[]"] by simp

lemma occurrences_inject:
  fixes os qs :: "occurrence list"
  assumes "length os = length qs"
    "\<forall>oc \<in> set (os @ qs). line_fits (OccLine oc) \<and> line_fits (OccEndLine oc)"
    "concat (map (\<lambda>oc. be64 (OccLine oc) @ be64 (OccEndLine oc)) os) @ xs
     = concat (map (\<lambda>oc. be64 (OccLine oc) @ be64 (OccEndLine oc)) qs) @ ys"
  shows "os = qs \<and> xs = ys"
  using assms
proof (induction os qs rule: list_induct2)
  case (Cons oc os q qs)
  then have "be64 (OccLine oc) @ be64 (OccEndLine oc)
      @ concat (map (\<lambda>oc. be64 (OccLine oc) @ be64 (OccEndLine oc)) os) @ xs
     = be64 (OccLine q) @ be64 (OccEndLine q)
      @ concat (map (\<lambda>oc. be64 (OccLine oc) @ be64 (OccEndLine oc)) qs) @ ys"
    and f: "line_fits (OccLine oc)" "line_fits (OccEndLine oc)" "line_fits (OccLine q)"
      "line_fits (OccEndLine q)" by simp_all
  then have "OccLine oc = OccLine q" "OccEndLine oc = OccEndLine q"
    and rest: "concat (map (\<lambda>oc. be64 (OccLine oc) @ be64 (OccEndLine oc)) os) @ xs
     = concat (map (\<lambda>oc. be64 (OccLine oc) @ be64 (OccEndLine oc)) qs) @ ys"
    by (simp_all only: be64_fits)
  then have "oc = q" by (intro occurrence.equality) simp_all
  with Cons.IH [OF _ rest] Cons.prems(1) show ?case by simp
qed simp

lemma proof_finding_inject:
  assumes "finding_fits f" "finding_fits g" "proof_finding f @ xs = proof_finding g @ ys"
  shows "f = g \<and> xs = ys"
proof -
  let ?e = "\<lambda>f :: finding. concat (map (\<lambda>oc. be64 (OccLine oc) @ be64 (OccEndLine oc)) (Occurrences f))"
  have len: "length (finding_fields f) = length (finding_fields g)" by (simp add: finding_fields_def)
  have fits: "\<forall>s \<in> set (finding_fields f @ finding_fields g). fits s"
    using assms(1,2) by (auto simp: finding_fits_def)
  from assms(3) have "frames (finding_fields f) @ be64 (Line f) @ be64 (EndLine f)
      @ be64 (int (length (Occurrences f))) @ ?e f @ xs
      = frames (finding_fields g) @ be64 (Line g) @ be64 (EndLine g)
      @ be64 (int (length (Occurrences g))) @ ?e g @ ys" by (simp add: proof_finding_def)
  from frames_inject [OF len fits this] have fields: "finding_fields f = finding_fields g"
    and tail: "be64 (Line f) @ be64 (EndLine f) @ be64 (int (length (Occurrences f))) @ ?e f @ xs
      = be64 (Line g) @ be64 (EndLine g) @ be64 (int (length (Occurrences g))) @ ?e g @ ys"
    by blast+
  have "line_fits (int (length (Occurrences f)))" "line_fits (int (length (Occurrences g)))"
    using assms(1,2) by (simp_all add: finding_fits_def line_fits_def)
  with tail assms(1,2) have lines: "Line f = Line g" "EndLine f = EndLine g"
    and l: "length (Occurrences f) = length (Occurrences g)" and rest: "?e f @ xs = ?e g @ ys"
    by (simp_all add: be64_line finding_fits_def)
  have "Occurrences f = Occurrences g \<and> xs = ys"
    by (rule occurrences_inject [OF l _ rest]) (use assms(1,2) in \<open>auto simp: finding_fits_def\<close>)
  with fields lines show ?thesis unfolding finding_fields_def by (intro conjI finding.equality) simp_all
qed

lemma proof_findings_inject:
  assumes "length fs = length gs" "\<forall>f \<in> set (fs @ gs). finding_fits f"
    "concat (map proof_finding fs) = concat (map proof_finding gs)"
  shows "fs = gs"
  using assms
proof (induction fs gs rule: list_induct2)
  case (Cons f fs g gs)
  then have "proof_finding f @ concat (map proof_finding fs) = proof_finding g @ concat (map proof_finding gs)"
    "finding_fits f" "finding_fits g" by simp_all
  with proof_finding_inject have "f = g" "concat (map proof_finding fs) = concat (map proof_finding gs)"
    by blast+
  with Cons show ?case by simp
qed simp

text \<open>The blocking occurrences of findings as a multiset of fingerprints.\<close>

definition blocker_mset :: "finding list \<Rightarrow> gostring multiset" where
  "blocker_mset fs = (\<Sum>f \<in># mset fs. replicate_mset (Suc (length (Occurrences f))) (Fingerprint f))"

lemma count_mset_map:
  "count_mset (map (\<lambda>f. (Fingerprint f, 1 + int (length (Occurrences f)))) fs) = blocker_mset fs"
  by (induction fs) (simp_all add: blocker_mset_def nat_add_distrib)

lemma blocking_mset: "blocking_multiset fs = Inr m \<Longrightarrow> count_mset m = blocker_mset fs"
  by (auto simp: blocking_multiset_Inr count_mset_map) (simp add: blocker_mset_def)

subsection \<open>Properties\<close>

text \<open>A canonical finding for the witnesses.\<close>

definition sample_blocker :: finding where
  "sample_blocker = canonical_copy sample_finding"

lemma sample_blocker_canonical: "canonical_input [sample_blocker]"
proof -
  have norm: "normalize_file (File sample_finding) = File sample_finding"
    by (simp add: sample_finding_def path_eval)
  have "validate sample_blocker = None"
    using sample_valid norm unfolding sample_blocker_def validate_None good_identity_def by simp
  moreover have "canonical_finding sample_blocker"
    by (simp add: canonical_finding_def sample_blocker_def locations_of_def sample_finding_def)
  ultimately show ?thesis by (simp add: canonical_input_def)
qed

text \<open>
  C22: A plan holds every blocking finding exactly once, in one pending batch per primary file;
  batches are in file order, their findings in report order, and every batch has the digest identity
  of its file, of the wave, which is the digest of all blocking findings in report order, and of its findings.
\<close>

theorem new_plan_partition:
  assumes "new_plan fs = Inr p"
  shows "mset (concat (map batchFindings (planBatches p))) = mset fs
    \<and> sorted_wrt (<) (map primaryFile (planBatches p))
    \<and> (\<forall>b \<in> set (planBatches p).
         batchFindings b \<noteq> [] \<and> (\<forall>f \<in> set (batchFindings b). File f = primaryFile b)
         \<and> sorted (map finding_key (batchFindings b))
         \<and> batchStatus b = BatchPending \<and> batchAttempts b = []
         \<and> waveDigest (batchIdentity b) = blocker_wave_digest (sort_by less_finding fs)
         \<and> batchName b = batch_id (primaryFile b) (blocker_wave_digest (sort_by less_finding fs))
         \<and> identityProof (batchIdentity b) = batch_identity_proof (batchName b) (primaryFile b)
              (blocker_wave_digest (sort_by less_finding fs)) (batchFindings b))"
  using new_plan_batches [OF assms] by (simp add: batch_shape_def)

theorem new_plan_partition_witness:
  "\<exists>p. new_plan [sample_blocker] = Inr p \<and> map primaryFile (planBatches p) = [File sample_blocker]"
proof -
  obtain p where p: "new_plan [sample_blocker] = Inr p"
    using new_plan_total sample_blocker_canonical by blast
  note part = new_plan_partition [OF p]
  have one: "concat (map batchFindings (planBatches p)) = [sample_blocker]"
    using conjunct1 [OF part] by simp
  obtain b bs where b: "planBatches p = b # bs" using new_plan_empty [OF p] by (cases "planBatches p") auto
  moreover from part b have "batchFindings b \<noteq> []" by simp
  ultimately have "batchFindings b = [sample_blocker]" and "concat (map batchFindings bs) = []"
    using one by (simp_all add: append_eq_Cons_conv)
  have "bs = []"
  proof (rule ccontr)
    assume "bs \<noteq> []"
    then have "hd bs \<in> set bs" by simp
    moreover from this have "batchFindings (hd bs) \<noteq> []" using part b by simp
    ultimately show False using \<open>concat (map batchFindings bs) = []\<close> by simp
  qed
  moreover have "primaryFile b = File sample_blocker"
    using part b \<open>batchFindings b = [sample_blocker]\<close> by simp
  ultimately have "map primaryFile (planBatches p) = [File sample_blocker]" using b by simp
  with p show ?thesis by (intro exI [of _ p] conjI)
qed

text \<open>The plan does not depend on the order in which the blocking findings were reported.\<close>

theorem new_plan_perm:
  assumes "mset fs = mset gs" "new_plan fs = Inr p"
  shows "new_plan gs = Inr p"
proof -
  have inp: "canonical_input fs" using new_plan_batches(5) [OF assms(2)] .
  then have "canonical_findings gs = canonical_findings fs"
    using canonical_findings_Inr canonical_sort_unique [OF assms(1)] canonical_input_cong [OF assms(1)]
    by metis
  with assms(2) show ?thesis by (simp add: new_plan_def)
qed

theorem new_plan_perm_witness: "\<exists>p. new_plan [sample_blocker] = Inr p \<and> planBatches p \<noteq> []"
proof -
  obtain p where p: "new_plan [sample_blocker] = Inr p"
    using new_plan_total sample_blocker_canonical by blast
  with new_plan_perm [of "[sample_blocker]" "[sample_blocker]"] new_plan_empty [OF p]
  show ?thesis by simp
qed

text \<open>
  C23: \<open>StrictlyShrinks\<close>, two loops over maps with early returns, decides whether the blocking
  occurrences after a wave are a strict sub-multiset of those before it.
\<close>

theorem strictly_shrinks_multiset:
  assumes "blocking_multiset fs = Inr after" "blocking_multiset gs = Inr before"
  shows "strictly_shrinks after before \<longleftrightarrow> blocker_mset fs \<subset># blocker_mset gs"
  using shrinks_subset [OF blocking_counts_ok blocking_counts_ok, OF assms] blocking_mset assms
  by simp

theorem strictly_shrinks_multiset_witness:
  "\<exists>m. blocking_multiset [sample_blocker] = Inr m \<and> strictly_shrinks [] m"
proof -
  obtain m where m: "blocking_multiset [sample_blocker] = Inr m"
    by (simp add: blocking_multiset_Inr sample_blocker_canonical)
  have e: "blocking_multiset [] = Inr []" by (simp add: blocking_multiset_Inr canonical_input_def)
  from strictly_shrinks_multiset [OF e m] have "strictly_shrinks [] m"
    by (simp add: blocker_mset_def subset_mset.zero_less_iff_neq_zero)
  with m show ?thesis by blast
qed

text \<open>
  C24: The bytes a batch's identity proof hashes determine the batch: its name, primary file, wave
  digest and every field of every finding, occurrences included.
\<close>

theorem proof_bytes_bind:
  assumes "\<forall>s \<in> {bid, file, digest, bid', file', digest'}. fits s"
    "\<forall>f \<in> set (fs @ gs). finding_fits f"
    "int (length fs) \<le> max_int" "int (length gs) \<le> max_int"
    "proof_bytes bid file digest fs = proof_bytes bid' file' digest' gs"
  shows "bid = bid' \<and> file = file' \<and> digest = digest' \<and> fs = gs"
proof -
  from assms(5) have eq: "frames [bid, file, digest] @ be64 (int (length fs)) @ concat (map proof_finding fs)
      = frames [bid', file', digest'] @ be64 (int (length gs)) @ concat (map proof_finding gs)"
    by (simp add: proof_bytes_def)
  have "\<forall>s \<in> set ([bid, file, digest] @ [bid', file', digest']). fits s" using assms(1) by auto
  from frames_inject [OF _ this eq] have ids: "[bid, file, digest] = [bid', file', digest']"
    and rest: "be64 (int (length fs)) @ concat (map proof_finding fs)
      = be64 (int (length gs)) @ concat (map proof_finding gs)" by auto
  have "line_fits (int (length fs))" "line_fits (int (length gs))"
    using assms(3,4) by (simp_all add: line_fits_def)
  with rest have "length fs = length gs" "concat (map proof_finding fs) = concat (map proof_finding gs)"
    by (simp_all add: be64_line)
  with proof_findings_inject assms(2) ids show ?thesis by simp
qed

theorem proof_bytes_bind_witness:
  "proof_bytes ''b'' ''f'' ''d'' [sample_finding] \<noteq> proof_bytes ''b'' ''f'' ''d'' [sample_finding\<lparr>Line := 8\<rparr>]"
proof
  let ?g = "sample_finding\<lparr>Line := 8\<rparr>"
  assume eq: "proof_bytes ''b'' ''f'' ''d'' [sample_finding] = proof_bytes ''b'' ''f'' ''d'' [?g]"
  have "list_all finding_fits [sample_finding, ?g]"
    by (simp add: finding_fits_def finding_fields_def sample_finding_def fits_def line_fits_def max_int_def)
  then have h: "\<forall>f \<in> set ([sample_finding] @ [?g]). finding_fits f" by simp
  have s: "\<forall>s \<in> {''b'', ''f'', ''d'', ''b'', ''f'', ''d''}. fits s"
    by (simp add: fits_def max_int_def)
  from proof_bytes_bind [OF s h _ _ eq] have "sample_finding = ?g" by (simp add: max_int_def)
  then have "Line sample_finding = Line ?g" by (rule arg_cong)
  then show False by (simp add: sample_finding_def)
qed

end
