(* ===== verification/GoJson.thy ===== *)
theory GoJson
  imports GoHash
begin

text \<open>
  The part of \<open>encoding/json\<close> and \<open>strconv\<close> that writes values: \<open>json.Marshal\<close> of a string, with
  HTML escaping as the default encoder does, and \<open>strconv.Itoa\<close>. A reader of JSON strings serves as
  the specification of what the writer promises.
\<close>

subsection \<open>Writing\<close>

definition quote_char :: char where "quote_char = CHR 0x22"
definition escape_char :: char where "escape_char = CHR 0x5C"

definition json_byte :: "char \<Rightarrow> gostring" where
  "json_byte c =
     (let b = byte c in
      if b = 34 \<or> b = 92 then [escape_char, c]
      else if b = 8 then [escape_char, CHR ''b'']
      else if b = 12 then [escape_char, CHR ''f'']
      else if b = 10 then [escape_char, CHR ''n'']
      else if b = 13 then [escape_char, CHR ''r'']
      else if b = 9 then [escape_char, CHR ''t'']
      else if b < 32 \<or> b = 60 \<or> b = 62 \<or> b = 38
      then [escape_char, CHR ''u'', CHR ''0'', CHR ''0'', hex_digit (b div 16), hex_digit (b mod 16)]
      else [c])"

definition json_chunk :: "nat \<times> gostring \<Rightarrow> gostring" where
  "json_chunk ch =
     (case ch of (r, bs) \<Rightarrow>
        if r = rune_error \<and> length bs = 1 then escape_char # ''ufffd''
        else if r < 128 then json_byte (hd bs)
        else if r = 8232 \<or> r = 8233 then escape_char # ''u202'' @ [hex_digit (r mod 16)]
        else bs)"

definition json_body :: "gostring \<Rightarrow> gostring" where
  "json_body s = concat (map json_chunk (chunks s))"

definition json_string :: "gostring \<Rightarrow> gostring" where
  "json_string s = quote_char # json_body s @ [quote_char]"

fun digits :: "nat \<Rightarrow> gostring" where
  "digits n = (if n < 10 then [hex_digit n] else digits (n div 10) @ [hex_digit (n mod 10)])"

declare digits.simps [simp del]

definition itoa :: "int \<Rightarrow> gostring" where
  "itoa n = (if n < 0 then CHR ''-'' # digits (nat (- n)) else digits (nat n))"

subsection \<open>Encoding runes\<close>

text \<open>\<open>utf8.AppendRune\<close> undoes \<open>utf8.DecodeRuneInString\<close> on real encodings.\<close>

definition encode_rune :: "nat \<Rightarrow> gostring" where
  "encode_rune r =
     (if r < 128 then [char_of r]
      else if r < 2048 then [char_of (192 + r div 64), char_of (128 + r mod 64)]
      else if r < 65536
      then [char_of (224 + r div 4096), char_of (128 + r div 64 mod 64), char_of (128 + r mod 64)]
      else [char_of (240 + r div 262144), char_of (128 + r div 4096 mod 64),
            char_of (128 + r div 64 mod 64), char_of (128 + r mod 64)])"

lemma byte_inverse [simp]: "char_of (byte c) = c"
  by (simp add: byte_def)

lemma encode_two: 
  fixes b b1 :: nat
  assumes "194 \<le> b" "b \<le> 223" "128 \<le> b1" "b1 \<le> 191" "r = (b - 192) * 64 + (b1 - 128)"
  shows "128 \<le> r \<and> r < 2048 \<and> 192 + r div 64 = b \<and> 128 + r mod 64 = b1"
proof -
  define x y where "x = b - 192" and "y = b1 - 128"
  with assms have "b = 192 + x" "b1 = 128 + y" "2 \<le> x" "x < 32" "y < 64" "r = x * 64 + y" by auto
  then show ?thesis by simp
qed

lemma encode_three:
  fixes b b1 b2 :: nat
  assumes "224 \<le> b" "b \<le> 239" "128 \<le> b1" "b1 \<le> 191" "b = 224 \<Longrightarrow> 160 \<le> b1" "128 \<le> b2" "b2 \<le> 191"
    "r = (b - 224) * 4096 + (b1 - 128) * 64 + (b2 - 128)"
  shows "2048 \<le> r \<and> r < 65536 \<and> 224 + r div 4096 = b \<and> 128 + r div 64 mod 64 = b1
    \<and> 128 + r mod 64 = b2"
proof -
  define x y z where "x = b - 224" and "y = b1 - 128" and "z = b2 - 128"
  have r: "r = x * 4096 + y * 64 + z" unfolding x_def y_def z_def by (rule assms(8))
  from x_def y_def z_def assms(1-7) have d: "b = 224 + x" "b1 = 128 + y" "b2 = 128 + z" "x < 16" "y < 64" "z < 64"
    "x = 0 \<Longrightarrow> 32 \<le> y" by auto
  have d7: "r = (x * 64 + y) * 64 + z" using r by simp
  have "r div 64 = x * 64 + y" "r mod 64 = z" unfolding d7 using d(6) by (simp_all only: mod_mult_self3 mod_less div_mult_self3 div_less)
  moreover have "r div 4096 = r div 64 div 64" by (simp add: div_mult2_eq [of r 64 64, simplified])
  moreover have "2048 \<le> r" using d(7) d7 by (cases x) auto
  moreover have "r < 65536" using d(4-6) d7 by simp
  ultimately show ?thesis using d by simp
qed

lemma encode_four:
  fixes b b1 b2 b3 :: nat
  assumes "240 \<le> b" "b \<le> 244" "128 \<le> b1" "b1 \<le> 191" "b = 240 \<Longrightarrow> 144 \<le> b1" "128 \<le> b2" "b2 \<le> 191"
    "128 \<le> b3" "b3 \<le> 191"
    "r = (b - 240) * 262144 + (b1 - 128) * 4096 + (b2 - 128) * 64 + (b3 - 128)"
  shows "65536 \<le> r \<and> r < 1310720 \<and> 240 + r div 262144 = b \<and> 128 + r div 4096 mod 64 = b1
    \<and> 128 + r div 64 mod 64 = b2 \<and> 128 + r mod 64 = b3"
proof -
  define x y z w where "x = b - 240" and "y = b1 - 128" and "z = b2 - 128" and "w = b3 - 128"
  have r: "r = x * 262144 + y * 4096 + z * 64 + w" unfolding x_def y_def z_def w_def by (rule assms(10))
  from x_def y_def z_def w_def assms(1-9)
  have d: "b = 240 + x" "b1 = 128 + y" "b2 = 128 + z" "b3 = 128 + w" "x < 5" "y < 64" "z < 64" "w < 64"
    "x = 0 \<Longrightarrow> 16 \<le> y" by auto
  have d9: "r = ((x * 64 + y) * 64 + z) * 64 + w" using r by simp
  note peel = mod_mult_self3 mod_less div_mult_self3 div_less add_0_right
  have q: "r div 64 = (x * 64 + y) * 64 + z" "r mod 64 = w" unfolding d9 using d(8) by (simp_all only: peel)
  have "r div 4096 = r div 64 div 64" by (simp add: div_mult2_eq [of r 64 64, simplified])
  then have q2: "r div 4096 = x * 64 + y" "r div 64 mod 64 = z"
    unfolding q using d(7) by (simp_all only: peel)
  have "r div 262144 = r div 4096 div 64" by (simp add: div_mult2_eq [of r 4096 64, simplified])
  then have "r div 262144 = x" "r div 4096 mod 64 = y" unfolding q2 using d(6) by (simp_all only: peel)
  moreover have "65536 \<le> r" using d(9) d9 by (cases x) auto
  moreover have "r < 1310720" using d(5-8) d9 by simp
  ultimately show ?thesis using d q2(2) q(2) by simp
qed

lemma decode_rune_encode:
  assumes "decode_rune (c # cs) = (r, n)" "\<not> (r = rune_error \<and> n = 1)"
  shows "encode_rune r = take n (c # cs) \<and> (128 \<le> byte c \<longrightarrow> 128 \<le> r) \<and> r < 1310720"
proof (cases "byte c < 128")
  case True
  with assms show ?thesis by (auto simp: encode_rune_def)
next
  case False
  from assms False obtain k lo hi where k: "lead_info (byte c) = Some (k, lo, hi)"
    by (auto simp: decode_rune.simps Let_def split: option.splits)
  from assms False k obtain c1 cs1 where c1: "cs = c1 # cs1" "lo \<le> byte c1" "byte c1 \<le> hi"
    by (cases cs) (auto simp: decode_rune.simps Let_def split: if_splits)
  show ?thesis
  proof (cases "k = 2")
    case True
    with k have "194 \<le> byte c" "byte c \<le> 223" "lo = 128" "hi = 191"
      by (auto simp: lead_info_def split: if_splits)
    moreover from assms False k c1 True have "r = (byte c - 192) * 64 + (byte c1 - 128)" "n = 2"
      by (auto simp: decode_rune.simps Let_def)
    ultimately have "128 \<le> r \<and> r < 2048 \<and> 192 + r div 64 = byte c \<and> 128 + r mod 64 = byte c1" "n = 2"
      using encode_two [of "byte c" "byte c1" r] c1 by simp_all
    then show ?thesis using c1(1) by (simp add: encode_rune_def)
  next
    case n2: False
    from assms False k c1 n2 obtain c2 cs2 where c2: "cs1 = c2 # cs2" "cont_byte (byte c2)"
      by (cases cs1) (auto simp: decode_rune.simps Let_def split: if_splits)
    show ?thesis
    proof (cases "k = 3")
      case True
      with k have "224 \<le> byte c" "byte c \<le> 239" "128 \<le> lo" "hi \<le> 191" "byte c = 224 \<Longrightarrow> lo = 160"
        by (auto simp: lead_info_def split: if_splits)
      moreover from assms False k c1 c2 True
      have n: "n = 3" and "r = (byte c - 224) * 4096 + (byte c1 - 128) * 64 + (byte c2 - 128)"
        by (auto simp: decode_rune.simps Let_def)
      ultimately have "2048 \<le> r \<and> r < 65536 \<and> 224 + r div 4096 = byte c
        \<and> 128 + r div 64 mod 64 = byte c1 \<and> 128 + r mod 64 = byte c2" 
        using c1 c2 by (intro encode_three) (auto simp: cont_byte_def)
      then show ?thesis using c1(1) c2(1) n by (simp add: encode_rune_def)
    next
      case n3: False
      from assms False k c1 n2 c2 n3 obtain c3 cs3 where c3: "cs2 = c3 # cs3" "cont_byte (byte c3)"
        by (cases cs2) (auto simp: decode_rune.simps Let_def split: if_splits)
      from k n2 n3 have "240 \<le> byte c" "byte c \<le> 244" "128 \<le> lo" "hi \<le> 191" "byte c = 240 \<Longrightarrow> lo = 144"
        by (auto simp: lead_info_def split: if_splits)
      moreover from assms False k c1 c2 c3 n2 n3
      have n: "n = 4" and "r = (byte c - 240) * 262144 + (byte c1 - 128) * 4096 + (byte c2 - 128) * 64 + (byte c3 - 128)"
        by (auto simp: decode_rune.simps Let_def)
      ultimately have "65536 \<le> r \<and> r < 1310720 \<and> 240 + r div 262144 = byte c \<and> 128 + r div 4096 mod 64 = byte c1
        \<and> 128 + r div 64 mod 64 = byte c2 \<and> 128 + r mod 64 = byte c3" 
        using c1 c2 c3 by (intro encode_four) (auto simp: cont_byte_def)
      then show ?thesis using c1(1) c2(1) c3(1) n by (simp add: encode_rune_def)
    qed
  qed
qed
lemma encode_rune_bytes: "128 \<le> r \<Longrightarrow> r < 1310720 \<Longrightarrow> list_all (\<lambda>c. 128 \<le> byte c) (encode_rune r)"
proof -
  assume r: "128 \<le> r" "r < 1310720"
  have "r div 262144 < 5" using r(2) by (simp add: less_mult_imp_div_less)
  moreover have "r < 2048 \<Longrightarrow> r div 64 < 32" by (simp add: less_mult_imp_div_less)
  moreover have "r < 65536 \<Longrightarrow> r div 4096 < 16" by (simp add: less_mult_imp_div_less)
  moreover have "r div 64 mod 64 < 64" "r mod 64 < 64" "r div 4096 mod 64 < 64" by simp_all
  ultimately show ?thesis using r(1) by (simp add: encode_rune_def byte_char_of)
qed

text \<open>
  A chunk is one byte that does not decode, or the encoding of its rune.
\<close>

lemma chunk_cases:
  assumes "(r, bs) \<in> set (chunks s)"
  shows "(r = rune_error \<and> length bs = 1) \<or> (bs = encode_rune r \<and> r < 1310720)"
  using assms
proof (induction s rule: chunks.induct)
  case (2 c cs)
  obtain q n where d: "decode_rune (c # cs) = (q, n)" by (cases "decode_rune (c # cs)")
  have "1 \<le> n" using decode_rune_width [of "c # cs"] d by simp
  from 2(2) d consider "(r, bs) = (q, take n (c # cs))" | "(r, bs) \<in> set (chunks (drop n (c # cs)))"
    by (auto simp: chunks.simps Let_def)
  then show ?case
  proof cases
    case 1
    show ?thesis
    proof (cases "q = rune_error \<and> n = 1")
      case True
      with 1 show ?thesis by simp
    next
      case False
      from decode_rune_encode [OF d this] 1 show ?thesis by simp
    qed
  next
    case 2
    with "2.IH" d show ?thesis by simp
  qed
qed simp

subsection \<open>The characters written\<close>

text \<open>A byte that cannot end a line, and cannot open markup.\<close>

definition plain_byte :: "char \<Rightarrow> bool" where
  "plain_byte c \<longleftrightarrow> 32 \<le> byte c \<and> byte c \<noteq> 60 \<and> byte c \<noteq> 62 \<and> byte c \<noteq> 38"

lemma byte_literals [simp]: "byte quote_char = 34" "byte escape_char = 92"
  by (simp_all add: byte_def quote_char_def escape_char_def)

lemma plain_literals [simp]:
  "plain_byte quote_char" "plain_byte escape_char" "plain_byte CHR ''b''" "plain_byte CHR ''f''"
  "plain_byte CHR ''n''" "plain_byte CHR ''r''" "plain_byte CHR ''t''" "plain_byte CHR ''u''"
  "plain_byte CHR ''0''" "plain_byte CHR ''2''" "plain_byte CHR ''d''"
  by (simp_all add: plain_byte_def) (simp_all add: byte_def)

lemma lower_hex_plain: "is_lower_hex c \<Longrightarrow> plain_byte c"
  by (auto simp: is_lower_hex_def plain_byte_def)

lemma hex_digit_plain: "n < 16 \<Longrightarrow> plain_byte (hex_digit n)"
  by (simp add: lower_hex_plain hex_digit_lower)

lemma json_byte_plain: "byte c < 128 \<Longrightarrow> list_all plain_byte (json_byte c)"
  by (simp add: json_byte_def Let_def hex_digit_plain) (auto simp: plain_byte_def)

lemma json_chunk_plain: "ch \<in> set (chunks s) \<Longrightarrow> list_all plain_byte (json_chunk ch)"
proof -
  assume ch: "ch \<in> set (chunks s)"
  obtain r bs where rb: "ch = (r, bs)" by (cases ch)
  from chunk_cases [of r bs s] ch rb consider "r = rune_error" "length bs = 1" | "bs = encode_rune r" "r < 1310720"
    by auto
  then show ?thesis
  proof cases
    case 1
    with rb show ?thesis by (simp add: json_chunk_def)
  next
    case 2
    show ?thesis
    proof (cases "r < 128")
      case True
      with 2 rb show ?thesis
        by (auto simp: json_chunk_def encode_rune_def rune_error_def byte_char_of intro: json_byte_plain)
    next
      case False
      have "list_all plain_byte bs"
        using encode_rune_bytes [of r] False 2 by (auto simp: list_all_iff plain_byte_def)
      with False rb show ?thesis by (auto simp: json_chunk_def hex_digit_plain)
    qed
  qed
qed

lemma json_string_plain: "list_all plain_byte (json_string s)"
  using json_chunk_plain [of _ s] by (auto simp: json_string_def json_body_def list_all_iff)

lemma digits_plain: "list_all plain_byte (digits n)"
proof (induction n rule: digits.induct)
  case (1 n)
  then show ?case by (subst digits.simps) (auto simp: hex_digit_plain)
qed

lemma itoa_plain: "list_all plain_byte (itoa n)"
  using digits_plain by (simp add: itoa_def) (simp add: plain_byte_def byte_def)

subsection \<open>Reading strings back\<close>

definition hex_value :: "char \<Rightarrow> nat" where
  "hex_value c = (if byte c < 58 then byte c - 48 else byte c - 87)"

definition hex4 :: "gostring \<Rightarrow> nat" where
  "hex4 cs = foldl (\<lambda>n c. n * 16 + hex_value c) 0 cs"

definition unescape :: "char \<Rightarrow> gostring option" where
  "unescape c =
     (let b = byte c in
      if b = 34 \<or> b = 92 then Some [c] else if b = 98 then Some [char_of (8 :: nat)]
      else if b = 102 then Some [char_of (12 :: nat)] else if b = 110 then Some [char_of (10 :: nat)]
      else if b = 114 then Some [char_of (13 :: nat)] else if b = 116 then Some [char_of (9 :: nat)]
      else None)"

text \<open>
  The reader takes the text after an opening quote and returns the value and what follows the
  closing quote.
\<close>

fun json_read :: "gostring \<Rightarrow> (gostring \<times> gostring) option" where
  "json_read [] = None"
| "json_read (c # cs) =
     (if c = quote_char then Some ([], cs)
      else if byte c < 32 then None
      else if c \<noteq> escape_char then map_option (apfst (Cons c)) (json_read cs)
      else (case cs of
              [] \<Rightarrow> None
            | e # rest \<Rightarrow>
                if byte e = 117
                then (case rest of
                        h1 # h2 # h3 # h4 # rest' \<Rightarrow>
                          map_option (apfst (append (encode_rune (hex4 [h1, h2, h3, h4])))) (json_read rest')
                      | _ \<Rightarrow> None)
                else (case unescape e of
                        None \<Rightarrow> None
                      | Some v \<Rightarrow> map_option (apfst (append v)) (json_read rest))))"

declare json_read.simps(2) [simp del]

text \<open>What the writer keeps of a text: bytes that do not decode become U+FFFD.\<close>

definition scrub :: "gostring \<Rightarrow> gostring" where
  "scrub s = concat (map (\<lambda>(r, bs). if r = rune_error \<and> length bs = 1 then encode_rune rune_error else bs)
                (chunks s))"

lemma scrub_valid: "valid_utf8 s \<Longrightarrow> scrub s = s"
proof -
  assume "valid_utf8 s"
  then have "map (\<lambda>(r, bs). if r = rune_error \<and> length bs = 1 then encode_rune rune_error else bs) (chunks s)
      = map snd (chunks s)"
    by (intro map_cong) (auto simp: valid_utf8_def)
  then show ?thesis unfolding scrub_def by (simp only: concat_chunks)
qed

lemma byte_eq_iff: "byte c = byte d \<longleftrightarrow> c = d"
  by (metis byte_inverse)

lemma json_read_raw:
  "list_all (\<lambda>c. 128 \<le> byte c) bs \<Longrightarrow>
     json_read (bs @ rest) = map_option (apfst (append bs)) (json_read rest)"
proof (induction bs)
  case (Cons c bs)
  then have "c \<noteq> quote_char" "c \<noteq> escape_char" "\<not> byte c < 32" by auto
  with Cons show ?case by (cases "json_read rest") (auto simp: json_read.simps(2) apfst_def)
qed (cases "json_read rest"; auto simp: apfst_def)

lemma hex_value_digit: "n < 16 \<Longrightarrow> hex_value (hex_digit n) = n"
  by (auto simp: hex_value_def hex_digit_def byte_char_of)

lemma escape_not_quote [simp]: "escape_char \<noteq> quote_char"
proof
  assume "escape_char = quote_char"
  then have "byte escape_char = byte quote_char" by (rule arg_cong)
  then show False by simp
qed

lemma json_read_escape:
  "byte e \<noteq> 117 \<Longrightarrow> unescape e = Some v \<Longrightarrow>
     json_read (escape_char # e # rest) = map_option (apfst (append v)) (json_read rest)"
  by (simp add: json_read.simps(2))

lemma json_read_unicode:
  "byte e = 117 \<Longrightarrow> json_read (escape_char # e # h1 # h2 # h3 # h4 # rest)
     = map_option (apfst (append (encode_rune (hex4 [h1, h2, h3, h4])))) (json_read rest)"
  by (simp add: json_read.simps(2))

lemma json_read_byte:
  assumes "byte c < 128"
  shows "json_read (json_byte c @ rest) = map_option (apfst (append [c])) (json_read rest)"
proof -
  let ?b = "byte c"
  have lit: "?b = n \<Longrightarrow> char_of n = c" for n by (metis byte_inverse)
  consider "?b = 34 \<or> ?b = 92" | "?b = 8" | "?b = 12" | "?b = 10" | "?b = 13" | "?b = 9"
    | "?b < 32 \<or> ?b = 60 \<or> ?b = 62 \<or> ?b = 38" "?b \<notin> {8, 9, 10, 12, 13}"
    | "32 \<le> ?b" "?b \<notin> {34, 38, 60, 62, 92}" by fastforce
  then show ?thesis
  proof cases
    case 1
    then have "json_byte c = [escape_char, c]" "unescape c = Some [c]" "?b \<noteq> 117"
      by (auto simp: json_byte_def unescape_def)
    then show ?thesis by (simp add: json_read_escape)
  next
    case 2
    then have "json_byte c = [escape_char, CHR ''b'']" "unescape CHR ''b'' = Some [c]"
      using lit [of 8] by (simp_all add: json_byte_def unescape_def byte_def)
    then show ?thesis by (simp add: json_read_escape) (simp add: json_read_escape byte_def)
  next
    case 3
    then have "json_byte c = [escape_char, CHR ''f'']" "unescape CHR ''f'' = Some [c]"
      using lit [of 12] by (simp_all add: json_byte_def unescape_def byte_def)
    then show ?thesis by (simp add: json_read_escape) (simp add: json_read_escape byte_def)
  next
    case 4
    then have "json_byte c = [escape_char, CHR ''n'']" "unescape CHR ''n'' = Some [c]"
      using lit [of 10] by (simp_all add: json_byte_def unescape_def byte_def)
    then show ?thesis by (simp add: json_read_escape) (simp add: json_read_escape byte_def)
  next
    case 5
    then have "json_byte c = [escape_char, CHR ''r'']" "unescape CHR ''r'' = Some [c]"
      using lit [of 13] by (simp_all add: json_byte_def unescape_def byte_def)
    then show ?thesis by (simp add: json_read_escape) (simp add: json_read_escape byte_def)
  next
    case 6
    then have "json_byte c = [escape_char, CHR ''t'']" "unescape CHR ''t'' = Some [c]"
      using lit [of 9] by (simp_all add: json_byte_def unescape_def byte_def)
    then show ?thesis by (simp add: json_read_escape) (simp add: json_read_escape byte_def)
  next
    case 7
    then have j: "json_byte c = [escape_char, CHR ''u'', CHR ''0'', CHR ''0'', hex_digit (?b div 16),
        hex_digit (?b mod 16)]" by (auto simp: json_byte_def Let_def)
    have "hex4 [CHR ''0'', CHR ''0'', hex_digit (?b div 16), hex_digit (?b mod 16)] = ?b"
      using assms by (simp add: hex4_def hex_value_digit less_mult_imp_div_less)
        (simp add: hex_value_def byte_def)
    moreover have "encode_rune ?b = [c]" using assms by (simp add: encode_rune_def)
    moreover have "byte CHR ''u'' = 117" by (simp add: byte_def)
    ultimately show ?thesis using j by (simp add: json_read_unicode)
  next
    case 8
    then have "json_byte c = [c]" by (auto simp: json_byte_def Let_def)
    moreover have "c \<noteq> quote_char" "c \<noteq> escape_char" using 8 by auto
    moreover have "append [c] = Cons c" by auto
    ultimately show ?thesis using 8 by (simp add: json_read.simps(2))
  qed
qed

lemma json_read_chunk:
  assumes "(r, bs) \<in> set (chunks s)"
  shows "json_read (json_chunk (r, bs) @ rest) = map_option (apfst (append
    (if r = rune_error \<and> length bs = 1 then encode_rune rune_error else bs))) (json_read rest)"
proof (cases "r = rune_error \<and> length bs = 1")
  case True
  have "hex4 ''fffd'' = rune_error" "byte CHR ''u'' = 117"
    by (simp_all add: hex4_def hex_value_def byte_def rune_error_def)
  with True show ?thesis by (simp add: json_chunk_def json_read_unicode)
next
  case False
  with chunk_cases [OF assms] have bs: "bs = encode_rune r" "r < 1310720" by blast+
  consider "r < 128" | "r = 8232 \<or> r = 8233" | "128 \<le> r" "r \<noteq> 8232" "r \<noteq> 8233" by fastforce
  then show ?thesis
  proof cases
    case 1
    with bs have "bs = [char_of r]" "byte (char_of r) = r" "r \<noteq> rune_error"
      by (simp_all add: encode_rune_def byte_char_of rune_error_def)
    with 1 False json_read_byte [of "char_of r" rest] show ?thesis by (simp add: json_chunk_def)
  next
    case 2
    have "hex4 [CHR ''2'', CHR ''0'', CHR ''2'', hex_digit (r mod 16)] = r" "byte CHR ''u'' = 117"
      using 2 by (auto simp: hex4_def hex_value_def hex_digit_def byte_def)
    with 2 False bs show ?thesis by (auto simp: json_chunk_def json_read_unicode rune_error_def)
  next
    case 3
    from encode_rune_bytes [of r] bs 3 have "list_all (\<lambda>c. 128 \<le> byte c) bs" by simp
    from json_read_raw [OF this] 3 False show ?thesis by (auto simp: json_chunk_def)
  qed
qed

lemma json_read_body:
  "set chs \<subseteq> set (chunks s) \<Longrightarrow> json_read (concat (map json_chunk chs) @ quote_char # rest)
     = Some (concat (map (\<lambda>(r, bs). if r = rune_error \<and> length bs = 1 then encode_rune rune_error else bs) chs),
             rest)"
proof (induction chs)
  case (Cons ch chs)
  obtain r bs where ch: "ch = (r, bs)" by (cases ch)
  with Cons json_read_chunk [of r bs s "concat (map json_chunk chs) @ quote_char # rest"]
  show ?case by simp
qed (simp add: json_read.simps(2))

text \<open>Reading what the writer wrote gives the text back, whatever follows it.\<close>

lemma json_read_string: "json_read (tl (json_string s) @ rest) = Some (scrub s, rest)"
  using json_read_body [of "chunks s" s rest] by (simp add: json_string_def json_body_def scrub_def)

subsection \<open>Lengths\<close>

lemma length_json_byte: "length (json_byte c) \<le> 6"
  by (simp add: json_byte_def Let_def)

lemma length_json_string: "length (json_string s) \<le> 6 * length s + 2"
proof -
  have one: "length (json_chunk ch) \<le> 6 * length (snd ch)" if "ch \<in> set (chunks s)" for ch
  proof -
    obtain r bs where rb: "ch = (r, bs)" by (cases ch)
    have "bs \<noteq> []" using chunk_cases [of r bs s] that rb by (auto simp: encode_rune_def split: if_splits)
    then have "1 \<le> length bs" by (cases bs) auto
    then show ?thesis using length_json_byte [of "hd bs"] by (auto simp: json_chunk_def rb)
  qed
  have "length (concat (map json_chunk chs)) \<le> 6 * length (concat (map snd chs))"
    if "set chs \<subseteq> set (chunks s)" for chs
    using that
  proof (induction chs)
    case (Cons ch chs)
    then show ?case using one [of ch] by simp
  qed simp
  from this [of "chunks s"] show ?thesis by (simp add: json_string_def json_body_def concat_chunks)
qed

end
