(* ===== verification/Engine.thy ===== *)
theory Engine
  imports Rails Briefs "HOL-Library.State_Monad"
begin

text \<open>
  \<open>internal/flywheel/engine.go\<close>: the fix loop. Waves of batches run one attempt at a time against a
  workspace, an agent, a validator and an audit log; the loop stops when a barrier finds no blockers,
  stops making progress, fails or runs out of rails.

  The side effects behind \<open>Ports\<close> and the clock are a record of functions over an arbitrary world
  type, so every answer may depend on the whole history. The engine's own state is threaded by the
  state monad. \<open>eLog\<close> is a history variable: the port calls with their answers, latest first; the
  code keeps no such list. A context that is done stays done with the same error and cause, which is
  what package \<open>context\<close> documents, so the first such answer is kept in \<open>eCtx\<close>.
\<close>

subsection \<open>Results and outcomes\<close>

datatype validation_kind =
  ValidationPassed | ValidationSemanticFailure | ValidationInfrastructureFailure
| ValidationOther gostring

record validation_result =
  vKind :: validation_kind
  vFailure :: gostring
  vFindings :: "finding list"
  vChangedFiles :: "gostring list"
  vProof :: batch_proof

datatype outcome_kind = OutcomeReady | OutcomeBlocked | OutcomeRails | OutcomeErrored

record outcome =
  outKind :: outcome_kind
  outPlan :: plan
  outFindings :: "finding list"
  outIterations :: int
  outFailure :: gostring

text \<open>The end of a context: its error, its cause, and whether the cause is an exhausted rail.\<close>

record ctx_end =
  ctxErr :: gostring
  ctxCause :: gostring
  ctxRail :: bool

record plan_write_error =
  pweText :: gostring
  pwePublished :: bool

record adapter_error =
  adText :: gostring
  adRetryable :: bool

record git_error =
  gitText :: gostring
  gitRestored :: bool

text \<open>The port calls, as recorded in the history.\<close>

datatype event =
    EvAdmit nat nat
  | EvWritePlan plan "plan_write_error option"
  | EvWriteBrief gostring nat gostring "gostring option"
  | EvAdapterSink gostring nat bool
  | EvSnapshotGit bool
  | EvAdapterRun nat nat
  | EvCheckGit "git_error option"
  | EvChangedFiles "(gostring, gostring list) res"
  | EvPrepare "gostring list" "(gostring, batch_proof) res"
  | EvValidate batch validation_result
  | EvVerify batch_proof "gostring option"
  | EvReset "gostring option"
  | EvCommit gostring batch_proof "(gostring, gostring) res"
  | EvRollback gostring "gostring option"
  | EvBarrier validation_result

record 'w ports =
  pClock :: "'w \<Rightarrow> int \<times> 'w"
  pCtx :: "'w \<Rightarrow> ctx_end option \<times> 'w"
  pWritePlan :: "plan \<Rightarrow> 'w \<Rightarrow> plan_write_error option \<times> 'w"
  pWriteBrief :: "gostring \<Rightarrow> nat \<Rightarrow> gostring \<Rightarrow> 'w \<Rightarrow> gostring option \<times> 'w"
  pAdapterSink :: "gostring \<Rightarrow> nat \<Rightarrow> 'w \<Rightarrow> (gostring, nat) res \<times> 'w"
  pSnapshotGit :: "'w \<Rightarrow> (gostring, nat) res \<times> 'w"
  pAdapterRun :: "gostring \<Rightarrow> nat \<Rightarrow> 'w \<Rightarrow> adapter_error option \<times> 'w"
  pCheckGit :: "nat \<Rightarrow> 'w \<Rightarrow> git_error option \<times> 'w"
  pChangedFiles :: "'w \<Rightarrow> (gostring, gostring list) res \<times> 'w"
  pPrepareBatch :: "gostring list \<Rightarrow> 'w \<Rightarrow> (gostring, batch_proof) res \<times> 'w"
  pValidate :: "batch \<Rightarrow> 'w \<Rightarrow> validation_result \<times> 'w"
  pVerifyBatch :: "batch_proof \<Rightarrow> 'w \<Rightarrow> gostring option \<times> 'w"
  pResetAttempt :: "'w \<Rightarrow> gostring option \<times> 'w"
  pCommitBatch :: "gostring \<Rightarrow> batch_proof \<Rightarrow> 'w \<Rightarrow> (gostring, gostring) res \<times> 'w"
  pRollbackBatch :: "gostring \<Rightarrow> 'w \<Rightarrow> gostring option \<times> 'w"
  pBarrier :: "'w \<Rightarrow> validation_result \<times> 'w"
  pQuote :: "gostring \<Rightarrow> gostring"
  pPlanErrorText :: "plan_error \<Rightarrow> gostring"
  pBriefErrorText :: "brief_error \<Rightarrow> gostring"
  hasAdapter :: bool
  hasWorkspace :: bool
  hasAudit :: bool
  hasValidate :: bool
  hasBarrier :: bool

record request =
  reqMergeBase :: gostring
  reqOriginalHead :: gostring
  reqInitialFindings :: "finding list"
  reqRails :: "rails option"

record core =
  ePlan :: plan
  ePersisted :: plan
  eSemantic :: "nat \<Rightarrow> finding list option"
  eLog :: "event list"

record 'w engine =
  eCore :: core
  eRails :: rails
  eCtx :: "ctx_end option"
  eWorld :: 'w

subsection \<open>Failure texts\<close>

definition failure_marker :: gostring where
  "failure_marker = newline # ''...[truncated]''"

definition replacement :: gostring where
  "replacement = [char_of (239 :: nat), char_of (191 :: nat), char_of (189 :: nat)]"

fun back_to_start :: "gostring \<Rightarrow> nat \<Rightarrow> nat" where
  "back_to_start s 0 = 0"
| "back_to_start s (Suc n) = (if rune_start (s ! Suc n) then Suc n else back_to_start s n)"

definition bounded_failure :: "gostring \<Rightarrow> gostring" where
  "bounded_failure f =
     (let f' = to_valid_utf8 f replacement
      in if length f' \<le> max_brief_diagnostic then f'
         else take (back_to_start f' (max_brief_diagnostic - length failure_marker)) f' @ failure_marker)"

definition rails_error_text :: "rails_error \<Rightarrow> gostring" where
  "rails_error_text e =
     (case e of
        MaxIterationsNotPositive \<Rightarrow> ''max iterations must be positive''
      | MaxWallClockNotPositive \<Rightarrow> ''max wall clock must be positive''
      | ClockRequired \<Rightarrow> ''clock is required''
      | RailsUninitialized \<Rightarrow> ''rails are uninitialized''
      | ParentContextRequired \<Rightarrow> ''parent context is required''
      | RailExhausted RailIterations \<Rightarrow> ''rail exhausted: iterations''
      | RailExhausted RailWallClock \<Rightarrow> ''rail exhausted: wall-clock'')"

fun rail_kind_of :: "rails_error \<Rightarrow> outcome_kind" where
  "rail_kind_of (RailExhausted _) = OutcomeRails"
| "rail_kind_of _ = OutcomeErrored"

subsection \<open>State access\<close>

type_synonym ('w, 'a) eng = "('w engine, 'a) state"

definition gets :: "('s \<Rightarrow> 'a) \<Rightarrow> ('s, 'a) state" where
  "gets f = State (\<lambda>s. (f s, s))"

definition modify_core :: "(core \<Rightarrow> core) \<Rightarrow> ('w, unit) eng" where
  "modify_core f = State (\<lambda>s. ((), s\<lparr>eCore := f (eCore s)\<rparr>))"

definition record_event :: "event \<Rightarrow> core \<Rightarrow> core" where
  "record_event e c = c\<lparr>eLog := e # eLog c\<rparr>"

text \<open>A port call: the world answers and the history grows.\<close>

definition call :: "('w \<Rightarrow> 'a \<times> 'w) \<Rightarrow> ('a \<Rightarrow> event) \<Rightarrow> ('w, 'a) eng" where
  "call f ev = State (\<lambda>s. case f (eWorld s) of
     (a, w) \<Rightarrow> (a, s\<lparr>eWorld := w, eCore := record_event (ev a) (eCore s)\<rparr>))"

definition on_batch :: "nat \<Rightarrow> (batch \<Rightarrow> batch) \<Rightarrow> core \<Rightarrow> core" where
  "on_batch i f c = c\<lparr>ePlan := (ePlan c)\<lparr>planBatches :=
     (planBatches (ePlan c))[i := f (planBatches (ePlan c) ! i)]\<rparr>\<rparr>"

definition the_batch :: "nat \<Rightarrow> 'w engine \<Rightarrow> batch" where
  "the_batch i s = planBatches (ePlan (eCore s)) ! i"

text \<open>One clock reading and one method of the rails.\<close>

definition with_rails :: "'w ports \<Rightarrow> (int \<Rightarrow> rails \<Rightarrow> 'a \<times> rails) \<Rightarrow> ('w, 'a) eng" where
  "with_rails P m = State (\<lambda>s. case pClock P (eWorld s) of
     (t, w) \<Rightarrow> (case m t (eRails s) of (a, r) \<Rightarrow> (a, s\<lparr>eWorld := w, eRails := r\<rparr>)))"

text \<open>\<open>ctx.Err()\<close> with \<open>context.Cause\<close>.\<close>

definition ctx_done :: "'w ports \<Rightarrow> ('w, ctx_end option) eng" where
  "ctx_done P = State (\<lambda>s. case eCtx s of
     Some c \<Rightarrow> (Some c, s)
   | None \<Rightarrow> (case pCtx P (eWorld s) of (c, w) \<Rightarrow> (c, s\<lparr>eCtx := c, eWorld := w\<rparr>)))"

definition observe_ctx :: "ctx_end \<Rightarrow> ('w, unit) eng" where
  "observe_ctx c = State (\<lambda>s. ((), s\<lparr>eRails := observe_execution_context (ctxRail c) (eRails s)\<rparr>))"

definition get_persisted :: "('w, plan) eng" where
  "get_persisted = gets (\<lambda>s. ePersisted (eCore s))"

subsection \<open>Outcomes and stops\<close>

definition engine_outcome ::
  "'w ports \<Rightarrow> outcome_kind \<Rightarrow> plan \<Rightarrow> finding list \<Rightarrow> gostring \<Rightarrow> ('w, outcome) eng" where
  "engine_outcome P kind p fs failure = do {
     snap \<leftarrow> with_rails P snapshot;
     State_Monad.return \<lparr>outKind = kind, outPlan = p, outFindings = fs,
       outIterations = snapIterations snap, outFailure = bounded_failure failure\<rparr>
   }"

definition group_or_same :: "finding list \<Rightarrow> finding list" where
  "group_or_same fs = (case group fs of Inl _ \<Rightarrow> fs | Inr grouped \<Rightarrow> grouped)"

definition outcome_findings :: "core \<Rightarrow> finding list \<Rightarrow> finding list" where
  "outcome_findings c additional =
     group_or_same (additional @ concat (map (\<lambda>i. case eSemantic c i of None \<Rightarrow> [] | Some fs \<Rightarrow> fs)
                                        [0 ..< length (planBatches (ePlan c))]))"

definition persist :: "'w ports \<Rightarrow> ('w, plan_write_error option) eng" where
  "persist P = do {
     p \<leftarrow> gets (\<lambda>s. ePlan (eCore s));
     err \<leftarrow> call (pWritePlan P p) (EvWritePlan p);
     (case err of
        None \<Rightarrow> modify_core (\<lambda>c. c\<lparr>ePersisted := ePlan c\<rparr>)
      | Some e \<Rightarrow>
          if pwePublished e then modify_core (\<lambda>c. c\<lparr>ePersisted := ePlan c\<rparr>)
          else State_Monad.return ());
     State_Monad.return err
   }"

definition rail_exhausted_now :: "'w ports \<Rightarrow> ('w, bool) eng" where
  "rail_exhausted_now P = do {
     err \<leftarrow> with_rails P admit_landing;
     State_Monad.return (case err of Some (RailExhausted _) \<Rightarrow> True | _ \<Rightarrow> False)
   }"

text \<open>The outcome of a context that is done.\<close>

definition context_outcome :: "'w ports \<Rightarrow> ctx_end \<Rightarrow> plan \<Rightarrow> ('w, outcome) eng" where
  "context_outcome P c p =
     (if ctxRail c then do {
        observe_ctx c;
        engine_outcome P OutcomeRails p [] (ctxCause c)
      } else do {
        exhausted \<leftarrow> rail_exhausted_now P;
        engine_outcome P (if exhausted then OutcomeRails else OutcomeErrored) p [] (ctxErr c)
      })"

definition stop_for_context :: "'w ports \<Rightarrow> plan \<Rightarrow> ('w, outcome option) eng" where
  "stop_for_context P p = do {
     ended \<leftarrow> ctx_done P;
     (case ended of
        None \<Rightarrow> State_Monad.return None
      | Some c \<Rightarrow> do { out \<leftarrow> context_outcome P c p; State_Monad.return (Some out) })
   }"

definition stop_for_rail :: "'w ports \<Rightarrow> plan \<Rightarrow> ('w, outcome option) eng" where
  "stop_for_rail P p = do {
     err \<leftarrow> with_rails P admit_landing;
     (case err of
        None \<Rightarrow> State_Monad.return None
      | Some e \<Rightarrow> do {
          out \<leftarrow> engine_outcome P (rail_kind_of e) p [] (rails_error_text e);
          State_Monad.return (Some out)
        })
   }"

subsection \<open>One attempt\<close>

datatype attempt_result =
    AttemptSucceeded
  | SemanticFailure gostring bool
  | InfrastructureFailure gostring "finding list" bool
  | AttemptStopped outcome

definition infrastructure_failure :: "gostring \<Rightarrow> bool \<Rightarrow> finding list \<Rightarrow> attempt_result" where
  "infrastructure_failure failure retryable fs = InfrastructureFailure (bounded_failure failure) fs retryable"

definition stopped :: "'w ports \<Rightarrow> outcome_kind \<Rightarrow> gostring \<Rightarrow> ('w, attempt_result) eng" where
  "stopped P kind failure = do {
     p \<leftarrow> get_persisted;
     out \<leftarrow> engine_outcome P kind p [] failure;
     State_Monad.return (AttemptStopped out)
   }"

definition set_last_attempt :: "attempt \<Rightarrow> batch \<Rightarrow> batch" where
  "set_last_attempt a b = b\<lparr>batchAttempts := (batchAttempts b)[length (batchAttempts b) - 1 := a]\<rparr>"

text \<open>\<open>failAndReset\<close>: \<open>Some\<close> is the text of its error.\<close>

definition fail_and_reset :: "'w ports \<Rightarrow> nat \<Rightarrow> nat \<Rightarrow> gostring \<Rightarrow> ('w, gostring option) eng" where
  "fail_and_reset P i number failure = do {
     modify_core (on_batch i (set_last_attempt
       \<lparr>attNumber = number, attStatus = AttemptFailed, attFailure = bounded_failure failure,
        attChangedFiles = [], attCommit = []\<rparr>));
     written \<leftarrow> persist P;
     reset \<leftarrow> call (pResetAttempt P) EvReset;
     State_Monad.return (case written of
        Some e \<Rightarrow>
          (case reset of
             Some r \<Rightarrow> Some (''write failed plan: '' @ pweText e @ ''; reset attempt: '' @ r)
           | None \<Rightarrow> Some (''write failed plan: '' @ pweText e))
      | None \<Rightarrow>
          (case reset of Some r \<Rightarrow> Some (''reset attempt: '' @ r) | None \<Rightarrow> None))
   }"

text \<open>
  The code calls \<open>stopForContext\<close> on a context it has just seen done and dereferences the outcome:
  a done context stays done, so that outcome is \<open>context_outcome\<close> of the end already seen.
\<close>

definition checkpoint_context :: "'w ports \<Rightarrow> nat \<Rightarrow> nat \<Rightarrow> ('w, attempt_result) eng" where
  "checkpoint_context P i number = do {
     ended \<leftarrow> ctx_done P;
     (case ended of
        None \<Rightarrow> State_Monad.return AttemptSucceeded
      | Some c \<Rightarrow> do {
          err \<leftarrow> fail_and_reset P i number (ctxErr c);
          (case err of
             Some e \<Rightarrow> stopped P OutcomeErrored e
           | None \<Rightarrow> do {
               p \<leftarrow> get_persisted;
               out \<leftarrow> context_outcome P c p;
               State_Monad.return (AttemptStopped out)
             })
        })
   }"

definition stopping :: "('w, attempt_result) eng \<Rightarrow> ('w, attempt_result) eng \<Rightarrow> ('w, attempt_result) eng" where
  "stopping check rest = do {
     r \<leftarrow> check;
     (case r of AttemptStopped _ \<Rightarrow> State_Monad.return r | _ \<Rightarrow> rest)
   }"

definition checkpoint :: "'w ports \<Rightarrow> nat \<Rightarrow> nat \<Rightarrow> ('w, attempt_result) eng" where
  "checkpoint P i number = stopping (checkpoint_context P i number) (do {
     err \<leftarrow> with_rails P admit_landing;
     (case err of
        None \<Rightarrow> State_Monad.return AttemptSucceeded
      | Some e \<Rightarrow> do {
          reset \<leftarrow> fail_and_reset P i number (bounded_failure (rails_error_text e));
          (case reset of
             Some r \<Rightarrow> stopped P OutcomeErrored r
           | None \<Rightarrow> stopped P (rail_kind_of e) (bounded_failure (rails_error_text e)))
        })
   })"

definition stop_with :: "'w ports \<Rightarrow> outcome_kind \<Rightarrow> finding list \<Rightarrow> gostring \<Rightarrow> ('w, outcome option) eng" where
  "stop_with P kind fs failure = do {
     p \<leftarrow> get_persisted;
     out \<leftarrow> engine_outcome P kind p fs failure;
     State_Monad.return (Some out)
   }"

definition abort_semantic :: "'w ports \<Rightarrow> nat \<Rightarrow> nat \<Rightarrow> gostring \<Rightarrow> ('w, outcome option) eng" where
  "abort_semantic P i number failure = do {
     reset \<leftarrow> fail_and_reset P i number failure;
     (case reset of
        Some r \<Rightarrow> stop_with P OutcomeErrored [] r
      | None \<Rightarrow>
          if number = 2 then do {
            modify_core (on_batch i (\<lambda>b. b\<lparr>batchStatus := BatchStuck\<rparr>));
            err \<leftarrow> persist P;
            (case err of
               Some e \<Rightarrow> stop_with P OutcomeErrored [] (''write stuck plan: '' @ pweText e)
             | None \<Rightarrow> State_Monad.return None)
          } else State_Monad.return None)
   }"

definition valid_object_id :: "gostring \<Rightarrow> bool" where
  "valid_object_id v \<longleftrightarrow> (length v = 40 \<or> length v = 64) \<and> list_all is_lower_hex v"

definition proof_present :: "batch_proof \<Rightarrow> bool" where
  "proof_present p \<longleftrightarrow>
     proofOwner p \<noteq> None \<and> valid_object_id (proofTree p) \<and> proofVerify p \<and> proofValidation p \<noteq> None"

text \<open>
  The shape of a validator's answer: \<open>Some\<close> is the text of the error. \<open>quote\<close> is the verb \<open>%q\<close>
  of package \<open>fmt\<close>.
\<close>

definition validate_attempt_result :: "(gostring \<Rightarrow> gostring) \<Rightarrow> validation_result \<Rightarrow> gostring option" where
  "validate_attempt_result quote v =
     (case vKind v of
        ValidationPassed \<Rightarrow>
          if vFailure v \<noteq> [] then Some ''passed result includes a failure''
          else if vFindings v \<noteq> [] then Some ''passed result includes blocking findings''
          else if \<not> proof_present (vProof v) then Some ''passed result lacks a prepared batch proof''
          else None
      | ValidationSemanticFailure \<Rightarrow>
          if vFailure v = [] then Some ''semantic failure requires a reason''
          else if proof_present (vProof v) then Some ''semantic failure includes a batch proof''
          else None
      | ValidationInfrastructureFailure \<Rightarrow>
          if vFailure v = [] then Some ''infrastructure failure requires a reason''
          else if proof_present (vProof v) then Some ''infrastructure failure includes a batch proof''
          else None
      | ValidationOther k \<Rightarrow> Some (''unknown validation kind '' @ quote k))"

definition validate_barrier_result :: "(gostring \<Rightarrow> gostring) \<Rightarrow> validation_result \<Rightarrow> gostring option" where
  "validate_barrier_result quote v =
     (case vKind v of
        ValidationPassed \<Rightarrow> if vFailure v \<noteq> [] then Some ''passed result includes a failure'' else None
      | ValidationSemanticFailure \<Rightarrow>
          if vFailure v = [] then Some ''semantic failure requires a reason'' else None
      | ValidationInfrastructureFailure \<Rightarrow>
          if vFailure v = [] then Some ''infrastructure failure requires a reason'' else None
      | ValidationOther k \<Rightarrow> Some (''unknown validation kind '' @ quote k))"

text \<open>\<open>run\<close>, in four stages: up to the agent, the agent, its changes and their validation, the commit.\<close>

definition after_commit :: "'w ports \<Rightarrow> ('w, attempt_result) eng" where
  "after_commit P = do {
     p \<leftarrow> get_persisted;
     out \<leftarrow> stop_for_context P p;
     (case out of
        Some out \<Rightarrow> State_Monad.return (AttemptStopped out)
      | None \<Rightarrow> do {
          p \<leftarrow> get_persisted;
          out \<leftarrow> stop_for_rail P p;
          (case out of
             Some out \<Rightarrow> State_Monad.return (AttemptStopped out)
           | None \<Rightarrow> State_Monad.return AttemptSucceeded)
        })
   }"

definition undo_commit :: "'w ports \<Rightarrow> gostring \<Rightarrow> plan_write_error \<Rightarrow> ('w, attempt_result) eng" where
  "undo_commit P commit e =
     (if pwePublished e then stopped P OutcomeErrored (''write completed plan: '' @ pweText e)
      else do {
        rollback \<leftarrow> call (pRollbackBatch P commit) (EvRollback commit);
        (case rollback of
           Some r \<Rightarrow> stopped P OutcomeErrored
             (''write completed plan: '' @ pweText e @ ''; rollback committed batch: '' @ r)
         | None \<Rightarrow> stopped P OutcomeErrored (''write completed plan: '' @ pweText e))
      })"

definition complete_batch :: "nat \<Rightarrow> gostring list \<Rightarrow> gostring \<Rightarrow> batch \<Rightarrow> batch" where
  "complete_batch number changed commit b =
     (set_last_attempt \<lparr>attNumber = number, attStatus = AttemptPassed, attFailure = [],
        attChangedFiles = changed, attCommit = commit\<rparr> b)\<lparr>batchStatus := BatchDone\<rparr>"

definition record_commit ::
  "'w ports \<Rightarrow> nat \<Rightarrow> nat \<Rightarrow> gostring list \<Rightarrow> gostring \<Rightarrow> ('w, attempt_result) eng" where
  "record_commit P i number changed commit = do {
     modify_core (on_batch i (complete_batch number changed commit));
     err \<leftarrow> persist P;
     (case err of Some e \<Rightarrow> undo_commit P commit e | None \<Rightarrow> after_commit P)
   }"

definition run_commit ::
  "'w ports \<Rightarrow> nat \<Rightarrow> nat \<Rightarrow> gostring list \<Rightarrow> batch_proof \<Rightarrow> ('w, attempt_result) eng" where
  "run_commit P i number changed proof = do {
     b \<leftarrow> gets (the_batch i);
     committed \<leftarrow> call (pCommitBatch P (primaryFile b) proof) (EvCommit (primaryFile b) proof);
     (case committed of
        Inl e \<Rightarrow> stopping (checkpoint_context P i number)
                   (State_Monad.return (infrastructure_failure (''commit batch: '' @ e) True []))
      | Inr commit \<Rightarrow> record_commit P i number changed commit)
   }"

text \<open>The judgement on a validation whose proof has been verified again.\<close>

definition run_judge ::
  "'w ports \<Rightarrow> nat \<Rightarrow> nat \<Rightarrow> gostring list \<Rightarrow> validation_result \<Rightarrow> ('w, attempt_result) eng" where
  "run_judge P i number changed v =
     (case blocking_multiset (vFindings v) of
        Inl e \<Rightarrow> State_Monad.return (infrastructure_failure
                   (''classify validation findings: '' @ pPlanErrorText P e) False [])
      | Inr _ \<Rightarrow>
          (case validate_attempt_result (pQuote P) v of
             Some e \<Rightarrow> State_Monad.return (infrastructure_failure (''invalid batch validation: '' @ e) False [])
           | None \<Rightarrow>
               (case vKind v of
                  ValidationSemanticFailure \<Rightarrow> do {
                    modify_core (\<lambda>c. c\<lparr>eSemantic := (eSemantic c)(i \<mapsto> vFindings v)\<rparr>);
                    State_Monad.return (SemanticFailure (bounded_failure (vFailure v)) False)
                  }
                | ValidationInfrastructureFailure \<Rightarrow>
                    State_Monad.return (infrastructure_failure (vFailure v) True (vFindings v))
                | _ \<Rightarrow> do {
                    modify_core (\<lambda>c. c\<lparr>eSemantic := (eSemantic c)(i := None)\<rparr>);
                    stopping (checkpoint P i number) (run_commit P i number changed (vProof v))
                  })))"

text \<open>Validation, then the second look at the proof.\<close>

definition run_validate ::
  "'w ports \<Rightarrow> nat \<Rightarrow> nat \<Rightarrow> gostring list \<Rightarrow> batch_proof \<Rightarrow> ('w, attempt_result) eng" where
  "run_validate P i number changed proof = do {
     b \<leftarrow> gets (the_batch i);
     v \<leftarrow> call (pValidate P (b\<lparr>batchProof := proof\<rparr>)) (EvValidate (b\<lparr>batchProof := proof\<rparr>));
     verified \<leftarrow> call (pVerifyBatch P proof) (EvVerify proof);
     (case verified of
        Some e \<Rightarrow> do {
          ended \<leftarrow> ctx_done P;
          (let failure = bounded_failure (''verify batch proof: '' @ e);
               v' = \<lparr>vKind = ValidationInfrastructureFailure, vFailure = failure, vFindings = [],
                     vChangedFiles = changed, vProof = no_proof\<rparr>
           in if ended \<noteq> None then State_Monad.return (infrastructure_failure failure False [])
              else stopping (checkpoint P i number) (run_judge P i number changed v'))
        }
      | None \<Rightarrow>
          stopping (checkpoint P i number)
            (run_judge P i number changed
              (v\<lparr>vProof := (if vKind v = ValidationPassed then proof else no_proof)\<rparr>)))
   }"

definition run_changes :: "'w ports \<Rightarrow> nat \<Rightarrow> nat \<Rightarrow> ('w, attempt_result) eng" where
  "run_changes P i number = do {
     answer \<leftarrow> call (pChangedFiles P) EvChangedFiles;
     stopping (checkpoint P i number)
       (case answer of
          Inl e \<Rightarrow> State_Monad.return (infrastructure_failure (''inspect changed files: '' @ e) True [])
        | Inr changed \<Rightarrow>
            if changed = [] then State_Monad.return (SemanticFailure ''agent produced no worktree changes'' False)
            else do {
              prepared \<leftarrow> call (pPrepareBatch P changed) (EvPrepare changed);
              stopping (checkpoint_context P i number)
                (case prepared of
                   Inl e \<Rightarrow> State_Monad.return (infrastructure_failure (''prepare batch proof: '' @ e) True [])
                 | Inr proof \<Rightarrow> run_validate P i number changed proof)
            })
   }"

definition run_agent ::
  "'w ports \<Rightarrow> nat \<Rightarrow> nat \<Rightarrow> gostring \<Rightarrow> nat \<Rightarrow> nat \<Rightarrow> ('w, attempt_result) eng" where
  "run_agent P i number brief sink git = do {
     agent \<leftarrow> call (pAdapterRun P brief sink) (\<lambda>_. EvAdapterRun i number);
     integrity \<leftarrow> call (pCheckGit P git) EvCheckGit;
     (case integrity of
        Some g \<Rightarrow>
          (let failure = bounded_failure (''check Git state: '' @ gitText g)
           in if \<not> gitRestored g then State_Monad.return (infrastructure_failure failure False [])
              else State_Monad.return (SemanticFailure failure True))
      | None \<Rightarrow>
          stopping (checkpoint P i number)
            (case agent of
               Some a \<Rightarrow> State_Monad.return (infrastructure_failure (''adapter: '' @ adText a) (adRetryable a) [])
             | None \<Rightarrow> run_changes P i number))
   }"

definition run_attempt :: "'w ports \<Rightarrow> request \<Rightarrow> nat \<Rightarrow> nat \<Rightarrow> gostring \<Rightarrow> ('w, attempt_result) eng" where
  "run_attempt P rq i number retry = do {
     modify_core (on_batch i (\<lambda>b. b\<lparr>batchStatus := BatchRunning, batchAttempts := batchAttempts b @
       [\<lparr>attNumber = number, attStatus = AttemptRunning, attFailure = [], attChangedFiles = [],
         attCommit = []\<rparr>]\<rparr>));
     err \<leftarrow> persist P;
     (case err of
        Some e \<Rightarrow> State_Monad.return (infrastructure_failure (''write running plan: '' @ pweText e) False [])
      | None \<Rightarrow> stopping (checkpoint P i number) (do {
          b \<leftarrow> gets (the_batch i);
          (case build_brief \<lparr>briefMergeBase = reqMergeBase rq, briefOriginalHead = reqOriginalHead rq,
                            briefBatch = b, briefRetryFailure = retry\<rparr> of
             Inl e \<Rightarrow> State_Monad.return (infrastructure_failure (''build brief: '' @ pBriefErrorText P e) False [])
           | Inr brief \<Rightarrow> do {
               err \<leftarrow> call (pWriteBrief P (batchName b) number brief) (EvWriteBrief (batchName b) number brief);
               (case err of
                  Some e \<Rightarrow> State_Monad.return (infrastructure_failure (''write brief: '' @ e) False [])
                | None \<Rightarrow> stopping (checkpoint P i number) (do {
                    sink \<leftarrow> call (pAdapterSink P (batchName b) number)
                              (\<lambda>a. EvAdapterSink (batchName b) number (isl a));
                    (case sink of
                       Inl e \<Rightarrow> State_Monad.return (infrastructure_failure (''allocate adapter sink: '' @ e) False [])
                     | Inr sink \<Rightarrow> stopping (checkpoint P i number) (do {
                         git \<leftarrow> call (pSnapshotGit P) (\<lambda>a. EvSnapshotGit (isl a));
                         stopping (checkpoint P i number)
                           (case git of
                              Inl e \<Rightarrow> State_Monad.return (infrastructure_failure (''snapshot Git state: '' @ e) False [])
                            | Inr git \<Rightarrow> run_agent P i number brief sink git)
                       }))
                  }))
             })
        }))
   }"

subsection \<open>A batch\<close>

definition admit :: "'w ports \<Rightarrow> nat \<Rightarrow> nat \<Rightarrow> ('w, rails_error option) eng" where
  "admit P i number = do {
     admitted \<leftarrow> with_rails P admit_attempt;
     (if admitted = None then modify_core (record_event (EvAdmit i number)) else State_Monad.return ());
     State_Monad.return admitted
   }"

text \<open>
  What follows an attempt; \<open>None\<close> is a continued execution and \<open>retry\<close> the next turn of the loop.
  An infrastructure failure's findings travel with the outcome.
\<close>

definition after_attempt ::
  "'w ports \<Rightarrow> nat \<Rightarrow> nat \<Rightarrow> attempt_result \<Rightarrow> (gostring \<Rightarrow> ('w, outcome option) eng) \<Rightarrow> ('w, outcome option) eng" where
  "after_attempt P i number result retry =
     (case result of
        AttemptSucceeded \<Rightarrow> State_Monad.return None
      | AttemptStopped out \<Rightarrow> State_Monad.return (Some out)
      | SemanticFailure failure stop_if_cancelled \<Rightarrow> do {
          out \<leftarrow> abort_semantic P i number failure;
          (case out of
             Some out \<Rightarrow> State_Monad.return (Some out)
           | None \<Rightarrow> do {
               ended \<leftarrow> (if stop_if_cancelled then ctx_done P else State_Monad.return None);
               (if ended \<noteq> None then stop_with P OutcomeErrored [] failure
                else if number = 2 then State_Monad.return None
                else retry failure)
             })
        }
      | InfrastructureFailure failure fs retryable \<Rightarrow> do {
          reset \<leftarrow> fail_and_reset P i number failure;
          (case reset of
             Some r \<Rightarrow> stop_with P OutcomeErrored fs r
           | None \<Rightarrow>
               if \<not> retryable \<or> number = 2 then stop_with P OutcomeErrored fs failure
               else retry failure)
        })"

text \<open>The loop over the attempts that are left.\<close>

fun execute_attempts :: "'w ports \<Rightarrow> request \<Rightarrow> nat \<Rightarrow> gostring \<Rightarrow> nat list \<Rightarrow> ('w, outcome option) eng" where
  "execute_attempts P rq i retry [] = State_Monad.return None"
| "execute_attempts P rq i retry (number # numbers) = do {
     p \<leftarrow> get_persisted;
     out \<leftarrow> stop_for_context P p;
     (case out of Some out \<Rightarrow> State_Monad.return (Some out) | None \<Rightarrow> do {
        admitted \<leftarrow> admit P i number;
        (case admitted of
           Some e \<Rightarrow> stop_with P (rail_kind_of e) [] (rails_error_text e)
         | None \<Rightarrow> do {
             modify_core (\<lambda>c. c\<lparr>eSemantic := (eSemantic c)(i := None)\<rparr>);
             p \<leftarrow> get_persisted;
             out \<leftarrow> stop_for_context P p;
             (case out of Some out \<Rightarrow> State_Monad.return (Some out) | None \<Rightarrow> do {
                result \<leftarrow> run_attempt P rq i number retry;
                after_attempt P i number result (\<lambda>failure. execute_attempts P rq i failure numbers)
              })
           })
      })
   }"

definition execute_batch :: "'w ports \<Rightarrow> request \<Rightarrow> nat \<Rightarrow> ('w, outcome option) eng" where
  "execute_batch P rq i = execute_attempts P rq i [] [1, 2]"

subsection \<open>The barrier\<close>

datatype barrier_decision = BarrierStop outcome | BarrierContinue counts

text \<open>
  The classification of a barrier result: \<open>Inl\<close> is a terminal kind with its failure, \<open>Inr\<close> the
  blockers of the next wave.
\<close>

definition classify_barrier ::
  "'w ports \<Rightarrow> validation_result \<Rightarrow> counts \<Rightarrow> bool \<Rightarrow> (outcome_kind \<times> gostring, counts) res" where
  "classify_barrier P v before stuck =
     (case blocking_multiset (vFindings v) of
        Inl e \<Rightarrow> Inl (OutcomeErrored, ''classify barrier blockers: '' @ pPlanErrorText P e)
      | Inr after \<Rightarrow>
          (case validate_barrier_result (pQuote P) v of
             Some e \<Rightarrow> Inl (OutcomeErrored, ''invalid barrier validation: '' @ e)
           | None \<Rightarrow>
               if vKind v = ValidationInfrastructureFailure then Inl (OutcomeErrored, vFailure v)
               else if vKind v = ValidationSemanticFailure then Inl (OutcomeBlocked, vFailure v)
               else if stuck then Inl (OutcomeBlocked, ''one or more batches are stuck'')
               else if after = [] then Inl (OutcomeReady, [])
               else if \<not> strictly_shrinks after before
               then Inl (OutcomeBlocked, ''blocking findings did not strictly shrink'')
               else Inr after))"

definition evaluate_barrier ::
  "'w ports \<Rightarrow> validation_result \<Rightarrow> counts \<Rightarrow> bool \<Rightarrow> ('w, barrier_decision) eng" where
  "evaluate_barrier P v before stuck = do {
     fs \<leftarrow> gets (\<lambda>s. outcome_findings (eCore s) (vFindings v));
     ended \<leftarrow> ctx_done P;
     decision \<leftarrow> (case ended of
        Some c \<Rightarrow> State_Monad.return (Inl c)
      | None \<Rightarrow> do {
          err \<leftarrow> with_rails P admit_landing;
          State_Monad.return (Inr (case err of
             Some e \<Rightarrow> Inl (rail_kind_of e, rails_error_text e)
           | None \<Rightarrow> classify_barrier P v before stuck))
        });
     err \<leftarrow> persist P;
     (case err of
        Some e \<Rightarrow> do {
          p \<leftarrow> get_persisted;
          out \<leftarrow> engine_outcome P OutcomeErrored p fs (''write barrier plan: '' @ pweText e);
          State_Monad.return (BarrierStop out)
        }
      | None \<Rightarrow>
          (case decision of
             Inl c \<Rightarrow> do {
               p \<leftarrow> get_persisted;
               out \<leftarrow> context_outcome P c p;
               State_Monad.return (BarrierStop (out\<lparr>outFindings := fs\<rparr>))
             }
           | Inr (Inl (kind, failure)) \<Rightarrow> do {
               p \<leftarrow> get_persisted;
               out \<leftarrow> engine_outcome P kind p (if kind = OutcomeReady then [] else fs) failure;
               State_Monad.return (BarrierStop out)
             }
           | Inr (Inr after) \<Rightarrow> State_Monad.return (BarrierContinue after)))
   }"

subsection \<open>Waves\<close>

text \<open>The batches of one wave; the answer is the terminal outcome or whether a batch got stuck.\<close>

fun execute_wave :: "'w ports \<Rightarrow> request \<Rightarrow> bool \<Rightarrow> nat list \<Rightarrow> ('w, outcome + bool) eng" where
  "execute_wave P rq stuck [] = State_Monad.return (Inr stuck)"
| "execute_wave P rq stuck (i # is) = do {
     out \<leftarrow> execute_batch P rq i;
     (case out of
        Some out \<Rightarrow> do {
          c \<leftarrow> gets eCore;
          State_Monad.return (Inl (out\<lparr>outFindings := outcome_findings c (outFindings out)\<rparr>))
        }
      | None \<Rightarrow> do {
          b \<leftarrow> gets (the_batch i);
          execute_wave P rq (stuck \<or> batchStatus b = BatchStuck) is
        })
   }"

text \<open>One turn of the loop of \<open>Execute\<close>: a terminal outcome, or the next wave.\<close>

definition next_wave :: "'w ports \<Rightarrow> validation_result \<Rightarrow> counts \<Rightarrow> ('w, outcome + nat \<times> counts) eng" where
  "next_wave P v after =
     (case new_plan (vFindings v) of
        Inl e \<Rightarrow> do {
          c \<leftarrow> gets eCore;
          out \<leftarrow> engine_outcome P OutcomeErrored (ePersisted c) (outcome_findings c (vFindings v))
                   (''create next plan wave: '' @ pPlanErrorText P e);
          State_Monad.return (Inl out)
        }
      | Inr p \<Rightarrow> do {
          start \<leftarrow> gets (\<lambda>s. length (planBatches (ePlan (eCore s))));
          modify_core (\<lambda>c. c\<lparr>ePlan := (ePlan c)\<lparr>planBatches := planBatches (ePlan c) @ planBatches p\<rparr>\<rparr>);
          err \<leftarrow> persist P;
          (case err of
             Some e \<Rightarrow> do {
               c \<leftarrow> gets eCore;
               out \<leftarrow> engine_outcome P OutcomeErrored (ePersisted c) (outcome_findings c (vFindings v))
                        (''write next plan wave: '' @ pweText e);
               State_Monad.return (Inl out)
             }
           | None \<Rightarrow> State_Monad.return (Inr (start, after)))
        })"

definition with_findings :: "outcome \<Rightarrow> ('w, outcome) eng" where
  "with_findings out = do {
     c \<leftarrow> gets eCore;
     State_Monad.return (out\<lparr>outFindings := outcome_findings c (outFindings out)\<rparr>)
   }"

definition run_wave :: "'w ports \<Rightarrow> request \<Rightarrow> nat \<Rightarrow> counts \<Rightarrow> ('w, outcome + nat \<times> counts) eng" where
  "run_wave P rq start before = do {
     end \<leftarrow> gets (\<lambda>s. length (planBatches (ePlan (eCore s))));
     result \<leftarrow> execute_wave P rq False [start ..< end];
     (case result of
        Inl out \<Rightarrow> State_Monad.return (Inl out)
      | Inr stuck \<Rightarrow> do {
          p \<leftarrow> get_persisted;
          out \<leftarrow> stop_for_context P p;
          (case out of
             Some out \<Rightarrow> do { out \<leftarrow> with_findings out; State_Monad.return (Inl out) }
           | None \<Rightarrow> do {
               p \<leftarrow> get_persisted;
               out \<leftarrow> stop_for_rail P p;
               (case out of
                  Some out \<Rightarrow> do { out \<leftarrow> with_findings out; State_Monad.return (Inl out) }
                | None \<Rightarrow> do {
                    v \<leftarrow> call (pBarrier P) EvBarrier;
                    decision \<leftarrow> evaluate_barrier P v before stuck;
                    (case decision of
                       BarrierStop out \<Rightarrow> State_Monad.return (Inl out)
                     | BarrierContinue after \<Rightarrow> next_wave P v after)
                  })
             })
        })
   }"

text \<open>
  Every further wave has strictly fewer blocking occurrences, so the loop ends. The first component
  of the measure is for arguments that are no blocking multiset, which only the first turn can have.
\<close>

definition counts_size :: "counts \<Rightarrow> nat" where
  "counts_size m = size (count_mset m)"

lemma classify_continue:
  assumes "classify_barrier P v before stuck = Inr after"
  shows "blocking_multiset (vFindings v) = Inr after" "strictly_shrinks after before" "counts_ok after"
    "\<not> stuck" "vKind v = ValidationPassed"
  using assms blocking_counts_ok
  by (auto simp: classify_barrier_def validate_barrier_result_def
      split: sum.splits option.splits if_splits validation_kind.splits)

lemma evaluate_continue:
  assumes "run_state (evaluate_barrier P v before stuck) s = (BarrierContinue after, s')"
  shows "classify_barrier P v before stuck = Inr after"
  using assms
  by (auto simp: evaluate_barrier_def split: option.splits prod.splits sum.splits)

lemma next_wave_counts:
  "run_state (next_wave P v after) s = (Inr (start, m), s') \<Longrightarrow> m = after"
  by (auto simp: next_wave_def split: sum.splits option.splits prod.splits)

lemma run_wave_continue:
  assumes "run_state (run_wave P rq start before) s = (Inr (start', after), s')"
  shows "strictly_shrinks after before \<and> counts_ok after"
proof -
  from assms obtain v stuck s1 s2 s3 where "run_state (evaluate_barrier P v before stuck) s1 = (BarrierContinue after, s2)"
    by (auto simp: run_wave_def with_findings_def split: prod.splits sum.splits option.splits
        barrier_decision.splits dest: next_wave_counts)
  from classify_continue(2,3) [OF evaluate_continue [OF this]] show ?thesis by blast
qed

lemma shrinks_size: "counts_ok a \<Longrightarrow> counts_ok b \<Longrightarrow> strictly_shrinks a b \<Longrightarrow> counts_size a < counts_size b"
  by (simp add: shrinks_subset counts_size_def mset_subset_size)

function run_waves :: "'w ports \<Rightarrow> request \<Rightarrow> nat \<Rightarrow> counts \<Rightarrow> 'w engine \<Rightarrow> outcome \<times> 'w engine" where
  "run_waves P rq start before s =
     (case run_state (run_wave P rq start before) s of
        (Inl out, s') \<Rightarrow> (out, s')
      | (Inr (start', after), s') \<Rightarrow> run_waves P rq start' after s')"
  by pat_completeness auto
termination
proof (relation "measures [\<lambda>(P, rq, start, m, s). if counts_ok m then 0 else 1,
                           \<lambda>(P, rq, start, m, s). counts_size m]")
  fix P :: "'w ports" and rq start before and s s' :: "'w engine" and r p start' after
  assume "(r, s') = run_state (run_wave P rq start before) s" "r = Inr p" "(start', after) = p"
  then have "run_state (run_wave P rq start before) s = (Inr (start', after), s')" by simp
  from run_wave_continue [OF this] shrinks_size [of after before]
  show "((P, rq, start', after, s'), (P, rq, start, before, s))
      \<in> measures [\<lambda>(P, rq, start, m, s). if counts_ok m then 0 else 1, \<lambda>(P, rq, start, m, s). counts_size m]"
    by auto
qed simp

declare run_waves.simps [simp del]

subsection \<open>Execute\<close>

definition validate_engine_input :: "request \<Rightarrow> 'w ports \<Rightarrow> gostring" where
  "validate_engine_input rq P =
     (if \<not> valid_revision (reqMergeBase rq)
      then ''merge base must be a 40- or 64-character hexadecimal object ID''
      else if \<not> valid_revision (reqOriginalHead rq)
      then ''original HEAD must be a 40- or 64-character hexadecimal object ID''
      else if reqRails rq = None then ''rails are required''
      else if \<not> hasAdapter P then ''adapter is required''
      else if \<not> hasWorkspace P then ''workspace is required''
      else if \<not> hasAudit P then ''audit is required''
      else if \<not> hasValidate P then ''batch validator is required''
      else if \<not> hasBarrier P then ''barrier validator is required''
      else [])"

definition initial_core :: core where
  "initial_core = \<lparr>ePlan = empty_plan, ePersisted = empty_plan, eSemantic = (\<lambda>_. None), eLog = []\<rparr>"

text \<open>The start of \<open>Execute\<close>, up to the first wave.\<close>

definition start_execute :: "'w ports \<Rightarrow> request \<Rightarrow> ('w, outcome + counts) eng" where
  "start_execute P rq = do {
     out \<leftarrow> stop_for_context P empty_plan;
     (case out of Some out \<Rightarrow> State_Monad.return (Inl out) | None \<Rightarrow> do {
     out \<leftarrow> stop_for_rail P empty_plan;
     (case out of Some out \<Rightarrow> State_Monad.return (Inl out) | None \<Rightarrow> do {
     context \<leftarrow> with_rails P (execution_context True);
     (case context of
        Inl e \<Rightarrow> do {
          out \<leftarrow> engine_outcome P OutcomeRails empty_plan [] (rails_error_text e);
          State_Monad.return (Inl out)
        }
      | Inr _ \<Rightarrow>
     (case new_plan (reqInitialFindings rq) of
        Inl e \<Rightarrow> do {
          out \<leftarrow> engine_outcome P OutcomeErrored empty_plan [] (''create initial plan: '' @ pPlanErrorText P e);
          State_Monad.return (Inl out)
        }
      | Inr p \<Rightarrow>
     (case blocking_multiset (reqInitialFindings rq) of
        Inl e \<Rightarrow> do {
          out \<leftarrow> engine_outcome P OutcomeErrored empty_plan [] (''classify initial blockers: '' @ pPlanErrorText P e);
          State_Monad.return (Inl out)
        }
      | Inr blockers \<Rightarrow> do {
     modify_core (\<lambda>c. c\<lparr>ePlan := p\<rparr>);
     p \<leftarrow> get_persisted;
     out \<leftarrow> stop_for_context P p;
     (case out of Some out \<Rightarrow> State_Monad.return (Inl out) | None \<Rightarrow> do {
     out \<leftarrow> stop_for_rail P p;
     (case out of Some out \<Rightarrow> State_Monad.return (Inl out) | None \<Rightarrow> do {
     err \<leftarrow> persist P;
     (case err of
        Some e \<Rightarrow> do {
          p \<leftarrow> get_persisted;
          out \<leftarrow> engine_outcome P OutcomeErrored p [] (''write plan: '' @ pweText e);
          State_Monad.return (Inl out)
        }
      | None \<Rightarrow> State_Monad.return (Inr blockers))
     })})}))) })})
   }"

text \<open>
  An outcome before the engine has a state. \<open>ctx\<close> says whether the context is not nil; the final
  engine state is returned for its history.
\<close>

definition early_outcome :: "'w ports \<Rightarrow> request \<Rightarrow> gostring \<Rightarrow> 'w \<Rightarrow> outcome" where
  "early_outcome P rq failure w =
     \<lparr>outKind = OutcomeErrored, outPlan = empty_plan, outFindings = [],
      outIterations = (case reqRails rq of
          None \<Rightarrow> 0 | Some r \<Rightarrow> snapIterations (fst (snapshot (fst (pClock P w)) r))),
      outFailure = bounded_failure failure\<rparr>"

definition execute :: "'w ports \<Rightarrow> request \<Rightarrow> bool \<Rightarrow> 'w \<Rightarrow> outcome \<times> 'w engine option" where
  "execute P rq ctx w =
     (if \<not> ctx then ((early_outcome P rq ''context is required'' w)\<lparr>outIterations := 0\<rparr>, None)
      else if validate_engine_input rq P \<noteq> []
      then (early_outcome P rq (validate_engine_input rq P) w, None)
      else (let s = \<lparr>eCore = initial_core, eRails = the (reqRails rq), eCtx = None, eWorld = w\<rparr>
            in case run_state (start_execute P rq) s of
                 (Inl out, s') \<Rightarrow> (out, Some s')
               | (Inr blockers, s') \<Rightarrow>
                   (case run_waves P rq 0 blockers s' of (out, s'') \<Rightarrow> (out, Some s''))))"

end
