(* ===== verification/EngineLogic.thy ===== *)
theory EngineLogic
  imports Engine
begin

text \<open>
  A small program logic for the engine: weakest preconditions of the state monad, rules that run a
  step on a symbolic core, and the invariants of the history that the engine's steps keep.
\<close>

subsection \<open>Weakest preconditions\<close>

definition wp :: "('s, 'a) state \<Rightarrow> ('a \<Rightarrow> 's \<Rightarrow> bool) \<Rightarrow> 's \<Rightarrow> bool" where
  "wp m Q s \<longleftrightarrow> (case run_state m s of (a, s') \<Rightarrow> Q a s')"

lemma wp_bind: "wp m (\<lambda>a. wp (f a) Q) s \<Longrightarrow> wp (State_Monad.bind m f) Q s"
  by (simp add: wp_def split: prod.splits)

lemma wp_return: "Q a s \<Longrightarrow> wp (State_Monad.return a) Q s"
  by (simp add: wp_def)

lemma wp_mono: "wp m R s \<Longrightarrow> (\<And>a s'. R a s' \<Longrightarrow> Q a s') \<Longrightarrow> wp m Q s"
  by (simp add: wp_def split: prod.splits)

lemma wp_option:
  "(x = None \<Longrightarrow> wp m Q s) \<Longrightarrow> (\<And>y. x = Some y \<Longrightarrow> wp (f y) Q s)
    \<Longrightarrow> wp (case x of None \<Rightarrow> m | Some y \<Rightarrow> f y) Q s"
  by (cases x) simp_all

lemma wp_sum:
  "(\<And>y. x = Inl y \<Longrightarrow> wp (f y) Q s) \<Longrightarrow> (\<And>y. x = Inr y \<Longrightarrow> wp (g y) Q s)
    \<Longrightarrow> wp (case x of Inl y \<Rightarrow> f y | Inr y \<Rightarrow> g y) Q s"
  by (cases x) simp_all

lemma wp_if: "(b \<Longrightarrow> wp m Q s) \<Longrightarrow> (\<not> b \<Longrightarrow> wp n Q s) \<Longrightarrow> wp (if b then m else n) Q s"
  by simp

lemma wp_let: "wp (f x) Q s \<Longrightarrow> wp (let y = x in f y) Q s"
  by simp

lemma wp_prod: "(\<And>y z. x = (y, z) \<Longrightarrow> wp (f y z) Q s) \<Longrightarrow> wp (case x of (y, z) \<Rightarrow> f y z) Q s"
  by (cases x) simp

subsection \<open>States with a known core\<close>

fun is_admit :: "event \<Rightarrow> bool" where
  "is_admit (EvAdmit _ _) = True"
| "is_admit _ = False"

fun is_run :: "event \<Rightarrow> bool" where
  "is_run (EvAdapterRun _ _) = True"
| "is_run _ = False"

fun is_barrier :: "event \<Rightarrow> bool" where
  "is_barrier (EvBarrier _) = True"
| "is_barrier _ = False"

text \<open>The events that the ghost state of the logic counts.\<close>

fun counted :: "event \<Rightarrow> bool" where
  "counted (EvAdmit _ _) = True"
| "counted (EvBarrier _) = True"
| "counted _ = False"

lemma not_counted: "\<not> counted e \<Longrightarrow> \<not> is_admit e \<and> \<not> is_barrier e"
  by (cases e) auto

definition barriers :: "event list \<Rightarrow> nat" where
  "barriers l = length (filter is_barrier l)"

lemma barriers_simps [simp]:
  "barriers [] = 0" "barriers (e # l) = (if is_barrier e then Suc (barriers l) else barriers l)"
  by (simp_all add: barriers_def)

definition admits :: "event list \<Rightarrow> nat" where
  "admits l = length (filter is_admit l)"

definition agent_runs :: "event list \<Rightarrow> nat" where
  "agent_runs l = length (filter is_run l)"

lemma admits_Cons [simp]: "admits (e # l) = (if is_admit e then Suc (admits l) else admits l)"
  and agent_runs_Cons [simp]: "agent_runs (e # l) = (if is_run e then Suc (agent_runs l) else agent_runs l)"
  and admits_Nil [simp]: "admits [] = 0" and agent_runs_Nil [simp]: "agent_runs [] = 0"
  by (simp_all add: admits_def agent_runs_def)

text \<open>
  The state has core \<open>c\<close>; its rails, which started as the ghost's rails, have consumed one iteration
  for every admitted attempt of the history, and the ghost knows the number of barriers so far.
\<close>

type_synonym ghost = "rails \<times> nat"

definition st :: "ghost \<Rightarrow> core \<Rightarrow> 'w engine \<Rightarrow> bool" where
  "st r0 c s \<longleftrightarrow> eCore s = c \<and> rails_ok (eRails s) \<and> rails_limits (eRails s) = rails_limits (fst r0)
     \<and> iterations (eRails s) = iterations (fst r0) + int (admits (eLog c))
     \<and> barriers (eLog c) = snd r0"

definition quiet_rails :: "(int \<Rightarrow> rails \<Rightarrow> 'a \<times> rails) \<Rightarrow> bool" where
  "quiet_rails m \<longleftrightarrow> (\<forall>t r. rails_ok r \<longrightarrow> rails_ok (snd (m t r))
     \<and> rails_limits (snd (m t r)) = rails_limits r \<and> iterations (snd (m t r)) = iterations r)"

lemma quiet_methods [simp]:
  "quiet_rails admit_landing" "quiet_rails snapshot" "quiet_rails (execution_context b)"
  by (auto simp: quiet_rails_def admit_landing_def snapshot_def execution_context_def rails_ok_def
      rails_validate_def rails_limits_def Let_def max_def split: if_splits)

lemma wp_rails:
  assumes "st r0 c s" "quiet_rails m" "\<And>a s'. st r0 c s' \<Longrightarrow> Q a s'"
  shows "wp (with_rails P m) Q s"
proof -
  obtain t w where t: "pClock P (eWorld s) = (t, w)" by (cases "pClock P (eWorld s)")
  obtain a r where a: "m t (eRails s) = (a, r)" by (cases "m t (eRails s)")
  have "rails_ok r \<and> rails_limits r = rails_limits (eRails s) \<and> iterations r = iterations (eRails s)"
    using assms(1,2) a unfolding quiet_rails_def st_def by (metis snd_conv)
  with assms(1) have "st r0 c (s\<lparr>eWorld := w, eRails := r\<rparr>)" by (simp add: st_def)
  from assms(3) [OF this] show ?thesis by (simp add: wp_def with_rails_def t a)
qed

lemma wp_ctx_done:
  assumes "st r0 c s" "\<And>a s'. st r0 c s' \<Longrightarrow> Q a s'"
  shows "wp (ctx_done P) Q s"
  using assms by (auto simp: wp_def ctx_done_def st_def split: prod.splits option.splits)

lemma wp_observe:
  assumes "st r0 c s" "\<And>s'. st r0 c s' \<Longrightarrow> Q () s'"
  shows "wp (observe_ctx e) Q s"
  using assms
  by (auto simp: wp_def observe_ctx_def st_def observe_execution_context_def rails_ok_def rails_limits_def)

lemma wp_gets:
  assumes "st r0 c s" "\<And>s'. eCore s' = c \<Longrightarrow> f s' = v" "Q v s"
  shows "wp (gets f) Q s"
  using assms by (simp add: wp_def gets_def st_def)

lemma wp_gets_core: "st r0 c s \<Longrightarrow> (st r0 c s \<Longrightarrow> Q c s) \<Longrightarrow> wp (gets eCore) Q s"
  by (simp add: wp_def gets_def st_def)

lemma wp_gets_of_core: "st r0 c s \<Longrightarrow> Q (f c) s \<Longrightarrow> wp (gets (\<lambda>s. f (eCore s))) Q s"
  by (simp add: wp_def gets_def st_def)

lemma wp_persisted: "st r0 c s \<Longrightarrow> Q (ePersisted c) s \<Longrightarrow> wp get_persisted Q s"
  by (simp add: get_persisted_def wp_def gets_def st_def)

lemma wp_the_batch:
  "st r0 c s \<Longrightarrow> Q (planBatches (ePlan c) ! i) s \<Longrightarrow> wp (gets (the_batch i)) Q s"
  by (simp add: wp_def gets_def st_def the_batch_def)

lemma wp_modify:
  assumes "st r0 c s" "eLog (f c) = eLog c" "\<And>s'. st r0 (f c) s' \<Longrightarrow> Q () s'"
  shows "wp (modify_core f) Q s"
  using assms by (simp add: wp_def modify_core_def st_def)

lemma wp_call:
  assumes "st r0 c s" "\<And>a. \<not> counted (ev a)" "\<And>a s'. st r0 (record_event (ev a) c) s' \<Longrightarrow> Q a s'"
  shows "wp (call f ev) Q s"
  using assms(1,3) not_counted [OF assms(2)]
  by (auto simp: wp_def call_def st_def record_event_def split: prod.splits)

lemma wp_barrier:
  assumes "st g c s" "\<And>a s'. st (fst g, Suc (snd g)) (record_event (EvBarrier a) c) s' \<Longrightarrow> Q a s'"
  shows "wp (call f EvBarrier) Q s"
  using assms by (auto simp: wp_def call_def st_def record_event_def split: prod.splits)

lemma wp_admit:
  assumes "st r0 c s" "\<And>e s'. st r0 c s' \<Longrightarrow> Q (Some e) s'"
    "\<And>s'. st r0 (record_event (EvAdmit i n) c) s' \<Longrightarrow> Q None s'"
  shows "wp (admit P i n) Q s"
proof -
  obtain t w where t: "pClock P (eWorld s) = (t, w)" by (cases "pClock P (eWorld s)")
  obtain a r where a: "admit_attempt t (eRails s) = (a, r)" by (cases "admit_attempt t (eRails s)")
  have ok: "rails_ok (eRails s)" using assms(1) by (simp add: st_def)
  have "rail_do (OpAttempt t) (eRails s) = (a, r)" by (simp add: rail_do_def a)
  note e = rail_do_effect [OF ok this]
  show ?thesis
  proof (cases a)
    case None
    with e assms(1) have "st r0 (record_event (EvAdmit i n) c)
        (s\<lparr>eWorld := w, eRails := r, eCore := record_event (EvAdmit i n) (eCore s)\<rparr>)"
      by (simp add: st_def record_event_def)
    from assms(3) [OF this] None show ?thesis
      by (simp add: wp_def admit_def with_rails_def modify_core_def t a)
  next
    case (Some x)
    with e assms(1) have "st r0 c (s\<lparr>eWorld := w, eRails := r\<rparr>)" by (simp add: st_def)
    from assms(2) [OF this] Some show ?thesis by (simp add: wp_def admit_def with_rails_def t a)
  qed
qed

text \<open>An outcome that reports the persisted plan and the iterations of the history.\<close>

definition out_ok :: "ghost \<Rightarrow> core \<Rightarrow> outcome \<Rightarrow> bool" where
  "out_ok r0 c out \<longleftrightarrow> outPlan out = ePersisted c \<and> outKind out \<noteq> OutcomeReady
     \<and> outIterations out = iterations (fst r0) + int (admits (eLog c))"

lemma wp_engine_outcome:
  assumes "st r0 c s"
    "\<And>out s'. st r0 c s' \<Longrightarrow> outKind out = k \<Longrightarrow> outPlan out = p \<Longrightarrow> outFindings out = fs \<Longrightarrow>
       outIterations out = iterations (fst r0) + int (admits (eLog c)) \<Longrightarrow>
       outFailure out = bounded_failure f \<Longrightarrow> Q out s'"
  shows "wp (engine_outcome P k p fs f) Q s"
proof -
  obtain t w where t: "pClock P (eWorld s) = (t, w)" by (cases "pClock P (eWorld s)")
  obtain sn r where sn: "snapshot t (eRails s) = (sn, r)" by (cases "snapshot t (eRails s)")
  have ok: "hasClock (eRails s)" using assms(1) by (simp add: st_def rails_ok_def)
  have it: "snapIterations sn = iterations (eRails s)"
    using sn ok by (auto simp: snapshot_def Let_def)
  have "rails_ok r \<and> rails_limits r = rails_limits (eRails s) \<and> iterations r = iterations (eRails s)"
    using quiet_methods(2) assms(1) sn unfolding quiet_rails_def st_def by (metis snd_conv)
  with assms(1) have "st r0 c (s\<lparr>eWorld := w, eRails := r\<rparr>)" by (simp add: st_def)
  from assms(2) [OF this] it assms(1) show ?thesis
    by (simp add: wp_def engine_outcome_def with_rails_def t sn st_def)
qed

lemma rail_kind_not_ready [simp]: "rail_kind_of e \<noteq> OutcomeReady" "OutcomeReady \<noteq> rail_kind_of e"
  by (cases e; simp)+

lemma wp_context_outcome:
  assumes "st r0 c s"
    "\<And>out s'. st r0 c s' \<Longrightarrow> outKind out \<noteq> OutcomeReady \<Longrightarrow> outPlan out = p \<Longrightarrow>
       outIterations out = iterations (fst r0) + int (admits (eLog c)) \<Longrightarrow> Q out s'"
  shows "wp (context_outcome P e p) Q s"
  unfolding context_outcome_def rail_exhausted_now_def
  by (intro wp_if wp_bind wp_observe [OF assms(1)] wp_rails [OF assms(1) quiet_methods(1)] wp_return;
      erule wp_engine_outcome; rule assms(2)) (auto split: if_splits)

lemma wp_stop_for_context:
  assumes "st r0 c s" "\<And>s'. st r0 c s' \<Longrightarrow> Q None s'"
    "\<And>out s'. st r0 c s' \<Longrightarrow> outKind out \<noteq> OutcomeReady \<Longrightarrow> outPlan out = p \<Longrightarrow>
       outIterations out = iterations (fst r0) + int (admits (eLog c)) \<Longrightarrow> Q (Some out) s'"
  shows "wp (stop_for_context P p) Q s"
  unfolding stop_for_context_def
  by (intro wp_bind wp_ctx_done [OF assms(1)] wp_option)
    (auto intro!: wp_return wp_bind wp_context_outcome assms(2,3))

lemma wp_stop_for_rail:
  assumes "st r0 c s" "\<And>s'. st r0 c s' \<Longrightarrow> Q None s'"
    "\<And>out s'. st r0 c s' \<Longrightarrow> outKind out \<noteq> OutcomeReady \<Longrightarrow> outPlan out = p \<Longrightarrow>
       outIterations out = iterations (fst r0) + int (admits (eLog c)) \<Longrightarrow> Q (Some out) s'"
  shows "wp (stop_for_rail P p) Q s"
  unfolding stop_for_rail_def
  by (intro wp_bind wp_rails [OF assms(1) quiet_methods(1)] wp_option)
    (auto intro!: wp_return wp_bind wp_engine_outcome assms(2,3))

end
