(* ===== verification/EngineFacts.thy ===== *)
theory EngineFacts
  imports EngineLogic
begin

text \<open>
  What the engine keeps: a well-formed history, a persisted plan that is the last one published, and
  batches whose status is backed by the history; then the properties of \<open>Execute\<close>.
\<close>

subsection \<open>Well-formed histories\<close>

definition published :: "plan_write_error option \<Rightarrow> bool" where
  "published err = (case err of None \<Rightarrow> True | Some e \<Rightarrow> pwePublished e)"

text \<open>The plan an operator would find on disk.\<close>

fun last_published :: "event list \<Rightarrow> plan" where
  "last_published [] = empty_plan"
| "last_published (EvWritePlan p err # l) = (if published err then p else last_published l)"
| "last_published (e # l) = last_published l"

text \<open>An agent has run and neither a reset nor a commit has cleaned the workspace since.\<close>

fun dirty :: "event list \<Rightarrow> bool" where
  "dirty [] = False"
| "dirty (EvAdapterRun _ _ # l) = True"
| "dirty (EvReset None # l) = False"
| "dirty (EvCommit _ _ (Inr _) # l) = False"
| "dirty (e # l) = dirty l"

text \<open>The evidence right before a commit.\<close>

definition commit_ready :: "gostring \<Rightarrow> batch_proof \<Rightarrow> event list \<Rightarrow> bool" where
  "commit_ready file p l \<longleftrightarrow> (\<exists>b v changed l'.
     l = EvVerify p None # EvValidate b v # EvPrepare changed (Inr p) # l' \<and> changed \<noteq> []
     \<and> batchProof b = p \<and> primaryFile b = file \<and> proof_present p
     \<and> vKind v = ValidationPassed \<and> vFailure v = [] \<and> vFindings v = [])"

definition rollback_due :: "gostring \<Rightarrow> event list \<Rightarrow> bool" where
  "rollback_due commit l \<longleftrightarrow> (\<exists>pl e file p l'.
     l = EvWritePlan pl (Some e) # EvCommit file p (Inr commit) # l' \<and> \<not> pwePublished e)"

fun event_ok :: "event \<Rightarrow> event list \<Rightarrow> bool" where
  "event_ok (EvAdapterRun _ _) l \<longleftrightarrow> \<not> dirty l \<and> agent_runs l < admits l"
| "event_ok (EvCommit file p _) l \<longleftrightarrow> commit_ready file p l"
| "event_ok (EvRollback commit _) l \<longleftrightarrow> rollback_due commit l"
| "event_ok _ l \<longleftrightarrow> True"

fun wf_log :: "event list \<Rightarrow> bool" where
  "wf_log [] = True"
| "wf_log (e # l) \<longleftrightarrow> event_ok e l \<and> wf_log l"

lemma wf_log_event: "wf_log (l1 @ e # l2) \<Longrightarrow> event_ok e l2"
  by (induction l1) auto

subsection \<open>Batches\<close>

definition committed :: "event list \<Rightarrow> batch \<Rightarrow> bool" where
  "committed l b \<longleftrightarrow> batchAttempts b \<noteq> [] \<and> attStatus (last (batchAttempts b)) = AttemptPassed
     \<and> (\<exists>p. EvCommit (primaryFile b) p (Inr (attCommit (last (batchAttempts b)))) \<in> set l)"

definition batch_inv :: "event list \<Rightarrow> batch \<Rightarrow> bool" where
  "batch_inv l b \<longleftrightarrow> length (batchAttempts b) \<le> 2 \<and> (batchStatus b = BatchDone \<longrightarrow> committed l b)"

lemma batch_inv_mono: "batch_inv l b \<Longrightarrow> set l \<subseteq> set l' \<Longrightarrow> batch_inv l' b"
  by (auto simp: batch_inv_def committed_def)

definition base :: "core \<Rightarrow> bool" where
  "base c \<longleftrightarrow> wf_log (eLog c) \<and> ePersisted c = last_published (eLog c)
     \<and> agent_runs (eLog c) \<le> admits (eLog c)
     \<and> (\<forall>b \<in> set (planBatches (ePlan c)). batch_inv (eLog c) b)
     \<and> (\<forall>b \<in> set (planBatches (ePersisted c)). batch_inv (eLog c) b)"

abbreviation batches :: "core \<Rightarrow> batch list" where
  "batches c \<equiv> planBatches (ePlan c)"

text \<open>Only batch \<open>i\<close> differs from the batches \<open>bs\<close> the attempt started with.\<close>

definition frame_batches :: "batch list \<Rightarrow> nat \<Rightarrow> core \<Rightarrow> bool" where
  "frame_batches bs i c \<longleftrightarrow> length (batches c) = length bs \<and> i < length bs
     \<and> (\<forall>j < length bs. j \<noteq> i \<longrightarrow> batches c ! j = bs ! j)
     \<and> primaryFile (batches c ! i) = primaryFile (bs ! i)"

definition working :: "batch list \<Rightarrow> nat \<Rightarrow> nat \<Rightarrow> core \<Rightarrow> bool" where
  "working bs i n c \<longleftrightarrow> base c \<and> frame_batches bs i c \<and> 0 < n
     \<and> length (batchAttempts (batches c ! i)) = n \<and> batchStatus (batches c ! i) = BatchRunning"

definition attempt_post :: "batch list \<Rightarrow> nat \<Rightarrow> nat \<Rightarrow> ghost \<Rightarrow> attempt_result \<Rightarrow> core \<Rightarrow> bool" where
  "attempt_post bs i n r0 r c \<longleftrightarrow> base c \<and> frame_batches bs i c
     \<and> length (batchAttempts (batches c ! i)) = n
     \<and> (case r of
          AttemptSucceeded \<Rightarrow> batchStatus (batches c ! i) = BatchDone \<and> \<not> dirty (eLog c)
        | AttemptStopped out \<Rightarrow> out_ok r0 c out
        | _ \<Rightarrow> batchStatus (batches c ! i) = BatchRunning \<and> 0 < n)"

subsection \<open>Symbolic steps on the core\<close>

definition after_persist :: "core \<Rightarrow> plan_write_error option \<Rightarrow> core" where
  "after_persist c err =
     (let c' = record_event (EvWritePlan (ePlan c) err) c
      in if published err then c'\<lparr>ePersisted := ePlan c\<rparr> else c')"

lemma record_event_fields [simp]:
  "ePlan (record_event e c) = ePlan c" "ePersisted (record_event e c) = ePersisted c"
  "eSemantic (record_event e c) = eSemantic c" "eLog (record_event e c) = e # eLog c"
  by (simp_all add: record_event_def)

lemma after_persist_fields [simp]:
  "ePlan (after_persist c err) = ePlan c" "eSemantic (after_persist c err) = eSemantic c"
  "eLog (after_persist c err) = EvWritePlan (ePlan c) err # eLog c"
  "ePersisted (after_persist c err) = (if published err then ePlan c else ePersisted c)"
  by (simp_all add: after_persist_def Let_def)

lemma on_batch_fields [simp]:
  "ePersisted (on_batch i f c) = ePersisted c" "eSemantic (on_batch i f c) = eSemantic c"
  "eLog (on_batch i f c) = eLog c"
  "batches (on_batch i f c) = (batches c)[i := f (batches c ! i)]"
  by (simp_all add: on_batch_def)

text \<open>An event that the history allows keeps the invariant when it is neither a plan write nor an admission.\<close>

lemma base_event:
  assumes "base c" "event_ok e (eLog c)" "\<And>p err. e \<noteq> EvWritePlan p err"
  shows "base (record_event e c)"
proof -
  have "last_published (e # eLog c) = last_published (eLog c)"
    using assms(3) by (cases e) auto
  moreover have "agent_runs (e # eLog c) \<le> admits (e # eLog c)"
    using assms(1,2) by (cases e) (auto simp: base_def)
  moreover have "batch_inv (e # eLog c) b" if "batch_inv (eLog c) b" for b
    using that by (rule batch_inv_mono) auto
  ultimately show ?thesis using assms(1,2) by (simp add: base_def)
qed

lemma base_persist: "base c \<Longrightarrow> base (after_persist c err)"
proof -
  assume b: "base c"
  have "batch_inv (EvWritePlan (ePlan c) err # eLog c) x" if "batch_inv (eLog c) x" for x
    using that by (rule batch_inv_mono) auto
  with b show ?thesis by (auto simp: base_def)
qed

lemma base_batch: "base c \<Longrightarrow> batch_inv (eLog c) (f (batches c ! i)) \<Longrightarrow> base (on_batch i f c)"
  using set_update_subset_insert [of "batches c" i "f (batches c ! i)"]
  by (auto simp: base_def simp del: set_update_subset_insert)

lemma frame_keep [simp]:
  "frame_batches bs i (record_event e c) = frame_batches bs i c"
  "frame_batches bs i (after_persist c err) = frame_batches bs i c"
  by (simp_all add: frame_batches_def)

lemma frame_on_batch:
  "frame_batches bs i c \<Longrightarrow> primaryFile (f (batches c ! i)) = primaryFile (batches c ! i) \<Longrightarrow>
     frame_batches bs i (on_batch i f c)"
  by (auto simp: frame_batches_def)

lemma working_event:
  "working bs i n c \<Longrightarrow> event_ok e (eLog c) \<Longrightarrow> (\<And>p err. e \<noteq> EvWritePlan p err) \<Longrightarrow>
     working bs i n (record_event e c)"
  using base_event by (simp add: working_def)

lemma working_persist: "working bs i n c \<Longrightarrow> working bs i n (after_persist c err)"
  using base_persist by (simp add: working_def)

lemma working_index: "working bs i n c \<Longrightarrow> i < length (batches c)"
  by (simp add: working_def frame_batches_def)

lemma working_last:
  assumes "working bs i n c" "attStatus a \<noteq> AttemptPassed"
  shows "working bs i n (on_batch i (set_last_attempt a) c)"
proof -
  let ?b = "set_last_attempt a (batches c ! i)"
  have i: "i < length (batches c)" using assms(1) by (rule working_index)
  have "batch_inv (eLog c) ?b"
    using assms i by (auto simp: working_def base_def batch_inv_def set_last_attempt_def)
  with assms(1) i have "base (on_batch i (set_last_attempt a) c)"
    by (intro base_batch) (simp_all add: working_def)
  moreover have "frame_batches bs i (on_batch i (set_last_attempt a) c)"
    using assms(1) by (intro frame_on_batch) (simp_all add: working_def set_last_attempt_def)
  ultimately show ?thesis using assms(1) i by (simp add: working_def set_last_attempt_def)
qed

lemma working_semantic: "working bs i n (c\<lparr>eSemantic := m\<rparr>) = working bs i n c"
  by (simp add: working_def base_def frame_batches_def)

subsection \<open>Rules for the engine's steps\<close>

lemma wp_persist:
  fixes s :: "'w engine"
  assumes "st r0 c s" "\<And>err s'. st r0 (after_persist c err) s' \<Longrightarrow> Q err s'"
  shows "wp (persist P) Q s"
  unfolding persist_def
proof (rule wp_bind, rule wp_gets_of_core [OF assms(1)], rule wp_bind,
    rule wp_call [OF assms(1)], simp, rule wp_bind)
  fix err and s1 :: "'w engine"
  assume s1: "st r0 (record_event (EvWritePlan (ePlan c) err) c) s1"
  show "wp (case err of None \<Rightarrow> modify_core (\<lambda>c. c\<lparr>ePersisted := ePlan c\<rparr>)
      | Some e \<Rightarrow> if pwePublished e then modify_core (\<lambda>c. c\<lparr>ePersisted := ePlan c\<rparr>) else State_Monad.return ())
      (\<lambda>_. wp (State_Monad.return err) Q) s1"
  proof (cases "published err")
    case True
    have "wp (modify_core (\<lambda>c. c\<lparr>ePersisted := ePlan c\<rparr>)) (\<lambda>_. wp (State_Monad.return err) Q) s1"
      by (rule wp_modify [OF s1], simp, rule wp_return, rule assms(2))
        (use True in \<open>simp add: after_persist_def\<close>)
    with True show ?thesis by (cases err) (simp_all add: published_def)
  next
    case False
    have "wp (State_Monad.return ()) (\<lambda>_. wp (State_Monad.return err) Q) s1"
      by (intro wp_return assms(2)) (use s1 False in \<open>simp add: after_persist_def\<close>)
    with False show ?thesis by (cases err) (simp_all add: published_def)
  qed
qed

lemma wp_fail_and_reset:
  fixes s :: "'w engine"
  assumes "st r0 c s" "working bs i n c"
    "\<And>err c' s'. st r0 c' s' \<Longrightarrow> working bs i n c' \<Longrightarrow> (err = None \<Longrightarrow> \<not> dirty (eLog c')) \<Longrightarrow> Q err s'"
  shows "wp (fail_and_reset P i k f) Q s"
  unfolding fail_and_reset_def
proof (rule wp_bind, rule wp_modify [OF assms(1)], simp, rule wp_bind, erule wp_persist, rule wp_bind,
    erule wp_call, simp, rule wp_return)
  fix err reset and s3 :: "'w engine"
  let ?a = "\<lparr>attNumber = k, attStatus = AttemptFailed, attFailure = bounded_failure f,
        attChangedFiles = [], attCommit = []\<rparr>"
  let ?c = "record_event (EvReset reset) (after_persist (on_batch i (set_last_attempt ?a) c) err)"
  assume s3: "st r0 ?c s3"
  have "working bs i n ?c"
    by (intro working_event working_persist working_last assms(2)) simp_all
  with s3 show "Q (case err of None \<Rightarrow> (case reset of None \<Rightarrow> None | Some r \<Rightarrow> Some (''reset attempt: '' @ r))
      | Some e \<Rightarrow> (case reset of None \<Rightarrow> Some (''write failed plan: '' @ pweText e)
          | Some r \<Rightarrow> Some (''write failed plan: '' @ pweText e @ ''; reset attempt: '' @ r))) s3"
    by (rule assms(3)) (auto split: option.splits)
qed

lemma wp_stopped:
  assumes "st r0 c s" "k \<noteq> OutcomeReady" "\<And>out s'. st r0 c s' \<Longrightarrow> out_ok r0 c out \<Longrightarrow> Q (AttemptStopped out) s'"
  shows "wp (stopped P k f) Q s"
  unfolding stopped_def
  by (intro wp_bind wp_persisted [OF assms(1)] wp_engine_outcome [OF assms(1)] wp_return assms(3))
    (use assms(2) in \<open>simp_all add: out_ok_def\<close>)

lemma wp_checkpoint_context:
  fixes s :: "'w engine"
  assumes "st r0 c s" "working bs i n c" "\<And>s'. st r0 c s' \<Longrightarrow> Q AttemptSucceeded s'"
    "\<And>out c' s'. st r0 c' s' \<Longrightarrow> working bs i n c' \<Longrightarrow> out_ok r0 c' out \<Longrightarrow> Q (AttemptStopped out) s'"
  shows "wp (checkpoint_context P i k) Q s"
  unfolding checkpoint_context_def
proof (rule wp_bind, rule wp_ctx_done [OF assms(1)], rule wp_option)
  fix s1 :: "'w engine"
  assume s1: "st r0 c s1"
  show "wp (State_Monad.return AttemptSucceeded) Q s1" by (intro wp_return assms(3) s1)
  fix e
  show "wp (fail_and_reset P i k (ctxErr e) \<bind> (\<lambda>err. case err of
      None \<Rightarrow> get_persisted \<bind> (\<lambda>p. context_outcome P e p \<bind> (\<lambda>out. State_Monad.return (AttemptStopped out)))
    | Some e \<Rightarrow> stopped P OutcomeErrored e)) Q s1"
  proof (rule wp_bind, rule wp_fail_and_reset [OF s1 assms(2)], rule wp_option)
    fix c' and s' :: "'w engine"
    assume c': "st r0 c' s'" "working bs i n c'"
    show "wp (get_persisted \<bind> (\<lambda>p. context_outcome P e p \<bind> (\<lambda>out. State_Monad.return (AttemptStopped out)))) Q s'"
      by (intro wp_bind wp_persisted [OF c'(1)] wp_context_outcome [OF c'(1)] wp_return assms(4))
        (use c'(2) in \<open>simp_all add: out_ok_def\<close>)
    fix y show "wp (stopped P OutcomeErrored y) Q s'"
      by (rule wp_stopped [OF c'(1)]) (use assms(4) c'(2) in auto)
  qed
qed

lemma wp_stopping:
  "wp check (\<lambda>r s'. case r of AttemptStopped _ \<Rightarrow> Q r s' | _ \<Rightarrow> wp rest Q s') s \<Longrightarrow> wp (stopping check rest) Q s"
  unfolding stopping_def
  by (rule wp_bind, erule wp_mono) (auto split: attempt_result.splits intro: wp_return)

lemma wp_checkpoint:
  fixes s :: "'w engine"
  assumes "st r0 c s" "working bs i n c" "\<And>s'. st r0 c s' \<Longrightarrow> Q AttemptSucceeded s'"
    "\<And>out c' s'. st r0 c' s' \<Longrightarrow> working bs i n c' \<Longrightarrow> out_ok r0 c' out \<Longrightarrow> Q (AttemptStopped out) s'"
  shows "wp (checkpoint P i k) Q s"
  unfolding checkpoint_def
proof (rule wp_stopping, rule wp_checkpoint_context [OF assms(1,2)], simp_all add: assms(4))
  fix s1 :: "'w engine"
  assume s1: "st r0 c s1"
  show "wp (with_rails P admit_landing \<bind> (\<lambda>err. case err of
      None \<Rightarrow> State_Monad.return AttemptSucceeded
    | Some e \<Rightarrow> fail_and_reset P i k (bounded_failure (rails_error_text e)) \<bind> (\<lambda>reset. case reset of
        None \<Rightarrow> stopped P (rail_kind_of e) (bounded_failure (rails_error_text e))
      | Some r \<Rightarrow> stopped P OutcomeErrored r))) Q s1"
  proof (rule wp_bind, rule wp_rails [OF s1 quiet_methods(1)], rule wp_option)
    fix s2 :: "'w engine"
    assume s2: "st r0 c s2"
    show "wp (State_Monad.return AttemptSucceeded) Q s2" by (intro wp_return assms(3) s2)
    fix e
    show "wp (fail_and_reset P i k (bounded_failure (rails_error_text e)) \<bind> (\<lambda>reset. case reset of
        None \<Rightarrow> stopped P (rail_kind_of e) (bounded_failure (rails_error_text e))
      | Some r \<Rightarrow> stopped P OutcomeErrored r)) Q s2"
      by (rule wp_bind, rule wp_fail_and_reset [OF s2 assms(2)], rule wp_option)
        (rule wp_stopped, assumption, simp, rule assms(4), assumption+)+
  qed
qed

subsection \<open>The stages of an attempt\<close>

definition post :: "batch list \<Rightarrow> nat \<Rightarrow> nat \<Rightarrow> ghost \<Rightarrow> attempt_result \<Rightarrow> 'w engine \<Rightarrow> bool" where
  "post bs i n r0 r s \<longleftrightarrow> (\<exists>c. st r0 c s \<and> attempt_post bs i n r0 r c)"

lemma post_failed:
  assumes "st r0 c s" "working bs i n c"
  shows "post bs i n r0 (SemanticFailure f b) s" "post bs i n r0 (infrastructure_failure f b fs) s"
  using assms by (auto simp: post_def attempt_post_def working_def infrastructure_failure_def)

lemma post_stopped:
  "st r0 c s \<Longrightarrow> working bs i n c \<Longrightarrow> out_ok r0 c out \<Longrightarrow> post bs i n r0 (AttemptStopped out) s"
  by (auto simp: post_def attempt_post_def working_def)

lemma wp_guarded:
  fixes s :: "'w engine"
  assumes "st r0 c s" "working bs i n c" "\<And>s'. st r0 c s' \<Longrightarrow> wp rest (post bs i n r0) s'"
  shows "wp (stopping (checkpoint P i k) rest) (post bs i n r0) s"
    "wp (stopping (checkpoint_context P i k) rest) (post bs i n r0) s"
  by (rule wp_stopping, rule wp_checkpoint [OF assms(1,2)], simp_all add: assms(3) post_stopped)
    (rule wp_stopping, rule wp_checkpoint_context [OF assms(1,2)], simp_all add: assms(3) post_stopped)

text \<open>The transition that makes a batch done, right after its commit.\<close>

definition done_core :: "nat \<Rightarrow> nat \<Rightarrow> gostring list \<Rightarrow> gostring \<Rightarrow> batch_proof \<Rightarrow> core \<Rightarrow> core" where
  "done_core i k changed commit p c = on_batch i (complete_batch k changed commit)
     (record_event (EvCommit (primaryFile (batches c ! i)) p (Inr commit)) c)"

definition done_post :: "batch list \<Rightarrow> nat \<Rightarrow> nat \<Rightarrow> core \<Rightarrow> bool" where
  "done_post bs i n c \<longleftrightarrow> base c \<and> frame_batches bs i c \<and> length (batchAttempts (batches c ! i)) = n
     \<and> batchStatus (batches c ! i) = BatchDone \<and> \<not> dirty (eLog c)"

lemma done_core_post:
  assumes "working bs i n c" "n \<le> 2" "commit_ready (primaryFile (batches c ! i)) p (eLog c)"
  shows "done_post bs i n (done_core i k changed commit p c)"
proof -
  let ?e = "EvCommit (primaryFile (batches c ! i)) p (Inr commit)"
  let ?b = "complete_batch k changed commit (batches c ! i)"
  have i: "i < length (batches c)" using assms(1) by (rule working_index)
  have c1: "base (record_event ?e c)"
    by (rule base_event) (use assms(1,3) in \<open>simp_all add: working_def\<close>)
  have len: "length (batchAttempts ?b) = n" "batchAttempts (batches c ! i) \<noteq> []"
    using assms(1) by (auto simp: working_def complete_batch_def set_last_attempt_def)
  then have "committed (?e # eLog c) ?b"
    by (auto simp: committed_def complete_batch_def set_last_attempt_def last_list_update)
  then have inv: "batch_inv (?e # eLog c) ?b" using len(1) assms(2) by (simp add: batch_inv_def)
  have "base (done_core i k changed commit p c)"
    unfolding done_core_def by (rule base_batch [OF c1]) (use inv in simp)
  moreover have "frame_batches bs i (done_core i k changed commit p c)"
    unfolding done_core_def
    by (rule frame_on_batch)
      (use assms(1) in \<open>simp_all add: working_def complete_batch_def set_last_attempt_def\<close>)
  ultimately show ?thesis
    using len(1) i by (simp add: done_post_def done_core_def) (simp add: complete_batch_def)
qed

lemma done_post_result:
  assumes "st r0 c s" "done_post bs i n c"
  shows "post bs i n r0 AttemptSucceeded s" "out_ok r0 c out \<Longrightarrow> post bs i n r0 (AttemptStopped out) s"
  using assms by (auto simp: post_def attempt_post_def done_post_def)

lemma done_post_persist: "done_post bs i n c \<Longrightarrow> done_post bs i n (after_persist c err)"
  by (simp add: done_post_def base_persist)

lemma wp_after_commit:
  assumes "st r0 c s" "done_post bs i n c"
  shows "wp (after_commit P) (post bs i n r0) s"
  unfolding after_commit_def
proof (rule wp_bind, rule wp_persisted [OF assms(1)], rule wp_bind, rule wp_stop_for_context [OF assms(1)])
  show "wp (case Some out of None \<Rightarrow> get_persisted \<bind> (\<lambda>p. stop_for_rail P p \<bind> (\<lambda>out. case out of
        None \<Rightarrow> State_Monad.return AttemptSucceeded | Some out \<Rightarrow> State_Monad.return (AttemptStopped out)))
      | Some out \<Rightarrow> State_Monad.return (AttemptStopped out)) (post bs i n r0) s'"
    if "st r0 c s'" "outKind out \<noteq> OutcomeReady" "outPlan out = ePersisted c"
      "outIterations out = iterations (fst r0) + int (admits (eLog c))" for out s'
    using done_post_result(2) [OF that(1) assms(2)] that by (simp add: wp_return out_ok_def)
  show "wp (case None of None \<Rightarrow> get_persisted \<bind> (\<lambda>p. stop_for_rail P p \<bind> (\<lambda>out. case out of
        None \<Rightarrow> State_Monad.return AttemptSucceeded | Some out \<Rightarrow> State_Monad.return (AttemptStopped out)))
      | Some out \<Rightarrow> State_Monad.return (AttemptStopped out)) (post bs i n r0) s'" if s': "st r0 c s'" for s'
    unfolding option.case
    by (rule wp_bind, rule wp_persisted [OF s'], rule wp_bind, rule wp_stop_for_rail [OF s'])
      (auto intro!: wp_return done_post_result [OF _ assms(2)] simp: out_ok_def)
qed

lemma wp_record_commit:
  fixes s :: "'w engine"
  assumes "st r0 (record_event (EvCommit (primaryFile (batches c ! i)) p (Inr commit)) c) s"
    "working bs i n c" "n \<le> 2" "commit_ready (primaryFile (batches c ! i)) p (eLog c)"
  shows "wp (record_commit P i k changed commit) (post bs i n r0) s"
proof -
  define d where "d = done_core i k changed commit p c"
  note dp = done_core_post [OF assms(2-4), of k changed commit, folded d_def]
  have undo: "wp (undo_commit P commit e) (post bs i n r0) s'"
    if s': "st r0 (after_persist d (Some e)) s'" for e and s' :: "'w engine"
    unfolding undo_commit_def
  proof (rule wp_if)
    show "wp (stopped P OutcomeErrored (''write completed plan: '' @ pweText e)) (post bs i n r0) s'"
      by (rule wp_stopped [OF s']) (simp_all add: done_post_result(2) [OF _ done_post_persist [OF dp]])
  next
    assume np: "\<not> pwePublished e"
    let ?c = "\<lambda>r. record_event (EvRollback commit r) (after_persist d (Some e))"
    have "rollback_due commit (eLog (after_persist d (Some e)))"
      using np by (auto simp: rollback_due_def d_def done_core_def)
    then have "done_post bs i n (?c r)" for r
      using done_post_persist [OF dp, of "Some e"] by (simp add: done_post_def base_event)
    then have stop: "post bs i n r0 (AttemptStopped out) s''"
      if "st r0 (?c r) s''" "out_ok r0 (?c r) out" for out r and s'' :: "'w engine"
      using done_post_result(2) [OF that(1)] that(2) by blast
    show "wp (call (pRollbackBatch P commit) (EvRollback commit) \<bind> (\<lambda>rollback. case rollback of
              None \<Rightarrow> stopped P OutcomeErrored (''write completed plan: '' @ pweText e)
            | Some r \<Rightarrow> stopped P OutcomeErrored
                (''write completed plan: '' @ pweText e @ ''; rollback committed batch: '' @ r))) (post bs i n r0) s'"
      by (rule wp_bind, rule wp_call [OF s'], simp, rule wp_option; erule wp_stopped; simp add: stop)
  qed
  show ?thesis
    unfolding record_commit_def
    by (rule wp_bind, rule wp_modify [OF assms(1)], simp, rule wp_bind, rule wp_persist,
        simp add: done_core_def [symmetric] d_def [symmetric], rule wp_option)
      (auto intro: undo wp_after_commit done_post_persist [OF dp])
qed

lemma wp_run_commit:
  fixes s :: "'w engine"
  assumes "st r0 c s" "working bs i n c" "n \<le> 2" "commit_ready (primaryFile (batches c ! i)) p (eLog c)"
  shows "wp (run_commit P i k changed p) (post bs i n r0) s"
  unfolding run_commit_def
proof (rule wp_bind, rule wp_the_batch [OF assms(1)], rule wp_bind, rule wp_call [OF assms(1)], simp, rule wp_sum)
  fix answer and s1 :: "'w engine" and e
  let ?c = "record_event (EvCommit (primaryFile (batches c ! i)) p answer) c"
  assume s1: "st r0 ?c s1"
  have w: "working bs i n ?c" by (rule working_event [OF assms(2)]) (use assms(4) in simp_all)
  show "wp (stopping (checkpoint_context P i k)
      (State_Monad.return (infrastructure_failure (''commit batch: '' @ e) True []))) (post bs i n r0) s1"
    by (rule wp_guarded(2) [OF s1 w], rule wp_return, rule post_failed(2) [OF _ w])
  fix commit
  assume "answer = Inr commit"
  with s1 show "wp (record_commit P i k changed commit) (post bs i n r0) s1"
    using wp_record_commit [OF _ assms(2-4)] by simp
qed

lemma wp_run_judge:
  fixes s :: "'w engine"
  assumes s: "st r0 c s" and w: "working bs i n c" and n: "n \<le> 2"
    and ready: "vKind v = ValidationPassed \<Longrightarrow> vFailure v = [] \<Longrightarrow> vFindings v = [] \<Longrightarrow>
      proof_present (vProof v) \<Longrightarrow> commit_ready (primaryFile (batches c ! i)) (vProof v) (eLog c)"
  shows "wp (run_judge P i k changed v) (post bs i n r0) s"
proof -
  have fail: "wp (State_Monad.return (infrastructure_failure f b fs)) (post bs i n r0) s" for f b fs
    by (rule wp_return, rule post_failed(2) [OF s w])
  have semantic: "wp (modify_core (\<lambda>c. c\<lparr>eSemantic := (eSemantic c)(i \<mapsto> vFindings v)\<rparr>) \<bind>
      (\<lambda>_. State_Monad.return (SemanticFailure f False))) (post bs i n r0) s" for f
    by (rule wp_bind, rule wp_modify [OF s], simp, rule wp_return, erule post_failed(1))
      (simp add: working_semantic w)
  have pass: "wp (modify_core (\<lambda>c. c\<lparr>eSemantic := (eSemantic c)(i := None)\<rparr>) \<bind>
      (\<lambda>_. stopping (checkpoint P i k) (run_commit P i k changed (vProof v)))) (post bs i n r0) s"
    if "commit_ready (primaryFile (batches c ! i)) (vProof v) (eLog c)"
    by (rule wp_bind, rule wp_modify [OF s], simp, erule wp_guarded(1), simp add: working_semantic w,
        erule wp_run_commit) (simp_all add: working_semantic w n that)
  show ?thesis
    unfolding run_judge_def
  proof (rule wp_sum, rule fail, rule wp_option)
    assume "validate_attempt_result (pQuote P) v = None"
    then have ready': "vKind v = ValidationPassed \<Longrightarrow> commit_ready (primaryFile (batches c ! i)) (vProof v) (eLog c)"
      and known: "vKind v = ValidationOther q \<Longrightarrow> False" for q
      using ready by (auto simp: validate_attempt_result_def split: if_splits)
    show "wp (case vKind v of
          ValidationSemanticFailure \<Rightarrow> modify_core (\<lambda>c. c\<lparr>eSemantic := (eSemantic c)(i \<mapsto> vFindings v)\<rparr>) \<bind>
            (\<lambda>_. State_Monad.return (SemanticFailure (bounded_failure (vFailure v)) False))
        | ValidationInfrastructureFailure \<Rightarrow>
            State_Monad.return (infrastructure_failure (vFailure v) True (vFindings v))
        | _ \<Rightarrow> modify_core (\<lambda>c. c\<lparr>eSemantic := (eSemantic c)(i := None)\<rparr>) \<bind>
            (\<lambda>_. stopping (checkpoint P i k) (run_commit P i k changed (vProof v)))) (post bs i n r0) s"
      by (cases "vKind v") (use ready' known in \<open>auto simp: semantic fail pass\<close>)
  qed (rule fail)
qed

lemma wp_run_validate:
  fixes s :: "'w engine"
  assumes s: "st r0 c s" and w: "working bs i n c" and n: "n \<le> 2"
    and prep: "eLog c = EvPrepare changed (Inr p) # l" "changed \<noteq> []"
  shows "wp (run_validate P i k changed p) (post bs i n r0) s"
  unfolding run_validate_def
proof (rule wp_bind, rule wp_the_batch [OF s], rule wp_bind, rule wp_call [OF s], simp,
    rule wp_bind, erule wp_call, simp, rule wp_option)
  fix v verified and s1 s2 :: "'w engine"
  let ?b = "batches c ! i"
  let ?c = "record_event (EvVerify p verified) (record_event (EvValidate (?b\<lparr>batchProof := p\<rparr>) v) c)"
  assume s2: "st r0 ?c s2"
  have w2: "working bs i n ?c" by (intro working_event w) simp_all
  show "wp (stopping (checkpoint P i k) (run_judge P i k changed
      (v\<lparr>vProof := (if vKind v = ValidationPassed then p else no_proof)\<rparr>))) (post bs i n r0) s2"
    if "verified = None"
    by (rule wp_guarded(1) [OF s2 w2], erule wp_run_judge [OF _ w2 n])
      (use prep that in \<open>auto simp: commit_ready_def\<close>)
  fix e
  show "wp (ctx_done P \<bind> (\<lambda>ended.
      let failure = bounded_failure (''verify batch proof: '' @ e);
          v' = \<lparr>vKind = ValidationInfrastructureFailure, vFailure = failure, vFindings = [],
                vChangedFiles = changed, vProof = no_proof\<rparr>
      in if ended \<noteq> None then State_Monad.return (infrastructure_failure failure False [])
         else stopping (checkpoint P i k) (run_judge P i k changed v'))) (post bs i n r0) s2"
    unfolding Let_def
  proof (rule wp_bind, rule wp_ctx_done [OF s2], rule wp_if)
    fix s3 :: "'w engine"
    assume s3: "st r0 ?c s3"
    show "wp (State_Monad.return (infrastructure_failure (bounded_failure (''verify batch proof: '' @ e)) False []))
        (post bs i n r0) s3"
      by (rule wp_return, rule post_failed(2) [OF s3 w2])
    show "wp (stopping (checkpoint P i k) (run_judge P i k changed
        \<lparr>vKind = ValidationInfrastructureFailure, vFailure = bounded_failure (''verify batch proof: '' @ e),
         vFindings = [], vChangedFiles = changed, vProof = no_proof\<rparr>)) (post bs i n r0) s3"
      by (rule wp_guarded(1) [OF s3 w2], erule wp_run_judge [OF _ w2 n]) simp
  qed
qed

lemma wp_run_changes:
  fixes s :: "'w engine"
  assumes s: "st r0 c s" and w: "working bs i n c" and n: "n \<le> 2"
  shows "wp (run_changes P i k) (post bs i n r0) s"
  unfolding run_changes_def
proof (rule wp_bind, rule wp_call [OF s], simp)
  fix answer and s1 :: "'w engine"
  assume s1: "st r0 (record_event (EvChangedFiles answer) c) s1"
  have w1: "working bs i n (record_event (EvChangedFiles answer) c)" by (intro working_event w) simp_all
  have "wp (call (pPrepareBatch P changed) (EvPrepare changed) \<bind> (\<lambda>prepared.
        stopping (checkpoint_context P i k)
          (case prepared of
             Inl e \<Rightarrow> State_Monad.return (infrastructure_failure (''prepare batch proof: '' @ e) True [])
           | Inr p \<Rightarrow> run_validate P i k changed p))) (post bs i n r0) s2"
    if s2: "st r0 (record_event (EvChangedFiles answer) c) s2" and ne: "changed \<noteq> []"
    for changed and s2 :: "'w engine"
  proof (rule wp_bind, rule wp_call [OF s2], simp)
    fix prepared and s3 :: "'w engine"
    let ?c = "record_event (EvPrepare changed prepared) (record_event (EvChangedFiles answer) c)"
    assume s3: "st r0 ?c s3"
    have w3: "working bs i n ?c" by (intro working_event w) simp_all
    show "wp (stopping (checkpoint_context P i k)
          (case prepared of
             Inl e \<Rightarrow> State_Monad.return (infrastructure_failure (''prepare batch proof: '' @ e) True [])
           | Inr p \<Rightarrow> run_validate P i k changed p)) (post bs i n r0) s3"
      by (rule wp_guarded(2) [OF s3 w3], rule wp_sum, rule wp_return, erule post_failed(2) [OF _ w3],
          erule wp_run_validate [OF _ w3 n]) (use ne in simp_all)
  qed
  note prepare = this
  show "wp (stopping (checkpoint P i k) (case answer of
          Inl e \<Rightarrow> State_Monad.return (infrastructure_failure (''inspect changed files: '' @ e) True [])
        | Inr changed \<Rightarrow>
            if changed = [] then State_Monad.return (SemanticFailure ''agent produced no worktree changes'' False)
            else call (pPrepareBatch P changed) (EvPrepare changed) \<bind> (\<lambda>prepared.
              stopping (checkpoint_context P i k)
                (case prepared of
                   Inl e \<Rightarrow> State_Monad.return (infrastructure_failure (''prepare batch proof: '' @ e) True [])
                 | Inr p \<Rightarrow> run_validate P i k changed p)))) (post bs i n r0) s1"
    by (rule wp_guarded(1) [OF s1 w1], rule wp_sum, rule wp_return, erule post_failed(2) [OF _ w1],
        rule wp_if, rule wp_return, erule post_failed(1) [OF _ w1], erule prepare)
qed

lemma wp_run_agent:
  fixes s :: "'w engine"
  assumes s: "st r0 c s" and w: "working bs i n c" and n: "n \<le> 2"
    and clean: "\<not> dirty (eLog c)" "agent_runs (eLog c) < admits (eLog c)"
  shows "wp (run_agent P i k brief sink git) (post bs i n r0) s"
  unfolding run_agent_def
proof (rule wp_bind, rule wp_call [OF s], simp, rule wp_bind, erule wp_call, simp, rule wp_option)
  fix agent integrity and s2 :: "'w engine"
  let ?c = "record_event (EvCheckGit integrity) (record_event (EvAdapterRun i k) c)"
  assume s2: "st r0 ?c s2"
  have w2: "working bs i n ?c" by (intro working_event w) (simp_all add: clean)
  show "wp (let failure = bounded_failure (''check Git state: '' @ gitText g)
      in if \<not> gitRestored g then State_Monad.return (infrastructure_failure failure False [])
         else State_Monad.return (SemanticFailure failure True)) (post bs i n r0) s2" for g
    unfolding Let_def by (intro wp_if wp_return post_failed [OF s2 w2])
  show "wp (stopping (checkpoint P i k) (case agent of
        None \<Rightarrow> run_changes P i k
      | Some a \<Rightarrow> State_Monad.return (infrastructure_failure (''adapter: '' @ adText a) (adRetryable a) [])))
      (post bs i n r0) s2"
    by (rule wp_guarded(1) [OF s2 w2], rule wp_option, erule wp_run_changes [OF _ w2 n],
        rule wp_return, erule post_failed(2) [OF _ w2])
qed

text \<open>Before the agent runs the workspace is clean and an admitted attempt is unused.\<close>

definition ready :: "batch list \<Rightarrow> nat \<Rightarrow> nat \<Rightarrow> core \<Rightarrow> bool" where
  "ready bs i n c \<longleftrightarrow> working bs i n c \<and> \<not> dirty (eLog c) \<and> agent_runs (eLog c) < admits (eLog c)"

fun is_quiet :: "event \<Rightarrow> bool" where
  "is_quiet (EvWriteBrief _ _ _ _) = True"
| "is_quiet (EvAdapterSink _ _ _) = True"
| "is_quiet (EvSnapshotGit _) = True"
| "is_quiet _ = False"

lemma ready_event: "ready bs i n c \<Longrightarrow> is_quiet e \<Longrightarrow> ready bs i n (record_event e c)"
  unfolding ready_def by (cases e) (auto intro: working_event)

lemma ready_persist: "ready bs i n c \<Longrightarrow> ready bs i n (after_persist c err)"
  by (simp add: ready_def working_persist)

lemma ready_working: "ready bs i n c \<Longrightarrow> working bs i n c"
  by (simp add: ready_def)

definition start_attempt :: "nat \<Rightarrow> batch \<Rightarrow> batch" where
  "start_attempt k b = b\<lparr>batchStatus := BatchRunning, batchAttempts := batchAttempts b @
     [\<lparr>attNumber = k, attStatus = AttemptRunning, attFailure = [], attChangedFiles = [], attCommit = []\<rparr>]\<rparr>"

lemma start_ready:
  assumes "base c" "i < length (batches c)" "Suc (length (batchAttempts (batches c ! i))) = n" "n \<le> 2"
    "\<not> dirty (eLog c)" "agent_runs (eLog c) < admits (eLog c)"
  shows "ready (batches c) i n (on_batch i (start_attempt k) c)"
proof -
  have "base (on_batch i (start_attempt k) c)"
    by (rule base_batch [OF assms(1)]) (use assms(3,4) in \<open>simp add: batch_inv_def start_attempt_def\<close>)
  moreover have "frame_batches (batches c) i (on_batch i (start_attempt k) c)"
    using assms(2) by (intro frame_on_batch) (simp_all add: frame_batches_def start_attempt_def)
  ultimately show ?thesis using assms(2,3,5,6)
    by (auto simp: ready_def working_def start_attempt_def)
qed

lemma wp_ready_call:
  fixes s :: "'w engine"
  assumes "st r0 c s" "ready bs i n c" "\<And>a. is_quiet (ev a)"
    "\<And>a c' s'. st r0 c' s' \<Longrightarrow> ready bs i n c' \<Longrightarrow> Q a s'"
  shows "wp (call f ev) Q s"
proof (rule wp_call [OF assms(1)])
  show "\<not> counted (ev a)" for a using assms(3) [of a] by (cases "ev a") auto
  show "Q a s'" if "st r0 (record_event (ev a) c) s'" for a s'
    by (rule assms(4) [OF that], rule ready_event [OF assms(2,3)])
qed

lemma wp_ready_guard:
  fixes s :: "'w engine"
  assumes "st r0 c s" "ready bs i n c" "\<And>s'. st r0 c s' \<Longrightarrow> wp rest (post bs i n r0) s'"
  shows "wp (stopping (checkpoint P i k) rest) (post bs i n r0) s"
  by (rule wp_guarded(1) [OF assms(1) ready_working [OF assms(2)] assms(3)])

lemma post_ready_failed:
  "st r0 c s \<Longrightarrow> ready bs i n c \<Longrightarrow> wp (State_Monad.return (infrastructure_failure f b fs)) (post bs i n r0) s"
  by (rule wp_return, erule post_failed(2), erule ready_working)

lemma wp_ready_agent:
  fixes s :: "'w engine"
  assumes "st r0 c s" "ready bs i n c" "n \<le> 2"
  shows "wp (run_agent P i k brief sink git) (post bs i n r0) s"
  using assms by (intro wp_run_agent) (auto simp: ready_def)

lemma wp_run_attempt:
  fixes s :: "'w engine"
  assumes s: "st r0 c s" and pre: "base c" "i < length (batches c)"
    "Suc (length (batchAttempts (batches c ! i))) = n" and n: "n \<le> 2"
    and clean: "\<not> dirty (eLog c)" "agent_runs (eLog c) < admits (eLog c)"
  shows "wp (run_attempt P rq i k retry) (post (batches c) i n r0) s"
  unfolding run_attempt_def start_attempt_def [symmetric]
  apply (rule wp_bind, rule wp_modify [OF s], simp, rule wp_bind, erule wp_persist, rule wp_option)
  subgoal for s1 err s2
    apply (erule wp_ready_guard, rule ready_persist, rule start_ready [OF pre n clean])
    apply (rule wp_bind, rule wp_the_batch, assumption, rule wp_sum, erule post_ready_failed, rule ready_persist,
        rule start_ready [OF pre n clean])
    apply (rule wp_bind, erule wp_ready_call, rule ready_persist, rule start_ready [OF pre n clean], simp,
        rule wp_option)
     apply (erule wp_ready_guard, assumption)
     apply (rule wp_bind, erule wp_ready_call, assumption, simp, rule wp_sum, erule post_ready_failed, assumption)
     apply (erule wp_ready_guard, assumption)
     apply (rule wp_bind, erule wp_ready_call, assumption, simp)
     apply (erule wp_ready_guard, assumption, rule wp_sum, erule post_ready_failed, assumption)
     apply (erule wp_ready_agent, assumption, rule n)
    apply (erule post_ready_failed, assumption)
    done
  subgoal for s1 err s2 e
    by (erule post_ready_failed, rule ready_persist, rule start_ready [OF pre n clean])
  done

subsection \<open>A batch\<close>

text \<open>Between attempts: \<open>k\<close> attempts are recorded and the workspace is clean.\<close>

definition between :: "batch list \<Rightarrow> nat \<Rightarrow> nat \<Rightarrow> core \<Rightarrow> bool" where
  "between bs i k c \<longleftrightarrow> base c \<and> frame_batches bs i c \<and> length (batchAttempts (batches c ! i)) = k
     \<and> \<not> dirty (eLog c)"

definition batch_post :: "batch list \<Rightarrow> nat \<Rightarrow> ghost \<Rightarrow> outcome option \<Rightarrow> 'w engine \<Rightarrow> bool" where
  "batch_post bs i r0 out s \<longleftrightarrow> (\<exists>c. st r0 c s \<and> base c \<and> frame_batches bs i c
     \<and> (case out of
          None \<Rightarrow> \<not> dirty (eLog c) \<and> batchStatus (batches c ! i) \<in> {BatchDone, BatchStuck}
        | Some out \<Rightarrow> out_ok r0 c out))"

lemma batch_post_Some:
  "st r0 c s \<Longrightarrow> base c \<Longrightarrow> frame_batches bs i c \<Longrightarrow> out_ok r0 c out \<Longrightarrow> batch_post bs i r0 (Some out) s"
  by (auto simp: batch_post_def)

lemma frame_trans: "frame_batches (batches c) i c' \<Longrightarrow> frame_batches bs i c \<Longrightarrow> frame_batches bs i c'"
  by (simp add: frame_batches_def)

text \<open>An engine outcome over the persisted plan ends the batch.\<close>

lemma wp_stop_with:
  fixes s :: "'w engine"
  assumes "st r0 c s" "base c" "frame_batches bs i c" "k \<noteq> OutcomeReady"
    "\<And>out s'. batch_post bs i r0 (Some out) s' \<Longrightarrow> Q (Some out) s'"
  shows "wp (stop_with P k fs f) Q s"
  unfolding stop_with_def
  by (rule wp_bind, rule wp_persisted [OF assms(1)], rule wp_bind, rule wp_engine_outcome [OF assms(1)],
      rule wp_return, rule assms(5), erule batch_post_Some [OF _ assms(2,3)])
    (use assms(4) in \<open>simp add: out_ok_def\<close>)

lemma working_between: "working bs i n c \<Longrightarrow> \<not> dirty (eLog c) \<Longrightarrow> between bs i n c"
  by (simp add: working_def between_def)

lemma wp_abort_semantic:
  fixes s :: "'w engine"
  assumes "st r0 c s" "working bs i n c"
    "\<And>out s'. batch_post bs i r0 (Some out) s' \<Longrightarrow> Q (Some out) s'"
    "\<And>c' s'. st r0 c' s' \<Longrightarrow> between bs i n c' \<Longrightarrow>
       (k = 2 \<Longrightarrow> batchStatus (batches c' ! i) = BatchStuck) \<Longrightarrow> Q None s'"
  shows "wp (abort_semantic P i k f) Q s"
  unfolding abort_semantic_def
proof (rule wp_bind, rule wp_fail_and_reset [OF assms(1,2)], rule wp_option)
  fix err and c1 and s1 :: "'w engine"
  assume s1: "st r0 c1 s1" and w1: "working bs i n c1" and clean: "err = None \<Longrightarrow> \<not> dirty (eLog c1)"
  have b1: "base c1" "frame_batches bs i c1" using w1 by (simp_all add: working_def)
  show "wp (stop_with P OutcomeErrored [] r) Q s1" for r
    by (rule wp_stop_with [OF s1 b1]) (simp_all add: assms(3))
  assume none: "err = None"
  let ?c = "on_batch i (\<lambda>b. b\<lparr>batchStatus := BatchStuck\<rparr>) c1"
  have i: "i < length (batches c1)" using w1 by (rule working_index)
  have "base ?c"
    by (rule base_batch [OF b1(1)]) (use b1(1) i in \<open>simp add: base_def batch_inv_def\<close>)
  moreover have "frame_batches bs i ?c" by (rule frame_on_batch [OF b1(2)]) simp
  ultimately have c2: "base (after_persist ?c e)" "frame_batches bs i (after_persist ?c e)" for e
    by (simp_all add: base_persist)
  have stuck: "between bs i n (after_persist ?c e)"
    "batchStatus (batches (after_persist ?c e) ! i) = BatchStuck" for e
    using c2 w1 i clean none by (simp_all add: between_def working_def)
  have fresh: "between bs i n c1" by (rule working_between [OF w1 clean [OF none]])
  show "wp (if k = 2
      then modify_core (on_batch i (\<lambda>b. b\<lparr>batchStatus := BatchStuck\<rparr>)) \<bind>
        (\<lambda>_. persist P \<bind> (\<lambda>err. case err of None \<Rightarrow> State_Monad.return None
          | Some e \<Rightarrow> stop_with P OutcomeErrored [] (''write stuck plan: '' @ pweText e)))
      else State_Monad.return None) Q s1"
    apply (rule wp_if, rule wp_bind, rule wp_modify [OF s1], simp, rule wp_bind, erule wp_persist, rule wp_option)
      apply (rule wp_return, erule assms(4) [OF _ stuck])
     apply (erule wp_stop_with [OF _ c2], simp, erule assms(3))
    apply (rule wp_return, rule assms(4) [OF s1 fresh], simp)
    done
qed

lemma post_between:
  assumes "frame_batches bs i c0"
    "post (batches c0) i n r0 r s"
  shows "r = AttemptSucceeded \<Longrightarrow> batch_post bs i r0 None s"
    "r = AttemptStopped out \<Longrightarrow> batch_post bs i r0 (Some out) s"
    "r = SemanticFailure f b \<or> r = InfrastructureFailure f fs b \<Longrightarrow> \<exists>c. st r0 c s \<and> working bs i n c"
  using assms(2) frame_trans [OF _ assms(1)]
  by (auto simp: post_def attempt_post_def batch_post_def working_def)

lemma wp_after_attempt:
  fixes s :: "'w engine"
  assumes "frame_batches bs i c0" "post (batches c0) i n r0 r s"
    and retry: "\<And>f c' s'. number \<noteq> 2 \<Longrightarrow> st r0 c' s' \<Longrightarrow> between bs i n c' \<Longrightarrow>
      wp (k f) (batch_post bs i r0) s'"
  shows "wp (after_attempt P i number r k) (batch_post bs i r0) s"
proof (cases r)
  case AttemptSucceeded
  then show ?thesis using post_between(1) [OF assms(1,2)] by (simp add: after_attempt_def wp_return)
next
  case (AttemptStopped out)
  then show ?thesis using post_between(2) [OF assms(1,2)] by (simp add: after_attempt_def wp_return)
next
  case (SemanticFailure f b)
  then obtain c where c: "st r0 c s" "working bs i n c" using post_between(3) [OF assms(1,2)] by blast
  show ?thesis
    unfolding after_attempt_def SemanticFailure attempt_result.case
  proof (rule wp_bind, rule wp_abort_semantic [OF c], simp add: wp_return, simp only: option.case, rule wp_bind)
    fix c' and s' :: "'w engine"
    assume s': "st r0 c' s'" and bt: "between bs i n c'"
      and stuck: "number = 2 \<Longrightarrow> batchStatus (batches c' ! i) = BatchStuck"
    have base: "base c'" "frame_batches bs i c'" using bt by (simp_all add: between_def)
    have decide: "wp (if ended \<noteq> None then stop_with P OutcomeErrored [] f
         else if number = 2 then State_Monad.return None else k f) (batch_post bs i r0) s''"
      if s'': "st r0 c' s''" for ended and s'' :: "'w engine"
    proof (intro wp_if wp_return)
      show "wp (stop_with P OutcomeErrored [] f) (batch_post bs i r0) s''"
        by (rule wp_stop_with [OF s'' base]) simp_all
      show "batch_post bs i r0 None s''" if "number = 2"
        using s'' base bt stuck [OF that] by (auto simp: batch_post_def between_def)
      show "wp (k f) (batch_post bs i r0) s''" if "number \<noteq> 2" by (rule retry [OF that s'' bt])
    qed
    show "wp (if b then ctx_done P else State_Monad.return None) (\<lambda>ended.
        wp (if ended \<noteq> None then stop_with P OutcomeErrored [] f
         else if number = 2 then State_Monad.return None else k f) (batch_post bs i r0)) s'"
      by (rule wp_if, rule wp_ctx_done [OF s'], erule decide, rule wp_return, rule decide [OF s'])
  qed
next
  case (InfrastructureFailure f fs b)
  then obtain c where c: "st r0 c s" "working bs i n c" using post_between(3) [OF assms(1,2)] by blast
  show ?thesis
    unfolding after_attempt_def InfrastructureFailure attempt_result.case
  proof (rule wp_bind, rule wp_fail_and_reset [OF c], rule wp_option)
    fix err and c' and s' :: "'w engine"
    assume s': "st r0 c' s'" and w: "working bs i n c'" and clean: "err = None \<Longrightarrow> \<not> dirty (eLog c')"
    have base: "base c'" "frame_batches bs i c'" using w by (simp_all add: working_def)
    show "wp (stop_with P OutcomeErrored fs y) (batch_post bs i r0) s'" for y
      by (rule wp_stop_with [OF s' base]) simp_all
    show "wp (if \<not> b \<or> number = 2 then stop_with P OutcomeErrored fs f else k f) (batch_post bs i r0) s'"
      if "err = None"
      by (rule wp_if, rule wp_stop_with [OF s' base], simp_all)
        (rule retry [OF _ s' working_between [OF w clean [OF that]]], simp)
  qed
qed

text \<open>One attempt of the loop, given what the rest of the loop does.\<close>

lemma wp_attempt_step:
  fixes s :: "'w engine"
  assumes s: "st r0 c s" and b: "between bs i k c" and k: "k < 2"
    and rest: "\<And>f c' s'. number \<noteq> 2 \<Longrightarrow> st r0 c' s' \<Longrightarrow> between bs i (Suc k) c' \<Longrightarrow>
      wp (execute_attempts P rq i f numbers) (batch_post bs i r0) s'"
  shows "wp (execute_attempts P rq i retry (number # numbers)) (batch_post bs i r0) s"
proof -
  have base: "base c" "frame_batches bs i c" using b by (simp_all add: between_def)
  define d where "d = (record_event (EvAdmit i number) c)\<lparr>eSemantic := (eSemantic c)(i := None)\<rparr>"
  have d: "base d" "frame_batches bs i d" "\<not> dirty (eLog d)" "agent_runs (eLog d) < admits (eLog d)"
    "length (batchAttempts (batches d ! i)) = k" "i < length (batches d)"
    using b base_event [OF base(1), of "EvAdmit i number"]
    by (simp_all add: d_def between_def base_def frame_batches_def)
  have stop: "wp (State_Monad.return (Some out)) (batch_post bs i r0) s'"
    if "st r0 c' s'" "base c'" "frame_batches bs i c'" "outKind out \<noteq> OutcomeReady"
      "outPlan out = ePersisted c'" "outIterations out = iterations (fst r0) + int (admits (eLog c'))"
    for c' out and s' :: "'w engine"
    by (rule wp_return, rule batch_post_Some [OF that(1-3)]) (simp add: out_ok_def that(4-6))
  have attempt: "wp (run_attempt P rq i number retry \<bind> (\<lambda>result. after_attempt P i number result
      (\<lambda>failure. execute_attempts P rq i failure numbers))) (batch_post bs i r0) s'"
    if s': "st r0 d s'" for s' :: "'w engine"
  proof (rule wp_bind, rule wp_mono)
    show "wp (run_attempt P rq i number retry) (post (batches d) i (Suc k) r0) s'"
      by (rule wp_run_attempt [OF s' d(1,6)]) (use d k in simp_all)
  qed (rule wp_after_attempt [OF d(2) _ rest])
  show ?thesis
    unfolding execute_attempts.simps
    apply (rule wp_bind, rule wp_persisted [OF s], rule wp_bind, rule wp_stop_for_context [OF s])
     apply (simp only: option.case, rule wp_bind, rule wp_admit, assumption)
      apply (simp only: option.case, erule wp_stop_with [OF _ base rail_kind_not_ready(1)], assumption)
     apply (simp only: option.case, rule wp_bind, erule wp_modify, simp)
     apply (simp only: record_event_fields, fold d_def)
     apply (rule wp_bind, rule wp_persisted [where c = d], assumption, rule wp_bind,
        rule wp_stop_for_context [where c = d], assumption)
      apply (simp only: option.case, erule attempt)
     apply (simp only: option.case, erule stop [OF _ d(1,2)], assumption+)
    apply (simp only: option.case, erule stop [OF _ base], assumption+)
    done
qed

lemma wp_execute_batch:
  fixes s :: "'w engine"
  assumes "st r0 c s" "between bs i 0 c"
  shows "wp (execute_batch P rq i) (batch_post bs i r0) s"
  unfolding execute_batch_def
proof (rule wp_attempt_step [OF assms])
  fix f c' and s' :: "'w engine"
  assume "st r0 c' s'" "between bs i (Suc 0) c'"
  then show "wp (execute_attempts P rq i f [2]) (batch_post bs i r0) s'"
    by (rule wp_attempt_step) simp_all
qed simp

subsection \<open>A wave\<close>

text \<open>
  Batches before \<open>i\<close> are finished, those from \<open>i\<close> on untouched; all of the earlier waves are done, and
  so is the present one unless \<open>stuck\<close>.
\<close>

definition wave :: "nat \<Rightarrow> nat \<Rightarrow> nat \<Rightarrow> bool \<Rightarrow> core \<Rightarrow> bool" where
  "wave start i end stuck c \<longleftrightarrow> base c \<and> \<not> dirty (eLog c) \<and> length (batches c) = end
     \<and> start \<le> i \<and> i \<le> end
     \<and> (\<forall>j < i. batchStatus (batches c ! j) = BatchDone
          \<or> stuck \<and> start \<le> j \<and> batchStatus (batches c ! j) = BatchStuck)
     \<and> (\<forall>j. i \<le> j \<longrightarrow> j < end \<longrightarrow> batchAttempts (batches c ! j) = [])"

definition stopped_ok :: "ghost \<Rightarrow> outcome \<Rightarrow> 'w engine \<Rightarrow> bool" where
  "stopped_ok r0 out s \<longleftrightarrow> (\<exists>c. st r0 c s \<and> base c \<and> out_ok r0 c out)"

lemma out_ok_findings: "out_ok r0 c (out\<lparr>outFindings := fs\<rparr>) = out_ok r0 c out"
  by (simp add: out_ok_def)

lemma wave_step:
  assumes "wave start i end stuck c" "i < end" "frame_batches (batches c) i c'" "base c'"
    "\<not> dirty (eLog c')" "batchStatus (batches c' ! i) \<in> {BatchDone, BatchStuck}"
  shows "wave start (Suc i) end (stuck \<or> batchStatus (batches c' ! i) = BatchStuck) c'"
proof -
  have frame: "length (batches c') = end" "\<And>j. j < end \<Longrightarrow> j \<noteq> i \<Longrightarrow> batches c' ! j = batches c ! j"
    using assms(1,3) by (auto simp: frame_batches_def wave_def)
  have "batchStatus (batches c' ! j) = BatchDone
      \<or> (stuck \<or> batchStatus (batches c' ! i) = BatchStuck) \<and> start \<le> j \<and> batchStatus (batches c' ! j) = BatchStuck"
    if "j < Suc i" for j
  proof (cases "j = i")
    case True
    with assms(1,6) show ?thesis by (auto simp: wave_def)
  next
    case False
    with that assms(2) have "j < i" "j < end" by simp_all
    with frame(2) [of j] False assms(1) show ?thesis by (auto simp: wave_def)
  qed
  moreover have "batchAttempts (batches c' ! j) = []" if "Suc i \<le> j" "j < end" for j
    using that frame(2) [of j] assms(1) by (simp add: wave_def)
  ultimately show ?thesis using assms frame(1) by (simp add: wave_def)
qed

lemma wave_between: "wave start i end stuck c \<Longrightarrow> i < end \<Longrightarrow> between (batches c) i 0 c"
  by (simp add: wave_def between_def frame_batches_def)

lemma wp_execute_wave:
  fixes s :: "'w engine"
  assumes "st r0 c s" "wave start i end stuck c"
  shows "wp (execute_wave P rq stuck [i ..< end])
    (\<lambda>r s'. case r of Inl out \<Rightarrow> stopped_ok r0 out s'
       | Inr stuck' \<Rightarrow> \<exists>c'. st r0 c' s' \<and> wave start end end stuck' c') s"
  using assms
proof (induction "[i ..< end]" arbitrary: i stuck c s)
  case Nil
  from Nil(1) have "end \<le> i" by (metis le0 upt_eq_Nil_conv)
  with Nil have "i = end" by (simp add: wave_def)
  with Nil show ?case by simp (rule wp_return, auto)
next
  case (Cons j js)
  have ij: "j = i" "js = [Suc i ..< end]" "i < end"
    using upt_eq_Cons_conv [of i "end" j js] Cons.hyps(2) by auto
  have "wp (execute_batch P rq i \<bind> (\<lambda>out. case out of
      Some out \<Rightarrow> gets eCore \<bind> (\<lambda>c. State_Monad.return (Inl (out\<lparr>outFindings := outcome_findings c (outFindings out)\<rparr>)))
    | None \<Rightarrow> gets (the_batch i) \<bind> (\<lambda>b. execute_wave P rq (stuck \<or> batchStatus b = BatchStuck) [Suc i ..< end])))
    (\<lambda>r s'. case r of Inl out \<Rightarrow> stopped_ok r0 out s'
       | Inr stuck' \<Rightarrow> \<exists>c'. st r0 c' s' \<and> wave start end end stuck' c') s"
  proof (rule wp_bind, rule wp_mono [OF wp_execute_batch [OF Cons.prems(1) wave_between [OF Cons.prems(2) ij(3)]]])
    fix out and s' :: "'w engine"
    assume "batch_post (batches c) i r0 out s'"
    then obtain c' where c': "st r0 c' s'" "base c'" "frame_batches (batches c) i c'"
      and out: "case out of None \<Rightarrow> \<not> dirty (eLog c') \<and> batchStatus (batches c' ! i) \<in> {BatchDone, BatchStuck}
          | Some out \<Rightarrow> out_ok r0 c' out" by (auto simp: batch_post_def)
    show "wp (case out of
      Some out \<Rightarrow> gets eCore \<bind> (\<lambda>c. State_Monad.return (Inl (out\<lparr>outFindings := outcome_findings c (outFindings out)\<rparr>)))
    | None \<Rightarrow> gets (the_batch i) \<bind> (\<lambda>b. execute_wave P rq (stuck \<or> batchStatus b = BatchStuck) [Suc i ..< end]))
    (\<lambda>r s'. case r of Inl out \<Rightarrow> stopped_ok r0 out s'
       | Inr stuck' \<Rightarrow> \<exists>c'. st r0 c' s' \<and> wave start end end stuck' c') s'"
    proof (rule wp_option)
      show "wp (gets eCore \<bind> (\<lambda>c. State_Monad.return (Inl (y\<lparr>outFindings := outcome_findings c (outFindings y)\<rparr>))))
        (\<lambda>r s'. case r of Inl out \<Rightarrow> stopped_ok r0 out s'
           | Inr stuck' \<Rightarrow> \<exists>c'. st r0 c' s' \<and> wave start end end stuck' c') s'" if "out = Some y" for y
        by (rule wp_bind, rule wp_gets_core [OF c'(1)], rule wp_return)
          (use out that c' in \<open>auto simp: stopped_ok_def out_ok_findings\<close>)
      assume none: "out = None"
      with out have "wave start (Suc i) end (stuck \<or> batchStatus (batches c' ! i) = BatchStuck) c'"
        by (intro wave_step [OF Cons.prems(2) ij(3) c'(3,2)]) simp_all
      then show "wp (gets (the_batch i) \<bind> (\<lambda>b. execute_wave P rq (stuck \<or> batchStatus b = BatchStuck) [Suc i ..< end]))
        (\<lambda>r s'. case r of Inl out \<Rightarrow> stopped_ok r0 out s'
           | Inr stuck' \<Rightarrow> \<exists>c'. st r0 c' s' \<and> wave start end end stuck' c') s'"
        by (intro wp_bind wp_the_batch [OF c'(1)] Cons.hyps(1) [OF ij(2) c'(1)])
    qed
  qed
  then show ?case unfolding Cons.hyps(2) [symmetric] ij(1) by (simp add: ij(2) Cons.hyps(2))
qed

subsection \<open>The barrier\<close>

definition all_done :: "plan \<Rightarrow> bool" where
  "all_done p \<longleftrightarrow> (\<forall>b \<in> set (planBatches p). batchStatus b = BatchDone)"

text \<open>The end of the history of a ready outcome: a clean barrier, then the plan on disk.\<close>

definition ready_end :: "outcome \<Rightarrow> event list \<Rightarrow> bool" where
  "ready_end out l \<longleftrightarrow> (\<exists>v l'. l = EvWritePlan (outPlan out) None # EvBarrier v # l'
     \<and> vKind v = ValidationPassed \<and> vFindings v = [])"

definition final_ok :: "ghost \<Rightarrow> core \<Rightarrow> outcome \<Rightarrow> bool" where
  "final_ok r0 c out \<longleftrightarrow> base c \<and> outPlan out = ePersisted c
     \<and> outIterations out = iterations (fst r0) + int (admits (eLog c))
     \<and> (outKind out = OutcomeReady \<longrightarrow> all_done (outPlan out) \<and> ready_end out (eLog c)
          \<and> outFindings out = [] \<and> outFailure out = [])"

lemma out_ok_final: "base c \<Longrightarrow> out_ok r0 c out \<Longrightarrow> final_ok r0 c out"
  by (simp add: final_ok_def out_ok_def)

text \<open>Right after the barrier's answer \<open>v\<close>.\<close>

definition at_barrier :: "nat \<Rightarrow> bool \<Rightarrow> validation_result \<Rightarrow> core \<Rightarrow> bool" where
  "at_barrier end stuck v c \<longleftrightarrow> base c \<and> \<not> dirty (eLog c) \<and> length (batches c) = end
     \<and> (\<not> stuck \<longrightarrow> all_done (ePlan c)) \<and> (\<exists>l. eLog c = EvBarrier v # l)"

lemma wave_barrier:
  assumes "wave start end end stuck c"
  shows "at_barrier end stuck v (record_event (EvBarrier v) c)"
proof -
  have "all_done (ePlan c)" if "\<not> stuck"
    using assms that unfolding all_done_def wave_def by (metis in_set_conv_nth)
  with assms show ?thesis by (simp add: at_barrier_def wave_def base_event)
qed

lemma classify_ready:
  assumes "classify_barrier P v before stuck = Inl (OutcomeReady, f)"
  shows "vKind v = ValidationPassed \<and> vFindings v = [] \<and> \<not> stuck \<and> f = []"
proof -
  have "vFindings v = []" if "blocking_multiset (vFindings v) = Inr []"
    using that unfolding blocking_multiset_Inr by (metis map_is_Nil_conv mset_sort_by mset_zero_iff)
  with assms show ?thesis
    by (auto simp: classify_barrier_def validate_barrier_result_def
        split: sum.splits option.splits if_splits validation_kind.splits)
qed

lemma bounded_failure_Nil [simp]: "bounded_failure [] = []"
  by (simp add: bounded_failure_def to_valid_utf8_def Let_def)

lemma wp_evaluate_barrier:
  fixes s :: "'w engine"
  assumes s: "st r0 c s" and b: "at_barrier end stuck v c"
  shows "wp (evaluate_barrier P v before stuck) (\<lambda>r s'. \<exists>c'. st r0 c' s' \<and> base c' \<and> (case r of
      BarrierStop out \<Rightarrow> final_ok r0 c' out
    | BarrierContinue after \<Rightarrow> \<not> dirty (eLog c') \<and> length (batches c') = end \<and> all_done (ePlan c'))) s"
    (is "wp _ ?Q s")
proof -
  have base: "base (after_persist c err)" for err
    using b by (simp add: at_barrier_def base_persist)
  have stop: "?Q (BarrierStop out) s'"
    if "st r0 (after_persist c err) s'" "final_ok r0 (after_persist c err) out" for err out and s' :: "'w engine"
    using that base by auto
  have decided: "wp (persist P \<bind> (\<lambda>err. case err of
      Some e \<Rightarrow> get_persisted \<bind> (\<lambda>p. engine_outcome P OutcomeErrored p fs (''write barrier plan: '' @ pweText e) \<bind>
        (\<lambda>out. State_Monad.return (BarrierStop out)))
    | None \<Rightarrow> (case d of
        Inl c \<Rightarrow> get_persisted \<bind> (\<lambda>p. context_outcome P c p \<bind>
          (\<lambda>out. State_Monad.return (BarrierStop (out\<lparr>outFindings := fs\<rparr>))))
      | Inr (Inl (kind, failure)) \<Rightarrow> get_persisted \<bind> (\<lambda>p. engine_outcome P kind p
          (if kind = OutcomeReady then [] else fs) failure \<bind> (\<lambda>out. State_Monad.return (BarrierStop out)))
      | Inr (Inr after) \<Rightarrow> State_Monad.return (BarrierContinue after)))) ?Q s'"
    if s': "st r0 c s'" and d: "\<And>f. d = Inr (Inl (OutcomeReady, f)) \<Longrightarrow>
        vKind v = ValidationPassed \<and> vFindings v = [] \<and> \<not> stuck \<and> f = []"
      "\<And>a. d = Inr (Inr a) \<Longrightarrow> \<not> stuck" for s' :: "'w engine" and d fs
  proof (rule wp_bind, rule wp_persist [OF s'], rule wp_option)
    fix err and s2 :: "'w engine"
    assume s2: "st r0 (after_persist c err) s2"
    show "wp (get_persisted \<bind> (\<lambda>p. engine_outcome P OutcomeErrored p fs (''write barrier plan: '' @ pweText e) \<bind>
        (\<lambda>out. State_Monad.return (BarrierStop out)))) ?Q s2" for e
      by (rule wp_bind, rule wp_persisted [OF s2], rule wp_bind, rule wp_engine_outcome [OF s2], rule wp_return,
          erule stop) (simp add: final_ok_def base)
    assume err: "err = None"
    show "wp (case d of
        Inl c \<Rightarrow> get_persisted \<bind> (\<lambda>p. context_outcome P c p \<bind>
          (\<lambda>out. State_Monad.return (BarrierStop (out\<lparr>outFindings := fs\<rparr>))))
      | Inr (Inl (kind, failure)) \<Rightarrow> get_persisted \<bind> (\<lambda>p. engine_outcome P kind p
          (if kind = OutcomeReady then [] else fs) failure \<bind> (\<lambda>out. State_Monad.return (BarrierStop out)))
      | Inr (Inr after) \<Rightarrow> State_Monad.return (BarrierContinue after)) ?Q s2"
    proof (rule wp_sum)
      show "wp (get_persisted \<bind> (\<lambda>p. context_outcome P e p \<bind>
          (\<lambda>out. State_Monad.return (BarrierStop (out\<lparr>outFindings := fs\<rparr>))))) ?Q s2" for e
        by (rule wp_bind, rule wp_persisted [OF s2], rule wp_bind, rule wp_context_outcome [OF s2], rule wp_return,
            erule stop) (simp add: final_ok_def base)
      fix e assume e: "d = Inr e"
      show "wp (case e of Inl (kind, failure) \<Rightarrow> get_persisted \<bind> (\<lambda>p. engine_outcome P kind p
          (if kind = OutcomeReady then [] else fs) failure \<bind> (\<lambda>out. State_Monad.return (BarrierStop out)))
        | Inr after \<Rightarrow> State_Monad.return (BarrierContinue after)) ?Q s2"
      proof (rule wp_sum, rule wp_prod)
        fix y kind failure
        assume y: "e = Inl y" "y = (kind, failure)"
        show "wp (get_persisted \<bind> (\<lambda>p. engine_outcome P kind p (if kind = OutcomeReady then [] else fs) failure \<bind>
            (\<lambda>out. State_Monad.return (BarrierStop out)))) ?Q s2"
        proof (rule wp_bind, rule wp_persisted [OF s2], rule wp_bind, rule wp_engine_outcome [OF s2], rule wp_return,
            erule stop)
          fix out :: outcome
          assume o: "outKind out = kind" "outPlan out = ePersisted (after_persist c err)"
            "outFindings out = (if kind = OutcomeReady then [] else fs)"
            "outIterations out = iterations (fst r0) + int (admits (eLog (after_persist c err)))"
            "outFailure out = bounded_failure failure"
          have "kind = OutcomeReady \<Longrightarrow> vKind v = ValidationPassed \<and> vFindings v = [] \<and> \<not> stuck \<and> failure = []"
            using d(1) e y by blast
          then show "final_ok r0 (after_persist c err) out"
            using b o base err by (auto simp: final_ok_def ready_end_def at_barrier_def published_def)
        qed
      next
        fix a assume "e = Inr a"
        with d(2) e have "\<not> stuck" by blast
        then show "wp (State_Monad.return (BarrierContinue a)) ?Q s2"
          by (intro wp_return exI [of _ "after_persist c err"]) (use s2 base b in \<open>simp add: at_barrier_def\<close>)
      qed
    qed
  qed
  show ?thesis
    unfolding evaluate_barrier_def
    apply (rule wp_bind, rule wp_gets_of_core [OF s], rule wp_bind, rule wp_ctx_done [OF s], rule wp_bind, rule wp_option)
     apply (rule wp_bind, rule wp_rails, assumption, rule quiet_methods, rule wp_return, erule decided)
    subgoal for ended s1 err s2 f
      by (cases err) (auto dest: classify_ready)
    subgoal for ended s1 err s2 a
      by (cases err) (auto dest: classify_continue(4))
    apply (rule wp_return, erule decided; simp)
    done
qed

subsection \<open>The loop over waves\<close>

text \<open>The state between two waves, whose batches start at \<open>start\<close>.\<close>

definition wave_start :: "ghost \<Rightarrow> nat \<Rightarrow> 'w engine \<Rightarrow> bool" where
  "wave_start r0 start s \<longleftrightarrow> (\<exists>c. st r0 c s \<and> wave start start (length (batches c)) False c)"

definition finished :: "ghost \<Rightarrow> outcome \<Rightarrow> 'w engine \<Rightarrow> bool" where
  "finished r0 out s \<longleftrightarrow> (\<exists>c. st r0 c s \<and> final_ok r0 c out)"

lemma stopped_finished: "stopped_ok r0 out s \<Longrightarrow> finished r0 out s"
  by (auto simp: stopped_ok_def finished_def out_ok_final)

lemma finishedI: "st r0 c s \<Longrightarrow> base c \<Longrightarrow> out_ok r0 c out \<Longrightarrow> finished r0 out s"
  by (auto simp: finished_def out_ok_final)

lemma append_wave:
  assumes "base c" "\<not> dirty (eLog c)" "all_done (ePlan c)" "new_plan fs = Inr p"
  defines "c' \<equiv> c\<lparr>ePlan := (ePlan c)\<lparr>planBatches := batches c @ planBatches p\<rparr>\<rparr>"
  shows "wave (length (batches c)) (length (batches c)) (length (batches c')) False (after_persist c' None)"
    "base (after_persist c' err)"
proof -
  have new: "batchAttempts b = [] \<and> batchStatus b = BatchPending" if "b \<in> set (planBatches p)" for b
    using new_plan_batches(3) [OF assms(4) that] by (simp add: batch_shape_def)
  then have "\<forall>b \<in> set (planBatches p). batch_inv (eLog c) b" by (simp add: batch_inv_def)
  with assms(1) have "base c'" by (auto simp: base_def c'_def)
  then show b: "base (after_persist c' err)" for err by (rule base_persist)
  show "wave (length (batches c)) (length (batches c)) (length (batches c')) False (after_persist c' None)"
    unfolding wave_def
    using b [of None] assms(2,3) new by (auto simp: c'_def nth_append all_done_def)
qed

lemma wp_next_wave:
  fixes s :: "'w engine"
  assumes s: "st r0 c s" and b: "base c" "\<not> dirty (eLog c)" "all_done (ePlan c)"
  shows "wp (next_wave P v after) (\<lambda>r s'. case r of Inl out \<Rightarrow> finished r0 out s'
    | Inr (start, m) \<Rightarrow> wave_start r0 start s') s"
  unfolding next_wave_def
proof (rule wp_sum)
  show "wp (gets eCore \<bind> (\<lambda>c. engine_outcome P OutcomeErrored (ePersisted c) (outcome_findings c (vFindings v))
      (''create next plan wave: '' @ pPlanErrorText P e) \<bind> (\<lambda>out. State_Monad.return (Inl out))))
    (\<lambda>r s'. case r of Inl out \<Rightarrow> finished r0 out s' | Inr (start, m) \<Rightarrow> wave_start r0 start s') s" for e
    by (rule wp_bind, rule wp_gets_core [OF s], rule wp_bind, rule wp_engine_outcome [OF s], rule wp_return)
      (simp add: finishedI [OF _ b(1)] out_ok_def)
  fix p assume p: "new_plan (vFindings v) = Inr p"
  define d where "d = c\<lparr>ePlan := (ePlan c)\<lparr>planBatches := batches c @ planBatches p\<rparr>\<rparr>"
  note w = append_wave [OF b p, folded d_def]
  show "wp (gets (\<lambda>s. length (planBatches (ePlan (eCore s)))) \<bind> (\<lambda>start.
      modify_core (\<lambda>c. c\<lparr>ePlan := (ePlan c)\<lparr>planBatches := planBatches (ePlan c) @ planBatches p\<rparr>\<rparr>) \<bind> (\<lambda>_.
      persist P \<bind> (\<lambda>err. case err of
        None \<Rightarrow> State_Monad.return (Inr (start, after))
      | Some e \<Rightarrow> gets eCore \<bind> (\<lambda>c. engine_outcome P OutcomeErrored (ePersisted c)
          (outcome_findings c (vFindings v)) (''write next plan wave: '' @ pweText e) \<bind>
          (\<lambda>out. State_Monad.return (Inl out)))))))
    (\<lambda>r s'. case r of Inl out \<Rightarrow> finished r0 out s' | Inr (start, m) \<Rightarrow> wave_start r0 start s') s"
  proof (rule wp_bind, rule wp_gets_of_core [OF s], rule wp_bind, rule wp_modify [OF s], simp, rule wp_bind,
      fold d_def, erule wp_persist, rule wp_option)
    fix err and s2 :: "'w engine"
    assume s2: "st r0 (after_persist d err) s2"
    show "wp (State_Monad.return (Inr (length (batches c), after))) (\<lambda>r s'. case r of Inl out \<Rightarrow> finished r0 out s'
        | Inr (start, m) \<Rightarrow> wave_start r0 start s') s2" if "err = None"
      by (rule wp_return) (use s2 w(1) that in \<open>auto simp: wave_start_def\<close>)
    show "wp (gets eCore \<bind> (\<lambda>c. engine_outcome P OutcomeErrored (ePersisted c)
          (outcome_findings c (vFindings v)) (''write next plan wave: '' @ pweText e) \<bind>
          (\<lambda>out. State_Monad.return (Inl out)))) (\<lambda>r s'. case r of Inl out \<Rightarrow> finished r0 out s'
        | Inr (start, m) \<Rightarrow> wave_start r0 start s') s2" for e
      by (rule wp_bind, rule wp_gets_core [OF s2], rule wp_bind, rule wp_engine_outcome [OF s2], rule wp_return)
        (simp add: finishedI [OF _ w(2)] out_ok_def)
  qed
qed

lemma wp_with_findings:
  assumes "st r0 c s" "base c" "out_ok r0 c out" "\<And>out. finished r0 out s \<Longrightarrow> Q out s"
  shows "wp (with_findings out) Q s"
  unfolding with_findings_def
  by (rule wp_bind, rule wp_gets_core [OF assms(1)], rule wp_return, rule assms(4),
      rule finishedI [OF assms(1,2)]) (simp add: out_ok_findings assms(3))

text \<open>One wave meets at most one barrier, and exactly one when the loop goes on.\<close>

lemma wp_run_wave:
  fixes s :: "'w engine"
  assumes "wave_start r0 start s"
  shows "wp (run_wave P rq start before) (\<lambda>r s'. case r of
      Inl out \<Rightarrow> (\<exists>n \<le> Suc (snd r0). finished (fst r0, n) out s')
    | Inr (start', after) \<Rightarrow> wave_start (fst r0, Suc (snd r0)) start' s') s"
    (is "wp _ ?Q s")
proof -
  from assms obtain c where s: "st r0 c s" and w: "wave start start (length (batches c)) False c"
    by (auto simp: wave_start_def)
  have early: "?Q (Inl out) s'" if "finished r0 out s'" for out and s' :: "'w engine"
    using that by (auto intro!: exI [of _ "snd r0"])
  let ?g = "(fst r0, Suc (snd r0))"
  have late: "?Q (Inl out) s'" if "finished ?g out s'" for out and s' :: "'w engine"
    using that by auto
  have barrier: "wp (call (pBarrier P) EvBarrier \<bind> (\<lambda>v. evaluate_barrier P v before stuck \<bind>
      (\<lambda>decision. case decision of BarrierStop out \<Rightarrow> State_Monad.return (Inl out)
         | BarrierContinue after \<Rightarrow> next_wave P v after))) ?Q s'"
    if s': "st r0 d s'" and wd: "wave start end end stuck d" for d stuck "end" and s' :: "'w engine"
  proof (rule wp_bind, rule wp_barrier [OF s'], rule wp_bind, rule wp_mono, erule wp_evaluate_barrier,
      rule wave_barrier [OF wd])
    fix v r and s2 :: "'w engine"
    assume "\<exists>c'. st ?g c' s2 \<and> base c' \<and> (case r of
        BarrierStop out \<Rightarrow> final_ok ?g c' out
      | BarrierContinue after \<Rightarrow> \<not> dirty (eLog c') \<and> length (batches c') = end \<and> all_done (ePlan c'))"
    then obtain c' where c': "st ?g c' s2" "base c'" and r: "case r of
        BarrierStop out \<Rightarrow> final_ok ?g c' out
      | BarrierContinue after \<Rightarrow> \<not> dirty (eLog c') \<and> length (batches c') = end \<and> all_done (ePlan c')" by blast
    show "wp (case r of BarrierStop out \<Rightarrow> State_Monad.return (Inl out)
         | BarrierContinue after \<Rightarrow> next_wave P v after) ?Q s2"
    proof (cases r)
      case (BarrierStop out)
      with r c' have "finished ?g out s2" by (auto simp: finished_def)
      from late [OF this] BarrierStop show ?thesis by (simp add: wp_return)
    next
      case (BarrierContinue after)
      with r have "wp (next_wave P v after) (\<lambda>r s'. case r of Inl out \<Rightarrow> finished ?g out s'
          | Inr (start, m) \<Rightarrow> wave_start ?g start s') s2"
        by (intro wp_next_wave [OF c']) simp_all
      then have "wp (next_wave P v after) ?Q s2"
        by (rule wp_mono) (auto split: sum.splits)
      with BarrierContinue show ?thesis by simp
    qed
  qed
  have outs: "out_ok r0 d out" if "outKind out \<noteq> OutcomeReady" "outPlan out = ePersisted d"
    "outIterations out = iterations (fst r0) + int (admits (eLog d))" for out d
    using that by (simp add: out_ok_def)
  have ended: "wp (with_findings out \<bind> (\<lambda>out. State_Monad.return (Inl out))) ?Q s'"
    if "st r0 d s'" "base d" "out_ok r0 d out" for d out and s' :: "'w engine"
    by (rule wp_bind, rule wp_with_findings [OF that], rule wp_return, erule early)
  show ?thesis
    unfolding run_wave_def
    apply (rule wp_bind, rule wp_gets_of_core [OF s], rule wp_bind, rule wp_mono,
        rule wp_execute_wave [OF s w], rule wp_sum)
    subgoal for r s1 out
      by (rule wp_return) (use early [OF stopped_finished] in simp)
    subgoal premises prems for r s1 stuck
    proof -
      from prems obtain d where d: "st r0 d s1" "wave start (length (batches c)) (length (batches c)) stuck d"
        by auto
      then have base: "base d" by (simp add: wave_def)
      show ?thesis
        apply (rule wp_bind, rule wp_persisted [OF d(1)], rule wp_bind, rule wp_stop_for_context [OF d(1)])
         apply (simp only: option.case, rule wp_bind, rule wp_persisted, assumption, rule wp_bind,
            erule wp_stop_for_rail)
          apply (simp only: option.case, erule barrier [OF _ d(2)])
         apply (simp only: option.case, erule ended [OF _ base outs], assumption+)
        apply (simp only: option.case, erule ended [OF _ base outs], assumption+)
        done
    qed
    done
qed


lemma wp_run_waves:
  fixes s :: "'w engine"
  assumes "wave_start g start s" "counts_ok before"
  shows "case run_waves P rq start before s of
    (out, s') \<Rightarrow> \<exists>n \<le> snd g + Suc (counts_size before). finished (fst g, n) out s'"
  using assms
proof (induction P rq start before s arbitrary: g rule: run_waves.induct)
  case (1 P rq start before s)
  obtain r s' where run: "run_state (run_wave P rq start before) s = (r, s')"
    by (cases "run_state (run_wave P rq start before) s")
  from wp_run_wave [OF 1(2), of P rq before] run
  have step: "case r of Inl out \<Rightarrow> (\<exists>n \<le> Suc (snd g). finished (fst g, n) out s')
    | Inr (start', after) \<Rightarrow> wave_start (fst g, Suc (snd g)) start' s'"
    by (simp add: wp_def)
  show ?case
  proof (cases r)
    case (Inl out)
    with step obtain n where "n \<le> Suc (snd g)" "finished (fst g, n) out s'" by auto
    moreover from this have "n \<le> snd g + Suc (counts_size before)" by simp
    ultimately have "\<exists>n \<le> snd g + Suc (counts_size before). finished (fst g, n) out s'" by blast
    then show ?thesis using run Inl by (subst run_waves.simps) simp
  next
    case (Inr p)
    obtain start' after where p: "p = (start', after)" by (cases p)
    with step Inr have "wave_start (fst g, Suc (snd g)) start' s'" by simp
    moreover from run_wave_continue [of P rq start before s start' after s'] run Inr p
    have smaller: "strictly_shrinks after before" "counts_ok after" by simp_all
    ultimately have "case run_waves P rq start' after s' of
        (out, s') \<Rightarrow> \<exists>n \<le> Suc (snd g) + Suc (counts_size after). finished (fst g, n) out s'"
      using 1(1) [OF run [symmetric] Inr p [symmetric], of "(fst g, Suc (snd g))"] by simp
    moreover from shrinks_size [OF smaller(2) 1(3) smaller(1)]
    have "Suc (snd g) + Suc (counts_size after) \<le> snd g + Suc (counts_size before)" by simp
    ultimately show ?thesis
      using run Inr p order_trans by (subst run_waves.simps) (fastforce split: prod.splits)
  qed
qed

subsection \<open>Execute\<close>

lemma base_initial: "base initial_core" "\<not> dirty (eLog initial_core)"
  by (simp_all add: base_def initial_core_def empty_plan_def)

lemma initial_wave:
  assumes "new_plan fs = Inr p"
  defines "c \<equiv> initial_core\<lparr>ePlan := p\<rparr>"
  shows "base c" "base (after_persist c err)"
    "wave 0 0 (length (planBatches p)) False (after_persist c None)"
proof -
  have all: "batchAttempts b = [] \<and> batchStatus b = BatchPending" if "b \<in> set (planBatches p)" for b
    using new_plan_batches(3) [OF assms(1) that] by (simp add: batch_shape_def)
  then have "\<forall>b \<in> set (planBatches p). batch_inv [] b" by (simp add: batch_inv_def)
  then show b: "base c" using base_initial(1) by (simp add: base_def c_def initial_core_def)
  then show p: "base (after_persist c err)" for err by (rule base_persist)
  show "wave 0 0 (length (planBatches p)) False (after_persist c None)"
    unfolding wave_def using p [of None] all by (simp add: c_def initial_core_def)
qed

lemma wp_early_outcome:
  assumes s: "st g c s" and b: "base c" "ePersisted c = p" and k: "k \<noteq> OutcomeReady"
  shows "wp (engine_outcome P k p fs f \<bind> (\<lambda>out. State_Monad.return (Inl out)))
    (\<lambda>r s'. case r of Inl out \<Rightarrow> finished g out s' | Inr m \<Rightarrow> R m s') s"
  by (rule wp_bind, rule wp_engine_outcome [OF s], rule wp_return)
    (simp add: finishedI [OF _ b(1)] out_ok_def b(2) k)

lemma wp_start_execute:
  fixes s :: "'w engine"
  assumes s: "st g initial_core s"
  shows "wp (start_execute P rq) (\<lambda>r s'. case r of Inl out \<Rightarrow> finished g out s'
    | Inr m \<Rightarrow> wave_start g 0 s' \<and> blocking_multiset (reqInitialFindings rq) = Inr m) s"
    (is "wp _ ?Q s")
proof -
  have early: "wp (State_Monad.return (Inl out)) ?Q s'"
    if "st g c s'" "base c" "out_ok g c out" for c out and s' :: "'w engine"
    by (rule wp_return) (simp add: finishedI [OF that])
  have pers: "ePersisted initial_core = empty_plan" by (simp add: initial_core_def)
  note early0 = wp_early_outcome [OF _ base_initial(1) pers]
  show ?thesis
    unfolding start_execute_def
    apply (rule wp_bind, rule wp_stop_for_context [OF s])
     apply (simp only: option.case, rule wp_bind, erule wp_stop_for_rail)
      apply (simp only: option.case, rule wp_bind, erule wp_rails [OF _ quiet_methods(3)], rule wp_sum)
       apply (erule early0, simp)
      apply (rule wp_sum, erule early0, simp)
      apply (rule wp_sum, erule early0, simp)
    subgoal premises prems for s1 s2 a s3 dl p m
    proof -
      note w = initial_wave [OF prems(3)]
      define c where "c = initial_core\<lparr>ePlan := p\<rparr>"
      note w = initial_wave [OF prems(3), folded c_def]
      have c: "ePersisted c = empty_plan" "eLog c = eLog initial_core" "length (batches c) = length (planBatches p)"
        by (simp_all add: c_def pers)
      have stop: "wp (State_Monad.return (Inl out)) ?Q s'"
        if "st g c s'" "outKind out \<noteq> OutcomeReady" "outPlan out = ePersisted c"
          "outIterations out = iterations (fst g) + int (admits (eLog c))" for out and s' :: "'w engine"
        by (rule early [OF that(1) w(1)]) (simp add: out_ok_def that)
      show ?thesis
        apply (rule wp_bind, rule wp_modify [OF prems(1)], simp, fold c_def, rule wp_bind, rule wp_persisted,
            assumption, rule wp_bind, erule wp_stop_for_context)
         apply (simp only: option.case, rule wp_bind, erule wp_stop_for_rail)
          apply (simp only: option.case, rule wp_bind, erule wp_persist, rule wp_option)
        subgoal for s4 s5 s6 s7 err
          by (rule wp_return) (use prems(4) w(3) c(3) in \<open>fastforce simp: wave_start_def\<close>)
        subgoal for s4 s5 s6 s7 err e
          by (rule wp_bind, rule wp_persisted, assumption, erule wp_early_outcome [OF _ w(2)]) simp_all
         apply (simp only: option.case, erule stop, assumption+)
        apply (simp only: option.case, erule stop, assumption+)
        done
    qed
     apply (simp only: option.case, erule early [OF _ base_initial(1)], simp add: out_ok_def pers)
    apply (simp only: option.case, erule early [OF _ base_initial(1)], simp add: out_ok_def pers)
    done
qed


text \<open>What holds of a run whose rails came from \<open>NewRails\<close>, possibly used before.\<close>

lemma execute_finished:
  assumes "execute P rq ctx w = (out, Some s)" "reqRails rq = Some r" "rails_ok r"
  shows "\<exists>n \<le> Suc (size (blocker_mset (reqInitialFindings rq))). finished (r, n) out s"
proof -
  let ?s = "\<lparr>eCore = initial_core, eRails = r, eCtx = None, eWorld = w\<rparr>"
  have st: "st (r, 0) initial_core ?s"
    using assms(3) by (simp add: st_def initial_core_def)
  obtain a s1 where a: "run_state (start_execute P rq) ?s = (a, s1)"
    by (cases "run_state (start_execute P rq) ?s")
  from wp_start_execute [OF st, of P rq] a
  have start: "case a of Inl out \<Rightarrow> finished (r, 0) out s1
    | Inr m \<Rightarrow> wave_start (r, 0) 0 s1 \<and> blocking_multiset (reqInitialFindings rq) = Inr m"
    by (simp add: wp_def)
  have ex: "execute P rq ctx w = (case a of Inl out \<Rightarrow> (out, Some s1)
      | Inr m \<Rightarrow> (case run_waves P rq 0 m s1 of (out, s2) \<Rightarrow> (out, Some s2)))"
    using assms(1,2) a by (simp add: execute_def Let_def split: if_splits sum.split)
  show ?thesis
  proof (cases a)
    case (Inl o1)
    with ex start assms(1) have "finished (r, 0) out s" by simp
    then show ?thesis by blast
  next
    case (Inr m)
    with start have ws: "wave_start (r, 0) 0 s1" and m: "blocking_multiset (reqInitialFindings rq) = Inr m"
      by simp_all
    have "counts_size m = size (blocker_mset (reqInitialFindings rq))"
      by (simp add: counts_size_def blocking_mset [OF m])
    moreover have "run_waves P rq 0 m s1 = (out, s)"
      using ex Inr assms(1) by (simp split: prod.splits)
    ultimately show ?thesis
      using wp_run_waves [OF ws blocking_counts_ok [OF m], of P rq] by auto
  qed
qed

end
