(* ===== verification/EngineProps.thy ===== *)
theory EngineProps
  imports EngineFacts
begin

text \<open>
  A run of the engine on a world where every port succeeds, evaluated step by step, and the
  properties of \<open>Execute\<close>.
\<close>

subsection \<open>A run on an obliging world\<close>

definition demo_proof :: batch_proof where
  "demo_proof = \<lparr>proofOwner = Some 0, proofTree = replicate 40 (CHR ''c''), proofChanged = [''pkg/a.go''], proofVerify = True,
     proofValidation = Some (Some []), proofCapture = 0\<rparr>"

definition demo_passed :: validation_result where
  "demo_passed = \<lparr>vKind = ValidationPassed, vFailure = [], vFindings = [], vChangedFiles = [],
     vProof = no_proof\<rparr>"

definition demo :: "unit ports" where
  "demo = \<lparr>pClock = (\<lambda>w. (0, w)), pCtx = (\<lambda>w. (None, w)), pWritePlan = (\<lambda>_ w. (None, w)),
     pWriteBrief = (\<lambda>_ _ _ w. (None, w)), pAdapterSink = (\<lambda>_ _ w. (Inr 0, w)),
     pSnapshotGit = (\<lambda>w. (Inr 0, w)), pAdapterRun = (\<lambda>_ _ w. (None, w)), pCheckGit = (\<lambda>_ w. (None, w)),
     pChangedFiles = (\<lambda>w. (Inr [''pkg/a.go''], w)), pPrepareBatch = (\<lambda>_ w. (Inr demo_proof, w)),
     pValidate = (\<lambda>_ w. (demo_passed, w)), pVerifyBatch = (\<lambda>_ w. (None, w)),
     pResetAttempt = (\<lambda>w. (None, w)), pCommitBatch = (\<lambda>_ _ w. (Inr ''c1'', w)),
     pRollbackBatch = (\<lambda>_ w. (None, w)), pBarrier = (\<lambda>w. (demo_passed, w)),
     pQuote = (\<lambda>s. s), pPlanErrorText = (\<lambda>_. []), pBriefErrorText = (\<lambda>_. []),
     hasAdapter = True, hasWorkspace = True, hasAudit = True, hasValidate = True, hasBarrier = True\<rparr>"

definition demo_rails :: "int \<Rightarrow> rails" where
  "demo_rails k = \<lparr>maxIterations = 5, iterations = k, maxWallClock = 10, startedAt = 0, deadline = 10,
     observedAt = 0, hasClock = True\<rparr>"

definition demo_request :: request where
  "demo_request = \<lparr>reqMergeBase = replicate 40 (CHR ''a''), reqOriginalHead = replicate 40 (CHR ''b''),
     reqInitialFindings = [sample_blocker], reqRails = Some (demo_rails 0)\<rparr>"

definition demo_state :: "int \<Rightarrow> core \<Rightarrow> unit engine" where
  "demo_state k c = \<lparr>eCore = c, eRails = demo_rails k, eCtx = None, eWorld = ()\<rparr>"

lemma demo_methods [simp]:
  "admit_landing 0 (demo_rails k) = (None, demo_rails k)"
  "k < 5 \<Longrightarrow> admit_attempt 0 (demo_rails k) = (None, demo_rails (k + 1))"
  "snapIterations (fst (snapshot 0 (demo_rails k))) = k" "snd (snapshot 0 (demo_rails k)) = demo_rails k"
  "execution_context True 0 (demo_rails k) = (Inr 10, demo_rails k)"
  by (simp_all add: demo_rails_def admit_landing_def admit_attempt_def snapshot_def execution_context_def
      rails_validate_def observe_locked_def Let_def)

lemma demo_state_inject [simp]: "demo_state k c = demo_state k d \<longleftrightarrow> c = d"
  by (simp add: demo_state_def)

named_theorems demo_step \<open>steps of the engine on the obliging world\<close>

lemma demo_rails_step [demo_step]:
  "run_state (with_rails demo m) (demo_state k c) =
     (case m 0 (demo_rails k) of (a, r) \<Rightarrow> (a, (demo_state k c)\<lparr>eRails := r\<rparr>))"
  by (simp add: with_rails_def demo_state_def demo_def split: prod.split)

lemma demo_state_rails [demo_step]: "(demo_state k c)\<lparr>eRails := demo_rails k'\<rparr> = demo_state k' c"
  by (simp add: demo_state_def)

lemma demo_modify [demo_step]: "run_state (modify_core f) (demo_state k c) = ((), demo_state k (f c))"
  by (simp add: modify_core_def demo_state_def)

lemma demo_gets [demo_step]:
  "run_state (gets f) s = (f s, s)" "the_batch i (demo_state k c) = batches c ! i"
  "eCore (demo_state k c) = c"
  by (simp_all add: gets_def demo_state_def the_batch_def)

lemma demo_call [demo_step]:
  "f () = (a, ()) \<Longrightarrow> run_state (call f ev) (demo_state k c) = (a, demo_state k (record_event (ev a) c))"
  by (simp add: call_def demo_state_def)

lemma demo_ctx [demo_step]: "run_state (ctx_done demo) (demo_state k c) = (None, demo_state k c)"
  by (simp add: ctx_done_def demo_state_def demo_def)

lemma demo_persisted [demo_step]: "run_state get_persisted (demo_state k c) = (ePersisted c, demo_state k c)"
  by (simp add: get_persisted_def demo_step)

lemma demo_ports [demo_step]:
  "pWritePlan demo p () = (None, ())" "pWriteBrief demo a n t () = (None, ())"
  "pAdapterSink demo a n () = (Inr 0, ())" "pSnapshotGit demo () = (Inr 0, ())"
  "pAdapterRun demo t n () = (None, ())" "pCheckGit demo n () = (None, ())"
  "pChangedFiles demo () = (Inr [''pkg/a.go''], ())" "pPrepareBatch demo fs () = (Inr demo_proof, ())"
  "pValidate demo b () = (demo_passed, ())" "pVerifyBatch demo q () = (None, ())"
  "pCommitBatch demo f q () = (Inr ''c1'', ())" "pBarrier demo () = (demo_passed, ())"
  by (simp_all add: demo_def)

lemma demo_persist [demo_step]: "run_state (persist demo) (demo_state k c) = (None, demo_state k (after_persist c None))"
  by (simp add: persist_def demo_step after_persist_def Let_def published_def)

lemma demo_stops [demo_step]:
  "run_state (stop_for_context demo p) (demo_state k c) = (None, demo_state k c)"
  "run_state (stop_for_rail demo p) (demo_state k c) = (None, demo_state k c)"
  by (simp_all add: stop_for_context_def stop_for_rail_def demo_step)

lemma demo_checks [demo_step]:
  "run_state (checkpoint_context demo i n) (demo_state k c) = (AttemptSucceeded, demo_state k c)"
  "run_state (stopping (checkpoint_context demo i n) rest) (demo_state k c) = run_state rest (demo_state k c)"
  "run_state (checkpoint demo i n) (demo_state k c) = (AttemptSucceeded, demo_state k c)"
  "run_state (stopping (checkpoint demo i n) rest) (demo_state k c) = run_state rest (demo_state k c)"
  by (simp_all add: checkpoint_context_def checkpoint_def stopping_def demo_step)

lemma demo_engine_outcome [demo_step]:
  "run_state (engine_outcome demo kind p fs f) (demo_state k c) =
     (\<lparr>outKind = kind, outPlan = p, outFindings = fs, outIterations = k, outFailure = bounded_failure f\<rparr>,
      demo_state k c)"
  by (simp add: engine_outcome_def demo_step split: prod.split) (metis demo_methods(3,4) demo_state_rails fst_conv snd_conv)

lemma demo_proof_present: "proof_present demo_proof"
  by (simp add: proof_present_def demo_proof_def valid_object_id_def list_all_iff is_lower_hex_def byte_def)

lemma no_blockers: "blocking_multiset [] = Inr []"
  by (simp add: blocking_multiset_Inr canonical_input_def)

lemma demo_commit [demo_step]:
  "run_state (run_changes demo i n) (demo_state k c) =
     (AttemptSucceeded, demo_state k (after_persist (on_batch i (complete_batch n [''pkg/a.go''] ''c1'')
        (c\<lparr>eSemantic := (eSemantic c)(i := None),
           eLog := [EvCommit (primaryFile (batches c ! i)) demo_proof (Inr ''c1''), EvVerify demo_proof None,
             EvValidate ((batches c ! i)\<lparr>batchProof := demo_proof\<rparr>) demo_passed,
             EvPrepare [''pkg/a.go''] (Inr demo_proof), EvChangedFiles (Inr [''pkg/a.go''])] @ eLog c\<rparr>)) None))"
proof -
  have judge: "run_state (run_judge demo i n ch (demo_passed\<lparr>vProof := demo_proof\<rparr>)) (demo_state k c)
    = run_state (run_commit demo i n ch demo_proof) (demo_state k (c\<lparr>eSemantic := (eSemantic c)(i := None)\<rparr>))" for c ch
    by (simp add: run_judge_def demo_passed_def no_blockers validate_attempt_result_def demo_proof_present demo_step)
  have kind: "vKind demo_passed = ValidationPassed" by (simp add: demo_passed_def)
  show ?thesis
    by (simp add: run_changes_def demo_step run_validate_def kind judge run_commit_def record_commit_def
        after_commit_def record_event_def)
qed


definition demo_opened :: "nat \<Rightarrow> nat \<Rightarrow> core \<Rightarrow> core" where
  "demo_opened i n c = after_persist (on_batch i (\<lambda>b. b\<lparr>batchStatus := BatchRunning,
     batchAttempts := batchAttempts b @ [\<lparr>attNumber = n, attStatus = AttemptRunning, attFailure = [],
       attChangedFiles = [], attCommit = []\<rparr>]\<rparr>) c) None"

lemma demo_attempt:
  assumes "build_brief \<lparr>briefMergeBase = reqMergeBase rq, briefOriginalHead = reqOriginalHead rq,
      briefBatch = batches (demo_opened i n c) ! i, briefRetryFailure = retry\<rparr> = Inr brief"
  defines "name \<equiv> batchName (batches (demo_opened i n c) ! i)"
  shows "run_state (run_attempt demo rq i n retry) (demo_state k c) =
    run_state (run_changes demo i n) (demo_state k ((demo_opened i n c)
      \<lparr>eLog := [EvCheckGit None, EvAdapterRun i n, EvSnapshotGit False, EvAdapterSink name n False,
        EvWriteBrief name n brief None] @ eLog (demo_opened i n c)\<rparr>))"
  unfolding name_def
  by (simp add: run_attempt_def demo_step demo_opened_def [symmetric] assms(1) run_agent_def record_event_def
      del: after_persist_fields on_batch_fields)


lemma demo_barrier [demo_step]:
  "\<not> stuck \<Longrightarrow> run_state (evaluate_barrier demo demo_passed before stuck) (demo_state k c) =
     (BarrierStop \<lparr>outKind = OutcomeReady, outPlan = ePlan c, outFindings = [], outIterations = k,
        outFailure = bounded_failure []\<rparr>, demo_state k (after_persist c None))"
  by (simp add: evaluate_barrier_def demo_step classify_barrier_def demo_passed_def no_blockers
      validate_barrier_result_def published_def)

lemma concat_single:
  "concat xss = [x] \<Longrightarrow> \<forall>xs \<in> set xss. xs \<noteq> [] \<Longrightarrow> xss = [[x]]"
  by (cases xss; cases "tl xss") (auto simp: append_eq_Cons_conv)

lemma demo_plan:
  "\<exists>p b. new_plan [sample_blocker] = Inr p \<and> planBatches p = [b] \<and> primaryFile b = ''pkg/a.go''
     \<and> batchAttempts b = [] \<and> validate_brief_bounds (sample_input b) = None
     \<and> length (brief_text (sample_input b) (batchFindings b)) \<le> max_brief_bytes"
proof -
  obtain p b where p: "new_plan [sample_blocker] = Inr p" and b: "b \<in> set (planBatches p)"
    and small: "validate_brief_bounds (sample_input b) = None"
      "length (brief_text (sample_input b) (batchFindings b)) \<le> max_brief_bytes"
    using sample_plan by blast
  have "concat (map batchFindings (planBatches p)) = [sample_blocker]"
    using new_plan_batches(1) [OF p] by simp
  moreover have "\<forall>xs \<in> set (map batchFindings (planBatches p)). xs \<noteq> []"
    using new_plan_batches(3) [OF p] by (auto simp: batch_shape_def)
  ultimately have "map batchFindings (planBatches p) = [[sample_blocker]]" by (rule concat_single)
  with b have one: "planBatches p = [b]" "batchFindings b = [sample_blocker]" by auto
  moreover from one(2) have "primaryFile b = ''pkg/a.go''" "batchAttempts b = []"
    using new_plan_batches(3) [OF p b] by (simp_all add: batch_shape_def sample_blocker_file)
  ultimately show ?thesis using p small by blast
qed

text \<open>The whole run: one batch, one attempt, one commit, one clean barrier.\<close>

lemma demo_input: "validate_engine_input demo_request demo = []"
  using sample_revisions by (simp add: validate_engine_input_def demo_request_def demo_def)

lemma demo_start:
  assumes "new_plan [sample_blocker] = Inr p"
  shows "\<exists>m. run_state (start_execute demo demo_request) (demo_state 0 initial_core)
    = (Inr m, demo_state 0 (after_persist (initial_core\<lparr>ePlan := p\<rparr>) None))"
proof -
  obtain m where "blocking_multiset [sample_blocker] = Inr m"
    by (simp add: blocking_multiset_Inr sample_blocker_canonical)
  then show ?thesis
    using assms by (simp add: start_execute_def demo_step demo_request_def initial_core_def)
qed

lemma demo_wave:
  assumes "new_plan [sample_blocker] = Inr p" "planBatches p = [b]" "batchAttempts b = []"
    "validate_brief_bounds (sample_input b) = None"
    "length (brief_text (sample_input b) (batchFindings b)) \<le> max_brief_bytes"
  shows "\<exists>c out l.
    run_state (run_wave demo demo_request 0 m) (demo_state 0 (after_persist (initial_core\<lparr>ePlan := p\<rparr>) None))
      = (Inl out, demo_state 1 c) \<and> outKind out = OutcomeReady
      \<and> eLog c = [EvWritePlan (outPlan out) None, EvBarrier demo_passed, EvWritePlan (outPlan out) None,
           EvCommit (primaryFile b) demo_proof (Inr ''c1'')] @ l
      \<and> EvAdapterRun 0 1 \<in> set l \<and> length (planBatches (outPlan out)) = 1"
proof -
  let ?c = "after_persist (initial_core\<lparr>ePlan := p\<rparr>) None"
  let ?d = "record_event (EvAdmit 0 1) ?c"
  let ?e = "?d\<lparr>eSemantic := (eSemantic ?d)(0 := None)\<rparr>"
  let ?b = "b\<lparr>batchStatus := BatchRunning, batchAttempts := [\<lparr>attNumber = 1, attStatus = AttemptRunning,
      attFailure = [], attChangedFiles = [], attCommit = []\<rparr>]\<rparr>"
  have b: "batches (demo_opened 0 1 ?e) ! 0 = ?b"
    using assms(2,3) by (simp add: demo_opened_def)
  let ?i = "\<lparr>briefMergeBase = reqMergeBase demo_request, briefOriginalHead = reqOriginalHead demo_request,
      briefBatch = ?b, briefRetryFailure = []\<rparr>"
  have "build_brief ?i = Inr (brief_text ?i (batchFindings b))"
    by (rule build_brief_planned [OF assms(1), of b BatchRunning])
      (use assms sample_revisions in \<open>simp_all add: demo_request_def sample_input_def
         validate_brief_bounds_def brief_text_def Let_def
         split: if_splits del: finding_bounds.simps\<close>)
  note att = demo_attempt [where i = 0 and n = 1 and c = ?e, unfolded b, OF this, simplified]
  show ?thesis
    using assms(2)
    by (simp add: run_wave_def demo_step execute_batch_def admit_def att after_attempt_def demo_opened_def
      complete_batch_def set_last_attempt_def published_def on_batch_def)
qed


lemma demo_run:
  "\<exists>out s l. execute demo demo_request True () = (out, Some s) \<and> outKind out = OutcomeReady
     \<and> eLog (eCore s) = [EvWritePlan (outPlan out) None, EvBarrier demo_passed, EvWritePlan (outPlan out) None,
           EvCommit ''pkg/a.go'' demo_proof (Inr ''c1'')] @ l
     \<and> EvAdapterRun 0 1 \<in> set l \<and> length (planBatches (outPlan out)) = 1"
proof -
  obtain p b where p: "new_plan [sample_blocker] = Inr p" "planBatches p = [b]" "primaryFile b = ''pkg/a.go''"
    "batchAttempts b = []" "validate_brief_bounds (sample_input b) = None"
    "length (brief_text (sample_input b) (batchFindings b)) \<le> max_brief_bytes"
    using demo_plan by blast
  obtain m where m: "run_state (start_execute demo demo_request) (demo_state 0 initial_core)
    = (Inr m, demo_state 0 (after_persist (initial_core\<lparr>ePlan := p\<rparr>) None))"
    using demo_start [OF p(1)] by blast
  obtain c out l where w: "run_state (run_wave demo demo_request 0 m)
      (demo_state 0 (after_persist (initial_core\<lparr>ePlan := p\<rparr>) None)) = (Inl out, demo_state 1 c)"
    and r: "outKind out = OutcomeReady"
      "eLog c = [EvWritePlan (outPlan out) None, EvBarrier demo_passed, EvWritePlan (outPlan out) None,
           EvCommit (primaryFile b) demo_proof (Inr ''c1'')] @ l"
      "EvAdapterRun 0 1 \<in> set l" "length (planBatches (outPlan out)) = 1"
    using demo_wave [OF p(1,2,4,5,6), of m] by blast
  have "execute demo demo_request True () = (out, Some (demo_state 1 c))"
    using m w by (simp add: execute_def demo_input Let_def demo_request_def [THEN arg_cong [where f = reqRails]]
        demo_state_def [symmetric] run_waves.simps)
  with r p(3) show ?thesis by (intro exI [of _ out] exI [of _ "demo_state 1 c"] exI [of _ l]) (simp add: demo_state_def)
qed

lemma demo_request_rails: "reqRails demo_request = Some (demo_rails 0)" "rails_ok (demo_rails 0)"
  by (simp_all add: demo_request_def demo_rails_def rails_ok_def)

subsection \<open>Properties\<close>

lemma execute_facts:
  assumes "execute P rq ctx w = (out, Some s)" "reqRails rq = Some r" "rails_ok r"
  shows "final_ok (r, barriers (eLog (eCore s))) (eCore s) out" "rails_ok (eRails s)"
    "rails_limits (eRails s) = rails_limits r"
    "iterations (eRails s) = iterations r + int (admits (eLog (eCore s)))"
    "barriers (eLog (eCore s)) \<le> Suc (size (blocker_mset (reqInitialFindings rq)))"
  using execute_finished [OF assms] by (auto simp: finished_def st_def final_ok_def)

text \<open>
  C5: Every agent run is an admitted attempt, the outcome reports the iterations consumed, and they
  never exceed the rails' maximum, whatever the ports answer.
\<close>

theorem execute_within_rails:
  assumes "execute P rq ctx w = (out, Some s)" "reqRails rq = Some r" "rails_ok r"
  shows "agent_runs (eLog (eCore s)) \<le> admits (eLog (eCore s))
    \<and> outIterations out = iterations r + int (admits (eLog (eCore s)))
    \<and> outIterations out \<le> maxIterations r"
  using execute_facts [OF assms] by (auto simp: final_ok_def base_def rails_ok_def rails_limits_def)

theorem execute_within_rails_witness:
  "\<exists>out s. execute demo demo_request True () = (out, Some s) \<and> outIterations out \<le> 5"
proof -
  obtain out s where e: "execute demo demo_request True () = (out, Some s)" using demo_run by blast
  with execute_within_rails [OF e demo_request_rails] show ?thesis by (simp add: demo_rails_def)
qed

text \<open>
  C4: The loop over waves ends: whatever the ports answer, the barrier validator is called at most
  once more than there are blocking occurrences in the initial findings.
\<close>

theorem execute_barriers_bounded:
  assumes "execute P rq ctx w = (out, Some s)" "reqRails rq = Some r" "rails_ok r"
  shows "barriers (eLog (eCore s)) \<le> 1 + size (blocker_mset (reqInitialFindings rq))"
  using execute_facts(5) [OF assms] by simp

theorem execute_barriers_bounded_witness:
  "\<exists>out s. execute demo demo_request True () = (out, Some s) \<and> barriers (eLog (eCore s)) \<le> 2"
proof -
  obtain out s where e: "execute demo demo_request True () = (out, Some s)" using demo_run by blast
  with execute_barriers_bounded [OF e demo_request_rails] show ?thesis
    by (auto simp: demo_request_def blocker_mset_def sample_blocker_fields)
qed

text \<open>
  C2: A batch is committed only right after its changes were prepared as a proof, that proof passed
  the batch validator with no failure and no findings, and the proof was verified once more.
\<close>

theorem commit_has_evidence:
  assumes "execute P rq ctx w = (out, Some s)" "reqRails rq = Some r" "rails_ok r"
    "eLog (eCore s) = later @ EvCommit path p answer # earlier"
  shows "commit_ready path p earlier"
proof -
  have "wf_log (eLog (eCore s))" using execute_facts(1) [OF assms(1-3)] by (simp add: final_ok_def base_def)
  with assms(4) wf_log_event [of later] have "event_ok (EvCommit path p answer) earlier" by metis
  then show ?thesis by simp
qed

theorem commit_has_evidence_witness:
  "\<exists>out s l. execute demo demo_request True () = (out, Some s) \<and> commit_ready ''pkg/a.go'' demo_proof l"
proof -
  obtain out s l where e: "execute demo demo_request True () = (out, Some s)"
    and l: "eLog (eCore s) = [EvWritePlan (outPlan out) None, EvBarrier demo_passed,
      EvWritePlan (outPlan out) None] @ EvCommit ''pkg/a.go'' demo_proof (Inr ''c1'') # l"
    using demo_run by auto
  from e commit_has_evidence [OF e demo_request_rails l] show ?thesis by blast
qed

text \<open>
  C6: An agent starts only in a workspace that a reset or a commit has cleaned since the last agent
  run, and a commit is rolled back only when writing the completed plan failed without publishing it.
\<close>

theorem agent_and_rollback_discipline:
  assumes "execute P rq ctx w = (out, Some s)" "reqRails rq = Some r" "rails_ok r"
    "eLog (eCore s) = later @ e # earlier"
  shows "(is_run e \<longrightarrow> \<not> dirty earlier \<and> agent_runs earlier < admits earlier)
    \<and> (\<forall>commit answer. e = EvRollback commit answer \<longrightarrow> rollback_due commit earlier)"
proof -
  have "wf_log (eLog (eCore s))" using execute_facts(1) [OF assms(1-3)] by (simp add: final_ok_def base_def)
  with assms(4) wf_log_event [of later] have "event_ok e earlier" by metis
  then show ?thesis by (cases e) auto
qed

theorem agent_and_rollback_discipline_witness:
  "\<exists>out s a e. execute demo demo_request True () = (out, Some s) \<and> eLog (eCore s) = a @ EvAdapterRun 0 1 # e
     \<and> \<not> dirty e"
proof -
  obtain out s l where e: "execute demo demo_request True () = (out, Some s)"
    and l: "EvAdapterRun 0 1 \<in> set (eLog (eCore s))"
    using demo_run by fastforce
  then obtain a c where l: "eLog (eCore s) = a @ EvAdapterRun 0 1 # c" by (meson split_list)
  from e l agent_and_rollback_discipline [OF e demo_request_rails l] show ?thesis by auto
qed

text \<open>
  C7: The outcome's plan is the plan last published on disk, also after failed writes; no batch in
  it has more than two attempts, and a batch marked done ends in a passed attempt whose commit is in
  the history.
\<close>

theorem outcome_plan_is_published:
  assumes "execute P rq ctx w = (out, Some s)" "reqRails rq = Some r" "rails_ok r"
  shows "outPlan out = last_published (eLog (eCore s))
    \<and> (\<forall>b \<in> set (planBatches (outPlan out)). length (batchAttempts b) \<le> 2
         \<and> (batchStatus b = BatchDone \<longrightarrow> committed (eLog (eCore s)) b))"
  using execute_facts(1) [OF assms] by (simp add: final_ok_def base_def batch_inv_def)

theorem outcome_plan_is_published_witness:
  "\<exists>out s. execute demo demo_request True () = (out, Some s) \<and> length (planBatches (outPlan out)) = 1
     \<and> outPlan out = last_published (eLog (eCore s))"
proof -
  obtain out s where e: "execute demo demo_request True () = (out, Some s)"
    "length (planBatches (outPlan out)) = 1" using demo_run by blast
  with outcome_plan_is_published [OF e(1) demo_request_rails] show ?thesis by blast
qed

text \<open>
  C3: A ready outcome means that every batch of the published plan is done, that the last barrier
  passed without blocking findings, that the plan was written after it, and that nothing is reported.
\<close>

theorem ready_is_earned:
  assumes "execute P rq ctx w = (out, Some s)" "reqRails rq = Some r" "rails_ok r" "outKind out = OutcomeReady"
  shows "all_done (outPlan out) \<and> ready_end out (eLog (eCore s)) \<and> outFindings out = [] \<and> outFailure out = []"
  using execute_facts(1) [OF assms(1-3)] assms(4) unfolding final_ok_def by blast

theorem ready_is_earned_witness:
  "\<exists>out s. execute demo demo_request True () = (out, Some s) \<and> outKind out = OutcomeReady
     \<and> ready_end out (eLog (eCore s))"
proof -
  obtain out s where e: "execute demo demo_request True () = (out, Some s)" "outKind out = OutcomeReady"
    using demo_run by blast
  with ready_is_earned [OF e(1) demo_request_rails e(2)] show ?thesis by blast
qed


lemma back_to_start_le: "back_to_start s n \<le> n"
  by (induction n) auto

text \<open>
  A reported failure is at most the diagnostic bound long; one that does not fit is a prefix of
  the sanitised text that ends at the start of a character, followed by the truncation marker.
\<close>

theorem bounded_failure_bound:
  "length (bounded_failure f) \<le> max_brief_diagnostic
   \<and> (\<exists>n. bounded_failure f = to_valid_utf8 f replacement
        \<or> bounded_failure f = take n (to_valid_utf8 f replacement) @ failure_marker
          \<and> (n = 0 \<or> rune_start (to_valid_utf8 f replacement ! n)))"
proof -
  let ?f = "to_valid_utf8 f replacement"
  let ?n = "max_brief_diagnostic - length failure_marker"
  have b: "back_to_start s n = 0 \<or> rune_start (s ! back_to_start s n)" for s n by (induction n) auto
  have m: "length failure_marker \<le> max_brief_diagnostic"
    by (simp add: failure_marker_def max_brief_diagnostic_def)
  have "length (take (back_to_start ?f ?n) ?f @ failure_marker) \<le> max_brief_diagnostic"
    using back_to_start_le [of ?f ?n] m by simp
  with b [of ?f ?n] show ?thesis
    unfolding bounded_failure_def Let_def by (cases "length ?f \<le> max_brief_diagnostic") auto
qed

end
