(* ===== verification/Versions.thy ===== *)
theory Versions
  imports GoText
begin

text \<open>
  \<open>internal/gate/version.go\<close>: semantic versions, their precedence and the version constraint of a
  gate. The regular expression engine of package \<open>regexp\<close> is a parameter.
\<close>

subsection \<open>Parsing\<close>

record prerelease_identifier =
  preValue :: gostring
  preNumeric :: bool

record semantic_version =
  svCore :: "gostring list"
  svPrerelease :: "prerelease_identifier list"

datatype version_error =
    InvalidBuild
  | WantThreeParts
  | InvalidCore gostring
  | InvalidPrerelease gostring

definition all_digits :: "gostring \<Rightarrow> bool" where
  "all_digits v \<longleftrightarrow> v \<noteq> [] \<and> list_all (\<lambda>r. 48 \<le> r \<and> r \<le> 57) (runes v)"

definition ascii_letter_or_digit :: "nat \<Rightarrow> bool" where
  "ascii_letter_or_digit r \<longleftrightarrow> 48 \<le> r \<and> r \<le> 57 \<or> 65 \<le> r \<and> r \<le> 90 \<or> 97 \<le> r \<and> r \<le> 122"

definition valid_numeric_identifier :: "gostring \<Rightarrow> bool" where
  "valid_numeric_identifier s \<longleftrightarrow> s \<noteq> [] \<and> all_digits s \<and> (length s = 1 \<or> hd s \<noteq> CHR ''0'')"

definition valid_identifier :: "bool \<Rightarrow> gostring \<Rightarrow> bool" where
  "valid_identifier prerelease s \<longleftrightarrow> s \<noteq> []
     \<and> list_all (\<lambda>r. ascii_letter_or_digit r \<or> r = 45) (runes s)
     \<and> \<not> (prerelease \<and> all_digits s \<and> length s > 1 \<and> hd s = CHR ''0'')"

definition valid_identifiers :: "bool \<Rightarrow> gostring \<Rightarrow> bool" where
  "valid_identifiers prerelease v \<longleftrightarrow>
     v \<noteq> [] \<and> list_all (valid_identifier prerelease) (split_on (CHR ''.'') v)"

definition prerelease_of :: "gostring \<Rightarrow> prerelease_identifier" where
  "prerelease_of s = \<lparr>preValue = s, preNumeric = all_digits s\<rparr>"

definition parse_semantic_version :: "gostring \<Rightarrow> (version_error, semantic_version) res" where
  "parse_semantic_version value =
     (case cut_at (CHR ''+'') value of (version, build, has_build) \<Rightarrow>
        if has_build \<and> (CHR ''+'' \<in> set build \<or> \<not> valid_identifiers False build) then Inl InvalidBuild
        else (case cut_at (CHR ''-'') version of (core, pre, has_pre) \<Rightarrow>
          let parts = split_on (CHR ''.'') core in
          if length parts \<noteq> 3 then Inl WantThreeParts
          else (case find (\<lambda>p. \<not> valid_numeric_identifier p) parts of
                  Some p \<Rightarrow> Inl (InvalidCore p)
                | None \<Rightarrow>
                    if \<not> has_pre then Inr \<lparr>svCore = parts, svPrerelease = []\<rparr>
                    else if \<not> valid_identifiers True pre then Inl (InvalidPrerelease pre)
                    else Inr \<lparr>svCore = parts,
                               svPrerelease = map prerelease_of (split_on (CHR ''.'') pre)\<rparr>)))"

subsection \<open>Comparison\<close>

definition compare_numeric_identifiers :: "gostring \<Rightarrow> gostring \<Rightarrow> int" where
  "compare_numeric_identifiers left right =
     (if length left < length right then -1
      else if length left > length right then 1
      else if left < right then -1
      else if left > right then 1
      else 0)"

definition compare_prerelease_identifier :: "prerelease_identifier \<Rightarrow> prerelease_identifier \<Rightarrow> int" where
  "compare_prerelease_identifier left right =
     (if preNumeric left \<and> preNumeric right
      then compare_numeric_identifiers (preValue left) (preValue right)
      else if preNumeric left then -1
      else if preNumeric right then 1
      else if preValue left < preValue right then -1
      else if preValue left > preValue right then 1
      else 0)"

text \<open>A loop over a common prefix that stops at the first difference.\<close>

fun first_difference :: "('a \<Rightarrow> 'a \<Rightarrow> int) \<Rightarrow> 'a list \<Rightarrow> 'a list \<Rightarrow> int" where
  "first_difference cmp (x # xs) (y # ys) = (if cmp x y \<noteq> 0 then cmp x y else first_difference cmp xs ys)"
| "first_difference cmp _ _ = 0"

definition compare_semantic_versions :: "semantic_version \<Rightarrow> semantic_version \<Rightarrow> int" where
  "compare_semantic_versions left right =
     (let core = first_difference compare_numeric_identifiers (svCore left) (svCore right);
          l = svPrerelease left; r = svPrerelease right
      in if core \<noteq> 0 then core
         else if l = [] \<and> r = [] then 0
         else if l = [] then 1
         else if r = [] then -1
         else (let pre = first_difference compare_prerelease_identifier l r
               in if pre \<noteq> 0 then pre
                  else if length l < length r then -1
                  else if length l > length r then 1
                  else 0))"

subsection \<open>Constraints\<close>

datatype operator = AtLeast | Below

record version_constraint =
  vcOperator :: operator
  vcVersion :: semantic_version

datatype constraint_error =
    ConstraintRequired
  | UnsupportedConstraint gostring
  | MalformedConstraint gostring
  | InvalidConstraintVersion gostring version_error

definition parse_comparison :: "gostring \<Rightarrow> (constraint_error, version_constraint) res" where
  "parse_comparison part =
     (let parsed = (\<lambda>operator text.
            if text = [] then Inl (MalformedConstraint part)
            else (case parse_semantic_version text of
                    Inl e \<Rightarrow> Inl (InvalidConstraintVersion text e)
                  | Inr v \<Rightarrow> Inr \<lparr>vcOperator = operator, vcVersion = v\<rparr>))
      in if has_prefix part ''>='' then parsed AtLeast (trim_prefix part ''>='')
         else if has_prefix part ''<'' \<and> \<not> has_prefix part ''<='' then parsed Below (trim_prefix part ''<'')
         else Inl (UnsupportedConstraint part))"

fun parse_comparisons :: "gostring list \<Rightarrow> (constraint_error, version_constraint list) res" where
  "parse_comparisons [] = Inr []"
| "parse_comparisons (p # ps) =
     (case parse_comparison p of
        Inl e \<Rightarrow> Inl e
      | Inr c \<Rightarrow> (case parse_comparisons ps of Inl e \<Rightarrow> Inl e | Inr cs \<Rightarrow> Inr (c # cs)))"

definition parse_constraint :: "gostring \<Rightarrow> (constraint_error, version_constraint list) res" where
  "parse_constraint value =
     (let parts = str_fields value
      in if parts = [] then Inl ConstraintRequired else parse_comparisons parts)"

subsection \<open>Observing a version\<close>

record version_block =
  verCommand :: "gostring list"
  verPattern :: gostring
  verConstraint :: gostring

text \<open>A compiled pattern: its number of groups, and the groups of its leftmost match, 0 first.\<close>

record regex =
  reSubexps :: nat
  reFind :: "gostring \<Rightarrow> gostring list option"

datatype observe_error =
    InvalidPattern
  | PatternWithoutGroup
  | NoVersionFound
  | InvalidObserved gostring version_error
  | InvalidConstraint constraint_error

definition satisfies :: "semantic_version \<Rightarrow> version_constraint \<Rightarrow> bool" where
  "satisfies v c =
     (let comparison = compare_semantic_versions v (vcVersion c)
      in case vcOperator c of AtLeast \<Rightarrow> \<not> comparison < 0 | Below \<Rightarrow> \<not> comparison \<ge> 0)"

definition observe :: "(gostring \<Rightarrow> regex option) \<Rightarrow> version_block \<Rightarrow> gostring \<Rightarrow>
    gostring \<times> (observe_error, bool) res" where
  "observe compile v raw =
     (if verCommand v = [] \<and> verPattern v = [] \<and> verConstraint v = [] then ([], Inr True)
      else (case compile (verPattern v) of
              None \<Rightarrow> ([], Inl InvalidPattern)
            | Some re \<Rightarrow>
                if reSubexps re < 1 then ([], Inl PatternWithoutGroup)
                else (case reFind re raw of
                        None \<Rightarrow> ([], Inl NoVersionFound)
                      | Some groups \<Rightarrow>
                          (let observed = groups ! 1
                           in if observed = [] then ([], Inl NoVersionFound)
                              else (case parse_semantic_version observed of
                                      Inl e \<Rightarrow> (observed, Inl (InvalidObserved observed e))
                                    | Inr version \<Rightarrow>
                                        (case parse_constraint (verConstraint v) of
                                           Inl e \<Rightarrow> (observed, Inl (InvalidConstraint e))
                                         | Inr cs \<Rightarrow> (observed, Inr (list_all (satisfies version) cs))))))))"

subsection \<open>Digits and their value\<close>

lemma all_digits_bytes:
  "all_digits v \<longleftrightarrow> v \<noteq> [] \<and> list_all (\<lambda>c. 48 \<le> byte c \<and> byte c \<le> 57) v"
  unfolding all_digits_def by (subst runes_all) auto

fun digits_value :: "nat \<Rightarrow> gostring \<Rightarrow> nat" where
  "digits_value n [] = n"
| "digits_value n (c # cs) = digits_value (10 * n + (byte c - 48)) cs"


lemma digits_value_append: "digits_value n (s @ t) = digits_value (digits_value n s) t"
  by (induction s arbitrary: n) simp_all

definition digit_bytes :: "gostring \<Rightarrow> bool" where
  "digit_bytes s \<longleftrightarrow> list_all (\<lambda>c. 48 \<le> byte c \<and> byte c \<le> 57) s"

lemma digits_value_bounds:
  "digit_bytes s \<Longrightarrow> n * 10 ^ length s \<le> digits_value n s \<and> digits_value n s < (n + 1) * 10 ^ length s"
proof (induction s arbitrary: n)
  case (Cons c cs)
  let ?m = "10 * n + (byte c - 48)"
  from Cons.prems have c: "48 \<le> byte c" "byte c \<le> 57" and "digit_bytes cs" by (simp_all add: digit_bytes_def)
  with Cons.IH [of ?m] have ih: "?m * 10 ^ length cs \<le> digits_value ?m cs"
    "digits_value ?m cs < (?m + 1) * 10 ^ length cs" by simp_all
  have "n * 10 * 10 ^ length cs \<le> ?m * 10 ^ length cs" by (intro mult_right_mono) simp_all
  moreover have "(?m + 1) * 10 ^ length cs \<le> (n + 1) * 10 * 10 ^ length cs"
    using c by (intro mult_right_mono) simp_all
  ultimately show ?case using ih by (simp add: algebra_simps)
qed simp

lemma digits_value_less:
  "length s = length t \<Longrightarrow> digit_bytes s \<Longrightarrow> digit_bytes t \<Longrightarrow>
     digits_value n s < digits_value n t \<longleftrightarrow> s < t"
proof (induction s t arbitrary: n rule: list_induct2)
  case (Cons c s d t)
  let ?m = "10 * n + (byte c - 48)" and ?k = "10 * n + (byte d - 48)"
  from Cons.prems have cd: "48 \<le> byte c" "48 \<le> byte d" and st: "digit_bytes s" "digit_bytes t"
    by (simp_all add: digit_bytes_def)
  have less: "digits_value p s < digits_value q t" "digits_value p t < digits_value q s" if "p < q" for p q
  proof -
    have "(p + 1) * 10 ^ length t \<le> q * 10 ^ length t" using that by (intro mult_right_mono) simp_all
    with digits_value_bounds [OF st(1), of p] digits_value_bounds [OF st(2), of p]
      digits_value_bounds [OF st(1), of q] digits_value_bounds [OF st(2), of q] Cons.hyps
    show "digits_value p s < digits_value q t" "digits_value p t < digits_value q s" by simp_all
  qed
  have byte_less: "c < d \<longleftrightarrow> byte c < byte d" by (simp add: less_char_def byte_def)
  consider "byte c < byte d" | "byte c = byte d" | "byte c > byte d" by linarith
  then show ?case
  proof cases
    case 2
    then have "c = d" by (simp add: byte_def)
    with Cons.IH st show ?thesis by simp
  next
    case 1
    with cd have "?m < ?k" by linarith
    with less(1) 1 show ?thesis by (simp add: byte_less)
  next
    case 3
    with cd have "?k < ?m" by linarith
    from less(2) [OF this] 3 show ?thesis by (auto simp: byte_less)
  qed
qed simp

lemma numeric_identifier_bounds:
  assumes "valid_numeric_identifier s" "length s < length t" "valid_numeric_identifier t"
  shows "digits_value 0 s < digits_value 0 t"
proof -
  from assms obtain c cs where t: "t = c # cs" by (cases t) auto
  have d: "digit_bytes s" "digit_bytes cs" "48 < byte c"
  proof -
    from assms t have "c \<noteq> CHR ''0''" "48 \<le> byte c"
      by (auto simp: valid_numeric_identifier_def all_digits_bytes)
    moreover have "byte c \<noteq> 48" if "c \<noteq> CHR ''0''"
    proof
      assume "byte c = 48"
      then have "byte c = byte (CHR ''0'')" by (simp add: byte_def)
      then have "c = CHR ''0''" by (simp only: byte_def of_char_eq_iff)
      with that show False by simp
    qed
    ultimately show "48 < byte c" by force
  qed (use assms t in \<open>simp_all add: valid_numeric_identifier_def all_digits_bytes digit_bytes_def\<close>)
  have "digits_value 0 s < 10 ^ length s" using digits_value_bounds [OF d(1), of 0] by simp
  also have "\<dots> \<le> 10 ^ length cs" using assms(2) t by (intro power_increasing) simp_all
  also have "\<dots> \<le> (byte c - 48) * 10 ^ length cs" using d(3) by simp
  also have "\<dots> \<le> digits_value 0 t" using digits_value_bounds [OF d(2), of "byte c - 48"] by (simp add: t)
  finally show ?thesis .
qed

lemma compare_numeric:
  assumes "valid_numeric_identifier s" "valid_numeric_identifier t"
  shows "compare_numeric_identifiers s t = sgn (int (digits_value 0 s) - int (digits_value 0 t))"
    "digits_value 0 s = digits_value 0 t \<longleftrightarrow> s = t"
proof -
  have d: "digit_bytes s" "digit_bytes t"
    using assms by (simp_all add: valid_numeric_identifier_def all_digits_bytes digit_bytes_def)
  consider "length s < length t" | "length t < length s" | "length s = length t" by linarith
  then have "compare_numeric_identifiers s t = sgn (int (digits_value 0 s) - int (digits_value 0 t))
    \<and> (digits_value 0 s = digits_value 0 t \<longleftrightarrow> s = t)"
  proof cases
    case 1
    with numeric_identifier_bounds [OF assms(1) 1 assms(2)] show ?thesis
      by (auto simp: compare_numeric_identifiers_def)
  next
    case 2
    with numeric_identifier_bounds [OF assms(2) 2 assms(1)] show ?thesis
      by (auto simp: compare_numeric_identifiers_def)
  next
    case 3
    with digits_value_less [OF 3 d, of 0] digits_value_less [OF 3 [symmetric] d(2,1), of 0] show ?thesis
      by (cases s t rule: linorder_cases) (auto simp: compare_numeric_identifiers_def)
  qed
  then show "compare_numeric_identifiers s t = sgn (int (digits_value 0 s) - int (digits_value 0 t))"
    "digits_value 0 s = digits_value 0 t \<longleftrightarrow> s = t" by blast+
qed


subsection \<open>Precedence\<close>

text \<open>
  Precedence as the semantic-version specification has it: three numbers, then the pre-release, which
  comes before the release; identifiers are numbers or texts, and numbers come first.
\<close>

datatype identifier_key = NumberKey nat | TextKey gostring

instantiation identifier_key :: linorder
begin

fun less_identifier_key :: "identifier_key \<Rightarrow> identifier_key \<Rightarrow> bool" where
  "NumberKey m < NumberKey n \<longleftrightarrow> m < n"
| "NumberKey m < TextKey t \<longleftrightarrow> True"
| "TextKey s < NumberKey n \<longleftrightarrow> False"
| "TextKey s < TextKey t \<longleftrightarrow> s < t"

definition less_eq_identifier_key :: "identifier_key \<Rightarrow> identifier_key \<Rightarrow> bool" where
  "a \<le> b \<longleftrightarrow> a < b \<or> a = (b :: identifier_key)"

instance
proof
  fix x y z :: identifier_key
  show "x < y \<longleftrightarrow> x \<le> y \<and> \<not> y \<le> x"
    by (cases x; cases y) (auto simp: less_eq_identifier_key_def)
  show "x \<le> x" by (simp add: less_eq_identifier_key_def)
  show "x \<le> y \<Longrightarrow> y \<le> z \<Longrightarrow> x \<le> z"
    by (cases x; cases y; cases z) (auto simp: less_eq_identifier_key_def)
  show "x \<le> y \<Longrightarrow> y \<le> x \<Longrightarrow> x = y"
    by (cases x; cases y) (auto simp: less_eq_identifier_key_def)
  show "x \<le> y \<or> y \<le> x"
    by (cases x; cases y) (auto simp: less_eq_identifier_key_def)
qed

end

datatype stage_key = Prerelease "identifier_key list" | Release

instantiation stage_key :: linorder
begin

fun less_stage_key :: "stage_key \<Rightarrow> stage_key \<Rightarrow> bool" where
  "Prerelease xs < Prerelease ys \<longleftrightarrow> xs < ys"
| "Prerelease xs < Release \<longleftrightarrow> True"
| "Release < s \<longleftrightarrow> False"

definition less_eq_stage_key :: "stage_key \<Rightarrow> stage_key \<Rightarrow> bool" where
  "a \<le> b \<longleftrightarrow> a < b \<or> a = (b :: stage_key)"

instance
proof
  fix x y z :: stage_key
  show "x < y \<longleftrightarrow> x \<le> y \<and> \<not> y \<le> x"
    by (cases x; cases y) (auto simp: less_eq_stage_key_def)
  show "x \<le> x" by (simp add: less_eq_stage_key_def)
  show "x \<le> y \<Longrightarrow> y \<le> z \<Longrightarrow> x \<le> z"
    by (cases x; cases y; cases z) (auto simp: less_eq_stage_key_def)
  show "x \<le> y \<Longrightarrow> y \<le> x \<Longrightarrow> x = y"
    by (cases x; cases y) (auto simp: less_eq_stage_key_def)
  show "x \<le> y \<or> y \<le> x"
    by (cases x; cases y) (auto simp: less_eq_stage_key_def)
qed

end

definition identifier_key :: "prerelease_identifier \<Rightarrow> identifier_key" where
  "identifier_key i = (if preNumeric i then NumberKey (digits_value 0 (preValue i)) else TextKey (preValue i))"

definition precedence :: "semantic_version \<Rightarrow> nat list \<times> stage_key" where
  "precedence v = (map (digits_value 0) (svCore v),
     if svPrerelease v = [] then Release else Prerelease (map identifier_key (svPrerelease v)))"

definition order_sign :: "'a::linorder \<Rightarrow> 'a \<Rightarrow> int" where
  "order_sign a b = (if a < b then -1 else if b < a then 1 else 0)"

definition wf_prerelease :: "prerelease_identifier \<Rightarrow> bool" where
  "wf_prerelease i \<longleftrightarrow> i = prerelease_of (preValue i) \<and> valid_identifier True (preValue i)"

definition wf_version :: "semantic_version \<Rightarrow> bool" where
  "wf_version v \<longleftrightarrow> length (svCore v) = 3 \<and> list_all valid_numeric_identifier (svCore v)
     \<and> list_all wf_prerelease (svPrerelease v)"

lemma order_sign_less: "order_sign a b < 0 \<longleftrightarrow> a < b"
  by (auto simp: order_sign_def)

lemma order_sign_map_nat: "sgn (int m - int n) = order_sign m n"
  by (auto simp: order_sign_def)

lemma first_difference_order:
  assumes "\<And>x y. x \<in> set xs \<Longrightarrow> y \<in> set ys \<Longrightarrow> cmp x y = order_sign (key x) (key y)"
  shows "order_sign (map key xs) (map key ys) =
    (if first_difference cmp xs ys \<noteq> 0 then first_difference cmp xs ys
     else order_sign (length xs) (length ys))"
  using assms
proof (induction xs ys rule: list_induct2')
  case (4 x xs y ys)
  have "cmp x y = order_sign (key x) (key y)" using 4 by simp
  moreover have "order_sign (map key xs) (map key ys) =
      (if first_difference cmp xs ys \<noteq> 0 then first_difference cmp xs ys
       else order_sign (length xs) (length ys))" using 4 by simp
  moreover have "order_sign (key x # as) (key y # bs) = (if key x = key y then order_sign as bs
      else order_sign (key x) (key y))" for as bs by (auto simp: order_sign_def)
  moreover have "order_sign (key x) (key y) = 0 \<longleftrightarrow> key x = key y" by (auto simp: order_sign_def)
  moreover have "order_sign (Suc m) (Suc n) = order_sign m n" for m n by (simp add: order_sign_def)
  ultimately show ?case by simp
qed (auto simp: order_sign_def)

lemma numeric_order:
  "valid_numeric_identifier s \<Longrightarrow> valid_numeric_identifier t \<Longrightarrow>
     compare_numeric_identifiers s t = order_sign (digits_value 0 s) (digits_value 0 t)"
  using compare_numeric(1) order_sign_map_nat by simp

lemma identifier_order:
  assumes "wf_prerelease i" "wf_prerelease j"
  shows "compare_prerelease_identifier i j = order_sign (identifier_key i) (identifier_key j)"
proof -
  have num: "valid_numeric_identifier (preValue k)" if "wf_prerelease k" "preNumeric k" for k
  proof -
    from that have "all_digits (preValue k)" "valid_identifier True (preValue k)"
      unfolding wf_prerelease_def prerelease_of_def by (metis prerelease_identifier.select_convs(2), blast)
    then show ?thesis by (cases "preValue k") (auto simp: valid_numeric_identifier_def valid_identifier_def)
  qed
  show ?thesis
    using numeric_order [OF num [OF assms(1)] num [OF assms(2)]]
    by (auto simp: compare_prerelease_identifier_def identifier_key_def order_sign_def)
qed

lemma compare_order:
  assumes "wf_version l" "wf_version r"
  shows "compare_semantic_versions l r = order_sign (precedence l) (precedence r)"
proof -
  have core: "order_sign (map (digits_value 0) (svCore l)) (map (digits_value 0) (svCore r))
    = first_difference compare_numeric_identifiers (svCore l) (svCore r)"
  proof -
    have "order_sign (map (digits_value 0) (svCore l)) (map (digits_value 0) (svCore r)) =
      (if first_difference compare_numeric_identifiers (svCore l) (svCore r) \<noteq> 0
       then first_difference compare_numeric_identifiers (svCore l) (svCore r)
       else order_sign (length (svCore l)) (length (svCore r)))"
      by (rule first_difference_order) (use assms numeric_order in \<open>simp add: wf_version_def list_all_iff\<close>)
    moreover have "order_sign (length (svCore l)) (length (svCore r)) = 0"
      using assms by (simp add: wf_version_def order_sign_def)
    ultimately show ?thesis by simp
  qed
  have pre: "order_sign (map identifier_key (svPrerelease l)) (map identifier_key (svPrerelease r)) =
    (if first_difference compare_prerelease_identifier (svPrerelease l) (svPrerelease r) \<noteq> 0
     then first_difference compare_prerelease_identifier (svPrerelease l) (svPrerelease r)
     else order_sign (length (svPrerelease l)) (length (svPrerelease r)))"
    by (rule first_difference_order) (use assms identifier_order in \<open>simp add: wf_version_def list_all_iff\<close>)
  have stage: "order_sign (snd (precedence l)) (snd (precedence r)) =
    (if svPrerelease l = [] \<and> svPrerelease r = [] then 0 else if svPrerelease l = [] then 1
     else if svPrerelease r = [] then -1
     else order_sign (map identifier_key (svPrerelease l)) (map identifier_key (svPrerelease r)))"
    by (auto simp: precedence_def order_sign_def)
  have "order_sign (precedence l) (precedence r) =
    (if order_sign (fst (precedence l)) (fst (precedence r)) \<noteq> 0
     then order_sign (fst (precedence l)) (fst (precedence r))
     else order_sign (snd (precedence l)) (snd (precedence r)))"
    by (cases "precedence l"; cases "precedence r") (auto simp: order_sign_def)
  then show ?thesis
    unfolding compare_semantic_versions_def Let_def stage pre core [symmetric]
    by (simp add: precedence_def order_sign_def [of "length _"])
qed


subsection \<open>What parses\<close>

definition render :: "semantic_version \<Rightarrow> gostring" where
  "render v = join ''.'' (svCore v)
     @ (if svPrerelease v = [] then [] else ''-'' @ join ''.'' (map preValue (svPrerelease v)))"

definition identifier_byte :: "char \<Rightarrow> bool" where
  "identifier_byte c \<longleftrightarrow> ascii_letter_or_digit (byte c) \<or> byte c = 45"

lemma valid_identifier_bytes:
  "valid_identifier p s \<Longrightarrow> s \<noteq> [] \<and> list_all identifier_byte s"
  unfolding valid_identifier_def identifier_byte_def
  by (subst (asm) runes_all) (auto simp: ascii_letter_or_digit_def)

lemma identifier_bytes_plain:
  "list_all identifier_byte s \<Longrightarrow> CHR ''.'' \<notin> set s \<and> CHR ''+'' \<notin> set s"
  by (auto simp: list_all_iff identifier_byte_def ascii_letter_or_digit_def byte_def)

lemma numeric_bytes_plain:
  "valid_numeric_identifier s \<Longrightarrow> s \<noteq> [] \<and> CHR ''.'' \<notin> set s \<and> CHR ''+'' \<notin> set s \<and> CHR ''-'' \<notin> set s"
  by (auto simp: valid_numeric_identifier_def all_digits_bytes list_all_iff byte_def)

lemma join_chars: "c \<in> set (join ''.'' ws) \<Longrightarrow> c = CHR ''.'' \<or> (\<exists>w \<in> set ws. c \<in> set w)"
  using set_join [of "''.''" ws] by auto

lemma cut_at_absent: "d \<notin> set s \<Longrightarrow> cut_at d s = (s, [], False)"
  by (induction s) auto

lemma cut_at_first: "d \<notin> set a \<Longrightarrow> cut_at d (a @ d # b) = (a, b, True)"
  by (induction a) auto

lemma find_none: "find P xs = None \<longleftrightarrow> list_all (\<lambda>x. \<not> P x) xs"
  by (induction xs) auto

lemma prerelease_of_wf: "valid_identifier True s \<Longrightarrow> wf_prerelease (prerelease_of s)"
  by (simp add: wf_prerelease_def prerelease_of_def)

lemma prerelease_of_value: "list_all wf_prerelease is \<Longrightarrow> map prerelease_of (map preValue is) = is"
  by (induction "is") (auto simp: wf_prerelease_def)

lemma wf_version_parts:
  assumes "wf_version v"
  shows "split_on (CHR ''.'') (join ''.'' (svCore v)) = svCore v" "CHR ''-'' \<notin> set (join ''.'' (svCore v))"
    "CHR ''+'' \<notin> set (render v)" "find (\<lambda>p. \<not> valid_numeric_identifier p) (svCore v) = None"
proof -
  have core: "w \<noteq> [] \<and> CHR ''.'' \<notin> set w \<and> CHR ''+'' \<notin> set w \<and> CHR ''-'' \<notin> set w" if "w \<in> set (svCore v)" for w
    using assms that numeric_bytes_plain by (simp add: wf_version_def list_all_iff)
  have pre: "CHR ''+'' \<notin> set (preValue i)" if "i \<in> set (svPrerelease v)" for i
    using assms that valid_identifier_bytes identifier_bytes_plain
    by (fastforce simp: wf_version_def list_all_iff wf_prerelease_def)
  show "split_on (CHR ''.'') (join ''.'' (svCore v)) = svCore v"
    by (rule split_join) (use assms core in \<open>auto simp: wf_version_def\<close>)
  show "CHR ''-'' \<notin> set (join ''.'' (svCore v))" using core join_chars by fastforce
  show "CHR ''+'' \<notin> set (render v)" using core pre join_chars 
    by (auto simp: render_def dest!: join_chars)
  show "find (\<lambda>p. \<not> valid_numeric_identifier p) (svCore v) = None"
    using assms by (simp add: find_none wf_version_def)
qed

lemma parse_release:
  assumes "wf_version v"
  shows "(case cut_at (CHR ''-'') (render v) of (core, pre, has_pre) \<Rightarrow>
          let parts = split_on (CHR ''.'') core in
          if length parts \<noteq> 3 then Inl WantThreeParts
          else (case find (\<lambda>p. \<not> valid_numeric_identifier p) parts of
                  Some p \<Rightarrow> Inl (InvalidCore p)
                | None \<Rightarrow>
                    if \<not> has_pre then Inr \<lparr>svCore = parts, svPrerelease = []\<rparr>
                    else if \<not> valid_identifiers True pre then Inl (InvalidPrerelease pre)
                    else Inr \<lparr>svCore = parts,
                               svPrerelease = map prerelease_of (split_on (CHR ''.'') pre)\<rparr>)) = Inr v"
proof (cases "svPrerelease v = []")
  case True
  with wf_version_parts [OF assms] assms show ?thesis
    by (simp add: render_def cut_at_absent wf_version_def)
next
  case False
  let ?vs = "map preValue (svPrerelease v)"
  have vs: "list_all (valid_identifier True) ?vs"
    using assms by (auto simp: wf_version_def list_all_iff wf_prerelease_def)
  have "\<forall>w \<in> set ?vs. CHR ''.'' \<notin> set w"
    using vs valid_identifier_bytes identifier_bytes_plain by (fastforce simp: list_all_iff)
  with False have split: "split_on (CHR ''.'') (join ''.'' ?vs) = ?vs" by (intro split_join) simp_all
  moreover have "join ''.'' ?vs \<noteq> []"
    using vs valid_identifier_bytes False by (subst join_eq_Nil) (auto simp: list_all_iff)
  ultimately have "valid_identifiers True (join ''.'' ?vs)" using vs by (simp add: valid_identifiers_def)
  moreover have "map prerelease_of ?vs = svPrerelease v"
    by (rule prerelease_of_value) (use assms in \<open>simp add: wf_version_def\<close>)
  ultimately show ?thesis
    using wf_version_parts [OF assms] assms False split
    by (simp add: render_def cut_at_first wf_version_def)
qed

lemma parse_render:
  assumes "wf_version v"
  shows "parse_semantic_version (render v) = Inr v"
    "valid_identifiers False b \<Longrightarrow> CHR ''+'' \<notin> set b \<Longrightarrow> parse_semantic_version (render v @ ''+'' @ b) = Inr v"
  using parse_release [OF assms] wf_version_parts(3) [OF assms]
  by (simp_all add: parse_semantic_version_def cut_at_absent cut_at_first)

lemma parse_sound:
  assumes "parse_semantic_version s = Inr v"
  shows "wf_version v \<and> (s = render v \<or> (\<exists>b. valid_identifiers False b \<and> CHR ''+'' \<notin> set b \<and> s = render v @ ''+'' @ b))"
proof -
  obtain version build hb where c: "cut_at (CHR ''+'') s = (version, build, hb)" by (metis prod_cases3)
  obtain core pre hp where d: "cut_at (CHR ''-'') version = (core, pre, hp)" by (metis prod_cases3)
  let ?parts = "split_on (CHR ''.'') core"
  from assms c d have ok: "hb \<Longrightarrow> valid_identifiers False build \<and> CHR ''+'' \<notin> set build"
    "length ?parts = 3" "list_all valid_numeric_identifier ?parts"
    "hp \<Longrightarrow> valid_identifiers True pre"
    "v = \<lparr>svCore = ?parts, svPrerelease = (if hp then map prerelease_of (split_on (CHR ''.'') pre) else [])\<rparr>"
    by (auto simp: parse_semantic_version_def Let_def find_none split: if_splits option.splits)
  have pv: "map preValue (map prerelease_of ws) = ws" for ws by (simp add: prerelease_of_def comp_def)
  have "version = render v"
  proof (cases hp)
    case True
    with cut_at_spec [OF d] have "version = core @ CHR ''-'' # pre" by simp
    with True ok(5) show ?thesis by (simp add: render_def join_split_on pv del: map_map)
  next
    case False
    with cut_at_spec [OF d] have "version = core" by simp
    with False ok(5) show ?thesis by (simp add: render_def join_split_on)
  qed
  moreover have "s = (if hb then version @ CHR ''+'' # build else version)"
    using cut_at_spec [OF c] by simp
  moreover have "wf_version v"
    using ok(2-5) by (auto simp: wf_version_def valid_identifiers_def list_all_iff prerelease_of_wf)
  ultimately show ?thesis using ok(1) by (cases hb) auto
qed


subsection \<open>Properties\<close>

text \<open>
  C34: A text parses as a version exactly when it is the canonical text of a well-formed version,
  with or without well-formed build metadata, and then it parses as that version.
\<close>

theorem version_parse_render:
  "parse_semantic_version s = Inr v \<longleftrightarrow>
     wf_version v \<and> (s = render v \<or> (\<exists>b. valid_identifiers False b \<and> CHR ''+'' \<notin> set b \<and> s = render v @ ''+'' @ b))"
  using parse_sound parse_render by blast

text \<open>
  C33: The comparison of two parsed versions is the order of semantic-version precedence: numbers by
  value however many digits they have, a pre-release before its release, numeric identifiers before
  texts, and a shorter pre-release before its extensions.
\<close>

theorem version_comparison_precedence:
  assumes "parse_semantic_version s = Inr v" "parse_semantic_version t = Inr w"
  shows "compare_semantic_versions v w =
    (if precedence v < precedence w then -1 else if precedence v = precedence w then 0 else 1)"
proof -
  from assms have "wf_version v" "wf_version w" using parse_sound by blast+
  with compare_order have "compare_semantic_versions v w = order_sign (precedence v) (precedence w)" by blast
  then show ?thesis by (auto simp: order_sign_def)
qed

lemma sample_versions:
  "parse_semantic_version ''1.9.0-rc.2'' =
     Inr \<lparr>svCore = [''1'', ''9'', ''0''],
          svPrerelease = [\<lparr>preValue = ''rc'', preNumeric = False\<rparr>, \<lparr>preValue = ''2'', preNumeric = True\<rparr>]\<rparr>"
  "parse_semantic_version ''1.10.0'' = Inr \<lparr>svCore = [''1'', ''10'', ''0''], svPrerelease = []\<rparr>"
  by (simp_all add: parse_semantic_version_def valid_numeric_identifier_def all_digits_bytes byte_def
      valid_identifiers_def valid_identifier_def ascii_letter_or_digit_def prerelease_of_def)

theorem version_comparison_precedence_witness:
  "\<exists>v w. parse_semantic_version ''1.9.0-rc.2'' = Inr v \<and> parse_semantic_version ''1.10.0'' = Inr w
     \<and> compare_semantic_versions v w = -1"
  using version_comparison_precedence [OF sample_versions] sample_versions
  by (simp add: precedence_def byte_def)

text \<open>A constraint as a set of versions: at least the lower bounds and below the upper ones.\<close>

definition allowed :: "version_constraint list \<Rightarrow> semantic_version \<Rightarrow> bool" where
  "allowed cs v \<longleftrightarrow> (\<forall>c \<in> set cs. case vcOperator c of
     AtLeast \<Rightarrow> precedence (vcVersion c) \<le> precedence v | Below \<Rightarrow> precedence v < precedence (vcVersion c))"

lemma parse_comparison_wf: "parse_comparison p = Inr c \<Longrightarrow> wf_version (vcVersion c)"
  by (auto simp: parse_comparison_def Let_def dest: parse_sound split: if_splits sum.splits)

lemma parse_constraint_wf: "parse_constraint s = Inr cs \<Longrightarrow> \<forall>c \<in> set cs. wf_version (vcVersion c)"
proof -
  have "parse_comparisons ps = Inr cs \<Longrightarrow> \<forall>c \<in> set cs. wf_version (vcVersion c)" for ps
    by (induction ps arbitrary: cs) (auto dest: parse_comparison_wf split: sum.splits)
  then show "parse_constraint s = Inr cs \<Longrightarrow> \<forall>c \<in> set cs. wf_version (vcVersion c)"
    by (auto simp: parse_constraint_def Let_def split: if_splits)
qed

lemma satisfies_precedence:
  assumes "wf_version v" "wf_version (vcVersion c)"
  shows "satisfies v c \<longleftrightarrow> (case vcOperator c of
     AtLeast \<Rightarrow> precedence (vcVersion c) \<le> precedence v | Below \<Rightarrow> precedence v < precedence (vcVersion c))"
  using compare_order [OF assms]
  by (auto simp: satisfies_def Let_def order_sign_def not_less split: operator.split)

text \<open>
  A gate with a version block accepts a tool's output exactly when the text in the pattern's
  first group is a version inside the constraint; every other outcome is an error or a mismatch, and
  the observed text is reported as soon as it was found.
\<close>

theorem observe_allowed:
  assumes "observe compile v raw = (observed, Inr ok)"
    "\<not> (verCommand v = [] \<and> verPattern v = [] \<and> verConstraint v = [])"
  shows "\<exists>re groups version cs. compile (verPattern v) = Some re \<and> reFind re raw = Some groups
    \<and> observed = groups ! 1 \<and> parse_semantic_version observed = Inr version
    \<and> parse_constraint (verConstraint v) = Inr cs \<and> (ok \<longleftrightarrow> allowed cs version)"
proof -
  from assms obtain re groups version cs where
    r: "compile (verPattern v) = Some re" "reFind re raw = Some groups" "observed = groups ! 1"
    and p: "parse_semantic_version observed = Inr version" "parse_constraint (verConstraint v) = Inr cs"
    and ok: "ok \<longleftrightarrow> list_all (satisfies version) cs"
    unfolding observe_def by (auto simp: Let_def split: if_splits option.splits sum.splits)
  have "wf_version version" using parse_sound [OF p(1)] by blast
  then have "list_all (satisfies version) cs \<longleftrightarrow> allowed cs version"
    using parse_constraint_wf [OF p(2)] satisfies_precedence
    by (auto simp: allowed_def list_all_iff)
  with r p ok show ?thesis by blast
qed

definition sample_block :: version_block where
  "sample_block = \<lparr>verCommand = [''tool''], verPattern = ''p'', verConstraint = ''>=1.9.0-rc.2 <1.10.0''\<rparr>"

definition sample_regex :: "gostring \<Rightarrow> regex option" where
  "sample_regex p = Some \<lparr>reSubexps = 1, reFind = (\<lambda>raw. Some [raw, raw])\<rparr>"

lemma sample_constraint:
  "parse_constraint ''>=1.9.0-rc.2 <1.10.0'' = Inr
     [\<lparr>vcOperator = AtLeast, vcVersion = \<lparr>svCore = [''1'', ''9'', ''0''],
        svPrerelease = [\<lparr>preValue = ''rc'', preNumeric = False\<rparr>, \<lparr>preValue = ''2'', preNumeric = True\<rparr>]\<rparr>\<rparr>,
      \<lparr>vcOperator = Below, vcVersion = \<lparr>svCore = [''1'', ''10'', ''0''], svPrerelease = []\<rparr>\<rparr>]"
proof -
  have "str_fields ''>=1.9.0-rc.2 <1.10.0'' = [''>=1.9.0-rc.2'', ''<1.10.0'']"
    by (simp add: str_fields_def byte_def is_space_def)
  then show ?thesis
    by (simp add: parse_constraint_def parse_comparison_def has_prefix_def trim_prefix_def sample_versions)
qed

theorem observe_allowed_witness:
  "observe sample_regex sample_block ''1.10.0'' = (''1.10.0'', Inr False)
   \<and> (\<exists>cs v. parse_semantic_version ''1.10.0'' = Inr v \<and> \<not> allowed cs v)"
proof -
  have o: "observe sample_regex sample_block ''1.10.0'' = (''1.10.0'', Inr False)"
    by (simp add: observe_def sample_regex_def sample_block_def sample_versions sample_constraint
        satisfies_def compare_semantic_versions_def compare_numeric_identifiers_def Let_def byte_def)
  have "\<not> (verCommand sample_block = [] \<and> verPattern sample_block = [] \<and> verConstraint sample_block = [])"
    by (simp add: sample_block_def)
  from observe_allowed [OF o this] o show ?thesis by blast
qed

end
