(* ===== verification/Constraints.thy ===== *)
theory Constraints
  imports GoText "HOL-Library.Multiset"
begin

text \<open>
  \<open>internal/flywheel/suppression.go\<close>, build constraints: their tags, size limits and evaluation, and
  the metered enumeration of truth assignments that decides implication and equivalence. Expressions
  are those of package \<open>go/build/constraint\<close>; \<open>None\<close> is the nil expression.
\<close>

definition max_match_work :: int where "max_match_work = 1000000"
definition max_constraint_tags :: nat where "max_constraint_tags = 16"
definition max_constraint_nodes :: nat where "max_constraint_nodes = 1024"

datatype expr = TagExpr gostring | NotExpr expr | AndExpr expr expr | OrExpr expr expr

subsection \<open>Evaluation and tags\<close>

primrec eval_expr :: "expr \<Rightarrow> (gostring \<Rightarrow> bool) \<Rightarrow> bool" where
  "eval_expr (TagExpr t) v = v t"
| "eval_expr (NotExpr x) v = (\<not> eval_expr x v)"
| "eval_expr (AndExpr x y) v = (eval_expr x v \<and> eval_expr y v)"
| "eval_expr (OrExpr x y) v = (eval_expr x v \<or> eval_expr y v)"

definition eval_constraint :: "expr option \<Rightarrow> (gostring \<Rightarrow> bool) \<Rightarrow> bool" where
  "eval_constraint e v = (case e of None \<Rightarrow> False | Some x \<Rightarrow> eval_expr x v)"

primrec expr_nodes :: "expr \<Rightarrow> nat" where
  "expr_nodes (TagExpr t) = 1"
| "expr_nodes (NotExpr x) = 1 + expr_nodes x"
| "expr_nodes (AndExpr x y) = 1 + expr_nodes x + expr_nodes y"
| "expr_nodes (OrExpr x y) = 1 + expr_nodes x + expr_nodes y"

definition constraint_node_count :: "expr option \<Rightarrow> nat" where
  "constraint_node_count e = (case e of None \<Rightarrow> 1 | Some x \<Rightarrow> expr_nodes x)"

text \<open>The keys of the tag map, in the order they were added.\<close>

primrec expr_tags :: "expr \<Rightarrow> gostring list \<Rightarrow> gostring list" where
  "expr_tags (TagExpr t) tags = (if t \<in> set tags then tags else tags @ [t])"
| "expr_tags (NotExpr x) tags = expr_tags x tags"
| "expr_tags (AndExpr x y) tags = expr_tags y (expr_tags x tags)"
| "expr_tags (OrExpr x y) tags = expr_tags y (expr_tags x tags)"

definition collect_constraint_tags :: "expr option \<Rightarrow> gostring list \<Rightarrow> gostring list" where
  "collect_constraint_tags e tags = (case e of None \<Rightarrow> tags | Some x \<Rightarrow> expr_tags x tags)"

subsection \<open>Limits\<close>

text \<open>The closure \<open>visit\<close> with its two counters; the answer comes with the counters it leaves.\<close>

primrec visit :: "expr \<Rightarrow> nat \<times> gostring list \<Rightarrow> bool \<times> nat \<times> gostring list" where
  "visit (TagExpr t) s = (case s of (n, tags) \<Rightarrow>
     if n + 1 > max_constraint_nodes then (False, n + 1, tags)
     else (let tags' = (if t \<in> set tags then tags else tags @ [t])
           in (length tags' \<le> max_constraint_tags, n + 1, tags')))"
| "visit (NotExpr x) s = (case s of (n, tags) \<Rightarrow>
     if n + 1 > max_constraint_nodes then (False, n + 1, tags) else visit x (n + 1, tags))"
| "visit (AndExpr x y) s = (case s of (n, tags) \<Rightarrow>
     if n + 1 > max_constraint_nodes then (False, n + 1, tags)
     else (case visit x (n + 1, tags) of (ok, s') \<Rightarrow> if ok then visit y s' else (False, s')))"
| "visit (OrExpr x y) s = (case s of (n, tags) \<Rightarrow>
     if n + 1 > max_constraint_nodes then (False, n + 1, tags)
     else (case visit x (n + 1, tags) of (ok, s') \<Rightarrow> if ok then visit y s' else (False, s')))"

definition constraint_within_limits :: "expr \<Rightarrow> bool" where
  "constraint_within_limits e =
     (case visit e (0, []) of (ok, _, tags) \<Rightarrow> ok \<and> length tags \<le> max_constraint_tags)"

subsection \<open>Metered work\<close>

text \<open>
  The comparison budget and the work of one comparison. \<open>None\<close> is the resource-limit error, which
  every caller returns at once.
\<close>

record meter =
  meterBudget :: int
  meterWork :: int

definition spend_suppression_work :: "int \<Rightarrow> meter \<Rightarrow> meter option" where
  "spend_suppression_work amount m =
     (if amount < 0 \<or> meterBudget m < amount then None else Some (m\<lparr>meterBudget := meterBudget m - amount\<rparr>))"

definition count_work :: "int \<Rightarrow> meter \<Rightarrow> meter option" where
  "count_work amount m =
     (if meterWork m > max_match_work - amount then None else Some (m\<lparr>meterWork := meterWork m + amount\<rparr>))"

definition spend_evaluation :: "bool \<Rightarrow> int \<Rightarrow> meter \<Rightarrow> meter option" where
  "spend_evaluation counted amount m =
     (case spend_suppression_work amount m of
        None \<Rightarrow> None
      | Some m' \<Rightarrow> if counted then count_work amount m' else Some m')"

subsection \<open>Truth assignments\<close>

text \<open>\<open>values[name] = mask&(1<<index) != 0\<close>; a name that is not in the map reads as false.\<close>

fun mask_value :: "gostring list \<Rightarrow> nat \<Rightarrow> gostring \<Rightarrow> bool" where
  "mask_value [] k t = False"
| "mask_value (n # ns) k t = (if t = n then odd k else mask_value ns (k div 2) t)"

fun scan_masks :: "(meter \<Rightarrow> meter option) \<Rightarrow> (nat \<Rightarrow> bool) \<Rightarrow> nat list \<Rightarrow> meter \<Rightarrow> (bool \<times> meter) option" where
  "scan_masks spend ok [] m = Some (True, m)"
| "scan_masks spend ok (k # ks) m =
     (case spend m of
        None \<Rightarrow> None
      | Some m' \<Rightarrow> if ok k then scan_masks spend ok ks m' else Some (False, m'))"

definition constraints_equivalent ::
  "bool \<Rightarrow> expr option \<Rightarrow> expr option \<Rightarrow> meter \<Rightarrow> (bool \<times> meter) option" where
  "constraints_equivalent counted left right m =
     (let tags = collect_constraint_tags right (collect_constraint_tags left [])
      in if length tags > max_constraint_tags then None
         else (let names = sort tags;
                   work = int (constraint_node_count left + constraint_node_count right + length names)
               in scan_masks (spend_evaluation counted work)
                    (\<lambda>k. eval_constraint left (mask_value names k) = eval_constraint right (mask_value names k))
                    [0 ..< 2 ^ length names] m))"

definition constraint_implies :: "expr option \<Rightarrow> expr option \<Rightarrow> meter \<Rightarrow> (bool \<times> meter) option" where
  "constraint_implies left right m =
     (let tags = collect_constraint_tags right (collect_constraint_tags left [])
      in if length tags > max_constraint_tags then None
         else (let names = sort tags;
                   work = int (constraint_node_count left + constraint_node_count right)
               in scan_masks (spend_evaluation True work)
                    (\<lambda>k. \<not> (eval_constraint left (mask_value names k) \<and> \<not> eval_constraint right (mask_value names k)))
                    [0 ..< 2 ^ length names] m))"

subsection \<open>Every assignment is enumerated\<close>

primrec tag_set :: "expr \<Rightarrow> gostring set" where
  "tag_set (TagExpr t) = {t}"
| "tag_set (NotExpr x) = tag_set x"
| "tag_set (AndExpr x y) = tag_set x \<union> tag_set y"
| "tag_set (OrExpr x y) = tag_set x \<union> tag_set y"

lemma expr_tags_set: "set (expr_tags e tags) = tag_set e \<union> set tags"
  by (induction e arbitrary: tags) auto

lemma expr_tags_distinct: "distinct tags \<Longrightarrow> distinct (expr_tags e tags)"
  by (induction e arbitrary: tags) auto

lemma eval_expr_cong: "(\<And>t. t \<in> tag_set e \<Longrightarrow> v t = w t) \<Longrightarrow> eval_expr e v = eval_expr e w"
  by (induction e) auto

lemma mask_value_absent: "t \<notin> set names \<Longrightarrow> mask_value names k t = False"
  by (induction names arbitrary: k) auto

lemma mask_for: "distinct names \<Longrightarrow> \<exists>k < 2 ^ length names. \<forall>t \<in> set names. mask_value names k t = v t"
proof (induction names)
  case (Cons n ns)
  then obtain k where k: "k < 2 ^ length ns" "\<forall>t \<in> set ns. mask_value ns k t = v t" by auto
  let ?k = "2 * k + (if v n then 1 else 0)"
  have "?k div 2 = k" "odd ?k = v n" by simp_all
  moreover have "?k < 2 ^ length (n # ns)" using k(1) by simp
  ultimately have "\<forall>t \<in> set (n # ns). mask_value (n # ns) ?k t = v t"
    using k(2) Cons.prems by (auto simp del: One_nat_def)
  with \<open>?k < 2 ^ length (n # ns)\<close> show ?case by blast
qed simp

lemma scan_masks_result:
  "scan_masks spend ok ks m = Some (b, m') \<Longrightarrow> b \<longleftrightarrow> (\<forall>k \<in> set ks. ok k)"
  by (induction ks arbitrary: m) (auto split: option.splits if_splits)

definition opt_tags :: "expr option \<Rightarrow> gostring set" where
  "opt_tags e = (case e of None \<Rightarrow> {} | Some x \<Rightarrow> tag_set x)"

lemma collect_tags_set: "set (collect_constraint_tags e tags) = opt_tags e \<union> set tags"
  by (simp add: collect_constraint_tags_def opt_tags_def expr_tags_set split: option.split)

lemma collect_tags_distinct: "distinct tags \<Longrightarrow> distinct (collect_constraint_tags e tags)"
  by (simp add: collect_constraint_tags_def expr_tags_distinct split: option.split)

lemma eval_constraint_cong:
  assumes "\<And>t. t \<in> opt_tags e \<Longrightarrow> v t = w t"
  shows "eval_constraint e v = eval_constraint e w"
proof (cases e)
  case (Some x)
  then have "eval_expr x v = eval_expr x w" by (intro eval_expr_cong assms) (simp add: opt_tags_def)
  with Some show ?thesis by (simp add: eval_constraint_def)
qed (simp add: eval_constraint_def)

text \<open>A test over the tags of two expressions that holds of every mask holds of every assignment.\<close>

lemma all_masks:
  assumes "distinct names" "set names = opt_tags l \<union> opt_tags r"
    and "\<And>v w. \<forall>t \<in> set names. v t = w t \<Longrightarrow> P v = P w"
  shows "(\<forall>k \<in> set [0 ..< 2 ^ length names]. P (mask_value names k)) \<longleftrightarrow> (\<forall>v. P v)"
proof
  assume all: "\<forall>k \<in> set [0 ..< 2 ^ length names]. P (mask_value names k)"
  show "\<forall>v. P v"
  proof
    fix v
    obtain k where k: "k < 2 ^ length names" "\<forall>t \<in> set names. mask_value names k t = v t"
      using mask_for [OF assms(1)] by blast
    then have "P (mask_value names k)" using all by simp
    moreover have "P (mask_value names k) = P v" using assms(3) k(2) by blast
    ultimately show "P v" by blast
  qed
qed simp

lemma eval_constraints_cong:
  assumes "S = opt_tags l \<union> opt_tags r" "\<forall>t \<in> S. v t = w t"
  shows "eval_constraint l v = eval_constraint l w" "eval_constraint r v = eval_constraint r w"
  by (rule eval_constraint_cong, use assms in blast)+

lemma constraints_equivalent_semantics:
  assumes "constraints_equivalent counted l r m = Some (b, m')"
  shows "b \<longleftrightarrow> (\<forall>v. eval_constraint l v = eval_constraint r v)"
proof -
  let ?tags = "collect_constraint_tags r (collect_constraint_tags l [])"
  have tags: "distinct (sort ?tags)" "set (sort ?tags) = opt_tags l \<union> opt_tags r"
    by (auto simp: collect_tags_distinct collect_tags_set)
  have "b \<longleftrightarrow> (\<forall>k \<in> set [0 ..< 2 ^ length (sort ?tags)].
      eval_constraint l (mask_value (sort ?tags) k) = eval_constraint r (mask_value (sort ?tags) k))"
    by (rule scan_masks_result)
      (use assms in \<open>simp add: constraints_equivalent_def Let_def split: if_splits\<close>)
  also have "\<dots> \<longleftrightarrow> (\<forall>v. eval_constraint l v = eval_constraint r v)"
    by (rule all_masks [OF tags]) (simp only: eval_constraints_cong [OF tags(2)])
  finally show ?thesis .
qed

lemma constraint_implies_semantics:
  assumes "constraint_implies l r m = Some (b, m')"
  shows "b \<longleftrightarrow> (\<forall>v. eval_constraint l v \<longrightarrow> eval_constraint r v)"
proof -
  let ?tags = "collect_constraint_tags r (collect_constraint_tags l [])"
  let ?P = "\<lambda>v. \<not> (eval_constraint l v \<and> \<not> eval_constraint r v)"
  have tags: "distinct (sort ?tags)" "set (sort ?tags) = opt_tags l \<union> opt_tags r"
    by (auto simp: collect_tags_distinct collect_tags_set)
  have "b \<longleftrightarrow> (\<forall>k \<in> set [0 ..< 2 ^ length (sort ?tags)]. ?P (mask_value (sort ?tags) k))"
    by (rule scan_masks_result)
      (use assms in \<open>simp add: constraint_implies_def Let_def split: if_splits\<close>)
  also have "\<dots> \<longleftrightarrow> (\<forall>v. ?P v)"
    by (rule all_masks [OF tags]) (simp only: eval_constraints_cong [OF tags(2)])
  finally show ?thesis by blast
qed

subsection \<open>The limits decide size and tags\<close>

lemma expr_nodes_pos: "0 < expr_nodes e"
  by (cases e) auto

lemma expr_tags_length: "length tags \<le> length (expr_tags e tags)"
proof (induction e arbitrary: tags)
  case (AndExpr x y)
  from AndExpr(1) [of tags] AndExpr(2) [of "expr_tags x tags"] show ?case by simp
next
  case (OrExpr x y)
  from OrExpr(1) [of tags] OrExpr(2) [of "expr_tags x tags"] show ?case by simp
qed simp_all

definition fits_limits :: "nat \<Rightarrow> gostring list \<Rightarrow> bool" where
  "fits_limits n tags \<longleftrightarrow> n \<le> max_constraint_nodes \<and> length tags \<le> max_constraint_tags"

lemma visit_result:
  "fits_limits n tags \<Longrightarrow>
     (case visit e (n, tags) of (ok, n', tags') \<Rightarrow>
        (ok \<longleftrightarrow> fits_limits (n + expr_nodes e) (expr_tags e tags))
        \<and> (ok \<longrightarrow> n' = n + expr_nodes e \<and> tags' = expr_tags e tags))"
proof (induction e arbitrary: n tags)
  case (TagExpr t)
  then show ?case by (auto simp: fits_limits_def Let_def)
next
  case (NotExpr x)
  show ?case
  proof (cases "n + 1 > max_constraint_nodes")
    case True
    then show ?thesis using expr_nodes_pos [of x] by (simp add: fits_limits_def)
  next
    case False
    with NotExpr(1) [of "n + 1" tags] NotExpr(2) show ?thesis by (simp add: fits_limits_def)
  qed
next
  case (AndExpr x y)
  show ?case
  proof (cases "n + 1 > max_constraint_nodes")
    case True
    then show ?thesis by (simp add: fits_limits_def)
  next
    case False
    obtain ok n1 tags1 where x: "visit x (n + 1, tags) = (ok, n1, tags1)" by (metis prod_cases3)
    with AndExpr(1) [of "n + 1" tags] AndExpr(3) False
    have ih: "ok \<longleftrightarrow> fits_limits (n + 1 + expr_nodes x) (expr_tags x tags)"
      "ok \<Longrightarrow> n1 = n + 1 + expr_nodes x \<and> tags1 = expr_tags x tags" by (auto simp: fits_limits_def)
    show ?thesis
      using False x ih AndExpr(2) [of n1 tags1] expr_tags_length [of "expr_tags x tags" y]
      by (cases ok) (auto simp: fits_limits_def)
  qed
next
  case (OrExpr x y)
  show ?case
  proof (cases "n + 1 > max_constraint_nodes")
    case True
    then show ?thesis by (simp add: fits_limits_def)
  next
    case False
    obtain ok n1 tags1 where x: "visit x (n + 1, tags) = (ok, n1, tags1)" by (metis prod_cases3)
    with OrExpr(1) [of "n + 1" tags] OrExpr(3) False
    have ih: "ok \<longleftrightarrow> fits_limits (n + 1 + expr_nodes x) (expr_tags x tags)"
      "ok \<Longrightarrow> n1 = n + 1 + expr_nodes x \<and> tags1 = expr_tags x tags" by (auto simp: fits_limits_def)
    show ?thesis
      using False x ih OrExpr(2) [of n1 tags1] expr_tags_length [of "expr_tags x tags" y]
      by (cases ok) (auto simp: fits_limits_def)
  qed
qed

lemma within_limits_iff:
  "constraint_within_limits e \<longleftrightarrow> expr_nodes e \<le> max_constraint_nodes \<and> card (tag_set e) \<le> max_constraint_tags"
proof -
  obtain ok n tags where v: "visit e (0, []) = (ok, n, tags)" by (metis prod_cases3)
  have "fits_limits 0 []" by (simp add: fits_limits_def)
  from visit_result [OF this, of e] v
  have "ok \<longleftrightarrow> fits_limits (expr_nodes e) (expr_tags e [])" "ok \<Longrightarrow> tags = expr_tags e []" by simp_all
  moreover have "card (tag_set e) = length (expr_tags e [])"
    using distinct_card [OF expr_tags_distinct [of "[]" e]] by (simp add: expr_tags_set)
  ultimately show ?thesis by (auto simp: constraint_within_limits_def v fits_limits_def)
qed

text \<open>Within the limits, a comparison that starts with enough budget gets its answer.\<close>

lemma scan_masks_total:
  assumes "0 \<le> work" "int (length ks) * work \<le> meterBudget m"
    "meterWork m + int (length ks) * work \<le> max_match_work"
  shows "\<exists>r. scan_masks (spend_evaluation counted work) test ks m = Some r"
  using assms(2,3)
proof (induction ks arbitrary: m)
  case (Cons k ks)
  have rest: "0 \<le> int (length ks) * work" using assms(1) by simp
  have e: "int (length (k # ks)) * work = work + int (length ks) * work" by (simp add: algebra_simps)
  with Cons.prems rest assms(1) have "work \<le> meterBudget m" "meterWork m \<le> max_match_work - work" by linarith+
  with assms(1) have "\<exists>m'. spend_evaluation counted work m = Some m' \<and> meterBudget m' = meterBudget m - work
      \<and> meterWork m' \<le> meterWork m + work"
    by (simp add: spend_evaluation_def spend_suppression_work_def count_work_def)
  then obtain m' where s: "spend_evaluation counted work m = Some m'"
    and m': "meterBudget m' = meterBudget m - work" "meterWork m' \<le> meterWork m + work" by blast
  with Cons.IH [of m'] Cons.prems e s show ?case by auto
qed auto


lemma scan_masks_fits:
  assumes "0 \<le> work" "2 ^ n * work \<le> meterBudget m" "meterWork m + 2 ^ n * work \<le> max_match_work"
  shows "\<exists>b m'. scan_masks (spend_evaluation counted work) test [0 ..< 2 ^ n] m = Some (b, m')"
proof -
  have "int (length [0 ..< 2 ^ n]) = 2 ^ n" by simp
  with assms scan_masks_total [of work "[0 ..< 2 ^ n]" m counted test] show ?thesis by auto
qed

definition decision_cost :: "expr option \<Rightarrow> expr option \<Rightarrow> int" where
  "decision_cost l r = int (constraint_node_count l + constraint_node_count r + card (opt_tags l \<union> opt_tags r))"

text \<open>
  C32: With at most sixteen tags and enough budget and work left, the enumeration decides implication
  and equivalence of build constraints over all assignments of their tags.
\<close>

theorem constraint_decision:
  assumes "card (opt_tags l \<union> opt_tags r) \<le> max_constraint_tags"
    "2 ^ card (opt_tags l \<union> opt_tags r) * decision_cost l r \<le> meterBudget m"
    "meterWork m + 2 ^ card (opt_tags l \<union> opt_tags r) * decision_cost l r \<le> max_match_work"
  shows "(\<exists>m'. constraint_implies l r m = Some (\<forall>v. eval_constraint l v \<longrightarrow> eval_constraint r v, m'))
    \<and> (\<exists>m'. constraints_equivalent counted l r m = Some (\<forall>v. eval_constraint l v = eval_constraint r v, m'))"
proof -
  let ?tags = "collect_constraint_tags r (collect_constraint_tags l [])"
  let ?n = "card (opt_tags l \<union> opt_tags r)"
  have "set ?tags = opt_tags l \<union> opt_tags r" by (auto simp: collect_tags_set)
  moreover have "distinct ?tags" by (simp add: collect_tags_distinct)
  ultimately have n: "length ?tags = ?n" using distinct_card by metis
  let ?w = "int (constraint_node_count l + constraint_node_count r)"
  have le: "2 ^ ?n * ?w \<le> 2 ^ ?n * decision_cost l r" by (simp add: decision_cost_def)
  have "\<exists>b m'. scan_masks (spend_evaluation True ?w) test [0 ..< 2 ^ ?n] m = Some (b, m')" for test
    by (rule scan_masks_fits) (use le assms in linarith)+
  with assms(1) obtain b m1 where i: "constraint_implies l r m = Some (b, m1)"
    by (simp add: constraint_implies_def Let_def n) blast
  have "\<exists>b m'. scan_masks (spend_evaluation counted (decision_cost l r)) test [0 ..< 2 ^ ?n] m = Some (b, m')" for test
    by (rule scan_masks_fits) (use assms in \<open>simp_all add: decision_cost_def\<close>)
  with assms(1) obtain c m2 where e: "constraints_equivalent counted l r m = Some (c, m2)"
    by (simp add: constraints_equivalent_def Let_def n decision_cost_def) blast
  from i e constraint_implies_semantics [OF i] constraints_equivalent_semantics [OF e] show ?thesis by blast
qed

theorem constraint_decision_witness:
  "\<exists>m'. constraint_implies (Some (AndExpr (TagExpr ''linux'') (TagExpr ''cgo''))) (Some (TagExpr ''linux''))
     \<lparr>meterBudget = 100, meterWork = 0\<rparr> = Some (True, m')"
proof -
  let ?l = "Some (AndExpr (TagExpr ''linux'') (TagExpr ''cgo''))" and ?r = "Some (TagExpr ''linux'')"
  have "opt_tags ?l \<union> opt_tags ?r = {''linux'', ''cgo''}" by (auto simp: opt_tags_def)
  then have c: "card (opt_tags ?l \<union> opt_tags ?r) = 2" by simp
  then have "decision_cost ?l ?r = 6" unfolding decision_cost_def by (simp add: constraint_node_count_def)
  with c constraint_decision [of ?l ?r "\<lparr>meterBudget = 100, meterWork = 0\<rparr>" True] show ?thesis
    by (simp add: max_constraint_tags_def max_match_work_def eval_constraint_def)
qed

end
