(* ===== verification/Matching.thy ===== *)
theory Matching
  imports Constraints "HOL-Library.While_Combinator"
begin

text \<open>
  \<open>compareSuppressionSitesBounded\<close> in \<open>internal/flywheel/suppression.go\<close>, the matching between the
  attempted sites (candidates) and the original ones (baselines): a breadth-first search for an
  augmenting path from every candidate, and the flip of the path. Its fixed-size arrays are functions
  of the index; \<open>-1\<close> is \<open>None\<close>.
\<close>

record match_state =
  matchOriginal :: "nat \<Rightarrow> nat option"
  matchCandidate :: "nat \<Rightarrow> nat option"
  seenCandidate :: "nat \<Rightarrow> nat"
  seenOriginal :: "nat \<Rightarrow> nat"
  previous :: "nat \<Rightarrow> nat"

definition fresh_match :: match_state where
  "fresh_match = \<lparr>matchOriginal = (\<lambda>_. None), matchCandidate = (\<lambda>_. None), seenCandidate = (\<lambda>_. 0),
     seenOriginal = (\<lambda>_. 0), previous = (\<lambda>_. 0)\<rparr>"

text \<open>The loop over the edges of one candidate: the free baseline, if one was met, and the queue.\<close>

fun visit_edges :: "nat \<Rightarrow> nat \<Rightarrow> nat list \<Rightarrow> nat list \<Rightarrow> match_state \<Rightarrow> meter \<Rightarrow>
    (nat option \<times> nat list \<times> match_state \<times> meter) option" where
  "visit_edges stamp c [] q s m = Some (None, q, s, m)"
| "visit_edges stamp c (b # bs) q s m =
     (case spend_evaluation True 1 m of
        None \<Rightarrow> None
      | Some m \<Rightarrow>
          if seenOriginal s b = stamp then visit_edges stamp c bs q s m
          else (let s' = s\<lparr>seenOriginal := (seenOriginal s)(b := stamp), previous := (previous s)(b := c)\<rparr>
                in case matchOriginal s b of
                     None \<Rightarrow> Some (Some b, q, s', m)
                   | Some next \<Rightarrow>
                       if seenCandidate s next \<noteq> stamp
                       then visit_edges stamp c bs (q @ [next])
                              (s'\<lparr>seenCandidate := (seenCandidate s)(next := stamp)\<rparr>) m
                       else visit_edges stamp c bs q s' m))"

text \<open>The state of the search loop: the free baseline, the queue, the arrays and the meter.\<close>

type_synonym search = "nat option \<times> nat list \<times> match_state \<times> meter"

definition search_on :: "search option \<Rightarrow> bool" where
  "search_on x = (case x of None \<Rightarrow> False | Some (free, q, s, m) \<Rightarrow> q \<noteq> [] \<and> free = None)"

definition search_step :: "nat list list \<Rightarrow> nat \<Rightarrow> search option \<Rightarrow> search option" where
  "search_step edges stamp x =
     (case x of None \<Rightarrow> None
      | Some (free, q, s, m) \<Rightarrow> visit_edges stamp (hd q) (edges ! hd q) (tl q) s m)"

definition search_free :: "nat list list \<Rightarrow> nat \<Rightarrow> match_state \<Rightarrow> meter \<Rightarrow> search option" where
  "search_free edges start s m =
     while search_on (search_step edges (Suc start))
       (Some (None, [start], s\<lparr>seenCandidate := (seenCandidate s)(start := Suc start)\<rparr>, m))"

definition flip_on :: "nat option \<times> match_state \<Rightarrow> bool" where
  "flip_on x = (fst x \<noteq> None)"

definition flip_step :: "nat option \<times> match_state \<Rightarrow> nat option \<times> match_state" where
  "flip_step x =
     (case x of (free, s) \<Rightarrow>
        (let b = the free; c = previous s b
         in (matchCandidate s c,
             s\<lparr>matchCandidate := (matchCandidate s)(c := Some b),
               matchOriginal := (matchOriginal s)(b := Some c)\<rparr>)))"

definition flip_path :: "nat option \<Rightarrow> match_state \<Rightarrow> match_state" where
  "flip_path free s = snd (while flip_on flip_step (free, s))"

fun match_all :: "nat list list \<Rightarrow> nat list \<Rightarrow> match_state \<Rightarrow> meter \<Rightarrow> (match_state \<times> meter) option" where
  "match_all edges [] s m = Some (s, m)"
| "match_all edges (start # starts) s m =
     (case search_free edges start s m of
        None \<Rightarrow> None
      | Some (free, _, s', m') \<Rightarrow> match_all edges starts (flip_path free s') m')"

subsection \<open>Matchings\<close>

definition edge :: "nat list list \<Rightarrow> nat \<Rightarrow> nat \<Rightarrow> bool" where
  "edge edges c b \<longleftrightarrow> c < length edges \<and> b \<in> set (edges ! c)"

definition matching :: "nat list list \<Rightarrow> match_state \<Rightarrow> bool" where
  "matching edges s \<longleftrightarrow> (\<forall>c b. matchCandidate s c = Some b \<longleftrightarrow> matchOriginal s b = Some c)
     \<and> (\<forall>c b. matchCandidate s c = Some b \<longrightarrow> edge edges c b)"

text \<open>An assignment of every candidate to a baseline of its own.\<close>

definition assignment :: "nat list list \<Rightarrow> (nat \<Rightarrow> nat) \<Rightarrow> bool" where
  "assignment edges f \<longleftrightarrow> (\<forall>c < length edges. f c \<in> set (edges ! c)) \<and> inj_on f {..< length edges}"

subsection \<open>The search\<close>

abbreviation marked :: "nat \<Rightarrow> (nat \<Rightarrow> nat) \<Rightarrow> nat set" where
  "marked stamp seen \<equiv> {i. seen i = stamp}"

text \<open>
  The baselines met so far, latest first: every one was reached along an edge from a marked candidate
  that is the start or the partner of a baseline met earlier.
\<close>

fun chain :: "nat list list \<Rightarrow> nat \<Rightarrow> match_state \<Rightarrow> nat list \<Rightarrow> bool" where
  "chain edges start s [] = True"
| "chain edges start s (b # D) \<longleftrightarrow>
     b \<notin> set D \<and> edge edges (previous s b) b \<and> seenCandidate s (previous s b) = Suc start
     \<and> (previous s b = start \<or> (\<exists>b' \<in> set D. matchCandidate s (previous s b) = Some b'))
     \<and> chain edges start s D"

definition reached :: "nat list list \<Rightarrow> nat \<Rightarrow> nat list \<Rightarrow> match_state \<Rightarrow> bool" where
  "reached edges start D s \<longleftrightarrow> set D = marked (Suc start) (seenOriginal s) \<and> chain edges start s D"

definition marks :: "nat list list \<Rightarrow> nat \<Rightarrow> match_state \<Rightarrow> bool" where
  "marks edges start s \<longleftrightarrow>
     seenCandidate s start = Suc start \<and> marked (Suc start) (seenCandidate s) \<subseteq> {..< length edges}
     \<and> matchCandidate s start = None"

definition all_matched :: "nat \<Rightarrow> match_state \<Rightarrow> bool" where
  "all_matched start s \<longleftrightarrow>
     (\<forall>b. seenOriginal s b = Suc start \<longrightarrow> (\<exists>c. matchOriginal s b = Some c \<and> seenCandidate s c = Suc start))"

definition unmarked :: "nat list list \<Rightarrow> nat \<Rightarrow> match_state \<Rightarrow> nat" where
  "unmarked edges start s = card ({..< length edges} - marked (Suc start) (seenCandidate s))"

lemma chain_cong:
  "chain edges start s D \<Longrightarrow> (\<And>b. b \<in> set D \<Longrightarrow> previous s' b = previous s b) \<Longrightarrow>
   (\<And>x. seenCandidate s x = Suc start \<Longrightarrow> seenCandidate s' x = Suc start) \<Longrightarrow>
   matchCandidate s' = matchCandidate s \<Longrightarrow> chain edges start s' D"
  by (induction D) auto

lemma chain_suffix: "chain edges start s (D1 @ D2) \<Longrightarrow> chain edges start s D2"
  by (induction D1) auto

lemma reached_extend:
  assumes "reached edges start D s" "seenOriginal s b \<noteq> Suc start" "seenCandidate s c = Suc start" "edge edges c b"
    and "c = start \<or> (\<exists>b' \<in> set D. matchCandidate s c = Some b')"
    and "\<And>x. seenCandidate s x = Suc start \<Longrightarrow> seen x = Suc start"
  shows "reached edges start (b # D) (s\<lparr>seenOriginal := (seenOriginal s)(b := Suc start),
    previous := (previous s)(b := c), seenCandidate := seen\<rparr>)"
proof -
  have "b \<notin> set D" using assms(1,2) by (auto simp: reached_def)
  moreover have "chain edges start (s\<lparr>seenOriginal := (seenOriginal s)(b := Suc start),
    previous := (previous s)(b := c), seenCandidate := seen\<rparr>) D"
    by (rule chain_cong) (use assms(1,6) calculation in \<open>auto simp: reached_def\<close>)
  ultimately show ?thesis using assms by (auto simp: reached_def)
qed

text \<open>One candidate's edges.\<close>

definition visit_post ::
  "nat list list \<Rightarrow> nat \<Rightarrow> match_state \<Rightarrow> nat list \<Rightarrow> nat list \<Rightarrow> nat option \<Rightarrow> nat list \<Rightarrow> match_state \<Rightarrow> bool" where
  "visit_post edges start s q bs free q' s' \<longleftrightarrow>
     marks edges start s' \<and> matching edges s' \<and> matchCandidate s' = matchCandidate s
     \<and> marked (Suc start) (seenCandidate s) \<subseteq> marked (Suc start) (seenCandidate s')
     \<and> marked (Suc start) (seenOriginal s) \<subseteq> marked (Suc start) (seenOriginal s')
     \<and> (\<forall>x. seenCandidate s' x = Suc start \<longrightarrow> seenCandidate s x = Suc start
          \<or> (\<exists>b. seenOriginal s' b = Suc start \<and> matchCandidate s x = Some b))
     \<and> (case free of
          None \<Rightarrow> all_matched start s' \<and> set bs \<subseteq> marked (Suc start) (seenOriginal s')
            \<and> length q' + unmarked edges start s' = length q + unmarked edges start s
            \<and> set q \<subseteq> set q' \<and> set q' \<subseteq> marked (Suc start) (seenCandidate s')
            \<and> marked (Suc start) (seenCandidate s') \<subseteq> marked (Suc start) (seenCandidate s) \<union> set q'
        | Some b \<Rightarrow> seenOriginal s' b = Suc start \<and> matchOriginal s' b = None)"

lemma visit_edges_result:
  assumes "visit_edges (Suc start) c bs q s m = Some (free, q', s', m')"
    and "reached edges start D s" "marks edges start s" "all_matched start s" "matching edges s"
    and "seenCandidate s c = Suc start" "c < length edges" "set bs \<subseteq> set (edges ! c)"
    and "c = start \<or> (\<exists>b \<in> set D. matchCandidate s c = Some b)"
    and "set q \<subseteq> marked (Suc start) (seenCandidate s)"
  shows "\<exists>D'. reached edges start D' s' \<and> visit_post edges start s q bs free q' s'"
  using assms
proof (induction bs arbitrary: q s m D)
  case Nil
  then show ?case by (intro exI [of _ D]) (auto simp: visit_post_def)
next
  case (Cons b bs)
  from Cons.prems(1) obtain m1 where m1: "spend_evaluation True 1 m = Some m1" by (auto split: option.splits)
  have edge: "edge edges c b" using Cons.prems(7,8) by (simp add: edge_def)
  show ?case
  proof (cases "seenOriginal s b = Suc start")
    case True
    with Cons.prems(1) m1 have run: "visit_edges (Suc start) c bs q s m1 = Some (free, q', s', m')" by simp
    from Cons.IH [OF run Cons.prems(2-7) _ Cons.prems(9,10)] Cons.prems(8)
    obtain D' where "reached edges start D' s'" "visit_post edges start s q bs free q' s'" by auto
    moreover from this(2) True have "visit_post edges start s q (b # bs) free q' s'"
      by (auto simp: visit_post_def split: option.splits)
    ultimately show ?thesis by blast
  next
    case False
    define s1 where "s1 = s\<lparr>seenOriginal := (seenOriginal s)(b := Suc start), previous := (previous s)(b := c)\<rparr>"
    have keep: "reached edges start (b # D) (s1\<lparr>seenCandidate := seen\<rparr>)"
      if "\<And>x. seenCandidate s x = Suc start \<Longrightarrow> seen x = Suc start" for seen
      using reached_extend [OF Cons.prems(2) False Cons.prems(6) edge Cons.prems(9) that] by (simp add: s1_def)
    have fields [simp]: "matchCandidate s1 = matchCandidate s" "matchOriginal s1 = matchOriginal s"
      "seenCandidate s1 = seenCandidate s" "seenOriginal s1 = (seenOriginal s)(b := Suc start)"
      by (simp_all add: s1_def)
    have same: "s1\<lparr>seenCandidate := seenCandidate s\<rparr> = s1" by (simp add: s1_def)
    have basics: "marks edges start s1" "matching edges s1"
      using Cons.prems(3,5) by (simp_all add: marks_def matching_def)
    show ?thesis
    proof (cases "matchOriginal s b")
      case None
      with Cons.prems(1) m1 False have r: "free = Some b" "s' = s1" by (auto simp: Let_def s1_def)
      with keep [of "seenCandidate s"] same basics None show ?thesis
        by (intro exI [of _ "b # D"]) (auto simp: visit_post_def)
    next
      case (Some c2)
      have c2: "c2 < length edges" "matchCandidate s c2 = Some b"
        using Cons.prems(5) Some by (auto simp: matching_def edge_def)
      define new where "new \<longleftrightarrow> seenCandidate s c2 \<noteq> Suc start"
      define s2 where "s2 = (if new then s1\<lparr>seenCandidate := (seenCandidate s)(c2 := Suc start)\<rparr> else s1)"
      define q2 where "q2 = (if new then q @ [c2] else q)"
      have run: "visit_edges (Suc start) c bs q2 s2 m1 = Some (free, q', s', m')"
        using Cons.prems(1) m1 False Some by (auto simp: Let_def s1_def s2_def q2_def new_def split: if_splits)
      have s2 [simp]: "matchCandidate s2 = matchCandidate s" "matchOriginal s2 = matchOriginal s"
        "seenOriginal s2 = (seenOriginal s)(b := Suc start)" by (simp_all add: s2_def)
      have seen2: "marked (Suc start) (seenCandidate s2) = insert c2 (marked (Suc start) (seenCandidate s))"
        by (auto simp: s2_def new_def)
      have D2: "reached edges start (b # D) s2"
        using keep [of "seenCandidate s"] keep [of "(seenCandidate s)(c2 := Suc start)"] same by (simp add: s2_def)
      have pre: "marks edges start s2" "matching edges s2" "all_matched start s2" "seenCandidate s2 c = Suc start"
        "set q2 \<subseteq> marked (Suc start) (seenCandidate s2)"
        using basics Cons.prems(4,6,10) c2 Some seen2
        by (auto simp: marks_def matching_def all_matched_def q2_def new_def s2_def split: if_splits)
      have count: "length q2 + unmarked edges start s2 = length q + unmarked edges start s"
      proof (cases new)
        case True
        let ?free = "{..< length edges} - marked (Suc start) (seenCandidate s)"
        from True have "c2 \<in> ?free" using c2 by (simp add: new_def)
        then have "Suc (card (?free - {c2})) = card ?free" by (intro card_Suc_Diff1) simp_all
        moreover have "?free - {c2} = {..< length edges} - marked (Suc start) (seenCandidate s2)"
          unfolding seen2 by (rule Diff_insert [symmetric])
        ultimately have "unmarked edges start s = Suc (unmarked edges start s2)"
          by (simp only: unmarked_def)
        with True show ?thesis by (simp add: q2_def)
      qed (simp add: q2_def s2_def unmarked_def)
      from Cons.IH [OF run D2 pre(1,3,2,4) Cons.prems(7) _ _ pre(5)] Cons.prems(8,9)
      obtain D' where D': "reached edges start D' s'" "visit_post edges start s2 q2 bs free q' s'" by auto
      have b': "seenOriginal s' b = Suc start" using D'(2) by (auto simp: visit_post_def)
      have "\<forall>x. seenCandidate s' x = Suc start \<longrightarrow> seenCandidate s x = Suc start
          \<or> (\<exists>b. seenOriginal s' b = Suc start \<and> matchCandidate s x = Some b)"
      proof (intro allI impI)
        fix x assume "seenCandidate s' x = Suc start"
        with D'(2) have "x \<in> marked (Suc start) (seenCandidate s2)
            \<or> (\<exists>b. seenOriginal s' b = Suc start \<and> matchCandidate s x = Some b)"
          by (auto simp: visit_post_def)
        with seen2 b' c2(2) show "seenCandidate s x = Suc start
          \<or> (\<exists>b. seenOriginal s' b = Suc start \<and> matchCandidate s x = Some b)" by auto
      qed
      then have "visit_post edges start s q (b # bs) free q' s'"
        using D'(2) count seen2 unfolding visit_post_def
        by (cases free) (auto simp: q2_def new_def split: if_splits)
      with D'(1) show ?thesis by blast
    qed
  qed
qed


text \<open>The search loop: what it keeps, and that it ends.\<close>

definition search_inv :: "nat list list \<Rightarrow> nat \<Rightarrow> match_state \<Rightarrow> search option \<Rightarrow> bool" where
  "search_inv edges start s0 x \<longleftrightarrow> (case x of None \<Rightarrow> True | Some (free, q, s, m) \<Rightarrow>
     (\<exists>D. reached edges start D s) \<and> marks edges start s \<and> matching edges s
     \<and> matchCandidate s = matchCandidate s0
     \<and> (case free of
          None \<Rightarrow> all_matched start s \<and> set q \<subseteq> marked (Suc start) (seenCandidate s)
            \<and> (\<forall>c. seenCandidate s c = Suc start \<longrightarrow>
                 (c = start \<or> (\<exists>b. seenOriginal s b = Suc start \<and> matchCandidate s c = Some b))
                 \<and> (c \<in> set q \<or> set (edges ! c) \<subseteq> marked (Suc start) (seenOriginal s)))
        | Some b \<Rightarrow> seenOriginal s b = Suc start \<and> matchOriginal s b = None))"

lemma search_step_inv:
  assumes "search_inv edges start s0 x" "search_on x"
  shows "search_inv edges start s0 (search_step edges (Suc start) x)"
    and "(search_step edges (Suc start) x, x) \<in> measure (\<lambda>x. case x of None \<Rightarrow> 0
      | Some (free, q, s, m) \<Rightarrow> Suc (case free of None \<Rightarrow> Suc (length q + unmarked edges start s) | Some _ \<Rightarrow> 0))"
proof -
  from assms(2) obtain c q s m where x: "x = Some (None, c # q, s, m)"
    by (auto simp: search_on_def neq_Nil_conv split: option.splits)
  from assms(1) x obtain D where D: "reached edges start D s" and inv: "marks edges start s" "matching edges s"
    "matchCandidate s = matchCandidate s0" "all_matched start s"
    and q: "set (c # q) \<subseteq> marked (Suc start) (seenCandidate s)"
    and cs: "\<And>c'. seenCandidate s c' = Suc start \<Longrightarrow>
        (c' = start \<or> (\<exists>b. seenOriginal s b = Suc start \<and> matchCandidate s c' = Some b))
        \<and> (c' \<in> set (c # q) \<or> set (edges ! c') \<subseteq> marked (Suc start) (seenOriginal s))"
    by (auto simp: search_inv_def)
  have c: "seenCandidate s c = Suc start" "c < length edges" using q inv(1) by (auto simp: marks_def)
  have via: "c = start \<or> (\<exists>b \<in> set D. matchCandidate s c = Some b)"
    using cs [OF c(1)] D by (auto simp: reached_def)
  have step: "search_step edges (Suc start) x = visit_edges (Suc start) c (edges ! c) q s m"
    by (simp add: search_step_def x)
  show "search_inv edges start s0 (search_step edges (Suc start) x)"
    and "(search_step edges (Suc start) x, x) \<in> measure (\<lambda>x. case x of None \<Rightarrow> 0
      | Some (free, q, s, m) \<Rightarrow> Suc (case free of None \<Rightarrow> Suc (length q + unmarked edges start s) | Some _ \<Rightarrow> 0))"
  proof (atomize (full), cases "visit_edges (Suc start) c (edges ! c) q s m")
    case None
    then show "search_inv edges start s0 (search_step edges (Suc start) x) \<and> (search_step edges (Suc start) x, x)
      \<in> measure (\<lambda>x. case x of None \<Rightarrow> 0
      | Some (free, q, s, m) \<Rightarrow> Suc (case free of None \<Rightarrow> Suc (length q + unmarked edges start s) | Some _ \<Rightarrow> 0))"
      unfolding step by (simp add: search_inv_def x)
  next
    case (Some r)
    obtain free q' s' m' where r: "r = (free, q', s', m')" by (metis prod_cases4)
    from visit_edges_result [OF Some [unfolded r] D inv(1,4,2) c(1,2) subset_refl via] q
    obtain D' where D': "reached edges start D' s'" and post: "visit_post edges start s q (edges ! c) free q' s'"
      by auto
    have basic: "marks edges start s'" "matching edges s'" "matchCandidate s' = matchCandidate s0"
      using post inv(3) by (simp_all add: visit_post_def)
    have "search_inv edges start s0 (Some r)"
    proof (cases free)
      case None
      with post have p: "all_matched start s'" "set (edges ! c) \<subseteq> marked (Suc start) (seenOriginal s')"
        "set q \<subseteq> set q'" "set q' \<subseteq> marked (Suc start) (seenCandidate s')"
        "marked (Suc start) (seenCandidate s') \<subseteq> marked (Suc start) (seenCandidate s) \<union> set q'"
        "marked (Suc start) (seenOriginal s) \<subseteq> marked (Suc start) (seenOriginal s')"
        "matchCandidate s' = matchCandidate s"
        and vis: "\<And>x. seenCandidate s' x = Suc start \<Longrightarrow> seenCandidate s x = Suc start
          \<or> (\<exists>b. seenOriginal s' b = Suc start \<and> matchCandidate s x = Some b)"
        unfolding visit_post_def by simp_all
      have "(c' = start \<or> (\<exists>b. seenOriginal s' b = Suc start \<and> matchCandidate s' c' = Some b))
          \<and> (c' \<in> set q' \<or> set (edges ! c') \<subseteq> marked (Suc start) (seenOriginal s'))"
        if m: "seenCandidate s' c' = Suc start" for c'
      proof
        from vis [OF m] cs [of c'] p(6,7)
        show "c' = start \<or> (\<exists>b. seenOriginal s' b = Suc start \<and> matchCandidate s' c' = Some b)" by auto
        have "seenCandidate s c' = Suc start \<or> c' \<in> set q'" using p(5) m by auto
        then show "c' \<in> set q' \<or> set (edges ! c') \<subseteq> marked (Suc start) (seenOriginal s')"
          using cs [of c'] p(2,3,6) by auto
      qed
      with None D' basic p(1,4) show ?thesis by (auto simp: search_inv_def r)
    next
      case (Some b)
      with D' basic post show ?thesis by (auto simp: search_inv_def r visit_post_def)
    qed
    moreover have "(Some r, x) \<in> measure (\<lambda>x. case x of None \<Rightarrow> 0
      | Some (free, q, s, m) \<Rightarrow> Suc (case free of None \<Rightarrow> Suc (length q + unmarked edges start s) | Some _ \<Rightarrow> 0))"
      using post by (cases free) (auto simp: visit_post_def r x)
    ultimately show "search_inv edges start s0 (search_step edges (Suc start) x) \<and> (search_step edges (Suc start) x, x)
      \<in> measure (\<lambda>x. case x of None \<Rightarrow> 0
      | Some (free, q, s, m) \<Rightarrow> Suc (case free of None \<Rightarrow> Suc (length q + unmarked edges start s) | Some _ \<Rightarrow> 0))"
      by (simp add: step Some)
  qed
qed


definition stamped :: "nat \<Rightarrow> match_state \<Rightarrow> bool" where
  "stamped n s \<longleftrightarrow> (\<forall>x. seenCandidate s x \<le> n \<and> seenOriginal s x \<le> n)"

lemma visit_edges_stamped:
  "visit_edges n c bs q s m = Some (free, q', s', m') \<Longrightarrow> stamped n s \<Longrightarrow> stamped n s'"
  by (induction bs arbitrary: q s m)
    (auto simp: stamped_def Let_def split: option.splits if_splits; fastforce)+

lemma search_free_result:
  assumes "search_free edges start s m = Some (free, q, s', m')"
    and "matching edges s" "matchCandidate s start = None" "start < length edges" "stamped start s"
  shows "search_inv edges start s (Some (free, q, s', m')) \<and> (q = [] \<or> free \<noteq> None) \<and> stamped (Suc start) s'"
proof -
  let ?init = "Some (None, [start], s\<lparr>seenCandidate := (seenCandidate s)(start := Suc start)\<rparr>, m)"
  let ?inv = "\<lambda>x. search_inv edges start s x
    \<and> (case x of None \<Rightarrow> True | Some (free, q, s, m) \<Rightarrow> stamped (Suc start) s)"
  let ?Q = "\<lambda>x. ?inv x \<and> \<not> search_on x"
  have old: "seenCandidate s x \<noteq> Suc start" "seenOriginal s x \<noteq> Suc start" for x
    using assms(5) by (metis Suc_n_not_le_n stamped_def)+
  have "reached edges start [] (s\<lparr>seenCandidate := (seenCandidate s)(start := Suc start)\<rparr>)"
    using old by (simp add: reached_def)
  moreover have "marks edges start (s\<lparr>seenCandidate := (seenCandidate s)(start := Suc start)\<rparr>)"
    using assms(3,4) old by (auto simp: marks_def split: if_splits)
  moreover have "matching edges (s\<lparr>seenCandidate := seen\<rparr>)" for seen using assms(2) by (simp add: matching_def)
  ultimately have "search_inv edges start s ?init"
    using old by (auto simp: search_inv_def all_matched_def split: if_splits)
  moreover have "stamped (Suc start) (s\<lparr>seenCandidate := (seenCandidate s)(start := Suc start)\<rparr>)"
    using assms(5) by (auto simp: stamped_def le_Suc_eq)
  ultimately have "?inv ?init" by simp
  then have "?Q (while search_on (search_step edges (Suc start)) ?init)"
  proof (rule while_rule [where P = ?inv])
    fix x assume x: "?inv x" "search_on x"
    from search_step_inv(1) [of edges start s x] x show "?inv (search_step edges (Suc start) x)"
      by (auto simp: search_step_def search_on_def dest: visit_edges_stamped split: option.splits)
    from search_step_inv(2) [of edges start s x] x show "(search_step edges (Suc start) x, x)
      \<in> measure (\<lambda>x. case x of None \<Rightarrow> 0
      | Some (free, q, s, m) \<Rightarrow> Suc (case free of None \<Rightarrow> Suc (length q + unmarked edges start s) | Some _ \<Rightarrow> 0))" by blast
  qed auto
  with assms(1) have "?Q (Some (free, q, s', m'))" by (simp add: search_free_def)
  then show ?thesis by (auto simp: search_on_def)
qed

text \<open>When the search ends without a free baseline, no assignment exists.\<close>

lemma search_fails:
  assumes "search_inv edges start s0 (Some (None, [], s, m))" "assignment edges f"
  shows False
proof -
  from assms(1) have inv: "marks edges start s" "matching edges s" "all_matched start s"
    and closed: "\<And>c. seenCandidate s c = Suc start \<Longrightarrow> set (edges ! c) \<subseteq> marked (Suc start) (seenOriginal s)"
    by (auto simp: search_inv_def)
  let ?C = "marked (Suc start) (seenCandidate s)" and ?B = "marked (Suc start) (seenOriginal s)"
  have C: "?C \<subseteq> {..< length edges}" "finite ?C" "start \<in> ?C"
    using inv(1) finite_subset by (auto simp: marks_def)
  have "f ` ?C \<subseteq> ?B" using assms(2) C(1) closed by (fastforce simp: assignment_def)
  moreover have "inj_on f ?C" using assms(2) C(1) inj_on_subset by (auto simp: assignment_def)
  moreover have B: "?B \<subseteq> (\<lambda>c. the (matchCandidate s c)) ` (?C - {start})"
  proof
    fix b assume "b \<in> ?B"
    then obtain c where "matchOriginal s b = Some c" "c \<in> ?C" using inv(3) by (auto simp: all_matched_def)
    moreover from this(1) inv(2) have "matchCandidate s c = Some b" by (simp add: matching_def)
    moreover from this inv(1) have "c \<noteq> start" by (auto simp: marks_def)
    ultimately show "b \<in> (\<lambda>c. the (matchCandidate s c)) ` (?C - {start})" by force
  qed
  moreover have "finite ?B" using B C(2) finite_subset by blast
  ultimately have "card ?C \<le> card (?C - {start})"
    using C(2) by (metis (no_types, lifting) card_inj_on_le finite_Diff le_trans surj_card_le)
  with C(2,3) show False by (metis card_Diff1_less leD)
qed

subsection \<open>The flip\<close>

definition flip_inv :: "nat list list \<Rightarrow> nat \<Rightarrow> nat list \<Rightarrow> match_state \<Rightarrow> nat option \<times> match_state \<Rightarrow> bool" where
  "flip_inv edges start D s0 x \<longleftrightarrow> (case x of (free, s) \<Rightarrow>
     previous s = previous s0 \<and> seenCandidate s = seenCandidate s0 \<and> seenOriginal s = seenOriginal s0
     \<and> (\<forall>c c' b. matchCandidate s c = Some b \<longrightarrow> matchCandidate s c' = Some b \<longrightarrow> c = c')
     \<and> (\<forall>c b. matchCandidate s c = Some b \<longrightarrow> edge edges c b)
     \<and> (\<forall>c. c \<noteq> start \<longrightarrow> (matchCandidate s c = None \<longleftrightarrow> matchCandidate s0 c = None))
     \<and> (case free of
          None \<Rightarrow> matchCandidate s start \<noteq> None
            \<and> (\<forall>b c. matchOriginal s b = Some c \<longleftrightarrow> matchCandidate s c = Some b)
        | Some f \<Rightarrow> matchCandidate s start = None \<and> (\<forall>c. matchCandidate s c \<noteq> Some f)
            \<and> (\<forall>b c. b \<noteq> f \<longrightarrow> (matchOriginal s b = Some c \<longleftrightarrow> matchCandidate s c = Some b))
            \<and> (\<exists>D1 D2. D = D1 @ f # D2
                 \<and> (\<forall>c. \<forall>b \<in> set D2. matchCandidate s0 c = Some b \<longrightarrow> matchCandidate s c = Some b))))"

definition flip_left :: "nat list \<Rightarrow> nat option \<Rightarrow> nat" where
  "flip_left D free = (case free of None \<Rightarrow> 0 | Some f \<Rightarrow> Suc (length (takeWhile (\<lambda>b. b \<noteq> f) (rev D))))"

lemma chain_distinct: "chain edges start s D \<Longrightarrow> distinct D"
  by (induction D) auto

lemma flip_left_at: "distinct (D1 @ f # D2) \<Longrightarrow> flip_left (D1 @ f # D2) (Some f) = Suc (length D2)"
  by (subgoal_tac "takeWhile (\<lambda>b. b \<noteq> f) (rev D2 @ f # rev D1) = rev D2")
    (auto simp: flip_left_def takeWhile_append)

lemma flip_step_inv:
  assumes "flip_inv edges start D s0 x" "flip_on x" "chain edges start s0 D"
  shows "flip_inv edges start D s0 (flip_step x) \<and> flip_left D (fst (flip_step x)) < flip_left D (fst x)"
proof -
  from assms(2) obtain f s where x: "x = (Some f, s)" by (cases x) (auto simp: flip_on_def)
  from assms(1) x have prev: "previous s = previous s0" and seen: "seenCandidate s = seenCandidate s0"
      "seenOriginal s = seenOriginal s0"
    and inj: "\<And>c c' b. matchCandidate s c = Some b \<Longrightarrow> matchCandidate s c' = Some b \<Longrightarrow> c = c'"
    and edge: "\<And>c b. matchCandidate s c = Some b \<Longrightarrow> edge edges c b"
    and dom: "\<And>c. c \<noteq> start \<Longrightarrow> matchCandidate s c = None \<longleftrightarrow> matchCandidate s0 c = None"
    and free: "matchCandidate s start = None" "\<And>c. matchCandidate s c \<noteq> Some f"
    and inv: "\<And>b c. b \<noteq> f \<Longrightarrow> matchOriginal s b = Some c \<longleftrightarrow> matchCandidate s c = Some b"
    by (auto simp: flip_inv_def)
  from assms(1) x obtain D1 D2 where D: "D = D1 @ f # D2"
    and keep: "\<And>c b. b \<in> set D2 \<Longrightarrow> matchCandidate s0 c = Some b \<Longrightarrow> matchCandidate s c = Some b"
    by (auto simp: flip_inv_def)
  have dist: "distinct D" using assms(3) by (rule chain_distinct)
  define c where "c = previous s0 f"
  have suffix: "chain edges start s0 (f # D2)" using assms(3) chain_suffix unfolding D by blast
  then have e: "edge edges c f" and via: "c = start \<or> (\<exists>b' \<in> set D2. matchCandidate s0 c = Some b')"
    by (auto simp: c_def)
  define s' where "s' = s\<lparr>matchCandidate := (matchCandidate s)(c := Some f),
      matchOriginal := (matchOriginal s)(f := Some c)\<rparr>"
  have step: "flip_step x = (matchCandidate s c, s')" by (simp add: flip_step_def x Let_def prev c_def s'_def)
  have common: "previous s' = previous s0" "seenCandidate s' = seenCandidate s0" "seenOriginal s' = seenOriginal s0"
    "\<And>c1 c2 b. matchCandidate s' c1 = Some b \<Longrightarrow> matchCandidate s' c2 = Some b \<Longrightarrow> c1 = c2"
    "\<And>c1 b. matchCandidate s' c1 = Some b \<Longrightarrow> edge edges c1 b"
    using prev seen inj edge e free(2) by (auto simp: s'_def split: if_splits)
  show ?thesis
  proof (cases "c = start")
    case True
    have "matchOriginal s' b = Some c1 \<longleftrightarrow> matchCandidate s' c1 = Some b" for b c1
      using inv [of b c1] free True by (auto simp: s'_def)
    moreover have "c1 \<noteq> start \<Longrightarrow> matchCandidate s' c1 = None \<longleftrightarrow> matchCandidate s0 c1 = None" for c1
      using dom [of c1] True by (simp add: s'_def)
    moreover have "matchCandidate s' start \<noteq> None" by (simp add: s'_def True)
    ultimately have "flip_inv edges start D s0 (None, s')"
      unfolding flip_inv_def using common by simp
    moreover have "flip_left D None < flip_left D (Some f)" by (simp add: flip_left_def)
    ultimately show ?thesis unfolding step by (simp add: x True free(1))
  next
    case False
    with via obtain b' where b': "b' \<in> set D2" "matchCandidate s0 c = Some b'" by blast
    from keep [OF this] have sc: "matchCandidate s c = Some b'" .
    from b'(1) obtain E1 E2 where E: "D2 = E1 @ b' # E2" by (meson split_list)
    have ne: "b' \<noteq> f" "b' \<notin> set E2" using dist by (auto simp: D E)
    have "matchOriginal s' b = Some c1 \<longleftrightarrow> matchCandidate s' c1 = Some b" if "b \<noteq> b'" for b c1
      using inv [of b c1] free(2) sc that by (auto simp: s'_def)
    moreover have "matchCandidate s' c1 \<noteq> Some b'" for c1 using inj [of c1 b' c] sc ne(1) by (auto simp: s'_def)
    moreover have "matchCandidate s' start = None" using free(1) False by (simp add: s'_def)
    moreover have "c1 \<noteq> start \<Longrightarrow> matchCandidate s' c1 = None \<longleftrightarrow> matchCandidate s0 c1 = None" for c1
      using dom [of c1] b'(2) by (simp add: s'_def)
    moreover have "matchCandidate s' c1 = Some b" if "b \<in> set E2" "matchCandidate s0 c1 = Some b" for c1 b
      using keep [of b c1] that sc ne(2) by (auto simp: s'_def E)
    then have "\<exists>F1 F2. D = F1 @ b' # F2
        \<and> (\<forall>c. \<forall>b \<in> set F2. matchCandidate s0 c = Some b \<longrightarrow> matchCandidate s' c = Some b)"
      by (intro exI [of _ "D1 @ f # E1"] exI [of _ E2]) (simp add: D E)
    ultimately have "flip_inv edges start D s0 (Some b', s')"
      unfolding flip_inv_def using common by simp
    moreover have "flip_left D (Some b') < flip_left D (Some f)"
      using flip_left_at [of D1 f D2] flip_left_at [of "D1 @ f # E1" b' E2] dist by (simp add: D E)
    ultimately show ?thesis unfolding step by (simp add: x sc)
  qed
qed


lemma flip_path_result:
  assumes "search_inv edges start s0 (Some (Some b, q, s, m))"
  shows "matching edges (flip_path (Some b) s) \<and> matchCandidate (flip_path (Some b) s) start \<noteq> None
    \<and> (\<forall>c. c \<noteq> start \<longrightarrow> (matchCandidate (flip_path (Some b) s) c = None \<longleftrightarrow> matchCandidate s0 c = None))
    \<and> seenCandidate (flip_path (Some b) s) = seenCandidate s \<and> seenOriginal (flip_path (Some b) s) = seenOriginal s"
proof -
  from assms obtain D where D: "set D = marked (Suc start) (seenOriginal s)" "chain edges start s D"
    and inv: "marks edges start s" "matching edges s" "matchCandidate s = matchCandidate s0"
    and b: "seenOriginal s b = Suc start" "matchOriginal s b = None"
    by (auto simp: search_inv_def reached_def)
  from b(1) D(1) have "b \<in> set D" by simp
  then obtain D1 D2 where split: "D = D1 @ b # D2" by (meson split_list)
  have free: "matchCandidate s c \<noteq> Some b" for c using inv(2) b(2) by (auto simp: matching_def)
  have "flip_inv edges start D s (Some b, s)"
    unfolding flip_inv_def using inv(1,2) free split
    by (auto simp: matching_def marks_def)
  then have "flip_inv edges start D s (while flip_on flip_step (Some b, s))
    \<and> \<not> flip_on (while flip_on flip_step (Some b, s))"
  proof (rule while_rule [where P = "flip_inv edges start D s" and r = "measure (\<lambda>x. flip_left D (fst x))"])
    fix x assume "flip_inv edges start D s x" "flip_on x"
    from flip_step_inv [OF this D(2)] show "flip_inv edges start D s (flip_step x)"
      "(flip_step x, x) \<in> measure (\<lambda>x. flip_left D (fst x))" by simp_all
  qed auto
  then have "flip_inv edges start D s (None, flip_path (Some b) s)"
    by (cases "while flip_on flip_step (Some b, s)") (auto simp: flip_path_def flip_on_def)
  with inv(3) show ?thesis by (auto simp: flip_inv_def matching_def)
qed

subsection \<open>The matching as a whole\<close>

lemma flip_none: "flip_path None s = s"
  by (simp add: flip_path_def while_unfold flip_on_def)

lemma match_all_result:
  assumes "match_all edges [k ..< length edges] s m = Some (s', m')" "k \<le> length edges"
    and "matching edges s" "\<forall>c. k \<le> c \<longrightarrow> matchCandidate s c = None" "stamped k s"
  shows "matching edges s' \<and> (\<forall>c. matchCandidate s c \<noteq> None \<longrightarrow> matchCandidate s' c \<noteq> None)
    \<and> ((\<exists>f. assignment edges f) \<longrightarrow> (\<forall>c. k \<le> c \<longrightarrow> c < length edges \<longrightarrow> matchCandidate s' c \<noteq> None))"
  using assms
proof (induction "[k ..< length edges]" arbitrary: k s m)
  case Nil
  then have "length edges \<le> k" by (metis not_le upt_rec list.distinct(1))
  moreover from Nil have "s' = s" by (simp flip: Nil.hyps)
  ultimately show ?case using Nil by auto
next
  case (Cons start starts)
  then have k: "start = k" "k < length edges" "starts = [Suc k ..< length edges]"
    by (metis list.distinct(1) list.inject upt_rec)+
  from Cons.prems(1) k obtain free q s1 m1
    where search: "search_free edges k s m = Some (free, q, s1, m1)"
    and rest: "match_all edges [Suc k ..< length edges] (flip_path free s1) m1 = Some (s', m')"
    by (simp add: upt_rec [of k] split: option.splits prod.splits)
  from search_free_result [OF search Cons.prems(3) _ k(2) Cons.prems(5)] Cons.prems(4)
  have inv: "search_inv edges k s (Some (free, q, s1, m1))" and ends: "q = [] \<or> free \<noteq> None"
    and st: "stamped (Suc k) s1" by auto
  define s2 where "s2 = flip_path free s1"
  have s2: "matching edges s2 \<and> stamped (Suc k) s2
    \<and> (\<forall>c. c \<noteq> k \<longrightarrow> (matchCandidate s2 c = None \<longleftrightarrow> matchCandidate s c = None))
    \<and> (free \<noteq> None \<longrightarrow> matchCandidate s2 k \<noteq> None)"
  proof (cases free)
    case None
    with inv st show ?thesis by (auto simp: s2_def flip_none search_inv_def)
  next
    case (Some b)
    with flip_path_result [of edges k s b q s1 m1] inv st show ?thesis by (auto simp: s2_def stamped_def)
  qed
  have later: "\<forall>c. Suc k \<le> c \<longrightarrow> matchCandidate s2 c = None" using s2 Cons.prems(4) by auto
  from Cons.hyps(1) [OF k(3) rest [folded s2_def] _ _ later] s2 k(2)
  have ih: "matching edges s'" "\<forall>c. matchCandidate s2 c \<noteq> None \<longrightarrow> matchCandidate s' c \<noteq> None"
    "(\<exists>f. assignment edges f) \<longrightarrow> (\<forall>c. Suc k \<le> c \<longrightarrow> c < length edges \<longrightarrow> matchCandidate s' c \<noteq> None)"
    by auto
  have "matchCandidate s k = None" using Cons.prems(4) by simp
  then have "\<forall>c. matchCandidate s c \<noteq> None \<longrightarrow> matchCandidate s' c \<noteq> None"
    using s2 ih(2) by metis
  moreover have "matchCandidate s' k \<noteq> None" if "assignment edges f" for f
  proof -
    have "free \<noteq> None"
    proof
      assume "free = None"
      with ends inv have "search_inv edges k s (Some (None, [], s1, m1))" by simp
      from search_fails [OF this that] show False .
    qed
    with s2 ih(2) show ?thesis by blast
  qed
  ultimately show ?case using ih(1,3) by (metis Suc_leI le_eq_less_or_eq)
qed

lemma fresh_matching: "matching edges fresh_match" "stamped 0 fresh_match" "matchCandidate fresh_match c = None"
  by (simp_all add: matching_def stamped_def fresh_match_def)

lemma match_all_perfect:
  assumes "match_all edges [0 ..< length edges] fresh_match m = Some (s, m')"
  shows "(\<forall>c < length edges. matchCandidate s c \<noteq> None) \<longleftrightarrow> (\<exists>f. assignment edges f)"
proof
  from match_all_result [OF assms _ fresh_matching(1)] fresh_matching(2,3)
  have r: "matching edges s" "(\<exists>f. assignment edges f) \<longrightarrow> (\<forall>c < length edges. matchCandidate s c \<noteq> None)" by auto
  show "\<forall>c < length edges. matchCandidate s c \<noteq> None" if "\<exists>f. assignment edges f" using r(2) that by blast
  assume all: "\<forall>c < length edges. matchCandidate s c \<noteq> None"
  have "assignment edges (\<lambda>c. the (matchCandidate s c))"
    unfolding assignment_def
  proof
    show "\<forall>c < length edges. the (matchCandidate s c) \<in> set (edges ! c)"
      using all r(1) by (auto simp: matching_def edge_def)
    show "inj_on (\<lambda>c. the (matchCandidate s c)) {..< length edges}"
    proof (rule inj_onI)
      fix c d assume cd: "c \<in> {..< length edges}" "d \<in> {..< length edges}"
        "the (matchCandidate s c) = the (matchCandidate s d)"
      with all obtain b where "matchCandidate s c = Some b" "matchCandidate s d = Some b" by force
      then have "matchOriginal s b = Some c" "matchOriginal s b = Some d" using r(1) by (simp_all add: matching_def)
      then show "c = d" by simp
    qed
  qed
  then show "\<exists>f. assignment edges f" by blast
qed

end
