(* ===== verification/Suppressions.thy ===== *)
theory Suppressions
  imports Matching Grouping
begin

text \<open>
  \<open>internal/flywheel/suppression.go\<close> and \<open>integrity.go\<close>: what counts as a suppression, when one
  suppression narrows another, and the comparison of the suppressions before and after an attempt.
  Go syntax trees are not modelled: the loaders that turn a snapshot into sites are parameters of
  \<open>check_suppression_integrity\<close>.
\<close>

subsection \<open>Sites\<close>

definition max_sup_paths :: nat where "max_sup_paths = 8192"
definition max_sup_changed_paths :: nat where "max_sup_changed_paths = 4096"
definition max_sup_go_files :: nat where "max_sup_go_files = 2048"
definition max_sup_path_bytes :: nat where "max_sup_path_bytes = 4096"
definition max_sup_file_bytes :: nat where "max_sup_file_bytes = 2097152"
definition max_sup_snapshot_bytes :: nat where "max_sup_snapshot_bytes = 33554432"
definition max_sup_findings :: nat where "max_sup_findings = 10000"
definition max_sup_aggregate_work :: int where "max_sup_aggregate_work = 10000000"
definition max_sup_build_bytes :: nat where "max_sup_build_bytes = 16384"
definition max_sup_build_depth :: nat where "max_sup_build_depth = 64"

record suppression_scope =
  scopeAll :: bool
  scopeRules :: "gostring list"

record suppression_site =
  siteKind :: gostring
  siteIdentity :: gostring
  siteScope :: suppression_scope
  siteConstraint :: "expr option"
  siteLine :: int
  siteSnippet :: gostring

datatype suppression_error = ResourceLimit | MalformedSyntax | GroupFailed | InvalidFinding

definition no_scope :: suppression_scope where
  "no_scope = \<lparr>scopeAll = False, scopeRules = []\<rparr>"

definition nul :: char where "nul = CHR 0x00"

fun last_rune_start :: "nat \<Rightarrow> nat \<Rightarrow> (nat \<times> gostring) list \<Rightarrow> nat" where
  "last_rune_start i e [] = e"
| "last_rune_start i e ((r, bs) # rest) = (if i > 240 then e else last_rune_start (i + length bs) i rest)"

definition truncate_suppression_text :: "gostring \<Rightarrow> gostring" where
  "truncate_suppression_text v =
     (if length v \<le> 240 then v
      else (let e = last_rune_start 0 0 (chunks v) in if e = 0 then ''suppression'' else take e v))"

text \<open>\<open>integrityFinding\<close>; the code panics where the answer is \<open>Inl\<close>.\<close>

definition integrity_finding ::
  "gostring \<Rightarrow> gostring \<Rightarrow> int \<Rightarrow> gostring \<Rightarrow> gostring \<Rightarrow> (suppression_error, finding) res" where
  "integrity_finding rule file line snippet message =
     (case group [\<lparr>Gate = ''integrity'', Language = ''go'', RuleID = rule, Severity = sev_error,
                   File = file, Line = line, EndLine = 0, Snippet = snippet, Occurrences = [],
                   Message = message, Fingerprint = []\<rparr>] of
        Inl _ \<Rightarrow> Inl InvalidFinding
      | Inr fs \<Rightarrow> Inr (hd fs))"

subsection \<open>Directives in comments\<close>

record parsed_directive =
  dirKind :: gostring
  dirScope :: suppression_scope
  dirLineOffset :: nat

text \<open>
  The case-insensitive comparison is of equally many bytes with an ASCII token: a rune beyond ASCII
  takes several bytes and leaves too few runes, so \<open>strings.EqualFold\<close> compares ASCII letters only.
\<close>

definition suppression_token_remainder :: "gostring \<Rightarrow> gostring \<Rightarrow> bool \<Rightarrow> gostring option" where
  "suppression_token_remainder text tok colon =
     (if length text < length tok
         \<or> map ascii_lower (take (length tok) text) \<noteq> map ascii_lower tok then None
      else if length text = length tok then Some []
      else (let rest = drop (length tok) text; next = fst (decode_rune rest)
            in if is_space next \<or> colon \<and> next = 58 then Some rest else None))"

definition line_feed :: char where "line_feed = CHR 0x0A"

definition normalized_comment_lines :: "gostring \<Rightarrow> gostring list" where
  "normalized_comment_lines text =
     (if has_prefix text ''//'' then [trim_space (trim_prefix text ''//'')]
      else map (\<lambda>l. trim_space (trim_prefix (trim_space l) ''*''))
             (split_on line_feed (trim_suffix (trim_prefix text ''/*'') ''*/'')))"

definition trim_commas :: "gostring \<Rightarrow> gostring" where
  "trim_commas s = rev (dropWhile (\<lambda>c. c = CHR '','') (rev (dropWhile (\<lambda>c. c = CHR '','') s)))"

text \<open>\<open>lower\<close> is \<open>strings.ToLower\<close>, whose Unicode tables are not modelled.\<close>

definition normalized_rule_scope :: "(gostring \<Rightarrow> gostring) \<Rightarrow> gostring list \<Rightarrow> suppression_scope" where
  "normalized_rule_scope lower rules =
     (let names = sort (remdups (filter (\<lambda>r. r \<noteq> []) (map (\<lambda>r. lower (trim_commas (trim_space r))) rules)))
      in \<lparr>scopeAll = (names = []), scopeRules = names\<rparr>)"

definition rule_scope :: "(gostring \<Rightarrow> gostring) \<Rightarrow> gostring \<Rightarrow> suppression_scope" where
  "rule_scope lower v = normalized_rule_scope lower (split_on (CHR '','') v)"

definition nosec_rule :: "gostring \<Rightarrow> bool" where
  "nosec_rule rule \<longleftrightarrow> 2 \<le> length rule \<and> (hd rule = CHR ''G'' \<or> hd rule = CHR ''g'')
     \<and> list_all (\<lambda>r. 48 \<le> r \<and> r \<le> 57) (runes (tl rule))"

definition looks_like_nosec_rule :: "gostring \<Rightarrow> bool" where
  "looks_like_nosec_rule v \<longleftrightarrow> list_all nosec_rule (split_on (CHR '','') (trim_commas v))"

definition line_directive :: "(gostring \<Rightarrow> gostring) \<Rightarrow> nat \<Rightarrow> gostring \<Rightarrow> parsed_directive option" where
  "line_directive lower offset line =
     (let trimmed = trim_space line in
      case suppression_token_remainder trimmed ''nolint'' True of
        Some remainder \<Rightarrow>
          (let remainder = trim_space remainder;
               names = (if has_prefix remainder '':'' then str_fields (trim_space (tl remainder)) else [])
           in Some \<lparr>dirKind = ''nolint'',
                    dirScope = (if names = [] then \<lparr>scopeAll = True, scopeRules = []\<rparr>
                                else rule_scope lower (hd names)),
                    dirLineOffset = offset\<rparr>)
      | None \<Rightarrow>
      (case suppression_token_remainder trimmed ''lint:ignore'' False of
        Some remainder \<Rightarrow>
          (let names = str_fields (trim_space remainder)
           in if names = [] then None
              else Some \<lparr>dirKind = ''lint:ignore'', dirScope = rule_scope lower (hd names),
                         dirLineOffset = offset\<rparr>)
      | None \<Rightarrow>
      (case suppression_token_remainder trimmed ''#nosec'' False of
        Some remainder \<Rightarrow>
          (let rules = concat (map (split_on (CHR '',''))
                 (takeWhile (\<lambda>f. \<not> has_prefix f ''--'' \<and> looks_like_nosec_rule f)
                    (str_fields (trim_space remainder))))
           in Some \<lparr>dirKind = ''nosec'',
                    dirScope = (if rules = [] then \<lparr>scopeAll = True, scopeRules = []\<rparr>
                                else normalized_rule_scope lower rules),
                    dirLineOffset = offset\<rparr>)
      | None \<Rightarrow> None)))"

definition parse_suppression_directives :: "(gostring \<Rightarrow> gostring) \<Rightarrow> gostring \<Rightarrow> parsed_directive list" where
  "parse_suppression_directives lower text =
     (let lines = normalized_comment_lines text
      in concat (map (\<lambda>(i, l). case line_directive lower i l of None \<Rightarrow> [] | Some d \<Rightarrow> [d])
                   (enumerate 0 lines)))"

subsection \<open>Narrowing\<close>

text \<open>\<open>meterWork\<close> counts the comparison's work, \<open>meterBudget\<close> what is left of the analysis.\<close>

definition suppression_narrows ::
  "suppression_site \<Rightarrow> suppression_site \<Rightarrow> meter \<Rightarrow> (bool \<times> meter) option" where
  "suppression_narrows attempted original m =
     (if siteKind attempted = ''build-duplicate-legacy'' \<and> siteKind original = siteKind attempted
      then constraints_equivalent True (siteConstraint attempted) (siteConstraint original) m
      else if siteConstraint attempted \<noteq> None \<or> siteConstraint original \<noteq> None
      then (if siteConstraint attempted = None \<or> siteConstraint original = None then Some (False, m)
            else constraint_implies (siteConstraint attempted) (siteConstraint original) m)
      else if scopeAll (siteScope original) then Some (True, m)
      else if scopeAll (siteScope attempted) then Some (False, m)
      else Some (list_all (\<lambda>r. r \<in> set (scopeRules (siteScope original))) (scopeRules (siteScope attempted)), m))"

text \<open>The edges of one candidate, and of all of them.\<close>

fun site_edges ::
  "suppression_site \<Rightarrow> nat \<Rightarrow> suppression_site list \<Rightarrow> meter \<Rightarrow> (nat list \<times> meter) option" where
  "site_edges c i [] m = Some ([], m)"
| "site_edges c i (b # bs) m =
     (case spend_evaluation True 1 m of
        None \<Rightarrow> None
      | Some m \<Rightarrow>
          (case (if siteIdentity b \<noteq> siteIdentity c then Some (False, m) else suppression_narrows c b m) of
             None \<Rightarrow> None
           | Some (narrows, m) \<Rightarrow>
               (case site_edges c (Suc i) bs m of
                  None \<Rightarrow> None
                | Some (es, m) \<Rightarrow> Some (if narrows then i # es else es, m))))"

fun all_edges ::
  "suppression_site list \<Rightarrow> suppression_site list \<Rightarrow> meter \<Rightarrow> (nat list list \<times> meter) option" where
  "all_edges [] original m = Some ([], m)"
| "all_edges (c # cs) original m =
     (case site_edges c 0 original m of
        None \<Rightarrow> None
      | Some (es, m) \<Rightarrow>
          (case all_edges cs original m of None \<Rightarrow> None | Some (ess, m) \<Rightarrow> Some (es # ess, m)))"

subsection \<open>The comparison\<close>

fun report_unmatched ::
  "gostring \<Rightarrow> (nat \<Rightarrow> nat option) \<Rightarrow> nat \<Rightarrow> suppression_site list \<Rightarrow> finding list \<Rightarrow> meter \<Rightarrow>
     (suppression_error, finding list \<times> meter) res" where
  "report_unmatched file matched i [] found m = Inr (found, m)"
| "report_unmatched file matched i (c # cs) found m =
     (case spend_suppression_work 1 m of
        None \<Rightarrow> Inl ResourceLimit
      | Some m \<Rightarrow>
          if matched i \<noteq> None then report_unmatched file matched (Suc i) cs found m
          else (case integrity_finding ''togi/new-suppression'' file (siteLine c) (siteSnippet c)
                       ''new or moved suppression introduced during a fix attempt'' of
                  Inl e \<Rightarrow> Inl e
                | Inr f \<Rightarrow>
                    if length (found @ [f]) > max_sup_findings then Inl ResourceLimit
                    else report_unmatched file matched (Suc i) cs (found @ [f]) m))"

definition compare_suppression_sites ::
  "gostring \<Rightarrow> suppression_site list \<Rightarrow> suppression_site list \<Rightarrow> int \<Rightarrow>
     (suppression_error, finding list \<times> int) res" where
  "compare_suppression_sites file original attempted left =
     (case all_edges attempted original \<lparr>meterBudget = left, meterWork = 0\<rparr> of
        None \<Rightarrow> Inl ResourceLimit
      | Some (edges, m) \<Rightarrow>
          (case match_all edges [0 ..< length attempted] fresh_match m of
             None \<Rightarrow> Inl ResourceLimit
           | Some (s, m) \<Rightarrow>
               (case report_unmatched file (matchCandidate s) 0 attempted [] m of
                  Inl e \<Rightarrow> Inl e
                | Inr (found, m) \<Rightarrow> Inr (found, meterBudget m))))"


subsection \<open>Build constraints of a file\<close>

text \<open>
  The comments of a file, with the positions that the code takes from the file set.
  \<open>groupBeforePackage\<close>: the group ends before the package clause.
\<close>

record comment =
  commentText :: gostring
  commentLine :: int

record comment_group =
  groupBeforePackage :: bool
  groupEndLine :: int
  groupComments :: "comment list"

record file_comments =
  packageLine :: int
  commentGroups :: "comment_group list"

definition strip_newline :: "gostring \<Rightarrow> gostring" where
  "strip_newline s = (if s \<noteq> [] \<and> last s = line_feed then butlast s else s)"

definition directive_rest :: "gostring \<Rightarrow> bool" where
  "directive_rest s \<longleftrightarrow> \<not> (length s = length (trim_space s) \<and> s \<noteq> [])"

definition is_go_build :: "gostring \<Rightarrow> bool" where
  "is_go_build text =
     (let line = strip_newline text
      in line_feed \<notin> set line \<and> has_prefix line ''//go:build''
         \<and> directive_rest (drop (length ''//go:build'') (trim_space line)))"

definition is_plus_build :: "gostring \<Rightarrow> bool" where
  "is_plus_build text =
     (let line = strip_newline text;
          body = trim_space (drop 2 line)
      in line_feed \<notin> set line \<and> has_prefix line ''//'' \<and> has_prefix body ''+build''
         \<and> directive_rest (drop (length ''+build'') body))"

definition build_directive_text :: "gostring \<Rightarrow> bool" where
  "build_directive_text text = (is_go_build (trim_space text) \<or> is_plus_build (trim_space text))"

fun nesting_within :: "nat \<Rightarrow> nat list \<Rightarrow> bool" where
  "nesting_within depth [] = True"
| "nesting_within depth (r # rs) =
     (if r = 40 then (if depth + 1 > max_sup_build_depth then False else nesting_within (depth + 1) rs)
      else if r = 41 then nesting_within (depth - 1) rs
      else nesting_within depth rs)"

definition build_directive_within_limits :: "gostring \<Rightarrow> bool" where
  "build_directive_within_limits text \<longleftrightarrow>
     length text \<le> max_sup_build_bytes \<and> nesting_within 0 (runes text)"

text \<open>
  \<open>parse\<close> is \<open>constraint.Parse\<close>. \<open>Inr None\<close>: the comment is no effective constraint.
\<close>

definition effective_build_suppression ::
  "(gostring \<Rightarrow> expr option) \<Rightarrow> int \<Rightarrow> comment_group \<Rightarrow> comment \<Rightarrow> (suppression_error, expr option) res" where
  "effective_build_suppression parse package g c =
     (if \<not> groupBeforePackage g \<or> \<not> build_directive_text (commentText c) then Inr None
      else if package - groupEndLine g < 2 then Inr None
      else if \<not> build_directive_within_limits (commentText c) then Inl ResourceLimit
      else (case parse (commentText c) of
              None \<Rightarrow> Inl MalformedSyntax
            | Some e \<Rightarrow> if constraint_within_limits e then Inr (Some e) else Inl ResourceLimit))"

definition snapshot_line :: "int \<Rightarrow> int" where
  "snapshot_line line = (if line < 1 then 1 else line)"

definition build_duplicate_site :: "gostring \<Rightarrow> int \<Rightarrow> suppression_site" where
  "build_duplicate_site form line =
     \<lparr>siteKind = ''build-duplicate'',
      siteIdentity = ''file'' @ nul # ''header'' @ nul # ''duplicate:'' @ form,
      siteScope = \<lparr>scopeAll = True, scopeRules = []\<rparr>, siteConstraint = None, siteLine = line,
      siteSnippet = ''duplicate build constraint''\<rparr>"

record header =
  headerModern :: "expr option"
  headerLegacy :: "(expr \<times> int) list"
  headerDuplicates :: "suppression_site list"
  headerLine :: int

text \<open>The loops over groups and comments.\<close>

fun scan_header ::
  "(gostring \<Rightarrow> expr option) \<Rightarrow> int \<Rightarrow> (comment_group \<times> comment) list \<Rightarrow> header \<Rightarrow> meter \<Rightarrow>
     (suppression_error, header \<times> meter) res" where
  "scan_header parse package [] h m = Inr (h, m)"
| "scan_header parse package ((g, c) # rest) h m =
     (case spend_suppression_work 1 m of
        None \<Rightarrow> Inl ResourceLimit
      | Some m \<Rightarrow>
          (case effective_build_suppression parse package g c of
             Inl e \<Rightarrow> Inl e
           | Inr None \<Rightarrow> scan_header parse package rest h m
           | Inr (Some e) \<Rightarrow>
               (let line = snapshot_line (commentLine c);
                    h1 = (if headerModern h = None \<and> headerLegacy h = [] then h\<lparr>headerLine := line\<rparr> else h);
                    h2 = (if is_go_build (trim_space (commentText c))
                          then (case headerModern h of
                                  None \<Rightarrow> h1\<lparr>headerModern := Some e\<rparr>
                                | Some old \<Rightarrow> h1\<lparr>headerDuplicates := headerDuplicates h1 @ [build_duplicate_site ''go:build'' line],
                                                headerModern := Some (AndExpr old e)\<rparr>)
                          else h1\<lparr>headerLegacy := headerLegacy h1 @ [(e, line)]\<rparr>)
                in scan_header parse package rest h2 m)))"

text \<open>The loop over representatives; the answer is whether one is equivalent.\<close>

fun some_equivalent :: "expr \<Rightarrow> expr list \<Rightarrow> meter \<Rightarrow> (bool \<times> meter) option" where
  "some_equivalent e [] m = Some (False, m)"
| "some_equivalent e (r # rs) m =
     (case constraints_equivalent False (Some e) (Some r) m of
        None \<Rightarrow> None
      | Some (same, m) \<Rightarrow> if same then Some (True, m) else some_equivalent e rs m)"

fun legacy_duplicates ::
  "(expr \<times> int) list \<Rightarrow> expr list \<Rightarrow> suppression_site list \<Rightarrow> meter \<Rightarrow>
     (suppression_site list \<times> meter) option" where
  "legacy_duplicates [] reps found m = Some (found, m)"
| "legacy_duplicates ((e, line) # rest) reps found m =
     (case some_equivalent e reps m of
        None \<Rightarrow> None
      | Some (duplicate, m) \<Rightarrow>
          if duplicate
          then legacy_duplicates rest reps (found @
                 [\<lparr>siteKind = ''build-duplicate-legacy'',
                   siteIdentity = ''file'' @ nul # ''header'' @ nul # ''duplicate:+build'',
                   siteScope = no_scope, siteConstraint = Some e, siteLine = line,
                   siteSnippet = ''duplicate build constraint''\<rparr>]) m
          else legacy_duplicates rest (reps @ [e]) found m)"

fun conjunction :: "expr option \<Rightarrow> (expr \<times> int) list \<Rightarrow> expr option" where
  "conjunction result [] = result"
| "conjunction result ((e, _) # rest) =
     conjunction (Some (case result of None \<Rightarrow> e | Some r \<Rightarrow> AndExpr r e)) rest"

text \<open>\<open>Inr (None, m)\<close>: the file has no build constraint.\<close>

definition effective_file_build_constraint ::
  "(gostring \<Rightarrow> expr option) \<Rightarrow> file_comments \<Rightarrow> meter \<Rightarrow>
     (suppression_error, (expr \<times> int \<times> suppression_site list) option \<times> meter) res" where
  "effective_file_build_constraint parse file m =
     (case scan_header parse (packageLine file)
             (concat (map (\<lambda>g. map (Pair g) (groupComments g)) (commentGroups file)))
             \<lparr>headerModern = None, headerLegacy = [], headerDuplicates = [], headerLine = 1\<rparr> m of
        Inl e \<Rightarrow> Inl e
      | Inr (h, m) \<Rightarrow>
          (case legacy_duplicates (headerLegacy h) [] (headerDuplicates h) m of
             None \<Rightarrow> Inl ResourceLimit
           | Some (duplicates, m) \<Rightarrow>
               (case (if headerModern h = None then conjunction None (headerLegacy h) else headerModern h) of
                  None \<Rightarrow> Inr (None, m)
                | Some result \<Rightarrow>
                    if \<not> constraint_within_limits result then Inl ResourceLimit
                    else Inr (Some (result, headerLine h, duplicates), m))))"

definition build_sites :: "expr \<times> int \<times> suppression_site list \<Rightarrow> suppression_site list" where
  "build_sites b = (case b of (e, line, duplicates) \<Rightarrow>
     \<lparr>siteKind = ''build'', siteIdentity = ''file'' @ nul # ''header'' @ nul # ''build'', siteScope = no_scope,
      siteConstraint = Some e, siteLine = line, siteSnippet = ''build constraint''\<rparr> # duplicates)"

subsection \<open>Changed paths\<close>

record tree_snapshot =
  snapshotFiles :: "(gostring \<times> gostring) list"

text \<open>The union of the paths so far and the bytes so far; \<open>None\<close> is the resource limit.\<close>

fun scan_files ::
  "(gostring \<times> gostring) list \<Rightarrow> gostring list \<times> nat \<Rightarrow> (gostring list \<times> nat) option" where
  "scan_files [] acc = Some acc"
| "scan_files ((path, contents) # rest) acc =
     (case acc of (paths, bytes) \<Rightarrow>
        if length path = 0 \<or> length path > max_sup_path_bytes \<or> length contents > max_sup_file_bytes
           \<or> bytes > max_sup_snapshot_bytes - length contents \<or> parse_path path \<noteq> Inr path then None
        else if path \<in> set paths then scan_files rest (paths, bytes + length contents)
        else if length paths = max_sup_paths then None
        else scan_files rest (paths @ [path], bytes + length contents))"

fun collect_changed ::
  "(gostring \<Rightarrow> bool) \<Rightarrow> gostring list \<Rightarrow> gostring list \<Rightarrow> nat \<Rightarrow> gostring list option" where
  "collect_changed differs [] changed go_files = Some changed"
| "collect_changed differs (p # ps) changed go_files =
     (if \<not> differs p then collect_changed differs ps changed go_files
      else if length changed = max_sup_changed_paths then None
      else if path_ext p = ''.go'' \<and> go_files + 1 > max_sup_go_files then None
      else collect_changed differs ps (changed @ [p]) (if path_ext p = ''.go'' then go_files + 1 else go_files))"

definition bounded_changed_paths :: "tree_snapshot \<Rightarrow> tree_snapshot \<Rightarrow> gostring list option" where
  "bounded_changed_paths original attempted =
     (let before = snapshotFiles original; after = snapshotFiles attempted
      in if length before > max_sup_paths \<or> length after > max_sup_paths then None
         else (case scan_files before ([], 0) of
                 None \<Rightarrow> None
               | Some acc \<Rightarrow>
                   (case scan_files after acc of
                      None \<Rightarrow> None
                    | Some (paths, _) \<Rightarrow>
                        map_option sort (collect_changed (\<lambda>p. map_of before p \<noteq> map_of after p) paths [] 0))))"

subsection \<open>The check\<close>

definition protected_golangci_files :: "gostring list" where
  "protected_golangci_files = [''.golangci.yml'', ''.golangci.yaml'', ''.golangci.toml'', ''.golangci.json'']"

text \<open>
  The loaders over Go syntax: \<open>load\<close> is \<open>loadSuppressionSnapshotBounded\<close> for the changed Go files and
  \<open>sites_of\<close> is \<open>snapshotSitesBounded\<close>; both are given and leave an analysis budget.
\<close>

record 'snap loader =
  load :: "tree_snapshot \<Rightarrow> gostring list \<Rightarrow> int \<Rightarrow> (suppression_error, 'snap \<times> int) res"
  sites_of :: "'snap option \<Rightarrow> gostring \<Rightarrow> int \<Rightarrow> (suppression_error, suppression_site list \<times> int) res"

fun check_files ::
  "'snap loader \<Rightarrow> 'snap option \<Rightarrow> 'snap option \<Rightarrow> gostring list \<Rightarrow> finding list \<Rightarrow> int \<Rightarrow>
     (suppression_error, finding list) res" where
  "check_files L before after [] found left = Inr found"
| "check_files L before after (path # rest) found left =
     (if path_base path \<in> set protected_golangci_files
      then (case integrity_finding ''togi/golangci-config-change'' path 1
                   (truncate_suppression_text (path_base path))
                   ''golangci-lint configuration changed during a fix attempt'' of
              Inl e \<Rightarrow> Inl e
            | Inr f \<Rightarrow> check_files L before after rest (found @ [f]) left)
      else if path_ext path \<noteq> ''.go'' then check_files L before after rest found left
      else (case sites_of L before path left of
              Inl e \<Rightarrow> Inl e
            | Inr (original, left) \<Rightarrow>
                (case sites_of L after path left of
                   Inl e \<Rightarrow> Inl e
                 | Inr (attempted, left) \<Rightarrow>
                     (case compare_suppression_sites path original attempted left of
                        Inl e \<Rightarrow> Inl e
                      | Inr (added, left) \<Rightarrow>
                          if length (found @ added) > max_sup_findings then Inl ResourceLimit
                          else check_files L before after rest (found @ added) left))))"

definition check_suppression_integrity ::
  "'snap loader \<Rightarrow> tree_snapshot \<Rightarrow> tree_snapshot \<Rightarrow> (suppression_error, finding list) res" where
  "check_suppression_integrity L original attempted =
     (case bounded_changed_paths original attempted of
        None \<Rightarrow> Inl ResourceLimit
      | Some changed \<Rightarrow>
          (let go = filter (\<lambda>p. path_ext p = ''.go'') changed;
               finish = (\<lambda>before after left.
                 (case check_files L before after changed [] left of
                    Inl e \<Rightarrow> Inl e
                  | Inr found \<Rightarrow> (case group found of Inl _ \<Rightarrow> Inl GroupFailed | Inr grouped \<Rightarrow> Inr grouped)))
           in if go = [] then finish None None max_sup_aggregate_work
              else (case load L original go max_sup_aggregate_work of
                      Inl e \<Rightarrow> Inl e
                    | Inr (before, left) \<Rightarrow>
                        (case load L attempted go left of
                           Inl e \<Rightarrow> Inl e
                         | Inr (after, left) \<Rightarrow> finish (Some before) (Some after) left))))"

end
