(* ===== verification/SuppressionFacts.thy ===== *)
theory SuppressionFacts
  imports Suppressions
begin

text \<open>
  What the suppression check decides: an attempt passes exactly when every suppression it leaves can
  be charged to a suppression of its own that was there before and is at least as wide.
\<close>

subsection \<open>Narrowing\<close>

definition narrows :: "suppression_site \<Rightarrow> suppression_site \<Rightarrow> bool" where
  "narrows attempted original \<longleftrightarrow>
     (if siteKind attempted = ''build-duplicate-legacy'' \<and> siteKind original = siteKind attempted
      then (\<forall>v. eval_constraint (siteConstraint attempted) v = eval_constraint (siteConstraint original) v)
      else if siteConstraint attempted = None \<and> siteConstraint original = None
      then scopeAll (siteScope original)
        \<or> \<not> scopeAll (siteScope attempted) \<and> set (scopeRules (siteScope attempted)) \<subseteq> set (scopeRules (siteScope original))
      else siteConstraint attempted \<noteq> None \<and> siteConstraint original \<noteq> None
        \<and> (\<forall>v. eval_constraint (siteConstraint attempted) v \<longrightarrow> eval_constraint (siteConstraint original) v))"

lemma suppression_narrows_semantics:
  assumes "suppression_narrows a b m = Some (r, m')"
  shows "r \<longleftrightarrow> narrows a b"
proof -
  consider "siteKind a = ''build-duplicate-legacy'' \<and> siteKind b = siteKind a"
    | "\<not> (siteKind a = ''build-duplicate-legacy'' \<and> siteKind b = siteKind a)"
      "siteConstraint a \<noteq> None" "siteConstraint b \<noteq> None"
    | "\<not> (siteKind a = ''build-duplicate-legacy'' \<and> siteKind b = siteKind a)"
      "\<not> (siteConstraint a \<noteq> None \<and> siteConstraint b \<noteq> None)" by blast
  then show ?thesis
  proof cases
    case 1
    with assms have "constraints_equivalent True (siteConstraint a) (siteConstraint b) m = Some (r, m')"
      by (simp add: suppression_narrows_def)
    from constraints_equivalent_semantics [OF this] 1 show ?thesis by (simp add: narrows_def)
  next
    case 2
    with assms have "constraint_implies (siteConstraint a) (siteConstraint b) m = Some (r, m')"
      by (simp add: suppression_narrows_def)
    from constraint_implies_semantics [OF this] 2 show ?thesis unfolding narrows_def by argo
  next
    case 3
    with assms show ?thesis
      by (auto simp: suppression_narrows_def narrows_def list_all_iff split: if_splits)
  qed
qed

definition replaces :: "suppression_site \<Rightarrow> suppression_site \<Rightarrow> bool" where
  "replaces attempted original \<longleftrightarrow> siteIdentity original = siteIdentity attempted \<and> narrows attempted original"

lemma site_edges_set:
  "site_edges c i bs m = Some (es, m') \<Longrightarrow> set es = {i + k | k. k < length bs \<and> replaces c (bs ! k)}"
proof (induction bs arbitrary: i m es m')
  case (Cons b bs)
  from Cons.prems obtain m1 r m2 es1 m3 where
    r: "(if siteIdentity b \<noteq> siteIdentity c then Some (False, m1) else suppression_narrows c b m1) = Some (r, m2)"
    and rest: "site_edges c (Suc i) bs m2 = Some (es1, m3)" and es: "es = (if r then i # es1 else es1)"
    by (auto split: option.splits prod.splits if_splits)
  have "r \<longleftrightarrow> replaces c b"
    using r by (auto simp: replaces_def dest: suppression_narrows_semantics split: if_splits)
  moreover have "{i + k | k. k < length (b # bs) \<and> replaces c ((b # bs) ! k)}
      = (if replaces c b then {i} else {}) \<union> {Suc i + k | k. k < length bs \<and> replaces c (bs ! k)}" (is "?A = ?B")
  proof (intro set_eqI iffI)
    fix x assume "x \<in> ?A"
    then obtain k where "x = i + k" "k < length (b # bs)" "replaces c ((b # bs) ! k)" by blast
    then show "x \<in> ?B" by (cases k) auto
  next
    fix x assume "x \<in> ?B"
    then consider "replaces c b" "x = i + 0" | k where "x = i + Suc k" "k < length bs" "replaces c (bs ! k)"
      by (auto split: if_splits)
    then show "x \<in> ?A" by cases force+
  qed
  ultimately show ?case using Cons.IH [OF rest] es by simp
qed simp

lemma all_edges_sets:
  "all_edges cs original m = Some (edges, m') \<Longrightarrow>
     length edges = length cs
     \<and> (\<forall>c < length cs. set (edges ! c) = {k. k < length original \<and> replaces (cs ! c) (original ! k)})"
proof (induction cs arbitrary: m edges m')
  case (Cons c cs)
  from Cons.prems obtain es m1 ess m2 where c: "site_edges c 0 original m = Some (es, m1)"
    and rest: "all_edges cs original m1 = Some (ess, m2)" and e: "edges = es # ess"
    by (auto split: option.splits prod.splits)
  from site_edges_set [OF c] Cons.IH [OF rest] show ?case by (auto simp: e nth_Cons split: nat.splits)
qed simp

lemma report_unmatched_prefix:
  "report_unmatched path matched i cs found m = Inr (found', m') \<Longrightarrow>
     length found \<le> length found'
     \<and> (length found' = length found \<longleftrightarrow> (\<forall>k < length cs. matched (i + k) \<noteq> None))"
proof (induction cs arbitrary: i found m)
  case (Cons c cs)
  have split: "(\<forall>k < length (c # cs). matched (i + k) \<noteq> None)
      \<longleftrightarrow> matched i \<noteq> None \<and> (\<forall>k < length cs. matched (Suc i + k) \<noteq> None)"
    by (auto simp: less_Suc_eq_0_disj)
  from Cons.prems obtain m1 where m1: "spend_suppression_work 1 m = Some m1"
    by (auto split: option.splits)
  show ?case
  proof (cases "matched i")
    case None
    with Cons.prems m1 obtain f where "report_unmatched path matched (Suc i) cs (found @ [f]) m1 = Inr (found', m')"
      by (auto split: sum.splits if_splits)
    from Cons.IH [OF this] None show ?thesis unfolding split by simp
  next
    case (Some b)
    with Cons.prems m1 have "report_unmatched path matched (Suc i) cs found m1 = Inr (found', m')" by simp
    from Cons.IH [OF this] Some show ?thesis unfolding split by simp
  qed
qed simp

text \<open>Every attempted site replaces an original site of its own.\<close>

definition no_new_suppression :: "suppression_site list \<Rightarrow> suppression_site list \<Rightarrow> bool" where
  "no_new_suppression original attempted \<longleftrightarrow>
     (\<exists>f. inj_on f {..< length attempted}
        \<and> (\<forall>c < length attempted. f c < length original \<and> replaces (attempted ! c) (original ! f c)))"

lemma compare_sites:
  assumes "compare_suppression_sites path original attempted left = Inr (found, left')"
  shows "found = [] \<longleftrightarrow> no_new_suppression original attempted"
proof -
  from assms obtain edges m s m1 m2 where
    e: "all_edges attempted original \<lparr>meterBudget = left, meterWork = 0\<rparr> = Some (edges, m)"
    and s: "match_all edges [0 ..< length attempted] fresh_match m = Some (s, m1)"
    and r: "report_unmatched path (matchCandidate s) 0 attempted [] m1 = Inr (found, m2)"
    by (auto simp: compare_suppression_sites_def split: option.splits sum.splits prod.splits)
  note sets = all_edges_sets [OF e]
  have "found = [] \<longleftrightarrow> (\<forall>k < length attempted. matchCandidate s k \<noteq> None)"
    using report_unmatched_prefix [OF r] by auto
  also have "\<dots> \<longleftrightarrow> (\<exists>f. assignment edges f)"
    using match_all_perfect [of edges m s m1] s sets by simp
  also have "\<dots> \<longleftrightarrow> no_new_suppression original attempted"
  proof -
    have "assignment edges f \<longleftrightarrow> inj_on f {..< length attempted}
        \<and> (\<forall>c < length attempted. f c < length original \<and> replaces (attempted ! c) (original ! f c))" for f
      using sets by (auto simp: assignment_def)
    then show ?thesis by (simp only: no_new_suppression_def)
  qed
  finally show ?thesis .
qed

subsection \<open>Changed paths\<close>

lemma scan_files_paths:
  "scan_files fs (paths, n) = Some (paths', n') \<Longrightarrow> distinct paths \<Longrightarrow>
     distinct paths' \<and> set paths' = set paths \<union> fst ` set fs \<and> (\<forall>p \<in> fst ` set fs. parse_path p = Inr p)"
proof (induction fs arbitrary: paths n)
  case (Cons e fs)
  obtain p c where e: "e = (p, c)" by (cases e)
  define ps where "ps = (if p \<in> set paths then paths else paths @ [p])"
  from Cons.prems(1) have "parse_path p = Inr p" "scan_files fs (ps, n + length c) = Some (paths', n')"
    by (auto simp: e ps_def split: if_splits)
  moreover have "distinct ps" "set ps = insert p (set paths)" using Cons.prems(2) by (auto simp: ps_def)
  ultimately show ?case using Cons.IH by (auto simp: e)
qed simp

lemma collect_changed_filter:
  "collect_changed differs ps changed n = Some out \<Longrightarrow> out = changed @ filter differs ps"
proof (induction ps arbitrary: changed n)
  case (Cons p ps)
  show ?case
  proof (cases "differs p")
    case True
    with Cons.prems obtain k where "collect_changed differs ps (changed @ [p]) k = Some out"
      by (auto split: if_splits)
    from Cons.IH [OF this] True show ?thesis by simp
  qed (use Cons in simp)
qed simp

lemma changed_paths:
  assumes "bounded_changed_paths original attempted = Some changed"
  shows "sorted changed \<and> distinct changed
    \<and> set changed = {p. map_of (snapshotFiles original) p \<noteq> map_of (snapshotFiles attempted) p}
    \<and> (\<forall>p \<in> set changed. parse_path p = Inr p)"
proof -
  let ?o = "snapshotFiles original" and ?a = "snapshotFiles attempted"
  let ?differs = "\<lambda>p. map_of ?o p \<noteq> map_of ?a p"
  from assms obtain ps n qs k out where p: "scan_files ?o ([], 0) = Some (ps, n)"
    and q: "scan_files ?a (ps, n) = Some (qs, k)"
    and out: "collect_changed ?differs qs [] 0 = Some out" "changed = sort out"
    by (auto simp: bounded_changed_paths_def Let_def split: if_splits option.splits)
  from scan_files_paths [OF p] have ps: "distinct ps" "set ps = fst ` set ?o" "\<forall>p \<in> set ps. parse_path p = Inr p" by auto
  from scan_files_paths [OF q ps(1)] ps have qs: "distinct qs" "set qs = fst ` set ?o \<union> fst ` set ?a"
    "\<forall>p \<in> set qs. parse_path p = Inr p" by auto
  have "p \<in> set qs" if "?differs p" for p
    using that qs(2) by (metis UnCI map_of_eq_None_iff)
  with collect_changed_filter [OF out(1)] out(2) qs(1,3) show ?thesis by auto
qed


subsection \<open>The check\<close>

lemma group_Nil: "group fs = Inr [] \<Longrightarrow> fs = []"
  using group_valid_set [of fs] by (auto simp: group_Inr)

text \<open>The sites of a file before and after an attempt leave no new suppression.\<close>

definition sites_kept ::
  "'snap loader \<Rightarrow> 'snap option \<Rightarrow> 'snap option \<Rightarrow> gostring \<Rightarrow> bool" where
  "sites_kept L before after p \<longleftrightarrow> (\<exists>l original l1 attempted l2.
     sites_of L before p l = Inr (original, l1) \<and> sites_of L after p l1 = Inr (attempted, l2)
     \<and> no_new_suppression original attempted)"

lemma check_files_clean:
  "check_files L before after ps found left = Inr [] \<Longrightarrow> p \<in> set ps \<Longrightarrow>
     path_base p \<notin> set protected_golangci_files
     \<and> (path_ext p = ''.go'' \<longrightarrow> sites_kept L before after p)"
proof (induction ps arbitrary: found left)
  case (Cons q ps)
  have grow: "length found \<le> length out" if "check_files L before after qs found left = Inr out" for qs out found left
    using that
  proof (induction qs arbitrary: found left)
    case (Cons r qs)
    from Cons.prems obtain found' left' where "check_files L before after qs found' left' = Inr out"
      "length found \<le> length found'"
      by (auto split: if_splits sum.splits)
    with Cons.IH show ?case using le_trans by blast
  qed simp
  from Cons.prems(1) have base: "path_base q \<notin> set protected_golangci_files"
    by (auto split: sum.splits dest!: grow)
  show ?case
  proof (cases "path_ext q = ''.go''")
    case False
    with base Cons.prems(1) have "check_files L before after ps found left = Inr []" by simp
    with Cons.IH Cons.prems(2) base False show ?thesis by auto
  next
    case True
    with base Cons.prems(1) obtain original l1 attempted l2 added l3 where
      s: "sites_of L before q left = Inr (original, l1)" "sites_of L after q l1 = Inr (attempted, l2)"
      and c: "compare_suppression_sites q original attempted l2 = Inr (added, l3)"
      and rest: "check_files L before after ps (found @ added) l3 = Inr []"
      by (auto split: if_splits sum.splits)
    from grow [OF rest] have "added = []" by simp
    with compare_sites [OF c] have "no_new_suppression original attempted" by simp
    with s have "sites_kept L before after q" unfolding sites_kept_def by blast
    with base Cons.IH [OF rest] Cons.prems(2) show ?thesis by auto
  qed
qed simp


subsection \<open>Properties\<close>

text \<open>
  C31: The comparison of the suppressions of a file reports nothing exactly when the attempted sites
  can be assigned to distinct original sites with the same identity, each at most as wide as its
  original: the matching by augmenting paths misses no assignment.
\<close>

theorem compare_sites_exact:
  assumes "compare_suppression_sites path original attempted left = Inr (found, left')"
  shows "found = [] \<longleftrightarrow> (\<exists>f. inj_on f {..< length attempted}
    \<and> (\<forall>c < length attempted. f c < length original
         \<and> siteIdentity (original ! f c) = siteIdentity (attempted ! c) \<and> narrows (attempted ! c) (original ! f c)))"
  using compare_sites [OF assms] by (simp add: no_new_suppression_def replaces_def)

definition sample_site :: "suppression_scope \<Rightarrow> suppression_site" where
  "sample_site sc = \<lparr>siteKind = ''nolint'', siteIdentity = ''f'', siteScope = sc, siteConstraint = None,
     siteLine = 3, siteSnippet = ''f: nolint''\<rparr>"

lemma sample_compare:
  "compare_suppression_sites ''a.go'' [sample_site \<lparr>scopeAll = True, scopeRules = []\<rparr>]
     [sample_site \<lparr>scopeAll = False, scopeRules = [''errcheck'']\<rparr>] 100 = Inr ([], 97)"
  by (simp add: compare_suppression_sites_def sample_site_def spend_evaluation_def spend_suppression_work_def
      count_work_def max_match_work_def suppression_narrows_def search_free_def while_unfold search_on_def
      search_step_def fresh_match_def flip_path_def flip_on_def flip_step_def Let_def)

theorem compare_sites_exact_witness:
  "\<exists>f :: nat \<Rightarrow> nat. f 0 < 1 \<and> narrows (sample_site \<lparr>scopeAll = False, scopeRules = [''errcheck'']\<rparr>)
     (sample_site \<lparr>scopeAll = True, scopeRules = []\<rparr>)"
  using compare_sites_exact [OF sample_compare] by auto

text \<open>
  C30: An attempt that passes the suppression check changed no golangci-lint configuration. If it changed a Go file,
  the loader read, from the whole budget, the syntax of exactly the changed Go files in path order, first of the
  original and then of the attempted tree, and in every one of them the suppressions that the attempt leaves are
  assigned to distinct, at least as wide suppressions of the original.
\<close>

theorem integrity_check_sound:
  assumes "check_suppression_integrity L original attempted = Inr []"
    "map_of (snapshotFiles original) p \<noteq> map_of (snapshotFiles attempted) p"
  shows "path_base p \<notin> set protected_golangci_files
    \<and> (path_ext p = ''.go'' \<longrightarrow> (\<exists>go before after l2 l3.
         set go = {q. path_ext q = ''.go'' \<and> map_of (snapshotFiles original) q \<noteq> map_of (snapshotFiles attempted) q}
         \<and> sorted go \<and> distinct go
         \<and> load L original go max_sup_aggregate_work = Inr (before, l2) \<and> load L attempted go l2 = Inr (after, l3)
         \<and> sites_kept L (Some before) (Some after) p))"
proof -
  obtain changed where c: "bounded_changed_paths original attempted = Some changed"
    using assms(1) by (auto simp: check_suppression_integrity_def split: option.splits)
  note ch = changed_paths [OF c]
  from ch assms(2) have p: "p \<in> set changed" by simp
  let ?go = "filter (\<lambda>p. path_ext p = ''.go'') changed"
  have go: "set ?go = {q. path_ext q = ''.go'' \<and> map_of (snapshotFiles original) q \<noteq> map_of (snapshotFiles attempted) q}"
    "sorted ?go" "distinct ?go"
    using ch sorted_filter [of "\<lambda>x. x" changed] by auto
  show ?thesis
  proof (cases "?go = []")
    case True
    with assms(1) c obtain found where "check_files L None None changed [] max_sup_aggregate_work = Inr found"
      "group found = Inr []"
      by (auto simp: check_suppression_integrity_def Let_def split: sum.splits)
    with check_files_clean [of L None None changed "[]"] p group_Nil True show ?thesis
      by (auto simp: filter_empty_conv)
  next
    case False
    with assms(1) c obtain before l2 after l3 found where
      l: "load L original ?go max_sup_aggregate_work = Inr (before, l2)" "load L attempted ?go l2 = Inr (after, l3)"
      and f: "check_files L (Some before) (Some after) changed [] l3 = Inr found" "group found = Inr []"
      by (auto simp: check_suppression_integrity_def Let_def split: sum.splits)
    from f group_Nil have "check_files L (Some before) (Some after) changed [] l3 = Inr []" by blast
    from check_files_clean [OF this p] l go show ?thesis by blast
  qed
qed

text \<open>A loader whose trees have one suppression, wider in the original than in the attempted tree.\<close>

definition sample_loader :: "suppression_site loader" where
  "sample_loader = \<lparr>load = (\<lambda>t _ l. Inr (sample_site (if map_of (snapshotFiles t) ''a.go'' = Some ''x''
       then \<lparr>scopeAll = True, scopeRules = []\<rparr> else \<lparr>scopeAll = False, scopeRules = [''errcheck'']\<rparr>), 100)),
     sites_of = (\<lambda>s _ l. Inr (case s of None \<Rightarrow> [] | Some x \<Rightarrow> [x], l))\<rparr>"

lemma sample_changed:
  "bounded_changed_paths \<lparr>snapshotFiles = [(''a.go'', ''x'')]\<rparr> \<lparr>snapshotFiles = [(''a.go'', ''y'')]\<rparr> = Some [''a.go'']"
  by (simp add: bounded_changed_paths_def max_sup_paths_def max_sup_path_bytes_def max_sup_file_bytes_def
      max_sup_snapshot_bytes_def max_sup_changed_paths_def max_sup_go_files_def path_eval)

theorem integrity_check_sound_witness:
  "\<exists>before after. load sample_loader \<lparr>snapshotFiles = [(''a.go'', ''x'')]\<rparr> [''a.go''] max_sup_aggregate_work = Inr (before, 100)
     \<and> load sample_loader \<lparr>snapshotFiles = [(''a.go'', ''y'')]\<rparr> [''a.go''] 100 = Inr (after, 100)
     \<and> scopeAll (siteScope before) \<and> \<not> scopeAll (siteScope after)
     \<and> sites_kept sample_loader (Some before) (Some after) ''a.go''"
proof -
  have ext: "path_ext ''a.go'' = ''.go''" by (simp add: path_ext_def slash_def)
  have base: "path_base ''a.go'' = ''a.go''" by (simp add: path_base_def slash_def)
  have none: "group [] = Inr []" by (simp add: group_Inr group_valid_def)
  have check: "check_suppression_integrity sample_loader \<lparr>snapshotFiles = [(''a.go'', ''x'')]\<rparr>
      \<lparr>snapshotFiles = [(''a.go'', ''y'')]\<rparr> = Inr []"
    by (simp add: check_suppression_integrity_def sample_changed ext base sample_loader_def sample_compare Let_def
        protected_golangci_files_def none max_sup_findings_def)
  have one: "go = [''a.go'']" if "set go = {q. path_ext q = ''.go'' \<and>
      map_of (snapshotFiles \<lparr>snapshotFiles = [(''a.go'', ''x'')]\<rparr>) q \<noteq> map_of (snapshotFiles \<lparr>snapshotFiles = [(''a.go'', ''y'')]\<rparr>) q}"
    "distinct go" for go
  proof -
    have "set go = {''a.go''}" unfolding that(1) by (auto simp: ext)
    with that(2) show ?thesis by (metis distinct.simps(2) list.set(1) list.set(2) list.exhaust insert_not_empty
      set_empty singletonD insertCI empty_iff subset_singletonD set_subset_Cons)
  qed
  from integrity_check_sound [OF check, of "''a.go''"] ext obtain go before after l2 l3 where
    "set go = {q. path_ext q = ''.go'' \<and>
      map_of (snapshotFiles \<lparr>snapshotFiles = [(''a.go'', ''x'')]\<rparr>) q \<noteq> map_of (snapshotFiles \<lparr>snapshotFiles = [(''a.go'', ''y'')]\<rparr>) q}"
    "distinct go"
    and r: "load sample_loader \<lparr>snapshotFiles = [(''a.go'', ''x'')]\<rparr> go max_sup_aggregate_work = Inr (before, l2)"
      "load sample_loader \<lparr>snapshotFiles = [(''a.go'', ''y'')]\<rparr> go l2 = Inr (after, l3)"
      "sites_kept sample_loader (Some before) (Some after) ''a.go''"
    by auto
  from one [OF this(1,2)] r show ?thesis
    by (intro exI [of _ before] exI [of _ after]) (auto simp: sample_loader_def sample_site_def)
qed

end
