(* ===== verification/GitActions.thy ===== *)
theory GitActions
  imports Scope
begin

text \<open>
  The part of \<open>internal/run/diff.go\<close> that asks Git and the file system: \<open>diffGitOutput\<close> over the
  package \<open>gitcmd\<close>, the canonical root and the local attributes file. Git, the file system and the
  context are a record of functions over an arbitrary world; the cache of blob line counts is part
  of the state.
\<close>

subsection \<open>Actions\<close>

type_synonym message = gostring

record 'w diff_state =
  dsWorld :: 'w
  dsCache :: "gostring \<rightharpoonup> int"

type_synonym ('w, 'a) act = "'w diff_state \<Rightarrow> (message, 'a) res \<times> 'w diff_state"

definition give :: "'a \<Rightarrow> ('w, 'a) act" where
  "give a s = (Inr a, s)"

definition fail :: "message \<Rightarrow> ('w, 'a) act" where
  "fail e s = (Inl e, s)"

definition and_then :: "('w, 'a) act \<Rightarrow> ('a \<Rightarrow> ('w, 'b) act) \<Rightarrow> ('w, 'b) act" where
  "and_then m f s = (case m s of (Inl e, s') \<Rightarrow> (Inl e, s') | (Inr a, s') \<Rightarrow> f a s')"

definition checked :: "(message, 'a) res \<Rightarrow> ('w, 'a) act" where
  "checked r s = (r, s)"

text \<open>
  What \<open>gitcmd.Output\<close> fails with: whether it is a \<open>CommandError\<close>, one for too much output, one for an
  ended context, the exit code if the command exited, the error's text and the text of the error
  a \<open>CommandError\<close> wraps. For \<open>EvalSymlinks\<close> and \<open>Lstat\<close> the failure says whether it is \<open>ErrNotExist\<close>.
\<close>

record git_failure =
  failCommand :: bool
  failLimit :: bool
  failCancelled :: bool
  failExit :: "int option"
  failText :: message
  failInner :: message

record file_info =
  infoSymlink :: bool
  infoRegular :: bool
  infoSize :: int

record 'w repo =
  repoGit :: "gostring \<Rightarrow> int \<Rightarrow> gostring list \<Rightarrow> 'w \<Rightarrow> (git_failure, gostring) res \<times> 'w"
  repoAbs :: "gostring \<Rightarrow> 'w \<Rightarrow> gostring option \<times> 'w"
  repoEval :: "gostring \<Rightarrow> 'w \<Rightarrow> (bool, gostring) res \<times> 'w"
  repoIsDir :: "gostring \<Rightarrow> 'w \<Rightarrow> bool \<times> 'w"
  repoLstat :: "gostring \<Rightarrow> 'w \<Rightarrow> (bool, file_info) res \<times> 'w"
  repoCtx :: "'w \<Rightarrow> message option \<times> 'w"

definition port :: "('w \<Rightarrow> 'a \<times> 'w) \<Rightarrow> ('w, 'a) act" where
  "port f s = (case f (dsWorld s) of (a, w) \<Rightarrow> (Inr a, s\<lparr>dsWorld := w\<rparr>))"

definition strip_failure :: "git_failure \<Rightarrow> git_failure" where
  "strip_failure e =
     (if failCommand e then
        if failLimit e
        then e\<lparr>failCommand := False, failLimit := False, failCancelled := False, failExit := None,
               failText := ''command output exceeded its limit''\<rparr>
        else e\<lparr>failCommand := False, failText := ''command failed: '' @ failInner e\<rparr>
      else e)"

definition git :: "'w repo \<Rightarrow> gostring \<Rightarrow> int \<Rightarrow> gostring list \<Rightarrow> ('w, git_failure + gostring) act" where
  "git R root limit args =
     and_then (port (repoGit R root limit args))
       (\<lambda>r. give (case r of Inl e \<Rightarrow> Inl (strip_failure e) | Inr out \<Rightarrow> Inr out))"

text \<open>A Git command whose failure only gets a label.\<close>

definition git_or :: "'w repo \<Rightarrow> gostring \<Rightarrow> int \<Rightarrow> message \<Rightarrow> gostring list \<Rightarrow> ('w, gostring) act" where
  "git_or R root limit label args =
     and_then (git R root limit args)
       (\<lambda>r. case r of Inl e \<Rightarrow> fail (label @ failText e) | Inr out \<Rightarrow> give out)"

definition check_context :: "'w repo \<Rightarrow> message \<Rightarrow> ('w, unit) act" where
  "check_context R label =
     and_then (port (repoCtx R)) (\<lambda>r. case r of None \<Rightarrow> give () | Some e \<Rightarrow> fail (label @ e))"

definition with_prefix :: "message \<Rightarrow> (message, 'a) res \<Rightarrow> (message, 'a) res" where
  "with_prefix label r = (case r of Inl e \<Rightarrow> Inl (label @ e) | Inr a \<Rightarrow> Inr a)"

definition reference_limit :: int where "reference_limit = 4096"
definition status_limit :: int where "status_limit = 1048576"
definition paths_limit :: int where "paths_limit = 8388608"
definition diff_limit :: int where "diff_limit = 33554432"

definition nul_byte :: char where "nul_byte = CHR 0x00"
definition lf :: char where "lf = CHR 0x0A"
definition cr :: char where "cr = CHR 0x0D"

subsection \<open>Parsers of single lines\<close>

definition parse_single_git_line :: "gostring \<Rightarrow> (message, gostring) res" where
  "parse_single_git_line out =
     (let line = trim_suffix out [lf]
      in if line = [] \<or> contains_any line [cr, lf, nul_byte] \<or> \<not> valid_utf8 line
         then Inl ''Git returned malformed output'' else Inr line)"

definition path_within_root :: "gostring \<Rightarrow> gostring \<Rightarrow> bool" where
  "path_within_root root p \<longleftrightarrow>
     (case path_rel root p of
        None \<Rightarrow> False
      | Some r \<Rightarrow> r \<noteq> dotdot \<and> \<not> has_prefix r (dotdot @ [slash]) \<and> \<not> is_abs r)"

subsection \<open>The root and the local attributes\<close>

definition canonical_diff_root :: "'w repo \<Rightarrow> gostring \<Rightarrow> ('w, gostring) act" where
  "canonical_diff_root R root =
     and_then (port (repoAbs R root)) (\<lambda>a. case a of
       None \<Rightarrow> fail ''repository root cannot be resolved''
     | Some absolute \<Rightarrow>
         and_then (port (repoEval R absolute)) (\<lambda>c. case c of
           Inl _ \<Rightarrow> fail ''repository root cannot be resolved''
         | Inr canonical \<Rightarrow>
             and_then (port (repoIsDir R canonical)) (\<lambda>d.
             if \<not> d then fail ''repository root must be a directory'' else give canonical)))"

record local_attributes_path =
  lapPath :: gostring
  lapCommonDir :: gostring

definition absolute_git_path :: "'w repo \<Rightarrow> gostring \<Rightarrow> gostring \<Rightarrow> ('w, gostring) act" where
  "absolute_git_path R root p =
     (if is_abs p then give (path_clean p)
      else and_then (port (repoAbs R (path_join root p))) (\<lambda>a. case a of
             None \<Rightarrow> fail ''resolve local Git attributes path: path cannot be made absolute''
           | Some absolute \<Rightarrow> give (path_clean absolute)))"

definition resolve_local_attributes_path :: "'w repo \<Rightarrow> gostring \<Rightarrow> ('w, local_attributes_path) act" where
  "resolve_local_attributes_path R root =
     (let label = ''resolve local Git attributes path: '' in
      and_then (git_or R root paths_limit label [''rev-parse'', ''--git-path'', ''info/attributes'']) (\<lambda>attributes_output.
      and_then (git_or R root paths_limit label [''rev-parse'', ''--git-common-dir'']) (\<lambda>common_output.
      case parse_single_git_line attributes_output of
        Inl _ \<Rightarrow> fail (label @ ''Git returned malformed output'')
      | Inr attributes \<Rightarrow>
      (case parse_single_git_line common_output of
        Inl _ \<Rightarrow> fail (label @ ''Git returned malformed output'')
      | Inr common \<Rightarrow>
      and_then (absolute_git_path R root attributes) (\<lambda>attributes.
      and_then (absolute_git_path R root common) (\<lambda>common.
      and_then (port (repoEval R common)) (\<lambda>r. case r of
        Inl _ \<Rightarrow> fail (label @ ''common Git directory cannot be resolved'')
      | Inr canonical_common \<Rightarrow>
      and_then (port (repoIsDir R canonical_common)) (\<lambda>d.
      if \<not> d then fail (label @ ''common Git directory is invalid'')
      else if \<not> path_within_root common attributes
      then fail (label @ ''path is outside the common Git directory'')
      else give \<lparr>lapPath = attributes, lapCommonDir = canonical_common\<rparr>))))))))"

subsection \<open>Walking up a path\<close>

text \<open>\<open>filepath.Dir\<close> shortens a path until it is \<open>.\<close> or \<open>/\<close>, which it leaves alone.\<close>

definition weight :: "gostring list \<Rightarrow> nat" where
  "weight cs = (\<Sum>c \<leftarrow> cs. length c + 1)"

lemma weight_append [simp]: "weight (xs @ ys) = weight xs + weight ys"
  by (simp add: weight_def)

lemma weight_filter: "weight (filter P cs) \<le> weight cs"
  by (induction cs) (auto simp: weight_def)

lemma length_join: "cs \<noteq> [] \<Longrightarrow> length (join [d] cs) + 1 = weight cs"
  by (induction "[d]" cs rule: join.induct) (auto simp: weight_def)

lemma weight_split_on: "weight (split_on d s) = length s + 1"
  using length_join [of "split_on d s" d] by (simp add: join_split_on)

lemma weight_clean_comps: "weight (clean_comps r st cs) \<le> weight st + weight (filter (\<lambda>c. c \<noteq> []) cs)"
proof (induction r st cs rule: clean_comps.induct)
  case (2 r st c cs)
  then show ?case by (cases st) (auto simp: weight_def)
qed (simp add: weight_def rev_map [symmetric] sum_list_rev)

definition dir_measure :: "gostring \<Rightarrow> nat" where
  "dir_measure p = (if p = [] then 4 else 2 * length p + (if p = dot then 0 else 1))"

lemma dir_measure_shorter: "q \<noteq> [] \<Longrightarrow> length q < length p \<Longrightarrow> dir_measure q < dir_measure p"
  by (auto simp: dir_measure_def)

lemma path_dir_decreases:
  assumes "path_dir p \<noteq> p"
  shows "dir_measure (path_dir p) < dir_measure p"
proof -
  define q where "q = rev (dropWhile (\<lambda>c. c \<noteq> slash) (rev p))"
  have dir: "path_dir p = path_clean q" by (simp add: path_dir_def q_def)
  have "p = q @ rev (takeWhile (\<lambda>c. c \<noteq> slash) (rev p))"
    unfolding q_def by (metis rev_append rev_rev_ident takeWhile_dropWhile_id)
  then obtain t where p: "p = q @ t" ..
  show ?thesis
  proof (cases "q = []")
    case True
    then have "path_dir p = dot" by (simp add: dir path_clean_def)
    with assms show ?thesis by (cases p) (auto simp: dir_measure_def dot_def)
  next
    case False
    then have "dropWhile (\<lambda>c. c \<noteq> slash) (rev p) \<noteq> []" by (simp add: q_def)
    then have "hd (dropWhile (\<lambda>c. c \<noteq> slash) (rev p)) = slash"
      using hd_dropWhile [of "\<lambda>c. c \<noteq> slash" "rev p"] by simp
    then have "last q = slash" by (simp add: q_def last_rev)
    with False obtain u where u: "q = u @ [slash]" by (metis append_butlast_last_id)
    have split: "split_on slash q = split_on slash u @ [[]]" by (simp add: u split_on_sep)
    show ?thesis
    proof (cases "u = []")
      case True
      then have "path_dir p = [slash]"
        by (simp add: dir u path_clean_def is_abs_def)
      with assms p u True show ?thesis by (cases t) (auto simp: dir_measure_def dot_def)
    next
      case False
      let ?cs = "clean_comps (is_abs q) [] (split_on slash q)"
      have w: "weight ?cs \<le> weight (filter (\<lambda>c. c \<noteq> []) (split_on slash u))"
        using weight_clean_comps [of "is_abs q" "[]" "split_on slash q"] by (simp add: split weight_def)
      have rel: "length (path_clean q) < length q"
      proof (cases "is_abs q")
        case True
        then obtain v where v: "u = slash # v" using False u by (cases u) (auto simp: is_abs_def)
        have "weight ?cs \<le> weight (filter (\<lambda>c. c \<noteq> []) (split_on slash v))" using w by (simp add: v)
        also have "\<dots> \<le> weight (split_on slash v)"
          by (rule weight_filter)
        finally have "weight ?cs \<le> length v + 1" by (simp add: weight_split_on)
        then have "length (join [slash] ?cs) \<le> length v"
          using length_join [of ?cs slash] by (cases "?cs = []") auto
        with True show ?thesis by (simp add: path_clean_abs u v)
      next
        case R: False
        have "weight (filter (\<lambda>c. c \<noteq> []) (split_on slash u)) \<le> weight (split_on slash u)"
          by (rule weight_filter)
        with w have "weight ?cs \<le> length u + 1" by (simp add: weight_split_on)
        then have "length (join [slash] ?cs) \<le> length u"
          using length_join [of ?cs slash] by (cases "?cs = []") auto
        with R False show ?thesis by (cases u) (auto simp: path_clean_rel u dot_def)
      qed
      then show ?thesis unfolding dir using p by (intro dir_measure_shorter) auto
    qed
  qed
qed

text \<open>
  The loop of \<open>validateLocalAttributesParent\<close> from one parent on, and \<open>checkLocalAttributes\<close>.
\<close>

function attributes_parent ::
  "'w repo \<Rightarrow> gostring \<Rightarrow> gostring \<Rightarrow> 'w diff_state \<Rightarrow> (message, unit) res \<times> 'w diff_state" where
  "attributes_parent R common parent s =
     (case repoEval R parent (dsWorld s) of
        (Inr resolved, w) \<Rightarrow>
          (if \<not> path_within_root common resolved
           then Inl ''local Git attributes path is outside the common Git directory'' else Inr (),
           s\<lparr>dsWorld := w\<rparr>)
      | (Inl missing, w) \<Rightarrow>
          if \<not> missing
          then (Inl ''inspect local Git attributes: parent path cannot be resolved'', s\<lparr>dsWorld := w\<rparr>)
          else if path_dir parent = parent \<or> \<not> path_within_root common (path_dir parent)
          then (Inl ''local Git attributes path is unsafe'', s\<lparr>dsWorld := w\<rparr>)
          else attributes_parent R common (path_dir parent) (s\<lparr>dsWorld := w\<rparr>))"
  by pat_completeness auto
termination
  by (relation "measure (\<lambda>(R, common, parent, s). dir_measure parent)") (auto intro: path_dir_decreases)

definition check_local_attributes :: "'w repo \<Rightarrow> local_attributes_path \<Rightarrow> ('w, unit) act" where
  "check_local_attributes R a =
     and_then (port (repoLstat R (lapPath a))) (\<lambda>r. case r of
       Inl missing \<Rightarrow>
         if missing then attributes_parent R (lapCommonDir a) (path_dir (lapPath a))
         else fail ''inspect local Git attributes: path cannot be inspected''
     | Inr info \<Rightarrow>
         if infoSymlink info \<or> \<not> infoRegular info \<or> infoSize info \<noteq> 0
         then fail ''local Git attributes must be absent or an empty regular file''
         else attributes_parent R (lapCommonDir a) (path_dir (lapPath a)))"

end
