(* ===== verification/Diffs.thy ===== *)
theory Diffs
  imports GitActions
begin

text \<open>
  \<open>internal/run/diff.go\<close>: the committed diff of a run, read from Git's output.
\<close>

subsection \<open>Parsers of single lines\<close>

definition parse_object_id :: "gostring \<Rightarrow> (message, gostring) res" where
  "parse_object_id out =
     (case parse_single_git_line out of
        Inl e \<Rightarrow> Inl ''Git returned an invalid object ID''
      | Inr v \<Rightarrow>
          if length v \<noteq> 40 \<and> length v \<noteq> 64 then Inl ''Git returned an invalid object ID''
          else if \<exists>r \<in> set (runes v). r < 48 \<or> (r > 57 \<and> r < 97) \<or> r > 102
          then Inl ''Git returned an invalid object ID''
          else Inr v)"

definition validate_requested_base :: "gostring \<Rightarrow> message option" where
  "validate_requested_base v =
     (if trim_space v = [] \<or> trim_space v \<noteq> v \<or> has_prefix v ''-'' \<or> \<not> valid_utf8 v
         \<or> (\<exists>r \<in> set (runes v). r < 32 \<or> r = 127)
      then Some ''base revision is invalid'' else None)"

definition parse_diff_ref :: "gostring \<Rightarrow> (message, gostring) res" where
  "parse_diff_ref out =
     (case parse_single_git_line out of
        Inl e \<Rightarrow> Inl e
      | Inr v \<Rightarrow> (case validate_requested_base v of Some e \<Rightarrow> Inl e | None \<Rightarrow> Inr v))"

definition automatic_base_refs :: "(gostring \<times> gostring) list" where
  "automatic_base_refs =
     [(''refs/remotes/origin/main'', ''origin/main''), (''refs/remotes/origin/master'', ''origin/master''),
      (''refs/heads/main'', ''main''), (''refs/heads/master'', ''master'')]"

fun collect_refs :: "gostring list \<Rightarrow> gostring list \<Rightarrow> (message, gostring list) res" where
  "collect_refs seen [] = Inr seen"
| "collect_refs seen (ref # refs) =
     (if ref \<notin> set (map fst automatic_base_refs)
      then Inl ''Git returned an unexpected conventional trunk ref''
      else if ref \<in> set seen then Inl ''Git returned a duplicate conventional trunk ref''
      else collect_refs (seen @ [ref]) refs)"

definition parse_automatic_base_refs :: "gostring \<Rightarrow> (message, gostring list) res" where
  "parse_automatic_base_refs out =
     (if out = [] then Inr []
      else if \<not> valid_utf8 out \<or> last out \<noteq> lf \<or> contains_any out [cr, nul_byte]
      then Inl ''Git returned malformed conventional trunk refs''
      else collect_refs [] (split_on lf (butlast out)))"

subsection \<open>Paths\<close>

definition validate_diff_path :: "gostring \<Rightarrow> gostring \<Rightarrow> message option" where
  "validate_diff_path root p =
     (if parse_path p \<noteq> Inr p \<or> \<not> path_within_root root (path_join root p)
      then Some ''Git returned an unsafe repository path'' else None)"

definition is_digit :: "char \<Rightarrow> bool" where
  "is_digit c \<longleftrightarrow> 48 \<le> byte c \<and> byte c \<le> 57"

definition decimal :: "gostring \<Rightarrow> int" where
  "decimal s = foldl (\<lambda>n c. 10 * n + (int (byte c) - 48)) 0 s"

text \<open>\<open>strconv.Atoi\<close> of digits.\<close>

definition atoi :: "gostring \<Rightarrow> int option" where
  "atoi s = (if s \<noteq> [] \<and> list_all is_digit s \<and> decimal s \<le> max_int then Some (decimal s) else None)"

definition changed_path_count :: "gostring \<Rightarrow> nat option" where
  "changed_path_count status =
     (if length status = 1 \<and> hd status \<in> set ''AMTUXB'' then Some 1
      else if length status = 4 \<and> (hd status = CHR ''R'' \<or> hd status = CHR ''C'') \<and> list_all is_digit (tl status)
      then (case atoi (tl status) of Some score \<Rightarrow> if 0 \<le> score \<and> score \<le> 100 then Some 2 else None
                                   | None \<Rightarrow> None)
      else None)"

record changed_path =
  cpPrevious :: gostring
  cpCurrent :: gostring

definition name_error :: "gostring \<Rightarrow> nat \<Rightarrow> gostring \<Rightarrow> message option" where
  "name_error root i name =
     (if name = [] \<or> \<not> valid_utf8 name then Some ''Git returned an invalid changed path''
      else validate_diff_path root name)"

function parse_records :: "gostring \<Rightarrow> gostring list \<Rightarrow> gostring list \<Rightarrow> (message, changed_path list) res" where
  "parse_records root seen [] = Inr []"
| "parse_records root seen (status # rest) =
     (case changed_path_count status of
        None \<Rightarrow> Inl ''Git returned malformed changed-path status''
      | Some n \<Rightarrow>
          if n > length rest then Inl ''Git returned malformed changed-path status''
          else (let names = take n rest in
            case first_error (name_error root) 0 names of
              Some e \<Rightarrow> Inl e
            | None \<Rightarrow>
                (let current = last names
                 in if current \<in> set seen then Inl ''Git returned a duplicate changed path''
                    else (case parse_records root (current # seen) (drop n rest) of
                            Inl e \<Rightarrow> Inl e
                          | Inr ps \<Rightarrow> Inr (\<lparr>cpPrevious = (if length names = 2 then hd names else []),
                                            cpCurrent = current\<rparr> # ps)))))"
  by pat_completeness auto
termination
  by (relation "measure (\<lambda>(root, seen, rs). length rs)") auto

definition parse_changed_paths :: "gostring \<Rightarrow> gostring \<Rightarrow> (message, changed_path list) res" where
  "parse_changed_paths root out =
     (if out = [] then Inr []
      else if last out \<noteq> nul_byte then Inl ''Git returned unterminated changed-path output''
      else parse_records root [] (split_on nul_byte (butlast out)))"


subsection \<open>Changed-line ranges\<close>

text \<open>The arithmetic of a 64-bit Go \<open>int\<close>.\<close>

definition wrap64 :: "int \<Rightarrow> int" where
  "wrap64 n = (n + 9223372036854775808) mod 18446744073709551616 - 9223372036854775808"

definition less_range :: "line_range \<Rightarrow> line_range \<Rightarrow> bool" where
  "less_range l r \<longleftrightarrow>
     (if Start l \<noteq> Start r then wrap64 (Start l - Start r) < 0 else wrap64 (End l - End r) < 0)"

fun merge_from :: "line_range \<Rightarrow> line_range list \<Rightarrow> line_range list" where
  "merge_from current [] = [current]"
| "merge_from current (c # cs) =
     (if Start c \<le> End current \<or> (End current < max_int \<and> Start c = End current + 1)
      then merge_from (current\<lparr>End := max (End current) (End c)\<rparr>) cs
      else current # merge_from c cs)"

definition merge_line_ranges :: "line_range list \<Rightarrow> line_range list" where
  "merge_line_ranges ranges =
     (case sort_by less_range ranges of [] \<Rightarrow> [] | r # rs \<Rightarrow> merge_from r rs)"

definition count_blob_lines :: "gostring \<Rightarrow> int" where
  "count_blob_lines blob =
     (if blob = [] then 0
      else int (length (filter (\<lambda>c. c = lf) blob)) + (if last blob \<noteq> lf then 1 else 0))"

definition deletion_anchor :: "'w repo \<Rightarrow> gostring \<Rightarrow> gostring \<Rightarrow> gostring \<Rightarrow> int \<Rightarrow> ('w, int) act" where
  "deletion_anchor R root head p requested =
     and_then (check_context R []) (\<lambda>_.
     and_then (checked (case parse_object_id head of
                          Inl _ \<Rightarrow> Inl ''deletion anchor HEAD is invalid'' | Inr _ \<Rightarrow> Inr ())) (\<lambda>_.
     and_then (checked (case validate_diff_path root p of Some e \<Rightarrow> Inl e | None \<Rightarrow> Inr ())) (\<lambda>_.
     and_then (\<lambda>s. case dsCache s p of
         Some n \<Rightarrow> (Inr n, s)
       | None \<Rightarrow>
           and_then (git_or R root diff_limit ''read captured repository blob for deletion anchor: ''
                       [''cat-file'', ''blob'', head @ '':'' @ p]) (\<lambda>blob.
           and_then (check_context R []) (\<lambda>_ s.
             (Inr (count_blob_lines blob),
              s\<lparr>dsCache := (dsCache s)(p \<mapsto> count_blob_lines blob)\<rparr>))) s) (\<lambda>n.
     give (if n = 0 then 0
           else if requested = 0 then 1
           else if requested > 0 \<and> requested \<le> n then requested
           else n)))))"

text \<open>
  The hunk header pattern
  \<open>^@@ -[0-9]+(?:,[0-9]+)? \+([0-9]+)(?:,([0-9]+))? @@[^\r\n]*\r?$\<close>. A digit run is followed by a byte
  that is no digit, so taking the whole run is the only match.
\<close>

definition hunk_range :: "gostring \<Rightarrow> (gostring \<times> gostring \<times> gostring) option" where
  "hunk_range s =
     (let d = takeWhile is_digit s; r = dropWhile is_digit s
      in if d = [] then None
         else if r \<noteq> [] \<and> hd r = CHR '',''
         then (let e = takeWhile is_digit (tl r)
               in if e = [] then None else Some (d, e, dropWhile is_digit (tl r)))
         else Some (d, [], r))"

definition hunk_header :: "gostring \<Rightarrow> (gostring \<times> gostring) option" where
  "hunk_header line =
     (if \<not> has_prefix line ''@@ -'' then None
      else (case hunk_range (drop 4 line) of
              None \<Rightarrow> None
            | Some (_, _, r) \<Rightarrow>
                if \<not> has_prefix r '' +'' then None
                else (case hunk_range (drop 2 r) of
                        None \<Rightarrow> None
                      | Some (start, num, r') \<Rightarrow>
                          if has_prefix r' '' @@'' \<and> cr \<notin> set (trim_suffix (drop 3 r') [cr])
                             \<and> lf \<notin> set (drop 3 r')
                          then Some (start, num) else None)))"

text \<open>One line of the patch; \<open>None\<close> is a line without a range.\<close>

definition hunk_line :: "'w repo \<Rightarrow> gostring \<Rightarrow> gostring \<Rightarrow> gostring \<Rightarrow> gostring \<Rightarrow> ('w, line_range option) act" where
  "hunk_line R root head p line =
     (if \<not> has_prefix line ''@@'' then give None
      else (case hunk_header line of
              None \<Rightarrow> fail ''Git returned a malformed hunk header''
            | Some (start_text, count_text) \<Rightarrow>
                (case atoi start_text of
                   None \<Rightarrow> fail ''Git returned an invalid hunk start''
                 | Some start \<Rightarrow>
                     (case (if count_text = [] then Some 1 else atoi count_text) of
                        None \<Rightarrow> fail ''Git returned an invalid hunk count''
                      | Some num \<Rightarrow>
                          if num = 0
                          then and_then (deletion_anchor R root head p start)
                                 (\<lambda>anchor. give (if anchor \<noteq> 0 then Some \<lparr>Start = anchor, End = anchor\<rparr> else None))
                          else if start \<le> 0 \<or> num < 0 \<or> start > max_int - num + 1
                          then fail ''Git returned an invalid changed-line range''
                          else give (Some \<lparr>Start = start, End = start + num - 1\<rparr>)))))"

fun hunk_lines :: "'w repo \<Rightarrow> gostring \<Rightarrow> gostring \<Rightarrow> gostring \<Rightarrow> gostring list \<Rightarrow> ('w, line_range list) act" where
  "hunk_lines R root head p [] = give []"
| "hunk_lines R root head p (l # ls) =
     and_then (hunk_line R root head p l) (\<lambda>r.
     and_then (hunk_lines R root head p ls) (\<lambda>rs.
     give (case r of None \<Rightarrow> rs | Some x \<Rightarrow> x # rs)))"

definition parse_diff_hunks :: "'w repo \<Rightarrow> gostring \<Rightarrow> gostring \<Rightarrow> gostring \<Rightarrow> gostring \<Rightarrow> ('w, line_range list) act" where
  "parse_diff_hunks R root head p patch =
     (if patch = [] then give []
      else if \<not> has_prefix patch ''diff --git '' \<or> nul_byte \<in> set patch
      then fail ''Git returned malformed diff output''
      else and_then (hunk_lines R root head p (split_on lf patch)) (\<lambda>rs. give (merge_line_ranges rs)))"

subsection \<open>The repository\<close>

definition check_index_record :: "gostring \<Rightarrow> message option" where
  "check_index_record r =
     (if length r < 3 \<or> r ! 1 \<noteq> CHR '' '' then Some ''inspect repository index flags: Git returned malformed output''
      else if r ! 0 = CHR ''S'' \<or> (97 \<le> byte (r ! 0) \<and> byte (r ! 0) \<le> 122)
      then Some ''repository index contains hidden entries; clear assume-unchanged and skip-worktree flags''
      else None)"

definition reject_hidden_index_entries :: "'w repo \<Rightarrow> gostring \<Rightarrow> ('w, unit) act" where
  "reject_hidden_index_entries R root =
     and_then (git_or R root paths_limit ''inspect repository index flags: '' [''ls-files'', ''-v'', ''-z'']) (\<lambda>out.
       if out = [] then give ()
       else if last out \<noteq> nul_byte then fail ''inspect repository index flags: Git returned malformed output''
       else (case first_error (\<lambda>_. check_index_record) 0 (split_on nul_byte (butlast out)) of
               Some e \<Rightarrow> fail e | None \<Rightarrow> give ()))"

fun gitlink_records :: "gostring \<Rightarrow> gostring list \<Rightarrow> gostring list \<Rightarrow> (message, gostring list) res" where
  "gitlink_records root seen [] = Inr seen"
| "gitlink_records root seen (r # rest) =
     (case cut_at (CHR 0x09) r of (metadata, p, found) \<Rightarrow>
        let fields = str_fields metadata in
        if \<not> found \<or> length fields \<noteq> 3 \<or> p = [] \<or> \<not> valid_utf8 p
           \<or> fields ! 2 \<notin> {''0'', ''1'', ''2'', ''3''}
        then Inl ''inspect repository gitlinks: Git returned malformed output''
        else if validate_diff_path root p \<noteq> None then Inl ''Git returned an unsafe submodule path''
        else if fields ! 0 \<noteq> ''160000'' then gitlink_records root seen rest
        else if fields ! 2 \<noteq> ''0'' then Inl ''repository contains a conflicted submodule gitlink''
        else if isl (parse_object_id (fields ! 1))
        then Inl ''inspect repository gitlinks: Git returned malformed output''
        else if p \<in> set seen then Inl ''inspect repository gitlinks: Git returned a duplicate submodule path''
        else gitlink_records root (seen @ [p]) rest)"

definition tracked_gitlinks :: "'w repo \<Rightarrow> gostring \<Rightarrow> ('w, gostring list) act" where
  "tracked_gitlinks R root =
     and_then (git_or R root paths_limit ''inspect repository gitlinks: '' [''ls-files'', ''--stage'', ''-z'']) (\<lambda>out.
       if out = [] then give []
       else if last out \<noteq> nul_byte then fail ''inspect repository gitlinks: Git returned malformed output''
       else checked (gitlink_records root [] (split_on nul_byte (butlast out))))"

definition conversion_filter_pattern :: gostring where
  "conversion_filter_pattern =
     ''^filter'' @ [backslash] @ ''..*'' @ [backslash] @ ''.(clean|process)$''"

definition reject_git_conversion_filters :: "'w repo \<Rightarrow> gostring \<Rightarrow> ('w, unit) act" where
  "reject_git_conversion_filters R root =
     and_then (git R root reference_limit
       [''config'', ''--includes'', ''--name-only'', ''--null'', ''--get-regexp'', conversion_filter_pattern])
       (\<lambda>r. case r of
          Inl e \<Rightarrow>
            if failCancelled e then fail (''inspect Git conversion filters: '' @ failText e)
            else if failExit e = Some 1 then give ()
            else fail (''inspect Git conversion filters: '' @ failText e)
        | Inr out \<Rightarrow>
            if out \<noteq> [] then fail ''Git conversion filters are not allowed during diff resolution'' else give ())"

definition check_repository_clean :: "'w repo \<Rightarrow> gostring \<Rightarrow> ('w, unit) act" where
  "check_repository_clean R root =
     and_then (canonical_diff_root R root) (\<lambda>canonical.
     and_then (resolve_local_attributes_path R canonical) (\<lambda>attributes.
     and_then (check_local_attributes R attributes) (\<lambda>_.
     and_then (tracked_gitlinks R canonical) (\<lambda>links.
     and_then (if links \<noteq> [] then fail ''repositories containing submodules are unsupported'' else give ()) (\<lambda>_.
     and_then (reject_git_conversion_filters R canonical) (\<lambda>_.
     and_then (git_or R canonical status_limit ''inspect repository cleanliness: ''
       [''status'', ''--porcelain=v1'', ''-z'', ''--untracked-files=all'', ''--ignore-submodules=all'']) (\<lambda>status.
     and_then (if status \<noteq> [] then fail ''worktree must be clean before resolving diff scope'' else give ()) (\<lambda>_.
     reject_hidden_index_entries R canonical))))))))"

definition resolve_diff_commit :: "'w repo \<Rightarrow> gostring \<Rightarrow> gostring \<Rightarrow> ('w, gostring) act" where
  "resolve_diff_commit R root ref =
     and_then (git R root reference_limit [''rev-parse'', ''--verify'', ''--end-of-options'', ref @ ''^{commit}''])
       (\<lambda>r. case r of
          Inl e \<Rightarrow> fail (if failCancelled e then failText e else ''selected revision is not a commit'')
        | Inr out \<Rightarrow> checked (parse_object_id out))"

definition resolve_diff_base_ref :: "'w repo \<Rightarrow> gostring \<Rightarrow> gostring \<Rightarrow> ('w, gostring) act" where
  "resolve_diff_base_ref R root requested =
     (if requested \<noteq> [] then
        (case validate_requested_base requested of Some e \<Rightarrow> fail e | None \<Rightarrow> give requested)
      else and_then (git R root reference_limit
        [''symbolic-ref'', ''--quiet'', ''--short'', ''refs/remotes/origin/HEAD''])
        (\<lambda>r. case r of
           Inr out \<Rightarrow>
             (case parse_diff_ref out of
                Inl _ \<Rightarrow> fail ''origin/HEAD is invalid; pass --base'' | Inr ref \<Rightarrow> give ref)
         | Inl e \<Rightarrow>
             if failCancelled e \<or> failExit e \<noteq> Some 1
             then fail (''detect origin default branch: '' @ failText e)
             else and_then (git_or R root reference_limit ''detect conventional trunk branches: ''
                    ([''for-each-ref'', ''--format=%(refname)''] @ map fst automatic_base_refs)) (\<lambda>out.
                  and_then (checked (parse_automatic_base_refs out)) (\<lambda>existing.
                  case find (\<lambda>c. fst c \<in> set existing) automatic_base_refs of
                    Some c \<Rightarrow> give (snd c)
                  | None \<Rightarrow> fail ''no base was provided and no main or master trunk is available; pass --base''))))"

subsection \<open>The committed diff\<close>

record diff =
  diffBaseRef :: gostring
  diffBaseCommit :: gostring
  diffMergeBase :: gostring
  diffHead :: gostring
  diffChangedFiles :: nat
  diffChangedLines :: int
  diffLines :: changed_lines

definition deterministic_diff_options :: "gostring list" where
  "deterministic_diff_options =
     [''--no-ext-diff'', ''--no-textconv'', ''--diff-algorithm=myers'', ''--no-indent-heuristic'',
      ''--inter-hunk-context=0'', ''--find-renames=50%'', ''-l0'']"

definition literal_pathspec :: "gostring \<Rightarrow> gostring" where
  "literal_pathspec p = '':(literal)'' @ p"

definition range_sum :: "line_range list \<Rightarrow> int \<Rightarrow> int" where
  "range_sum ranges n = foldl (\<lambda>n r. wrap64 (n + (End r - Start r + 1))) n ranges"

fun path_ranges ::
  "'w repo \<Rightarrow> gostring \<Rightarrow> gostring \<Rightarrow> gostring \<Rightarrow> changed_path list \<Rightarrow> changed_lines \<Rightarrow> int \<Rightarrow>
     ('w, changed_lines \<times> int) act" where
  "path_ranges R root base head [] lines n = give (lines, n)"
| "path_ranges R root base head (p # ps) lines n =
     and_then (git_or R root diff_limit ''read changed-line ranges: ''
       ([''diff'', ''--unified=0'', ''--no-color''] @ deterministic_diff_options @ [base, head, ''--'']
        @ (if cpPrevious p \<noteq> [] then [literal_pathspec (cpPrevious p)] else []) @ [literal_pathspec (cpCurrent p)]))
       (\<lambda>patch.
     and_then (\<lambda>s. case parse_diff_hunks R root head (cpCurrent p) patch s of
                      (r, s') \<Rightarrow> (with_prefix ''parse changed-line ranges: '' r, s')) (\<lambda>ranges.
     path_ranges R root base head ps (lines @ [(cpCurrent p, ranges)]) (range_sum ranges n)))"

text \<open>\<open>blobLineCounts := make(map[string]int)\<close>.\<close>

definition fresh_cache :: "('w, unit) act" where
  "fresh_cache s = (Inr (), s\<lparr>dsCache := Map.empty\<rparr>)"

definition merge_base :: "'w repo \<Rightarrow> gostring \<Rightarrow> gostring \<Rightarrow> gostring \<Rightarrow> ('w, gostring) act" where
  "merge_base R root head base =
     and_then (git R root reference_limit [''merge-base'', head, base]) (\<lambda>r. case r of
          Inl e \<Rightarrow> fail (if failCancelled e then ''compute merge base: '' @ failText e
                          else ''base and HEAD have unrelated histories'')
        | Inr out \<Rightarrow> checked (with_prefix ''parse merge-base commit: '' (parse_object_id out)))"

definition resolve_diff :: "'w repo \<Rightarrow> gostring \<Rightarrow> gostring \<Rightarrow> ('w, diff) act" where
  "resolve_diff R root requested =
     and_then (if root = [] then fail ''repository root is required'' else give ()) (\<lambda>_.
     and_then (check_context R ''resolve committed diff: '') (\<lambda>_.
     and_then (canonical_diff_root R root) (\<lambda>root.
     and_then (check_repository_clean R root) (\<lambda>_.
     and_then (\<lambda>s. case resolve_diff_commit R root ''HEAD'' s of
                      (r, s') \<Rightarrow> (with_prefix ''resolve HEAD commit: '' r, s')) (\<lambda>head.
     and_then (resolve_diff_base_ref R root requested) (\<lambda>ref.
     and_then (\<lambda>s. case resolve_diff_commit R root ref s of
                      (r, s') \<Rightarrow> (with_prefix ''resolve base commit: '' r, s')) (\<lambda>base.
     and_then (merge_base R root head base) (\<lambda>fork.
     and_then (git_or R root paths_limit ''list changed paths: ''
       ([''diff'', ''--name-status'', ''--diff-filter=ACMRTUXB''] @ deterministic_diff_options
        @ [''-z'', fork, head, ''--''])) (\<lambda>out.
     and_then (checked (with_prefix ''parse changed paths: '' (parse_changed_paths root out))) (\<lambda>paths.
     and_then fresh_cache (\<lambda>_.
     and_then (path_ranges R root fork head paths [] 0) (\<lambda>(lines, n).
     and_then (check_repository_clean R root) (\<lambda>_.
     and_then (check_context R ''resolve committed diff: '') (\<lambda>_.
     give \<lparr>diffBaseRef = ref, diffBaseCommit = base, diffMergeBase = fork, diffHead = head,
           diffChangedFiles = length paths, diffChangedLines = n, diffLines = lines\<rparr>))))))))))))))"

end
