(* ===== verification/DiffFacts.thy ===== *)
theory DiffFacts
  imports Diffs
begin

text \<open>
  What \<open>internal/run/diff.go\<close> makes of Git's output: merging keeps the lines, the changed-path parser
  accepts exactly the rendered lists of safe paths, and a resolved diff is a valid touched scope.
\<close>

subsection \<open>Merging\<close>

definition lines_of :: "line_range list \<Rightarrow> int set" where
  "lines_of rs = (\<Union>r \<in> set rs. {Start r .. End r})"

definition proper_range :: "line_range \<Rightarrow> bool" where
  "proper_range r \<longleftrightarrow> 1 \<le> Start r \<and> Start r \<le> End r \<and> End r \<le> max_int"

definition apart :: "line_range \<Rightarrow> line_range \<Rightarrow> bool" where
  "apart a b \<longleftrightarrow> End a + 1 < Start b"

lemma wrap64_id: "- max_int \<le> n \<Longrightarrow> n \<le> max_int \<Longrightarrow> wrap64 n = n"
  by (simp add: wrap64_def max_int_def)

definition range_key :: "line_range \<Rightarrow> int \<times> int" where
  "range_key r = (Start r, End r)"

lemma less_range_key:
  assumes "proper_range a" "proper_range b"
  shows "less_range a b \<longleftrightarrow> range_key a < range_key b"
proof -
  have "wrap64 (Start a - Start b) = Start a - Start b" "wrap64 (End a - End b) = End a - End b"
    using assms by (auto intro!: wrap64_id simp: proper_range_def)
  then show ?thesis by (auto simp: less_range_def range_key_def)
qed

interpretation range_order: key_comparator less_range range_key proper_range
  by unfold_locales (rule less_range_key)

lemma range_order_start: "sorted (map range_key rs) \<Longrightarrow> sorted (map Start rs)"
  by (induction rs) (auto simp: range_key_def)

text \<open>The loop over the sorted ranges: what has been merged stays, the current one grows.\<close>

lemma merge_from:
  assumes "proper_range cur" "list_all proper_range rs" "sorted (map Start (cur # rs))"
  shows "lines_of (merge_from cur rs) = lines_of (cur # rs)
    \<and> list_all proper_range (merge_from cur rs) \<and> sorted_wrt apart (merge_from cur rs)
    \<and> (\<forall>r \<in> set (merge_from cur rs). Start cur \<le> Start r)"
  using assms
proof (induction rs arbitrary: cur)
  case (Cons c cs)
  have cur: "1 \<le> Start cur" "Start cur \<le> End cur" "End cur \<le> max_int"
    and c: "1 \<le> Start c" "Start c \<le> End c" "End c \<le> max_int" "Start cur \<le> Start c"
    using Cons.prems by (simp_all add: proper_range_def)
  show ?case
  proof (cases "Start c \<le> End cur \<or> (End cur < max_int \<and> Start c = End cur + 1)")
    case True
    let ?cur = "cur\<lparr>End := max (End cur) (End c)\<rparr>"
    have "proper_range ?cur" using cur c by (simp add: proper_range_def)
    moreover have "sorted (map Start (?cur # cs))" using Cons.prems(3) by simp
    moreover have "{Start cur .. max (End cur) (End c)} = {Start cur .. End cur} \<union> {Start c .. End c}"
      using True c(2,4) cur by (auto simp: max_def)
    ultimately show ?thesis
      using Cons.IH [of ?cur] Cons.prems(2) True by (simp add: lines_of_def Un_assoc)
  next
    case False
    with c have gap: "End cur + 1 < Start c" using cur by linarith
    have ih: "lines_of (merge_from c cs) = lines_of (c # cs)" "list_all proper_range (merge_from c cs)"
        "sorted_wrt apart (merge_from c cs)" "\<forall>r \<in> set (merge_from c cs). Start c \<le> Start r"
      using Cons.IH [of c] Cons.prems by simp_all
    have "\<forall>r \<in> set (merge_from c cs). apart cur r" using ih(4) gap by (force simp: apart_def)
    moreover have "\<forall>r \<in> set (merge_from c cs). Start cur \<le> Start r" using ih(4) c(4) by force
    moreover have "merge_from cur (c # cs) = cur # merge_from c cs" by (simp only: merge_from.simps if_not_P [OF False])
    ultimately show ?thesis
      using ih(1-3) Cons.prems(1) by (simp add: lines_of_def)
  qed
qed (auto simp: lines_of_def)

lemma merge_line_ranges_spec:
  assumes "list_all proper_range rs"
  shows "lines_of (merge_line_ranges rs) = lines_of rs" "list_all proper_range (merge_line_ranges rs)"
    "sorted_wrt apart (merge_line_ranges rs)"
proof -
  have good: "\<forall>r \<in> set rs. proper_range r" using assms by (simp add: list_all_iff)
  let ?s = "sort_by less_range rs"
  have sorted: "sorted (map Start ?s)"
    by (rule range_order_start [OF range_order.sorted_sort_by [OF good]])
  have same: "lines_of ?s = lines_of rs" and good': "list_all proper_range ?s"
    using good by (simp_all add: lines_of_def list_all_iff)
  show "lines_of (merge_line_ranges rs) = lines_of rs" "list_all proper_range (merge_line_ranges rs)"
    "sorted_wrt apart (merge_line_ranges rs)"
    using sorted same good' merge_from
    by (auto simp: merge_line_ranges_def split: list.splits)
qed

lemma card_lines_apart:
  "list_all proper_range rs \<Longrightarrow> sorted_wrt apart rs \<Longrightarrow>
     int (card (lines_of rs)) = (\<Sum>r \<leftarrow> rs. End r - Start r + 1)"
proof (induction rs)
  case (Cons r rs)
  have "{Start r .. End r} \<inter> lines_of rs = {}"
    using Cons.prems(2) by (force simp: lines_of_def apart_def)
  moreover have "lines_of (r # rs) = {Start r .. End r} \<union> lines_of rs" by (simp add: lines_of_def)
  moreover have "finite (lines_of rs)" by (simp add: lines_of_def)
  ultimately have "int (card (lines_of (r # rs))) = int (card {Start r .. End r}) + int (card (lines_of rs))"
    by (simp add: card_Un_disjoint)
  with Cons show ?case by (simp add: proper_range_def)
qed (simp add: lines_of_def)

text \<open>Sums that wrap at every step wrap once.\<close>

lemma wrap64_wrap64_add [simp]: "wrap64 (wrap64 a + b) = wrap64 (a + b)"
proof -
  have "((a + 9223372036854775808) mod 18446744073709551616 - 9223372036854775808 + b + 9223372036854775808)
      mod 18446744073709551616
    = ((a + 9223372036854775808) mod 18446744073709551616 + b) mod (18446744073709551616 :: int)" by simp
  also have "\<dots> = (a + 9223372036854775808 + b) mod 18446744073709551616" by (rule mod_add_left_eq)
  finally show ?thesis by (simp add: wrap64_def ac_simps)
qed

lemma range_sum_wrap: "range_sum rs (wrap64 n) = wrap64 (n + (\<Sum>r \<leftarrow> rs. End r - Start r + 1))"
proof (induction rs arbitrary: n)
  case (Cons r rs)
  have "range_sum (r # rs) (wrap64 n) = range_sum rs (wrap64 (n + (End r - Start r + 1)))"
    by (simp add: range_sum_def)
  also have "\<dots> = wrap64 (n + (End r - Start r + 1) + (\<Sum>r \<leftarrow> rs. End r - Start r + 1))" by (rule Cons.IH)
  finally show ?case by (simp add: add.assoc)
qed (simp add: range_sum_def)

lemma wrap64_0: "wrap64 0 = 0"
  by (simp add: wrap64_def)

text \<open>
  C29: Merging the hunks of a file keeps exactly the changed lines: for the ranges the parser builds,
  the merged list covers the same lines as the hunks together, its ranges are valid, and they are in
  ascending order with at least one unchanged line between any two, so no line is counted twice and
  the number of changed lines is the number of lines covered.
\<close>

theorem merged_ranges_exact:
  assumes "list_all proper_range rs"
  shows "lines_of (merge_line_ranges rs) = lines_of rs
    \<and> list_all proper_range (merge_line_ranges rs)
    \<and> sorted_wrt apart (merge_line_ranges rs)
    \<and> range_sum (merge_line_ranges rs) 0 = wrap64 (int (card (lines_of rs)))"
proof (intro conjI)
  note spec = merge_line_ranges_spec [OF assms]
  show "lines_of (merge_line_ranges rs) = lines_of rs" "list_all proper_range (merge_line_ranges rs)"
    "sorted_wrt apart (merge_line_ranges rs)" by (rule spec)+
  show "range_sum (merge_line_ranges rs) 0 = wrap64 (int (card (lines_of rs)))"
    using range_sum_wrap [of "merge_line_ranges rs" 0] card_lines_apart [OF spec(2,3)]
    by (simp add: spec(1) wrap64_0)
qed

lemma merged_ranges_exact_witness:
  "lines_of (merge_line_ranges [\<lparr>Start = 7, End = 9\<rparr>, \<lparr>Start = 2, End = 3\<rparr>, \<lparr>Start = 4, End = 4\<rparr>])
    = lines_of [\<lparr>Start = 7, End = 9\<rparr>, \<lparr>Start = 2, End = 3\<rparr>, \<lparr>Start = 4, End = 4\<rparr>]
    \<and> merge_line_ranges [\<lparr>Start = 7, End = 9\<rparr>, \<lparr>Start = 2, End = 3\<rparr>, \<lparr>Start = 4, End = 4\<rparr>]
      = [\<lparr>Start = 2, End = 4\<rparr>, \<lparr>Start = 7, End = 9\<rparr>]"
  using merged_ranges_exact [of "[\<lparr>Start = 7, End = 9\<rparr>, \<lparr>Start = 2, End = 3\<rparr>, \<lparr>Start = 4, End = 4\<rparr>]"]
  by (simp add: proper_range_def max_int_def merge_line_ranges_def less_range_def wrap64_def)

subsection \<open>The list of changed paths\<close>

definition good_path :: "gostring \<Rightarrow> gostring \<Rightarrow> bool" where
  "good_path root p \<longleftrightarrow> p \<noteq> [] \<and> nul_byte \<notin> set p \<and> valid_utf8 p \<and> validate_diff_path root p = None"

definition change_names :: "changed_path \<Rightarrow> gostring list" where
  "change_names c = (if cpPrevious c \<noteq> [] then [cpPrevious c] else []) @ [cpCurrent c]"

definition good_change :: "gostring \<Rightarrow> gostring \<times> changed_path \<Rightarrow> bool" where
  "good_change root = (\<lambda>(status, c).
     changed_path_count status = Some (length (change_names c)) \<and> list_all (good_path root) (change_names c))"

definition change_record :: "gostring \<times> changed_path \<Rightarrow> gostring list" where
  "change_record = (\<lambda>(status, c). status # change_names c)"

definition render_changes :: "(gostring \<times> changed_path) list \<Rightarrow> gostring" where
  "render_changes cs = concat (map (\<lambda>f. f @ [nul_byte]) (concat (map change_record cs)))"

lemma changed_path_count_cases:
  assumes "changed_path_count status = Some n"
  shows "n = 1 \<or> n = 2" "nul_byte \<notin> set status"
proof -
  consider "n = 1" "length status = 1" "hd status \<in> set ''AMTUXB''"
    | "n = 2" "length status = 4" "hd status = CHR ''R'' \<or> hd status = CHR ''C''" "list_all is_digit (tl status)"
    using assms by (auto simp: changed_path_count_def split: if_splits option.splits)
  note cases = this
  then show "n = 1 \<or> n = 2" by cases auto
  have nd: "list_all is_digit t \<Longrightarrow> nul_byte \<notin> set t" for t
    by (induction t) (auto simp: is_digit_def nul_byte_def byte_def)
  from cases show "nul_byte \<notin> set status"
    by cases (cases status; auto simp: nul_byte_def dest: nd)+
qed

lemma names_checked:
  "list_all (\<lambda>r. nul_byte \<notin> set r) names \<Longrightarrow>
     first_error (name_error root) i names = None \<longleftrightarrow> list_all (good_path root) names"
  by (induction names arbitrary: i) (auto simp: name_error_def good_path_def split: if_splits option.splits)

lemma change_of_names:
  assumes "length names = 1 \<or> length names = 2" "[] \<notin> set names"
  shows "change_names \<lparr>cpPrevious = (if length names = 2 then hd names else []), cpCurrent = last names\<rparr> = names"
proof (cases "length names = 1")
  case True
  then show ?thesis by (auto simp: change_names_def length_Suc_conv)
next
  case False
  with assms obtain a b where "names = [a, b]" by (auto simp: numeral_2_eq_2 length_Suc_conv)
  with assms show ?thesis by (auto simp: change_names_def)
qed

lemma change_names_parts:
  "change_names c \<noteq> []" "last (change_names c) = cpCurrent c"
  "(if length (change_names c) = 2 then hd (change_names c) else []) = cpPrevious c"
  by (auto simp: change_names_def)

lemma parse_records_render:
  assumes "list_all (good_change root) cs" "distinct (map (cpCurrent \<circ> snd) cs)"
    and "set (map (cpCurrent \<circ> snd) cs) \<inter> set seen = {}"
  shows "parse_records root seen (concat (map change_record cs)) = Inr (map snd cs)"
  using assms
proof (induction cs arbitrary: seen)
  case (Cons sc cs)
  obtain status c where sc: "sc = (status, c)" by (cases sc)
  let ?names = "change_names c"
  have good: "changed_path_count status = Some (length ?names)" "list_all (good_path root) ?names"
    using Cons.prems(1) by (simp_all add: sc good_change_def)
  have "first_error (name_error root) 0 ?names = None"
    using good(2) names_checked [of ?names root 0] by (simp add: list_all_iff good_path_def)
  moreover have "parse_records root (cpCurrent c # seen) (concat (map change_record cs)) = Inr (map snd cs)"
    using Cons.IH [of "cpCurrent c # seen"] Cons.prems by (auto simp: sc)
  moreover have "cpCurrent c \<notin> set seen" using Cons.prems(3) by (simp add: sc)
  ultimately show ?case
    using good(1) change_names_parts [of c]
    by (simp add: sc change_record_def Let_def)
qed simp

lemma parse_records_sound:
  assumes "list_all (\<lambda>r. nul_byte \<notin> set r) rs" "parse_records root seen rs = Inr ps"
  shows "\<exists>cs. list_all (good_change root) cs \<and> rs = concat (map change_record cs) \<and> ps = map snd cs
       \<and> distinct (map cpCurrent ps) \<and> set (map cpCurrent ps) \<inter> set seen = {}"
  using assms
proof (induction root seen rs arbitrary: ps rule: parse_records.induct)
  case (2 root seen status rest)
  then obtain n where n: "changed_path_count status = Some n" "n \<le> length rest"
    by (auto split: option.splits if_splits)
  let ?names = "take n rest"
  obtain c where c: "c = \<lparr>cpPrevious = (if length ?names = 2 then hd ?names else []), cpCurrent = last ?names\<rparr>" by blast
  from "2.prems" n have err: "first_error (name_error root) 0 ?names = None"
    and fresh: "last ?names \<notin> set seen"
    by (auto simp: Let_def split: option.splits if_splits)
  from "2.prems" n err fresh obtain ps' where
    ps': "parse_records root (last ?names # seen) (drop n rest) = Inr ps'" "ps = c # ps'"
    by (auto simp: Let_def c split: sum.splits)
  have nul: "list_all (\<lambda>r. nul_byte \<notin> set r) ?names" "list_all (\<lambda>r. nul_byte \<notin> set r) (drop n rest)"
    using "2.prems"(1) by (auto simp: list_all_iff dest: in_set_takeD in_set_dropD)
  have "\<not> length rest < n" using n(2) by simp
  from "2.IH" [OF n(1) this refl err refl fresh nul(2) ps'(1)]
  obtain cs where cs: "list_all (good_change root) cs" "drop n rest = concat (map change_record cs)"
      "ps' = map snd cs" "distinct (map cpCurrent ps')"
      "set (map cpCurrent ps') \<inter> set (last ?names # seen) = {}"
    by (elim exE conjE)
  have good: "list_all (good_path root) ?names" using names_checked [OF nul(1)] err by simp
  have len: "length ?names = n" using n(2) by simp
  have names: "change_names c = ?names"
    using changed_path_count_cases(1) [OF n(1)] good
    unfolding c by (intro change_of_names) (auto simp only: len list_all_iff good_path_def)
  have "list_all (good_change root) ((status, c) # cs)"
    using n(1) good cs(1) by (simp add: good_change_def names len del: length_take)
  moreover have "status # rest = concat (map change_record ((status, c) # cs))"
    using append_take_drop_id [of n rest] cs(2) by (simp add: change_record_def names)
  ultimately show ?case
    using cs(3-5) fresh by (intro exI [of _ "(status, c) # cs"]) (simp add: ps'(2) c)
qed simp

lemma terminated_join: "rs \<noteq> [] \<Longrightarrow> concat (map (\<lambda>f. f @ [d]) rs) = join [d] rs @ [d]"
  by (induction "[d]" rs rule: join.induct) auto

lemma record_no_nul:
  "list_all (good_change root) cs \<Longrightarrow> \<forall>r \<in> set (concat (map change_record cs)). nul_byte \<notin> set r"
  by (fastforce simp: list_all_iff good_change_def change_record_def good_path_def
      dest: changed_path_count_cases(2))

lemma parse_changed_paths_sound:
  assumes ok: "parse_changed_paths root out = Inr ps"
  shows "\<exists>cs. out = render_changes cs \<and> ps = map snd cs \<and> list_all (good_change root) cs
      \<and> distinct (map cpCurrent ps)"
proof (cases "out = []")
  case True
  with ok show ?thesis by (intro exI [of _ "[]"]) (simp add: parse_changed_paths_def render_changes_def)
next
  case False
  let ?rs = "split_on nul_byte (butlast out)"
  from False ok have last: "last out = nul_byte" and rs: "parse_records root [] ?rs = Inr ps"
    by (auto simp: parse_changed_paths_def split: if_splits)
  have "list_all (\<lambda>r. nul_byte \<notin> set r) ?rs" using split_on_parts by (fastforce simp: list_all_iff)
  from parse_records_sound [OF this rs] obtain cs where
    cs: "list_all (good_change root) cs" "?rs = concat (map change_record cs)" "ps = map snd cs"
      "distinct (map cpCurrent ps)" by (elim exE conjE)
  have "concat (map (\<lambda>f. f @ [nul_byte]) ?rs) = butlast out @ [nul_byte]"
    by (simp add: terminated_join join_split_on)
  then have "out = render_changes cs"
    using False last append_butlast_last_id [of out] by (simp add: render_changes_def cs(2))
  with cs(1,3,4) show ?thesis by (intro exI [of _ cs]) simp
qed

text \<open>
  C28: The changed-path parser accepts exactly Git's own format: it returns a list of changes when,
  and only when, the output is the rendering of those changes, each a status letter (a rename or copy
  with a score up to 100, which has a previous path) and its NUL-terminated paths, where every path
  is non-empty valid UTF-8, canonical and inside the repository, and no current path repeats. So no
  output yields an unsafe path, and none that Git renders from safe paths is refused.
\<close>

theorem changed_paths_exact:
  "parse_changed_paths root out = Inr ps \<longleftrightarrow>
     (\<exists>cs. out = render_changes cs \<and> ps = map snd cs \<and> list_all (good_change root) cs
       \<and> distinct (map cpCurrent ps))"
proof (intro iffI; (elim exE conjE)?)
  assume "parse_changed_paths root out = Inr ps"
  then show "\<exists>cs. out = render_changes cs \<and> ps = map snd cs \<and> list_all (good_change root) cs
      \<and> distinct (map cpCurrent ps)" by (rule parse_changed_paths_sound)
next
  fix cs
  assume cs: "out = render_changes cs" "ps = map snd cs" "list_all (good_change root) cs"
    "distinct (map cpCurrent ps)"
  let ?rs = "concat (map change_record cs)"
  show "parse_changed_paths root out = Inr ps"
  proof (cases "cs = []")
    case True
    with cs show ?thesis by (simp add: parse_changed_paths_def render_changes_def)
  next
    case False
    then have ne: "?rs \<noteq> []" by (cases cs) (auto simp: change_record_def)
    have out: "out = join [nul_byte] ?rs @ [nul_byte]"
      using terminated_join [OF ne] by (simp add: cs(1) render_changes_def)
    have "split_on nul_byte (join [nul_byte] ?rs) = ?rs"
      using record_no_nul [OF cs(3)] ne by (intro split_join) auto
    moreover have "parse_records root [] ?rs = Inr ps"
      using parse_records_render [OF cs(3), of "[]"] cs(2,4) by simp
    ultimately show ?thesis by (simp add: parse_changed_paths_def out)
  qed
qed

subsection \<open>The resolved diff\<close>

text \<open>What \<open>gitcmd.Output\<close> documents: output beyond the limit is an error.\<close>

definition git_output_limited :: "'w repo \<Rightarrow> bool" where
  "git_output_limited R \<longleftrightarrow>
     (\<forall>root limit args w out. fst (repoGit R root limit args w) = Inr out \<longrightarrow> int (length out) \<le> limit)"

lemma and_then_Inr:
  "and_then m f s = (Inr b, s') \<longleftrightarrow> (\<exists>a t. m s = (Inr a, t) \<and> f a t = (Inr b, s'))"
  by (auto simp: and_then_def split: prod.splits sum.splits)

lemma act_Inr [simp]:
  "give a s = (Inr b, s') \<longleftrightarrow> b = a \<and> s' = s"
  "\<not> fail e s = (Inr b, s')"
  "checked r s = (Inr b, s') \<longleftrightarrow> r = Inr b \<and> s' = s"
  by (auto simp: give_def fail_def checked_def)

lemma with_prefix_Inr [simp]: "with_prefix l r = Inr a \<longleftrightarrow> r = Inr a"
  by (simp add: with_prefix_def split: sum.splits)

lemma prefixed_Inr: "(case m of (r, t) \<Rightarrow> (with_prefix l r, t)) = (Inr a, s') \<longleftrightarrow> m = (Inr a, s')"
  by (auto split: prod.splits)

lemma port_Inr:
  "port f s = (Inr a, s') \<longleftrightarrow> fst (f (dsWorld s)) = a \<and> s' = s\<lparr>dsWorld := snd (f (dsWorld s))\<rparr>"
  by (auto simp: port_def split: prod.splits)

lemma git_or_Inr:
  assumes "git_output_limited R" "git_or R root limit label args s = (Inr out, s')"
  shows "int (length out) \<le> limit" "dsCache s' = dsCache s"
  using assms
  by (auto simp: git_or_def git_def and_then_Inr port_Inr git_output_limited_def split: sum.splits)

lemma check_context_Inr: "check_context R label s = (Inr u, s') \<Longrightarrow> dsCache s' = dsCache s"
  by (auto simp: check_context_def and_then_Inr port_Inr split: option.splits)

text \<open>Cached line counts come from blobs Git returned within its limit.\<close>

definition cache_ok :: "'w diff_state \<Rightarrow> bool" where
  "cache_ok s \<longleftrightarrow> (\<forall>n \<in> ran (dsCache s). 0 \<le> n \<and> n \<le> diff_limit + 1)"

lemma count_blob_lines_bounds: "0 \<le> count_blob_lines b \<and> count_blob_lines b \<le> int (length b) + 1"
proof -
  obtain k where k: "length (filter (\<lambda>c. c = lf) b) = k" "k \<le> length b" by simp
  then show ?thesis by (simp add: count_blob_lines_def k(1))
qed

lemma deletion_anchor_Inr:
  assumes R: "git_output_limited R" and "cache_ok s" and "deletion_anchor R root head p req s = (Inr n, s')"
  shows "cache_ok s' \<and> 0 \<le> n \<and> n \<le> diff_limit + 1"
proof -
  from assms(3) obtain t1 m where t1: "dsCache t1 = dsCache s"
    and m: "(case dsCache t1 p of Some n \<Rightarrow> (Inr n, t1)
       | None \<Rightarrow>
           and_then (git_or R root diff_limit ''read captured repository blob for deletion anchor: ''
                       [''cat-file'', ''blob'', head @ '':'' @ p]) (\<lambda>blob.
           and_then (check_context R []) (\<lambda>_ s.
             (Inr (count_blob_lines blob),
              s\<lparr>dsCache := (dsCache s)(p \<mapsto> count_blob_lines blob)\<rparr>))) t1) = (Inr m, s')"
    and n: "n = (if m = 0 then 0 else if req = 0 then 1 else if req > 0 \<and> req \<le> m then req else m)"
    unfolding deletion_anchor_def and_then_Inr act_Inr by (auto dest: check_context_Inr)
  have "cache_ok s' \<and> 0 \<le> m \<and> m \<le> diff_limit + 1"
  proof (cases "dsCache t1 p")
    case None
    with m obtain blob t2 t3 where g: "git_or R root diff_limit ''read captured repository blob for deletion anchor: ''
                       [''cat-file'', ''blob'', head @ '':'' @ p] t1 = (Inr blob, t2)"
      and c: "check_context R [] t2 = (Inr (), t3)" and m': "m = count_blob_lines blob"
      "s' = t3\<lparr>dsCache := (dsCache t3)(p \<mapsto> count_blob_lines blob)\<rparr>"
      by (auto simp: and_then_Inr)
    have "dsCache t3 = dsCache s" using git_or_Inr(2) [OF R g] check_context_Inr [OF c] t1 by simp
    moreover have "0 \<le> m \<and> m \<le> diff_limit + 1"
      using git_or_Inr(1) [OF R g] count_blob_lines_bounds [of blob] m'(1) by linarith
    ultimately show ?thesis using assms(2) m' by (auto simp: cache_ok_def ran_def)
  next
    case (Some k)
    with m t1 assms(2) show ?thesis by (auto simp: cache_ok_def ran_def)
  qed
  then show ?thesis using n by (auto simp: diff_limit_def)
qed

lemma atoi_bounds: "atoi s = Some n \<Longrightarrow> 0 \<le> n \<and> n \<le> max_int"
proof -
  have "list_all is_digit t \<Longrightarrow> 0 \<le> k \<Longrightarrow> 0 \<le> foldl (\<lambda>n c. 10 * n + (int (byte c) - 48)) k t" for t and k :: int
    by (induction t arbitrary: k) (auto simp: is_digit_def)
  then show "atoi s = Some n \<Longrightarrow> 0 \<le> n \<and> n \<le> max_int"
    by (auto simp: atoi_def decimal_def split: if_splits)
qed

lemma hunk_line_Inr:
  assumes "git_output_limited R" "cache_ok s" "hunk_line R root head p line s = (Inr r, s')"
  shows "cache_ok s' \<and> pred_option proper_range r"
proof (cases "has_prefix line ''@@''")
  case False
  with assms show ?thesis by (simp add: hunk_line_def)
next
  case True
  with assms(3) obtain a b start num where h: "hunk_header line = Some (a, b)" "atoi a = Some start"
    "(if b = [] then Some 1 else atoi b) = Some num"
    by (auto simp: hunk_line_def split: option.splits)
  have num: "0 \<le> num" "num \<le> max_int" using h(3) atoi_bounds by (auto simp: max_int_def split: if_splits)
  have start: "0 \<le> start" using h(2) atoi_bounds by blast
  show ?thesis
  proof (cases "num = 0")
    case True
    with assms(3) h \<open>has_prefix line ''@@''\<close>
    have "and_then (deletion_anchor R root head p start)
            (\<lambda>anchor. give (if anchor \<noteq> 0 then Some \<lparr>Start = anchor, End = anchor\<rparr> else None)) s = (Inr r, s')"
      by (simp add: hunk_line_def)
    then obtain n where n: "deletion_anchor R root head p start s = (Inr n, s')"
      "r = (if n \<noteq> 0 then Some \<lparr>Start = n, End = n\<rparr> else None)" by (auto simp: and_then_Inr)
    from deletion_anchor_Inr [OF assms(1,2) n(1)] n(2) show ?thesis
      by (auto simp: proper_range_def max_int_def diff_limit_def)
  next
    case False
    with assms(3) h \<open>has_prefix line ''@@''\<close>
    have "\<not> (start \<le> 0 \<or> num < 0 \<or> start > max_int - num + 1)"
      "r = Some \<lparr>Start = start, End = start + num - 1\<rparr>" "s' = s"
      by (auto simp: hunk_line_def split: if_splits)
    with assms(2) num False show ?thesis by (simp add: proper_range_def)
  qed
qed

lemma hunk_lines_Inr:
  assumes "git_output_limited R"
  shows "cache_ok s \<Longrightarrow> hunk_lines R root head p ls s = (Inr rs, s') \<Longrightarrow> cache_ok s' \<and> list_all proper_range rs"
proof (induction ls arbitrary: s rs s')
  case (Cons l ls)
  then obtain r t rs' where r: "hunk_line R root head p l s = (Inr r, t)"
    "hunk_lines R root head p ls t = (Inr rs', s')" "rs = (case r of None \<Rightarrow> rs' | Some x \<Rightarrow> x # rs')"
    by (auto simp: and_then_Inr)
  with hunk_line_Inr [OF assms Cons.prems(1) r(1)] Cons.IH [OF _ r(2)] show ?case
    by (auto split: option.splits)
qed simp

lemma parse_diff_hunks_Inr:
  assumes "git_output_limited R" "cache_ok s" "parse_diff_hunks R root head p patch s = (Inr rs, s')"
  shows "cache_ok s' \<and> list_all proper_range rs \<and> sorted_wrt apart rs"
  using assms hunk_lines_Inr [OF assms(1,2)] merge_line_ranges_spec(2,3)
  by (auto simp: parse_diff_hunks_def and_then_Inr split: if_splits)

definition sound_entry :: "gostring \<times> line_range list \<Rightarrow> bool" where
  "sound_entry e \<longleftrightarrow> list_all proper_range (snd e) \<and> sorted_wrt apart (snd e)"

definition lines_sum :: "changed_lines \<Rightarrow> int" where
  "lines_sum ch = (\<Sum>e \<leftarrow> ch. int (card (lines_of (snd e))))"

lemma range_sum_apart:
  assumes "list_all proper_range rs" "sorted_wrt apart rs"
  shows "range_sum rs (wrap64 n) = wrap64 (n + int (card (lines_of rs)))"
  using range_sum_wrap [of rs n] card_lines_apart [OF assms] by simp

lemma path_ranges_Inr:
  assumes R: "git_output_limited R"
  shows "cache_ok s \<Longrightarrow> path_ranges R root base head ps lines (wrap64 (lines_sum lines)) s = (Inr (lines', n), s') \<Longrightarrow>
     list_all sound_entry lines \<Longrightarrow>
     list_all sound_entry lines' \<and> map fst lines' = map fst lines @ map cpCurrent ps
       \<and> n = wrap64 (lines_sum lines')"
proof (induction ps arbitrary: lines s)
  case (Cons p ps)
  from Cons.prems(2) obtain patch t ranges t' args where
    g: "git_or R root diff_limit ''read changed-line ranges: '' args s = (Inr patch, t)"
    and h: "parse_diff_hunks R root head (cpCurrent p) patch t = (Inr ranges, t')"
    and rest: "path_ranges R root base head ps (lines @ [(cpCurrent p, ranges)])
                 (range_sum ranges (wrap64 (lines_sum lines))) t' = (Inr (lines', n), s')"
    by (auto simp: and_then_Inr prefixed_Inr)
  have "cache_ok t" using git_or_Inr(2) [OF R g] Cons.prems(1) by (simp add: cache_ok_def)
  from parse_diff_hunks_Inr [OF R this h]
  have t': "cache_ok t'" and e: "list_all proper_range ranges" "sorted_wrt apart ranges" by simp_all
  have "range_sum ranges (wrap64 (lines_sum lines)) = wrap64 (lines_sum (lines @ [(cpCurrent p, ranges)]))"
    using range_sum_apart [OF e] by (simp add: lines_sum_def)
  with rest Cons.IH [OF t', of "lines @ [(cpCurrent p, ranges)]"] Cons.prems(3) e
  show ?case by (simp add: sound_entry_def)
qed (simp add: give_def)

lemma parse_object_id_idem:
  assumes "parse_object_id out = Inr v"
  shows "parse_object_id v = Inr v"
proof -
  have line: "parse_single_git_line out = Inr v"
    using assms by (auto simp: parse_object_id_def split: sum.splits if_splits)
  then have "lf \<notin> set v" by (auto simp: parse_single_git_line_def Let_def contains_any_def split: if_splits)
  then have "trim_suffix v [lf] = v"
    by (cases v rule: rev_cases) (auto simp: trim_suffix_def has_suffix_def)
  with line have "parse_single_git_line v = Inr v"
    by (auto simp: parse_single_git_line_def Let_def split: if_splits)
  with assms line show ?thesis by (simp add: parse_object_id_def)
qed

lemma changed_paths_canonical:
  assumes "parse_changed_paths root out = Inr ps"
  shows "distinct (map cpCurrent ps)" "p \<in> set ps \<Longrightarrow> good_path root (cpCurrent p)"
proof -
  have rs: "ps = [] \<or> (\<exists>rs. list_all (\<lambda>r. nul_byte \<notin> set r) rs \<and> parse_records root [] rs = Inr ps)"
    using assms split_on_parts [of _ nul_byte "butlast out"]
    by (auto simp: parse_changed_paths_def list_all_iff split: if_splits)
  then have ex: "\<exists>cs. list_all (good_change root) cs \<and> ps = map snd cs \<and> distinct (map cpCurrent ps)"
    using parse_records_sound by (elim disjE exE conjE) (force intro: exI [of _ "[]"])+
  then show "distinct (map cpCurrent ps)" by blast
  show "good_path root (cpCurrent p)" if "p \<in> set ps"
    using ex that by (fastforce simp: list_all_iff good_change_def change_names_def)
qed

lemma sound_entries_valid:
  "list_all sound_entry ch \<Longrightarrow> \<forall>q \<in> set (map fst ch). parse_path q = Inr q \<Longrightarrow> validate_changed_lines ch = None"
proof -
  have "list_all sound_entry ch \<Longrightarrow> \<forall>q \<in> set (map fst ch). parse_path q = Inr q \<Longrightarrow>
      validated_changed_lines ch = Inr ch"
  proof (induction ch)
    case (Cons e ch)
    obtain p rs where e: "e = (p, rs)" by (cases e)
    have "first_error (\<lambda>i r. if bad_range r then Some (ChangedRange p i r) else None) 0 rs = None
        \<longleftrightarrow> (\<forall>r \<in> set rs. \<not> bad_range r)" by (rule first_error_uniform) simp
    moreover have "\<forall>r \<in> set rs. \<not> bad_range r"
      using Cons.prems(1) by (force simp: e sound_entry_def list_all_iff proper_range_def bad_range_def)
    ultimately show ?case using Cons by (simp add: e)
  qed simp
  then show "list_all sound_entry ch \<Longrightarrow> \<forall>q \<in> set (map fst ch). parse_path q = Inr q \<Longrightarrow>
      validate_changed_lines ch = None" by (simp add: validate_changed_lines_def)
qed

lemma fresh_cache_Inr: "fresh_cache s = (Inr u, s') \<longleftrightarrow> s' = s\<lparr>dsCache := Map.empty\<rparr>"
  by (auto simp: fresh_cache_def)

lemma resolve_diff_commit_Inr:
  "resolve_diff_commit R root ref s = (Inr v, s') \<Longrightarrow> \<exists>out. parse_object_id out = Inr v"
  by (auto simp: resolve_diff_commit_def and_then_Inr split_sum_ex)

lemma merge_base_Inr:
  "merge_base R root head base s = (Inr v, s') \<Longrightarrow> \<exists>out. parse_object_id out = Inr v"
  by (auto simp: merge_base_def and_then_Inr split_sum_ex)

lemma ascii_valid: "list_all (\<lambda>c. byte c < 128) s \<Longrightarrow> valid_utf8 s"
  by (induction s) (auto simp: valid_utf8_def rune_error_def)

lemma parse_diff_ref_valid: "parse_diff_ref out = Inr v \<Longrightarrow> validate_requested_base v = None"
  by (auto simp: parse_diff_ref_def split: sum.splits option.splits)

lemma automatic_refs_valid: "c \<in> set automatic_base_refs \<Longrightarrow> validate_requested_base (snd c) = None"
proof -
  have ok: "plain_ends v \<Longrightarrow> list_all (\<lambda>c. 32 \<le> byte c \<and> byte c < 127) v \<Longrightarrow> \<not> has_prefix v ''-'' \<Longrightarrow>
      validate_requested_base v = None" for v
  proof -
    assume v: "plain_ends v" "list_all (\<lambda>c. 32 \<le> byte c \<and> byte c < 127) v" "\<not> has_prefix v ''-''"
    have "list_all (\<lambda>c. byte c < 128) v" using v(2) by (auto simp: list_all_iff)
    then have "valid_utf8 v" by (rule ascii_valid)
    moreover have "list_all (\<lambda>r. 32 \<le> r \<and> r < 127) (runes v)"
      using v(2) by (subst runes_all) auto
    moreover have "trim_space v = v" using v(1) by (rule trim_space_plain)
    ultimately show ?thesis using v(1,3)
      by (auto simp: validate_requested_base_def list_all_iff plain_ends_def)
  qed
  assume "c \<in> set automatic_base_refs"
  then have "snd c \<in> {''origin/main'', ''origin/master'', ''main'', ''master''}"
    by (auto simp: automatic_base_refs_def)
  then show ?thesis
    by (elim insertE emptyE; intro ok) (simp_all add: plain_ends_def byte_def is_space_def has_prefix_def)
qed

lemma automatic_ref_found:
  "find P automatic_base_refs = Some (a, ref) \<Longrightarrow> validate_requested_base ref = None"
  using automatic_refs_valid [of "(a, ref)"] by (auto simp: find_Some_iff)

lemma resolve_diff_base_ref_Inr:
  "resolve_diff_base_ref R root requested s = (Inr ref, s') \<Longrightarrow> validate_requested_base ref = None"
  by (auto simp: resolve_diff_base_ref_def and_then_Inr split_sum_ex
      dest: parse_diff_ref_valid automatic_ref_found
      split: if_split_asm option.split_asm sum.split_asm)

lemma resolve_diff_Inr:
  assumes "resolve_diff R root requested s = (Inr d, s')"
  obtains canonical head head_out base base_out fork fork_out out ps s4 lines n s5 ref where
    "parse_object_id head_out = Inr head" "parse_object_id fork_out = Inr fork"
    "parse_changed_paths canonical out = Inr ps"
    "path_ranges R canonical fork head ps [] 0 (s4\<lparr>dsCache := Map.empty\<rparr>) = (Inr (lines, n), s5)"
    "d = \<lparr>diffBaseRef = ref, diffBaseCommit = base, diffMergeBase = fork, diffHead = head,
           diffChangedFiles = length ps, diffChangedLines = n, diffLines = lines\<rparr>"
    "parse_object_id base_out = Inr base" "validate_requested_base ref = None"
  using assms
  unfolding resolve_diff_def and_then_Inr prefixed_Inr act_Inr fresh_cache_Inr with_prefix_Inr
    split_paired_Ex case_prod_conv
  apply (elim exE conjE)
  apply (drule merge_base_Inr, drule resolve_diff_commit_Inr, drule resolve_diff_commit_Inr,
      drule resolve_diff_base_ref_Inr)
  apply (elim exE, hypsubst)
  apply (rule that [rotated 3], assumption+)
  done

lemma resolved_diff_facts:
  assumes "git_output_limited R" and "resolve_diff R root requested s = (Inr d, s')"
  shows "parse_object_id (diffHead d) = Inr (diffHead d)"
    "parse_object_id (diffMergeBase d) = Inr (diffMergeBase d)"
    "parse_object_id (diffBaseCommit d) = Inr (diffBaseCommit d)"
    "validate_requested_base (diffBaseRef d) = None"
    "validate_changed_lines (diffLines d) = None"
    "distinct (map fst (diffLines d))"
    "list_all sound_entry (diffLines d)"
    "diffChangedFiles d = length (diffLines d)"
    "diffChangedLines d = wrap64 (lines_sum (diffLines d))"
proof -
  from assms(2) obtain canonical head head_out base base_out fork fork_out out ps s4 lines n s5 ref where
    head: "parse_object_id head_out = Inr head" and fork: "parse_object_id fork_out = Inr fork"
    and ps: "parse_changed_paths canonical out = Inr ps"
    and ranges: "path_ranges R canonical fork head ps [] 0 (s4\<lparr>dsCache := Map.empty\<rparr>) = (Inr (lines, n), s5)"
    and d: "d = \<lparr>diffBaseRef = ref, diffBaseCommit = base, diffMergeBase = fork, diffHead = head,
           diffChangedFiles = length ps, diffChangedLines = n, diffLines = lines\<rparr>"
    and base: "parse_object_id base_out = Inr base" and ref: "validate_requested_base ref = None"
    by (rule resolve_diff_Inr)
  have cache: "cache_ok (s4\<lparr>dsCache := Map.empty\<rparr>)" by (simp add: cache_ok_def)
  from path_ranges_Inr [OF assms(1) cache, of canonical fork head ps "[]"] ranges
  have e: "list_all sound_entry lines" "map fst lines = map cpCurrent ps" "n = wrap64 (lines_sum lines)"
    by (simp_all add: lines_sum_def wrap64_0)
  have canon: "\<forall>q \<in> set (map fst lines). parse_path q = Inr q"
    using changed_paths_canonical(2) [OF ps]
    by (fastforce simp: e(2) good_path_def validate_diff_path_def split: if_split_asm)
  have len: "length lines = length ps" using arg_cong [OF e(2), of length] by simp
  show "parse_object_id (diffHead d) = Inr (diffHead d)"
    "parse_object_id (diffMergeBase d) = Inr (diffMergeBase d)"
    "parse_object_id (diffBaseCommit d) = Inr (diffBaseCommit d)"
    "validate_requested_base (diffBaseRef d) = None"
    "validate_changed_lines (diffLines d) = None"
    "distinct (map fst (diffLines d))"
    "list_all sound_entry (diffLines d)"
    "diffChangedFiles d = length (diffLines d)"
    "diffChangedLines d = wrap64 (lines_sum (diffLines d))"
    using parse_object_id_idem [OF head] parse_object_id_idem [OF fork] parse_object_id_idem [OF base] ref
      sound_entries_valid [OF e(1) canon] changed_paths_canonical(1) [OF ps] e len by (simp_all add: d)
qed

text \<open>
  C27: A resolved diff is a valid touched scope. Whatever Git, the file system and the context answer,
  provided Git's output keeps its limit: if the diff resolves, the head and the merge base are full
  object IDs, the changed lines pass the validation of the touched-scope filter, no path occurs twice,
  the ranges of a file are ascending and separated, the file count is the number of paths, and the line
  count is, up to the wrap-around of the machine integer, the number of lines the ranges cover.
\<close>

theorem resolved_diff_is_valid_scope:
  assumes "git_output_limited R" and "resolve_diff R root requested s = (Inr d, s')"
  shows "parse_object_id (diffHead d) = Inr (diffHead d)
    \<and> parse_object_id (diffMergeBase d) = Inr (diffMergeBase d)
    \<and> validate_changed_lines (diffLines d) = None
    \<and> distinct (map fst (diffLines d))
    \<and> list_all sound_entry (diffLines d)
    \<and> diffChangedFiles d = length (diffLines d)
    \<and> diffChangedLines d = wrap64 (lines_sum (diffLines d))"
  using resolved_diff_facts [OF assms] by simp

subsection \<open>A repository\<close>

text \<open>A repository with one changed file, whose Git answers each command and keeps its limits.\<close>

definition demo_failure :: "int option \<Rightarrow> git_failure" where
  "demo_failure exit = \<lparr>failCommand = True, failLimit = exit = None, failCancelled = False, failExit = exit,
     failText = [], failInner = []\<rparr>"

definition demo_id :: gostring where
  "demo_id = replicate 40 (CHR ''a'')"

definition demo_answer :: "gostring list \<Rightarrow> gostring" where
  "demo_answer args =
     (if take 2 args = [''rev-parse'', ''--git-path''] then ''/r/.git/info/attributes'' @ [lf]
      else if args = [''rev-parse'', ''--git-common-dir''] then ''/r/.git'' @ [lf]
      else if take 2 args = [''rev-parse'', ''--verify''] then demo_id @ [lf]
      else if take 1 args = [''merge-base''] then demo_id @ [lf]
      else if take 2 args = [''diff'', ''--name-status''] then ''M'' @ [nul_byte] @ ''x'' @ [nul_byte]
      else if take 2 args = [''diff'', ''--unified=0''] then ''diff --git '' @ [lf] @ ''@@ -1 +1,2 @@'' @ [lf]
      else [])"

definition demo_repo :: "unit repo" where
  "demo_repo = \<lparr>
     repoGit = (\<lambda>root limit args w.
       (if take 1 args = [''config''] then Inl (demo_failure (Some 1))
        else if int (length (demo_answer args)) \<le> limit then Inr (demo_answer args)
        else Inl (demo_failure None), w)),
     repoAbs = (\<lambda>p w. (Some p, w)), repoEval = (\<lambda>p w. (Inr p, w)), repoIsDir = (\<lambda>p w. (True, w)),
     repoLstat = (\<lambda>p w. (Inl True, w)), repoCtx = (\<lambda>w. (None, w))\<rparr>"

definition demo_start :: "unit diff_state" where
  "demo_start = \<lparr>dsWorld = (), dsCache = Map.empty\<rparr>"

definition demo_diff :: diff where
  "demo_diff = \<lparr>diffBaseRef = ''m'', diffBaseCommit = demo_id, diffMergeBase = demo_id, diffHead = demo_id,
     diffChangedFiles = 1, diffChangedLines = 2, diffLines = [(''x'', [\<lparr>Start = 1, End = 2\<rparr>])]\<rparr>"

lemma demo_repo_limited: "git_output_limited demo_repo"
  by (simp add: git_output_limited_def demo_repo_def)

lemma unit_world: "(s :: unit diff_state)\<lparr>dsWorld := w\<rparr> = s"
  by simp

lemma demo_repo_ports:
  "port (repoAbs demo_repo p) s = (Inr (Some p), s)" "port (repoEval demo_repo p) s = (Inr (Inr p), s)"
  "port (repoIsDir demo_repo p) s = (Inr True, s)" "port (repoLstat demo_repo p) s = (Inr (Inl True), s)"
  "port (repoCtx demo_repo) s = (Inr None, s)"
  "repoEval demo_repo p w = (Inr p, w)"
  by (simp_all add: port_def demo_repo_def)

lemma demo_git:
  "git demo_repo root limit args s =
     (Inr (if take 1 args = [''config''] then Inl (strip_failure (demo_failure (Some 1)))
           else if int (length (demo_answer args)) \<le> limit then Inr (demo_answer args)
           else Inl (strip_failure (demo_failure None))), s)"
  by (simp add: git_def demo_repo_def port_def and_then_def give_def)

lemmas demo_acts = and_then_def give_def fail_def checked_def demo_repo_ports demo_git git_or_def demo_answer_def
  check_context_def

lemma demo_line:
  assumes "w \<noteq> []" "list_all (\<lambda>c. 32 \<le> byte c \<and> byte c < 128) w"
  shows "parse_single_git_line (w @ [lf]) = Inr w"
proof -
  have "valid_utf8 w" using assms(2) by (intro ascii_valid) (auto simp: list_all_iff)
  moreover have "\<not> contains_any w [cr, lf, nul_byte]"
    using assms(2) by (auto simp: contains_any_def list_all_iff cr_def lf_def nul_byte_def byte_def)
  ultimately show ?thesis using assms(1) by (simp add: parse_single_git_line_def trim_suffix_def has_suffix_def)
qed

lemma demo_id_parses: "parse_object_id (demo_id @ [lf]) = Inr demo_id"
proof -
  have "list_all (\<lambda>c. 32 \<le> byte c \<and> byte c < 128) demo_id" by (simp add: demo_id_def byte_def list_all_length)
  moreover have "runes (replicate n (CHR ''a'')) = replicate n 97" for n
    by (induction n) (simp_all add: byte_def)
  ultimately show ?thesis by (simp add: parse_object_id_def demo_line demo_id_def)
qed

lemma demo_within: "path_within_root ''/r/.git'' ''/r/.git/info'' \<and> path_within_root ''/r/.git'' ''/r/.git/info/attributes''
   \<and> path_dir ''/r/.git/info/attributes'' = ''/r/.git/info''"
  by (simp add: path_within_root_def path_rel_def path_clean_def abs_comps_def is_abs_def slash_def dotdot_def dot_def
      has_prefix_def path_dir_def)

lemma demo_clean: "check_repository_clean demo_repo ''/r'' s = (Inr (), s)"
proof -
  let ?a = "\<lparr>lapPath = ''/r/.git/info/attributes'', lapCommonDir = ''/r/.git''\<rparr>"
  have "resolve_local_attributes_path demo_repo ''/r'' s = (Inr ?a, s)"
    using demo_line [of "''/r/.git/info/attributes''"] demo_line [of "''/r/.git''"] demo_within
    by (simp add: resolve_local_attributes_path_def Let_def demo_acts paths_limit_def byte_def absolute_git_path_def
        is_abs_def slash_def path_clean_def dot_def dotdot_def)
  moreover have "check_local_attributes demo_repo ?a s = (Inr (), s)"
    using demo_within by (simp add: check_local_attributes_def demo_acts)
  ultimately show ?thesis
    by (simp add: check_repository_clean_def canonical_diff_root_def demo_acts tracked_gitlinks_def
        reject_git_conversion_filters_def reject_hidden_index_entries_def demo_failure_def strip_failure_def
        paths_limit_def status_limit_def)
qed

lemma demo_paths: "parse_changed_paths ''/r'' (''M'' @ [nul_byte] @ ''x'' @ [nul_byte])
   = Inr [\<lparr>cpPrevious = [], cpCurrent = ''x''\<rparr>]"
proof -
  have "valid_utf8 ''x''" by (rule ascii_valid) (simp add: byte_def)
  moreover have "validate_diff_path ''/r'' ''x'' = None"
    using trim_space_plain [of "''x''"]
    by (simp add: validate_diff_path_def parse_path_def path_eval plain_ends_def is_space_def byte_def Let_def
        path_within_root_def path_join_def path_rel_def abs_comps_def)
  ultimately show ?thesis
    by (simp add: parse_changed_paths_def nul_byte_def changed_path_count_def name_error_def)
qed

lemma demo_hunks: "parse_diff_hunks demo_repo ''/r'' demo_id ''x''
    (''diff --git '' @ [lf] @ ''@@ -1 +1,2 @@'' @ [lf]) s = (Inr [\<lparr>Start = 1, End = 2\<rparr>], s)"
  by (simp add: parse_diff_hunks_def demo_acts has_prefix_def nul_byte_def lf_def hunk_line_def hunk_header_def
      hunk_range_def is_digit_def byte_def cr_def atoi_def decimal_def max_int_def merge_line_ranges_def
      trim_suffix_def has_suffix_def)

lemma demo_base: "validate_requested_base ''m'' = None"
proof -
  have "trim_space ''m'' = ''m''" by (rule trim_space_plain) (simp add: plain_ends_def is_space_def byte_def)
  moreover have "valid_utf8 ''m''" by (rule ascii_valid) (simp add: byte_def)
  ultimately show ?thesis by (simp add: validate_requested_base_def has_prefix_def byte_def)
qed

lemma demo_head_commit: "resolve_diff_commit demo_repo ''/r'' ref s = (Inr demo_id, s)"
  by (simp add: resolve_diff_commit_def demo_acts reference_limit_def demo_id_parses) (simp add: demo_id_def)

lemma demo_merge_base: "merge_base demo_repo ''/r'' h b s = (Inr demo_id, s)"
  by (simp add: merge_base_def demo_acts reference_limit_def demo_id_parses with_prefix_def) (simp add: demo_id_def)

lemma demo_ranges:
  "path_ranges demo_repo ''/r'' b demo_id [\<lparr>cpPrevious = [], cpCurrent = ''x''\<rparr>] [] 0 s
     = (Inr ([(''x'', [\<lparr>Start = 1, End = 2\<rparr>])], 2), s)"
  using demo_hunks
  by (simp add: demo_acts diff_limit_def with_prefix_def range_sum_def wrap64_def)

lemma demo_resolves: "fst (resolve_diff demo_repo ''/r'' ''m'' demo_start) = Inr demo_diff"
  using demo_paths
  by (simp add: resolve_diff_def canonical_diff_root_def resolve_diff_base_ref_def demo_base demo_clean demo_head_commit
      demo_merge_base demo_ranges demo_acts paths_limit_def with_prefix_def fresh_cache_def demo_diff_def
      del: path_ranges.simps)

lemma resolved_diff_is_valid_scope_witness:
  "validate_changed_lines [(''x'', [\<lparr>Start = 1, End = 2\<rparr>])] = None
    \<and> diffChangedLines demo_diff = wrap64 (lines_sum [(''x'', [\<lparr>Start = 1, End = 2\<rparr>])])"
  using resolved_diff_is_valid_scope [OF demo_repo_limited,
      of "''/r''" "''m''" demo_start demo_diff "snd (resolve_diff demo_repo ''/r'' ''m'' demo_start)"]
    demo_resolves
  by (simp add: prod_eq_iff demo_diff_def)

end
