(* ===== verification/Reports.thy ===== *)
theory Reports
  imports Diffs Plans
begin

text \<open>
  The report of a run: its data and exit codes (\<open>report.go\<close>, \<open>exit.go\<close>), its composition from the
  reports of the gates (\<open>run.go\<close>) and the validation every report passes before it is written and
  after it is read (\<open>ledger.go\<close>), all in \<open>internal/run\<close>. A time is the number of nanoseconds since
  the zero time. A Go slice that the code compares with nil is an option. A problem is the text of
  the error without the values it quotes, with the indices it names.
\<close>

subsection \<open>Problems\<close>

type_synonym problem = "gostring \<times> nat list"

definition fails :: "bool \<Rightarrow> gostring \<Rightarrow> nat list \<Rightarrow> problem option" where
  "fails c label at = (if c then Some (label, at) else None)"

text \<open>A sequence of checks that stops at the first problem.\<close>

primrec checks :: "problem option list \<Rightarrow> problem option" where
  "checks [] = None"
| "checks (c # cs) = (case c of Some p \<Rightarrow> Some p | None \<Rightarrow> checks cs)"

lemma fails_None [simp]: "fails c label at = None \<longleftrightarrow> \<not> c"
  by (simp add: fails_def)

lemma checks_None [simp]: "checks (c # cs) = None \<longleftrightarrow> c = None \<and> checks cs = None"
  by (cases c) simp_all

declare checks.simps(2) [simp del]

subsection \<open>Data\<close>

type_synonym gate_status = gostring
definition gate_passed :: gate_status where "gate_passed = ''passed''"
definition gate_findings :: gate_status where "gate_findings = ''findings''"
definition gate_errored :: gate_status where "gate_errored = ''errored''"

type_synonym verdict = gostring
definition verdict_unverified :: verdict where "verdict_unverified = ''unverified''"
definition verdict_findings :: verdict where "verdict_findings = ''findings''"
definition verdict_blocked :: verdict where "verdict_blocked = ''blocked''"
definition verdict_rails :: verdict where "verdict_rails = ''rails''"
definition verdict_errored :: verdict where "verdict_errored = ''errored''"
definition verdict_unsealed :: verdict where "verdict_unsealed = ''unsealed''"

type_synonym suite_status = gostring
definition suite_passed :: suite_status where "suite_passed = ''passed''"
definition suite_failed :: suite_status where "suite_failed = ''failed''"
definition suite_missing :: suite_status where "suite_missing = ''missing''"
definition suite_errored :: suite_status where "suite_errored = ''errored''"

type_synonym landing_status = gostring
definition landing_not_needed :: landing_status where "landing_not_needed = ''not-needed''"
definition landing_complete :: landing_status where "landing_complete = ''complete''"
definition landing_blocked :: landing_status where "landing_blocked = ''blocked''"

type_synonym fix_policy = gostring
definition autofix_only :: fix_policy where "autofix_only = ''autofix-only''"
definition autofix_then_llm :: fix_policy where "autofix_then_llm = ''autofix-then-llm''"
definition llm_fix :: fix_policy where "llm_fix = ''llm-fix''"
definition report_only :: fix_policy where "report_only = ''report-only''"

definition report_schema_version :: int where "report_schema_version = 4"

record gate_report =
  grGate :: gostring
  grLanguage :: gostring
  grBlocking :: "severity list option"
  grFixPolicy :: fix_policy
  grPosition :: int
  grStatus :: gate_status
  grFindings :: "finding list"
  grDurationMS :: int
  grObservedVersion :: gostring
  grWarnings :: "gostring list"
  grError :: gostring

record counts =
  cntErrors :: int
  cntWarnings :: int
  cntInfo :: int
  cntOccurrences :: int

record diff_report =
  drBaseRef :: gostring
  drBaseCommit :: gostring
  drMergeBase :: gostring
  drHead :: gostring
  drChangedFiles :: int
  drChangedLines :: int

record suite_result =
  srCommand :: "gostring list"
  srPackages :: "gostring list"
  srStatus :: suite_status
  srDurationMS :: int
  srDiagnostic :: gostring

record usage =
  InputTokens :: int
  CachedInputTokens :: int
  OutputTokens :: int

record agent_report =
  arName :: gostring
  arUsage :: "usage option"

record rails_report =
  rrMaxIterations :: int
  rrIterations :: int
  rrMaxWallClockMS :: int
  rrElapsedMS :: int

record landing_report =
  lrStatus :: landing_status
  lrCommit :: gostring
  lrPreservedBranch :: gostring
  lrError :: gostring

record fix_report =
  frOriginalHead :: gostring
  frFeatureBranch :: gostring
  frAgent :: agent_report
  frBaseline :: suite_result
  frFinal :: "suite_result option"
  frRails :: rails_report
  frBatches :: "batch list option"
  frIntegrity :: "finding list option"
  frLanding :: landing_report

record report =
  repSchemaVersion :: int
  repRunID :: gostring
  repRepoID :: gostring
  repDiff :: diff_report
  repStartedAt :: int
  repFinishedAt :: int
  repVerdict :: verdict
  repGates :: "gate_report list"
  repFindings :: "finding list option"
  repCounts :: counts
  repFix :: "fix_report option"

text \<open>A nil slice has no elements.\<close>

definition elems :: "'a list option \<Rightarrow> 'a list" where
  "elems x = (case x of None \<Rightarrow> [] | Some xs \<Rightarrow> xs)"

lemma elems_simps [simp]: "elems None = []" "elems (Some xs) = xs"
  by (simp_all add: elems_def)

subsection \<open>Exit codes\<close>

definition exit_code :: "verdict \<Rightarrow> int" where
  "exit_code v =
     (if v = verdict_findings then 1 else if v = verdict_blocked then 2 else if v = verdict_rails then 3
      else if v = verdict_errored then 4 else if v = verdict_unverified then 5
      else if v = verdict_unsealed then 6 else 70)"

text \<open>
  The error a command returns: none, one without an exit code, or one whose chain holds an exit code,
  which is the code of a nil \<open>ExitError\<close> when \<open>None\<close>.
\<close>

datatype command_error = Plain | Coded "int option"

definition resolve_exit :: "command_error option \<Rightarrow> int" where
  "resolve_exit e =
     (case e of
        None \<Rightarrow> 0
      | Some Plain \<Rightarrow> 70
      | Some (Coded None) \<Rightarrow> 70
      | Some (Coded (Some code)) \<Rightarrow> if code < 1 \<or> code > 6 then 70 else code)"

subsection \<open>Composition\<close>

definition compare_strings :: "gostring \<Rightarrow> gostring \<Rightarrow> int" where
  "compare_strings a b = (if a < b then -1 else if a = b then 0 else 1)"

definition compare_gate_reports :: "gate_report \<Rightarrow> gate_report \<Rightarrow> int" where
  "compare_gate_reports l r =
     (if grPosition l \<noteq> grPosition r then wrap64 (grPosition l - grPosition r)
      else if grGate l \<noteq> grGate r then compare_strings (grGate l) (grGate r)
      else compare_strings (grLanguage l) (grLanguage r))"

fun count_findings :: "counts \<Rightarrow> finding list \<Rightarrow> counts" where
  "count_findings c [] = c"
| "count_findings c (f # fs) =
     (let n = 1 + int (length (Occurrences f));
          c1 = c\<lparr>cntOccurrences := cntOccurrences c + n\<rparr>;
          c2 = (if Severity f = sev_error then c1\<lparr>cntErrors := cntErrors c1 + n\<rparr>
                else if Severity f = sev_warning then c1\<lparr>cntWarnings := cntWarnings c1 + n\<rparr>
                else if Severity f = sev_info then c1\<lparr>cntInfo := cntInfo c1 + n\<rparr>
                else c1)
      in count_findings c2 fs)"

definition no_counts :: counts where
  "no_counts = \<lparr>cntErrors = 0, cntWarnings = 0, cntInfo = 0, cntOccurrences = 0\<rparr>"

definition blocks :: "gate_report \<Rightarrow> finding \<Rightarrow> bool" where
  "blocks g f \<longleftrightarrow> Severity f \<in> set (elems (grBlocking g))"

definition verdict_for :: "gate_report list \<Rightarrow> verdict" where
  "verdict_for gates =
     (if \<exists>g \<in> set gates. grStatus g = gate_errored then verdict_errored
      else if \<exists>g \<in> set gates. \<exists>f \<in> set (grFindings g). blocks g f then verdict_findings
      else verdict_unverified)"

definition errored_gate_names :: "gate_report list \<Rightarrow> gostring list" where
  "errored_gate_names gates = map grGate (filter (\<lambda>g. grStatus g = gate_errored) gates)"

definition gates_errored :: "gate_report list \<Rightarrow> bool" where
  "gates_errored gates \<longleftrightarrow> errored_gate_names gates \<noteq> []"

definition blocking_findings :: "gate_report list \<Rightarrow> finding list" where
  "blocking_findings gates =
     (case group (concat (map (\<lambda>g. filter (blocks g) (grFindings g)) gates)) of
        Inl _ \<Rightarrow> [] | Inr fs \<Rightarrow> fs)"

definition diff_report_of :: "diff \<Rightarrow> diff_report" where
  "diff_report_of d =
     \<lparr>drBaseRef = diffBaseRef d, drBaseCommit = diffBaseCommit d, drMergeBase = diffMergeBase d,
      drHead = diffHead d, drChangedFiles = int (diffChangedFiles d), drChangedLines = diffChangedLines d\<rparr>"

subsection \<open>Validation of the parts\<close>

definition valid_object_id_string :: "gostring \<Rightarrow> bool" where
  "valid_object_id_string v \<longleftrightarrow> (length v = 40 \<or> length v = 64)
     \<and> list_all (\<lambda>c. \<not> (byte c < 48 \<or> (byte c > 57 \<and> byte c < 97) \<or> byte c > 102)) v"

text \<open>\<open>repoid.ValidKey\<close>.\<close>

definition valid_key :: "gostring \<Rightarrow> bool" where
  "valid_key v \<longleftrightarrow> (length v = 40 \<or> length v = 64)
     \<and> list_all (\<lambda>r. \<not> ((r < 48 \<or> r > 57) \<and> (r < 97 \<or> r > 102))) (runes v)"

definition validate_diff_report :: "diff_report \<Rightarrow> problem option" where
  "validate_diff_report d = checks [
     fails (validate_requested_base (drBaseRef d) \<noteq> None) ''report diff base ref is invalid'' [],
     fails (list_ex is_control (runes (drBaseRef d))) ''report diff base ref contains a control character'' [],
     fails (\<not> valid_object_id_string (drBaseCommit d)) ''report diff base commit is invalid'' [],
     fails (\<not> valid_object_id_string (drMergeBase d)) ''report diff merge base is invalid'' [],
     fails (\<not> valid_object_id_string (drHead d)) ''report diff head is invalid'' [],
     fails (length (drBaseCommit d) \<noteq> length (drMergeBase d) \<or> length (drBaseCommit d) \<noteq> length (drHead d))
       ''report diff object IDs have inconsistent lengths'' [],
     fails (drChangedFiles d < 0 \<or> drChangedLines d < 0) ''report diff counts cannot be negative'' [],
     fails (drChangedFiles d = 0 \<and> drChangedLines d \<noteq> 0)
       ''report diff with no changed files cannot contain changed lines'' []]"

text \<open>The loop over one file's ranges of \<open>validateDiff\<close>, with the line count so far.\<close>

fun count_ranges :: "line_range option \<Rightarrow> line_range list \<Rightarrow> int \<Rightarrow> (problem, int) res" where
  "count_ranges previous [] n = Inr n"
| "count_ranges previous (r # rs) n =
     (if (case previous of None \<Rightarrow> False
          | Some p \<Rightarrow> Start r \<le> End p \<or> (End p < max_int \<and> Start r = End p + 1))
      then Inl (''diff changed ranges are overlapping, adjacent, or out of order'', [])
      else if n > max_int - (End r - Start r + 1) then Inl (''diff changed-line count overflows int'', [])
      else count_ranges (Some r) rs (n + (End r - Start r + 1)))"

fun count_changed :: "changed_lines \<Rightarrow> int \<Rightarrow> (problem, int) res" where
  "count_changed [] n = Inr n"
| "count_changed ((p, rs) # rest) n =
     (case count_ranges None rs n of Inl e \<Rightarrow> Inl e | Inr m \<Rightarrow> count_changed rest m)"

definition validate_diff :: "diff \<Rightarrow> problem option" where
  "validate_diff d = checks [
     validate_diff_report (diff_report_of d),
     fails (length (diffLines d) \<noteq> diffChangedFiles d)
       ''diff changed-line files do not match changed file count'' [],
     fails (validate_changed_lines (diffLines d) \<noteq> None) ''diff changed lines are invalid'' [],
     (case count_changed (diffLines d) 0 of
        Inl e \<Rightarrow> Some e
      | Inr n \<Rightarrow> fails (n \<noteq> diffChangedLines d) ''diff changed-line count does not match ranges'' [])]"

definition validate_suite_report :: "suite_result \<Rightarrow> problem option" where
  "validate_suite_report s = checks [
     fails (srDurationMS s < 0) ''negative duration'' [],
     fails (srStatus s \<notin> {suite_passed, suite_failed, suite_missing, suite_errored}) ''invalid status'' []]"

text \<open>\<open>equalFindings\<close> compares every field, and the occurrences as lists.\<close>

definition equal_findings :: "finding list \<Rightarrow> finding list \<Rightarrow> bool" where
  "equal_findings l r \<longleftrightarrow> l = r"

definition regrouped :: "finding list \<Rightarrow> finding list \<Rightarrow> bool" where
  "regrouped fs expected \<longleftrightarrow>
     (case group fs of Inl _ \<Rightarrow> False | Inr grouped \<Rightarrow> equal_findings grouped expected)"

definition validate_gate_status :: "gate_report \<Rightarrow> nat \<Rightarrow> problem option" where
  "validate_gate_status g i =
     (let inconsistent = Some (''gate status is inconsistent'', [i]) in
      if grStatus g = gate_passed
      then (if grFindings g = [] \<and> grError g = [] then None else inconsistent)
      else if grStatus g = gate_findings
      then (if grFindings g \<noteq> [] \<and> grError g = [] then None else inconsistent)
      else if grStatus g = gate_errored
      then (if grFindings g = [] \<and> trim_space (grError g) \<noteq> [] then None else inconsistent)
      else Some (''gate has invalid status'', [i]))"

fun blocking_problem :: "nat \<Rightarrow> severity list \<Rightarrow> severity list \<Rightarrow> problem option" where
  "blocking_problem i seen [] = None"
| "blocking_problem i seen (s # ss) =
     (if \<not> valid_severity s then Some (''gate has invalid blocking severity'', [i])
      else if s \<in> set seen then Some (''gate has duplicate blocking severity'', [i])
      else blocking_problem i (s # seen) ss)"

definition gate_finding_problem :: "gate_report \<Rightarrow> nat \<Rightarrow> nat \<Rightarrow> finding \<Rightarrow> problem option" where
  "gate_finding_problem g i k f = checks [
     fails (validate f \<noteq> None) ''gate finding is invalid'' [i, k],
     fails (Gate f \<noteq> grGate g \<or> Language f \<noteq> grLanguage g) ''gate finding ownership is inconsistent'' [i, k]]"

definition validate_gate_report :: "gate_report \<Rightarrow> nat \<Rightarrow> problem option" where
  "validate_gate_report g i = checks [
     fails (trim_space (grGate g) = [] \<or> trim_space (grLanguage g) = []) ''gate name and language are required'' [i],
     fails (grDurationMS g < 0) ''gate has negative duration'' [i],
     fails (grPosition g < 0) ''gate has negative position'' [i],
     fails (grBlocking g = None) ''gate blocking severities are required'' [i],
     blocking_problem i [] (elems (grBlocking g)),
     fails (grFixPolicy g \<notin> {autofix_only, autofix_then_llm, llm_fix, report_only}) ''gate has invalid fix policy'' [i],
     validate_gate_status g i,
     first_error (gate_finding_problem g i) 0 (grFindings g),
     fails (grFindings g \<noteq> [] \<and> \<not> regrouped (grFindings g) (grFindings g))
       ''gate findings are not deterministically grouped'' [i]]"

subsection \<open>Validation of a fix\<close>

definition is_lower_hex :: "char \<Rightarrow> bool" where
  "is_lower_hex c \<longleftrightarrow> is_digit c \<or> (97 \<le> byte c \<and> byte c \<le> 102)"

text \<open>\<open>fixBatchIDPattern\<close>.\<close>

definition fix_batch_id :: "gostring \<Rightarrow> bool" where
  "fix_batch_id s \<longleftrightarrow> has_prefix s ''batch-'' \<and> length s = 70 \<and> list_all is_lower_hex (drop 6 s)"

definition attempt_problem :: "nat \<Rightarrow> nat \<Rightarrow> nat \<Rightarrow> attempt \<Rightarrow> problem option" where
  "attempt_problem id_length i k a = checks [
     fails (attNumber a \<noteq> k + 1) ''batch attempt is invalid'' [i, k],
     fails (attCommit a \<noteq> [] \<and> (\<not> valid_object_id_string (attCommit a) \<or> length (attCommit a) \<noteq> id_length))
       ''batch attempt has an invalid commit'' [i, k],
     (case attStatus a of
        AttemptRunning \<Rightarrow> fails (attFailure a \<noteq> [] \<or> attChangedFiles a \<noteq> [] \<or> attCommit a \<noteq> [])
          ''batch attempt has contradictory running evidence'' [i, k]
      | AttemptFailed \<Rightarrow> fails (trim_space (attFailure a) = [] \<or> attChangedFiles a \<noteq> [] \<or> attCommit a \<noteq> [])
          ''batch attempt has contradictory failure evidence'' [i, k]
      | AttemptPassed \<Rightarrow> fails (attFailure a \<noteq> [] \<or> attChangedFiles a = [] \<or> \<not> valid_object_id_string (attCommit a))
          ''batch attempt has contradictory success evidence'' [i, k]),
     fails (\<not> sorted (attChangedFiles a) \<or> length (remdups_adj (attChangedFiles a)) \<noteq> length (attChangedFiles a))
       ''batch attempt changed files are not canonical'' [i, k],
     fails (list_ex (\<lambda>file. parse_path file \<noteq> Inr file) (attChangedFiles a))
       ''batch attempt has an invalid changed file'' [i, k]]"

definition batch_problem :: "nat \<Rightarrow> nat \<Rightarrow> batch \<Rightarrow> problem option" where
  "batch_problem id_length i b =
     (let n = length (batchAttempts b); final = last (batchAttempts b) in checks [
     fails (parse_path (primaryFile b) \<noteq> Inr (primaryFile b)) ''batch has an invalid primary file'' [i],
     fails (batchFindings b = []) ''batch arrays are required'' [i],
     first_error (\<lambda>k f. fails (validate f \<noteq> None \<or> File f \<noteq> primaryFile b) ''batch finding is invalid'' [i, k])
       0 (batchFindings b),
     fails (\<not> regrouped (batchFindings b) (batchFindings b)) ''batch findings are not canonical'' [i],
     fails (batchStatus b \<notin> {BatchPending, BatchRunning, BatchDone, BatchStuck}) ''batch has an invalid status'' [i],
     fails (n > 2) ''batch has too many attempts'' [i],
     first_error (attempt_problem id_length i) 0 (batchAttempts b),
     fails (batchStatus b = BatchPending \<and> n \<noteq> 0) ''batch pending status has attempts'' [i],
     fails (batchStatus b = BatchRunning \<and> n = 0) ''batch running status lacks an attempt'' [i],
     fails (batchStatus b = BatchRunning \<and> attStatus final = AttemptPassed)
       ''batch running status follows a passed attempt'' [i],
     fails (n = 2 \<and> attStatus (hd (batchAttempts b)) \<noteq> AttemptFailed) ''batch second attempt is unreachable'' [i],
     fails (batchStatus b = BatchDone \<and> (n = 0 \<or> attStatus final \<noteq> AttemptPassed))
       ''batch completed status lacks a passed attempt'' [i],
     fails (batchStatus b = BatchStuck \<and> (n \<noteq> 2 \<or> attStatus (batchAttempts b ! 1) \<noteq> AttemptFailed))
       ''batch stuck status lacks two failed attempts'' [i]])"

fun batches_problem :: "nat \<Rightarrow> nat \<Rightarrow> gostring list \<Rightarrow> batch list \<Rightarrow> problem option" where
  "batches_problem id_length i seen [] = None"
| "batches_problem id_length i seen (b # bs) =
     (if \<not> fix_batch_id (batchName b) then Some (''batch has an invalid ID'', [i])
      else if batchName b \<in> set seen then Some (''batch duplicates an ID'', [i])
      else (case batch_problem id_length i b of
              Some p \<Rightarrow> Some p
            | None \<Rightarrow> batches_problem id_length (Suc i) (batchName b # seen) bs))"

definition validate_fix_batches :: "batch list \<Rightarrow> nat \<Rightarrow> problem option" where
  "validate_fix_batches batches id_length = batches_problem id_length 0 [] batches"

definition line_breaks :: gostring where
  "line_breaks = [nul_byte, cr, lf]"

definition usage_problem :: "usage option \<Rightarrow> problem option" where
  "usage_problem u =
     (case u of None \<Rightarrow> None
      | Some u \<Rightarrow> fails (InputTokens u < 0 \<or> CachedInputTokens u < 0 \<or> OutputTokens u < 0
                        \<or> CachedInputTokens u > InputTokens u) ''agent usage cannot be negative'' [])"

definition integrity_problem :: "nat \<Rightarrow> finding \<Rightarrow> problem option" where
  "integrity_problem i f = checks [
     fails (validate f \<noteq> None) ''integrity finding is invalid'' [i],
     fails (Gate f \<noteq> ''integrity'') ''integrity finding has a non-integrity gate'' [i]]"

text \<open>The checks of \<open>validateFixReport\<close> on the parts of the report, in the order of the code.\<close>

definition fix_parts :: "fix_report \<Rightarrow> diff_report \<Rightarrow> verdict \<Rightarrow> problem option" where
  "fix_parts f d v = (let rails = frRails f; integrity = elems (frIntegrity f) in checks [
     fails (\<not> valid_object_id_string (frOriginalHead f) \<or> frOriginalHead f \<noteq> drHead d)
       ''original HEAD must match the report diff HEAD'' [],
     fails ((trim_space (frFeatureBranch f) = [] \<and> v \<noteq> verdict_errored)
            \<or> contains_any (frFeatureBranch f) line_breaks) ''feature branch is required'' [],
     fails (trim_space (arName (frAgent f)) = [] \<or> contains_any (arName (frAgent f)) line_breaks)
       ''agent name is required'' [],
     usage_problem (arUsage (frAgent f)),
     validate_suite_report (frBaseline f),
     (case frFinal f of None \<Rightarrow> None | Some s \<Rightarrow> validate_suite_report s),
     fails (rrMaxIterations rails \<le> 0 \<or> rrIterations rails < 0 \<or> rrIterations rails > rrMaxIterations rails
            \<or> rrMaxWallClockMS rails \<le> 0 \<or> rrElapsedMS rails < 0) ''invalid rail accounting'' [],
     fails (v = verdict_rails \<and> rrIterations rails < rrMaxIterations rails
            \<and> rrElapsedMS rails < rrMaxWallClockMS rails) ''rails verdict lacks exhausted rail evidence'' [],
     fails (frBatches f = None \<or> frIntegrity f = None) ''batches and integrity arrays are required'' [],
     validate_fix_batches (elems (frBatches f)) (length (drHead d)),
     first_error integrity_problem 0 integrity,
     fails (\<not> regrouped integrity integrity) ''integrity findings are duplicated or non-canonical'' []])"

definition landing_problem :: "landing_report \<Rightarrow> diff_report \<Rightarrow> verdict \<Rightarrow> gostring \<Rightarrow> problem option" where
  "landing_problem l d v run_id = checks [
     fails (lrStatus l \<notin> {landing_not_needed, landing_complete, landing_blocked}) ''invalid landing status'' [],
     fails (lrCommit l \<noteq> [] \<and> (\<not> valid_object_id_string (lrCommit l) \<or> length (lrCommit l) \<noteq> length (drHead d)))
       ''invalid landing commit'' [],
     fails (contains_any (lrPreservedBranch l) line_breaks \<or> contains_any (lrError l) line_breaks)
       ''landing text contains a control character'' [],
     fails (lrStatus l = landing_complete \<and> (lrCommit l = [] \<or> lrPreservedBranch l \<noteq> []))
       ''completed landing requires a commit and cannot preserve a branch'' [],
     fails (lrStatus l = landing_not_needed \<and> (lrCommit l \<noteq> [] \<or> lrPreservedBranch l \<noteq> [] \<or> lrError l \<noteq> []))
       ''unnecessary landing contains contradictory evidence'' [],
     fails (lrStatus l = landing_not_needed \<and> v \<noteq> verdict_unsealed)
       ''unnecessary landing requires an unsealed verdict'' [],
     fails (lrStatus l = landing_complete \<and> v \<noteq> verdict_unsealed \<and> v \<noteq> verdict_errored)
       ''completed landing has an invalid verdict'' [],
     fails (lrPreservedBranch l \<noteq> []
            \<and> (lrStatus l \<noteq> landing_blocked \<or> lrPreservedBranch l \<noteq> ''togi/run-'' @ run_id))
       ''preserved branch contradicts landing evidence'' []]"

definition baseline_problem :: "suite_result \<Rightarrow> verdict \<Rightarrow> gate_report list \<Rightarrow> problem option" where
  "baseline_problem s v gates =
     (if srStatus s = suite_missing \<or> srStatus s = suite_failed
      then fails (v \<noteq> verdict_unverified \<and> \<not> gates_errored gates)
             ''unverified baseline requires an unverified verdict'' []
      else if srStatus s = suite_errored
      then fails (v \<noteq> verdict_errored) ''errored baseline requires an errored verdict'' []
      else None)"

definition final_problem :: "suite_result option \<Rightarrow> verdict \<Rightarrow> problem option" where
  "final_problem final v =
     (case final of None \<Rightarrow> None
      | Some s \<Rightarrow>
          if srStatus s = suite_failed
          then fails (v \<noteq> verdict_blocked \<and> v \<noteq> verdict_errored)
                 ''failed final suite requires a blocked or cleanup-errored verdict'' []
          else if srStatus s = suite_missing
          then fails (v \<noteq> verdict_errored) ''unavailable final suite requires an errored verdict'' []
          else if srStatus s = suite_errored
          then fails (v \<noteq> verdict_errored \<and> v \<noteq> verdict_rails)
                 ''errored final suite requires an errored or rails verdict'' []
          else None)"

definition validate_fix_report ::
  "fix_report \<Rightarrow> diff_report \<Rightarrow> verdict \<Rightarrow> gate_report list \<Rightarrow> gostring \<Rightarrow> problem option" where
  "validate_fix_report f d v gates run_id =
     (let integrity = elems (frIntegrity f); landing = lrStatus (frLanding f) in checks [
     fix_parts f d v,
     landing_problem (frLanding f) d v run_id,
     fails (gates_errored gates \<and> v \<noteq> verdict_errored) ''errored gates require an errored verdict'' [],
     baseline_problem (frBaseline f) v gates,
     final_problem (frFinal f) v,
     fails (v = verdict_unsealed \<and>
            (srStatus (frBaseline f) \<noteq> suite_passed \<or> blocking_findings gates \<noteq> [] \<or> integrity \<noteq> []
             \<or> (case frFinal f of None \<Rightarrow> False | Some s \<Rightarrow> srStatus s \<noteq> suite_passed)
             \<or> (landing \<noteq> landing_complete \<and> landing \<noteq> landing_not_needed)))
       ''unsealed verdict contradicts fix evidence'' [],
     fails (integrity \<noteq> [] \<and> v \<noteq> verdict_blocked \<and> v \<noteq> verdict_errored)
       ''integrity findings require a blocked or errored verdict'' [],
     fails (v = verdict_errored \<and> landing \<noteq> landing_blocked \<and> landing \<noteq> landing_complete)
       ''errored verdict has an invalid landing status'' [],
     fails ((v = verdict_blocked \<or> v = verdict_rails \<or> v = verdict_unverified) \<and> landing \<noteq> landing_blocked)
       ''non-success verdict has an invalid landing status'' []])"

subsection \<open>Validation of a report\<close>

definition validate_report_header :: "report \<Rightarrow> gostring \<Rightarrow> problem option" where
  "validate_report_header r run_id = (let v = repVerdict r in checks [
     fails (repSchemaVersion r \<noteq> report_schema_version) ''unsupported report schema version'' [],
     fails (repRunID r \<noteq> run_id) ''report run ID does not match ledger run ID'' [],
     fails (\<not> valid_key (repRepoID r))
       ''report repository ID must be a full lowercase hexadecimal Git or SHA-256 identity'' [],
     fails (repStartedAt r = 0 \<or> repFinishedAt r = 0) ''report timestamps are required'' [],
     fails (v \<notin> {verdict_unverified, verdict_findings, verdict_blocked, verdict_rails, verdict_errored,
                  verdict_unsealed}) ''invalid verdict'' [],
     (case repFix r of
        None \<Rightarrow> fails (v \<in> {verdict_blocked, verdict_rails, verdict_unsealed}) ''verdict requires a fix report'' []
      | Some f \<Rightarrow> checks [
          fails (v = verdict_findings) ''report-only findings verdict cannot contain a fix report'' [],
          validate_fix_report f (repDiff r) v (repGates r) (repRunID r)]),
     fails (repFinishedAt r < repStartedAt r) ''report finished before it started'' [],
     fails (repGates r = []) ''report must contain at least one gate'' [],
     fails (repFindings r = None) ''report findings array is required'' [],
     validate_diff_report (repDiff r)])"

definition validate_report_summary :: "report \<Rightarrow> finding list \<Rightarrow> problem option" where
  "validate_report_summary r flattened = (let findings = elems (repFindings r) in checks [
     first_error (\<lambda>i f. fails (validate f \<noteq> None) ''finding is invalid'' [i]) 0 findings,
     fails (\<not> regrouped flattened findings) ''top-level findings do not match gate findings'' [],
     fails (count_findings no_counts findings \<noteq> repCounts r) ''report counts are inconsistent'' [],
     fails (repFix r = None \<and> verdict_for (repGates r) \<noteq> repVerdict r) ''report verdict is inconsistent'' []])"

text \<open>The loop over the gates, with the gate before.\<close>

fun gates_problem :: "nat \<Rightarrow> gate_report option \<Rightarrow> gate_report list \<Rightarrow> problem option" where
  "gates_problem i previous [] = None"
| "gates_problem i previous (g # gs) = checks [
     validate_gate_report g i,
     (case previous of None \<Rightarrow> None
      | Some p \<Rightarrow> checks [
          fails (grPosition p = grPosition g) ''report gate positions are duplicated'' [],
          fails (compare_gate_reports p g \<ge> 0) ''report gates are duplicated or out of order'' []]),
     gates_problem (Suc i) (Some g) gs]"

definition validate_report :: "report \<Rightarrow> gostring \<Rightarrow> problem option" where
  "validate_report r run_id = checks [
     validate_report_header r run_id,
     gates_problem 0 None (repGates r),
     validate_report_summary r (concat (map grFindings (repGates r)))]"

subsection \<open>Composing a report\<close>

definition less_gate_report :: "gate_report \<Rightarrow> gate_report \<Rightarrow> bool" where
  "less_gate_report l r \<longleftrightarrow> compare_gate_reports l r < 0"

definition compose_report ::
  "gostring \<Rightarrow> gostring \<Rightarrow> int \<Rightarrow> int \<Rightarrow> diff \<Rightarrow> gate_report list \<Rightarrow> (problem, report) res" where
  "compose_report run_id repo_id started finished d gates =
     (case validate_diff d of
        Some e \<Rightarrow> Inl e
      | None \<Rightarrow>
          (case group (concat (map grFindings gates)) of
             Inl _ \<Rightarrow> Inl (''group collected findings'', [])
           | Inr grouped \<Rightarrow>
               (let sorted_gates = sort_by less_gate_report gates;
                    r = \<lparr>repSchemaVersion = report_schema_version, repRunID = run_id, repRepoID = repo_id,
                         repDiff = diff_report_of d, repStartedAt = started,
                         repFinishedAt = (if finished < started then started else finished),
                         repVerdict = verdict_for sorted_gates, repGates = sorted_gates,
                         repFindings = Some grouped, repCounts = count_findings no_counts grouped,
                         repFix = None\<rparr>
                in case validate_report r run_id of Some e \<Rightarrow> Inl e | None \<Rightarrow> Inr r)))"

end
