(* ===== verification/Normalizers.thy ===== *)
theory Normalizers
  imports Versions Reports
begin

text \<open>
  \<open>internal/normalizer\<close>: the parsers of tool output and the findings they make. The regular
  expression and template engines and the JSON decoder are parameters; a repository is the canonical
  form of its root and the contents of its regular files.
\<close>

subsection \<open>Source lines\<close>

definition max_snippet_bytes :: int where "max_snippet_bytes = 65536"

datatype line_error = LinePastEOF | LineTooLong | InvalidUTF8

definition without_line_terminator :: "gostring \<Rightarrow> gostring" where
  "without_line_terminator line =
     (let l = (if line \<noteq> [] \<and> last line = lf then butlast line else line)
      in if l \<noteq> [] \<and> last l = cr then butlast l else l)"

text \<open>
  One call of \<open>ReadSlice\<close> on a buffer of two bytes more than a snippet: the text up to and with the
  next line feed and what follows it, or all of the text if it has none; \<open>None\<close> is a full buffer.
\<close>

definition read_slice :: "gostring \<Rightarrow> (gostring \<times> gostring \<times> bool) option" where
  "read_slice s =
     (let h = takeWhile (\<lambda>c. c \<noteq> lf) s; t = dropWhile (\<lambda>c. c \<noteq> lf) s
      in if t \<noteq> [] \<and> int (length h) + 1 \<le> max_snippet_bytes + 2 then Some (h @ [lf], tl t, False)
         else if t = [] \<and> int (length h) < max_snippet_bytes + 2 then Some (h, [], True)
         else None)"

lemma read_slice_shorter: "read_slice s = Some (line, rest, False) \<Longrightarrow> length rest < length s"
proof -
  assume r: "read_slice s = Some (line, rest, False)"
  have "length (dropWhile (\<lambda>c. c \<noteq> lf) s) \<le> length s" by (rule length_dropWhile_le)
  with r show ?thesis
    by (cases "dropWhile (\<lambda>c. c \<noteq> lf) s") (auto simp: read_slice_def Let_def split: if_split_asm)
qed

function line_from_reader :: "int \<Rightarrow> gostring \<Rightarrow> int \<Rightarrow> (line_error, gostring) res" where
  "line_from_reader current s wanted =
     (case read_slice s of
        None \<Rightarrow> Inl LineTooLong
      | Some (line, rest, eof) \<Rightarrow>
          if line = [] \<and> eof then Inl LinePastEOF
          else if int (length (without_line_terminator line)) > max_snippet_bytes then Inl LineTooLong
          else if current = wanted
          then (if valid_utf8 (without_line_terminator line) then Inr (without_line_terminator line)
                else Inl InvalidUTF8)
          else if eof then Inl LinePastEOF
          else line_from_reader (current + 1) rest wanted)"
  by pat_completeness auto
termination
  by (relation "measure (\<lambda>(current, s, wanted). length s)") (auto dest: read_slice_shorter)

declare line_from_reader.simps [simp del]

subsection \<open>Findings\<close>

record config =
  cfgLanguage :: gostring
  cfgRuleID :: gostring
  cfgMessage :: gostring
  cfgSeverityMap :: "(gostring \<times> severity) list"

record repository =
  canonicalRoot :: gostring
  sourceFile :: "gostring \<Rightarrow> gostring option"

definition mapped_severity :: "config \<Rightarrow> gostring \<Rightarrow> severity option" where
  "mapped_severity cfg tool =
     (case map_of (cfgSeverityMap cfg) tool of
        Some s \<Rightarrow> Some s
      | None \<Rightarrow> map_of (cfgSeverityMap cfg) ''default'')"

definition read_line :: "repository \<Rightarrow> gostring \<Rightarrow> int \<Rightarrow> (problem, gostring \<times> gostring) res" where
  "read_line R reported line =
     (if reported = [] then Inl (''source file is required'', [])
      else if line \<le> 0 then Inl (''source line is invalid'', [])
      else (case new_path (canonicalRoot R) reported of
              Inl _ \<Rightarrow> Inl (''source path is outside repository root'', [])
            | Inr path \<Rightarrow>
                (case sourceFile R path of
                   None \<Rightarrow> Inl (''source file cannot be opened; inspect persisted raw output'', [])
                 | Some contents \<Rightarrow>
                     (case line_from_reader 1 contents line of
                        Inl InvalidUTF8 \<Rightarrow> Inl (''source line is not valid UTF-8; inspect persisted raw output'', [])
                      | Inl _ \<Rightarrow> Inl (''source line cannot be read; inspect persisted raw output'', [])
                      | Inr snippet \<Rightarrow> Inr (path, snippet)))))"

definition make_finding ::
  "gostring \<Rightarrow> config \<Rightarrow> repository \<Rightarrow> gostring \<Rightarrow> gostring \<Rightarrow> gostring \<Rightarrow> int \<Rightarrow> gostring \<Rightarrow> (problem, finding) res" where
  "make_finding gate cfg R rule tool file line message =
     (case mapped_severity cfg tool of
        None \<Rightarrow> Inl (''tool severity has no mapping and no default'', [])
      | Some severity \<Rightarrow>
          (case read_line R file line of
             Inl e \<Rightarrow> Inl e
           | Inr (path, snippet) \<Rightarrow>
               (let f = \<lparr>Gate = gate, Language = cfgLanguage cfg, RuleID = rule, Severity = severity, File = path,
                         Line = line, EndLine = 0, Snippet = snippet, Occurrences = [], Message = message,
                         Fingerprint = []\<rparr>;
                    g = f\<lparr>Fingerprint := fingerprint f\<rparr>
                in if validate g \<noteq> None then Inl (''normalized finding is invalid'', []) else Inr g)))"

text \<open>A loop that collects the results of its body until one fails.\<close>

fun collect_all :: "(nat \<Rightarrow> 'a \<Rightarrow> (problem, 'b) res) \<Rightarrow> nat \<Rightarrow> 'a list \<Rightarrow> (problem, 'b list) res" where
  "collect_all f i [] = Inr []"
| "collect_all f i (x # xs) =
     (case f i x of
        Inl e \<Rightarrow> Inl e
      | Inr y \<Rightarrow> (case collect_all f (Suc i) xs of Inl e \<Rightarrow> Inl e | Inr ys \<Rightarrow> Inr (y # ys)))"

definition at_index :: "gostring \<Rightarrow> nat \<Rightarrow> (problem, 'a) res \<Rightarrow> (problem, 'a) res" where
  "at_index label i r = (case r of Inl (m, is) \<Rightarrow> Inl (label @ m, i # is) | Inr x \<Rightarrow> Inr x)"

subsection \<open>The golangci-lint format\<close>

record golangci_issue =
  isFromLinter :: gostring
  isText :: gostring
  isSeverity :: gostring
  isFilename :: gostring
  isLine :: int

text \<open>What the JSON decoder makes of the output: its first value, and what follows it.\<close>

datatype json_rest = JsonEnd | JsonMore | JsonGarbage

datatype json_output = JsonInvalid | JsonEnvelope "golangci_issue list option" json_rest

definition validate_golangci_issue :: "nat \<Rightarrow> golangci_issue \<Rightarrow> problem option" where
  "validate_golangci_issue i v = checks [
     fails (trim_space (isFromLinter v) = []) ''golangci-lint issue: FromLinter is required'' [i],
     fails (trim_space (isText v) = []) ''golangci-lint issue: Text is required'' [i],
     fails (trim_space (isFilename v) = []) ''golangci-lint issue: Pos.Filename is required'' [i],
     fails (isLine v \<le> 0) ''golangci-lint issue: Pos.Line must be positive'' [i]]"

definition normalize_golangci ::
  "(gostring \<Rightarrow> json_output) \<Rightarrow> (gostring \<Rightarrow> (problem, repository) res) \<Rightarrow> config \<Rightarrow> gostring \<Rightarrow> gostring \<Rightarrow> gostring \<Rightarrow>
     (problem, finding list) res" where
  "normalize_golangci decode open_root cfg gate root raw =
     (if \<not> valid_utf8 raw then Inl (''normalizer output is not valid UTF-8; inspect persisted raw output'', [])
      else if raw = [] then Inr []
      else (case decode raw of
              JsonInvalid \<Rightarrow> Inl (''golangci-lint output is invalid JSON; inspect persisted raw output'', [])
            | JsonEnvelope issues rest \<Rightarrow>
                if rest = JsonMore
                then Inl (''golangci-lint output contains multiple JSON values; inspect persisted raw output'', [])
                else if rest = JsonGarbage
                then Inl (''golangci-lint output has invalid trailing data; inspect persisted raw output'', [])
                else (case issues of
                        None \<Rightarrow> Inl (''decode golangci-lint JSON: Issues array is required'', [])
                      | Some is \<Rightarrow>
                          if is = [] then Inr []
                          else (case first_error validate_golangci_issue 0 is of
                                  Some e \<Rightarrow> Inl e
                                | None \<Rightarrow>
                                    (case open_root root of
                                       Inl e \<Rightarrow> Inl e
                                     | Inr R \<Rightarrow>
                                         collect_all (\<lambda>i v. at_index ''golangci-lint issue: '' i
                                           (make_finding gate cfg R (''golangci-lint/'' @ isFromLinter v) (isSeverity v)
                                              (isFilename v) (isLine v) (isText v))) 0 is)))))"

subsection \<open>The regex format\<close>

text \<open>
  A compiled pattern: the names of its groups from 1 on, and the groups of its leftmost match from 0 on.
  A parsed message template: whether it is the only one and its nodes.
\<close>

record pattern =
  patNames :: "gostring list"
  patFind :: "gostring \<Rightarrow> gostring list option"

datatype template_node = TextNode gostring | FieldAction "gostring list" | OtherAction | OtherNode

record template =
  tmAlone :: bool
  tmNodes :: "template_node list"

record engines =
  engCompile :: "gostring \<Rightarrow> pattern option"
  engTemplate :: "gostring \<Rightarrow> template option"
  engDecode :: "gostring \<Rightarrow> json_output"

text \<open>\<open>SubexpIndex\<close>, one for the first group.\<close>

fun index_from :: "nat \<Rightarrow> gostring \<Rightarrow> gostring list \<Rightarrow> nat option" where
  "index_from i name [] = None"
| "index_from i name (n # ns) = (if n = name then Some i else index_from (Suc i) name ns)"

definition subexp_index :: "pattern \<Rightarrow> gostring \<Rightarrow> nat option" where
  "subexp_index p name = index_from 1 name (patNames p)"

definition capture_values :: "pattern \<Rightarrow> gostring list \<Rightarrow> gostring \<rightharpoonup> gostring" where
  "capture_values p groups =
     map_of (rev (filter (\<lambda>e. fst e \<noteq> []) (zip (patNames p) (tl groups))))"

text \<open>\<open>Execute\<close> of the nodes the validation lets through, with \<open>missingkey=error\<close>.\<close>

fun render_nodes :: "(gostring \<rightharpoonup> gostring) \<Rightarrow> template_node list \<Rightarrow> gostring option" where
  "render_nodes values [] = Some []"
| "render_nodes values (TextNode t # ns) = map_option (append t) (render_nodes values ns)"
| "render_nodes values (FieldAction [name] # ns) =
     (case values name of None \<Rightarrow> None | Some v \<Rightarrow> map_option (append v) (render_nodes values ns))"
| "render_nodes values (_ # ns) = None"

fun validate_template_list :: "gostring list \<Rightarrow> template_node list \<Rightarrow> problem option" where
  "validate_template_list captures [] = None"
| "validate_template_list captures (TextNode t # ns) = validate_template_list captures ns"
| "validate_template_list captures (FieldAction idents # ns) =
     (case idents of
        [name] \<Rightarrow>
          (if name \<notin> set captures then Some (''regex message template references unknown capture'', [])
           else validate_template_list captures ns)
      | _ \<Rightarrow> Some (''regex message template supports only direct capture references'', []))"
| "validate_template_list captures (OtherAction # ns) =
     Some (''regex message template supports only direct capture references'', [])"
| "validate_template_list captures (OtherNode # ns) =
     Some (''regex message template supports only static text and direct capture references'', [])"

definition validate_template_references :: "template \<Rightarrow> gostring list \<Rightarrow> problem option" where
  "validate_template_references t captures =
     (if \<not> tmAlone t
      then Some (''regex message template supports only static text and direct capture references'', [])
      else validate_template_list captures (tmNodes t))"

record regex_normalizer =
  rnConfig :: config
  rnPattern :: pattern
  rnMessage :: template

definition parse_regex :: "engines \<Rightarrow> gostring \<Rightarrow> config \<Rightarrow> (problem, regex_normalizer) res" where
  "parse_regex E pattern cfg =
     (if pattern = [] then Inl (''regex normalizer pattern is required'', [])
      else if trim_space (cfgRuleID cfg) = [] then Inl (''regex normalizer rule ID is required'', [])
      else if trim_space (cfgMessage cfg) = [] then Inl (''regex normalizer message is required'', [])
      else (case map_of (cfgSeverityMap cfg) ''default'' of
              None \<Rightarrow> Inl (''regex binding requires a default severity'', [])
            | Some severity \<Rightarrow>
                (case engCompile E pattern of
                   None \<Rightarrow> Inl (''compile regex normalizer'', [])
                 | Some p \<Rightarrow>
                     (let named = filter (\<lambda>n. n \<noteq> []) (patNames p) in
                      if \<not> distinct named then Inl (''regex normalizer has duplicate named capture'', [])
                      else if subexp_index p ''file'' = None then Inl (''regex normalizer requires named capture file'', [])
                      else if subexp_index p ''line'' = None then Inl (''regex normalizer requires named capture line'', [])
                      else (case engTemplate E (cfgMessage cfg) of
                              None \<Rightarrow> Inl (''parse regex message template'', [])
                            | Some t \<Rightarrow>
                                (case validate_template_references t named of
                                   Some e \<Rightarrow> Inl e
                                 | None \<Rightarrow>
                                     if validate \<lparr>Gate = ''preflight'', Language = ''preflight'', RuleID = cfgRuleID cfg,
                                          Severity = severity, File = ''source'', Line = 1, EndLine = 0,
                                          Snippet = ''source'', Occurrences = [], Message = ''source'',
                                          Fingerprint = []\<rparr> \<noteq> None
                                     then Inl (''regex binding rule ID or default severity is invalid'', [])
                                     else if render_nodes (map_of (map (\<lambda>n. (n, ''capture'')) named)) (tmNodes t) = None
                                     then Inl (''validate regex message template'', [])
                                     else Inr \<lparr>rnConfig = cfg, rnPattern = p, rnMessage = t\<rparr>))))))"

record regex_record =
  recOutputLine :: nat
  recFile :: gostring
  recLine :: int
  recMessage :: gostring

text \<open>\<open>Atoi\<close> with an optional sign, of which only the positive results matter.\<close>

definition positive_int :: "gostring \<Rightarrow> int option" where
  "positive_int s =
     (let digits = (if has_prefix s ''+'' then tl s else s)
      in case atoi digits of Some n \<Rightarrow> if n \<le> 0 then None else Some n | None \<Rightarrow> None)"

fun regex_records :: "regex_normalizer \<Rightarrow> nat \<Rightarrow> gostring list \<Rightarrow> (problem, regex_record list) res" where
  "regex_records N i [] = Inr []"
| "regex_records N i (raw # rest) =
     (let text = trim_suffix raw [cr]; p = rnPattern N in
      if text = [] then
        (if rest = [] \<and> raw = [] then Inr []
         else Inl (''regex output line is blank; inspect persisted raw output'', [i + 1]))
      else (case patFind p text of
              None \<Rightarrow> Inl (''regex output line does not match; inspect persisted raw output'', [i + 1])
            | Some groups \<Rightarrow>
                if hd groups \<noteq> text
                then Inl (''regex output line does not match; inspect persisted raw output'', [i + 1])
                else (case positive_int (groups ! the (subexp_index p ''line'')) of
                        None \<Rightarrow> Inl (''regex output line capture is not a positive integer; inspect persisted raw output'', [i + 1])
                      | Some line \<Rightarrow>
                          (case render_nodes (capture_values p groups) (tmNodes (rnMessage N)) of
                             None \<Rightarrow> Inl (''render regex output line message'', [i + 1])
                           | Some message \<Rightarrow>
                               (case regex_records N (i + 1) rest of
                                  Inl e \<Rightarrow> Inl e
                                | Inr rs \<Rightarrow>
                                    Inr (\<lparr>recOutputLine = i + 1, recFile = groups ! the (subexp_index p ''file''),
                                          recLine = line, recMessage = message\<rparr> # rs))))))"

definition normalize_regex ::
  "(gostring \<Rightarrow> (problem, repository) res) \<Rightarrow> regex_normalizer \<Rightarrow> gostring \<Rightarrow> gostring \<Rightarrow> gostring \<Rightarrow> (problem, finding list) res" where
  "normalize_regex open_root N gate root raw =
     (if \<not> valid_utf8 raw then Inl (''regex output is not valid UTF-8; inspect persisted raw output'', [])
      else if raw = [] then Inr []
      else (case regex_records N 0 (split_on lf raw) of
              Inl e \<Rightarrow> Inl e
            | Inr records \<Rightarrow>
                (case open_root root of
                   Inl e \<Rightarrow> Inl e
                 | Inr R \<Rightarrow>
                     collect_all (\<lambda>_ r. at_index ''regex output line: '' (recOutputLine r)
                       (make_finding gate (rnConfig N) R (cfgRuleID (rnConfig N)) ''default'' (recFile r) (recLine r)
                          (recMessage r))) 0 records)))"

subsection \<open>Normalizers by name\<close>

datatype normalizer = Golangci config | Regex regex_normalizer

definition parse_normalizer :: "engines \<Rightarrow> gostring \<Rightarrow> config \<Rightarrow> (problem, normalizer) res" where
  "parse_normalizer E name cfg =
     (if has_prefix name ''regex:''
      then (case parse_regex E (trim_prefix name ''regex:'') cfg of Inl e \<Rightarrow> Inl e | Inr n \<Rightarrow> Inr (Regex n))
      else if name = ''golangci-json'' then Inr (Golangci cfg)
      else if name = [] then Inl (''normalizer name is required'', [])
      else Inl (''unknown normalizer'', []))"

fun normalize ::
  "engines \<Rightarrow> (gostring \<Rightarrow> (problem, repository) res) \<Rightarrow> normalizer \<Rightarrow> gostring \<Rightarrow> gostring \<Rightarrow> gostring \<Rightarrow>
     (problem, finding list) res" where
  "normalize E open_root (Golangci cfg) gate root raw = normalize_golangci (engDecode E) open_root cfg gate root raw"
| "normalize E open_root (Regex n) gate root raw = normalize_regex open_root n gate root raw"

fun normalizer_language :: "normalizer \<Rightarrow> gostring" where
  "normalizer_language (Golangci cfg) = cfgLanguage cfg"
| "normalizer_language (Regex n) = cfgLanguage (rnConfig n)"

end
