(* ===== verification/Gates.thy ===== *)
theory Gates
  imports Normalizers
begin

text \<open>
  \<open>internal/gate\<close>: manifests, bindings, their validation, \<open>Compile\<close> and the validity that only a
  compiled gate has. A Go map is the list of its entries in the order of their keys; nil and empty
  slices and maps are one value except for the blocking severities, where the code tells them apart.
  A pointer is a number that \<open>Compile\<close> takes from a supply. The regular expression engine and the
  template engine of command arguments are parameters; error texts leave out the values they quote.
\<close>

subsection \<open>Manifests and bindings\<close>

type_synonym cost_class = gostring

definition instant :: cost_class where "instant = ''instant''"
definition fast :: cost_class where "fast = ''fast''"
definition slow :: cost_class where "slow = ''slow''"
definition glacial :: cost_class where "glacial = ''glacial''"

definition default_timeout :: "cost_class \<Rightarrow> int" where
  "default_timeout c =
     (if c = instant then 10 * 10 ^ 9
      else if c = fast then 60 * 10 ^ 9
      else if c = slow then 600 * 10 ^ 9
      else if c = glacial then 3600 * 10 ^ 9
      else 0)"

type_synonym gate_scope = gostring

definition diff_scope :: gate_scope where "diff_scope = ''diff''"
definition repo_scope :: gate_scope where "repo_scope = ''repo''"

record manifest =
  mfName :: gostring
  mfDescription :: gostring
  mfCostClass :: cost_class
  mfFixPolicy :: fix_policy
  mfScope :: gate_scope
  mfLocation :: gostring
  mfBlocking :: "severity list option"
  mfTimeout :: int

text \<open>Decoded TOML values; a time is opaque, and a container that is nil is not a TOML value.\<close>

datatype float_value = NotANumber | NegativeZero | Number nat

datatype setting =
    TextValue gostring
  | BoolValue bool
  | IntValue int
  | FloatValue float_value
  | TimeValue gostring
  | TableValue "(gostring \<times> setting) list"
  | ArrayValue "setting list"
  | NilTable
  | NilArray
  | OtherValue

type_synonym settings = "(gostring \<times> setting) list option"

record wire =
  wrLanguage :: gostring
  wrTool :: gostring
  wrCommand :: "gostring list"
  wrSuccessExits :: "int list"
  wrFindingExits :: "int list"
  wrNormalizer :: gostring
  wrRuleID :: gostring
  wrMessage :: gostring
  wrSettings :: settings
  wrSeverityMap :: "(gostring \<times> severity) list"
  wrVersion :: version_block
  wrAliases :: "(gostring \<times> gostring) list"

record snapshot_state =
  snapID :: nat
  snapWire :: wire

record binding = wire +
  bdCompiled :: "normalizer option"
  bdOwner :: "nat option"
  bdSnapshot :: "snapshot_state option"

record gate =
  gtManifest :: manifest
  gtBindings :: "(gostring \<times> binding) list"
  gtOwner :: "nat option"
  gtManifestSnapshot :: manifest
  gtSnapshots :: "(gostring \<times> snapshot_state) list"

record gate_engines =
  geNormalizer :: engines
  geRegex :: "gostring \<Rightarrow> regex option"
  geArgument :: "gostring \<Rightarrow> (settings \<Rightarrow> gostring option) option"

subsection \<open>Copies\<close>

fun clone_setting :: "setting \<Rightarrow> (problem, setting) res"
  and clone_table :: "(gostring \<times> setting) list \<Rightarrow> (problem, (gostring \<times> setting) list) res"
  and clone_array :: "setting list \<Rightarrow> (problem, setting list) res" where
  "clone_setting (FloatValue NotANumber) = Inl (''settings: NaN is not supported'', [])"
| "clone_setting (FloatValue NegativeZero) = Inl (''settings: negative zero is not supported'', [])"
| "clone_setting NilTable = Inl (''settings: null is not a TOML value'', [])"
| "clone_setting NilArray = Inl (''settings: null is not a TOML value'', [])"
| "clone_setting OtherValue = Inl (''settings: unsupported TOML value type'', [])"
| "clone_setting (TableValue es) = (case clone_table es of Inl e \<Rightarrow> Inl e | Inr t \<Rightarrow> Inr (TableValue t))"
| "clone_setting (ArrayValue vs) = (case clone_array vs of Inl e \<Rightarrow> Inl e | Inr a \<Rightarrow> Inr (ArrayValue a))"
| "clone_setting v = Inr v"
| "clone_table [] = Inr []"
| "clone_table ((k, v) # es) =
     (case clone_setting v of
        Inl e \<Rightarrow> Inl e
      | Inr x \<Rightarrow> (case clone_table es of Inl e \<Rightarrow> Inl e | Inr t \<Rightarrow> Inr ((k, x) # t)))"
| "clone_array [] = Inr []"
| "clone_array (v # vs) =
     (case clone_setting v of
        Inl e \<Rightarrow> Inl e
      | Inr x \<Rightarrow> (case clone_array vs of Inl e \<Rightarrow> Inl e | Inr a \<Rightarrow> Inr (x # a)))"

definition clone_settings :: "settings \<Rightarrow> (problem, settings) res" where
  "clone_settings s =
     (case s of
        None \<Rightarrow> Inr None
      | Some es \<Rightarrow> (case clone_table es of Inl e \<Rightarrow> Inl e | Inr t \<Rightarrow> Inr (Some t)))"

definition clone_binding_state :: "'a wire_scheme \<Rightarrow> (problem, wire) res" where
  "clone_binding_state b =
     (case clone_settings (wrSettings b) of
        Inl e \<Rightarrow> Inl e
      | Inr s \<Rightarrow> Inr ((wire.truncate b)\<lparr>wrSettings := s\<rparr>))"

subsection \<open>Validation\<close>

definition validate_component :: "gostring \<Rightarrow> gostring \<Rightarrow> problem option" where
  "validate_component label s =
     fails (s = [] \<or> s = dot \<or> s = dotdot \<or> contains_any s [slash, backslash]) label []"

fun severities_problem :: "severity list \<Rightarrow> severity list \<Rightarrow> problem option" where
  "severities_problem seen [] = None"
| "severities_problem seen (s # ss) =
     (if \<not> valid_severity s then Some (''blocking severity: invalid severity'', [])
      else if s \<in> set seen then Some (''duplicate blocking severity'', [])
      else severities_problem (s # seen) ss)"

definition validate_manifest :: "manifest \<Rightarrow> problem option" where
  "validate_manifest m = checks [
     validate_component ''unsafe gate name'' (mfName m),
     fails (trim_space (mfName m) = []) ''manifest name is required'' [],
     fails (trim_space (mfDescription m) = []) ''manifest description is required'' [],
     fails (default_timeout (mfCostClass m) = 0) ''invalid cost class'' [],
     fails (mfFixPolicy m \<notin> {autofix_only, autofix_then_llm, llm_fix, report_only}) ''invalid fix policy'' [],
     fails (mfScope m \<notin> {diff_scope, repo_scope}) ''invalid scope'' [],
     fails (mfLocation m \<notin> {''point'', ''entity''}) ''invalid location'' [],
     fails (mfBlocking m = None) ''blocking severities are required (an empty list means nothing blocks)'' [],
     severities_problem [] (elems (mfBlocking m)),
     fails (mfTimeout m \<le> 0) ''timeout must be positive'' []]"

fun exit_codes_problem :: "int list \<Rightarrow> int list \<Rightarrow> problem option" where
  "exit_codes_problem seen [] = None"
| "exit_codes_problem seen (c # cs) =
     (if c < 0 then Some (''invalid exit code'', [])
      else if c \<in> set seen then Some (''duplicate exit code'', [])
      else exit_codes_problem (c # seen) cs)"

definition argument_problem :: "gostring \<Rightarrow> nat \<Rightarrow> gostring \<Rightarrow> problem option" where
  "argument_problem label i a = fails (a = []) label [i]"

definition validate_version :: "gate_engines \<Rightarrow> version_block \<Rightarrow> problem option" where
  "validate_version E v =
     (if verCommand v = [] \<or> verPattern v = [] \<or> verConstraint v = []
      then Some (''version command, pattern, and constraint are required'', [])
      else (case first_error (argument_problem ''version command argument is empty'') 0 (verCommand v) of
              Some e \<Rightarrow> Some e
            | None \<Rightarrow>
                (case geRegex E (verPattern v) of
                   None \<Rightarrow> Some (''invalid version pattern'', [])
                 | Some re \<Rightarrow>
                     if reSubexps re < 1 then Some (''version pattern requires a capture group'', [])
                     else (case parse_constraint (verConstraint v) of
                             Inl _ \<Rightarrow> Some (''invalid version constraint'', [])
                           | Inr _ \<Rightarrow> None))))"

definition render_argument :: "gate_engines \<Rightarrow> settings \<Rightarrow> nat \<Rightarrow> gostring \<Rightarrow> (problem, gostring) res" where
  "render_argument E s i a =
     (case geArgument E a of
        None \<Rightarrow> Inl (''command argument: parse template'', [i])
      | Some t \<Rightarrow> (case t s of None \<Rightarrow> Inl (''command argument: render template'', [i]) | Some out \<Rightarrow> Inr out))"

definition render_command :: "gate_engines \<Rightarrow> 'a wire_scheme \<Rightarrow> (problem, gostring list) res" where
  "render_command E b = collect_all (render_argument E (wrSettings b)) 0 (wrCommand b)"

definition severity_entry_problem :: "nat \<Rightarrow> gostring \<times> severity \<Rightarrow> problem option" where
  "severity_entry_problem i e = checks [
     fails (trim_space (fst e) = []) ''severity map source is required'' [],
     fails (\<not> valid_severity (snd e)) ''severity map entry: invalid severity'' []]"

definition alias_problem :: "nat \<Rightarrow> gostring \<times> gostring \<Rightarrow> problem option" where
  "alias_problem i e =
     fails (trim_space (fst e) = [] \<or> trim_space (snd e) = []) ''alias rule ID and principle page are required'' []"

definition validate_binding_value :: "gate_engines \<Rightarrow> 'a wire_scheme \<Rightarrow> problem option" where
  "validate_binding_value E b = checks [
     validate_component ''unsafe binding language'' (wrLanguage b),
     fails (trim_space (wrLanguage b) = []) ''binding language is required'' [],
     fails (trim_space (wrTool b) = []) ''binding tool is required'' [],
     fails (wrCommand b = []) ''binding command is required'' [],
     first_error (argument_problem ''binding command argument is empty'') 0 (wrCommand b),
     (case render_command E b of
        Inl e \<Rightarrow> Some e
      | Inr rendered \<Rightarrow> first_error (argument_problem ''rendered binding command argument is empty'') 0 rendered),
     fails (wrSuccessExits b = []) ''success exit codes cannot be explicitly empty'' [],
     exit_codes_problem [] (wrSuccessExits b),
     exit_codes_problem [] (wrFindingExits b),
     fails (\<exists>c \<in> set (wrFindingExits b). c \<in> set (wrSuccessExits b)) ''exit code cannot be both success and finding'' [],
     fails (wrSeverityMap b = []) ''severity map is required'' [],
     first_error severity_entry_problem 0 (wrSeverityMap b),
     (let v = wrVersion b in
      if verCommand v \<noteq> [] \<or> verPattern v \<noteq> [] \<or> verConstraint v \<noteq> [] then validate_version E v else None),
     first_error alias_problem 0 (wrAliases b)]"

subsection \<open>Compile\<close>

definition binding_config :: "'a wire_scheme \<Rightarrow> config" where
  "binding_config b = \<lparr>cfgLanguage = wrLanguage b, cfgRuleID = wrRuleID b, cfgMessage = wrMessage b,
     cfgSeverityMap = wrSeverityMap b\<rparr>"

fun compile_bindings ::
  "gate_engines \<Rightarrow> nat \<Rightarrow> nat \<Rightarrow> (gostring \<times> 'a wire_scheme) list \<Rightarrow> (problem, (gostring \<times> binding) list) res" where
  "compile_bindings E owner fresh [] = Inr []"
| "compile_bindings E owner fresh ((language, wire_binding) # rest) =
     (if wrLanguage wire_binding \<noteq> language then Inl (''binding declares another language'', [])
      else (case clone_binding_state wire_binding of
              Inl e \<Rightarrow> Inl e
            | Inr b \<Rightarrow>
                (case validate_binding_value E b of
                   Some e \<Rightarrow> Inl e
                 | None \<Rightarrow>
                     (case parse_normalizer (geNormalizer E) (wrNormalizer b) (binding_config b) of
                        Inl e \<Rightarrow> Inl e
                      | Inr parser \<Rightarrow>
                          (case clone_binding_state b of
                             Inl e \<Rightarrow> Inl e
                           | Inr snapshot_wire \<Rightarrow>
                               (case compile_bindings E owner (Suc fresh) rest of
                                  Inl e \<Rightarrow> Inl e
                                | Inr compiled \<Rightarrow>
                                    Inr ((language, wire.extend b (binding.fields (Some parser) (Some owner)
                                            (Some \<lparr>snapID = fresh, snapWire = snapshot_wire\<rparr>))) # compiled)))))))"

definition compile_gate ::
  "gate_engines \<Rightarrow> nat \<Rightarrow> manifest \<Rightarrow> (gostring \<times> 'a wire_scheme) list \<Rightarrow> (problem, gate) res" where
  "compile_gate E fresh m bindings =
     (case validate_manifest m of
        Some e \<Rightarrow> Inl e
      | None \<Rightarrow>
          if bindings = [] then Inl (''at least one language binding is required'', [])
          else (case compile_bindings E fresh (Suc fresh) bindings of
                  Inl e \<Rightarrow> Inl e
                | Inr compiled \<Rightarrow>
                    Inr \<lparr>gtManifest = m, gtBindings = compiled, gtOwner = Some fresh, gtManifestSnapshot = m,
                         gtSnapshots = map (\<lambda>(l, b). (l, the (bdSnapshot b))) compiled\<rparr>))"

subsection \<open>Valid, Owns and Normalize\<close>

definition valid_binding :: "binding \<Rightarrow> bool" where
  "valid_binding b \<longleftrightarrow>
     (case (bdOwner b, bdSnapshot b, bdCompiled b) of
        (Some _, Some s, Some _) \<Rightarrow> clone_binding_state b = Inr (snapWire s)
      | _ \<Rightarrow> False)"

definition valid_entry :: "(gostring \<times> binding) list \<Rightarrow> nat option \<Rightarrow> gostring \<times> snapshot_state \<Rightarrow> bool" where
  "valid_entry bindings owner e \<longleftrightarrow>
     (case map_of bindings (fst e) of
        None \<Rightarrow> False
      | Some b \<Rightarrow> wrLanguage b = fst e \<and> bdOwner b = owner \<and> bdSnapshot b = Some (snd e) \<and> valid_binding b)"

definition valid_gate :: "gate \<Rightarrow> bool" where
  "valid_gate g \<longleftrightarrow> gtOwner g \<noteq> None \<and> gtManifest g = gtManifestSnapshot g
     \<and> length (gtBindings g) = length (gtSnapshots g)
     \<and> list_all (valid_entry (gtBindings g) (gtOwner g)) (gtSnapshots g)"

definition owns :: "gate \<Rightarrow> binding \<Rightarrow> bool" where
  "owns g b \<longleftrightarrow> gtOwner g \<noteq> None \<and> bdOwner b = gtOwner g \<and> bdSnapshot b \<noteq> None
     \<and> map_of (gtSnapshots g) (wrLanguage b) = bdSnapshot b"

definition binding_normalize ::
  "gate_engines \<Rightarrow> (gostring \<Rightarrow> (problem, repository) res) \<Rightarrow> binding \<Rightarrow> gostring \<Rightarrow> gostring \<Rightarrow> gostring \<Rightarrow>
     (problem, finding list) res" where
  "binding_normalize E open_root b gate_name root raw =
     (if \<not> valid_binding b then Inl (''binding is not compiled'', [])
      else normalize (geNormalizer E) open_root (the (bdCompiled b)) gate_name root raw)"

end
