(* ===== verification/GateFacts.thy ===== *)
theory GateFacts
  imports Gates
begin

text \<open>
  What the validity of a gate means: however a client copies, edits and mixes gates and bindings through
  their exported fields, a gate that says it is valid is one whose every binding passed the validation
  and carries the normalizer of its own configuration.
\<close>

subsection \<open>Copies are equal\<close>

lemma clone_settings_equal:
  "clone_setting v = Inr v' \<Longrightarrow> v' = v"
  "clone_table es = Inr es' \<Longrightarrow> es' = es"
  "clone_array vs = Inr vs' \<Longrightarrow> vs' = vs"
  by (induction v and es and vs arbitrary: v' and es' and vs' rule: clone_setting_clone_table_clone_array.induct)
    (auto split: sum.splits)

lemma clone_binding_equal: "clone_binding_state b = Inr w \<Longrightarrow> w = wire.truncate b"
proof -
  assume "clone_binding_state b = Inr w"
  then obtain s where s: "clone_settings (wrSettings b) = Inr s" "w = (wire.truncate b)\<lparr>wrSettings := s\<rparr>"
    by (auto simp: clone_binding_state_def split: sum.splits)
  have "s = wrSettings b"
    using s(1) by (auto simp: clone_settings_def split: option.splits sum.splits dest: clone_settings_equal)
  with s(2) show ?thesis by (simp add: wire.truncate_def)
qed

lemma wire_parts [simp]:
  "wire.truncate (wire.extend w priv) = w" "wire.more (wire.extend w priv) = priv"
  "wrLanguage (wire.truncate b) = wrLanguage b" "wrSettings (wire.truncate b) = wrSettings b"
  "wire.extend (wire.truncate b) (wire.more b) = b"
  by (simp_all add: wire.truncate_def wire.extend_def)

lemma clone_extend [simp]: "clone_binding_state (wire.extend w priv) = clone_binding_state (w :: wire)"
  by (simp add: clone_binding_state_def wire.truncate_def wire.extend_def split: sum.split)

lemma clone_truncate [simp]: "clone_binding_state (wire.truncate b) = clone_binding_state b"
  by (simp add: clone_binding_state_def wire.truncate_def split: sum.split)

subsection \<open>What a compiled binding holds\<close>

definition runs_as_configured :: "gate_engines \<Rightarrow> wire \<Rightarrow> normalizer \<Rightarrow> bool" where
  "runs_as_configured E w parser \<longleftrightarrow> clone_binding_state w = Inr w \<and> validate_binding_value E w = None
     \<and> parse_normalizer (geNormalizer E) (wrNormalizer w) (binding_config w) = Inr parser"

definition minted :: "gate_engines \<Rightarrow> nat \<Rightarrow> gostring \<times> binding \<Rightarrow> bool" where
  "minted E owner e \<longleftrightarrow> wrLanguage (snd e) = fst e
     \<and> (\<exists>parser s. bdCompiled (snd e) = Some parser \<and> bdOwner (snd e) = Some owner \<and> bdSnapshot (snd e) = Some s
          \<and> snapWire s = wire.truncate (snd e) \<and> runs_as_configured E (snapWire s) parser)"

lemma compile_bindings_minted:
  "compile_bindings E owner fresh bs = Inr cs \<Longrightarrow>
     map fst cs = map fst bs \<and> list_all (minted E owner) cs \<and> map (wire.truncate \<circ> snd) cs = map (wire.truncate \<circ> snd) bs"
proof (induction E owner fresh bs arbitrary: cs rule: compile_bindings.induct)
  case (2 E owner fresh language b rest)
  from "2.prems" obtain w parser sw cs' where
    step: "wrLanguage b = language" "clone_binding_state b = Inr w" "validate_binding_value E w = None"
      "parse_normalizer (geNormalizer E) (wrNormalizer w) (binding_config w) = Inr parser"
      "clone_binding_state w = Inr sw" "compile_bindings E owner (Suc fresh) rest = Inr cs'"
      "cs = (language, wire.extend w (binding.fields (Some parser) (Some owner)
               (Some \<lparr>snapID = fresh, snapWire = sw\<rparr>))) # cs'"
    by (auto split: if_split_asm sum.splits option.splits)
  have w: "w = wire.truncate b" "sw = w"
    using clone_binding_equal [OF step(2)] clone_binding_equal [OF step(5)] by (simp_all add: wire.truncate_def)
  have "minted E owner (hd cs)"
    using step w by (simp add: minted_def runs_as_configured_def wire.extend_def binding.fields_def wire.truncate_def)
  moreover have "wire.truncate (snd (hd cs)) = w" unfolding step(7) by simp
  ultimately show ?case using "2.IH" step w by auto
qed simp

lemma compile_gate_Inr:
  assumes "compile_gate E fresh m bs = Inr g"
  shows "validate_manifest m = None \<and> gtManifest g = m \<and> gtManifestSnapshot g = m \<and> gtOwner g = Some fresh
    \<and> map fst (gtBindings g) = map fst bs \<and> bs \<noteq> [] \<and> list_all (minted E fresh) (gtBindings g)
    \<and> gtSnapshots g = map (\<lambda>(l, b). (l, the (bdSnapshot b))) (gtBindings g)"
  using assms by (auto simp: compile_gate_def split: option.splits if_split_asm sum.splits dest: compile_bindings_minted)

subsection \<open>What a client can make\<close>

text \<open>
  A binding is a literal without private fields, comes out of \<open>Compile\<close>, or is another binding with
  other exported fields; a gate likewise, with any bindings in its exported map.
\<close>

inductive obtainable_binding :: "gate_engines \<Rightarrow> binding \<Rightarrow> bool" for E where
  literal_binding: "bdCompiled b = None \<Longrightarrow> bdOwner b = None \<Longrightarrow> bdSnapshot b = None \<Longrightarrow> obtainable_binding E b"
| compiled_binding: "compile_gate E fresh m (bs :: (gostring \<times> wire) list) = Inr g \<Longrightarrow> (l, b) \<in> set (gtBindings g) \<Longrightarrow>
    obtainable_binding E b"
| changed_binding: "obtainable_binding E b \<Longrightarrow> obtainable_binding E (wire.extend w (wire.more b))"

inductive obtainable_gate :: "gate_engines \<Rightarrow> gate \<Rightarrow> bool" for E where
  literal_gate: "gtOwner g = None \<Longrightarrow> distinct (map fst (gtBindings g)) \<Longrightarrow> obtainable_gate E g"
| compiled_gate: "compile_gate E fresh m (bs :: (gostring \<times> wire) list) = Inr g \<Longrightarrow> distinct (map fst bs) \<Longrightarrow>
    obtainable_gate E g"
| changed_gate: "obtainable_gate E g \<Longrightarrow> list_all (\<lambda>(l, b). obtainable_binding E b) bs \<Longrightarrow> distinct (map fst bs) \<Longrightarrow>
    obtainable_gate E (g\<lparr>gtManifest := m, gtBindings := bs\<rparr>)"

lemma private_parts [simp]:
  "bdCompiled (wire.extend w (wire.more b)) = bdCompiled b" "bdOwner (wire.extend w (wire.more b)) = bdOwner b"
  "bdSnapshot (wire.extend w (wire.more b)) = bdSnapshot b"
  by (cases b; simp add: wire.extend_def)+

lemma obtainable_binding_sealed:
  assumes "obtainable_binding E b"
  shows "(bdSnapshot b = None \<and> bdOwner b = None) \<or>
    (\<exists>s parser. bdSnapshot b = Some s \<and> bdCompiled b = Some parser \<and> runs_as_configured E (snapWire s) parser)"
  using assms
proof induction
  case (compiled_binding fresh m bs g l b)
  then have "minted E fresh (l, b)" using compile_gate_Inr [OF compiled_binding(1)] by (auto simp: list_all_iff)
  then show ?case by (auto simp: minted_def)
qed auto

lemma valid_binding_runs:
  assumes "obtainable_binding E b" "valid_binding b"
  shows "\<exists>parser. bdCompiled b = Some parser \<and> runs_as_configured E (wire.truncate b) parser"
proof -
  from assms(2) obtain s where s: "bdSnapshot b = Some s" "bdOwner b \<noteq> None" "clone_binding_state b = Inr (snapWire s)"
    by (auto simp: valid_binding_def split: option.splits)
  have "snapWire s = wire.truncate b" using clone_binding_equal [OF s(3)] .
  with obtainable_binding_sealed [OF assms(1)] s show ?thesis by auto
qed

lemma obtainable_gate_sealed:
  assumes "obtainable_gate E g"
  shows "distinct (map fst (gtBindings g)) \<and> (gtOwner g = None \<or>
    validate_manifest (gtManifestSnapshot g) = None \<and> gtSnapshots g \<noteq> [] \<and> distinct (map fst (gtSnapshots g))
    \<and> list_all (\<lambda>(l, b). gtOwner g = None \<or> obtainable_binding E b) (gtBindings g))"
  using assms
proof induction
  case (compiled_gate fresh m bs g)
  note c = compile_gate_Inr [OF compiled_gate(1)]
  have "map fst (gtSnapshots g) = map fst bs" using c by (simp add: comp_def split_def)
  moreover have "list_all (\<lambda>(l, b). obtainable_binding E b) (gtBindings g)"
    using obtainable_binding.compiled_binding [OF compiled_gate(1)] by (auto simp: list_all_iff)
  ultimately show ?case using c compiled_gate(2) by (auto simp: list_all_iff)
qed (auto simp: list_all_iff)

lemma same_keys:
  assumes "distinct (map fst xs)" "distinct (map fst ys)" "length xs = length ys" "fst ` set xs \<subseteq> fst ` set ys"
  shows "fst ` set xs = fst ` set ys"
proof -
  have "card (fst ` set xs) = length xs" "card (fst ` set ys) = length ys"
    using assms(1,2) distinct_card [of "map fst xs"] distinct_card [of "map fst ys"] by simp_all
  with assms(3,4) show ?thesis by (intro card_subset_eq) simp_all
qed

lemma valid_gate_entry:
  assumes "obtainable_gate E g" "valid_gate g" "(l, b) \<in> set (gtBindings g)"
  shows "wrLanguage b = l \<and> owns g b \<and> valid_binding b \<and> obtainable_binding E b"
proof -
  have owner: "gtOwner g \<noteq> None" and len: "length (gtSnapshots g) = length (gtBindings g)"
    using assms(2) by (simp_all add: valid_gate_def)
  note sealed = obtainable_gate_sealed [OF assms(1)]
  have entry: "\<exists>b. map_of (gtBindings g) l = Some b \<and> wrLanguage b = l \<and> bdOwner b = gtOwner g
      \<and> bdSnapshot b = Some s \<and> valid_binding b" if "(l, s) \<in> set (gtSnapshots g)" for l s
    using assms(2) that by (auto simp: valid_gate_def list_all_iff valid_entry_def split: option.splits)
  have "fst ` set (gtSnapshots g) \<subseteq> fst ` set (gtBindings g)"
    using entry by (force dest: map_of_SomeD)
  then have keys: "fst ` set (gtSnapshots g) = fst ` set (gtBindings g)"
    using sealed owner len by (intro same_keys) auto
  from assms(3) have "l \<in> fst ` set (gtSnapshots g)" unfolding keys by force
  then obtain s where s: "(l, s) \<in> set (gtSnapshots g)" by auto
  from assms(3) sealed have b: "map_of (gtBindings g) l = Some b" by simp
  from entry [OF s] b have facts: "wrLanguage b = l" "bdOwner b = gtOwner g" "bdSnapshot b = Some s" "valid_binding b"
    by auto
  have "map_of (gtSnapshots g) l = Some s" using s sealed owner by simp
  then have "owns g b" using facts owner by (simp add: owns_def)
  moreover have "obtainable_binding E b" using sealed owner assms(3) by (auto simp: list_all_iff)
  ultimately show ?thesis using facts by simp
qed

text \<open>
  C39: Validity cannot be forged: take any gate that a client can make from literals and compiled gates
  by replacing manifests, exported binding fields and binding maps. If it says it is valid, then its
  manifest passes the validation, it has a binding, and every binding is stored under its own language,
  belongs to the gate, passes the validation, and carries exactly the normalizer that its current
  configuration parses to, so what runs is what the exported fields say.
\<close>

theorem valid_gate_is_compiled:
  assumes "obtainable_gate E g" and "valid_gate g"
  shows "validate_manifest (gtManifest g) = None \<and> gtBindings g \<noteq> []
    \<and> (\<forall>(l, b) \<in> set (gtBindings g). wrLanguage b = l \<and> owns g b \<and> valid_binding b
         \<and> validate_binding_value E (wire.truncate b) = None
         \<and> (\<exists>parser. bdCompiled b = Some parser
              \<and> parse_normalizer (geNormalizer E) (wrNormalizer b) (binding_config b) = Inr parser))"
proof -
  have owner: "gtOwner g \<noteq> None" and same: "gtManifest g = gtManifestSnapshot g"
    and len: "length (gtBindings g) = length (gtSnapshots g)"
    using assms(2) by (simp_all add: valid_gate_def)
  have "binding_config (wire.truncate b) = binding_config b" "wrNormalizer (wire.truncate b) = wrNormalizer b" for b :: binding
    by (simp_all add: binding_config_def wire.truncate_def)
  then have "validate_binding_value E (wire.truncate b) = None \<and> (\<exists>parser. bdCompiled b = Some parser
      \<and> parse_normalizer (geNormalizer E) (wrNormalizer b) (binding_config b) = Inr parser)"
    if "(l, b) \<in> set (gtBindings g)" for l b
    using valid_gate_entry [OF assms that] valid_binding_runs [of E b] by (auto simp: runs_as_configured_def)
  with valid_gate_entry [OF assms] obtainable_gate_sealed [OF assms(1)] owner same len show ?thesis by auto
qed

subsection \<open>Compiled gates\<close>

lemma minted_valid: "minted E owner (l, b) \<Longrightarrow> valid_binding (wire.extend w (wire.more b)) \<longleftrightarrow> w = wire.truncate b"
proof -
  assume m: "minted E owner (l, b)"
  then obtain parser s where s: "bdCompiled b = Some parser" "bdOwner b = Some owner" "bdSnapshot b = Some s"
    "snapWire s = wire.truncate b" "clone_binding_state (wire.truncate b) = Inr (wire.truncate b)"
    by (auto simp: minted_def runs_as_configured_def)
  have "valid_binding (wire.extend w (wire.more b)) \<longleftrightarrow> clone_binding_state w = Inr (wire.truncate b)"
    using s by (simp add: valid_binding_def)
  also have "\<dots> \<longleftrightarrow> w = wire.truncate b"
    using s(5) clone_binding_equal [of w "wire.truncate b"] by (auto simp: wire.truncate_def)
  finally show ?thesis .
qed

lemma compiled_entry:
  assumes "compile_gate E fresh m bs = Inr g" "distinct (map fst bs)" "(l, b) \<in> set (gtBindings g)"
  shows "minted E fresh (l, b)" "map_of (gtBindings g) l = Some b" "map_of (gtSnapshots g) l = bdSnapshot b"
    "valid_binding b" "owns g b"
proof -
  note c = compile_gate_Inr [OF assms(1)]
  show m: "minted E fresh (l, b)" using c assms(3) by (auto simp: list_all_iff)
  have "distinct (map fst (gtBindings g))" using c assms(2) by simp
  with assms(3) show at: "map_of (gtBindings g) l = Some b" by simp
  have "map_of (gtSnapshots g) l = map_option (\<lambda>b. the (bdSnapshot b)) (map_of (gtBindings g) l)"
    using c by (simp add: map_of_map)
  with at m show s: "map_of (gtSnapshots g) l = bdSnapshot b" by (auto simp: minted_def)
  show "valid_binding b" using minted_valid [OF m, of "wire.truncate b"] by simp
  show "owns g b" using m s c by (auto simp: owns_def minted_def)
qed

lemma compiled_valid:
  assumes "compile_gate E fresh m bs = Inr g" "distinct (map fst bs)"
  shows "valid_gate (g\<lparr>gtManifest := m'\<rparr>) \<longleftrightarrow> m' = m"
proof -
  note c = compile_gate_Inr [OF assms(1)]
  have "valid_entry (gtBindings g) (gtOwner g) (l, the (bdSnapshot b))" if b: "(l, b) \<in> set (gtBindings g)" for l b
    using compiled_entry [OF assms b] c by (auto simp: valid_entry_def minted_def)
  then have "list_all (valid_entry (gtBindings g) (gtOwner g)) (gtSnapshots g)" using c by (auto simp: list_all_iff)
  then show ?thesis using c by (simp add: valid_gate_def)
qed

text \<open>
  A compiled gate is valid and sealed: what \<open>Compile\<close> returns is valid, owns its bindings and keeps
  the manifest and the languages it was given, and its validity ends with the first difference: a binding
  with any other exported configuration and the gate with any other manifest are not valid.
\<close>

theorem compile_seals:
  assumes "compile_gate E fresh m bs = Inr g" and "distinct (map fst bs)"
  shows "valid_gate g \<and> gtManifest g = m \<and> map fst (gtBindings g) = map fst bs
    \<and> (\<forall>(l, b) \<in> set (gtBindings g). owns g b \<and> (\<forall>w. valid_binding (wire.extend w (wire.more b)) \<longleftrightarrow> w = wire.truncate b))
    \<and> (\<forall>m'. valid_gate (g\<lparr>gtManifest := m'\<rparr>) \<longleftrightarrow> m' = m)"
proof -
  have "g\<lparr>gtManifest := m\<rparr> = g" using compile_gate_Inr [OF assms(1)] by simp
  then have "valid_gate g" using compiled_valid [OF assms, of m] by simp
  moreover have "owns g b \<and> (\<forall>w. valid_binding (wire.extend w (wire.more b)) \<longleftrightarrow> w = wire.truncate b)"
    if "(l, b) \<in> set (gtBindings g)" for l b
    using compiled_entry [OF assms that] minted_valid by blast
  ultimately show ?thesis using compile_gate_Inr [OF assms(1)] compiled_valid [OF assms] by blast
qed

subsection \<open>A gate\<close>

definition sample_manifest :: manifest where
  "sample_manifest = \<lparr>mfName = ''vet'', mfDescription = ''vet'', mfCostClass = fast, mfFixPolicy = report_only,
     mfScope = repo_scope, mfLocation = ''point'', mfBlocking = Some [sev_error], mfTimeout = 60\<rparr>"

definition sample_wire :: wire where
  "sample_wire = \<lparr>wrLanguage = ''go'', wrTool = ''lint'', wrCommand = [''lint''], wrSuccessExits = [0],
     wrFindingExits = [1], wrNormalizer = ''golangci-json'', wrRuleID = [], wrMessage = [], wrSettings = None,
     wrSeverityMap = [(''default'', sev_error)],
     wrVersion = \<lparr>verCommand = [], verPattern = [], verConstraint = []\<rparr>, wrAliases = []\<rparr>"

definition sample_engines :: gate_engines where
  "sample_engines = \<lparr>geNormalizer = \<lparr>engCompile = (\<lambda>_. None), engTemplate = (\<lambda>_. None), engDecode = (\<lambda>_. JsonInvalid)\<rparr>,
     geRegex = (\<lambda>_. None), geArgument = (\<lambda>a. Some (\<lambda>s. Some a))\<rparr>"

lemma sample_compiles: "\<exists>g. compile_gate sample_engines 0 sample_manifest [(''go'', sample_wire)] = Inr g"
proof -
  have trims: "trim_space ''vet'' = ''vet''" "trim_space ''go'' = ''go''" "trim_space ''lint'' = ''lint''"
    "trim_space ''default'' = ''default''"
    by (rule trim_space_plain; simp add: plain_ends_def is_space_def byte_def)+
  have manifest: "validate_manifest sample_manifest = None"
    by (simp add: validate_manifest_def sample_manifest_def validate_component_def trims dot_def dotdot_def contains_any_def
        slash_def backslash_def default_timeout_def fast_def instant_def valid_severity_def diff_scope_def repo_scope_def)
  have entry: "severity_entry_problem 0 (''default'', sev_error) = None"
    by (simp add: severity_entry_problem_def trims valid_severity_def)
  have wire: "validate_binding_value sample_engines sample_wire = None"
    by (simp add: validate_binding_value_def sample_wire_def sample_engines_def validate_component_def trims dot_def
        dotdot_def contains_any_def slash_def backslash_def render_command_def render_argument_def argument_problem_def
        entry fails_def)
  have clone: "clone_binding_state sample_wire = Inr sample_wire"
    by (simp add: clone_binding_state_def clone_settings_def sample_wire_def wire.truncate_def)
  have parser: "parse_normalizer (geNormalizer sample_engines) (wrNormalizer sample_wire) (binding_config sample_wire)
      = Inr (Golangci (binding_config sample_wire))"
    by (simp add: parse_normalizer_def sample_wire_def has_prefix_def)
  have "wrLanguage sample_wire = ''go''" by (simp add: sample_wire_def)
  then show ?thesis by (simp add: compile_gate_def manifest clone wire parser)
qed

theorem compile_seals_witness:
  "\<exists>g. compile_gate sample_engines 0 sample_manifest [(''go'', sample_wire)] = Inr g \<and> valid_gate g
     \<and> \<not> valid_gate (g\<lparr>gtManifest := sample_manifest\<lparr>mfTimeout := 61\<rparr>\<rparr>)"
proof -
  obtain g where g: "compile_gate sample_engines 0 sample_manifest [(''go'', sample_wire)] = Inr g"
    using sample_compiles by blast
  have "sample_manifest\<lparr>mfTimeout := 61\<rparr> \<noteq> sample_manifest" by (simp add: sample_manifest_def)
  with compile_seals [OF g] g show ?thesis by auto
qed

theorem valid_gate_is_compiled_witness:
  "\<exists>g. obtainable_gate sample_engines g \<and> valid_gate g \<and> validate_manifest (gtManifest g) = None"
proof -
  obtain g where g: "compile_gate sample_engines 0 sample_manifest [(''go'', sample_wire)] = Inr g"
    using sample_compiles by blast
  have "g\<lparr>gtManifest := sample_manifest\<rparr> = g" using compile_gate_Inr [OF g] by simp
  then have "valid_gate g" using compiled_valid [OF g, of sample_manifest] by simp
  moreover have "obtainable_gate sample_engines g" by (rule obtainable_gate.compiled_gate [OF g]) simp
  ultimately show ?thesis using valid_gate_is_compiled by blast
qed

end
