(* ===== verification/Loader.thy ===== *)
theory Loader
  imports GateFacts
begin

text \<open>
  \<open>internal/gate/load.go\<close>: how decoded files become manifests, bindings and gates, and how shipped
  gates and overrides combine. The file systems with the strict TOML decoder and the parser of
  durations are parameters.
\<close>

subsection \<open>Decoded files\<close>

record manifest_wire =
  mwName :: gostring
  mwDescription :: gostring
  mwCostClass :: gostring
  mwFixPolicy :: gostring
  mwScope :: gostring
  mwLocation :: "gostring option"
  mwBlocking :: "gostring list option"
  mwTimeout :: "gostring option"

record binding_wire =
  bwLanguage :: gostring
  bwTool :: gostring
  bwCommand :: "gostring list"
  bwSuccessExits :: "int list option"
  bwFindingExits :: "int list option"
  bwNormalizer :: gostring
  bwRuleID :: gostring
  bwMessage :: gostring
  bwSettings :: settings
  bwSeverityMap :: "(gostring \<times> gostring) list"
  bwVersion :: "version_block option"
  bwAliases :: "(gostring \<times> gostring) list"

definition to_manifest ::
  "(gostring \<Rightarrow> int option) \<Rightarrow> gostring \<Rightarrow> manifest_wire \<Rightarrow> (problem, manifest) res" where
  "to_manifest parse_duration requested w =
     (if trim_space (mwName w) \<noteq> [] \<and> mwName w \<noteq> requested
      then Inl (''manifest name does not match directory'', [])
      else (let cost = mwCostClass w;
                make = (\<lambda>timeout.
                  let m = \<lparr>mfName = mwName w, mfDescription = mwDescription w, mfCostClass = cost,
                           mfFixPolicy = mwFixPolicy w, mfScope = mwScope w,
                           mfLocation = (case mwLocation w of None \<Rightarrow> ''point'' | Some l \<Rightarrow> l),
                           mfBlocking = Some (case mwBlocking w of None \<Rightarrow> [sev_error, sev_warning] | Some ss \<Rightarrow> ss),
                           mfTimeout = timeout\<rparr>
                  in case validate_manifest m of Some e \<Rightarrow> Inl e | None \<Rightarrow> Inr m)
            in case mwTimeout w of
                 None \<Rightarrow> make (default_timeout cost)
               | Some text \<Rightarrow> (case parse_duration text of
                                 None \<Rightarrow> Inl (''invalid timeout'', [])
                               | Some timeout \<Rightarrow> make timeout)))"

definition no_version :: version_block where
  "no_version = \<lparr>verCommand = [], verPattern = [], verConstraint = []\<rparr>"

definition to_binding :: "gate_engines \<Rightarrow> gostring \<Rightarrow> binding_wire \<Rightarrow> (problem, wire) res" where
  "to_binding E directory w =
     (if trim_space (bwLanguage w) \<noteq> [] \<and> bwLanguage w \<noteq> directory
      then Inl (''binding language does not match directory'', [])
      else (case (case bwVersion w of None \<Rightarrow> None | Some v \<Rightarrow> validate_version E v) of
              Some e \<Rightarrow> Inl e
            | None \<Rightarrow>
                (let b = \<lparr>wrLanguage = bwLanguage w, wrTool = bwTool w, wrCommand = bwCommand w,
                          wrSuccessExits = (case bwSuccessExits w of None \<Rightarrow> [0] | Some cs \<Rightarrow> cs),
                          wrFindingExits = (case bwFindingExits w of None \<Rightarrow> [] | Some cs \<Rightarrow> cs),
                          wrNormalizer = bwNormalizer w, wrRuleID = bwRuleID w, wrMessage = bwMessage w,
                          wrSettings = bwSettings w, wrSeverityMap = bwSeverityMap w,
                          wrVersion = (case bwVersion w of None \<Rightarrow> no_version | Some v \<Rightarrow> v),
                          wrAliases = bwAliases w\<rparr>
                 in case validate_binding_value E b of Some e \<Rightarrow> Inl e | None \<Rightarrow> Inr b)))"

text \<open>
  A gate directory: its decoded \<open>gate.toml\<close> and its entries in name order, each with its decoded
  \<open>binding.toml\<close> if it is a directory.
\<close>

record gate_directory =
  gdManifest :: "(problem, manifest_wire) res"
  gdEntries :: "(problem, (gostring \<times> (problem, binding_wire) res option) list) res"

fun load_bindings ::
  "gate_engines \<Rightarrow> (gostring \<times> (problem, binding_wire) res option) list \<Rightarrow> (problem, (gostring \<times> wire) list) res" where
  "load_bindings E [] = Inr []"
| "load_bindings E ((language, None) # rest) = load_bindings E rest"
| "load_bindings E ((language, Some decoded) # rest) =
     (case validate_component ''unsafe binding directory'' language of
        Some e \<Rightarrow> Inl e
      | None \<Rightarrow>
          (case decoded of
             Inl e \<Rightarrow> Inl e
           | Inr w \<Rightarrow>
               (case to_binding E language w of
                  Inl e \<Rightarrow> Inl e
                | Inr b \<Rightarrow>
                    (case load_bindings E rest of Inl e \<Rightarrow> Inl e | Inr bs \<Rightarrow> Inr ((language, b) # bs)))))"

definition load_gate ::
  "gate_engines \<Rightarrow> (gostring \<Rightarrow> int option) \<Rightarrow> nat \<Rightarrow> gate_directory \<Rightarrow> gostring \<Rightarrow> (problem, gate) res" where
  "load_gate E parse_duration fresh d requested =
     (case gdManifest d of
        Inl e \<Rightarrow> Inl e
      | Inr mw \<Rightarrow>
          (case to_manifest parse_duration requested mw of
             Inl e \<Rightarrow> Inl e
           | Inr m \<Rightarrow>
               (case gdEntries d of
                  Inl e \<Rightarrow> Inl e
                | Inr entries \<Rightarrow>
                    (case load_bindings E entries of
                       Inl e \<Rightarrow> Inl e
                     | Inr bs \<Rightarrow> compile_gate E fresh m bs))))"

subsection \<open>Shipped gates and overrides\<close>

datatype file_kind = Missing | Uninspectable | SymbolicLink | Directory | OtherFile

record gate_store =
  stShipped :: "gostring \<Rightarrow> (problem, gate_directory option) res"
  stShippedEntries :: "(problem, (gostring \<times> file_kind) list) res"
  stOverrideDir :: gostring
  stOverrideRoot :: file_kind
  stOverrideKind :: "gostring \<Rightarrow> file_kind"
  stOverrideWalk :: "gostring \<Rightarrow> file_kind list"
  stOverride :: "gostring \<Rightarrow> gate_directory"
  stOverrideEntries :: "(problem, (gostring \<times> file_kind) list) res"

definition validate_override_root :: "file_kind \<Rightarrow> (problem, bool) res" where
  "validate_override_root k =
     (case k of
        Missing \<Rightarrow> Inr False
      | Uninspectable \<Rightarrow> Inl (''inspect gate override directory'', [])
      | SymbolicLink \<Rightarrow> Inl (''gate override directory is a symlink'', [])
      | Directory \<Rightarrow> Inr True
      | OtherFile \<Rightarrow> Inl (''gate override path is not a directory'', []))"

definition walked_problem :: "nat \<Rightarrow> file_kind \<Rightarrow> problem option" where
  "walked_problem i k =
     (if k = Uninspectable \<or> k = Missing then Some (''inspect gate override entry'', [])
      else if k = SymbolicLink then Some (''gate override entry is a symlink'', [])
      else None)"

definition reject_symlinks :: "file_kind list \<Rightarrow> problem option" where
  "reject_symlinks ks = first_error walked_problem 0 ks"

definition load_shipped ::
  "gate_engines \<Rightarrow> (gostring \<Rightarrow> int option) \<Rightarrow> nat \<Rightarrow> gate_store \<Rightarrow> gostring \<Rightarrow> (problem, gate) res" where
  "load_shipped E parse_duration fresh S name =
     (case stShipped S name of
        Inl _ \<Rightarrow> Inl (''inspect shipped gate'', [])
      | Inr None \<Rightarrow> Inl (''gate does not exist'', [])
      | Inr (Some d) \<Rightarrow> load_gate E parse_duration fresh d name)"

definition load ::
  "gate_engines \<Rightarrow> (gostring \<Rightarrow> int option) \<Rightarrow> nat \<Rightarrow> gate_store \<Rightarrow> gostring \<Rightarrow> (problem, gate) res" where
  "load E parse_duration fresh S name =
     (case validate_component ''unsafe gate name'' name of
        Some e \<Rightarrow> Inl e
      | None \<Rightarrow>
          if stOverrideDir S = [] then load_shipped E parse_duration fresh S name
          else (case validate_override_root (stOverrideRoot S) of
                  Inl e \<Rightarrow> Inl e
                | Inr False \<Rightarrow> load_shipped E parse_duration fresh S name
                | Inr True \<Rightarrow>
                    (case stOverrideKind S name of
                       SymbolicLink \<Rightarrow> Inl (''gate override is a symlink'', [])
                     | OtherFile \<Rightarrow> Inl (''gate override is not a directory'', [])
                     | Directory \<Rightarrow>
                         (case reject_symlinks (stOverrideWalk S name) of
                            Some e \<Rightarrow> Inl e
                          | None \<Rightarrow> load_gate E parse_duration fresh (stOverride S name) name)
                     | Uninspectable \<Rightarrow> Inl (''inspect gate override'', [])
                     | Missing \<Rightarrow> load_shipped E parse_duration fresh S name)))"

definition load_names ::
  "gate_engines \<Rightarrow> (gostring \<Rightarrow> int option) \<Rightarrow> (nat \<Rightarrow> nat) \<Rightarrow> gate_store \<Rightarrow> gostring list \<Rightarrow> (problem, gate list) res" where
  "load_names E parse_duration supply S names =
     collect_all (\<lambda>i. load E parse_duration (supply i) S) 0 (sort (nub_by id [] names))"

fun override_names :: "(gostring \<times> file_kind) list \<Rightarrow> (problem, gostring list) res" where
  "override_names [] = Inr []"
| "override_names ((name, kind) # rest) =
     (if kind = SymbolicLink then Inl (''gate override entry is a symlink'', [])
      else if kind = Directory
      then (case validate_component ''unsafe override gate name'' name of
              Some e \<Rightarrow> Inl e
            | None \<Rightarrow> (case override_names rest of Inl e \<Rightarrow> Inl e | Inr names \<Rightarrow> Inr (name # names)))
      else override_names rest)"

definition load_all ::
  "gate_engines \<Rightarrow> (gostring \<Rightarrow> int option) \<Rightarrow> (nat \<Rightarrow> nat) \<Rightarrow> gate_store \<Rightarrow> (problem, gate list) res" where
  "load_all E parse_duration supply S =
     (case stShippedEntries S of
        Inl _ \<Rightarrow> Inl (''read shipped gates'', [])
      | Inr entries \<Rightarrow>
          (let names = map fst (filter (\<lambda>e. snd e = Directory) entries) in
           if stOverrideDir S = [] then load_names E parse_duration supply S names
           else (case validate_override_root (stOverrideRoot S) of
                   Inl e \<Rightarrow> Inl e
                 | Inr False \<Rightarrow> load_names E parse_duration supply S names
                 | Inr True \<Rightarrow>
                     (case stOverrideEntries S of
                        Inl _ \<Rightarrow> Inl (''read gate override directory'', [])
                      | Inr entries \<Rightarrow>
                          (case override_names entries of
                             Inl e \<Rightarrow> Inl e
                           | Inr more_names \<Rightarrow> load_names E parse_duration supply S (names @ more_names))))))"

subsection \<open>What loading returns\<close>

lemma collect_all_Inr:
  "collect_all f i xs = Inr ys \<longleftrightarrow> length ys = length xs \<and> (\<forall>k < length xs. f (i + k) (xs ! k) = Inr (ys ! k))"
proof (induction xs arbitrary: i ys)
  case (Cons x xs)
  show ?case
  proof (cases ys)
    case (Cons y zs)
    have "collect_all f i (x # xs) = Inr (y # zs) \<longleftrightarrow> f i x = Inr y \<and> collect_all f (Suc i) xs = Inr zs"
      by (auto split: sum.splits)
    then show ?thesis unfolding Cons Cons.IH
      by (auto simp: nth_Cons less_Suc_eq_0_disj split: nat.splits)
  qed (auto split: sum.splits)
qed auto

lemma to_manifest_named:
  "to_manifest parse_duration requested w = Inr m \<Longrightarrow> mfName m = requested \<and> validate_manifest m = None"
proof -
  assume ok: "to_manifest parse_duration requested w = Inr m"
  then have name: "mfName m = mwName w" "validate_manifest m = None"
    by (auto simp: to_manifest_def Let_def split: if_split_asm option.split_asm)
  then have "trim_space (mwName w) \<noteq> []" by (auto simp: validate_manifest_def)
  with ok name show ?thesis by (auto simp: to_manifest_def split: if_split_asm)
qed

lemma load_bindings_keys:
  "load_bindings E entries = Inr bs \<Longrightarrow>
     set (map fst bs) \<subseteq> set (map fst entries) \<and> (distinct (map fst entries) \<longrightarrow> distinct (map fst bs))"
proof (induction E entries arbitrary: bs rule: load_bindings.induct)
  case (3 E language decoded rest)
  then obtain b bs' where "bs = (language, b) # bs'" "load_bindings E rest = Inr bs'"
    "validate_component ''unsafe binding directory'' language = None"
    by (auto split: option.split_asm sum.split_asm)
  moreover from this 3 have "set (map fst bs') \<subseteq> set (map fst rest) \<and> (distinct (map fst rest) \<longrightarrow> distinct (map fst bs'))"
    by (auto split: option.split_asm sum.split_asm)
  ultimately show ?case by auto
qed auto

text \<open>Directories list a name once.\<close>

definition honest_directory :: "gate_directory \<Rightarrow> bool" where
  "honest_directory d \<longleftrightarrow> (\<forall>entries. gdEntries d = Inr entries \<longrightarrow> distinct (map fst entries))"

definition honest_store :: "gate_store \<Rightarrow> bool" where
  "honest_store S \<longleftrightarrow> (\<forall>name. honest_directory (stOverride S name)
     \<and> (\<forall>d. stShipped S name = Inr (Some d) \<longrightarrow> honest_directory d))"

lemma load_gate_compiled:
  assumes "load_gate E parse_duration fresh d name = Inr g" "honest_directory d"
  shows "mfName (gtManifest g) = name \<and> valid_gate g \<and> obtainable_gate E g"
proof -
  from assms(1) obtain mw m entries bs where "gdManifest d = Inr mw" "to_manifest parse_duration name mw = Inr m"
    "gdEntries d = Inr entries" "load_bindings E entries = Inr bs" and g: "compile_gate E fresh m bs = Inr g"
    by (auto simp: load_gate_def split: sum.split_asm)
  moreover from this assms(2) have keys: "distinct (map fst bs)"
    using load_bindings_keys by (auto simp: honest_directory_def)
  moreover have "g\<lparr>gtManifest := m\<rparr> = g" using compile_gate_Inr [OF g] by simp
  ultimately show ?thesis
    using compile_gate_Inr [OF g] compiled_valid [OF g keys, of m] to_manifest_named
      obtainable_gate.compiled_gate [OF g keys] by auto
qed

lemma load_compiled:
  assumes "load E parse_duration fresh S name = Inr g" "honest_store S"
  shows "mfName (gtManifest g) = name \<and> valid_gate g \<and> obtainable_gate E g"
proof -
  from assms(1) obtain d where "load_gate E parse_duration fresh d name = Inr g"
    "d = stOverride S name \<or> stShipped S name = Inr (Some d)"
    by (auto simp: load_def load_shipped_def split: option.split_asm if_split_asm sum.split_asm bool.split_asm
        file_kind.split_asm)
  moreover from this assms(2) have "honest_directory d" by (auto simp: honest_store_def)
  ultimately show ?thesis using load_gate_compiled by blast
qed

lemma load_all_compiled:
  assumes "load_all E parse_duration supply S = Inr gates" "honest_store S"
  shows "sorted_wrt (<) (map (\<lambda>g. mfName (gtManifest g)) gates)
    \<and> list_all (\<lambda>g. valid_gate g \<and> obtainable_gate E g) gates"
proof -
  from assms(1) obtain names where "load_names E parse_duration supply S names = Inr gates"
    by (auto simp: load_all_def Let_def split: sum.split_asm if_split_asm bool.split_asm)
  then obtain ordered where ordered: "ordered = sort (nub_by id [] names)" "length gates = length ordered"
    "\<forall>k < length ordered. load E parse_duration (supply k) S (ordered ! k) = Inr (gates ! k)"
    by (auto simp: load_names_def collect_all_Inr)
  then have entry: "mfName (gtManifest (gates ! k)) = ordered ! k \<and> valid_gate (gates ! k) \<and> obtainable_gate E (gates ! k)"
    if "k < length gates" for k
    using load_compiled assms(2) that by auto
  have "map (\<lambda>g. mfName (gtManifest g)) gates = ordered"
    using entry ordered(2) by (simp add: list_eq_iff_nth_eq)
  moreover have "sorted ordered \<and> distinct ordered"
    using ordered(1) nub_by_distinct [of id "[]" names] by simp
  ultimately show ?thesis using entry by (auto simp: strict_sorted_iff list_all_length)
qed

end
