(* ===== verification/Enrichers.thy ===== *)
theory Enrichers
  imports Grouping
begin

text \<open>
  \<open>internal/enricher\<close>: the Go enricher, which gives an entity finding the last line of the narrowest
  declaration around it, the enricher that does nothing, and the contract of the interface both meet.
  The file system with the Go parser and the cancellation of the context are parameters; every call of
  either may change the state of the world, so a context may be cancelled between any two steps.
\<close>

subsection \<open>Context and outcome\<close>

datatype context_error = DeadlineExceeded | Canceled

type_synonym location = gostring

definition point_location :: location where "point_location = ''point''"
definition entity_location :: location where "entity_location = ''entity''"

datatype enrich_error =
    UnsupportedLocation location
  | EnrichCancelled context_error
  | RootNotAbsolute
  | RootNotOpened
  | FindingFile path_error
  | SourceUnreadable gostring
  | SourceUnparsed gostring

text \<open>
  A parsed file is its nodes in the order of inspection: the first and last line of a declaration,
  \<open>None\<close> for every other node.
\<close>

datatype parse_outcome = NotReadable | NotParsed | ParsedFile "(int \<times> int) option list"

record 'w files =
  pollContext :: "'w \<Rightarrow> context_error option \<times> 'w"
  openRoot :: "gostring \<Rightarrow> 'w \<Rightarrow> bool \<times> 'w"
  parseFile :: "gostring \<Rightarrow> gostring \<Rightarrow> 'w \<Rightarrow> parse_outcome \<times> 'w"

type_synonym ('w, 'a) enriching = "'w \<Rightarrow> (enrich_error, 'a) res \<times> 'w"

definition check_context :: "'w files \<Rightarrow> 'w \<Rightarrow> (enrich_error, unit) res \<times> 'w" where
  "check_context W w =
     (case pollContext W w of (Some e, w) \<Rightarrow> (Inl (EnrichCancelled e), w) | (None, w) \<Rightarrow> (Inr (), w))"

definition enrich_then :: "('w, 'a) enriching \<Rightarrow> ('a \<Rightarrow> ('w, 'b) enriching) \<Rightarrow> ('w, 'b) enriching" where
  "enrich_then m f = (\<lambda>w. case m w of (Inl e, w) \<Rightarrow> (Inl e, w) | (Inr x, w) \<Rightarrow> f x w)"

definition give :: "'a \<Rightarrow> ('w, 'a) enriching" where
  "give x = (\<lambda>w. (Inr x, w))"

lemma enrich_then_Inr:
  "enrich_then m f w = (Inr y, w') \<longleftrightarrow> (\<exists>x v. m w = (Inr x, v) \<and> f x v = (Inr y, w'))"
  by (auto simp: enrich_then_def split: prod.splits sum.splits)

lemma give_Inr [simp]: "give x w = (Inr y, w') \<longleftrightarrow> y = x \<and> w' = w"
  by (auto simp: give_def)

subsection \<open>Declarations\<close>

definition less_interval :: "int \<times> int \<Rightarrow> int \<times> int \<Rightarrow> bool" where
  "less_interval l r =
     (if snd l - fst l \<noteq> snd r - fst r then snd l - fst l < snd r - fst r
      else if fst l \<noteq> fst r then fst l < fst r
      else snd l < snd r)"

fun inspect :: "'w files \<Rightarrow> (int \<times> int) option list \<Rightarrow> ('w, (int \<times> int) list) enriching" where
  "inspect W [] = give []"
| "inspect W (node # nodes) =
     enrich_then (check_context W) (\<lambda>_. enrich_then (inspect W nodes) (\<lambda>rest.
       give (case node of None \<Rightarrow> rest | Some declaration \<Rightarrow> declaration # rest)))"

definition collect_declaration_intervals :: "'w files \<Rightarrow> (int \<times> int) option list \<Rightarrow> ('w, (int \<times> int) list) enriching" where
  "collect_declaration_intervals W nodes =
     enrich_then (inspect W nodes) (\<lambda>intervals.
     enrich_then (check_context W) (\<lambda>_. give (sort_by less_interval intervals)))"

fun enclosing_declaration_end_line :: "'w files \<Rightarrow> (int \<times> int) list \<Rightarrow> int \<Rightarrow> ('w, int) enriching" where
  "enclosing_declaration_end_line W [] line = enrich_then (check_context W) (\<lambda>_. give 0)"
| "enclosing_declaration_end_line W (d # ds) line =
     enrich_then (check_context W) (\<lambda>_.
       if fst d \<le> line \<and> line \<le> snd d then give (snd d) else enclosing_declaration_end_line W ds line)"

definition parse_go_file :: "'w files \<Rightarrow> gostring \<Rightarrow> gostring \<Rightarrow> ('w, (int \<times> int) list) enriching" where
  "parse_go_file W root path =
     enrich_then (check_context W) (\<lambda>_ w.
       case parseFile W root path w of
         (NotReadable, w) \<Rightarrow> (Inl (SourceUnreadable path), w)
       | (NotParsed, w) \<Rightarrow> enrich_then (check_context W) (\<lambda>_ w. (Inl (SourceUnparsed path), w)) w
       | (ParsedFile nodes, w) \<Rightarrow>
           enrich_then (check_context W) (\<lambda>_. enrich_then (check_context W) (\<lambda>_. collect_declaration_intervals W nodes)) w)"

subsection \<open>The Go enricher\<close>

definition all_occurrences_bounded :: "occurrence list \<Rightarrow> bool" where
  "all_occurrences_bounded ocs \<longleftrightarrow> list_all (\<lambda>oc. OccEndLine oc \<noteq> 0) ocs"

definition bounded_end :: "'w files \<Rightarrow> (int \<times> int) list \<Rightarrow> int \<Rightarrow> int \<Rightarrow> ('w, int) enriching" where
  "bounded_end W declarations line end_line =
     (if end_line = 0
      then enrich_then (enclosing_declaration_end_line W declarations line) (\<lambda>e.
           enrich_then (check_context W) (\<lambda>_. give e))
      else give end_line)"

fun enrich_occurrences :: "'w files \<Rightarrow> (int \<times> int) list \<Rightarrow> occurrence list \<Rightarrow> ('w, occurrence list) enriching" where
  "enrich_occurrences W declarations [] = give []"
| "enrich_occurrences W declarations (oc # ocs) =
     enrich_then (bounded_end W declarations (OccLine oc) (OccEndLine oc)) (\<lambda>e.
     enrich_then (enrich_occurrences W declarations ocs) (\<lambda>rest. give (oc\<lparr>OccEndLine := e\<rparr> # rest)))"

text \<open>\<open>files\<close>: each file is parsed once.\<close>

type_synonym parsed_files = "(gostring \<times> (int \<times> int) list) list"

definition declarations_of ::
  "'w files \<Rightarrow> gostring \<Rightarrow> gostring \<Rightarrow> parsed_files \<Rightarrow> ('w, (int \<times> int) list \<times> parsed_files) enriching" where
  "declarations_of W root path files =
     (case map_of files path of
        Some ds \<Rightarrow> give (ds, files)
      | None \<Rightarrow> enrich_then (parse_go_file W root path) (\<lambda>ds. give (ds, (path, ds) # files)))"

definition enrich_finding ::
  "'w files \<Rightarrow> gostring \<Rightarrow> finding \<Rightarrow> parsed_files \<Rightarrow> ('w, finding \<times> parsed_files) enriching" where
  "enrich_finding W root f files =
     enrich_then (check_context W) (\<lambda>_.
       if EndLine f \<noteq> 0 \<and> all_occurrences_bounded (Occurrences f) then give (f, files)
       else (case parse_path (File f) of
               Inl e \<Rightarrow> (\<lambda>w. (Inl (FindingFile e), w))
             | Inr path \<Rightarrow>
                 enrich_then (declarations_of W root path files) (\<lambda>(ds, files).
                 enrich_then (bounded_end W ds (Line f) (EndLine f)) (\<lambda>e.
                 enrich_then (enrich_occurrences W ds (Occurrences f)) (\<lambda>ocs.
                 give (f\<lparr>EndLine := e, Occurrences := ocs\<rparr>, files))))))"

fun enrich_findings ::
  "'w files \<Rightarrow> gostring \<Rightarrow> finding list \<Rightarrow> parsed_files \<Rightarrow> ('w, finding list) enriching" where
  "enrich_findings W root [] files = give []"
| "enrich_findings W root (f # fs) files =
     enrich_then (enrich_finding W root f files) (\<lambda>(g, files).
     enrich_then (enrich_findings W root fs files) (\<lambda>gs. give (g # gs)))"

definition go_enrich :: "'w files \<Rightarrow> gostring \<Rightarrow> location \<Rightarrow> finding list \<Rightarrow> ('w, finding list) enriching" where
  "go_enrich W root loc fs =
     (if fs = [] then give fs
      else if loc = point_location then give fs
      else if loc \<noteq> entity_location then (\<lambda>w. (Inl (UnsupportedLocation loc), w))
      else enrich_then (check_context W) (\<lambda>_.
        if \<not> is_abs root then (\<lambda>w. (Inl RootNotAbsolute, w))
        else (\<lambda>w. case openRoot W root w of
                    (False, w) \<Rightarrow> (Inl RootNotOpened, w)
                  | (True, w) \<Rightarrow> enrich_findings W root fs [] w)))"

definition noop_enrich :: "'w files \<Rightarrow> gostring \<Rightarrow> location \<Rightarrow> finding list \<Rightarrow> ('w, finding list) enriching" where
  "noop_enrich W root loc fs = give fs"

subsection \<open>The contract of an enricher\<close>

text \<open>An enricher may only fill in end lines, and only where there are none.\<close>

definition fills_end :: "int \<Rightarrow> int \<Rightarrow> bool" where
  "fills_end e e' \<longleftrightarrow> e' = e \<or> e = 0"

definition enriches_occurrence :: "occurrence \<Rightarrow> occurrence \<Rightarrow> bool" where
  "enriches_occurrence oc oc' \<longleftrightarrow>
     oc' = oc\<lparr>OccEndLine := OccEndLine oc'\<rparr> \<and> fills_end (OccEndLine oc) (OccEndLine oc')"

definition enriches :: "finding \<Rightarrow> finding \<Rightarrow> bool" where
  "enriches f g \<longleftrightarrow> g = f\<lparr>EndLine := EndLine g, Occurrences := Occurrences g\<rparr>
     \<and> fills_end (EndLine f) (EndLine g) \<and> list_all2 enriches_occurrence (Occurrences f) (Occurrences g)"

lemma enriches_refl [simp]: "enriches f f"
  by (simp add: enriches_def enriches_occurrence_def fills_end_def list_all2_refl)

lemma enriches_fields:
  assumes "enriches f g"
  shows "Gate g = Gate f \<and> Language g = Language f \<and> fingerprint g = fingerprint f"
proof -
  from assms obtain e ocs where "g = f\<lparr>EndLine := e, Occurrences := ocs\<rparr>" by (auto simp: enriches_def)
  then show ?thesis by (simp add: fingerprint_def identity_fields_def)
qed

locale enricher_contract =
  fixes enrich :: "'w files \<Rightarrow> gostring \<Rightarrow> location \<Rightarrow> finding list \<Rightarrow> ('w, finding list) enriching"
  assumes only_end_lines: "enrich W root loc fs w = (Inr gs, w') \<Longrightarrow> list_all2 enriches fs gs"
begin

lemma enriched_owner:
  assumes "enrich W root loc fs w = (Inr gs, w')" "g \<in> set gs"
  shows "\<exists>f \<in> set fs. Gate g = Gate f \<and> Language g = Language f"
proof -
  from assms(2) obtain i where i: "i < length gs" "g = gs ! i" by (auto simp: in_set_conv_nth)
  with only_end_lines [OF assms(1)] have "i < length fs" "enriches (fs ! i) g"
    by (simp_all add: list_all2_conv_all_nth)
  then show ?thesis using enriches_fields nth_mem by blast
qed

lemma enriched_fingerprints:
  "enrich W root loc fs w = (Inr gs, w') \<Longrightarrow> map fingerprint gs = map fingerprint fs"
  using only_end_lines by (fastforce simp: list_all2_conv_all_nth list_eq_iff_nth_eq dest: enriches_fields)

end

lemma bounded_end_fills: "bounded_end W ds line e w = (Inr e', w') \<Longrightarrow> fills_end e e'"
  by (auto simp: bounded_end_def fills_end_def split: if_split_asm)

lemma enrich_occurrences_only:
  "enrich_occurrences W ds ocs w = (Inr ocs', w') \<Longrightarrow> list_all2 enriches_occurrence ocs ocs'"
proof (induction ocs arbitrary: w ocs' w')
  case (Cons oc ocs)
  then obtain e rest v v' where "bounded_end W ds (OccLine oc) (OccEndLine oc) w = (Inr e, v)"
    "enrich_occurrences W ds ocs v = (Inr rest, v')" "ocs' = oc\<lparr>OccEndLine := e\<rparr> # rest"
    by (auto simp: enrich_then_Inr)
  with Cons.IH show ?case by (auto simp: enriches_occurrence_def dest: bounded_end_fills)
qed simp

lemma enrich_finding_only:
  assumes "enrich_finding W root f files w = (Inr (g, files'), w')"
  shows "enriches f g"
proof (cases "EndLine f \<noteq> 0 \<and> all_occurrences_bounded (Occurrences f)")
  case True
  with assms show ?thesis by (auto simp: enrich_finding_def enrich_then_Inr)
next
  case False
  from assms obtain v where rest: "(case parse_path (File f) of Inl e \<Rightarrow> (\<lambda>w. (Inl (FindingFile e), w))
     | Inr path \<Rightarrow> enrich_then (declarations_of W root path files) (\<lambda>(ds, files).
         enrich_then (bounded_end W ds (Line f) (EndLine f)) (\<lambda>e.
         enrich_then (enrich_occurrences W ds (Occurrences f)) (\<lambda>ocs.
         give (f\<lparr>EndLine := e, Occurrences := ocs\<rparr>, files))))) v = (Inr (g, files'), w')"
    unfolding enrich_finding_def enrich_then_Inr if_not_P [OF False] by blast
  then obtain ds e ocs v1 v2 v3 where "bounded_end W ds (Line f) (EndLine f) v1 = (Inr e, v2)"
    "enrich_occurrences W ds (Occurrences f) v2 = (Inr ocs, v3)" "g = f\<lparr>EndLine := e, Occurrences := ocs\<rparr>"
    by (auto simp: enrich_then_Inr split: sum.splits)
  then show ?thesis by (auto simp: enriches_def dest: bounded_end_fills enrich_occurrences_only)
qed

lemma enrich_findings_only:
  "enrich_findings W root fs files w = (Inr gs, w') \<Longrightarrow> list_all2 enriches fs gs"
proof (induction fs arbitrary: files w gs w')
  case (Cons f fs)
  then obtain g files' v gs' v' where "enrich_finding W root f files w = (Inr (g, files'), v)"
    "enrich_findings W root fs files' v = (Inr gs', v')" "gs = g # gs'"
    by (auto simp: enrich_then_Inr)
  with Cons.IH show ?case by (auto dest: enrich_finding_only)
qed simp

interpretation noop: enricher_contract noop_enrich
  by unfold_locales (auto simp: noop_enrich_def intro: list_all2_refl)

interpretation go: enricher_contract go_enrich
proof
  fix W :: "'w files" and root loc fs w gs w'
  assume run: "go_enrich W root loc fs w = (Inr gs, w')"
  show "list_all2 enriches fs gs"
  proof (cases "fs = [] \<or> loc = point_location")
    case True
    with run show ?thesis by (auto simp: go_enrich_def intro: list_all2_refl split: if_split_asm)
  next
    case False
    with run obtain v where "(case openRoot W root v of (False, w) \<Rightarrow> (Inl RootNotOpened, w)
        | (True, w) \<Rightarrow> enrich_findings W root fs [] w) = (Inr gs, w')"
      by (auto simp: go_enrich_def enrich_then_Inr split: if_split_asm)
    then show ?thesis
      by (cases "openRoot W root v") (auto dest: enrich_findings_only split: bool.splits)
  qed
qed

end
