(* ===== verification/EnricherFacts.thy ===== *)
theory EnricherFacts
  imports Enrichers
begin

text \<open>
  What the Go enricher fills in: the end of the narrowest declaration around each location that has no
  end, from one reading of each file.
\<close>

subsection \<open>The narrowest declaration\<close>

definition encloses :: "int \<Rightarrow> int \<times> int \<Rightarrow> bool" where
  "encloses line d \<longleftrightarrow> fst d \<le> line \<and> line \<le> snd d"

definition narrowest_end :: "(int \<times> int) set \<Rightarrow> int \<Rightarrow> int \<Rightarrow> bool" where
  "narrowest_end ds line e \<longleftrightarrow>
     (if \<exists>d \<in> ds. encloses line d
      then \<exists>d \<in> ds. encloses line d \<and> e = snd d
        \<and> (\<forall>d' \<in> ds. encloses line d' \<longrightarrow> snd d - fst d \<le> snd d' - fst d')
      else e = 0)"

definition interval_key :: "int \<times> int \<Rightarrow> int \<times> int \<times> int" where
  "interval_key d = (snd d - fst d, fst d, snd d)"

interpretation intervals: key_comparator less_interval interval_key "\<lambda>_. True"
  by unfold_locales (auto simp: less_interval_def interval_key_def)

fun declared :: "(int \<times> int) option list \<Rightarrow> (int \<times> int) list" where
  "declared [] = []"
| "declared (None # nodes) = declared nodes"
| "declared (Some d # nodes) = d # declared nodes"

lemma inspect_declared: "inspect W nodes w = (Inr ds, w') \<Longrightarrow> ds = declared nodes"
proof (induction nodes arbitrary: w w' ds)
  case (Cons node nodes)
  then show ?case by (cases node) (auto simp: enrich_then_Inr)
qed simp

lemma collected: "collect_declaration_intervals W nodes w = (Inr ds, w') \<Longrightarrow> ds = sort_by less_interval (declared nodes)"
  by (auto simp: collect_declaration_intervals_def enrich_then_Inr dest: inspect_declared)

lemma enclosing_first:
  "enclosing_declaration_end_line W ds line w = (Inr e, w') \<Longrightarrow> sorted (map interval_key ds) \<Longrightarrow>
     narrowest_end (set ds) line e"
proof (induction ds arbitrary: w)
  case Nil
  then show ?case by (auto simp: enrich_then_Inr narrowest_end_def)
next
  case (Cons d ds)
  from Cons.prems(1) obtain v where
    step: "(if encloses line d then give (snd d) else enclosing_declaration_end_line W ds line) v = (Inr e, w')"
    by (auto simp: enrich_then_Inr encloses_def)
  show ?case
  proof (cases "encloses line d")
    case True
    have "snd d - fst d \<le> snd d' - fst d'" if "d' \<in> set (d # ds)" for d'
      using that Cons.prems(2) by (auto simp: interval_key_def)
    with True step show ?thesis by (auto simp: narrowest_end_def)
  next
    case False
    with step Cons have "narrowest_end (set ds) line e" by auto
    with False show ?thesis by (auto simp: narrowest_end_def)
  qed
qed

subsection \<open>One reading of each file\<close>

text \<open>The declarations of a file, as some reading of it found them.\<close>

definition read_declarations :: "'w files \<Rightarrow> gostring \<Rightarrow> gostring \<Rightarrow> (int \<times> int) list \<Rightarrow> bool" where
  "read_declarations W root path ds \<longleftrightarrow>
     (\<exists>nodes v v'. parseFile W root path v = (ParsedFile nodes, v') \<and> ds = sort_by less_interval (declared nodes))"

definition sound_files :: "'w files \<Rightarrow> gostring \<Rightarrow> parsed_files \<Rightarrow> bool" where
  "sound_files W root files \<longleftrightarrow> (\<forall>path ds. map_of files path = Some ds \<longrightarrow> read_declarations W root path ds)"

lemma parse_go_file_reads: "parse_go_file W root path w = (Inr ds, w') \<Longrightarrow> read_declarations W root path ds"
proof -
  assume run: "parse_go_file W root path w = (Inr ds, w')"
  then obtain v where v: "(case parseFile W root path v of
         (NotReadable, w) \<Rightarrow> (Inl (SourceUnreadable path), w)
       | (NotParsed, w) \<Rightarrow> enrich_then (check_context W) (\<lambda>_ w. (Inl (SourceUnparsed path), w)) w
       | (ParsedFile nodes, w) \<Rightarrow>
           enrich_then (check_context W) (\<lambda>_. enrich_then (check_context W) (\<lambda>_. collect_declaration_intervals W nodes)) w)
      = (Inr ds, w')" by (auto simp: parse_go_file_def enrich_then_Inr)
  obtain r u where r: "parseFile W root path v = (r, u)" by (cases "parseFile W root path v")
  with v obtain nodes where "r = ParsedFile nodes"
    by (cases r) (auto simp: enrich_then_def split: prod.splits sum.splits)
  with v r show ?thesis by (auto simp: read_declarations_def enrich_then_Inr dest!: collected)
qed

lemma declarations_of_sound:
  assumes "declarations_of W root path files w = (Inr (ds, files'), w')" "sound_files W root files"
  shows "map_of files' path = Some ds \<and> map_of files \<subseteq>\<^sub>m map_of files' \<and> sound_files W root files'"
proof (cases "map_of files path")
  case None
  with assms(1) obtain v where "parse_go_file W root path w = (Inr ds, v)" "files' = (path, ds) # files"
    by (auto simp: declarations_of_def enrich_then_Inr)
  with None assms(2) show ?thesis
    by (auto simp: sound_files_def map_le_def dest: parse_go_file_reads)
qed (use assms in \<open>auto simp: declarations_of_def\<close>)

lemma sound_files_sorted: "sound_files W root files \<Longrightarrow> map_of files path = Some ds \<Longrightarrow> sorted (map interval_key ds)"
  by (auto simp: sound_files_def read_declarations_def intro: intervals.sorted_sort_by)

subsection \<open>Every location\<close>

definition filled :: "(int \<times> int) set \<Rightarrow> int \<Rightarrow> int \<Rightarrow> int \<Rightarrow> bool" where
  "filled ds line e e' \<longleftrightarrow> (if e = 0 then narrowest_end ds line e' else e' = e)"

definition filled_occurrence :: "(int \<times> int) set \<Rightarrow> occurrence \<Rightarrow> occurrence \<Rightarrow> bool" where
  "filled_occurrence ds oc oc' \<longleftrightarrow> OccLine oc' = OccLine oc \<and> filled ds (OccLine oc) (OccEndLine oc) (OccEndLine oc')"

definition filled_finding :: "(int \<times> int) set \<Rightarrow> finding \<Rightarrow> finding \<Rightarrow> bool" where
  "filled_finding ds f g \<longleftrightarrow> g = f\<lparr>EndLine := EndLine g, Occurrences := Occurrences g\<rparr>
     \<and> filled ds (Line f) (EndLine f) (EndLine g)
     \<and> list_all2 (filled_occurrence ds) (Occurrences f) (Occurrences g)"

definition unbounded :: "finding \<Rightarrow> bool" where
  "unbounded f \<longleftrightarrow> EndLine f = 0 \<or> \<not> all_occurrences_bounded (Occurrences f)"

lemma bounded_end_filled:
  "bounded_end W ds line e w = (Inr e', w') \<Longrightarrow> sorted (map interval_key ds) \<Longrightarrow> filled (set ds) line e e'"
  by (auto simp: bounded_end_def filled_def enrich_then_Inr dest: enclosing_first split: if_split_asm)

lemma enrich_occurrences_filled:
  "enrich_occurrences W ds ocs w = (Inr ocs', w') \<Longrightarrow> sorted (map interval_key ds) \<Longrightarrow>
     list_all2 (filled_occurrence (set ds)) ocs ocs'"
proof (induction ocs arbitrary: w ocs' w')
  case (Cons oc ocs)
  then obtain e rest v v' where "bounded_end W ds (OccLine oc) (OccEndLine oc) w = (Inr e, v)"
    "enrich_occurrences W ds ocs v = (Inr rest, v')" "ocs' = oc\<lparr>OccEndLine := e\<rparr> # rest"
    by (auto simp: enrich_then_Inr)
  with Cons show ?case by (auto simp: filled_occurrence_def dest: bounded_end_filled)
qed simp

lemma bounded_filled: "\<not> unbounded f \<Longrightarrow> filled_finding ds f f"
  by (auto simp: unbounded_def filled_finding_def filled_def filled_occurrence_def all_occurrences_bounded_def
      list_all_iff list_all2_same)

definition filled_from :: "parsed_files \<Rightarrow> finding \<Rightarrow> finding \<Rightarrow> bool" where
  "filled_from files f g \<longleftrightarrow>
     (if unbounded f
      then \<exists>path ds. parse_path (File f) = Inr path \<and> map_of files path = Some ds \<and> filled_finding (set ds) f g
      else g = f)"

lemma filled_from_mono: "filled_from files f g \<Longrightarrow> map_of files \<subseteq>\<^sub>m map_of files' \<Longrightarrow> filled_from files' f g"
  by (auto simp: filled_from_def map_le_def dom_def split: if_split_asm)

lemma enrich_finding_filled:
  assumes "enrich_finding W root f files w = (Inr (g, files'), w')" "sound_files W root files"
  shows "filled_from files' f g \<and> map_of files \<subseteq>\<^sub>m map_of files' \<and> sound_files W root files'"
proof (cases "unbounded f")
  case False
  then have "EndLine f \<noteq> 0 \<and> all_occurrences_bounded (Occurrences f)" by (simp add: unbounded_def)
  with False assms show ?thesis by (auto simp: enrich_finding_def enrich_then_Inr filled_from_def)
next
  case True
  then have skip: "\<not> (EndLine f \<noteq> 0 \<and> all_occurrences_bounded (Occurrences f))" by (auto simp: unbounded_def)
  from assms(1) obtain v where v: "(case parse_path (File f) of Inl e \<Rightarrow> (\<lambda>w. (Inl (FindingFile e), w))
     | Inr path \<Rightarrow> enrich_then (declarations_of W root path files) (\<lambda>(ds, files).
         enrich_then (bounded_end W ds (Line f) (EndLine f)) (\<lambda>e.
         enrich_then (enrich_occurrences W ds (Occurrences f)) (\<lambda>ocs.
         give (f\<lparr>EndLine := e, Occurrences := ocs\<rparr>, files))))) v = (Inr (g, files'), w')"
    unfolding enrich_finding_def enrich_then_Inr if_not_P [OF skip] by blast
  then obtain path where path: "parse_path (File f) = Inr path" by (auto split: sum.splits)
  with v obtain ds e ocs v1 v2 v3 where run: "declarations_of W root path files v = (Inr (ds, files'), v1)"
    "bounded_end W ds (Line f) (EndLine f) v1 = (Inr e, v2)"
    "enrich_occurrences W ds (Occurrences f) v2 = (Inr ocs, v3)" "g = f\<lparr>EndLine := e, Occurrences := ocs\<rparr>"
    by (auto simp: enrich_then_Inr)
  note files = declarations_of_sound [OF run(1) assms(2)]
  then have "sorted (map interval_key ds)" using sound_files_sorted by blast
  with run have "filled_finding (set ds) f g"
    by (auto simp: filled_finding_def dest: bounded_end_filled enrich_occurrences_filled)
  with True path files show ?thesis by (auto simp: filled_from_def)
qed

lemma enrich_findings_filled:
  "enrich_findings W root fs files w = (Inr gs, w') \<Longrightarrow> sound_files W root files \<Longrightarrow>
     \<exists>final. map_of files \<subseteq>\<^sub>m map_of final \<and> sound_files W root final \<and> list_all2 (filled_from final) fs gs"
proof (induction fs arbitrary: files w gs w')
  case Nil
  then show ?case by (auto intro: exI [of _ files])
next
  case (Cons f fs)
  then obtain g files' v gs' v' where run: "enrich_finding W root f files w = (Inr (g, files'), v)"
    "enrich_findings W root fs files' v = (Inr gs', v')" "gs = g # gs'"
    by (auto simp: enrich_then_Inr)
  note step = enrich_finding_filled [OF run(1) Cons.prems(2)]
  with Cons.IH [OF run(2)] obtain final where final: "map_of files' \<subseteq>\<^sub>m map_of final" "sound_files W root final"
    "list_all2 (filled_from final) fs gs'" by blast
  from step final(1) have "filled_from final f g" "map_of files \<subseteq>\<^sub>m map_of final"
    by (auto intro: filled_from_mono map_le_trans)
  with final run(3) show ?case by auto
qed

text \<open>
  C38: Enrichment fills in exactly the missing ends: when the Go enricher succeeds on entity findings,
  each finding is returned in its place with nothing but end lines changed; a location that had an end
  keeps it, and one that had none gets the last line of the narrowest declaration that encloses it, or
  stays without an end when no declaration does. All locations of a file are judged by the declarations
  of one reading of that file.
\<close>

theorem enriches_narrowest:
  assumes "go_enrich W root entity_location fs w = (Inr gs, w')"
  shows "\<exists>decls. list_all2 (\<lambda>f g. if unbounded f then filled_finding (set (decls (normalize_file (File f)))) f g else g = f) fs gs
    \<and> (\<forall>f \<in> set fs. unbounded f \<longrightarrow> read_declarations W root (normalize_file (File f)) (decls (normalize_file (File f))))"
proof (cases "fs = []")
  case True
  with assms show ?thesis by (auto simp: go_enrich_def)
next
  case False
  have "entity_location \<noteq> point_location" by (simp add: entity_location_def point_location_def)
  with False assms obtain v where "(case openRoot W root v of (False, w) \<Rightarrow> (Inl RootNotOpened, w)
      | (True, w) \<Rightarrow> enrich_findings W root fs [] w) = (Inr gs, w')"
    by (auto simp: go_enrich_def enrich_then_Inr split: if_split_asm)
  then obtain u where run: "enrich_findings W root fs [] u = (Inr gs, w')"
    by (cases "openRoot W root v") (auto split: bool.splits)
  have "sound_files W root []" by (simp add: sound_files_def)
  from enrich_findings_filled [OF run this]
  obtain final where final: "sound_files W root final" "list_all2 (filled_from final) fs gs" by blast
  let ?decls = "\<lambda>path. the (map_of final path)"
  have path: "normalize_file name = path" if "parse_path name = Inr path" for name path
    using parse_path_value [OF that] by simp
  have "list_all2 (\<lambda>f g. if unbounded f then filled_finding (set (?decls (normalize_file (File f)))) f g else g = f) fs gs"
    using final(2) by (rule list_all2_mono) (auto simp: filled_from_def path split: if_split_asm)
  moreover have "read_declarations W root (normalize_file (File f)) (?decls (normalize_file (File f)))"
    if "f \<in> set fs" "unbounded f" for f
  proof -
    from that(1) obtain i where "i < length fs" "f = fs ! i" by (auto simp: in_set_conv_nth)
    with final(2) have "filled_from final f (gs ! i)" by (auto simp: list_all2_conv_all_nth)
    with that(2) obtain path ds where "parse_path (File f) = Inr path" "map_of final path = Some ds"
      by (auto simp: filled_from_def)
    with final(1) show ?thesis by (auto simp: sound_files_def path)
  qed
  ultimately show ?thesis by (intro exI [of _ ?decls] conjI ballI impI)
qed

definition demo_files :: "unit files" where
  "demo_files = \<lparr>pollContext = (\<lambda>w. (None, w)), openRoot = (\<lambda>root w. (True, w)),
     parseFile = (\<lambda>root path w. (ParsedFile [None, Some (2, 30), Some (4, 9), None], w))\<rparr>"

lemma demo_context [simp]: "check_context demo_files w = (Inr (), w)"
  by (simp add: check_context_def demo_files_def)

lemma demo_steps [simp]: "enrich_then (\<lambda>w. (Inr x, w)) f = f x"
  by (simp add: enrich_then_def fun_eq_iff)

lemma demo_enriched:
  "go_enrich demo_files ''/r'' entity_location [sample_finding] () = (Inr [sample_finding\<lparr>EndLine := 9\<rparr>], ())"
proof -
  have path: "parse_path ''pkg/a.go'' = Inr ''pkg/a.go''" by (simp add: path_eval)
  have read: "parse_go_file demo_files root p () = (Inr [(4, 9), (2, 30)], ())" for root p
    by (simp add: parse_go_file_def enrich_then_def collect_declaration_intervals_def give_def less_interval_def
        demo_files_def [THEN arg_cong [of _ _ parseFile]])
  have "enrich_findings demo_files root [sample_finding] [] () = (Inr [sample_finding\<lparr>EndLine := 9\<rparr>], ())" for root
    by (simp add: enrich_finding_def path read enrich_then_def give_def declarations_of_def bounded_end_def
        sample_finding_def)
  then show ?thesis
    by (simp add: go_enrich_def enrich_then_def entity_location_def point_location_def is_abs_def slash_def
        demo_files_def [THEN arg_cong [of _ _ openRoot]])
qed

theorem enriches_narrowest_witness:
  "\<exists>decls. filled_finding (set decls) sample_finding (sample_finding\<lparr>EndLine := 9\<rparr>)
    \<and> read_declarations demo_files ''/r'' ''pkg/a.go'' decls"
proof -
  have "unbounded sample_finding" by (simp add: unbounded_def sample_finding_def)
  moreover have "normalize_file (File sample_finding) = ''pkg/a.go''" by (simp add: sample_finding_def path_eval)
  ultimately show ?thesis using enriches_narrowest [OF demo_enriched] by auto
qed

end
