(* ===== verification/Buffers.thy ===== *)
theory Buffers
  imports GoText
begin

text \<open>
  \<open>internal/runner/buffer.go\<close>: the bounded capture of one output stream of a process, and what it
  holds however the process splits its output into writes.
\<close>

record buffer =
  bufData :: gostring
  bufLimit :: int
  bufMarker :: gostring
  bufTruncated :: bool

definition new_buffer :: "int \<Rightarrow> gostring \<Rightarrow> buffer" where
  "new_buffer limit marker =
     (let limit = max limit 0
      in \<lparr>bufData = [], bufLimit = limit, bufMarker = take (nat (min (int (length marker)) limit)) marker,
          bufTruncated = False\<rparr>)"

definition write_buffer :: "buffer \<Rightarrow> gostring \<Rightarrow> buffer" where
  "write_buffer b input =
     (if bufTruncated b then b
      else if int (length input) \<le> bufLimit b - int (length (bufData b))
      then b\<lparr>bufData := bufData b @ input\<rparr>
      else (let data_limit = bufLimit b - int (length (bufMarker b));
                kept = (if int (length (bufData b)) > data_limit then take (nat data_limit) (bufData b)
                        else if int (length (bufData b)) < data_limit
                        then bufData b @ take (nat (min (data_limit - int (length (bufData b))) (int (length input)))) input
                        else bufData b)
            in b\<lparr>bufData := kept @ bufMarker b, bufTruncated := True\<rparr>))"

subsection \<open>The capture as a function of the stream\<close>

definition captured :: "int \<Rightarrow> gostring \<Rightarrow> gostring \<Rightarrow> buffer" where
  "captured limit marker stream =
     (let b = new_buffer limit marker in
      if int (length stream) \<le> bufLimit b then b\<lparr>bufData := stream\<rparr>
      else b\<lparr>bufData := take (nat (bufLimit b - int (length (bufMarker b)))) stream @ bufMarker b, bufTruncated := True\<rparr>)"

lemma marker_fits: "int (length (bufMarker (new_buffer limit marker))) \<le> bufLimit (new_buffer limit marker)"
  by (simp add: new_buffer_def Let_def)

text \<open>What a write past the limit keeps, before the marker goes behind it.\<close>

lemma kept_head:
  fixes d :: int
  assumes "0 \<le> d" "d \<le> int (length (s @ t))"
  shows "(if int (length s) > d then take (nat d) s
          else if int (length s) < d then s @ take (nat (min (d - int (length s)) (int (length t)))) t
          else s) = take (nat d) (s @ t)"
proof (cases "int (length s) < d")
  case True
  have "min (d - int (length s)) (int (length t)) = d - int (length s)" using assms(2) by simp
  moreover have "nat (d - int (length s)) = nat d - length s" using assms(1) by simp
  ultimately show ?thesis using True assms(1) by simp
qed (use assms in auto)

lemma write_captured: "write_buffer (captured limit marker s) input = captured limit marker (s @ input)"
proof -
  let ?b = "new_buffer limit marker"
  define d where "d = bufLimit ?b - int (length (bufMarker ?b))"
  have d: "0 \<le> d" "d \<le> bufLimit ?b" using marker_fits [of limit marker] by (simp_all add: d_def)
  have plain: "\<not> bufTruncated ?b" by (simp add: new_buffer_def Let_def)
  consider (over) "\<not> int (length s) \<le> bufLimit ?b" | (fits) "int (length (s @ input)) \<le> bufLimit ?b"
    | (crosses) "int (length s) \<le> bufLimit ?b" "\<not> int (length (s @ input)) \<le> bufLimit ?b" by linarith
  then show ?thesis
  proof cases
    case over
    then have "take (nat d) (s @ input) = take (nat d) s" using d by simp
    with over show ?thesis by (simp add: captured_def write_buffer_def Let_def d_def)
  next
    case fits
    with plain show ?thesis by (simp add: captured_def write_buffer_def Let_def)
  next
    case crosses
    let ?kept = "if int (length s) > d then take (nat d) s
          else if int (length s) < d then s @ take (nat (min (d - int (length s)) (int (length input)))) input
          else s"
    have "captured limit marker s = ?b\<lparr>bufData := s\<rparr>" using crosses(1) by (simp add: captured_def Let_def)
    then have "write_buffer (captured limit marker s) input
        = ?b\<lparr>bufData := ?kept @ bufMarker ?b, bufTruncated := True\<rparr>"
      using crosses(2) plain unfolding d_def by (simp add: write_buffer_def Let_def)
    also have "?kept = take (nat d) (s @ input)" using crosses(2) d by (intro kept_head) simp_all
    finally show ?thesis using crosses(2) by (simp add: captured_def Let_def d_def)
  qed
qed

lemma captured_empty: "captured limit marker [] = new_buffer limit marker"
  by (simp add: captured_def Let_def new_buffer_def)

lemma writes_captured: "foldl write_buffer (captured limit marker s) inputs = captured limit marker (s @ concat inputs)"
  by (induction inputs arbitrary: s) (simp_all add: write_captured)

text \<open>
  C37: The captured output depends on what a process writes and not on how it splits it into writes: after
  any sequence of writes the buffer holds the whole stream if it fits in the limit, else the head of the
  stream with the truncation marker behind it, exactly as long as the limit; it is marked truncated in
  just the second case, and never holds more bytes than the limit.
\<close>

theorem buffer_holds_stream:
  "let b = foldl write_buffer (new_buffer limit marker) inputs; stream = concat inputs; bound = nat limit
   in bufData b = (if length stream \<le> bound then stream
                   else take (bound - min (length marker) bound) stream @ take bound marker)
    \<and> bufTruncated b = (bound < length stream)
    \<and> length (bufData b) = min (length stream) bound"
proof -
  have run: "foldl write_buffer (new_buffer limit marker) inputs = captured limit marker (concat inputs)"
    using writes_captured [of limit marker "[]" inputs] by (simp add: captured_empty)
  obtain n where n: "nat limit = n" by simp
  obtain s where s: "concat inputs = s" by simp
  have limit: "bufLimit (new_buffer limit marker) = int n" by (simp add: new_buffer_def Let_def flip: n)
  have marker: "bufMarker (new_buffer limit marker) = take n marker"
  proof -
    have "nat (min (int (length marker)) (max limit 0)) = min (length marker) (nat limit)"
      by (auto simp: min_def max_def le_nat_iff nat_le_iff)
    then show ?thesis by (simp add: new_buffer_def Let_def min_def flip: n)
  qed
  have "nat (int n - int (length (take n marker))) = n - min (length marker) n"
    by (simp add: min.commute flip: of_nat_diff)
  moreover have "\<not> bufTruncated (new_buffer limit marker)" by (simp add: new_buffer_def Let_def)
  ultimately show ?thesis
    unfolding run captured_def Let_def limit marker s n by (auto simp: min_def)
qed

end
