(* ===== verification/Execution.thy ===== *)
theory Execution
  imports Loader EnricherFacts Buffers
begin

text \<open>
  \<open>internal/run/executor.go\<close>, \<open>collector.go\<close> and the selection of requests: one gate from its command
  to its report, and the pool of workers that runs all of them. The processes, the clock, the sink of
  raw output, the state of files and the cancellation of the context are a host on a state of the world.
\<close>

subsection \<open>The host and requests\<close>

datatype run_error = ExitStatus int | RunFailure

record run_result =
  rrStdout :: buffer
  rrStderr :: buffer
  rrRunErr :: "run_error option"
  rrCleanupErr :: bool

record 'w host =
  hostNow :: "'w \<Rightarrow> int \<times> 'w"
  hostStat :: "gostring \<Rightarrow> 'w \<Rightarrow> file_kind \<times> 'w"
  hostRun :: "gostring \<Rightarrow> gostring list \<Rightarrow> 'w \<Rightarrow> run_result \<times> 'w"
  hostWriteRaw :: "gostring \<Rightarrow> gostring \<Rightarrow> 'w \<Rightarrow> bool \<times> 'w"
  hostSources :: "'w \<Rightarrow> gostring \<Rightarrow> (problem, repository) res"
  hostFiles :: "'w files"

record gate_request =
  reqGate :: gate
  reqBinding :: binding
  reqPosition :: int
  reqRoot :: gostring
  reqHasSink :: bool
  reqChangedLines :: "changed_lines option"

type_synonym 'w enricher = "'w files \<Rightarrow> gostring \<Rightarrow> location \<Rightarrow> finding list \<Rightarrow> ('w, finding list) enriching"

type_synonym 'w registry = "(gostring \<times> 'w enricher option) list"

definition new_registry :: "'w registry" where
  "new_registry = [(''go'', Some go_enrich)]"

definition registry_for :: "'w registry \<Rightarrow> gostring \<Rightarrow> 'w enricher option" where
  "registry_for r language = (case map_of r language of None \<Rightarrow> None | Some e \<Rightarrow> e)"

definition registry_languages :: "'w registry \<Rightarrow> gostring list" where
  "registry_languages r = sort (map fst r)"

subsection \<open>Checks\<close>

definition new_gate_report :: "gate \<Rightarrow> binding \<Rightarrow> int \<Rightarrow> gate_report" where
  "new_gate_report g b position =
     \<lparr>grGate = mfName (gtManifest g), grLanguage = wrLanguage b,
      grBlocking = Some (elems (mfBlocking (gtManifest g))), grFixPolicy = mfFixPolicy (gtManifest g),
      grPosition = position, grStatus = [], grFindings = [], grDurationMS = 0, grObservedVersion = [],
      grWarnings = [], grError = []\<rparr>"

definition errored :: "gate_report \<Rightarrow> problem option \<Rightarrow> gate_report" where
  "errored r e = r\<lparr>grStatus := gate_errored, grFindings := [],
     grError := (case e of None \<Rightarrow> ''gate execution errored'' | Some p \<Rightarrow> fst p)\<rparr>"

definition command_exit_code :: "run_error option \<Rightarrow> int \<times> bool" where
  "command_exit_code e =
     (case e of None \<Rightarrow> (0, True) | Some (ExitStatus c) \<Rightarrow> (if c \<ge> 0 then (c, True) else (0, False))
      | Some RunFailure \<Rightarrow> (0, False))"

definition command_exit_classification :: "'a wire_scheme \<Rightarrow> run_error option \<Rightarrow> bool \<times> bool" where
  "command_exit_classification b e =
     (let c = fst (command_exit_code e) in (c \<in> set (wrSuccessExits b), c \<in> set (wrFindingExits b)))"

definition context_execution_error :: "context_error \<Rightarrow> problem" where
  "context_execution_error e =
     (case e of DeadlineExceeded \<Rightarrow> (''gate deadline exceeded'', []) | Canceled \<Rightarrow> (''gate execution canceled'', []))"

definition validate_command :: "gostring list \<Rightarrow> problem option" where
  "validate_command command =
     (if command = [] \<or> trim_space (hd command) = [] then Some (''gate command is required'', [])
      else first_error (argument_problem ''gate command argument is empty'') 0 command)"

definition validate_execution :: "'w host \<Rightarrow> bool \<Rightarrow> gate_request \<Rightarrow> 'w \<Rightarrow> problem option \<times> 'w" where
  "validate_execution H has_context req w =
     (case checks [
        fails (\<not> has_context) ''execution context is required'' [],
        fails (\<not> valid_gate (reqGate req) \<or> \<not> valid_binding (reqBinding req))
          ''gate was not compiled; load gates through gate.Compile'' [],
        fails (\<not> owns (reqGate req) (reqBinding req)) ''binding does not belong to gate'' [],
        fails (reqPosition req < 0) ''gauntlet position cannot be negative'' [],
        fails (trim_space (reqRoot req) = []) ''repository root is required'' [],
        fails (\<not> reqHasSink req) ''raw sink is required'' [],
        (if mfScope (gtManifest (reqGate req)) = diff_scope
         then (case reqChangedLines req of
                 None \<Rightarrow> Some (''diff-scoped gate requires changed lines'', [])
               | Some ch \<Rightarrow> fails (validate_changed_lines ch \<noteq> None)
                   ''filter findings by scope: invalid changed-line scope'' [])
         else None)] of
        Some e \<Rightarrow> (Some e, w)
      | None \<Rightarrow>
          (case hostStat H (reqRoot req) w of (k, w) \<Rightarrow>
             if k = Missing \<or> k = Uninspectable then (Some (''repository root cannot be opened'', []), w)
             else if k \<noteq> Directory then (Some (''repository root is not a directory'', []), w)
             else (None, w)))"

text \<open>What cancels a result before its exit code counts: the context, the process tree, the capture.\<close>

definition validate_command_result :: "'w host \<Rightarrow> 'a wire_scheme \<Rightarrow> run_result \<Rightarrow> 'w \<Rightarrow> problem option \<times> 'w" where
  "validate_command_result H b r w =
     (case pollContext (hostFiles H) w of (cancelled, w) \<Rightarrow>
        (case cancelled of
           Some e \<Rightarrow> (Some (context_execution_error e), w)
         | None \<Rightarrow>
             (case command_exit_code (rrRunErr r) of (c, exited) \<Rightarrow>
                let finding_exit = c \<in> set (wrFindingExits b) in
                (checks [
                   fails (rrCleanupErr r) ''clean up gate process tree'' [],
                   fails (bufTruncated (rrStdout r) \<or> bufTruncated (rrStderr r))
                     ''gate output exceeded the 1 MiB capture limit'' [],
                   fails (\<not> exited) ''run gate command'' [],
                   fails (c \<notin> set (wrSuccessExits b) \<and> \<not> finding_exit) ''gate command exited with an unexpected code'' [],
                   fails (finding_exit \<and> bufData (rrStderr r) \<noteq> []) ''finding exit wrote to stderr'' []], w))))"

subsection \<open>The tool's version\<close>

fun observe_outputs :: "gate_engines \<Rightarrow> version_block \<Rightarrow> gostring list \<Rightarrow> (gostring \<times> bool) option" where
  "observe_outputs E v [] = None"
| "observe_outputs E v (out # outs) =
     (if out = [] then observe_outputs E v outs
      else (case observe (geRegex E) v out of
              (observed, Inr ok) \<Rightarrow> Some (observed, ok)
            | (_, Inl _) \<Rightarrow> observe_outputs E v outs))"

definition observe_version_streams :: "gate_engines \<Rightarrow> version_block \<Rightarrow> gostring \<Rightarrow> gostring \<Rightarrow> (gostring \<times> bool) option" where
  "observe_version_streams E v out err = observe_outputs E v [out, err]"

definition warn :: "gate_report \<Rightarrow> gostring \<Rightarrow> gate_report" where
  "warn r message = r\<lparr>grWarnings := grWarnings r @ [message]\<rparr>"

definition observe_version ::
  "'w host \<Rightarrow> gate_engines \<Rightarrow> gate_request \<Rightarrow> gate_report \<Rightarrow> 'w \<Rightarrow> problem option \<times> gate_report \<times> 'w" where
  "observe_version H E req r w =
     (let v = wrVersion (reqBinding req) in
      if validate_command (verCommand v) \<noteq> None then (None, warn r ''version command is invalid'', w)
      else (case hostRun H (reqRoot req) (verCommand v) w of (result, w) \<Rightarrow>
            (case pollContext (hostFiles H) w of (cancelled, w) \<Rightarrow>
            (case cancelled of
               Some e \<Rightarrow> (Some (context_execution_error e), r, w)
             | None \<Rightarrow>
                 if rrCleanupErr result then (Some (''clean up version process tree'', []), r, w)
                 else if bufTruncated (rrStdout result) \<or> bufTruncated (rrStderr result)
                 then (None, warn r ''version command output exceeded the capture limit'', w)
                 else if command_exit_code (rrRunErr result) \<noteq> (0, True)
                 then (None, warn r ''version command failed'', w)
                 else (case observe_version_streams E v (bufData (rrStdout result)) (bufData (rrStderr result)) of
                         None \<Rightarrow> (None, warn r ''could not observe tool version'', w)
                       | Some (observed, ok) \<Rightarrow>
                           (let r = r\<lparr>grObservedVersion := observed\<rparr> in
                            (None, if ok then r else warn r ''observed tool version does not satisfy the configured constraint'', w)))))))"

subsection \<open>Execute\<close>

definition persist_raw :: "'w host \<Rightarrow> gostring \<Rightarrow> gostring \<Rightarrow> 'w \<Rightarrow> bool \<times> 'w" where
  "persist_raw H out err w =
     (case hostWriteRaw H ''stdout'' out w of (ok_out, w) \<Rightarrow>
      (case hostWriteRaw H ''stderr'' err w of (ok_err, w) \<Rightarrow> (ok_out \<and> ok_err, w)))"

text \<open>From the output of the tool to the findings of the report.\<close>

definition gate_findings_of ::
  "'w host \<Rightarrow> 'w registry \<Rightarrow> gate_engines \<Rightarrow> gate_request \<Rightarrow> run_result \<Rightarrow> 'w \<Rightarrow> (problem, finding list) res \<times> 'w" where
  "gate_findings_of H registry E req result w =
     (let m = gtManifest (reqGate req); b = reqBinding req in
      case binding_normalize E (hostSources H w) b (mfName m) (reqRoot req) (bufData (rrStdout result)) of
        Inl _ \<Rightarrow> (Inl (''normalize gate output: invalid tool output; inspect persisted raw output'', []), w)
      | Inr normalized \<Rightarrow>
          if snd (command_exit_classification b (rrRunErr result)) \<and> normalized = []
          then (Inl (''finding exit produced no valid findings'', []), w)
          else (case group normalized of
            Inl _ \<Rightarrow> (Inl (''group findings: invalid normalized findings'', []), w)
          | Inr grouped \<Rightarrow>
              (case registry_for registry (wrLanguage b) of
                 None \<Rightarrow> (Inl (''no enricher for language'', []), w)
               | Some enrich \<Rightarrow>
                   (case enrich (hostFiles H) (reqRoot req) (mfLocation m) grouped w of
                      (Inl _, w) \<Rightarrow> (Inl (''enrich findings: enrichment failed'', []), w)
                    | (Inr enriched, w) \<Rightarrow>
                        (case (if mfScope m = diff_scope
                               then (case filter_touched enriched (elems (reqChangedLines req)) of
                                       Inl _ \<Rightarrow> Inl (''filter findings by scope: invalid changed-line scope'', [])
                                     | Inr touched \<Rightarrow> Inr touched)
                               else Inr enriched) of
                           Inl e \<Rightarrow> (Inl e, w)
                         | Inr scoped \<Rightarrow>
                             (case group scoped of
                                Inl _ \<Rightarrow> (Inl (''group findings: invalid enriched findings'', []), w)
                              | Inr final \<Rightarrow> (Inr final, w)))))))"

definition finish_execution ::
  "'w host \<Rightarrow> 'w registry \<Rightarrow> gate_engines \<Rightarrow> gate_request \<Rightarrow> gate_report \<Rightarrow> run_result \<Rightarrow> 'w \<Rightarrow> gate_report \<times> 'w" where
  "finish_execution H registry E req report result w =
     (case persist_raw H (bufData (rrStdout result)) (bufData (rrStderr result)) w of (stored, w) \<Rightarrow>
      if \<not> stored then (errored report (Some (''persist raw output: storage failure'', [])), w)
      else (case validate_command_result H (reqBinding req) result w of
              (Some e, w) \<Rightarrow> (errored report (Some e), w)
            | (None, w) \<Rightarrow>
                (case gate_findings_of H registry E req result w of
                   (Inl e, w) \<Rightarrow> (errored report (Some e), w)
                 | (Inr findings, w) \<Rightarrow>
                     (report\<lparr>grFindings := findings,
                        grStatus := (if findings = [] then gate_passed else gate_findings)\<rparr>, w))))"

definition execute_checked ::
  "'w host \<Rightarrow> 'w registry \<Rightarrow> gate_engines \<Rightarrow> gate_request \<Rightarrow> gate_report \<Rightarrow> 'w \<Rightarrow> gate_report \<times> 'w" where
  "execute_checked H registry E req report w =
     (case render_command E (reqBinding req) of
        Inl e \<Rightarrow> (errored report (Some (''render command: '' @ fst e, snd e)), w)
      | Inr command \<Rightarrow>
          (case validate_command command of
             Some e \<Rightarrow> (errored report (Some e), w)
           | None \<Rightarrow>
               (case (if verCommand (wrVersion (reqBinding req)) \<noteq> [] then observe_version H E req report w
                      else (None, report, w)) of
                  (Some e, report, w) \<Rightarrow> (errored report (Some e), w)
                | (None, report, w) \<Rightarrow>
                    (case hostRun H (reqRoot req) command w of (result, w) \<Rightarrow>
                       finish_execution H registry E req report result w))))"

definition execute_gate ::
  "'w host \<Rightarrow> 'w registry \<Rightarrow> gate_engines \<Rightarrow> bool \<Rightarrow> gate_request \<Rightarrow> 'w \<Rightarrow> gate_report \<times> 'w" where
  "execute_gate H registry E has_context req w =
     (let report = new_gate_report (reqGate req) (reqBinding req) (reqPosition req) in
      case hostNow H w of (started, w) \<Rightarrow>
      (case (case validate_execution H has_context req w of
               (Some e, w) \<Rightarrow> (errored report (Some e), w)
             | (None, w) \<Rightarrow> execute_checked H registry E req report w) of (report, w) \<Rightarrow>
      (case hostNow H w of (ended, w) \<Rightarrow>
         (report\<lparr>grDurationMS := min max_int (max 0 (ended - started)) div 10 ^ 6\<rparr>, w))))"

end
