(* ===== verification/ReportFacts.thy ===== *)
theory ReportFacts
  imports Reports DiffFacts
begin

text \<open>
  What the validation of a report accepts, and that the composition of a run's gate reports is
  accepted by it: the check that the code runs on its own report never fails.
\<close>

subsection \<open>The order of gate reports\<close>

definition gate_key :: "gate_report \<Rightarrow> int \<times> gostring \<times> gostring" where
  "gate_key g = (grPosition g, grGate g, grLanguage g)"

definition placed :: "gate_report \<Rightarrow> bool" where
  "placed g \<longleftrightarrow> 0 \<le> grPosition g \<and> grPosition g \<le> max_int"

lemma compare_strings_less [simp]: "compare_strings a b < 0 \<longleftrightarrow> a < b"
  by (simp add: compare_strings_def)

interpretation gate_order: key_comparator less_gate_report gate_key placed
proof
  fix l r
  assume "placed l" "placed r"
  then have "wrap64 (grPosition l - grPosition r) = grPosition l - grPosition r"
    by (intro wrap64_id) (auto simp: placed_def)
  then show "less_gate_report l r \<longleftrightarrow> gate_key l < gate_key r"
    by (auto simp: less_gate_report_def compare_gate_reports_def gate_key_def)
qed

lemma sorted_positions:
  "sorted (map gate_key gs) \<Longrightarrow> distinct (map grPosition gs) \<Longrightarrow>
     sorted_wrt (\<lambda>a b. grPosition a < grPosition b) gs"
  by (induction gs) (force simp: gate_key_def)+

lemma gates_in_order:
  assumes "\<forall>g \<in> set gates. placed g" "distinct (map grPosition gates)"
  shows "sorted_wrt (\<lambda>a b. grPosition a < grPosition b) (sort_by less_gate_report gates)"
proof (rule sorted_positions)
  show "sorted (map gate_key (sort_by less_gate_report gates))"
    by (rule gate_order.sorted_sort_by [OF assms(1)])
  show "distinct (map grPosition (sort_by less_gate_report gates))"
    using assms(2) mset_map_sort_by [of grPosition less_gate_report gates]
    by (metis mset_eq_imp_distinct_iff)
qed

subsection \<open>What is valid\<close>

lemma blocking_problem_None:
  "blocking_problem i seen ss = None \<longleftrightarrow> list_all valid_severity ss \<and> distinct ss \<and> set ss \<inter> set seen = {}"
  by (induction ss arbitrary: seen) auto

lemma validate_gate_status_None:
  "validate_gate_status g i = None \<longleftrightarrow> validate_gate_status g 0 = None"
  by (simp add: validate_gate_status_def Let_def)

definition owned_finding :: "gate_report \<Rightarrow> finding \<Rightarrow> bool" where
  "owned_finding g f \<longleftrightarrow> validate f = None \<and> Gate f = grGate g \<and> Language f = grLanguage g"

definition sound_gate :: "gate_report \<Rightarrow> bool" where
  "sound_gate g \<longleftrightarrow>
     trim_space (grGate g) \<noteq> [] \<and> trim_space (grLanguage g) \<noteq> [] \<and> 0 \<le> grDurationMS g \<and> 0 \<le> grPosition g
     \<and> grBlocking g \<noteq> None \<and> list_all valid_severity (elems (grBlocking g)) \<and> distinct (elems (grBlocking g))
     \<and> grFixPolicy g \<in> {autofix_only, autofix_then_llm, llm_fix, report_only}
     \<and> validate_gate_status g 0 = None \<and> (\<forall>f \<in> set (grFindings g). owned_finding g f)
     \<and> group (grFindings g) = Inr (grFindings g)"

lemma regrouped_iff: "regrouped fs gs \<longleftrightarrow> group fs = Inr gs"
  by (auto simp: regrouped_def equal_findings_def split: sum.splits)

lemma group_empty: "group [] = Inr []"
  by (simp add: group_Inr group_valid_def)

lemma validate_gate_report_None: "validate_gate_report g i = None \<longleftrightarrow> sound_gate g"
proof -
  have "first_error (gate_finding_problem g i) 0 (grFindings g) = None
      \<longleftrightarrow> (\<forall>f \<in> set (grFindings g). owned_finding g f)"
    by (rule first_error_uniform) (simp add: gate_finding_problem_def owned_finding_def)
  moreover have "\<not> (grFindings g \<noteq> [] \<and> \<not> regrouped (grFindings g) (grFindings g))
      \<longleftrightarrow> group (grFindings g) = Inr (grFindings g)"
    by (cases "grFindings g = []") (simp_all add: regrouped_iff group_empty)
  ultimately show ?thesis
    using validate_gate_status_None [of g i]
    by (simp add: validate_gate_report_def sound_gate_def blocking_problem_None not_less)
qed

lemma gates_problem_sound: "gates_problem i prev gs = None \<Longrightarrow> list_all sound_gate gs"
  by (induction i prev gs rule: gates_problem.induct) (simp_all add: validate_gate_report_None)

lemma gates_problem_sorted:
  assumes "list_all sound_gate gs" "list_all placed gs" "sorted_wrt (\<lambda>a b. grPosition a < grPosition b) gs"
    and "\<forall>p. prev = Some p \<longrightarrow> placed p \<and> (\<forall>g \<in> set gs. grPosition p < grPosition g)"
  shows "gates_problem i prev gs = None"
  using assms
proof (induction i prev gs rule: gates_problem.induct)
  case (2 i prev g gs)
  have "compare_gate_reports p g < 0" if "prev = Some p" for p
  proof -
    have "gate_key p < gate_key g" using that "2.prems"(4) by (auto simp: gate_key_def)
    moreover have "placed p" "placed g" using that "2.prems"(2,4) by simp_all
    ultimately show ?thesis using gate_order.less_key [of p g] by (simp add: less_gate_report_def)
  qed
  moreover have "gates_problem (Suc i) (Some g) gs = None" using 2 by simp
  ultimately show ?case
    using "2.prems" by (auto simp: validate_gate_report_None split: option.splits)
qed simp

subsection \<open>The findings of a report\<close>

lemma sound_gate_findings:
  assumes "sound_gate g" "f \<in> set (grFindings g)"
  shows "validate f = None" "File f = normalize_file (File f)"
proof -
  show "validate f = None" using assms by (simp add: sound_gate_def owned_finding_def)
  have "group (grFindings g) = Inr (grFindings g)" using assms(1) by (simp add: sound_gate_def)
  then have "grFindings g = group_valid (grFindings g)" by (simp add: group_Inr)
  with assms(2) have "canonical_finding f" using group_valid_canonical [of f "grFindings g"] by simp
  then show "File f = normalize_file (File f)" by (simp add: canonical_finding_def)
qed

definition all_findings :: "gate_report list \<Rightarrow> finding list" where
  "all_findings gates = concat (map grFindings gates)"

lemma all_findings_sound:
  assumes "list_all sound_gate gates" "f \<in> set (all_findings gates)"
  shows "validate f = None" "File f = normalize_file (File f)"
  using assms sound_gate_findings by (auto simp: all_findings_def list_all_iff)

lemma report_findings_valid:
  assumes "list_all sound_gate gates" "g \<in> set (group_valid (all_findings gates))"
  shows "validate g = None"
proof (rule group_valid_validates [OF _ assms(2)])
  show "\<forall>f \<in> set (all_findings gates). validate f = None" using all_findings_sound(1) [OF assms(1)] by blast
  from group_valid_member(1) [OF assms(2)] obtain f where f: "f \<in> set (all_findings gates)"
    "File g = normalize_file (File f)" by blast
  have "validate f = None" "File f = normalize_file (File f)" using all_findings_sound [OF assms(1) f(1)] .
  then show "parse_path (File g) = Inr (File g)"
    using f(2) by (simp add: validate_None good_identity_def)
qed

lemma all_findings_mset: "mset gates = mset gates' \<Longrightarrow> mset (all_findings gates) = mset (all_findings gates')"
proof -
  assume eq: "mset gates = mset gates'"
  have "mset (all_findings gs) = sum_mset (image_mset (mset \<circ> grFindings) (mset gs))" for gs
    by (simp add: all_findings_def mset_concat sum_mset_sum_list [symmetric] comp_def flip: mset_map)
  with eq show ?thesis by simp
qed

subsection \<open>Verdicts and exit codes\<close>

lemma verdicts_distinct [simp]:
  "verdict_unverified \<noteq> verdict_findings" "verdict_unverified \<noteq> verdict_blocked" "verdict_unverified \<noteq> verdict_rails" "verdict_unverified \<noteq> verdict_errored" "verdict_unverified \<noteq> verdict_unsealed"
  "verdict_findings \<noteq> verdict_unverified" "verdict_findings \<noteq> verdict_blocked" "verdict_findings \<noteq> verdict_rails" "verdict_findings \<noteq> verdict_errored" "verdict_findings \<noteq> verdict_unsealed"
  "verdict_blocked \<noteq> verdict_unverified" "verdict_blocked \<noteq> verdict_findings" "verdict_blocked \<noteq> verdict_rails" "verdict_blocked \<noteq> verdict_errored" "verdict_blocked \<noteq> verdict_unsealed"
  "verdict_rails \<noteq> verdict_unverified" "verdict_rails \<noteq> verdict_findings" "verdict_rails \<noteq> verdict_blocked" "verdict_rails \<noteq> verdict_errored" "verdict_rails \<noteq> verdict_unsealed"
  "verdict_errored \<noteq> verdict_unverified" "verdict_errored \<noteq> verdict_findings" "verdict_errored \<noteq> verdict_blocked" "verdict_errored \<noteq> verdict_rails" "verdict_errored \<noteq> verdict_unsealed"
  "verdict_unsealed \<noteq> verdict_unverified" "verdict_unsealed \<noteq> verdict_findings" "verdict_unsealed \<noteq> verdict_blocked" "verdict_unsealed \<noteq> verdict_rails" "verdict_unsealed \<noteq> verdict_errored"
  by (simp_all add: verdict_findings_def verdict_unverified_def verdict_errored_def verdict_blocked_def
      verdict_rails_def verdict_unsealed_def)

text \<open>The verdict as what it says of the gates.\<close>

definition some_errored :: "gate_report list \<Rightarrow> bool" where
  "some_errored gates \<longleftrightarrow> (\<exists>g \<in> set gates. grStatus g = gate_errored)"

definition some_blocking :: "gate_report list \<Rightarrow> bool" where
  "some_blocking gates \<longleftrightarrow> (\<exists>g \<in> set gates. \<exists>f \<in> set (grFindings g). blocks g f)"

lemma verdict_for_cases:
  "verdict_for gates =
     (if some_errored gates then verdict_errored else if some_blocking gates then verdict_findings
      else verdict_unverified)"
  by (simp add: verdict_for_def some_errored_def some_blocking_def)

lemma exit_codes [simp]:
  "exit_code verdict_errored = 4" "exit_code verdict_findings = 1" "exit_code verdict_unverified = 5"
  by (simp_all add: exit_code_def)

subsection \<open>Composition is accepted\<close>

lemma composed_gates_valid:
  assumes "list_all sound_gate gates" "list_all placed gates" "distinct (map grPosition gates)"
  shows "gates_problem 0 None (sort_by less_gate_report gates) = None"
proof (rule gates_problem_sorted)
  show "list_all sound_gate (sort_by less_gate_report gates)" "list_all placed (sort_by less_gate_report gates)"
    using assms(1,2) by (simp_all add: list_all_iff)
  show "sorted_wrt (\<lambda>a b. grPosition a < grPosition b) (sort_by less_gate_report gates)"
    using assms(2,3) by (intro gates_in_order) (simp_all add: list_all_iff)
qed simp

lemma composed_findings:
  assumes "list_all sound_gate gates" "collision_free (all_findings gates)"
  shows "group (all_findings gates) = Inr (group_valid (all_findings gates))"
    "group (all_findings (sort_by less_gate_report gates)) = Inr (group_valid (all_findings gates))"
proof -
  let ?s = "sort_by less_gate_report gates"
  have val: "\<forall>f \<in> set (all_findings gates). validate f = None" using all_findings_sound(1) [OF assms(1)] by blast
  then show "group (all_findings gates) = Inr (group_valid (all_findings gates))" by (simp add: group_Inr)
  have eq: "mset (all_findings gates) = mset (all_findings ?s)" by (rule all_findings_mset) simp
  have "group_valid (all_findings gates) = group_valid (all_findings ?s)"
    using val by (intro group_valid_perm [OF eq assms(2)]) (simp add: validate_severity)
  moreover have "set (all_findings gates) = set (all_findings ?s)" using eq by (metis set_mset_mset)
  ultimately show "group (all_findings ?s) = Inr (group_valid (all_findings gates))"
    using val by (simp add: group_Inr)
qed

text \<open>
  Composing the report of a report-only run never fails on the run's own results: valid gate reports at
  distinct positions compose to a report that the validation of the ledger accepts.
\<close>

lemma composed_accepted:
  assumes "validate_diff d = None" "gates \<noteq> []" "list_all (\<lambda>g. validate_gate_report g 0 = None) gates"
    and "list_all placed gates" "distinct (map grPosition gates)" "collision_free (all_findings gates)"
    and "valid_key repo_id" "0 < started"
  shows "\<exists>r. compose_report run_id repo_id started finished d gates = Inr r
    \<and> validate_report r run_id = None
    \<and> mset (repGates r) = mset gates \<and> sorted_wrt (\<lambda>a b. grPosition a < grPosition b) (repGates r)
    \<and> group (all_findings gates) = Inr (elems (repFindings r))
    \<and> resolve_exit (Some (Coded (Some (exit_code (repVerdict r)))))
       = (if some_errored gates then 4 else if some_blocking gates then 1 else 5)"
proof -
  have sound: "list_all sound_gate gates" using assms(3) by (simp add: validate_gate_report_None)
  let ?s = "sort_by less_gate_report gates" and ?gs = "group_valid (all_findings gates)"
  note groups = composed_findings [OF sound assms(6)]
  let ?r = "\<lparr>repSchemaVersion = report_schema_version, repRunID = run_id, repRepoID = repo_id,
     repDiff = diff_report_of d, repStartedAt = started,
     repFinishedAt = (if finished < started then started else finished),
     repVerdict = verdict_for ?s, repGates = ?s, repFindings = Some ?gs,
     repCounts = count_findings no_counts ?gs, repFix = None\<rparr>"
  have verdict: "verdict_for ?s \<in> {verdict_errored, verdict_findings, verdict_unverified}"
    by (simp add: verdict_for_cases)
  have "validate_diff_report (diff_report_of d) = None" using assms(1) by (simp add: validate_diff_def)
  then have "validate_report_header ?r run_id = None"
    using verdict assms(2,7,8) by (auto simp: validate_report_header_def Let_def)
  moreover have "gates_problem 0 None ?s = None" using sound assms(4,5) by (rule composed_gates_valid)
  moreover have "validate_report_summary ?r (all_findings ?s) = None"
  proof -
    have "first_error (\<lambda>i f. fails (validate f \<noteq> None) ''finding is invalid'' [i]) 0 ?gs = None
        \<longleftrightarrow> (\<forall>f \<in> set ?gs. validate f = None)" by (rule first_error_uniform) simp
    then have "first_error (\<lambda>i f. fails (validate f \<noteq> None) ''finding is invalid'' [i]) 0 ?gs = None"
      using report_findings_valid [OF sound] by simp
    then show ?thesis using groups(2) by (simp add: validate_report_summary_def Let_def regrouped_iff)
  qed
  ultimately have valid: "validate_report ?r run_id = None"
    by (simp add: validate_report_def all_findings_def)
  then have "compose_report run_id repo_id started finished d gates = Inr ?r"
    using groups(1) by (simp add: compose_report_def assms(1) all_findings_def Let_def)
  moreover have "verdict_for ?s = verdict_for gates" by (simp add: verdict_for_def)
  ultimately show ?thesis
    using valid groups(1) gates_in_order [of gates] assms(4,5)
    by (auto simp: verdict_for_cases resolve_exit_def list_all_iff)
qed

definition sample_gate_report :: gate_report where
  "sample_gate_report = \<lparr>grGate = ''vet'', grLanguage = ''go'', grBlocking = Some [sev_error],
     grFixPolicy = report_only, grPosition = 0, grStatus = gate_passed, grFindings = [], grDurationMS = 3,
     grObservedVersion = [], grWarnings = [], grError = []\<rparr>"

lemma sample_gate_valid: "validate_gate_report sample_gate_report 0 = None"
proof -
  have "trim_space ''vet'' = ''vet''" "trim_space ''go'' = ''go''"
    by (rule trim_space_plain; simp add: plain_ends_def is_space_def byte_def)+
  then show ?thesis
    by (simp add: validate_gate_report_None sound_gate_def sample_gate_report_def validate_gate_status_def
        group_empty valid_severity_def)
qed

lemma demo_diff_valid: "validate_diff demo_diff = None"
proof -
  have id: "valid_object_id_string demo_id"
    by (simp add: valid_object_id_string_def demo_id_def byte_def list_all_length)
  have "validate_changed_lines [(''x'', [\<lparr>Start = 1, End = 2\<rparr>])] = None"
    by (simp add: validate_changed_lines_def path_eval bad_range_def)
  then show ?thesis
    using demo_base id
    by (simp add: validate_diff_def validate_diff_report_def diff_report_of_def demo_diff_def is_control_def byte_def
        max_int_def)
qed

subsection \<open>A resolved diff is accepted\<close>

lemma object_id_string: "parse_object_id out = Inr v \<Longrightarrow> valid_object_id_string v"
proof -
  assume ok: "parse_object_id out = Inr v"
  then have len: "length v = 40 \<or> length v = 64"
    and r: "list_all (\<lambda>r. \<not> (r < 48 \<or> (r > 57 \<and> r < 97) \<or> r > 102)) (runes v)"
    by (auto simp: parse_object_id_def list_all_iff split: sum.splits if_split_asm)
  from r have "list_all (\<lambda>c. \<not> (byte c < 48 \<or> (byte c > 57 \<and> byte c < 97) \<or> byte c > 102)) v"
    by (subst (asm) runes_all) auto
  with len show ?thesis by (simp add: valid_object_id_string_def)
qed

lemma count_ranges_sound:
  assumes "list_all proper_range rs" "sorted_wrt apart rs" "0 \<le> n"
    and "n + (\<Sum>r \<leftarrow> rs. End r - Start r + 1) \<le> max_int"
    and "\<forall>p. previous = Some p \<longrightarrow> (\<forall>r \<in> set rs. apart p r)"
  shows "count_ranges previous rs n = Inr (n + (\<Sum>r \<leftarrow> rs. End r - Start r + 1))"
  using assms
proof (induction previous rs n rule: count_ranges.induct)
  case (2 previous r rs n)
  have nonneg: "0 \<le> (\<Sum>r \<leftarrow> rs. End r - Start r + 1)"
    using "2.prems"(1) by (intro sum_list_nonneg) (auto simp: list_all_iff proper_range_def)
  have one: "1 \<le> End r - Start r + 1" using "2.prems"(1) by (simp add: proper_range_def)
  have order: "\<not> (case previous of None \<Rightarrow> False
      | Some p \<Rightarrow> Start r \<le> End p \<or> (End p < max_int \<and> Start r = End p + 1))"
    using "2.prems"(5) by (auto simp: apart_def split: option.splits)
  have room: "\<not> n > max_int - (End r - Start r + 1)" using "2.prems"(4) nonneg by simp
  have "count_ranges (Some r) rs (n + (End r - Start r + 1))
      = Inr (n + (End r - Start r + 1) + (\<Sum>r \<leftarrow> rs. End r - Start r + 1))"
    using "2.prems" one by (intro "2.IH" [OF order room]) simp_all
  then show ?case by (simp only: count_ranges.simps if_not_P [OF order] if_not_P [OF room]) simp
qed simp

lemma count_changed_sound:
  "list_all sound_entry ch \<Longrightarrow> 0 \<le> n \<Longrightarrow> n + lines_sum ch \<le> max_int \<Longrightarrow>
     count_changed ch n = Inr (n + lines_sum ch)"
proof (induction ch arbitrary: n)
  case (Cons e ch)
  obtain p rs where e: "e = (p, rs)" by (cases e)
  have sound: "list_all proper_range rs" "sorted_wrt apart rs" using Cons.prems(1) by (simp_all add: e sound_entry_def)
  note card = card_lines_apart [OF sound]
  have rest: "0 \<le> lines_sum ch" unfolding lines_sum_def by (intro sum_list_nonneg) auto
  have "n + (\<Sum>r \<leftarrow> rs. End r - Start r + 1) \<le> max_int"
    using Cons.prems(3) rest card by (simp add: e lines_sum_def)
  with sound Cons.prems(2) have "count_ranges None rs n = Inr (n + int (card (lines_of rs)))"
    by (subst count_ranges_sound) (simp_all add: card)
  with Cons show ?case by (simp add: e lines_sum_def algebra_simps)
qed (simp add: lines_sum_def)

text \<open>
  The run never rejects the diff it resolved: a diff that resolves passes the validation the run
  applies to it before any gate is executed, provided its base name has no control characters beyond
  ASCII, Git uses one length of object IDs and fewer than 2^63 lines changed.
\<close>

theorem resolved_diff_reportable:
  assumes "git_output_limited R" and "resolve_diff R root requested s = (Inr d, s')"
    and "\<not> list_ex is_control (runes (diffBaseRef d))"
    and "length (diffBaseCommit d) = length (diffHead d)" "length (diffMergeBase d) = length (diffHead d)"
    and "lines_sum (diffLines d) \<le> max_int"
  shows "validate_diff d = None"
proof -
  note facts = resolved_diff_facts [OF assms(1,2)]
  have sum: "diffChangedLines d = lines_sum (diffLines d)"
  proof -
    have "0 \<le> lines_sum (diffLines d)" unfolding lines_sum_def by (intro sum_list_nonneg) auto
    with facts(9) assms(6) show ?thesis by (simp add: wrap64_id max_int_def)
  qed
  have none: "0 < diffChangedFiles d \<or> lines_sum (diffLines d) = 0"
    using facts(8) by (cases "diffLines d") (simp_all add: lines_sum_def)
  have nonneg: "0 \<le> lines_sum (diffLines d)" unfolding lines_sum_def by (intro sum_list_nonneg) auto
  have "validate_diff_report (diff_report_of d) = None"
    using facts(4) assms(3-5) object_id_string [OF facts(1)] object_id_string [OF facts(2)]
      object_id_string [OF facts(3)] nonneg none
    by (simp add: validate_diff_report_def diff_report_of_def sum)
  moreover have "count_changed (diffLines d) 0 = Inr (diffChangedLines d)"
    using count_changed_sound [OF facts(7), of 0] assms(6) by (simp add: sum)
  ultimately show ?thesis using facts(5,8) by (simp add: validate_diff_def)
qed

lemma resolved_diff_reportable_witness:
  "validate_diff demo_diff = None \<and> fst (resolve_diff demo_repo ''/r'' ''m'' demo_start) = Inr demo_diff"
proof
  show resolves: "fst (resolve_diff demo_repo ''/r'' ''m'' demo_start) = Inr demo_diff" by (rule demo_resolves)
  show "validate_diff demo_diff = None"
  proof (rule resolved_diff_reportable [OF demo_repo_limited])
    show "resolve_diff demo_repo ''/r'' ''m'' demo_start
        = (Inr demo_diff, snd (resolve_diff demo_repo ''/r'' ''m'' demo_start))"
      using resolves by (simp add: prod_eq_iff)
    show "\<not> list_ex is_control (runes (diffBaseRef demo_diff))"
      by (simp add: demo_diff_def is_control_def byte_def)
  qed (simp_all add: demo_diff_def lines_sum_def lines_of_def max_int_def)
qed


subsection \<open>What a fix report proves\<close>

lemma group_nonempty: "fs \<noteq> [] \<Longrightarrow> group_valid fs \<noteq> []"
  using group_valid_set [of fs] by (cases fs) auto

lemma no_blocking_findings:
  assumes "list_all sound_gate gates" "blocking_findings gates = []"
  shows "\<not> some_blocking gates"
proof
  let ?fs = "concat (map (\<lambda>g. filter (blocks g) (grFindings g)) gates)"
  assume "some_blocking gates"
  then obtain g f where gf: "g \<in> set gates" "f \<in> set (grFindings g)" "blocks g f"
    by (auto simp: some_blocking_def)
  then have "f \<in> set ?fs" by auto
  then have "?fs \<noteq> []" by (metis empty_iff empty_set)
  moreover have "\<forall>f \<in> set ?fs. validate f = None"
    using assms(1) sound_gate_findings(1) by (auto simp: list_all_iff)
  ultimately have "group ?fs = Inr (group_valid ?fs)" "group_valid ?fs \<noteq> []"
    by (simp_all add: group_Inr group_nonempty)
  with assms(2) show False by (simp add: blocking_findings_def)
qed

lemma suite_statuses [simp]:
  "suite_passed \<noteq> suite_failed" "suite_passed \<noteq> suite_missing" "suite_passed \<noteq> suite_errored"
  by (simp_all add: suite_passed_def suite_failed_def suite_missing_def suite_errored_def)

definition proven_batch :: "nat \<Rightarrow> batch \<Rightarrow> bool" where
  "proven_batch id_length b \<longleftrightarrow>
     batchStatus b = BatchDone \<longrightarrow>
       batchAttempts b \<noteq> [] \<and> attStatus (last (batchAttempts b)) = AttemptPassed
       \<and> attChangedFiles (last (batchAttempts b)) \<noteq> []
       \<and> valid_object_id_string (attCommit (last (batchAttempts b)))
       \<and> length (attCommit (last (batchAttempts b))) = id_length"

lemma batch_problem_proven:
  assumes "batch_problem id_length i b = None"
  shows "proven_batch id_length b"
proof -
  let ?a = "last (batchAttempts b)" and ?k = "length (batchAttempts b) - 1"
  from assms have att: "first_error (attempt_problem id_length i) 0 (batchAttempts b) = None"
    and fin: "batchStatus b = BatchDone \<Longrightarrow> batchAttempts b \<noteq> [] \<and> attStatus ?a = AttemptPassed"
    by (simp_all add: batch_problem_def Let_def)
  have "attempt_problem id_length i ?k ?a = None" if "batchAttempts b \<noteq> []"
    using att that by (auto simp: first_error_None last_conv_nth)
  with fin show ?thesis
    by (auto simp: proven_batch_def attempt_problem_def valid_object_id_string_def)
qed

lemma batches_problem_proven:
  "batches_problem id_length i seen bs = None \<Longrightarrow>
     list_all (proven_batch id_length) bs \<and> distinct (map batchName bs) \<and> batchName ` set bs \<inter> set seen = {}"
  by (induction id_length i seen bs rule: batches_problem.induct)
    (auto split: if_split_asm option.split_asm dest: batch_problem_proven)

text \<open>
  C35: A report that says a fix succeeded has the evidence: every report the ledger accepts, whether it
  writes it or reads it back, with the verdict that only the sealing step is missing has a passed
  baseline, no errored gate, no finding of a blocking severity in any gate, no integrity finding, no
  final suite that did not pass, a landing that completed or was not needed, and every batch it calls
  done ends in a passed attempt with changed files and a commit.
\<close>

theorem unsealed_report_has_evidence:
  assumes "validate_report r run_id = None" and "repVerdict r = verdict_unsealed"
  shows "\<exists>f. repFix r = Some f
    \<and> srStatus (frBaseline f) = suite_passed
    \<and> (frFinal f = None \<or> (\<exists>s. frFinal f = Some s \<and> srStatus s = suite_passed))
    \<and> \<not> some_errored (repGates r) \<and> \<not> some_blocking (repGates r)
    \<and> elems (frIntegrity f) = []
    \<and> lrStatus (frLanding f) \<in> {landing_complete, landing_not_needed}
    \<and> list_all (proven_batch (length (drHead (repDiff r)))) (elems (frBatches f))
    \<and> distinct (map batchName (elems (frBatches f)))"
proof -
  from assms(1) have header: "validate_report_header r run_id = None" and gates: "gates_problem 0 None (repGates r) = None"
    by (simp_all add: validate_report_def)
  from header assms(2) obtain f where f: "repFix r = Some f"
    "validate_fix_report f (repDiff r) verdict_unsealed (repGates r) (repRunID r) = None"
    by (cases "repFix r") (auto simp: validate_report_header_def Let_def)
  from f(2) have parts: "fix_parts f (repDiff r) verdict_unsealed = None"
    and no_error: "\<not> gates_errored (repGates r)"
    and sealed: "srStatus (frBaseline f) = suite_passed" "blocking_findings (repGates r) = []"
      "elems (frIntegrity f) = []" "\<not> (case frFinal f of None \<Rightarrow> False | Some s \<Rightarrow> srStatus s \<noteq> suite_passed)"
      "lrStatus (frLanding f) = landing_complete \<or> lrStatus (frLanding f) = landing_not_needed"
    unfolding validate_fix_report_def Let_def by (simp_all del: fails_None add: fails_def split: if_split_asm)
  have "validate_fix_batches (elems (frBatches f)) (length (drHead (repDiff r))) = None"
    using parts by (simp add: fix_parts_def Let_def)
  then have "list_all (proven_batch (length (drHead (repDiff r)))) (elems (frBatches f))
      \<and> distinct (map batchName (elems (frBatches f)))"
    using batches_problem_proven by (fastforce simp: validate_fix_batches_def)
  moreover have "\<not> some_errored (repGates r)"
    using no_error by (auto simp: gates_errored_def errored_gate_names_def some_errored_def filter_empty_conv)
  moreover have "\<not> some_blocking (repGates r)"
    by (rule no_blocking_findings [OF gates_problem_sound [OF gates] sealed(2)])
  moreover have "frFinal f = None \<or> (\<exists>s. frFinal f = Some s \<and> srStatus s = suite_passed)"
    using sealed(4) by (cases "frFinal f") auto
  ultimately show ?thesis using f(1) sealed(1,3,5) by (intro exI [of _ f]) simp
qed

definition sample_suite :: suite_result where
  "sample_suite = \<lparr>srCommand = [''go'', ''test'', ''./...''], srPackages = [], srStatus = suite_passed,
     srDurationMS = 9, srDiagnostic = []\<rparr>"

definition sample_fix_report :: fix_report where
  "sample_fix_report = \<lparr>frOriginalHead = demo_id, frFeatureBranch = ''f'',
     frAgent = \<lparr>arName = ''a'', arUsage = None\<rparr>, frBaseline = sample_suite, frFinal = None,
     frRails = \<lparr>rrMaxIterations = 5, rrIterations = 0, rrMaxWallClockMS = 9, rrElapsedMS = 1\<rparr>,
     frBatches = Some [], frIntegrity = Some [],
     frLanding = \<lparr>lrStatus = landing_not_needed, lrCommit = [], lrPreservedBranch = [], lrError = []\<rparr>\<rparr>"

definition sample_sealed_report :: report where
  "sample_sealed_report = \<lparr>repSchemaVersion = report_schema_version, repRunID = ''run'', repRepoID = demo_id,
     repDiff = diff_report_of demo_diff, repStartedAt = 5, repFinishedAt = 7, repVerdict = verdict_unsealed,
     repGates = [sample_gate_report], repFindings = Some [], repCounts = no_counts, repFix = Some sample_fix_report\<rparr>"

lemma demo_id_strings: "valid_object_id_string demo_id \<and> valid_key demo_id"
proof -
  have "runes (replicate n (CHR ''a'')) = replicate n 97" for n
    by (induction n) (simp_all add: byte_def)
  then show ?thesis
    by (simp add: valid_object_id_string_def valid_key_def demo_id_def byte_def list_all_length)
qed

lemma unsealed_report_has_evidence_witness:
  "validate_report sample_sealed_report ''run'' = None \<and> \<not> some_blocking (repGates sample_sealed_report)"
proof -
  have gate: "grFindings sample_gate_report = []" "grStatus sample_gate_report = gate_passed"
    by (simp_all add: sample_gate_report_def)
  have quiet: "\<not> gates_errored [sample_gate_report]" "blocking_findings [sample_gate_report] = []"
    by (simp_all add: gates_errored_def errored_gate_names_def blocking_findings_def gate group_empty
        gate_errored_def gate_passed_def)
  have trims: "trim_space ''f'' = ''f''" "trim_space ''a'' = ''a''"
    by (rule trim_space_plain; simp add: plain_ends_def is_space_def byte_def)+
  have "fix_parts sample_fix_report (diff_report_of demo_diff) verdict_unsealed = None"
    using demo_id_strings trims
    by (simp add: fix_parts_def Let_def sample_fix_report_def diff_report_of_def demo_diff_def contains_any_def
        line_breaks_def nul_byte_def cr_def lf_def usage_problem_def validate_suite_report_def sample_suite_def
        validate_fix_batches_def regrouped_iff group_empty)
  moreover have "landing_problem (frLanding sample_fix_report) (diff_report_of demo_diff) verdict_unsealed ''run'' = None"
    by (simp add: landing_problem_def sample_fix_report_def contains_any_def landing_not_needed_def
        landing_complete_def landing_blocked_def)
  ultimately have "validate_fix_report sample_fix_report (diff_report_of demo_diff) verdict_unsealed
      [sample_gate_report] ''run'' = None"
    using quiet by (simp add: validate_fix_report_def Let_def) (simp add: sample_fix_report_def baseline_problem_def
        final_problem_def sample_suite_def)
  then have "validate_report_header sample_sealed_report ''run'' = None"
    using demo_diff_valid demo_id_strings
    by (simp add: validate_report_header_def sample_sealed_report_def validate_diff_def Let_def)
  moreover have "gates_problem 0 None [sample_gate_report] = None" using sample_gate_valid by simp
  moreover have "validate_report_summary sample_sealed_report [] = None"
    by (simp add: validate_report_summary_def sample_sealed_report_def regrouped_iff group_empty Let_def)
  ultimately have "validate_report sample_sealed_report ''run'' = None"
    by (simp add: validate_report_def) (simp add: sample_sealed_report_def gate)
  moreover have "\<not> some_blocking (repGates sample_sealed_report)"
    using unsealed_report_has_evidence [OF calculation] by (auto simp: sample_sealed_report_def)
  ultimately show ?thesis ..
qed


end
