(* ===== verification/NormalizerFacts.thy ===== *)
theory NormalizerFacts
  imports Normalizers
begin

text \<open>
  What the normalizers return: the line that a finding points to is the line of the file, and every
  finding is valid, of the right gate and language, and at a path that grouping keeps.
\<close>

subsection \<open>The lines of a file\<close>

definition source_lines :: "gostring \<Rightarrow> gostring list" where
  "source_lines s =
     (let p = split_on lf s in map without_line_terminator (if last p = [] then butlast p else p))"

definition fits_snippet :: "gostring \<Rightarrow> bool" where
  "fits_snippet l \<longleftrightarrow> int (length l) \<le> max_snippet_bytes"

lemma source_lines_end: "lf \<notin> set s \<Longrightarrow> source_lines s = (if s = [] then [] else [without_line_terminator s])"
  by (simp add: source_lines_def Let_def split_on_no_sep)

lemma source_lines_next:
  assumes "lf \<notin> set h"
  shows "source_lines (h @ lf # s) = without_line_terminator h # source_lines s"
proof -
  have "split_on lf (h @ lf # s) = h # split_on lf s" by (rule split_on_append [OF assms])
  then show ?thesis by (simp add: source_lines_def Let_def)
qed

lemma terminator_feed: "without_line_terminator (h @ [lf]) = without_line_terminator h"
  if "lf \<notin> set h"
proof -
  have "h = [] \<or> last h \<noteq> lf" using that by (metis last_in_set)
  then show ?thesis by (auto simp: without_line_terminator_def Let_def)
qed

lemma terminator_length: "int (length l) \<le> int (length (without_line_terminator l)) + 1" if "lf \<notin> set l"
proof -
  have "l = [] \<or> last l \<noteq> lf" using that by (metis last_in_set)
  then show ?thesis by (auto simp: without_line_terminator_def Let_def)
qed

lemma read_slice_cases:
  obtains (line) h rest where "s = h @ lf # rest" "lf \<notin> set h"
      "read_slice s = (if int (length h) + 1 \<le> max_snippet_bytes + 2 then Some (h @ [lf], rest, False) else None)"
  | (final) "lf \<notin> set s"
      "read_slice s = (if int (length s) < max_snippet_bytes + 2 then Some (s, [], True) else None)"
proof (cases "lf \<in> set s")
  case True
  then obtain h rest where s: "s = h @ lf # rest" "lf \<notin> set h" by (meson split_list_first)
  have "takeWhile (\<lambda>c. c \<noteq> lf) s = h" "dropWhile (\<lambda>c. c \<noteq> lf) s = lf # rest"
    using s by (auto simp: takeWhile_append dropWhile_append)
  then show thesis using line s by (simp add: read_slice_def Let_def)
next
  case False
  then have "takeWhile (\<lambda>c. c \<noteq> lf) s = s" "dropWhile (\<lambda>c. c \<noteq> lf) s = []"
    by (auto simp: takeWhile_eq_all_conv dropWhile_eq_Nil_conv)
  then have "read_slice s = (if int (length s) < max_snippet_bytes + 2 then Some (s, [], True) else None)"
    unfolding read_slice_def Let_def by (simp only:) simp
  then show thesis by (rule final [OF False])
qed

lemma line_step:
  assumes "s = h @ lf # rest" "lf \<notin> set h"
  shows "line_from_reader current s wanted =
    (let l = without_line_terminator h in
     if \<not> fits_snippet l then Inl LineTooLong
     else if current = wanted then (if valid_utf8 l then Inr l else Inl InvalidUTF8)
     else line_from_reader (current + 1) rest wanted)"
proof (cases s rule: read_slice_cases)
  case (line h' rest')
  have "h' = takeWhile (\<lambda>c. c \<noteq> lf) s" using line(1,2) by (auto simp: takeWhile_append)
  also have "\<dots> = h" using assms by (auto simp: takeWhile_append)
  finally have eq: "h' = h" "rest' = rest" using line(1) assms(1) by simp_all
  show ?thesis
  proof (cases "int (length h) + 1 \<le> max_snippet_bytes + 2")
    case True
    then have "read_slice s = Some (h @ [lf], rest, False)" using line(3) eq by simp
    then show ?thesis
      using terminator_feed [OF assms(2)]
      by (subst line_from_reader.simps) (simp add: fits_snippet_def not_le Let_def)
  next
    case False
    then have "read_slice s = None" using line(3) eq by simp
    moreover have "\<not> fits_snippet (without_line_terminator h)"
      using terminator_length [OF assms(2)] False assms(2) by (simp add: fits_snippet_def)
    ultimately show ?thesis by (subst line_from_reader.simps) (simp add: Let_def)
  qed
next
  case final
  with assms show ?thesis by simp
qed

lemma line_final:
  assumes "lf \<notin> set s"
  shows "line_from_reader current s wanted =
    (let l = without_line_terminator s in
     if s = [] then Inl LinePastEOF
     else if \<not> fits_snippet l then Inl LineTooLong
     else if current = wanted then (if valid_utf8 l then Inr l else Inl InvalidUTF8)
     else Inl LinePastEOF)"
proof (cases s rule: read_slice_cases)
  case (line h' rest')
  with assms show ?thesis by simp
next
  case final
  show ?thesis
  proof (cases "int (length s) < max_snippet_bytes + 2")
    case True
    then have "read_slice s = Some (s, [], True)" using final(2) by simp
    then show ?thesis by (subst line_from_reader.simps) (simp add: fits_snippet_def not_le Let_def)
  next
    case False
    then have "read_slice s = None" using final(2) by simp
    moreover have "\<not> fits_snippet (without_line_terminator s)" "s \<noteq> []"
      using terminator_length [OF assms] False by (auto simp: fits_snippet_def max_snippet_bytes_def)
    ultimately show ?thesis by (subst line_from_reader.simps) (simp add: Let_def)
  qed
qed

lemma line_from_reader_iff:
  "line_from_reader current s (current + int k) = Inr l \<longleftrightarrow>
     k < length (source_lines s) \<and> list_all fits_snippet (take (Suc k) (source_lines s))
     \<and> l = source_lines s ! k \<and> valid_utf8 l"
proof (induction "length s" arbitrary: current s k rule: less_induct)
  case less
  show ?case
  proof (cases "lf \<in> set s")
    case False
    show ?thesis
      by (cases k) (auto simp: line_final [OF False] source_lines_end [OF False] Let_def)
  next
    case True
    then obtain h rest where s: "s = h @ lf # rest" "lf \<notin> set h" by (meson split_list_first)
    note lines = source_lines_next [OF s(2), of rest] and step = line_step [OF refl s(2)]
    show ?thesis
    proof (cases k)
      case 0
      then show ?thesis by (auto simp: step lines s(1) Let_def)
    next
      case (Suc j)
      have shift: "current + int k = current + 1 + int j" using Suc by simp
      have "line_from_reader (current + 1) rest (current + int k) = Inr l \<longleftrightarrow>
          j < length (source_lines rest) \<and> list_all fits_snippet (take (Suc j) (source_lines rest))
          \<and> l = source_lines rest ! j \<and> valid_utf8 l"
        unfolding shift by (rule less) (simp add: s(1))
      then show ?thesis by (simp add: step Suc lines s(1) Let_def)
    qed
  qed
qed

text \<open>
  C36: The streaming reader returns exactly the numbered line: reading line n of a file succeeds when,
  and only when, the file has n lines, none of the first n is longer than 64 KiB and line n is valid
  UTF-8, and then the result is line n without its line feed and carriage return. A final line
  without a line feed counts, an empty text after the last line feed does not, and the reader returns
  on every input.
\<close>

theorem source_line_exact:
  "line_from_reader 1 contents (int k + 1) = Inr l \<longleftrightarrow>
     k < length (source_lines contents) \<and> list_all fits_snippet (take (Suc k) (source_lines contents))
     \<and> l = source_lines contents ! k \<and> valid_utf8 l"
  using line_from_reader_iff [of 1 contents k l] by (simp add: add.commute)

subsection \<open>The findings\<close>

text \<open>What \<open>NewPath\<close> mints, \<open>ParsePath\<close> accepts again and leaves as it is.\<close>

lemma path_clean_join: "clean_form False cs \<Longrightarrow> cs \<noteq> [] \<Longrightarrow> path_clean (join [slash] cs) = join [slash] cs"
proof -
  assume form: "clean_form False cs" and ne: "cs \<noteq> []"
  note split = clean_form_join(1) [OF form ne]
  have "join [slash] cs \<noteq> []"
  proof
    assume "join [slash] cs = []"
    with split have "cs = [[]]" by simp
    with form show False by (simp add: clean_form_def)
  qed
  moreover have "clean_comps False [] cs = cs" using clean_comps_id [of False "[]" cs] form by simp
  ultimately show ?thesis using clean_form_join(2) [OF form] split ne by (simp add: path_clean_rel)
qed

lemma strip_common_suffix: "strip_common bs ts = (bs', ts') \<Longrightarrow> \<exists>us. ts = us @ ts'"
proof (induction bs ts rule: strip_common.induct)
  case (1 b bs t ts)
  show ?case
  proof (cases "b = t")
    case True
    with 1 obtain us where "ts = us @ ts'" by auto
    then show ?thesis by (intro exI [of _ "t # us"]) simp
  qed (use 1 in auto)
qed auto

lemma path_rel_inside:
  assumes "path_rel root p = Some r" "is_abs p" "r \<noteq> dotdot" "\<not> has_prefix r (dotdot @ [slash])" "r \<noteq> []"
  shows "path_clean r = r"
proof (cases "path_clean root = path_clean p")
  case True
  with assms(1) have "r = dot" by (simp add: path_rel_def)
  then show ?thesis by (simp add: path_clean_def dot_def dotdot_def is_abs_def slash_def Let_def)
next
  case False
  with assms(1) obtain bs ts where st: "strip_common (abs_comps root) (abs_comps p) = (bs, ts)"
    and r: "r = join [slash] (replicate (length bs) dotdot @ ts)"
    by (auto simp: path_rel_def split: if_split_asm prod.split_asm)
  have "bs = []"
  proof (rule ccontr)
    assume "bs \<noteq> []"
    then obtain n where n: "length bs = Suc n" by (cases bs) auto
    have up: "join [slash] (dotdot # cs) = dotdot \<or> has_prefix (join [slash] (dotdot # cs)) (dotdot @ [slash])" for cs
      by (cases cs) (simp_all add: has_prefix_def dotdot_def)
    have "r = join [slash] (dotdot # (replicate n dotdot @ ts))" unfolding r n by simp
    with up [of "replicate n dotdot @ ts"] assms(3,4) show False by blast
  qed
  then have r: "r = join [slash] ts" using r by simp
  obtain us where us: "abs_comps p = us @ ts" using strip_common_suffix [OF st] by blast
  have "clean_form True (abs_comps p)" using clean_form_split [of True p] assms(2) by (simp add: abs_comps_def)
  then have ts: "\<forall>c \<in> set ts. c \<noteq> [] \<and> c \<noteq> dot \<and> slash \<notin> set c" "dotdot \<notin> set ts"
    using us by (auto simp: clean_form_def)
  have "ups_first cs" if "dotdot \<notin> set cs" for cs using that by (cases cs) auto
  with ts have "clean_form False ts" by (auto simp: clean_form_def)
  moreover have "ts \<noteq> []" using assms(5) r by auto
  ultimately show ?thesis unfolding r by (rule path_clean_join)
qed

lemma new_path_closed: "new_path root reported = Inr q \<Longrightarrow> parse_path q = Inr q"
proof -
  assume ok: "new_path root reported = Inr q"
  let ?c = "path_clean reported"
  from ok obtain rel where rel: "parse_path rel = Inr q"
    and inside: "(if is_abs ?c then (case path_rel root ?c of None \<Rightarrow> None
       | Some r \<Rightarrow> if r = dotdot \<or> has_prefix r (dotdot @ [slash]) then None else Some r) else Some ?c) = Some rel"
    by (auto simp: new_path_def Let_def split: if_split_asm option.split_asm sum.split_asm)
  have "path_clean rel = rel"
  proof (cases "is_abs ?c")
    case True
    with inside have "path_rel root ?c = Some rel" "rel \<noteq> dotdot" "\<not> has_prefix rel (dotdot @ [slash])"
      by (auto split: option.split_asm if_split_asm)
    then show ?thesis using path_rel_inside True parse_path_relative(1) [OF rel] by blast
  next
    case False
    with inside have "?c = rel" by simp
    then show ?thesis using path_clean_idem [of reported] by simp
  qed
  with rel show ?thesis using parse_path_value [OF rel] by (simp add: normalize_file_def)
qed

definition good_finding :: "gostring \<Rightarrow> gostring \<Rightarrow> finding \<Rightarrow> bool" where
  "good_finding gate language f \<longleftrightarrow> validate f = None \<and> Gate f = gate \<and> Language f = language
     \<and> parse_path (File f) = Inr (File f)"

lemma make_finding_good: "make_finding gate cfg R rule tool name line message = Inr f \<Longrightarrow> good_finding gate (cfgLanguage cfg) f"
proof -
  assume ok: "make_finding gate cfg R rule tool name line message = Inr f"
  then obtain path snippet where r: "read_line R name line = Inr (path, snippet)"
    and f: "File f = path" "Gate f = gate" "Language f = cfgLanguage cfg" "validate f = None"
    by (auto simp: make_finding_def Let_def split: option.split_asm sum.split_asm if_split_asm)
  from r have "new_path (canonicalRoot R) name = Inr path"
    by (auto simp: read_line_def split: if_split_asm sum.split_asm option.split_asm line_error.split_asm)
  from new_path_closed [OF this] f show ?thesis by (simp add: good_finding_def)
qed

lemma collect_all_each: "collect_all f i xs = Inr ys \<Longrightarrow> y \<in> set ys \<Longrightarrow> \<exists>j x. f j x = Inr y"
proof (induction f i xs arbitrary: ys rule: collect_all.induct)
  case (2 f i x xs)
  from "2.prems"(1) obtain z zs where "f i x = Inr z" "collect_all f (Suc i) xs = Inr zs" "ys = z # zs"
    by (auto split: sum.splits)
  with 2 show ?case by auto
qed simp

lemma at_index_Inr [simp]: "at_index label i r = Inr y \<longleftrightarrow> r = Inr y"
  by (auto simp: at_index_def split: sum.splits)

lemma normalize_good:
  assumes "normalize E open_root n gate root raw = Inr fs"
  shows "\<forall>f \<in> set fs. good_finding gate (normalizer_language n) f"
proof (cases n)
  case (Golangci cfg)
  from assms [unfolded Golangci] show ?thesis
    by (auto simp: normalize_golangci_def Golangci split: if_split_asm json_output.split_asm option.split_asm sum.split_asm
        dest!: collect_all_each dest: make_finding_good)
next
  case (Regex r)
  from assms [unfolded Regex] show ?thesis
    by (auto simp: normalize_regex_def Regex split: if_split_asm sum.split_asm
        dest!: collect_all_each dest: make_finding_good)
qed

lemma parsed_language: "parse_normalizer E name cfg = Inr n \<Longrightarrow> normalizer_language n = cfgLanguage cfg"
  by (auto simp: parse_normalizer_def parse_regex_def Let_def split: if_split_asm sum.split_asm option.split_asm)

end
