(* ===== verification/ExecutionFacts.thy ===== *)
theory ExecutionFacts
  imports Execution ReportFacts NormalizerFacts
begin

text \<open>
  What one gate execution reports: a report the ledger accepts, on every path, and one that says
  something other than an error only on the evidence of a command that ran to its end.
\<close>

subsection \<open>Findings through the stages\<close>

lemma group_good:
  assumes "group fs = Inr gs" "\<forall>f \<in> set fs. good_finding gate language f"
  shows "(\<forall>g \<in> set gs. good_finding gate language g) \<and> group gs = Inr gs
    \<and> Fingerprint ` set gs = fingerprint ` set fs"
proof -
  from assms(1) have gs: "gs = group_valid fs" and val: "\<forall>f \<in> set fs. validate f = None" by (simp_all add: group_Inr)
  have good: "good_finding gate language g" if g: "g \<in> set gs" for g
  proof -
    from group_valid_member(1) [of g fs] g gs obtain f where f: "f \<in> set fs" "Gate g = Gate f" "Language g = Language f"
      "File g = normalize_file (File f)" by blast
    from f(1) assms(2) have ok: "good_finding gate language f" by blast
    then have "normalize_file (File f) = File f" using parse_path_value by (fastforce simp: good_finding_def)
    then have "parse_path (File g) = Inr (File g)" using f ok by (simp add: good_finding_def)
    moreover from this have "validate g = None" using group_valid_validates [OF val] g gs by blast
    ultimately show ?thesis using f ok by (simp add: good_finding_def)
  qed
  moreover have "group gs = Inr gs"
    by (rule group_again [OF assms(1)]) (use good in \<open>auto simp: good_finding_def\<close>)
  moreover have "Fingerprint ` set gs = fingerprint ` set fs"
    unfolding gs group_valid_set by (force simp: combine_copies_fingerprint image_image)
  ultimately show ?thesis by blast
qed

text \<open>A stage may move a finding but not change whose it is.\<close>

definition same_owner :: "finding \<Rightarrow> finding \<Rightarrow> bool" where
  "same_owner f g \<longleftrightarrow> Gate g = Gate f \<and> Language g = Language f \<and> File g = File f \<and> fingerprint g = fingerprint f"

lemma same_owner_good:
  "good_finding gate language f \<Longrightarrow> same_owner f g \<Longrightarrow> validate g = None \<Longrightarrow> good_finding gate language g"
  by (simp add: good_finding_def same_owner_def)

lemma enriches_owner: "enriches f g \<Longrightarrow> same_owner f g"
proof -
  assume e: "enriches f g"
  then obtain l ocs where "g = f\<lparr>EndLine := l, Occurrences := ocs\<rparr>" by (auto simp: enriches_def)
  then show ?thesis by (simp add: same_owner_def fingerprint_def identity_fields_def)
qed

lemma go_enriched_owners:
  assumes "go_enrich W root loc fs w = (Inr gs, w')"
  shows "(\<forall>g \<in> set gs. \<exists>f \<in> set fs. same_owner f g) \<and> map fingerprint gs = map fingerprint fs"
proof -
  from go.only_end_lines [OF assms] have all: "list_all2 same_owner fs gs"
    by (rule list_all2_mono) (rule enriches_owner)
  have "\<exists>f \<in> set fs. same_owner f g" if "g \<in> set gs" for g
  proof -
    from that obtain i where "i < length gs" "g = gs ! i" by (auto simp: in_set_conv_nth)
    with all have "i < length fs" "same_owner (fs ! i) g" by (simp_all add: list_all2_conv_all_nth)
    then show ?thesis using nth_mem by blast
  qed
  with go.enriched_fingerprints [OF assms] show ?thesis by blast
qed

lemma touched_owners:
  assumes "filter_touched fs ch = Inr gs" "g \<in> set gs" "\<forall>f \<in> set fs. parse_path (File f) = Inr (File f)"
  shows "\<exists>f \<in> set fs. same_owner f g"
proof -
  from assms(1) obtain m where "filter_from 0 fs m = Inr gs" by (auto simp: filter_touched_def split: sum.splits)
  then have gs: "gs = List.map_filter (touch m) fs" using filter_from_Inr by blast
  with assms(2) obtain f where f: "f \<in> set fs" "touch m f = Some g" by (auto simp: map_filter_def)
  have same: "normalize_file (File f) = File f" using assms(3) f(1) parse_path_value by fastforce
  note r = restrict_finding_Some [OF f(2) [unfolded touch_def]]
  have "fingerprint g = fingerprint f" using r(1) same by (intro fingerprint_cong) simp
  with r f(1) same show ?thesis by (auto simp: same_owner_def)
qed

subsection \<open>The findings of a gate\<close>

lemma registry_go: "registry_for new_registry language = Some e \<Longrightarrow> e = go_enrich"
  by (auto simp: registry_for_def new_registry_def split: if_split_asm)

definition request_runs :: "gate_engines \<Rightarrow> gate_request \<Rightarrow> bool" where
  "request_runs E req \<longleftrightarrow> obtainable_gate E (reqGate req) \<and> valid_gate (reqGate req)
     \<and> obtainable_binding E (reqBinding req) \<and> valid_binding (reqBinding req) \<and> owns (reqGate req) (reqBinding req)"

lemma gate_findings_stages:
  fixes H :: "'w host"
  assumes "gate_findings_of H new_registry E req result w = (Inr final, w')"
  obtains normalized grouped enriched scoped v where
    "binding_normalize E (hostSources H w) (reqBinding req) (mfName (gtManifest (reqGate req))) (reqRoot req)
       (bufData (rrStdout result)) = Inr normalized"
    "snd (command_exit_classification (reqBinding req) (rrRunErr result)) \<Longrightarrow> normalized \<noteq> []"
    "group normalized = Inr grouped"
    "go_enrich (hostFiles H) (reqRoot req) (mfLocation (gtManifest (reqGate req))) grouped w = (Inr enriched, v)"
    "mfScope (gtManifest (reqGate req)) = diff_scope \<and> filter_touched enriched (elems (reqChangedLines req)) = Inr scoped
     \<or> mfScope (gtManifest (reqGate req)) \<noteq> diff_scope \<and> scoped = enriched"
    "group scoped = Inr final"
proof -
  let ?m = "gtManifest (reqGate req)" and ?b = "reqBinding req"
  let ?n = "binding_normalize E (hostSources H w) ?b (mfName ?m) (reqRoot req) (bufData (rrStdout result))"
  note run = assms [unfolded gate_findings_of_def Let_def]
  from run obtain normalized where n: "?n = Inr normalized" by (cases ?n) simp_all
  from run n have nonempty: "\<not> (snd (command_exit_classification ?b (rrRunErr result)) \<and> normalized = [])"
    by (auto split: if_split_asm)
  note run = run [unfolded n sum.case if_not_P [OF nonempty]]
  from run obtain grouped where g: "group normalized = Inr grouped" by (cases "group normalized") simp_all
  note run = run [unfolded g sum.case]
  from run obtain e :: "'w enricher" where e: "registry_for new_registry (wrLanguage ?b) = Some e"
    by (cases "registry_for new_registry (wrLanguage ?b) :: 'w enricher option") simp_all
  note run = run [unfolded e option.case registry_go [OF e]]
  let ?go = "go_enrich (hostFiles H) (reqRoot req) (mfLocation ?m) grouped w"
  from run obtain enriched v where go: "?go = (Inr enriched, v)" by (cases ?go) (auto split: sum.split_asm)
  note run = run [unfolded go prod.case sum.case]
  from run obtain scoped where scoped: "mfScope ?m = diff_scope \<and> filter_touched enriched (elems (reqChangedLines req)) = Inr scoped
     \<or> mfScope ?m \<noteq> diff_scope \<and> scoped = enriched" "group scoped = Inr final"
    by (cases "mfScope ?m = diff_scope") (auto split: sum.split_asm)
  show thesis by (rule that [OF n _ g go scoped]) (use nonempty in blast)
qed

lemma severities_problem_None:
  "severities_problem seen ss = None \<longleftrightarrow> list_all valid_severity ss \<and> distinct ss \<and> set ss \<inter> set seen = {}"
  by (induction ss arbitrary: seen) auto

lemma request_manifest:
  assumes "request_runs E req"
  defines "m \<equiv> gtManifest (reqGate req)"
  shows "trim_space (mfName m) \<noteq> []" "list_all valid_severity (elems (mfBlocking m))" "distinct (elems (mfBlocking m))"
    "mfFixPolicy m \<in> {autofix_only, autofix_then_llm, llm_fix, report_only}"
proof -
  have "validate_manifest m = None"
    using assms obtainable_gate_sealed [of E "reqGate req"] by (auto simp: request_runs_def valid_gate_def m_def)
  then show "trim_space (mfName m) \<noteq> []" "list_all valid_severity (elems (mfBlocking m))" "distinct (elems (mfBlocking m))"
    "mfFixPolicy m \<in> {autofix_only, autofix_then_llm, llm_fix, report_only}"
    by (simp_all add: validate_manifest_def severities_problem_None)
qed

lemma request_binding:
  assumes "request_runs E req"
  shows "trim_space (wrLanguage (reqBinding req)) \<noteq> []"
    "\<exists>parser. bdCompiled (reqBinding req) = Some parser \<and> normalizer_language parser = wrLanguage (reqBinding req)"
proof -
  from assms obtain parser where p: "bdCompiled (reqBinding req) = Some parser"
    "runs_as_configured E (wire.truncate (reqBinding req)) parser"
    using valid_binding_runs by (auto simp: request_runs_def)
  have "wrLanguage (wire.truncate b) = wrLanguage b" for b :: binding by simp
  with p(2) show "trim_space (wrLanguage (reqBinding req)) \<noteq> []"
    by (auto simp: runs_as_configured_def validate_binding_value_def)
  have "normalizer_language parser = wrLanguage (reqBinding req)"
    using p(2) parsed_language by (fastforce simp: runs_as_configured_def binding_config_def)
  with p(1) show "\<exists>parser. bdCompiled (reqBinding req) = Some parser \<and> normalizer_language parser = wrLanguage (reqBinding req)"
    by blast
qed

lemma normalized_good:
  assumes "request_runs E req" "binding_normalize E open_root (reqBinding req) gate_name root raw = Inr fs"
  shows "\<forall>f \<in> set fs. good_finding gate_name (wrLanguage (reqBinding req)) f"
proof -
  from request_binding(2) [OF assms(1)] obtain parser where p: "bdCompiled (reqBinding req) = Some parser"
    "normalizer_language parser = wrLanguage (reqBinding req)" by blast
  with assms(2) have "normalize (geNormalizer E) open_root parser gate_name root raw = Inr fs"
    by (simp add: binding_normalize_def split: if_split_asm)
  from normalize_good [OF this] p(2) show ?thesis by simp
qed

text \<open>What a run's findings owe to its output.\<close>

definition reports_output :: "'w host \<Rightarrow> gate_engines \<Rightarrow> gate_request \<Rightarrow> run_result \<Rightarrow> finding list \<Rightarrow> bool" where
  "reports_output H E req result fs \<longleftrightarrow>
     (\<exists>u normalized. binding_normalize E (hostSources H u) (reqBinding req) (mfName (gtManifest (reqGate req))) (reqRoot req)
         (bufData (rrStdout result)) = Inr normalized
       \<and> (snd (command_exit_classification (reqBinding req) (rrRunErr result)) \<longrightarrow> normalized \<noteq> [])
       \<and> fingerprint ` set fs \<subseteq> fingerprint ` set normalized
       \<and> (mfScope (gtManifest (reqGate req)) \<noteq> diff_scope \<longrightarrow> fingerprint ` set fs = fingerprint ` set normalized))"

lemma gate_findings_good:
  assumes "request_runs E req" "gate_findings_of H new_registry E req result w = (Inr final, w')"
  shows "(\<forall>f \<in> set final. good_finding (mfName (gtManifest (reqGate req))) (wrLanguage (reqBinding req)) f)
    \<and> group final = Inr final \<and> reports_output H E req result final"
proof -
  let ?good = "good_finding (mfName (gtManifest (reqGate req))) (wrLanguage (reqBinding req))"
  from gate_findings_stages [OF assms(2)] obtain normalized grouped enriched scoped v where st:
    "binding_normalize E (hostSources H w) (reqBinding req) (mfName (gtManifest (reqGate req))) (reqRoot req)
       (bufData (rrStdout result)) = Inr normalized"
    "snd (command_exit_classification (reqBinding req) (rrRunErr result)) \<Longrightarrow> normalized \<noteq> []"
    "group normalized = Inr grouped"
    "go_enrich (hostFiles H) (reqRoot req) (mfLocation (gtManifest (reqGate req))) grouped w = (Inr enriched, v)"
    "mfScope (gtManifest (reqGate req)) = diff_scope \<and> filter_touched enriched (elems (reqChangedLines req)) = Inr scoped
     \<or> mfScope (gtManifest (reqGate req)) \<noteq> diff_scope \<and> scoped = enriched"
    "group scoped = Inr final" by metis
  note g1 = group_good [OF st(3) normalized_good [OF assms(1) st(1)]]
  note en = go_enriched_owners [OF st(4)]
  have prints: "fingerprint ` set enriched = fingerprint ` set normalized"
  proof -
    have "fingerprint ` set gs = Fingerprint ` set gs" if "group gs = Inr gs" for gs
    proof -
      from that have "gs = group_valid gs" by (simp add: group_Inr)
      then have "\<forall>g \<in> set gs. Fingerprint g = fingerprint g" using group_valid_canonical by (metis canonical_finding_def)
      then show ?thesis by force
    qed
    with g1 en show ?thesis by (metis set_map)
  qed
  have path: "\<forall>f \<in> set enriched. parse_path (File f) = Inr (File f)"
    using en g1 by (fastforce simp: same_owner_def good_finding_def)
  have owner: "\<exists>f \<in> set enriched. same_owner f g" if "g \<in> set scoped" for g
    using st(5) touched_owners [OF _ that path] that by (auto simp: same_owner_def)
  have valid: "\<forall>g \<in> set scoped. validate g = None" using st(6) by (simp add: group_Inr)
  have good: "\<forall>g \<in> set scoped. ?good g"
  proof
    fix g assume g: "g \<in> set scoped"
    with owner obtain f where f: "f \<in> set enriched" "same_owner f g" by blast
    with en obtain b where b: "b \<in> set grouped" "same_owner b f" by blast
    from b f have "same_owner b g" by (simp add: same_owner_def)
    with g1 b valid g show "?good g" using same_owner_good by blast
  qed
  note g2 = group_good [OF st(6) good]
  have "fingerprint ` set final = fingerprint ` set scoped"
  proof -
    from g2 have "final = group_valid final" by (simp add: group_Inr)
    then have "\<forall>g \<in> set final. Fingerprint g = fingerprint g" using group_valid_canonical by (metis canonical_finding_def)
    with g2 show ?thesis by force
  qed
  moreover have "fingerprint ` set scoped \<subseteq> fingerprint ` set enriched" using owner by (force simp: same_owner_def)
  ultimately have "reports_output H E req result final"
    unfolding reports_output_def using st(1,2,5) prints by (intro exI [of _ w] exI [of _ normalized]) auto
  with g2 show ?thesis by blast
qed

subsection \<open>Every error has a text\<close>

definition told :: "problem \<Rightarrow> bool" where
  "told e \<longleftrightarrow> trim_space (fst e) \<noteq> []"

lemma fails_Some: "fails c label at = Some e \<longleftrightarrow> c \<and> e = (label, at)"
  by (auto simp: fails_def)

lemma checks_Some: "checks (p # ps) = Some e \<longleftrightarrow> p = Some e \<or> p = None \<and> checks ps = Some e"
  by (cases p) (simp_all add: checks.simps(2))

lemma first_error_some: "first_error chk i xs = Some e \<Longrightarrow> \<exists>j x. chk j x = Some e"
  by (induction xs arbitrary: i) (auto split: option.split_asm)

lemmas told_simps = told_def trim_space_nonblank byte_def is_space_def

lemma validate_command_told: "validate_command command = Some e \<Longrightarrow> told e"
  by (auto simp: validate_command_def argument_problem_def fails_Some told_simps split: if_split_asm dest!: first_error_some)

lemma validate_execution_told: "validate_execution H c req w = (Some e, w') \<Longrightarrow> told e"
  by (auto simp: validate_execution_def checks_Some fails_Some told_simps split: option.split_asm prod.split_asm if_split_asm)

lemma context_error_told [simp]: "trim_space (fst (context_execution_error e)) \<noteq> []"
  by (cases e) (simp_all add: context_execution_error_def told_simps)

lemma validate_result_told: "validate_command_result H b r w = (Some e, w') \<Longrightarrow> told e"
  by (auto simp: validate_command_result_def checks_Some fails_Some Let_def told_simps
      split: option.split_asm prod.split_asm)

lemma observe_version_told: "observe_version H E req r w = (Some e, r', w') \<Longrightarrow> told e"
  by (auto simp: observe_version_def Let_def told_simps
      split: option.split_asm prod.split_asm if_split_asm)

lemma gate_findings_told: "gate_findings_of H registry E req result w = (Inl e, w') \<Longrightarrow> told e"
  by (auto simp: gate_findings_of_def Let_def told_simps
      split: option.split_asm prod.split_asm sum.split_asm if_split_asm)

subsection \<open>Reports\<close>

text \<open>The part of a report that the request fixes.\<close>

definition framed :: "gate_request \<Rightarrow> gate_report \<Rightarrow> bool" where
  "framed req r \<longleftrightarrow> grGate r = mfName (gtManifest (reqGate req)) \<and> grLanguage r = wrLanguage (reqBinding req)
     \<and> grBlocking r = Some (elems (mfBlocking (gtManifest (reqGate req))))
     \<and> grFixPolicy r = mfFixPolicy (gtManifest (reqGate req)) \<and> grPosition r = reqPosition req"

lemma framed_new [simp]: "framed req (new_gate_report (reqGate req) (reqBinding req) (reqPosition req))"
  by (simp add: framed_def new_gate_report_def)

lemma framed_updates [simp]:
  "framed req (errored r e) = framed req r" "framed req (warn r t) = framed req r"
  "framed req (r\<lparr>grStatus := st\<rparr>) = framed req r" "framed req (r\<lparr>grFindings := fs\<rparr>) = framed req r"
  "framed req (r\<lparr>grDurationMS := d\<rparr>) = framed req r" "framed req (r\<lparr>grObservedVersion := v\<rparr>) = framed req r"
  by (simp_all add: framed_def errored_def warn_def)

lemma observe_version_framed:
  "observe_version H E req r w = (e, r', w') \<Longrightarrow> framed req r' = framed req r \<and> grError r' = grError r"
  by (auto simp: observe_version_def Let_def warn_def framed_def split: option.split_asm prod.split_asm if_split_asm)

definition settled :: "'w host \<Rightarrow> gate_engines \<Rightarrow> gate_request \<Rightarrow> gate_report \<Rightarrow> bool" where
  "settled H E req r \<longleftrightarrow>
     (\<exists>command v result v' u c. render_command E (reqBinding req) = Inr command
       \<and> hostRun H (reqRoot req) command v = (result, v')
       \<and> fst (persist_raw H (bufData (rrStdout result)) (bufData (rrStderr result)) v')
       \<and> fst (pollContext (hostFiles H) u) = None
       \<and> \<not> rrCleanupErr result \<and> \<not> bufTruncated (rrStdout result) \<and> \<not> bufTruncated (rrStderr result)
       \<and> command_exit_code (rrRunErr result) = (c, True)
       \<and> (c \<in> set (wrSuccessExits (reqBinding req)) \<or> c \<in> set (wrFindingExits (reqBinding req)))
       \<and> (c \<in> set (wrFindingExits (reqBinding req)) \<longrightarrow> bufData (rrStderr result) = [])
       \<and> reports_output H E req result (grFindings r))"

text \<open>What the body of \<open>Execute\<close> returns, before the duration is filled in.\<close>

definition concluded :: "'w host \<Rightarrow> gate_engines \<Rightarrow> gate_request \<Rightarrow> gate_report \<Rightarrow> bool" where
  "concluded H E req r \<longleftrightarrow> framed req r \<and>
     (grStatus r = gate_errored \<and> grFindings r = [] \<and> trim_space (grError r) \<noteq> []
      \<or> grStatus r = (if grFindings r = [] then gate_passed else gate_findings) \<and> grError r = [] \<and> settled H E req r
        \<and> group (grFindings r) = Inr (grFindings r) \<and> (\<forall>f \<in> set (grFindings r). owned_finding r f))"

lemma concluded_errored: "framed req r \<Longrightarrow> told e \<Longrightarrow> concluded H E req (errored r (Some e))"
  by (simp add: concluded_def told_def) (simp add: errored_def)

lemma finish_concluded:
  assumes "request_runs E req" "framed req report" "grError report = []"
    and "render_command E (reqBinding req) = Inr command" "hostRun H (reqRoot req) command v = (result, v')"
    and "finish_execution H new_registry E req report result v' = (r, w')"
  shows "concluded H E req r"
proof -
  let ?persist = "persist_raw H (bufData (rrStdout result)) (bufData (rrStderr result)) v'"
  obtain stored u where stored: "?persist = (stored, u)" by (cases ?persist)
  obtain e u' where check: "validate_command_result H (reqBinding req) result u = (e, u')"
    by (cases "validate_command_result H (reqBinding req) result u")
  obtain fs u'' where found: "gate_findings_of H new_registry E req result u' = (fs, u'')"
    by (cases "gate_findings_of H new_registry E req result u'")
  consider (storage) "\<not> stored" | (refused) p where "stored" "e = Some p" | (unparsed) p where "stored" "e = None" "fs = Inl p"
    | (ended) final where "stored" "e = None" "fs = Inr final" by (cases stored; cases e; cases fs) auto
  then show ?thesis
  proof cases
    case storage
    with assms(2,6) stored show ?thesis
      by (auto simp: finish_execution_def told_simps intro!: concluded_errored)
  next
    case refused
    with assms(2,6) stored check validate_result_told [of H "reqBinding req" result u p u'] show ?thesis
      by (auto simp: finish_execution_def intro!: concluded_errored)
  next
    case unparsed
    with assms(2,6) stored check found gate_findings_told [of H new_registry E req result u' p u''] show ?thesis
      by (auto simp: finish_execution_def intro!: concluded_errored)
  next
    case ended
    note good = gate_findings_good [OF assms(1) found [unfolded ended(3)]]
    have r: "r = report\<lparr>grFindings := final, grStatus := (if final = [] then gate_passed else gate_findings)\<rparr>"
      using assms(6) stored check found ended by (simp add: finish_execution_def)
    obtain c exited where code: "command_exit_code (rrRunErr result) = (c, exited)"
      by (cases "command_exit_code (rrRunErr result)")
    have "fst (pollContext (hostFiles H) u) = None \<and> \<not> rrCleanupErr result \<and> \<not> bufTruncated (rrStdout result)
        \<and> \<not> bufTruncated (rrStderr result) \<and> exited
        \<and> (c \<in> set (wrSuccessExits (reqBinding req)) \<or> c \<in> set (wrFindingExits (reqBinding req)))
        \<and> (c \<in> set (wrFindingExits (reqBinding req)) \<longrightarrow> bufData (rrStderr result) = [])"
      using check ended(2) code
      by (auto simp: validate_command_result_def Let_def split: option.split_asm prod.split_asm)
    with stored ended(1) code good assms(4,5) have "settled H E req r"
      unfolding settled_def r by (intro exI [of _ command] exI [of _ v] exI [of _ result] exI [of _ v'] exI [of _ u]
          exI [of _ c]) simp
    moreover have "owned_finding r f" if "f \<in> set final" for f
      using good that assms(2) by (auto simp: owned_finding_def good_finding_def r framed_def)
    ultimately show ?thesis using assms(2,3) good unfolding concluded_def r by simp
  qed
qed

lemma checked_concluded:
  assumes "request_runs E req" "framed req report" "grError report = []"
    and "execute_checked H new_registry E req report w = (r, w')"
  shows "concluded H E req r"
proof (cases "render_command E (reqBinding req)")
  case (Inl e)
  with assms(2,4) show ?thesis
    by (auto simp: execute_checked_def told_simps intro!: concluded_errored)
next
  case (Inr command)
  let ?observe = "if verCommand (wrVersion (reqBinding req)) \<noteq> [] then observe_version H E req report w else (None, report, w)"
  obtain e report' u where o: "?observe = (e, report', u)" by (cases ?observe)
  have report': "framed req report' \<and> grError report' = [] \<and> (\<forall>p. e = Some p \<longrightarrow> told p)"
  proof (cases "verCommand (wrVersion (reqBinding req)) = []")
    case False
    with o have o: "observe_version H E req report w = (e, report', u)" by simp
    from observe_version_framed [OF o] observe_version_told [of H E req report w _ report' u] o assms(2,3)
    show ?thesis by simp
  qed (use o assms(2,3) in simp)
  obtain result v' where run: "hostRun H (reqRoot req) command u = (result, v')"
    by (cases "hostRun H (reqRoot req) command u")
  show ?thesis
  proof (cases "validate_command command")
    case (Some p)
    with assms(4) Inr have "r = errored report (Some p)" by (simp add: execute_checked_def)
    then show ?thesis using concluded_errored [OF assms(2) validate_command_told [OF Some]] by simp
  next
    case None
    show ?thesis
    proof (cases e)
      case (Some p)
      have "r = errored report' (Some p)" using assms(4) Inr None o Some by (simp add: execute_checked_def)
      moreover have "framed req report'" "told p" using report' Some by simp_all
      ultimately show ?thesis using concluded_errored by blast
    next
      case none: None
      have "finish_execution H new_registry E req report' result v' = (r, w')"
        using assms(4) Inr None o none run by (simp add: execute_checked_def)
      from finish_concluded [OF assms(1) _ _ Inr run this] report' show ?thesis by blast
    qed
  qed
qed

lemma gate_statuses [simp]:
  "gate_passed \<noteq> gate_errored" "gate_findings \<noteq> gate_errored" "gate_passed \<noteq> gate_findings"
  "gate_errored \<noteq> gate_passed" "gate_errored \<noteq> gate_findings" "gate_findings \<noteq> gate_passed"
  by (simp_all add: gate_passed_def gate_findings_def gate_errored_def)

lemma concluded_sound:
  assumes "request_runs E req" "0 \<le> reqPosition req" "concluded H E req r" "0 \<le> d"
  shows "sound_gate (r\<lparr>grDurationMS := d\<rparr>)"
proof -
  from assms(3) have frame: "framed req r"
    and cases: "grStatus r = gate_errored \<and> grFindings r = [] \<and> trim_space (grError r) \<noteq> []
      \<or> grStatus r = (if grFindings r = [] then gate_passed else gate_findings) \<and> grError r = []
        \<and> group (grFindings r) = Inr (grFindings r) \<and> (\<forall>f \<in> set (grFindings r). owned_finding r f)"
    unfolding concluded_def by blast+
  from cases have "validate_gate_status (r\<lparr>grDurationMS := d\<rparr>) 0 = None \<and> group (grFindings r) = Inr (grFindings r)
      \<and> (\<forall>f \<in> set (grFindings r). owned_finding r f)"
    by (auto simp: validate_gate_status_def group_empty)
  moreover have "owned_finding (r\<lparr>grDurationMS := d\<rparr>) f = owned_finding r f" for f by (simp add: owned_finding_def)
  ultimately show ?thesis
    using frame assms(2,4) request_manifest [OF assms(1)] request_binding(1) [OF assms(1)]
    by (simp add: sound_gate_def framed_def)
qed

lemma execute_concluded:
  assumes "request_runs E req" "execute_gate H new_registry E has_context req w = (r, w')"
  obtains b d where "concluded H E req b" "0 \<le> d" "r = b\<lparr>grDurationMS := d\<rparr>"
proof -
  let ?report = "new_gate_report (reqGate req) (reqBinding req) (reqPosition req)"
  obtain started w1 where start: "hostNow H w = (started, w1)" by (cases "hostNow H w")
  obtain e w2 where e: "validate_execution H has_context req w1 = (e, w2)"
    by (cases "validate_execution H has_context req w1")
  let ?body = "case validate_execution H has_context req w1 of (Some e, w) \<Rightarrow> (errored ?report (Some e), w)
             | (None, w) \<Rightarrow> execute_checked H new_registry E req ?report w"
  obtain b w3 where b: "?body = (b, w3)" by (cases ?body)
  obtain finish w4 where stop: "hostNow H w3 = (finish, w4)" by (cases "hostNow H w3")
  have "concluded H E req b"
  proof (cases e)
    case None
    with e b have "execute_checked H new_registry E req ?report w2 = (b, w3)" by simp
    then show ?thesis by (intro checked_concluded [OF assms(1)]) (simp_all add: new_gate_report_def framed_def)
  next
    case (Some p)
    with e b have "b = errored ?report (Some p)" by simp
    with Some e validate_execution_told [of H has_context req w1 p w2] show ?thesis by (simp add: concluded_errored)
  qed
  moreover have "r = b\<lparr>grDurationMS := min max_int (max 0 (finish - started)) div 10 ^ 6\<rparr>"
    using assms(2) start b stop by (simp add: execute_gate_def Let_def)
  moreover have "0 \<le> min max_int (max 0 (finish - started)) div 10 ^ 6" by (simp add: max_int_def)
  ultimately show thesis by (intro that)
qed

text \<open>
  C17: One execution of a valid gate always ends in a report the ledger accepts, whatever the tool, the
  clock, the file system, the sink or a cancellation does on the way. The report is about that gate and
  binding; and it says passed or findings, and not errored, only if the rendered command ran, both of
  its raw streams were stored, the context was not cancelled, the process tree was cleaned up, nothing
  was truncated, and it exited with an expected code (a finding code without writing to stderr); the
  findings reported come from parsing its output, and for a gate of repository scope every one of
  those is reported.
\<close>

theorem execution_reported:
  assumes "request_runs E req" and "0 \<le> reqPosition req"
    and "execute_gate H new_registry E has_context req w = (r, w')"
  shows "validate_gate_report r i = None \<and> framed req r \<and> (grStatus r \<noteq> gate_errored \<longrightarrow> settled H E req r)"
proof -
  from execute_concluded [OF assms(1,3)] obtain b d where b: "concluded H E req b" "0 \<le> d" "r = b\<lparr>grDurationMS := d\<rparr>" .
  have "settled H E req r = settled H E req b" unfolding settled_def b(3) by simp
  with b show ?thesis
    using concluded_sound [OF assms(1,2) b(1,2)]
    by (auto simp: validate_gate_report_None concluded_def split: if_split_asm)
qed

subsection \<open>A run that passes\<close>

definition quiet_result :: run_result where
  "quiet_result = \<lparr>rrStdout = new_buffer 10 [], rrStderr = new_buffer 10 [], rrRunErr = None, rrCleanupErr = False\<rparr>"

definition quiet_host :: "unit host" where
  "quiet_host = \<lparr>hostNow = (\<lambda>w. (7, w)), hostStat = (\<lambda>_ w. (Directory, w)), hostRun = (\<lambda>_ _ w. (quiet_result, w)),
     hostWriteRaw = (\<lambda>_ _ w. (True, w)), hostSources = (\<lambda>_ _. Inl (''unused'', [])), hostFiles = demo_files\<rparr>"

definition sample_like :: "gate_request \<Rightarrow> bool" where
  "sample_like req \<longleftrightarrow> request_runs sample_engines req \<and> reqPosition req = 0 \<and> reqRoot req = ''/r'' \<and> reqHasSink req
     \<and> gtManifest (reqGate req) = sample_manifest \<and> wire.truncate (reqBinding req) = sample_wire
     \<and> bdCompiled (reqBinding req) = Some (Golangci (binding_config sample_wire))"

lemma sample_gate:
  assumes g: "compile_gate sample_engines 0 sample_manifest [(''go'', sample_wire)] = Inr g"
  obtains b where "gtBindings g = [(''go'', b)]" "wrLanguage b = ''go''"
    "sample_like \<lparr>reqGate = g, reqBinding = b, reqPosition = 0, reqRoot = ''/r'', reqHasSink = True, reqChangedLines = None\<rparr>"
proof -
  from g have "compile_bindings sample_engines 0 1 [(''go'', sample_wire)] = Inr (gtBindings g)"
    unfolding compile_gate_def One_nat_def by (auto simp del: compile_bindings.simps split: option.split_asm sum.split_asm)
  from compile_bindings_minted [OF this] obtain b where b: "gtBindings g = [(''go'', b)]" "wire.truncate b = sample_wire"
    "minted sample_engines 0 (''go'', b)" by (cases "gtBindings g") (auto simp: wire.truncate_def)
  have parse: "parse_normalizer (geNormalizer sample_engines) (wrNormalizer sample_wire) (binding_config sample_wire)
      = Inr (Golangci (binding_config sample_wire))"
    by (simp add: parse_normalizer_def sample_wire_def has_prefix_def)
  with b have parser: "bdCompiled b = Some (Golangci (binding_config sample_wire))"
    by (auto simp: minted_def runs_as_configured_def)
  have entry: "valid_binding b" "owns g b" using compiled_entry [OF g, of "''go''" b] b(1) by simp_all
  have m: "gtManifest g = sample_manifest" using compile_gate_Inr [OF g] by simp
  then have "valid_gate g" using compiled_valid [OF g, of sample_manifest] by (simp flip: m)
  moreover have "obtainable_gate sample_engines g" by (rule obtainable_gate.compiled_gate [OF g]) simp
  moreover have "obtainable_binding sample_engines b" by (rule obtainable_binding.compiled_binding [OF g, of "''go''"]) (simp add: b)
  ultimately have "request_runs sample_engines \<lparr>reqGate = g, reqBinding = b, reqPosition = 0, reqRoot = ''/r'',
      reqHasSink = True, reqChangedLines = None\<rparr>" using entry by (simp add: request_runs_def)
  with b m parser show thesis by (intro that [of b]) (simp_all add: sample_like_def minted_def)
qed

lemma sample_request:
  obtains req where "sample_like req"
  using sample_compiles sample_gate by metis

lemma quiet_run:
  assumes "sample_like req"
  shows "execute_gate quiet_host new_registry sample_engines True req ()
    = (new_gate_report (reqGate req) (reqBinding req) 0 \<lparr>grFindings := [], grStatus := gate_passed, grDurationMS := 0\<rparr>, ())"
proof -
  have req: "request_runs sample_engines req" "reqPosition req = 0" "reqRoot req = ''/r''" "reqHasSink req"
    "gtManifest (reqGate req) = sample_manifest" "wire.truncate (reqBinding req) = sample_wire"
    "bdCompiled (reqBinding req) = Some (Golangci (binding_config sample_wire))"
    using assms by (simp_all add: sample_like_def)
  let ?b = "reqBinding req"
  have fields: "wrLanguage ?b = ''go''" "wrCommand ?b = [''lint'']" "wrSettings ?b = None" "wrSuccessExits ?b = [0]"
    "wrFindingExits ?b = [1]" "verCommand (wrVersion ?b) = []"
    using req(6) by (simp_all add: wire.truncate_def sample_wire_def)
  have runs: "valid_gate (reqGate req)" "valid_binding ?b" "owns (reqGate req) ?b" using req(1) by (simp_all add: request_runs_def)
  have host: "hostNow quiet_host w = (7, w)" "hostRun quiet_host d c w = (quiet_result, w)"
    "hostWriteRaw quiet_host n out w = (True, w)" for w d c n out by (simp_all add: quiet_host_def)
  have scope: "mfScope (gtManifest (reqGate req)) \<noteq> diff_scope"
    by (simp add: req(5) sample_manifest_def repo_scope_def diff_scope_def)
  have command: "render_command sample_engines ?b = Inr [''lint'']"
    by (simp add: render_command_def render_argument_def fields sample_engines_def)
  have checked: "validate_command [''lint''] = None"
    by (simp add: validate_command_def argument_problem_def fails_def trim_space_nonblank byte_def is_space_def)
  have started: "validate_execution quiet_host True req () = (None, ())"
    by (simp add: validate_execution_def runs req(2,3,4) scope quiet_host_def fails_def checks.simps(2) trim_space_nonblank byte_def is_space_def)
  have empty: "new_buffer 10 [] = \<lparr>bufData = [], bufLimit = 10, bufMarker = [], bufTruncated = False\<rparr>"
    by (simp add: new_buffer_def)
  have normalized: "binding_normalize sample_engines (hostSources quiet_host ()) ?b (mfName sample_manifest) ''/r'' [] = Inr []"
    by (simp add: binding_normalize_def runs req(7) normalize_golangci_def valid_utf8_def)
  have findings: "gate_findings_of quiet_host new_registry sample_engines req quiet_result () = (Inr [], ())"
    by (simp add: gate_findings_of_def Let_def req(3,5) normalized quiet_result_def empty
        command_exit_classification_def command_exit_code_def fields group_empty registry_for_def new_registry_def
        go_enrich_def give_def scope [unfolded req(5)])
  have result: "validate_command_result quiet_host ?b quiet_result () = (None, ())"
    by (simp add: validate_command_result_def quiet_host_def demo_files_def command_exit_code_def quiet_result_def empty fields
        fails_def checks.simps(2))
  let ?r = "new_gate_report (reqGate req) ?b 0 \<lparr>grFindings := [], grStatus := gate_passed\<rparr>"
  have body: "execute_checked quiet_host new_registry sample_engines req (new_gate_report (reqGate req) ?b 0) () = (?r, ())"
    by (simp add: execute_checked_def command checked fields finish_execution_def persist_raw_def host findings result)
  show ?thesis by (simp add: execute_gate_def Let_def started body req(2) host max_int_def)
qed

theorem execution_reported_witness:
  "\<exists>req r. request_runs sample_engines req \<and> execute_gate quiet_host new_registry sample_engines True req () = (r, ())
     \<and> grStatus r = gate_passed \<and> validate_gate_report r 0 = None \<and> settled quiet_host sample_engines req r"
proof -
  obtain req where req: "sample_like req" by (rule sample_request)
  then have runs: "request_runs sample_engines req" "0 \<le> reqPosition req" by (simp_all add: sample_like_def)
  show ?thesis using execution_reported [OF runs quiet_run [OF req], of 0] quiet_run [OF req] runs(1) by auto
qed

end
