(* ===== verification/Collection.thy ===== *)
theory Collection
  imports ExecutionFacts
begin

text \<open>
  How a run chooses its requests (\<open>selectRequests\<close>, the last part of \<open>prepareRun\<close>, \<open>validationRequests\<close>)
  and executes them on a pool of workers (\<open>Collect\<close>). The pool is a step relation: the sender hands
  the next job to an idle worker, or a worker stores the report of its job; every execution meets a
  host and a world of its own, so nothing is assumed of how executions overlap.
\<close>

subsection \<open>Selection\<close>

definition gate_name :: "gate \<Rightarrow> gostring" where
  "gate_name g = mfName (gtManifest g)"

definition requested_problem :: "gate list \<Rightarrow> nat \<Rightarrow> gostring \<Rightarrow> problem option" where
  "requested_problem gates i name =
     (case map_of (map (\<lambda>g. (gate_name g, g)) gates) name of
        None \<Rightarrow> Some (''unknown gate'', [])
      | Some g \<Rightarrow> fails (map_of (gtBindings g) ''go'' = None) ''requested gate has no Go binding'' [])"

fun selected_from :: "gostring list \<Rightarrow> gostring \<Rightarrow> int \<Rightarrow> gate list \<Rightarrow> gate_request list" where
  "selected_from selected root position [] = []"
| "selected_from selected root position (g # gs) =
     (if selected \<noteq> [] \<and> gate_name g \<notin> set selected then selected_from selected root (position + 1) gs
      else (case map_of (gtBindings g) ''go'' of
              None \<Rightarrow> selected_from selected root (position + 1) gs
            | Some b \<Rightarrow>
                \<lparr>reqGate = g, reqBinding = b, reqPosition = position, reqRoot = root, reqHasSink = False,
                 reqChangedLines = None\<rparr> # selected_from selected root (position + 1) gs))"

definition select_requests :: "gate list \<Rightarrow> gostring list \<Rightarrow> gostring \<Rightarrow> (problem, gate_request list) res" where
  "select_requests gates requested root =
     (if list_ex (\<lambda>name. trim_space name = []) requested then Inl (''gate name cannot be empty'', [])
      else if \<not> distinct (map gate_name gates) then Inl (''duplicate loaded gate manifest'', [])
      else (case first_error (requested_problem gates) 0 (nub_by id [] requested) of
              Some e \<Rightarrow> Inl e
            | None \<Rightarrow>
                (let requests = selected_from requested root 0 gates
                 in if requests = [] then Inl (''no Go gates selected'', []) else Inr requests)))"

definition prepare_request :: "'w registry \<Rightarrow> changed_lines \<Rightarrow> nat \<Rightarrow> gate_request \<Rightarrow> (problem, gate_request) res" where
  "prepare_request registry lines i req =
     (case registry_for registry (wrLanguage (reqBinding req)) of
        None \<Rightarrow> Inl (''no enricher for language'', [])
      | Some _ \<Rightarrow>
          Inr (if mfScope (gtManifest (reqGate req)) = diff_scope then req\<lparr>reqChangedLines := Some lines\<rparr> else req))"

definition prepare_requests :: "'w registry \<Rightarrow> changed_lines \<Rightarrow> gate_request list \<Rightarrow> (problem, gate_request list) res" where
  "prepare_requests registry lines reqs = collect_all (prepare_request registry lines) 0 reqs"

subsection \<open>The gates of one attempt\<close>

definition unusable :: "gate_request \<Rightarrow> bool" where
  "unusable req \<longleftrightarrow> \<not> valid_gate (reqGate req) \<or> \<not> valid_binding (reqBinding req) \<or> \<not> owns (reqGate req) (reqBinding req)"

definition no_manifest :: manifest where
  "no_manifest = \<lparr>mfName = [], mfDescription = [], mfCostClass = [], mfFixPolicy = [], mfScope = [], mfLocation = [],
     mfBlocking = None, mfTimeout = 0\<rparr>"

definition no_gate :: gate where
  "no_gate = \<lparr>gtManifest = no_manifest, gtBindings = [], gtOwner = None, gtManifestSnapshot = no_manifest, gtSnapshots = []\<rparr>"

definition no_binding :: binding where
  "no_binding = \<lparr>wrLanguage = [], wrTool = [], wrCommand = [], wrSuccessExits = [], wrFindingExits = [],
     wrNormalizer = [], wrRuleID = [], wrMessage = [], wrSettings = None, wrSeverityMap = [], wrVersion = no_version,
     wrAliases = [], bdCompiled = None, bdOwner = None, bdSnapshot = None\<rparr>"

definition clone_execution_request :: "gate_engines \<Rightarrow> nat \<Rightarrow> gate_request \<Rightarrow> gate_request" where
  "clone_execution_request E fresh req =
     (if unusable req then req\<lparr>reqGate := no_gate, reqBinding := no_binding\<rparr>
      else (case compile_gate E fresh (gtManifest (reqGate req)) (gtBindings (reqGate req)) of
              Inl _ \<Rightarrow> req\<lparr>reqGate := no_gate, reqBinding := no_binding\<rparr>
            | Inr g \<Rightarrow>
                req\<lparr>reqGate := g,
                    reqBinding := (case map_of (gtBindings g) (wrLanguage (reqBinding req)) of
                                     None \<Rightarrow> no_binding | Some b \<Rightarrow> b)\<rparr>))"

definition malformed_evidence :: "gostring list \<Rightarrow> finding \<Rightarrow> bool" where
  "malformed_evidence available f \<longleftrightarrow>
     (case group [f] of
        Inl _ \<Rightarrow> True
      | Inr grouped \<Rightarrow> Fingerprint f = [] \<or> grouped \<noteq> [f] \<or> Gate f \<notin> set available)"

definition less_request :: "gate_request \<Rightarrow> gate_request \<Rightarrow> bool" where
  "less_request l r =
     (if reqPosition l \<noteq> reqPosition r then reqPosition l < reqPosition r
      else if gate_name (reqGate l) \<noteq> gate_name (reqGate r) then gate_name (reqGate l) < gate_name (reqGate r)
      else if wrLanguage (reqBinding l) \<noteq> wrLanguage (reqBinding r)
      then wrLanguage (reqBinding l) < wrLanguage (reqBinding r)
      else reqRoot l < reqRoot r)"

definition validation_requests :: "gate_engines \<Rightarrow> (nat \<Rightarrow> nat) \<Rightarrow> gate_request list \<Rightarrow> finding list \<Rightarrow> gate_request list" where
  "validation_requests E supply requests assigned =
     (let available = map (\<lambda>r. gate_name (reqGate r)) requests;
          malformed = list_ex unusable requests \<or> list_ex (malformed_evidence available) assigned;
          keep = (\<lambda>r. malformed \<or> mfCostClass (gtManifest (reqGate r)) \<in> {instant, fast}
                     \<or> gate_name (reqGate r) \<in> Gate ` set assigned);
          kept = filter keep requests
      in sort_by less_request (map (\<lambda>(i, r). clone_execution_request E (supply i) r) (enumerate 0 kept)))"

subsection \<open>Collect\<close>

record pool =
  poQueue :: "(nat \<times> gate_request) list"
  poRunning :: "(nat \<times> gate_request) list"
  poResults :: "gate_report option list"

definition collect_limit :: "nat \<Rightarrow> int \<Rightarrow> nat \<Rightarrow> nat" where
  "collect_limit cpus limit n =
     nat (max 1 (min (if limit \<le> 0 then min (int cpus) 4 else limit) (int n)))"

definition collect_start :: "gate_request list \<Rightarrow> pool" where
  "collect_start reqs =
     \<lparr>poQueue = enumerate 0 reqs, poRunning = [], poResults = replicate (length reqs) None\<rparr>"

inductive collect_step :: "'w registry \<Rightarrow> gate_engines \<Rightarrow> bool \<Rightarrow> nat \<Rightarrow> pool \<Rightarrow> pool \<Rightarrow> bool"
  for registry E has_context workers where
  send_job: "poQueue p = job # rest \<Longrightarrow> length (poRunning p) < workers \<Longrightarrow>
    collect_step registry E has_context workers p (p\<lparr>poQueue := rest, poRunning := job # poRunning p\<rparr>)"
| store_report: "poRunning p = before @ (i, req) # after \<Longrightarrow>
    execute_gate (H :: 'w host) registry E has_context req w = (r, w') \<Longrightarrow>
    collect_step registry E has_context workers p
      (p\<lparr>poRunning := before @ after, poResults := (poResults p)[i := Some r]\<rparr>)"

definition collected_all :: "pool \<Rightarrow> bool" where
  "collected_all p \<longleftrightarrow> poQueue p = [] \<and> poRunning p = []"

inductive_cases collect_stepE: "collect_step registry E has_context workers p p'"

end
