(* ===== verification/CollectionFacts.thy ===== *)
theory CollectionFacts
  imports Collection
begin

text \<open>
  What the pool of workers guarantees for every interleaving, and the report-only run from the loaded
  gates to the accepted report.
\<close>

subsection \<open>The pool\<close>

definition reported_for :: "'w registry \<Rightarrow> gate_engines \<Rightarrow> bool \<Rightarrow> gate_request \<Rightarrow> gate_report \<Rightarrow> bool" where
  "reported_for registry E has_context req r \<longleftrightarrow>
     (\<exists>(H :: 'w host) w w'. execute_gate H registry E has_context req w = (r, w'))"

definition pool_inv :: "'w registry \<Rightarrow> gate_engines \<Rightarrow> bool \<Rightarrow> nat \<Rightarrow> gate_request list \<Rightarrow> pool \<Rightarrow> bool" where
  "pool_inv registry E has_context workers reqs p \<longleftrightarrow>
     length (poResults p) = length reqs \<and> length (poRunning p) \<le> workers
     \<and> (\<forall>(i, req) \<in> set (poRunning p @ poQueue p). i < length reqs \<and> req = reqs ! i)
     \<and> (\<forall>i < length reqs. i \<in> fst ` set (poRunning p @ poQueue p)
          \<or> (\<exists>r. poResults p ! i = Some r \<and> reported_for registry E has_context (reqs ! i) r))"

definition pool_work :: "pool \<Rightarrow> nat" where
  "pool_work p = 2 * length (poQueue p) + length (poRunning p)"

lemma pool_start: "pool_inv registry E has_context workers reqs (collect_start reqs)"
proof -
  have "i \<in> fst ` set (enumerate 0 reqs)" if "i < length reqs" for i
    using that by (intro image_eqI [of _ _ "(i, reqs ! i)"]) (simp_all add: in_set_enumerate_eq)
  then show ?thesis by (auto simp: pool_inv_def collect_start_def in_set_enumerate_eq)
qed

lemma pool_step:
  assumes "collect_step registry E has_context workers p p'" "pool_inv registry E has_context workers reqs p"
  shows "pool_inv registry E has_context workers reqs p' \<and> pool_work p = Suc (pool_work p')"
  using assms
proof cases
  case (send_job job rest)
  with assms(2) show ?thesis by (auto simp: pool_inv_def pool_work_def)
next
  case (store_report before i req after H w r w')
  from store_report assms(2) have i: "i < length reqs" "req = reqs ! i" by (auto simp: pool_inv_def)
  with store_report have r: "reported_for registry E has_context (reqs ! i) r" by (auto simp: reported_for_def)
  have "j \<in> fst ` set (poRunning p' @ poQueue p')
      \<or> (\<exists>r. poResults p' ! j = Some r \<and> reported_for registry E has_context (reqs ! j) r)" if j: "j < length reqs" for j
  proof (cases "j = i")
    case True
    with i r store_report assms(2) show ?thesis by (auto simp: pool_inv_def)
  next
    case False
    from assms(2) j have "j \<in> fst ` set (poRunning p @ poQueue p)
      \<or> (\<exists>r. poResults p ! j = Some r \<and> reported_for registry E has_context (reqs ! j) r)"
      unfolding pool_inv_def by blast
    with False store_report show ?thesis by auto
  qed
  moreover have "length (poResults p') = length reqs \<and> length (poRunning p') \<le> workers
     \<and> (\<forall>(i, req) \<in> set (poRunning p' @ poQueue p'). i < length reqs \<and> req = reqs ! i)"
    using store_report assms(2) by (auto simp: pool_inv_def)
  ultimately show ?thesis using store_report by (auto simp: pool_inv_def pool_work_def)
qed

lemma pool_steps:
  "(collect_step registry E has_context workers ^^ k) (collect_start reqs) p \<Longrightarrow>
     pool_inv registry E has_context workers reqs p \<and> pool_work p + k = 2 * length reqs"
proof (induction k arbitrary: p)
  case 0
  then show ?case using pool_start by (auto simp: pool_work_def collect_start_def)
next
  case (Suc k)
  then obtain q where "(collect_step registry E has_context workers ^^ k) (collect_start reqs) q"
    "collect_step registry E has_context workers q p" by auto
  with Suc.IH pool_step show ?case by fastforce
qed

lemma pool_progress:
  assumes "0 < workers" "\<not> collected_all p"
  shows "\<exists>p'. collect_step registry E has_context workers p p'"
proof (cases "poRunning p")
  case Nil
  with assms obtain job rest where "poQueue p = job # rest" by (cases "poQueue p") (auto simp: collected_all_def)
  then show ?thesis using collect_step.send_job [of p job rest workers registry E has_context] Nil assms(1) by auto
next
  case (Cons job after)
  obtain i req where job: "job = (i, req)" by (cases job)
  obtain r w' where "execute_gate undefined registry E has_context req undefined = (r, w')"
    by (cases "execute_gate undefined registry E has_context req undefined")
  then show ?thesis using collect_step.store_report [of p "[]" i req after] Cons job by (metis append_Nil)
qed

lemma collect_limit_positive: "0 < collect_limit cpus limit n"
  by (simp add: collect_limit_def)

lemma collected_results:
  assumes "pool_inv registry E has_context workers reqs p" "collected_all p"
  shows "length (poResults p) = length reqs
    \<and> (\<forall>i < length reqs. \<exists>r. poResults p ! i = Some r \<and> reported_for registry E has_context (reqs ! i) r)"
  using assms by (auto simp: pool_inv_def collected_all_def)

text \<open>
  C40: The worker pool always comes to its end, and with every report in its place: in every interleaving
  of sending jobs and finishing executions, a step is possible until all is collected, all is collected
  after exactly two steps for each request, no more than the limit of executions overlap, and at the end
  slot i holds the report of an execution of request i.
\<close>

theorem collect_completes:
  assumes "(collect_step registry E has_context (collect_limit cpus limit (length reqs)) ^^ k) (collect_start reqs) p"
  shows "(collected_all p \<longleftrightarrow> k = 2 * length reqs) \<and> k \<le> 2 * length reqs
    \<and> (\<not> collected_all p \<longrightarrow> (\<exists>p'. collect_step registry E has_context (collect_limit cpus limit (length reqs)) p p'))
    \<and> length (poRunning p) \<le> collect_limit cpus limit (length reqs)
    \<and> (collected_all p \<longrightarrow> length (poResults p) = length reqs
         \<and> (\<forall>i < length reqs. \<exists>r. poResults p ! i = Some r \<and> reported_for registry E has_context (reqs ! i) r))"
proof -
  note run = pool_steps [OF assms]
  have "collected_all p \<longleftrightarrow> pool_work p = 0" by (auto simp: collected_all_def pool_work_def)
  moreover have "length (poRunning p) \<le> collect_limit cpus limit (length reqs)" using run by (simp add: pool_inv_def)
  ultimately show ?thesis
    using run collected_results pool_progress [OF collect_limit_positive] by (auto dest: collected_results)
qed

theorem collect_completes_witness:
  "\<exists>req p. (collect_step (new_registry :: unit registry) sample_engines True (collect_limit 8 0 (length [req])) ^^ 2)
       (collect_start [req]) p \<and> collected_all p
     \<and> (\<exists>r. poResults p = [Some r] \<and> reported_for (new_registry :: unit registry) sample_engines True req r)"
proof -
  obtain req where "sample_like req" by (rule sample_request)
  let ?step = "collect_step (new_registry :: unit registry) sample_engines True (collect_limit 8 0 (length [req]))"
  have "\<not> collected_all (collect_start [req])" by (simp add: collected_all_def collect_start_def)
  with pool_progress [OF collect_limit_positive] obtain q where q: "?step (collect_start [req]) q" by blast
  with pool_step [OF q pool_start] have "pool_work q = 1" by (simp add: pool_work_def collect_start_def)
  then have "\<not> collected_all q" by (auto simp: collected_all_def pool_work_def)
  with pool_progress [OF collect_limit_positive] obtain p where "?step q p" by blast
  with q have run: "(?step ^^ 2) (collect_start [req]) p" by (auto simp: numeral_2_eq_2)
  from collect_completes [OF run] obtain r where "collected_all p" "length (poResults p) = 1" "poResults p ! 0 = Some r"
    "reported_for (new_registry :: unit registry) sample_engines True req r" by auto
  then show ?thesis using run by (intro exI [of _ req] exI [of _ p]) (auto simp: length_Suc_conv)
qed

subsection \<open>The report-only run\<close>

lemma selected_entry:
  "req \<in> set (selected_from selected root n gs) \<Longrightarrow>
     \<exists>k < length gs. reqPosition req = n + int k \<and> reqGate req = gs ! k
       \<and> map_of (gtBindings (gs ! k)) ''go'' = Some (reqBinding req)"
proof (induction selected root n gs rule: selected_from.induct)
  case (2 selected root n g gs)
  show ?case
  proof (cases "req \<in> set (selected_from selected root (n + 1) gs)")
    case True
    with 2 obtain k where "k < length gs" "reqPosition req = n + 1 + int k" "reqGate req = gs ! k"
      "map_of (gtBindings (gs ! k)) ''go'' = Some (reqBinding req)" by (auto split: if_split_asm option.split_asm)
    then show ?thesis by (intro exI [of _ "Suc k"]) simp
  next
    case False
    with "2.prems" show ?thesis by (intro exI [of _ 0]) (auto split: if_split_asm option.split_asm)
  qed
qed simp

lemma selected_positions: "sorted_wrt (<) (map reqPosition (selected_from selected root n gs))"
proof (induction selected root n gs rule: selected_from.induct)
  case (2 selected root n g gs)
  have "\<forall>req \<in> set (selected_from selected root (n + 1) gs). n < reqPosition req"
    using selected_entry by fastforce
  with 2 show ?case by (auto split: option.split)
qed simp

lemma select_requests_Inr:
  "select_requests gates requested root = Inr reqs \<Longrightarrow> reqs = selected_from requested root 0 gates \<and> reqs \<noteq> []"
  by (auto simp: select_requests_def Let_def split: if_split_asm option.split_asm)

definition with_sink :: "gate_request \<Rightarrow> gate_request" where
  "with_sink req = req\<lparr>reqHasSink := True\<rparr>"

definition request_key :: "gate_request \<Rightarrow> gate \<times> binding \<times> int" where
  "request_key req = (reqGate req, reqBinding req, reqPosition req)"

lemma prepared_keys:
  assumes "prepare_requests registry lines selected = Inr reqs"
  shows "map request_key (map with_sink reqs) = map request_key selected"
proof -
  from assms have len: "length reqs = length selected"
    and each: "\<And>k. k < length selected \<Longrightarrow> prepare_request registry lines k (selected ! k) = Inr (reqs ! k)"
    by (simp_all add: prepare_requests_def collect_all_Inr)
  have same: "request_key (with_sink r) = request_key s" if "prepare_request registry lines k s = Inr r" for k r s
    using that by (auto simp: prepare_request_def with_sink_def request_key_def split: option.split_asm if_split_asm)
  show ?thesis by (rule nth_equalityI) (simp_all add: len same [OF each])
qed

lemma selected_runs:
  assumes "load_all E parse_duration supply S = Inr gates" "honest_store S" "int (length gates) \<le> max_int"
    and "req \<in> set (selected_from selected root 0 gates)"
  shows "request_runs E req \<and> 0 \<le> reqPosition req \<and> reqPosition req \<le> max_int"
proof -
  from selected_entry [OF assms(4)] obtain k where k: "k < length gates" "reqPosition req = int k" "reqGate req = gates ! k"
    "map_of (gtBindings (gates ! k)) ''go'' = Some (reqBinding req)" by auto
  with load_all_compiled [OF assms(1,2)] have g: "valid_gate (reqGate req)" "obtainable_gate E (reqGate req)"
    by (auto simp: list_all_length)
  have "(''go'', reqBinding req) \<in> set (gtBindings (reqGate req))" using k by (auto dest: map_of_SomeD)
  with valid_gate_entry [OF g(2,1)] g k assms(3) show ?thesis by (auto simp: request_runs_def)
qed

lemma request_key_runs: "request_key a = request_key b \<Longrightarrow> request_runs E a = request_runs E b \<and> reqPosition a = reqPosition b"
  by (simp add: request_key_def request_runs_def)

lemma sorted_positions_unique:
  assumes "mset xs = mset ys" "sorted_wrt (\<lambda>a b. grPosition a < grPosition b) xs"
    and "sorted_wrt (\<lambda>a b. grPosition a < grPosition b) ys"
  shows "xs = ys"
proof -
  have s: "sorted (map grPosition zs) \<and> distinct (map grPosition zs)"
    if "sorted_wrt (\<lambda>a b. grPosition a < grPosition b) zs" for zs
  proof -
    from that have "sorted_wrt (<) (map grPosition zs)" by (simp add: sorted_wrt_map)
    then show ?thesis by (simp add: strict_sorted_iff)
  qed
  have set: "set xs = set ys" using assms(1) by (metis set_mset_mset)
  have inj: "inj_on grPosition (set xs)" using s [OF assms(2)] by (simp add: distinct_map)
  show ?thesis using s [OF assms(2)] s [OF assms(3)] set inj
    by (intro map_sorted_distinct_set_unique [of grPosition]) simp_all
qed

lemma collected_reports:
  assumes "(collect_step (new_registry :: 'w registry) E True workers)\<^sup>*\<^sup>* (collect_start reqs) p" "collected_all p"
    and "\<forall>req \<in> set reqs. request_runs E req \<and> 0 \<le> reqPosition req \<and> reqPosition req \<le> max_int"
  shows "length (poResults p) = length reqs
    \<and> (\<forall>i < length reqs. validate_gate_report (the (poResults p ! i)) 0 = None \<and> placed (the (poResults p ! i))
         \<and> framed (reqs ! i) (the (poResults p ! i)))"
proof -
  from assms(1) obtain k where "(collect_step (new_registry :: 'w registry) E True workers ^^ k) (collect_start reqs) p"
    by (auto simp: rtranclp_power)
  from pool_steps [OF this] have inv: "pool_inv (new_registry :: 'w registry) E True workers reqs p" by blast
  note results = collected_results [OF inv assms(2)]
  have "validate_gate_report (the (poResults p ! i)) 0 = None \<and> placed (the (poResults p ! i))
         \<and> framed (reqs ! i) (the (poResults p ! i))" if i: "i < length reqs" for i
  proof -
    from results i obtain r H w w' where r: "poResults p ! i = Some r"
      "execute_gate (H :: 'w host) new_registry E True (reqs ! i) w = (r, w')"
      by (auto simp: reported_for_def)
    have ok: "request_runs E (reqs ! i)" "0 \<le> reqPosition (reqs ! i)" "reqPosition (reqs ! i) \<le> max_int"
      using assms(3) i by simp_all
    obtain b d where b: "concluded H E (reqs ! i) b" "0 \<le> d" "r = b\<lparr>grDurationMS := d\<rparr>"
      by (rule execute_concluded [OF ok(1) r(2)])
    have "framed (reqs ! i) r" using b by (simp add: concluded_def)
    with concluded_sound [OF ok(1,2) b(1,2)] b(3) ok r(1) show ?thesis
      by (simp add: validate_gate_report_None placed_def framed_def)
  qed
  with results show ?thesis by blast
qed

text \<open>
  C16: A report-only run never loses its results to its own validation. Take the gates that loading
  returned, the requests selected from them, and any interleaving of the workers to its end, with any
  behaviour of tools, files, clock and sinks: if no two findings share a digest, composing the report
  succeeds and the ledger's validation accepts it; it holds one report for each request, in the order
  of the gates, and the process exits with 4 if a gate errored, else 1 if a gate blocks, else 5.
\<close>

theorem report_only_run_accepted:
  assumes "load_all E parse_duration supply S = Inr gates" "honest_store S" "int (length gates) \<le> max_int"
    and "select_requests gates requested root = Inr selected"
    and "prepare_requests (new_registry :: 'w registry) (diffLines d) selected = Inr reqs"
    and "validate_diff d = None" "valid_key repo_id" "0 < started"
    and "(collect_step (new_registry :: 'w registry) E True workers)\<^sup>*\<^sup>* (collect_start (map with_sink reqs)) p"
    and "collected_all p" "collision_free (all_findings (map the (poResults p)))"
  shows "\<exists>r. compose_report run_id repo_id started ended d (map the (poResults p)) = Inr r
    \<and> validate_report r run_id = None \<and> repGates r = map the (poResults p)
    \<and> list_all2 framed (map with_sink reqs) (repGates r)
    \<and> resolve_exit (Some (Coded (Some (exit_code (repVerdict r)))))
       = (if some_errored (repGates r) then 4 else if some_blocking (repGates r) then 1 else 5)"
proof -
  let ?gates = "map the (poResults p)" and ?reqs = "map with_sink reqs"
  note selected = select_requests_Inr [OF assms(4)] and keys = prepared_keys [OF assms(5)]
  have len: "length ?reqs = length selected" using keys by (metis length_map)
  have key: "request_key (?reqs ! i) = request_key (selected ! i)" if "i < length selected" for i
    using keys that len by (metis nth_map)
  have runs: "request_runs E req \<and> 0 \<le> reqPosition req \<and> reqPosition req \<le> max_int" if req: "req \<in> set ?reqs" for req
  proof -
    from req obtain i where i: "i < length selected" "req = ?reqs ! i" using len by (metis in_set_conv_nth)
    then have "selected ! i \<in> set (selected_from requested root 0 gates)" using selected by simp
    from selected_runs [OF assms(1,2,3) this] request_key_runs [OF key [OF i(1)], of E] i(2) show ?thesis by simp
  qed
  from collected_reports [OF assms(9,10)] runs
  have results: "length (poResults p) = length ?reqs" and each: "\<And>i. i < length ?reqs \<Longrightarrow>
      validate_gate_report (?gates ! i) 0 = None \<and> placed (?gates ! i) \<and> framed (?reqs ! i) (?gates ! i)"
    by auto
  have "reqPosition (?reqs ! i) = reqPosition (selected ! i)" if "i < length selected" for i
    using key [OF that] by (simp add: request_key_def)
  then have "map reqPosition ?reqs = map reqPosition selected" using len by (intro nth_equalityI) simp_all
  then have order: "sorted_wrt (<) (map reqPosition ?reqs)" using selected selected_positions by metis
  have "map grPosition ?gates = map reqPosition ?reqs"
    using results each by (intro nth_equalityI) (simp_all add: framed_def)
  with order have sorted: "sorted_wrt (<) (map grPosition ?gates)" by simp
  have all: "list_all (\<lambda>g. validate_gate_report g 0 = None) ?gates" "list_all placed ?gates"
    using each results by (simp_all add: list_all_length)
  have "?gates \<noteq> []" using results selected len by auto
  moreover have "distinct (map grPosition ?gates)" using sorted by (simp add: strict_sorted_iff)
  ultimately obtain r where r: "compose_report run_id repo_id started ended d ?gates = Inr r"
    "validate_report r run_id = None" "mset (repGates r) = mset ?gates"
    "sorted_wrt (\<lambda>a b. grPosition a < grPosition b) (repGates r)"
    "resolve_exit (Some (Coded (Some (exit_code (repVerdict r)))))
       = (if some_errored ?gates then 4 else if some_blocking ?gates then 1 else 5)"
    using composed_accepted [OF assms(6) _ all(1,2) _ assms(11,7,8)] by blast
  have "repGates r = ?gates"
    using sorted by (intro sorted_positions_unique [OF r(3,4)]) (simp add: sorted_wrt_map)
  moreover have "list_all2 framed ?reqs ?gates" using each results by (simp add: list_all2_conv_all_nth)
  ultimately show ?thesis using r by auto
qed

subsection \<open>A run\<close>

definition sample_store :: gate_store where
  "sample_store = \<lparr>
     stShipped = (\<lambda>_. Inr (Some \<lparr>
       gdManifest = Inr \<lparr>mwName = ''vet'', mwDescription = ''vet'', mwCostClass = fast, mwFixPolicy = report_only,
         mwScope = repo_scope, mwLocation = Some ''point'', mwBlocking = Some [sev_error], mwTimeout = Some ''60ns''\<rparr>,
       gdEntries = Inr [(''gate.toml'', None), (''go'', Some (Inr \<lparr>bwLanguage = ''go'', bwTool = ''lint'',
         bwCommand = [''lint''], bwSuccessExits = None, bwFindingExits = Some [1], bwNormalizer = ''golangci-json'',
         bwRuleID = [], bwMessage = [], bwSettings = None, bwSeverityMap = [(''default'', sev_error)],
         bwVersion = None, bwAliases = []\<rparr>))]\<rparr>)),
     stShippedEntries = Inr [(''vet'', Directory)], stOverrideDir = [], stOverrideRoot = Missing,
     stOverrideKind = (\<lambda>_. Missing), stOverrideWalk = (\<lambda>_. []),
     stOverride = (\<lambda>_. \<lparr>gdManifest = Inl (''unused'', []), gdEntries = Inl (''unused'', [])\<rparr>),
     stOverrideEntries = Inr []\<rparr>"

lemma sample_store_honest: "honest_store sample_store"
  by (simp add: honest_store_def honest_directory_def sample_store_def)

lemma sample_loads:
  assumes g: "compile_gate sample_engines 0 sample_manifest [(''go'', sample_wire)] = Inr g"
  shows "load_all sample_engines (\<lambda>_. Some 60) (\<lambda>_. 0) sample_store = Inr [g]"
proof -
  have trims: "trim_space ''vet'' \<noteq> []" "trim_space ''go'' \<noteq> []"
    by (simp_all add: trim_space_nonblank byte_def is_space_def)
  have component: "validate_component label ''vet'' = None" "validate_component label ''go'' = None" for label
    by (simp_all add: validate_component_def dot_def dotdot_def contains_any_def slash_def backslash_def)
  have manifest: "validate_manifest sample_manifest = None" using compile_gate_Inr [OF g] by simp
  have same: "wire.truncate sample_wire = sample_wire" by (simp add: wire.truncate_def)
  have wire: "validate_binding_value sample_engines sample_wire = None"
    using g by (auto simp: compile_gate_def same split: option.split_asm if_split_asm sum.split_asm
        dest!: clone_binding_equal)
  show ?thesis
    by (simp add: load_all_def sample_store_def load_names_def load_def component load_shipped_def load_gate_def
        to_manifest_def to_binding_def trims Let_def manifest [unfolded sample_manifest_def]
        wire [unfolded sample_wire_def] no_version_def g [unfolded sample_manifest_def sample_wire_def])
qed

theorem report_only_run_accepted_witness:
  "\<exists>g p r. load_all sample_engines (\<lambda>_. Some 60) (\<lambda>_. 0) sample_store = Inr [g] \<and> collected_all p
     \<and> compose_report ''run'' demo_id 5 6 demo_diff (map the (poResults p)) = Inr r \<and> validate_report r ''run'' = None
     \<and> length (repGates r) = 1"
proof -
  obtain g where g: "compile_gate sample_engines 0 sample_manifest [(''go'', sample_wire)] = Inr g"
    using sample_compiles by blast
  obtain b where b: "gtBindings g = [(''go'', b)]" "wrLanguage b = ''go''"
    "sample_like \<lparr>reqGate = g, reqBinding = b, reqPosition = 0, reqRoot = ''/r'', reqHasSink = True, reqChangedLines = None\<rparr>"
    (is "sample_like ?req") by (rule sample_gate [OF g])
  let ?selected = "?req\<lparr>reqHasSink := False\<rparr>"
  have selected: "select_requests [g] [] ''/r'' = Inr [?selected]" by (simp add: select_requests_def b)
  have scope: "mfScope (gtManifest g) \<noteq> diff_scope"
    using compile_gate_Inr [OF g] by (simp add: sample_manifest_def repo_scope_def diff_scope_def)
  have prepared: "prepare_requests (new_registry :: unit registry) (diffLines demo_diff) [?selected] = Inr [?selected]"
    using scope by (simp add: prepare_requests_def prepare_request_def registry_for_def new_registry_def b)
  have sink: "map with_sink [?selected] = [?req]" by (simp add: with_sink_def)
  let ?r = "new_gate_report g b 0 \<lparr>grFindings := [], grStatus := gate_passed, grDurationMS := 0\<rparr>"
  let ?step = "collect_step (new_registry :: unit registry) sample_engines True 1"
  have run: "execute_gate quiet_host new_registry sample_engines True ?req () = (?r, ())" using quiet_run [OF b(3)] by simp
  let ?mid = "\<lparr>poQueue = [], poRunning = [(0, ?req)], poResults = [None]\<rparr>"
  let ?last = "\<lparr>poQueue = [], poRunning = [], poResults = [Some ?r]\<rparr>"
  have "?step (collect_start [?req]) ?mid"
    using collect_step.send_job [of "collect_start [?req]" "(0, ?req)" "[]" 1 new_registry sample_engines True]
    by (simp add: collect_start_def)
  moreover have "?step ?mid ?last"
    using collect_step.store_report [of ?mid "[]" 0 ?req "[]" quiet_host new_registry sample_engines True "()" ?r "()" 1] run
    by simp
  ultimately have steps: "?step\<^sup>*\<^sup>* (collect_start (map with_sink [?selected])) ?last"
    unfolding sink by (meson rtranclp.rtrancl_into_rtrancl rtranclp.rtrancl_refl)
  have key: "valid_key demo_id"
  proof -
    have "runes (replicate n (CHR ''a'')) = replicate n 97" for n by (induction n) (simp_all add: byte_def)
    then show ?thesis by (simp add: valid_key_def demo_id_def list_all_length)
  qed
  have all: "collected_all ?last" "collision_free (all_findings (map the (poResults ?last)))"
    by (simp_all add: collected_all_def all_findings_def collision_free_def)
  have "int (length [g]) \<le> max_int" "(0 :: int) < 5" by (simp_all add: max_int_def)
  from report_only_run_accepted [OF sample_loads [OF g] sample_store_honest this(1) selected prepared demo_diff_valid key
      this(2) steps all, of "''run''" 6]
  show ?thesis using sample_loads [OF g] all(1) by fastforce
qed

end
