(* ===== verification/Modules.thy ===== *)
theory Modules
  imports GitActions GoJson
begin

text \<open>
  \<open>internal/flywheel/module.go\<close>: the module confinement of a validation root. The reader of \<open>go.mod\<close>
  splits lines into tokens, looks for \<open>replace\<close> and \<open>ignore\<close> directives and rejects replacements that
  leave the root. The file system is a record of functions over an arbitrary world; \<open>bufio.Scanner\<close>
  and \<open>strconv.Unquote\<close> are written out.
\<close>

subsection \<open>Fallible actions\<close>

text \<open>An action may end early with a value of its own type; mostly that is the text of an error.\<close>

type_synonym ('w, 'e, 'a) action = "'w \<Rightarrow> ('e, 'a) res \<times> 'w"

type_synonym ('w, 'a) fallible = "('w, message, 'a) action"

definition accept :: "'a \<Rightarrow> ('w, 'e, 'a) action" where
  "accept a w = (Inr a, w)"

definition reject :: "'e \<Rightarrow> ('w, 'e, 'a) action" where
  "reject e w = (Inl e, w)"

definition proceed :: "('w, 'e, 'a) action \<Rightarrow> ('a \<Rightarrow> ('w, 'e, 'b) action) \<Rightarrow> ('w, 'e, 'b) action" where
  "proceed m f w = (case m w of (Inl e, w') \<Rightarrow> (Inl e, w') | (Inr a, w') \<Rightarrow> f a w')"

definition asking :: "('w \<Rightarrow> 'a \<times> 'w) \<Rightarrow> ('w, 'e, 'a) action" where
  "asking f w = (case f w of (a, w') \<Rightarrow> (Inr a, w'))"

definition requiring :: "bool \<Rightarrow> 'e \<Rightarrow> ('w, 'e, unit) action" where
  "requiring c e = (if c then accept () else reject e)"

lemma proceed_accepts:
  "proceed m f w = (Inr b, w') \<longleftrightarrow> (\<exists>a w1. m w = (Inr a, w1) \<and> f a w1 = (Inr b, w'))"
  by (auto simp: proceed_def split: prod.splits sum.splits)

lemma accept_accepts [simp]: "accept a w = (Inr b, w') \<longleftrightarrow> b = a \<and> w' = w"
  by (auto simp: accept_def)

lemma reject_accepts [simp]: "\<not> reject e w = (Inr b, w')"
  by (simp add: reject_def)

lemma asking_accepts [simp]: "asking f w = (Inr a, w') \<longleftrightarrow> f w = (a, w')"
  by (auto simp: asking_def split: prod.splits)

lemma requiring_accepts [simp]: "requiring c e w = (Inr u, w') \<longleftrightarrow> c \<and> w' = w"
  by (simp add: requiring_def)

lemma proceed_rejects:
  "proceed m f w = (Inl e, w') \<longleftrightarrow>
     m w = (Inl e, w') \<or> (\<exists>a w1. m w = (Inr a, w1) \<and> f a w1 = (Inl e, w'))"
  by (auto simp: proceed_def split: prod.splits sum.splits)

lemma reject_rejects [simp]: "reject e w = (Inl e', w') \<longleftrightarrow> e' = e \<and> w' = w"
  by (auto simp: reject_def)

lemma accept_rejects [simp]: "accept a w \<noteq> (Inl e, w')"
  by (simp add: accept_def)

lemma asking_rejects [simp]: "asking f w \<noteq> (Inl e, w')"
  by (simp add: asking_def split: prod.splits)

lemma requiring_rejects [simp]: "requiring c e w = (Inl e', w') \<longleftrightarrow> \<not> c \<and> e' = e \<and> w' = w"
  by (auto simp: requiring_def)

lemmas fallible_accepts = proceed_accepts accept_accepts reject_accepts asking_accepts requiring_accepts

text \<open>What \<open>os.Lstat\<close> says of a path, and what opening and reading a file up to a limit gives.\<close>

datatype lstat = LstatMissing | LstatFailed | LstatLink | LstatDir | LstatRegular | LstatSpecial

datatype file_read = OpenFailed | ReadFailed | ReadContents gostring

record 'w tree_fs =
  fsLstat :: "gostring \<Rightarrow> 'w \<Rightarrow> lstat \<times> 'w"
  fsRead :: "gostring \<Rightarrow> nat \<Rightarrow> 'w \<Rightarrow> file_read \<times> 'w"
  fsAbs :: "gostring \<Rightarrow> 'w \<Rightarrow> gostring option \<times> 'w"
  fsEval :: "gostring \<Rightarrow> 'w \<Rightarrow> gostring option \<times> 'w"

subsection \<open>Unquoting\<close>

definition hex_value :: "char \<Rightarrow> nat option" where
  "hex_value c =
     (let b = byte c in
      if 48 \<le> b \<and> b \<le> 57 then Some (b - 48)
      else if 97 \<le> b \<and> b \<le> 102 then Some (b - 87)
      else if 65 \<le> b \<and> b \<le> 70 then Some (b - 55) else None)"

fun hex_number :: "nat \<Rightarrow> gostring \<Rightarrow> nat option" where
  "hex_number acc [] = Some acc"
| "hex_number acc (c # cs) = (case hex_value c of None \<Rightarrow> None | Some v \<Rightarrow> hex_number (acc * 16 + v) cs)"

definition octal_value :: "char \<Rightarrow> nat option" where
  "octal_value c = (if 48 \<le> byte c \<and> byte c \<le> 55 then Some (byte c - 48) else None)"

text \<open>\<open>utf8.ValidRune\<close>.\<close>

definition valid_rune :: "nat \<Rightarrow> bool" where
  "valid_rune r \<longleftrightarrow> r < 55296 \<or> (57344 \<le> r \<and> r \<le> 1114111)"

definition hex_escape :: "char \<Rightarrow> nat \<Rightarrow> gostring \<Rightarrow> (gostring \<times> gostring) option" where
  "hex_escape e n s =
     (if length s < n then None
      else (case hex_number 0 (take n s) of
              None \<Rightarrow> None
            | Some v \<Rightarrow>
                if e = CHR ''x'' then Some ([char_of v], drop n s)
                else if valid_rune v then Some (encode_rune v, drop n s) else None))"

definition octal_escape :: "char \<Rightarrow> gostring \<Rightarrow> (gostring \<times> gostring) option" where
  "octal_escape e s =
     (case s of
        a # b # rest \<Rightarrow>
          (case (octal_value e, octal_value a, octal_value b) of
             (Some x, Some y, Some z) \<Rightarrow>
               if 64 * x + 8 * y + z > 255 then None else Some ([char_of (64 * x + 8 * y + z)], rest)
           | _ \<Rightarrow> None)
      | _ \<Rightarrow> None)"

text \<open>What follows a backslash in a text between double quotes.\<close>

definition escape_value :: "char \<Rightarrow> gostring \<Rightarrow> (gostring \<times> gostring) option" where
  "escape_value e s =
     (if e = CHR ''a'' then Some ([char_of (7 :: nat)], s)
      else if e = CHR ''b'' then Some ([char_of (8 :: nat)], s)
      else if e = CHR ''f'' then Some ([char_of (12 :: nat)], s)
      else if e = CHR ''n'' then Some ([char_of (10 :: nat)], s)
      else if e = CHR ''r'' then Some ([char_of (13 :: nat)], s)
      else if e = CHR ''t'' then Some ([char_of (9 :: nat)], s)
      else if e = CHR ''v'' then Some ([char_of (11 :: nat)], s)
      else if e = CHR ''x'' then hex_escape e 2 s
      else if e = CHR ''u'' then hex_escape e 4 s
      else if e = CHR ''U'' then hex_escape e 8 s
      else if octal_value e \<noteq> None then octal_escape e s
      else if e = escape_char \<or> e = quote_char then Some ([e], s)
      else None)"

lemma escape_value_shorter: "escape_value e s = Some (v, rest) \<Longrightarrow> length rest \<le> length s"
  by (auto simp: escape_value_def hex_escape_def octal_escape_def split: if_splits option.splits list.splits)

function unquote_body :: "gostring \<Rightarrow> gostring option" where
  "unquote_body [] = Some []"
| "unquote_body (c # s) =
     (if c = lf then None
      else if byte c \<ge> 128
      then (case decode_rune (c # s) of
              (r, n) \<Rightarrow> map_option (append (encode_rune r)) (unquote_body (drop (n - 1) s)))
      else if c \<noteq> escape_char then map_option (Cons c) (unquote_body s)
      else (case s of
              [] \<Rightarrow> None
            | e # rest \<Rightarrow>
                (case escape_value e rest of
                   None \<Rightarrow> None
                 | Some (v, rest) \<Rightarrow> map_option (append v) (unquote_body rest))))"
  by pat_completeness auto
termination
  by (relation "measure length") (auto dest: escape_value_shorter)

declare unquote_body.simps(2) [simp del]

definition back_quote :: char where "back_quote = CHR 0x60"

text \<open>\<open>strconv.Unquote\<close> of a text that starts with a back or double quote and ends with the same one.\<close>

definition unquote :: "char \<Rightarrow> gostring \<Rightarrow> gostring option" where
  "unquote q body = (if q = back_quote then Some (filter (\<lambda>c. c \<noteq> cr) body) else unquote_body body)"

subsection \<open>Tokens of a line\<close>

definition blank_bytes :: gostring where
  "blank_bytes = [CHR 0x20, CHR 0x09, cr]"

text \<open>The text up to the closing quote and the text after it.\<close>

fun close_quote :: "char \<Rightarrow> gostring \<Rightarrow> (gostring \<times> gostring) option" where
  "close_quote q [] = None"
| "close_quote q (c # s) =
     (if q = quote_char \<and> c = escape_char
      then (case s of
              [] \<Rightarrow> None
            | e # s' \<Rightarrow> map_option (\<lambda>(a, b). (c # e # a, b)) (close_quote q s'))
      else if c = q then Some ([], s)
      else map_option (\<lambda>(a, b). (c # a, b)) (close_quote q s))"

fun bare_token :: "gostring \<Rightarrow> gostring \<times> gostring" where
  "bare_token [] = ([], [])"
| "bare_token (c # s) =
     (if c \<in> set blank_bytes \<or> has_prefix (c # s) ''//'' then ([], c # s)
      else (case bare_token s of (a, b) \<Rightarrow> (c # a, b)))"

lemma close_quote_shorter: "close_quote q s = Some (a, b) \<Longrightarrow> length b < length s"
  by (induction q s arbitrary: a b rule: close_quote.induct) (fastforce split: if_splits list.splits)+

lemma bare_token_shorter: "length (snd (bare_token s)) \<le> length s"
  by (induction s) (auto split: prod.splits)

function module_line_tokens :: "gostring \<Rightarrow> gostring list option" where
  "module_line_tokens line =
     (case dropWhile (\<lambda>c. c \<in> set blank_bytes) line of
        [] \<Rightarrow> Some []
      | c # s \<Rightarrow>
          if has_prefix (c # s) ''//'' then Some []
          else if c = back_quote \<or> c = quote_char
          then (case close_quote c s of
                  None \<Rightarrow> None
                | Some (body, rest) \<Rightarrow>
                    (case unquote c body of
                       None \<Rightarrow> None
                     | Some v \<Rightarrow>
                         if rest \<noteq> [] \<and> hd rest \<notin> set blank_bytes then None
                         else map_option (Cons v) (module_line_tokens rest)))
          else (case bare_token (c # s) of
                  (t, rest) \<Rightarrow>
                    if has_prefix rest ''//'' then Some [t]
                    else map_option (Cons t) (module_line_tokens rest)))"
  by pat_completeness auto
termination
proof (relation "measure length")
  fix line c s x a b
  assume "dropWhile (\<lambda>c. c \<in> set blank_bytes) line = c # s" "close_quote c s = Some x" "(a, b) = x"
  then show "(b, line) \<in> measure length"
    using close_quote_shorter [of c s a b] length_dropWhile_le [of "\<lambda>c. c \<in> set blank_bytes" line] by auto
next
  fix line c s a b
  assume *: "dropWhile (\<lambda>c. c \<in> set blank_bytes) line = c # s" "\<not> has_prefix (c # s) ''//''"
    "(a, b) = bare_token (c # s)"
  then have "c \<notin> set blank_bytes" by (auto simp: dropWhile_eq_Cons_conv)
  with * have "length b \<le> length s" using bare_token_shorter [of s] by (auto split: prod.splits)
  with * show "(b, line) \<in> measure length"
    using length_dropWhile_le [of "\<lambda>c. c \<in> set blank_bytes" line] by auto
qed simp

declare module_line_tokens.simps [simp del]

subsection \<open>Lines\<close>

text \<open>
  \<open>bufio.Scanner\<close> with \<open>ScanLines\<close> and its buffer of 64 KiB: the lines before the first one that does
  not fit, and whether there was such a line.
\<close>

definition scanner_limit :: nat where "scanner_limit = 65536"

definition drop_return :: "gostring \<Rightarrow> gostring" where
  "drop_return line = trim_suffix line [cr]"

definition scan_lines :: "gostring \<Rightarrow> gostring list \<times> bool" where
  "scan_lines s =
     (let pieces = split_on lf s;
          lines = (if last pieces = [] then butlast pieces else pieces)
      in (map drop_return (takeWhile (\<lambda>l. length l < scanner_limit) lines),
          list_ex (\<lambda>l. length l \<ge> scanner_limit) lines))"

subsection \<open>Directives\<close>

definition windows_changed_path :: "gostring \<Rightarrow> bool" where
  "windows_changed_path f \<longleftrightarrow> 2 \<le> length f \<and> is_letter (f ! 0) \<and> f ! 1 = CHR '':''"

text \<open>The components of a path below a root that exist, up to the first symbolic link.\<close>

fun path_has_symlink :: "'w tree_fs \<Rightarrow> gostring \<Rightarrow> gostring list \<Rightarrow> ('w, bool) fallible" where
  "path_has_symlink F current [] = accept False"
| "path_has_symlink F current (c # cs) =
     proceed (asking (fsLstat F (path_join current c))) (\<lambda>info.
       if info = LstatMissing then accept False
       else if info = LstatFailed then reject ''path cannot be inspected''
       else if info = LstatLink then accept True
       else path_has_symlink F (path_join current c) cs)"

definition changed_path_has_symlink :: "'w tree_fs \<Rightarrow> gostring \<Rightarrow> gostring \<Rightarrow> ('w, bool) fallible" where
  "changed_path_has_symlink F root clean = path_has_symlink F root (split_on slash clean)"

text \<open>The code drops an inner error for its own, or wraps its text.\<close>

definition relabel_by :: "(message \<Rightarrow> 'e) \<Rightarrow> ('w, 'a) fallible \<Rightarrow> ('w, 'e, 'a) action" where
  "relabel_by f m w = (case m w of (Inl e, w') \<Rightarrow> (Inl (f e), w') | (Inr a, w') \<Rightarrow> (Inr a, w'))"

definition relabel :: "'e \<Rightarrow> ('w, 'a) fallible \<Rightarrow> ('w, 'e, 'a) action" where
  "relabel e m = relabel_by (\<lambda>_. e) m"

lemma relabel_by_accepts [simp]: "relabel_by f m w = (Inr a, w') \<longleftrightarrow> m w = (Inr a, w')"
  by (auto simp: relabel_by_def split: prod.splits sum.splits)

lemma relabel_accepts [simp]: "relabel e m w = (Inr a, w') \<longleftrightarrow> m w = (Inr a, w')"
  by (simp add: relabel_def)

fun last_arrow :: "nat \<Rightarrow> gostring list \<Rightarrow> nat option" where
  "last_arrow i [] = None"
| "last_arrow i (t # ts) =
     (case last_arrow (Suc i) ts of Some k \<Rightarrow> Some k | None \<Rightarrow> if t = ''=>'' then Some i else None)"

definition replace_target :: "'w tree_fs \<Rightarrow> gostring \<Rightarrow> gostring \<Rightarrow> ('w, unit) fallible" where
  "replace_target F root target =
     (if is_abs target \<or> windows_changed_path target \<or> backslash \<in> set target
      then reject ''validation module replacement escapes the snapshot''
      else if \<not> has_prefix target ''.'' then accept ()
      else (case path_rel root (path_join root target) of
              None \<Rightarrow> reject ''validation module replacement escapes the snapshot''
            | Some relative \<Rightarrow>
                if relative = dotdot \<or> has_prefix relative (dotdot @ [slash])
                then reject ''validation module replacement escapes the snapshot''
                else proceed (relabel ''validation module replacement is not confined''
                              (changed_path_has_symlink F root relative))
                       (\<lambda>linked. requiring (\<not> linked) ''validation module replacement is not confined'')))"

text \<open>\<open>applyValidationModuleDirective\<close>; the answer is whether the policy has an \<open>ignore\<close> directive now.\<close>

definition apply_directive ::
  "'w tree_fs \<Rightarrow> gostring \<Rightarrow> gostring \<Rightarrow> gostring list \<Rightarrow> bool \<Rightarrow> ('w, bool) fallible" where
  "apply_directive F root directive tokens ignores =
     (if directive = ''ignore''
      then (if length tokens \<noteq> 1 \<or> tokens ! 0 = []
            then reject ''validation module ignore directive is malformed'' else accept True)
      else (case last_arrow 0 tokens of
              None \<Rightarrow> reject ''validation module replacement is malformed''
            | Some arrow \<Rightarrow>
                if arrow < 1 \<or> arrow + 2 > length tokens \<or> length tokens - arrow - 1 > 2
                then reject ''validation module replacement is malformed''
                else if length tokens - arrow - 1 = 2 then accept ignores
                else proceed (replace_target F root (tokens ! (arrow + 1))) (\<lambda>_. accept ignores)))"

text \<open>The loop over the lines: the open block and whether an \<open>ignore\<close> directive was seen.\<close>

fun module_policy ::
  "'w tree_fs \<Rightarrow> gostring \<Rightarrow> bool \<Rightarrow> gostring \<Rightarrow> bool \<Rightarrow> gostring list \<Rightarrow> ('w, bool) fallible" where
  "module_policy F root broken block ignores [] =
     (if broken \<or> block \<noteq> [] then reject ''validation module metadata is malformed'' else accept ignores)"
| "module_policy F root broken block ignores (line # lines) =
     (case module_line_tokens line of
        None \<Rightarrow> reject ''validation module metadata is malformed''
      | Some [] \<Rightarrow> module_policy F root broken block ignores lines
      | Some (t # ts) \<Rightarrow>
          if block \<noteq> []
          then (if t # ts = ['')''] then module_policy F root broken [] ignores lines
                else proceed (apply_directive F root block (t # ts) ignores)
                       (\<lambda>ignores. module_policy F root broken block ignores lines))
          else if ts = [''(''] \<and> t \<in> {''replace'', ''ignore''} then module_policy F root broken t ignores lines
          else if t \<in> {''replace'', ''ignore''}
          then proceed (apply_directive F root t ts ignores)
                 (\<lambda>ignores. module_policy F root broken block ignores lines)
          else module_policy F root broken block ignores lines)"

definition module_limit :: nat where "module_limit = 1048576"

definition read_module_policy :: "'w tree_fs \<Rightarrow> gostring \<Rightarrow> ('w, bool) fallible" where
  "read_module_policy F root =
     proceed (asking (fsLstat F root)) (\<lambda>info.
     if info \<noteq> LstatDir then reject ''validation module root is unsafe''
     else proceed (asking (fsLstat F (path_join root ''go.mod''))) (\<lambda>info.
     if info = LstatMissing then accept False
     else if info \<noteq> LstatRegular then reject ''open validation module metadata''
     else proceed (asking (fsRead F (path_join root ''go.mod'') (module_limit + 1))) (\<lambda>answer.
       case answer of
         OpenFailed \<Rightarrow> reject ''open validation module metadata''
       | ReadFailed \<Rightarrow> reject ''validation module metadata exceeds limits''
       | ReadContents contents \<Rightarrow>
           if length contents > module_limit then reject ''validation module metadata exceeds limits''
           else (case scan_lines contents of
                   (lines, broken) \<Rightarrow> module_policy F root broken [] False lines))))"

definition validate_module_confinement :: "'w tree_fs \<Rightarrow> gostring \<Rightarrow> ('w, unit) fallible" where
  "validate_module_confinement F root = proceed (read_module_policy F root) (\<lambda>_. accept ())"

subsection \<open>Confinement\<close>

text \<open>
  The directives a list of token lines gives, block by block: \<open>None\<close> when a line has no tokens or a
  block stays open.
\<close>

fun module_directives :: "gostring \<Rightarrow> gostring list \<Rightarrow> (gostring \<times> gostring list) list option" where
  "module_directives block [] = (if block = [] then Some [] else None)"
| "module_directives block (line # lines) =
     (case module_line_tokens line of
        None \<Rightarrow> None
      | Some [] \<Rightarrow> module_directives block lines
      | Some (t # ts) \<Rightarrow>
          if block \<noteq> []
          then (if t # ts = ['')''] then module_directives [] lines
                else map_option (Cons (block, t # ts)) (module_directives block lines))
          else if ts = [''(''] \<and> t \<in> {''replace'', ''ignore''} then module_directives t lines
          else if t \<in> {''replace'', ''ignore''} then map_option (Cons (t, ts)) (module_directives block lines)
          else module_directives block lines)"

text \<open>A replacement by another module, or by a directory below the root.\<close>

definition confined_target :: "gostring \<Rightarrow> gostring \<Rightarrow> bool" where
  "confined_target root target \<longleftrightarrow>
     \<not> is_abs target \<and> \<not> windows_changed_path target \<and> backslash \<notin> set target
     \<and> (has_prefix target ''.'' \<longrightarrow>
          (\<exists>relative. path_rel root (path_join root target) = Some relative \<and> relative \<noteq> dotdot
                      \<and> \<not> has_prefix relative (dotdot @ [slash])))"

definition confined_directive :: "gostring \<Rightarrow> gostring \<times> gostring list \<Rightarrow> bool" where
  "confined_directive root d \<longleftrightarrow>
     (case d of (directive, tokens) \<Rightarrow>
        if directive = ''ignore'' then length tokens = 1 \<and> tokens \<noteq> [[]]
        else (\<exists>old new. tokens = old @ ''=>'' # new \<and> old \<noteq> [] \<and> ''=>'' \<notin> set new
                \<and> (length new = 2 \<or> (\<exists>target. new = [target] \<and> confined_target root target))))"

lemma last_arrow_some:
  "last_arrow i ts = Some k \<Longrightarrow>
     \<exists>old new. ts = old @ ''=>'' # new \<and> k = i + length old \<and> ''=>'' \<notin> set new"
proof (induction ts arbitrary: i k)
  case (Cons t ts)
  show ?case
  proof (cases "last_arrow (Suc i) ts")
    case None
    have "last_arrow j ts = None \<Longrightarrow> ''=>'' \<notin> set ts" for j
      by (induction ts arbitrary: j) (auto split: option.splits if_splits)
    with None Cons.prems show ?thesis by (auto split: if_splits)
  next
    case (Some k')
    from Cons.IH [OF this] obtain old new
      where "ts = old @ ''=>'' # new" "k' = Suc i + length old" "''=>'' \<notin> set new" by blast
    with Some Cons.prems have "t # ts = (t # old) @ ''=>'' # new \<and> k = i + length (t # old) \<and> ''=>'' \<notin> set new"
      by simp
    then show ?thesis by blast
  qed
qed simp

lemma replace_target_confined:
  "replace_target F root target w = (Inr u, w') \<Longrightarrow> confined_target root target"
  by (auto simp: replace_target_def confined_target_def fallible_accepts split: if_splits option.splits)

lemma apply_directive_confined:
  assumes "apply_directive F root d tokens ignores w = (Inr b, w')"
  shows "confined_directive root (d, tokens)"
proof (cases "d = ''ignore''")
  case True
  with assms show ?thesis
    by (cases tokens) (auto simp: apply_directive_def confined_directive_def split: if_splits)
next
  case False
  with assms obtain arrow where arrow: "last_arrow 0 tokens = Some arrow"
    by (auto simp: apply_directive_def split: option.splits)
  from last_arrow_some [OF this] obtain old new
    where t: "tokens = old @ ''=>'' # new" "arrow = length old" "''=>'' \<notin> set new" by auto
  with False assms arrow have n: "old \<noteq> []" "new \<noteq> []" "length new \<le> 2"
    by (auto simp: apply_directive_def split: if_splits)
  show ?thesis
  proof (cases "length new = 2")
    case True
    with False t n show ?thesis by (auto simp: confined_directive_def)
  next
    case two: False
    with n obtain target where target: "new = [target]" by (cases new) (auto simp: length_Suc_conv le_Suc_eq numeral_2_eq_2)
    with False assms arrow t n have "replace_target F root target w = (Inr (), w')"
      by (auto simp: apply_directive_def nth_append fallible_accepts split: if_splits)
    from replace_target_confined [OF this] t n target
    have "tokens = old @ ''=>'' # new \<and> old \<noteq> [] \<and> ''=>'' \<notin> set new
        \<and> (length new = 2 \<or> (\<exists>target. new = [target] \<and> confined_target root target))" by blast
    with False show ?thesis unfolding confined_directive_def by auto
  qed
qed

lemma module_policy_confined:
  "module_policy F root broken block ignores lines w = (Inr b, w') \<Longrightarrow>
     \<exists>ds. module_directives block lines = Some ds \<and> (\<forall>d \<in> set ds. confined_directive root d) \<and> \<not> broken"
proof (induction F root broken block ignores lines arbitrary: w rule: module_policy.induct)
  case (2 F root broken block ignores line lines)
  show ?case
  proof (cases "module_line_tokens line")
    case None
    with "2.prems" show ?thesis by simp
  next
    case (Some tokens)
    show ?thesis
    proof (cases tokens)
      case Nil
      with Some 2 show ?thesis by simp
    next
      case (Cons t ts)
      note line = Some [unfolded Cons]
      have step: "\<exists>ds. module_directives block (line # lines) = Some ds \<and> (\<forall>d \<in> set ds. confined_directive root d) \<and> \<not> broken"
        if a: "proceed (apply_directive F root d toks ignores) (\<lambda>i. module_policy F root broken block i lines) w = (Inr b, w')"
          and IH: "\<And>i w. module_policy F root broken block i lines w = (Inr b, w') \<Longrightarrow>
            \<exists>ds. module_directives block lines = Some ds \<and> (\<forall>d \<in> set ds. confined_directive root d) \<and> \<not> broken"
          and dir: "module_directives block (line # lines) = map_option (Cons (d, toks)) (module_directives block lines)"
        for d toks
      proof -
        from a obtain i w1 where "apply_directive F root d toks ignores w = (Inr i, w1)"
          and r: "module_policy F root broken block i lines w1 = (Inr b, w')" by (auto simp: proceed_accepts)
        from apply_directive_confined [OF this(1)] IH [OF r] dir show ?thesis by auto
      qed
      consider "block \<noteq> []" "t # ts = ['')'']" | "block \<noteq> []" "t # ts \<noteq> ['')'']"
        | "block = []" "ts = [''('']" "t \<in> {''replace'', ''ignore''}"
        | "block = []" "\<not> (ts = [''(''] \<and> t \<in> {''replace'', ''ignore''})" "t \<in> {''replace'', ''ignore''}"
        | "block = []" "t \<notin> {''replace'', ''ignore''}" by blast
      then show ?thesis
      proof cases
        case 1
        with 2 line show ?thesis by simp
      next
        case 2
        with "2.prems" line
        have "proceed (apply_directive F root block (t # ts) ignores) (\<lambda>i. module_policy F root broken block i lines) w = (Inr b, w')"
          by (auto split: if_splits)
        then show ?thesis
          by (rule step) (use "2.IH"(3) [OF line refl] 2 line in auto)
      next
        case 3
        with 2 line show ?thesis by auto
      next
        case 4
        with "2.prems" line
        have "proceed (apply_directive F root t ts ignores) (\<lambda>i. module_policy F root broken block i lines) w = (Inr b, w')"
          by auto
        then show ?thesis
          by (rule step) (use "2.IH"(5) [OF line refl] 4 line in auto)
      next
        case 5
        with 2 line show ?thesis by auto
      qed
    qed
  qed
qed (auto split: if_splits)

text \<open>
  What \<open>ValidateModuleConfinement\<close> accepts: no \<open>go.mod\<close>, or one all of whose recognised directives are
  confined. A block opened without a space before its parenthesis is not recognised.
\<close>

lemma module_confinement:
  assumes "validate_module_confinement F root w = (Inr (), w')"
  shows "fst (fsLstat F root w) = LstatDir
    \<and> ((\<exists>w1. fst (fsLstat F (path_join root ''go.mod'') w1) = LstatMissing)
       \<or> (\<exists>w1 contents ds. fst (fsRead F (path_join root ''go.mod'') (module_limit + 1) w1) = ReadContents contents
            \<and> length contents \<le> module_limit \<and> module_directives [] (fst (scan_lines contents)) = Some ds
            \<and> (\<forall>d \<in> set ds. confined_directive root d)))"
proof -
  from assms obtain w1 b where r: "read_module_policy F root w = (Inr b, w1)"
    by (auto simp: validate_module_confinement_def proceed_accepts)
  then obtain w2 where root: "fsLstat F root w = (LstatDir, w2)"
    by (auto simp: read_module_policy_def fallible_accepts split: if_splits)
  obtain info w3 where info: "fsLstat F (path_join root ''go.mod'') w2 = (info, w3)" by force
  show ?thesis
  proof (cases "info = LstatMissing")
    case True
    with root info show ?thesis by (metis fst_conv)
  next
    case False
    obtain answer w4 where read: "fsRead F (path_join root ''go.mod'') (module_limit + 1) w3 = (answer, w4)" by force
    from r root info read False have "(case answer of
         OpenFailed \<Rightarrow> reject ''open validation module metadata''
       | ReadFailed \<Rightarrow> reject ''validation module metadata exceeds limits''
       | ReadContents contents \<Rightarrow>
           if length contents > module_limit then reject ''validation module metadata exceeds limits''
           else (case scan_lines contents of
                   (lines, broken) \<Rightarrow> module_policy F root broken [] False lines)) w4 = (Inr b, w1)"
      by (auto simp: read_module_policy_def proceed_def asking_def reject_def split: if_splits)
    then obtain contents where answer: "answer = ReadContents contents" and len: "length contents \<le> module_limit"
      and p: "module_policy F root (snd (scan_lines contents)) [] False (fst (scan_lines contents)) w4 = (Inr b, w1)"
      by (cases answer) (auto split: if_splits prod.splits)
    from module_policy_confined [OF p] read [unfolded answer] len root show ?thesis by (metis fst_conv)
  qed
qed

lemma compact_block_missed:
  "module_policy F root False [] False [''replace('', ''m => ../x'', '')''] w = (Inr False, w)"
proof -
  have "module_line_tokens ''replace('' = Some [''replace(''] \<and> module_line_tokens ''m => ../x'' = Some [''m'', ''=>'', ''../x'']
      \<and> module_line_tokens '')'' = Some ['')'']" by code_simp
  then show ?thesis by (simp add: accept_def)
qed

end
