(* ===== verification/Validation.thy ===== *)
theory Validation
  imports Modules Engine Suppressions
begin

text \<open>
  \<open>internal/flywheel/validate.go\<close>: the judgement on one attempt of the agent, as
  \<open>AttemptValidator.Validate\<close> gives it, and the choice of the Go packages a change affects. The file
  system, the context, \<open>go/build\<close>, the gates and the behavioral suite are a record of functions over an
  arbitrary world. Of \<open>test_integrity.go\<close>, the composition \<open>CheckIntegrity\<close> is here; its comparison of
  typed syntax trees is a function of two trees.
\<close>

subsection \<open>Paths a change may have\<close>

definition max_changed_package_files :: nat where "max_changed_package_files = 4096"
definition max_changed_package_path_bytes :: nat where "max_changed_package_path_bytes = 4096"
definition max_changed_package_entries :: int where "max_changed_package_entries = 65536"
definition max_validation_findings :: nat where "max_validation_findings = 10000"
definition max_validation_occurrences :: int where "max_validation_occurrences = 100000"
definition max_validation_evidence_bytes :: int where "max_validation_evidence_bytes = 33554432"
definition max_validation_gate_errors :: nat where "max_validation_gate_errors = 8192"

definition canonical_changed_path :: "gostring \<Rightarrow> (message, gostring) res" where
  "canonical_changed_path f =
     (if f = [] \<or> length f > max_changed_package_path_bytes \<or> trim_space f \<noteq> f \<or> nul_byte \<in> set f
         \<or> backslash \<in> set f
      then Inl ''invalid changed repository path''
      else if is_abs f \<or> has_prefix f ''//'' \<or> windows_changed_path f
      then Inl ''changed path must be repository-relative''
      else if path_clean f \<noteq> f \<or> path_clean f = dot \<or> path_clean f = dotdot
              \<or> has_prefix (path_clean f) (dotdot @ [slash]) \<or> windows_changed_path (path_clean f)
      then Inl ''changed path must be canonical and repository-relative''
      else Inr (path_clean f))"

definition excluded_component :: "gostring \<Rightarrow> bool" where
  "excluded_component c \<longleftrightarrow> c = ''vendor'' \<or> c = ''testdata'' \<or> has_prefix c ''.'' \<or> has_prefix c ''_''"

definition excluded_changed_directory :: "gostring \<Rightarrow> bool" where
  "excluded_changed_directory d \<longleftrightarrow> d \<noteq> dot \<and> list_ex excluded_component (split_on slash d)"

text \<open>
  The loop of \<open>nestedModule\<close>. A directory of a canonical path ends at \<open>.\<close>; the second test ends the loop
  at \<open>/\<close>, which no canonical path reaches.
\<close>

function nested_module :: "'w tree_fs \<Rightarrow> gostring \<Rightarrow> gostring \<Rightarrow> 'w \<Rightarrow> bool \<times> 'w" where
  "nested_module F root current w =
     (if current = dot then (False, w)
      else (case fsLstat F (path_join (path_join root current) ''go.mod'') w of
              (info, w') \<Rightarrow>
                if info \<noteq> LstatMissing \<and> info \<noteq> LstatFailed then (True, w')
                else if path_dir current = current then (False, w')
                else nested_module F root (path_dir current) w'))"
  by pat_completeness auto
termination
  by (relation "measure (\<lambda>(F, root, current, w). dir_measure current)") (auto intro: path_dir_decreases)

declare nested_module.simps [simp del]

text \<open>\<open>resolveNearestChangedPath\<close>; \<open>None\<close> is its error.\<close>

function resolve_nearest :: "'w tree_fs \<Rightarrow> gostring \<Rightarrow> 'w \<Rightarrow> gostring option \<times> 'w" where
  "resolve_nearest F candidate w =
     (case fsLstat F candidate w of
        (info, w') \<Rightarrow>
          if info = LstatFailed then (None, w')
          else if info \<noteq> LstatMissing then fsEval F candidate w'
          else if path_dir candidate = candidate then (None, w')
          else resolve_nearest F (path_dir candidate) w')"
  by pat_completeness auto
termination
  by (relation "measure (\<lambda>(F, candidate, w). dir_measure candidate)") (auto intro: path_dir_decreases)

declare resolve_nearest.simps [simp del]

definition validate_changed_path ::
  "'w tree_fs \<Rightarrow> gostring \<Rightarrow> gostring \<Rightarrow> gostring \<Rightarrow> ('w, unit) fallible" where
  "validate_changed_path F root resolved_root clean =
     proceed (requiring (\<not> excluded_changed_directory (path_dir clean))
              ''changed path is outside the active module package universe'') (\<lambda>_.
     proceed (relabel ''inspect changed path'' (changed_path_has_symlink F root clean)) (\<lambda>linked.
     proceed (requiring (\<not> linked) ''changed path must not contain symbolic links'') (\<lambda>_.
     proceed (asking (nested_module F root (path_dir clean))) (\<lambda>nested.
     proceed (requiring (\<not> nested) ''changed path belongs to a nested module'') (\<lambda>_.
     proceed (asking (fsLstat F (path_join root clean))) (\<lambda>info.
     proceed (requiring (info \<noteq> LstatFailed) ''inspect changed file'') (\<lambda>_.
     proceed (requiring (info = LstatMissing \<or> info = LstatRegular) ''changed path is not a regular file'') (\<lambda>_.
     proceed (asking (resolve_nearest F (path_join root (path_dir clean)))) (\<lambda>resolved.
     requiring (case resolved of None \<Rightarrow> False | Some r \<Rightarrow> path_within_root resolved_root r)
       ''changed path escapes the repository'')))))))))"

subsection \<open>Build contexts\<close>

text \<open>
  \<open>ValidationGoArchitecture\<close>: the variable, its value and the feature tags of an architecture.
\<close>

definition validation_go_architecture :: "gostring \<Rightarrow> gostring \<times> gostring \<times> gostring list" where
  "validation_go_architecture arch =
     (if arch = ''amd64'' then (''GOAMD64'', ''v1'', [''amd64.v1''])
      else if arch = ''386'' then (''GO386'', ''sse2'', [''386.sse2''])
      else if arch = ''arm'' then (''GOARM'', ''7'', [''arm.5'', ''arm.6'', ''arm.7''])
      else if arch = ''arm64'' then (''GOARM64'', ''v8.0'', [''arm64.v8.0''])
      else if arch = ''mips'' \<or> arch = ''mipsle'' then (''GOMIPS'', ''hardfloat'', [''mips.hardfloat''])
      else if arch = ''mips64'' \<or> arch = ''mips64le'' then (''GOMIPS64'', ''hardfloat'', [''mips64.hardfloat''])
      else if arch = ''ppc64'' \<or> arch = ''ppc64le'' then (''GOPPC64'', ''power8'', [''ppc64.power8''])
      else if arch = ''riscv64'' then (''GORISCV64'', ''rva20u64'', [''riscv64.rva20u64''])
      else if arch = ''wasm'' then (''GOWASM'', [], [])
      else ([], [], []))"

definition validation_pinned_tool_tag :: "gostring \<Rightarrow> bool" where
  "validation_pinned_tool_tag tag \<longleftrightarrow>
     has_prefix tag ''goexperiment.'' \<or>
     list_ex (has_prefix tag)
       [''amd64.'', ''386.'', ''arm.'', ''arm64.'', ''mips.'', ''mips64.'', ''ppc64.'', ''riscv64.'', ''wasm.'']"

text \<open>
  The parts of \<open>build.Context\<close> that \<open>ValidationGoBuildContext\<close> sets; \<open>build.Default\<close> is given.
\<close>

record build_context =
  bcArch :: gostring
  bcCgo :: bool
  bcBuildTags :: "gostring list"
  bcToolTags :: "gostring list"
  bcReleaseTags :: "gostring list"

definition validation_go_build_context :: "build_context \<Rightarrow> build_context" where
  "validation_go_build_context defaults =
     defaults\<lparr>bcBuildTags := [],
             bcToolTags := filter (\<lambda>t. \<not> validation_pinned_tool_tag t) (bcToolTags defaults)
                           @ snd (snd (validation_go_architecture (bcArch defaults)))\<rparr>"

subsection \<open>The packages of a change\<close>

text \<open>
  What package selection asks of the file system and of \<open>go/build\<close>. A directory is the chunks that
  \<open>ReadDir(256)\<close> gives, each entry with whether it is a regular file, and whether the last answer was the
  end of the directory. \<open>pkImportsC\<close> says whether a file imports \<open>"C"\<close>.
\<close>

record 'w package_host =
  pkFs :: "'w tree_fs"
  pkReadDir :: "gostring \<Rightarrow> 'w \<Rightarrow> ((gostring \<times> bool) list list \<times> bool) option \<times> 'w"
  pkMatchFile :: "build_context \<Rightarrow> gostring \<Rightarrow> gostring \<Rightarrow> 'w \<Rightarrow> bool option \<times> 'w"
  pkImportsC :: "gostring \<Rightarrow> gostring \<Rightarrow> 'w \<Rightarrow> bool option \<times> 'w"
  pkContext :: build_context

definition package_error :: message where
  "package_error = ''inspect changed Go package''"

definition answered :: "('w \<Rightarrow> 'a option \<times> 'w) \<Rightarrow> 'e \<Rightarrow> ('w, 'e, 'a) action" where
  "answered f e = proceed (asking f) (\<lambda>r. case r of None \<Rightarrow> reject e | Some a \<Rightarrow> accept a)"

definition active_go_file :: "'w package_host \<Rightarrow> gostring \<Rightarrow> gostring \<Rightarrow> ('w, bool) fallible" where
  "active_go_file H dir name =
     proceed (answered (pkMatchFile H (pkContext H) dir name) package_error) (\<lambda>matched.
     if \<not> matched then accept False
     else if bcCgo (pkContext H) then accept True
     else proceed (answered (pkImportsC H dir name) package_error) (\<lambda>c. accept (\<not> c)))"

definition candidate_entry :: "gostring \<times> bool \<Rightarrow> bool" where
  "candidate_entry e \<longleftrightarrow>
     snd e \<and> \<not> has_prefix (fst e) ''.'' \<and> \<not> has_prefix (fst e) ''_'' \<and> has_suffix (fst e) ''.go''"

fun any_active :: "'w package_host \<Rightarrow> gostring \<Rightarrow> (gostring \<times> bool) list \<Rightarrow> ('w, bool) fallible" where
  "any_active H dir [] = accept False"
| "any_active H dir (e # es) =
     (if candidate_entry e
      then proceed (active_go_file H dir (fst e)) (\<lambda>active. if active then accept True else any_active H dir es)
      else any_active H dir es)"

text \<open>The answer and the entries that may still be read.\<close>

fun surviving_chunks ::
  "'w package_host \<Rightarrow> gostring \<Rightarrow> bool \<Rightarrow> int \<Rightarrow> (gostring \<times> bool) list list \<Rightarrow> ('w, bool \<times> int) fallible" where
  "surviving_chunks H dir ended left [] = (if ended then accept (False, left) else reject package_error)"
| "surviving_chunks H dir ended left (c # cs) =
     (if int (length c) > left then reject package_error
      else proceed (any_active H dir c) (\<lambda>active.
             if active then accept (True, left - int (length c))
             else surviving_chunks H dir ended (left - int (length c)) cs))"

definition surviving_go_package :: "'w package_host \<Rightarrow> gostring \<Rightarrow> int \<Rightarrow> ('w, bool \<times> int) fallible" where
  "surviving_go_package H dir left =
     proceed (answered (pkReadDir H dir) package_error) (\<lambda>(chunks, ended). surviving_chunks H dir ended left chunks)"

text \<open>One turn of the first loop: the canonical path of a changed file.\<close>

definition check_changed_file ::
  "'w package_host \<Rightarrow> gostring \<Rightarrow> gostring \<Rightarrow> gostring \<Rightarrow> ('w, gostring) fallible" where
  "check_changed_file H root resolved_root f w =
     (case canonical_changed_path f of
        Inl e \<Rightarrow> reject e w
      | Inr clean \<Rightarrow>
          (let base = path_base clean in
           if (base = ''go.mod'' \<or> base = ''go.sum'') \<and> path_dir clean \<noteq> dot
           then reject ''changed module marker belongs to a nested module'' w
           else if path_ext clean = ''.go'' \<and> (has_prefix base ''.'' \<or> has_prefix base ''_'')
           then reject ''changed Go filename is ignored by the Go tool'' w
           else proceed (validate_changed_path (pkFs H) root resolved_root clean) (\<lambda>_. accept clean) w))"

fun check_changed_files ::
  "'w package_host \<Rightarrow> gostring \<Rightarrow> gostring \<Rightarrow> gostring list \<Rightarrow> ('w, gostring list) fallible" where
  "check_changed_files H root resolved_root [] = accept []"
| "check_changed_files H root resolved_root (f # fs) =
     proceed (check_changed_file H root resolved_root f) (\<lambda>clean.
     proceed (check_changed_files H root resolved_root fs) (\<lambda>rest. accept (clean # rest)))"

text \<open>One turn of the second loop: the package of a Go file, if it has an active file left.\<close>

definition package_of :: "gostring \<Rightarrow> gostring" where
  "package_of clean = (if path_dir clean = dot then dot else ''./'' @ path_dir clean)"

definition changed_package ::
  "'w package_host \<Rightarrow> gostring \<Rightarrow> gostring \<Rightarrow> int \<Rightarrow> gostring \<Rightarrow> ('w, gostring list \<times> int) fallible" where
  "changed_package H root resolved_root left clean =
     proceed (asking (fsLstat (pkFs H) (path_join root (path_dir clean)))) (\<lambda>info.
     if info = LstatMissing then accept ([], left)
     else if info \<noteq> LstatDir \<and> info \<noteq> LstatLink then reject package_error
     else proceed (asking (fsEval (pkFs H) (path_join root (path_dir clean)))) (\<lambda>resolved.
     case resolved of
       None \<Rightarrow> reject ''changed Go package escapes the repository''
     | Some dir \<Rightarrow>
         if \<not> path_within_root resolved_root dir then reject ''changed Go package escapes the repository''
         else proceed (asking (fsLstat (pkFs H) (path_join dir (path_base clean)))) (\<lambda>file.
           if file = LstatFailed then reject ''inspect changed Go file''
           else proceed (if file \<noteq> LstatMissing
                       then proceed (active_go_file H dir (path_base clean)) (\<lambda>active. accept (active, left))
                       else surviving_go_package H dir left)
                  (\<lambda>(exists, left). accept (if exists then [package_of clean] else [], left)))))"

fun changed_packages ::
  "'w package_host \<Rightarrow> gostring \<Rightarrow> gostring \<Rightarrow> int \<Rightarrow> gostring list \<Rightarrow> ('w, gostring list) fallible" where
  "changed_packages H root resolved_root left [] = accept []"
| "changed_packages H root resolved_root left (clean # rest) =
     (if path_ext clean \<noteq> ''.go'' then changed_packages H root resolved_root left rest
      else proceed (changed_package H root resolved_root left clean) (\<lambda>(found, left).
           proceed (changed_packages H root resolved_root left rest) (\<lambda>others. accept (found @ others))))"

definition module_marker :: "gostring \<Rightarrow> bool" where
  "module_marker clean \<longleftrightarrow> clean = ''go.mod'' \<or> clean = ''go.sum''"

definition changed_go_packages ::
  "'w package_host \<Rightarrow> gostring \<Rightarrow> gostring list \<Rightarrow> ('w, gostring list \<times> bool) fallible" where
  "changed_go_packages H root files =
     proceed (requiring (trim_space root \<noteq> []) ''changed-package root is required'') (\<lambda>_.
     proceed (requiring (length files \<le> max_changed_package_files) ''changed-package input exceeds file limit'') (\<lambda>_.
     proceed (asking (fsLstat (pkFs H) root)) (\<lambda>info.
     proceed (requiring (info = LstatDir) ''changed-package root must be a directory, not a symbolic link'') (\<lambda>_.
     proceed (answered (fsAbs (pkFs H) root) ''resolve changed-package root'') (\<lambda>absolute.
     proceed (answered (fsEval (pkFs H) absolute) ''resolve changed-package root'') (\<lambda>resolved.
     proceed (check_changed_files H absolute resolved files) (\<lambda>clean.
     if list_ex module_marker clean then accept ([], True)
     else proceed (if list_ex (\<lambda>f. path_ext f = ''.go'') clean then read_module_policy (pkFs H) absolute
                 else accept False) (\<lambda>ignores.
     if ignores then accept ([], True)
     else proceed (changed_packages H absolute resolved max_changed_package_entries clean) (\<lambda>packages.
     accept (sort (remdups packages), False))))))))))"

end
