(* ===== verification/Judgement.thy ===== *)
theory Judgement
  imports Validation
begin

text \<open>
  \<open>AttemptValidator.Validate\<close> of \<open>internal/flywheel/validate.go\<close> and \<open>CheckIntegrity\<close> of
  \<open>test_integrity.go\<close>: the judgement on one attempt. An early return of the code is the left side of an
  action over the world.
\<close>

subsection \<open>Integrity\<close>

definition max_integrity_findings :: nat where "max_integrity_findings = 10000"

definition is_testdata_path :: "gostring \<Rightarrow> bool" where
  "is_testdata_path f \<longleftrightarrow> ''testdata'' \<in> set (split_on slash f)"

definition without_testdata :: "tree_snapshot \<Rightarrow> tree_snapshot" where
  "without_testdata t = \<lparr>snapshotFiles = filter (\<lambda>(f, _). \<not> is_testdata_path f) (snapshotFiles t)\<rparr>"

text \<open>
  What \<open>CheckIntegrity\<close> uses besides the suppression check: the two comparisons of syntax trees and the
  texts of errors.
\<close>

record 'snap integrity_judge =
  ijInvalidNewTests :: "tree_snapshot \<Rightarrow> tree_snapshot \<Rightarrow> bool"
  ijLoader :: "'snap loader"
  ijTests :: "tree_snapshot \<Rightarrow> tree_snapshot \<Rightarrow> (message, finding list) res"
  ijSuppressionText :: "suppression_error \<Rightarrow> message"
  ijGroupText :: "nat \<times> finding_error \<Rightarrow> message"

definition check_integrity ::
  "'snap integrity_judge \<Rightarrow> tree_snapshot \<Rightarrow> tree_snapshot \<Rightarrow> (message, finding list) res" where
  "check_integrity J original attempted =
     (if ijInvalidNewTests J original attempted then Inl ''inspect attempted tests: invalid new test''
      else (case check_suppression_integrity (ijLoader J) (without_testdata original) (without_testdata attempted) of
              Inl e \<Rightarrow> Inl (ijSuppressionText J e)
            | Inr suppressions \<Rightarrow>
                (case ijTests J original attempted of
                   Inl e \<Rightarrow> Inl e
                 | Inr tests \<Rightarrow>
                     if length (suppressions @ tests) > max_integrity_findings
                     then Inl ''inspect integrity snapshot: resource limit exceeded''
                     else (case group (suppressions @ tests) of
                             Inl e \<Rightarrow> Inl (''group integrity findings: '' @ ijGroupText J e)
                           | Inr grouped \<Rightarrow> Inr grouped))))"

definition unwaived_integrity_findings :: "gostring list \<Rightarrow> finding list \<Rightarrow> finding list" where
  "unwaived_integrity_findings waived fs = filter (\<lambda>f. Fingerprint f \<notin> set waived) fs"

subsection \<open>Evidence\<close>

record gate_validation =
  gvBlocking :: "finding list"
  gvErrored :: "gostring list"

record suite_validation =
  svPassed :: bool
  svInfrastructureError :: gostring

definition multiset_subset :: "Plans.counts \<Rightarrow> Plans.counts \<Rightarrow> bool" where
  "multiset_subset candidate baseline \<longleftrightarrow> list_all (\<lambda>(p, n). \<not> (n \<le> 0 \<or> n > count_of baseline p)) candidate"

text \<open>The loops of \<open>validationEvidenceWithinBounds\<close> over the fields and over the findings.\<close>

fun fields_within :: "nat \<Rightarrow> gostring list \<Rightarrow> int \<Rightarrow> int option" where
  "fields_within bound [] bytes = Some bytes"
| "fields_within bound (f # fs) bytes =
     (if length f > bound \<or> int (length f) > max_validation_evidence_bytes - bytes then None
      else fields_within bound fs (bytes + int (length f)))"

fun evidence_within :: "int \<Rightarrow> int \<Rightarrow> finding list \<Rightarrow> bool" where
  "evidence_within occurrences bytes [] = True"
| "evidence_within occurrences bytes (f # fs) =
     (if int (length (Occurrences f)) > max_validation_occurrences - occurrences then False
      else (case fields_within max_brief_identity [Gate f, Language f, RuleID f, File f, Fingerprint f] bytes of
              None \<Rightarrow> False
            | Some bytes \<Rightarrow>
                (case fields_within max_brief_diagnostic [Snippet f, Message f] bytes of
                   None \<Rightarrow> False
                 | Some bytes \<Rightarrow> evidence_within (occurrences + int (length (Occurrences f))) bytes fs)))"

definition validation_evidence_within_bounds :: "finding list \<Rightarrow> bool" where
  "validation_evidence_within_bounds fs \<longleftrightarrow> length fs \<le> max_validation_findings \<and> evidence_within 0 0 fs"

definition bad_gate_error :: "gostring \<Rightarrow> bool" where
  "bad_gate_error name \<longleftrightarrow>
     name = [] \<or> length name > max_brief_identity \<or> trim_space name \<noteq> name \<or> contains_any name [nul_byte, cr, lf]"

definition canonical_gate_errors :: "gostring list \<Rightarrow> gostring list option" where
  "canonical_gate_errors errored =
     (if list_ex bad_gate_error errored then None else Some (sort (remdups errored)))"

subsection \<open>Results\<close>

definition bound_validation_failure :: "gostring \<Rightarrow> gostring" where
  "bound_validation_failure failure = bounded_failure (filter (\<lambda>c. c \<noteq> nul_byte) failure)"

definition validation_failure ::
  "gostring list \<Rightarrow> validation_kind \<Rightarrow> gostring \<Rightarrow> finding list \<Rightarrow> validation_result" where
  "validation_failure changed kind failure fs =
     \<lparr>vKind = kind, vFailure = bound_validation_failure failure, vFindings = fs, vChangedFiles = changed,
      vProof = no_proof\<rparr>"

record ('w, 'snap) attempt_validator =
  avHost :: "'w package_host"
  avJudge :: "'snap integrity_judge"
  avOriginal :: tree_snapshot
  avBaseline :: "finding list"
  avWaived :: "gostring list"
  avRunGates :: "(gostring \<Rightarrow> batch \<Rightarrow> 'w \<Rightarrow> gate_validation \<times> 'w) option"
  avRunPackages :: "(gostring \<Rightarrow> gostring list \<Rightarrow> bool \<Rightarrow> 'w \<Rightarrow> suite_validation \<times> 'w) option"
  avCause :: "'w \<Rightarrow> gostring option \<times> 'w"
  avRecoveryEnded :: "'w \<Rightarrow> bool \<times> 'w"
  avVerify :: "batch_proof \<Rightarrow> 'w \<Rightarrow> gostring option \<times> 'w"
  avSnapshotAttempt :: "gostring \<Rightarrow> 'w \<Rightarrow> (message, tree_snapshot) res \<times> 'w"

type_synonym ('w, 'a) judging = "('w, validation_result, 'a) action"

definition infrastructure :: "gostring list \<Rightarrow> gostring \<Rightarrow> ('w, 'a) judging" where
  "infrastructure changed failure = reject (validation_failure changed ValidationInfrastructureFailure failure [])"

definition semantic :: "gostring list \<Rightarrow> gostring \<Rightarrow> finding list \<Rightarrow> ('w, 'a) judging" where
  "semantic changed failure fs = reject (validation_failure changed ValidationSemanticFailure failure fs)"

text \<open>\<open>validationCancellation\<close>, and the early return after it.\<close>

definition unless_cancelled :: "('w, 'snap) attempt_validator \<Rightarrow> gostring list \<Rightarrow> ('w, unit) judging" where
  "unless_cancelled V changed =
     proceed (asking (avCause V)) (\<lambda>cause. case cause of
       None \<Rightarrow> accept ()
     | Some c \<Rightarrow> infrastructure changed (''attempt validation canceled: '' @ c))"

text \<open>\<open>verifyPreparedBatchRecovering\<close>: \<open>Some\<close> is the text of its error.\<close>

definition verify_prepared_batch :: "('w, 'snap) attempt_validator \<Rightarrow> batch_proof \<Rightarrow> 'w \<Rightarrow> gostring option \<times> 'w" where
  "verify_prepared_batch V proof w =
     (case avRecoveryEnded V w of
        (ended, w') \<Rightarrow>
          if ended then (Some ''prepared batch verification context is canceled'', w')
          else if \<not> proof_present proof then (Some ''prepared batch proof is required'', w')
          else avVerify V proof w')"

definition still_prepared ::
  "('w, 'snap) attempt_validator \<Rightarrow> gostring list \<Rightarrow> batch_proof \<Rightarrow> gostring \<Rightarrow> ('w, unit) judging" where
  "still_prepared V changed proof label =
     proceed (asking (verify_prepared_batch V proof)) (\<lambda>e. case e of
       None \<Rightarrow> unless_cancelled V changed
     | Some e \<Rightarrow> infrastructure changed (''prepared batch invalid '' @ label @ '': '' @ e))"

subsection \<open>The stages of the judgement\<close>


definition judge_inputs ::
  "('w, 'snap) attempt_validator \<Rightarrow> gostring list \<Rightarrow> batch \<Rightarrow>
     ('w, gostring \<times> gostring list \<times> gostring list \<times> bool) judging" where
  "judge_inputs V changed b =
     proceed (unless_cancelled V []) (\<lambda>_.
     if changed = [] then semantic [] ''agent produced no worktree changes'' []
     else if \<not> proof_present (batchProof b) then infrastructure [] ''prepared batch proof is required''
     else (case proofValidation (batchProof b) of
             Some (Some root) \<Rightarrow>
               if root = [] then infrastructure [] ''prepared validation snapshot is required''
               else proceed (relabel (validation_failure [] ValidationInfrastructureFailure
                                       ''validation module is not confined'' [])
                               (validate_module_confinement (pkFs (avHost V)) root)) (\<lambda>_.
                    proceed (relabel_by (\<lambda>e. validation_failure [] ValidationInfrastructureFailure
                                           (''select changed Go packages: '' @ e) [])
                               (changed_go_packages (avHost V) root changed)) (\<lambda>(packages, full).
                    accept (root, sort (remdups changed), packages, full)))
           | _ \<Rightarrow> infrastructure [] ''prepared validation snapshot is required''))"

text \<open>The blockers before the attempt and those assigned to the batch.\<close>

definition judge_baseline ::
  "('w, 'snap) attempt_validator \<Rightarrow> gostring list \<Rightarrow> batch \<Rightarrow> ('w, Plans.counts \<times> Plans.counts) judging" where
  "judge_baseline V changed b =
     (if \<not> validation_evidence_within_bounds (avBaseline V)
      then infrastructure changed ''baseline blocker evidence exceeds resource limits''
      else (case blocking_multiset (avBaseline V) of
              Inl _ \<Rightarrow> infrastructure changed ''validate baseline blocker evidence''
            | Inr baseline \<Rightarrow>
                if \<not> validation_evidence_within_bounds (batchFindings b)
                then infrastructure changed ''assigned blocker evidence exceeds resource limits''
                else (case blocking_multiset (batchFindings b) of
                        Inl _ \<Rightarrow> infrastructure changed ''validate assigned blocker evidence''
                      | Inr assigned \<Rightarrow>
                          if assigned = [] then infrastructure changed ''validate assigned blocker evidence''
                          else if \<not> multiset_subset assigned baseline
                          then infrastructure changed ''assigned blockers are absent from baseline evidence''
                          else accept (baseline, assigned))))"

definition judge_integrity ::
  "('w, 'snap) attempt_validator \<Rightarrow> gostring list \<Rightarrow> gostring \<Rightarrow> batch \<Rightarrow> ('w, unit) judging" where
  "judge_integrity V changed root b =
     proceed (asking (avSnapshotAttempt V root)) (\<lambda>answer. case answer of
       Inl e \<Rightarrow> infrastructure changed (''snapshot attempted tree: '' @ e)
     | Inr attempted \<Rightarrow>
         proceed (unless_cancelled V changed) (\<lambda>_.
         case check_integrity (avJudge V) (avOriginal V) attempted of
           Inl e \<Rightarrow> infrastructure changed (''evaluate integrity evidence: '' @ e)
         | Inr fs \<Rightarrow>
             if unwaived_integrity_findings (avWaived V) fs \<noteq> []
             then semantic changed ''integrity validation found regressions''
                    (unwaived_integrity_findings (avWaived V) fs)
             else still_prepared V changed (batchProof b) ''after integrity validation''))"

definition judge_gate_evidence ::
  "gostring list \<Rightarrow> Plans.counts \<Rightarrow> Plans.counts \<Rightarrow> gate_validation \<Rightarrow> ('w, unit) judging" where
  "judge_gate_evidence changed baseline assigned gates =
     (if \<not> validation_evidence_within_bounds (gvBlocking gates)
         \<or> length (gvErrored gates) > max_validation_gate_errors
      then infrastructure changed ''gate validation evidence exceeds resource limits''
      else (case blocking_multiset (gvBlocking gates) of
              Inl _ \<Rightarrow> infrastructure changed ''gate validation returned malformed finding evidence''
            | Inr after \<Rightarrow>
                (case canonical_gate_errors (gvErrored gates) of
                   None \<Rightarrow> infrastructure changed ''gate validation returned malformed error evidence''
                 | Some errors \<Rightarrow>
                     if errors \<noteq> []
                     then reject (validation_failure changed ValidationInfrastructureFailure
                            (''gate validation errored: '' @ join '', '' errors) (gvBlocking gates))
                     else if list_ex (\<lambda>(p, _). count_of after p \<noteq> 0) assigned
                     then semantic changed ''assigned blocking finding remains'' (gvBlocking gates)
                     else if \<not> multiset_subset after baseline
                     then semantic changed ''gate validation introduced replacement blockers'' (gvBlocking gates)
                     else if \<not> strictly_shrinks after baseline
                     then semantic changed ''blocking finding multiset did not strictly shrink'' (gvBlocking gates)
                     else accept ())))"

definition judge_suite ::
  "('w, 'snap) attempt_validator \<Rightarrow> (gostring \<Rightarrow> gostring list \<Rightarrow> bool \<Rightarrow> 'w \<Rightarrow> suite_validation \<times> 'w) \<Rightarrow>
     gostring list \<Rightarrow> gostring \<Rightarrow> gostring list \<Rightarrow> bool \<Rightarrow> batch \<Rightarrow> finding list \<Rightarrow> ('w, unit) judging" where
  "judge_suite V run changed root packages full b blocking =
     (if \<not> full \<and> packages = [] then accept ()
      else proceed (unless_cancelled V changed) (\<lambda>_.
           proceed (asking (run root packages full)) (\<lambda>suite.
           proceed (still_prepared V changed (batchProof b) ''after behavioral suite'') (\<lambda>_.
           if trim_space (svInfrastructureError suite) \<noteq> []
           then reject (validation_failure changed ValidationInfrastructureFailure
                  ''behavioral suite infrastructure failed'' blocking)
           else if \<not> svPassed suite then semantic changed ''local behavioral suite failed'' blocking
           else accept ()))))"

definition judge_attempt ::
  "('w, 'snap) attempt_validator \<Rightarrow> gostring \<Rightarrow> gostring list \<Rightarrow> batch \<Rightarrow> ('w, validation_result) judging" where
  "judge_attempt V root changed b =
     proceed (judge_inputs V changed b) (\<lambda>(snapshot, changed, packages, full).
     case (avRunGates V, avRunPackages V) of
       (Some run_gates, Some run_packages) \<Rightarrow>
         proceed (judge_baseline V changed b) (\<lambda>(baseline, assigned).
         proceed (judge_integrity V changed root b) (\<lambda>_.
         proceed (asking (run_gates snapshot b)) (\<lambda>gates.
         proceed (still_prepared V changed (batchProof b) ''after gate validation'') (\<lambda>_.
         proceed (judge_gate_evidence changed baseline assigned gates) (\<lambda>_.
         proceed (judge_suite V run_packages changed snapshot packages full b (gvBlocking gates)) (\<lambda>_.
         proceed (still_prepared V changed (batchProof b) ''at validation completion'') (\<lambda>_.
         accept \<lparr>vKind = ValidationPassed, vFailure = [], vFindings = [], vChangedFiles = changed,
                 vProof = batchProof b\<rparr>)))))))
     | _ \<Rightarrow> infrastructure changed ''attempt validator callbacks are required'')"

definition validate_attempt ::
  "('w, 'snap) attempt_validator \<Rightarrow> bool \<Rightarrow> gostring \<Rightarrow> gostring list \<Rightarrow> batch \<Rightarrow> 'w \<Rightarrow> validation_result \<times> 'w" where
  "validate_attempt V ctx root changed b w =
     (if \<not> ctx then (validation_failure [] ValidationInfrastructureFailure ''validation context is required'' [], w)
      else (case judge_attempt V root changed b w of (Inl r, w') \<Rightarrow> (r, w') | (Inr r, w') \<Rightarrow> (r, w')))"

end
