(* ===== verification/JudgementFacts.thy ===== *)
theory JudgementFacts
  imports Judgement EngineProps
begin

text \<open>
  What the judgement on an attempt promises: its answers have the shape the engine asks for, and a
  passed answer rests on the whole chain of evidence.
\<close>

subsection \<open>Early endings\<close>

text \<open>Every value with which an action ends early has a property.\<close>

definition ends_with :: "('e \<Rightarrow> bool) \<Rightarrow> ('w, 'e, 'a) action \<Rightarrow> bool" where
  "ends_with Q m \<longleftrightarrow> (\<forall>w e w'. m w = (Inl e, w') \<longrightarrow> Q e)"

lemma ends_withD: "ends_with Q m \<Longrightarrow> m w = (Inl e, w') \<Longrightarrow> Q e"
  by (auto simp: ends_with_def)

lemma ends_with_rules [intro]:
  "ends_with Q (accept a)"
  "Q e \<Longrightarrow> ends_with Q (reject e)"
  "ends_with Q (asking f)"
  "Q e \<Longrightarrow> ends_with Q (requiring c e)"
  by (simp_all add: ends_with_def)

lemma ends_with_proceed [intro]:
  "ends_with Q m \<Longrightarrow> (\<And>a. ends_with Q (f a)) \<Longrightarrow> ends_with Q (proceed m f)"
  unfolding ends_with_def proceed_rejects by blast

lemma bounded_failure_nonempty:
  assumes "byte c < 128"
  shows "bounded_failure (c # s) \<noteq> []"
proof -
  have "to_valid_utf8 (c # s) r \<noteq> []" for r
    using assms by (simp add: to_valid_utf8_def rune_error_def)
  then show ?thesis by (simp add: bounded_failure_def Let_def failure_marker_def)
qed

text \<open>A text the validator may fail with starts with a printable ASCII byte.\<close>

definition told_failure :: "gostring \<Rightarrow> bool" where
  "told_failure f \<longleftrightarrow> (case f of [] \<Rightarrow> False | c # _ \<Rightarrow> byte c < 128 \<and> c \<noteq> nul_byte)"

lemma bounded_failure_length: "length (bounded_failure f) \<le> 16384"
proof -
  have start: "back_to_start s n \<le> n" for s n
    by (induction n) auto
  show ?thesis
    using start [of "to_valid_utf8 f replacement" "max_brief_diagnostic - length failure_marker"]
    by (simp add: bounded_failure_def Let_def max_brief_diagnostic_def failure_marker_def)
qed

lemma bound_told: "told_failure f \<Longrightarrow> bound_validation_failure f \<noteq> []"
  by (cases f) (simp_all add: told_failure_def bound_validation_failure_def bounded_failure_nonempty)

text \<open>An early answer: a failure with a reason and no proof.\<close>

definition failed_answer :: "validation_result \<Rightarrow> bool" where
  "failed_answer r \<longleftrightarrow>
     (vKind r = ValidationSemanticFailure \<or> vKind r = ValidationInfrastructureFailure)
     \<and> vFailure r \<noteq> [] \<and> length (vFailure r) \<le> 16384 \<and> vProof r = no_proof"

lemma failed_validation_failure:
  "told_failure f \<Longrightarrow> k = ValidationSemanticFailure \<or> k = ValidationInfrastructureFailure
     \<Longrightarrow> failed_answer (validation_failure changed k f fs)"
  using bound_told [of f] by (auto simp: failed_answer_def validation_failure_def bound_validation_failure_def bounded_failure_length)

lemma ends_infrastructure [intro]: "told_failure f \<Longrightarrow> ends_with failed_answer (infrastructure changed f)"
  unfolding infrastructure_def by (intro ends_with_rules failed_validation_failure) auto

lemma ends_semantic [intro]:
  "told_failure f \<Longrightarrow> ends_with failed_answer (semantic changed f fs)"
  unfolding semantic_def by (intro ends_with_rules failed_validation_failure) auto

lemma told_literal [simp]: "told_failure (c # s) \<longleftrightarrow> byte c < 128 \<and> c \<noteq> nul_byte"
  by (simp add: told_failure_def)

lemma ends_unless_cancelled [intro]: "ends_with failed_answer (unless_cancelled V changed)"
  unfolding unless_cancelled_def
  by (intro ends_with_proceed ends_with_rules)
    (auto split: option.split simp: byte_def nul_byte_def intro!: ends_infrastructure)

lemma ends_still_prepared [intro]: "ends_with failed_answer (still_prepared V changed proof label)"
  unfolding still_prepared_def
  by (intro ends_with_proceed ends_with_rules)
    (auto split: option.split simp: byte_def nul_byte_def intro!: ends_infrastructure)

lemma ends_with_relabel [intro]:
  "(\<And>e. Q (f e)) \<Longrightarrow> ends_with Q (relabel_by f m)"
  "Q e \<Longrightarrow> ends_with Q (relabel e m)"
  by (auto simp: ends_with_def relabel_def relabel_by_def split: prod.splits sum.splits)

lemma ends_judge_inputs: "ends_with failed_answer (judge_inputs V changed b)"
  unfolding judge_inputs_def
  by (auto simp: byte_def nul_byte_def split: option.split
      intro!: ends_with_proceed ends_infrastructure ends_semantic ends_with_relabel failed_validation_failure)

lemma ends_judge_baseline: "ends_with failed_answer (judge_baseline V changed b)"
  unfolding judge_baseline_def
  by (auto simp: byte_def nul_byte_def intro!: ends_infrastructure split: sum.split)

lemma ends_judge_integrity: "ends_with failed_answer (judge_integrity V changed root b)"
  unfolding judge_integrity_def
  by (intro ends_with_proceed ends_with_rules)
    (auto simp: byte_def nul_byte_def split: sum.split
      intro!: ends_infrastructure ends_semantic)

lemma ends_judge_gates: "ends_with failed_answer (judge_gate_evidence changed baseline assigned gates)"
  unfolding judge_gate_evidence_def
  by (auto simp: byte_def nul_byte_def split: sum.split option.split
      intro!: ends_infrastructure ends_semantic ends_with_rules failed_validation_failure)

lemma ends_judge_suite:
  "ends_with failed_answer (judge_suite V run changed root packages full b blocking)"
  unfolding judge_suite_def
  by (auto simp: byte_def nul_byte_def
      intro!: ends_with_proceed ends_semantic ends_with_rules failed_validation_failure)

lemma sort_remdups_Nil [simp]: "sort (remdups xs) = [] \<longleftrightarrow> xs = []" for xs :: "gostring list"
  by (metis remdups.simps(1) set_empty set_remdups set_sort sort_key_simps(1))

lemma judged_gates:
  "judge_gate_evidence changed baseline assigned gates w = (Inr u, w') \<longleftrightarrow>
     (validation_evidence_within_bounds (gvBlocking gates) \<and> length (gvErrored gates) \<le> max_validation_gate_errors
      \<and> gvErrored gates = [] \<and> w' = w
      \<and> (\<exists>after. blocking_multiset (gvBlocking gates) = Inr after
           \<and> (\<forall>(p, n) \<in> set assigned. count_of after p = 0)
           \<and> multiset_subset after baseline \<and> strictly_shrinks after baseline))"
  by (auto simp: judge_gate_evidence_def canonical_gate_errors_def infrastructure_def semantic_def list_ex_iff
      split: sum.splits option.splits)

lemma ends_judge_attempt: "ends_with failed_answer (judge_attempt V root changed b)"
  unfolding judge_attempt_def
  by (auto simp: byte_def nul_byte_def split: option.split
      intro!: ends_with_proceed ends_judge_inputs ends_judge_baseline ends_judge_integrity ends_judge_gates
        ends_judge_suite ends_infrastructure ends_still_prepared)

subsection \<open>The contract with the engine\<close>

lemma absent_proof [simp]: "\<not> proof_present no_proof"
  by (simp add: proof_present_def no_proof_def)

lemma judged_inputs:
  assumes "judge_inputs V changed b w = (Inr (root, ch, packages, full), w')"
  shows "ch = sort (remdups changed)" "changed \<noteq> []" "proof_present (batchProof b)"
    "proofValidation (batchProof b) = Some (Some root)" "root \<noteq> []"
    "\<exists>w1 w2. validate_module_confinement (pkFs (avHost V)) root w1 = (Inr (), w2)"
    "\<exists>w1 w2. changed_go_packages (avHost V) root changed w1 = (Inr (packages, full), w2)"
  using assms
  by (auto simp: judge_inputs_def fallible_accepts semantic_def infrastructure_def split: if_splits option.splits)

lemma judged_attempt:
  assumes "judge_attempt V root changed b w = (Inr r, w')"
  shows "r = \<lparr>vKind = ValidationPassed, vFailure = [], vFindings = [], vChangedFiles = sort (remdups changed),
              vProof = batchProof b\<rparr>"
    "changed \<noteq> []" "proof_present (batchProof b)"
  using assms judged_inputs
  by (fastforce simp: judge_attempt_def fallible_accepts infrastructure_def split: option.splits)+

lemma validate_attempt_cases:
  assumes "validate_attempt V ctx root changed b w = (r, w')"
  obtains "failed_answer r" | "ctx" "judge_attempt V root changed b w = (Inr r, w')"
proof (cases ctx)
  case False
  with assms have "failed_answer r"
    by (auto simp: validate_attempt_def byte_def nul_byte_def intro!: failed_validation_failure)
  then show ?thesis by (rule that(1))
next
  case True
  show ?thesis
  proof (cases "judge_attempt V root changed b w")
    case (Pair a w1)
    show ?thesis
    proof (cases a)
      case (Inl e)
      with Pair True assms ends_judge_attempt [of V root changed b] have "failed_answer r"
        by (auto simp: validate_attempt_def ends_with_def)
      then show ?thesis by (rule that(1))
    next
      case (Inr x)
      with Pair True assms show ?thesis by (intro that(2)) (auto simp: validate_attempt_def)
    qed
  qed
qed


lemma failed_answer_accepted: "failed_answer r \<Longrightarrow> validate_attempt_result quote r = None"
  by (auto simp: failed_answer_def validate_attempt_result_def)

text \<open>
  C15: The engine never has to refuse the validator's answer: whatever the attempt, the tree and the
  answers of gates, suite, Git and file system are, the result of Validate has the shape the engine asks
  of a batch validation. A failure has a reason, in at most 16 KiB and also when the context ended or an
  error text was blank, and carries no proof; a success carries a present proof, no failure and no findings.
\<close>

theorem validator_answers_engine:
  "validate_attempt_result quote (fst (validate_attempt V ctx root changed b w)) = None
   \<and> length (vFailure (fst (validate_attempt V ctx root changed b w))) \<le> 16384
   \<and> (if vKind (fst (validate_attempt V ctx root changed b w)) = ValidationPassed
      then proof_present (vProof (fst (validate_attempt V ctx root changed b w)))
        \<and> vFailure (fst (validate_attempt V ctx root changed b w)) = []
        \<and> vFindings (fst (validate_attempt V ctx root changed b w)) = []
      else vFailure (fst (validate_attempt V ctx root changed b w)) \<noteq> []
        \<and> vProof (fst (validate_attempt V ctx root changed b w)) = no_proof)"
proof (cases "validate_attempt V ctx root changed b w")
  case (Pair r w')
  then show ?thesis
  proof (cases rule: validate_attempt_cases)
    case 1
    with Pair show ?thesis by (auto simp: failed_answer_accepted) (auto simp: failed_answer_def)
  next
    case 2
    from judged_attempt [OF 2(2)] Pair show ?thesis by (simp add: validate_attempt_result_def)
  qed
qed

subsection \<open>The evidence of a passed attempt\<close>

lemma count_of_blockers:
  assumes "blocking_multiset fs = Inr m"
  shows "count_of m p = 0 \<longleftrightarrow> p \<notin> Fingerprint ` set fs"
proof -
  from assms have "count_of m p = int (count (blocker_mset fs) p)"
    using count_mset_count [OF blocking_counts_ok [OF assms]] blocking_mset [OF assms] by metis
  moreover have "count (blocker_mset fs) p = 0 \<longleftrightarrow> p \<notin> Fingerprint ` set fs"
    by (induction fs) (auto simp: blocker_mset_def)
  ultimately show ?thesis by simp
qed

lemma blockers_keys: "blocking_multiset fs = Inr m \<Longrightarrow> fst ` set m = Fingerprint ` set fs"
  by (auto simp: blocking_multiset_Inr image_image)

lemma judged_baseline:
  assumes "judge_baseline V changed b w = (Inr (baseline, assigned), w')"
  shows "blocking_multiset (avBaseline V) = Inr baseline" "blocking_multiset (batchFindings b) = Inr assigned" "w' = w"
  using assms by (auto simp: judge_baseline_def infrastructure_def split: if_splits sum.splits)

text \<open>A world after another one, in between which nothing but one answer of the host was taken.\<close>

definition live :: "('w, 'snap) attempt_validator \<Rightarrow> 'w \<Rightarrow> 'w \<Rightarrow> bool" where
  "live V u v \<longleftrightarrow> avCause V u = (None, v)"

definition still_verified :: "('w, 'snap) attempt_validator \<Rightarrow> batch \<Rightarrow> 'w \<Rightarrow> 'w \<Rightarrow> bool" where
  "still_verified V b u v \<longleftrightarrow> (\<exists>x. verify_prepared_batch V (batchProof b) u = (None, x) \<and> live V x v)"

lemma unless_cancelled_accepts: "unless_cancelled V changed w = (Inr u, w') \<longleftrightarrow> live V w w'"
  by (auto simp: unless_cancelled_def infrastructure_def fallible_accepts live_def split: option.splits)

lemma still_prepared_accepts:
  "still_prepared V changed (batchProof b) label w = (Inr u, w') \<longleftrightarrow> still_verified V b w w'"
  by (auto simp: still_prepared_def infrastructure_def fallible_accepts unless_cancelled_accepts still_verified_def
      split: option.splits)

lemma judged_start:
  assumes "judge_inputs V changed b w = (Inr (root, ch, packages, full), w')"
  shows "\<exists>w1 w2. live V w w1 \<and> validate_module_confinement (pkFs (avHost V)) root w1 = (Inr (), w2)
     \<and> changed_go_packages (avHost V) root changed w2 = (Inr (packages, full), w')"
  using assms
  by (auto simp: judge_inputs_def proceed_accepts unless_cancelled_accepts semantic_def infrastructure_def
      split: if_splits option.splits)

lemma judged_integrity:
  assumes "judge_integrity V changed root b w = (Inr u, w')"
  shows "\<exists>attempted fs w1 w2. avSnapshotAttempt V root w = (Inr attempted, w1) \<and> live V w1 w2
    \<and> check_integrity (avJudge V) (avOriginal V) attempted = Inr fs \<and> Fingerprint ` set fs \<subseteq> set (avWaived V)
    \<and> still_verified V b w2 w'"
proof -
  from assms [unfolded judge_integrity_def proceed_accepts] obtain answer w1
    where ask: "avSnapshotAttempt V root w = (answer, w1)"
      and rest: "(case answer of
         Inl e \<Rightarrow> infrastructure changed (''snapshot attempted tree: '' @ e)
       | Inr attempted \<Rightarrow>
           proceed (unless_cancelled V changed) (\<lambda>_.
           case check_integrity (avJudge V) (avOriginal V) attempted of
             Inl e \<Rightarrow> infrastructure changed (''evaluate integrity evidence: '' @ e)
           | Inr fs \<Rightarrow>
               if unwaived_integrity_findings (avWaived V) fs \<noteq> []
               then semantic changed ''integrity validation found regressions''
                      (unwaived_integrity_findings (avWaived V) fs)
               else still_prepared V changed (batchProof b) ''after integrity validation'')) w1 = (Inr u, w')"
    by auto
  from rest obtain attempted where s: "answer = Inr attempted"
    by (cases answer) (simp_all add: infrastructure_def)
  from rest [unfolded s] obtain fs w2 where "live V w1 w2" "check_integrity (avJudge V) (avOriginal V) attempted = Inr fs"
    "unwaived_integrity_findings (avWaived V) fs = []" "still_verified V b w2 w'"
    by (cases "check_integrity (avJudge V) (avOriginal V) attempted")
      (auto simp: proceed_accepts unless_cancelled_accepts still_prepared_accepts infrastructure_def semantic_def split: if_splits)
  moreover from this(3) have "Fingerprint ` set fs \<subseteq> set (avWaived V)"
    by (auto simp: unwaived_integrity_findings_def filter_empty_conv)
  ultimately show ?thesis using ask s by blast
qed

text \<open>The suite passed on the snapshot, or nothing had to be run.\<close>

definition suite_ran ::
  "('w, 'snap) attempt_validator \<Rightarrow> (gostring \<Rightarrow> gostring list \<Rightarrow> bool \<Rightarrow> 'w \<Rightarrow> suite_validation \<times> 'w) \<Rightarrow>
     gostring \<Rightarrow> gostring list \<Rightarrow> bool \<Rightarrow> batch \<Rightarrow> 'w \<Rightarrow> 'w \<Rightarrow> bool" where
  "suite_ran V run root packages full b u v \<longleftrightarrow>
     (if full \<or> packages \<noteq> []
      then \<exists>u1 u2 suite. live V u u1 \<and> run root packages full u1 = (suite, u2) \<and> svPassed suite
             \<and> trim_space (svInfrastructureError suite) = [] \<and> still_verified V b u2 v
      else v = u)"

lemma judged_suite:
  "judge_suite V run changed root packages full b blocking w = (Inr u, w') \<Longrightarrow> suite_ran V run root packages full b w w'"
  by (auto simp: judge_suite_def suite_ran_def proceed_accepts unless_cancelled_accepts still_prepared_accepts semantic_def
      split: if_splits)

lemma shrinks_blockers:
  assumes "blocking_multiset fs = Inr after" "blocking_multiset gs = Inr before" "strictly_shrinks after before"
  shows "blocker_mset fs \<subset># blocker_mset gs"
  using shrinks_subset [OF blocking_counts_ok blocking_counts_ok, OF assms(1,2)] assms blocking_mset by metis

text \<open>
  C14: A passed judgement rests on the whole chain of evidence, taken in this order and each step on the world the
  one before it left: the private snapshot of the prepared proof is a confined module and its changed packages
  were found; the tree that was snapshotted of the attempt was compared with the original, and every integrity finding
  on it was waived; the gates, run on the private snapshot, did not err, left no finding the batch was assigned, and
  left a strict sub-multiset of the blockers before the attempt; the suite passed on that snapshot if a package is
  affected; and after the comparison, after the gates, after a suite that ran and once more at the end the proof
  verified again and the context was live. The result carries that proof.
\<close>

theorem passed_attempt_has_evidence:
  assumes "validate_attempt V ctx root changed b w = (r, w')" "vKind r = ValidationPassed"
  shows "\<exists>run_gates run_packages snapshot attempted fs packages full gates w1 w2 w3 w4 w5 w6 w7 w8 w9.
    avRunGates V = Some run_gates \<and> avRunPackages V = Some run_packages
    \<and> changed \<noteq> [] \<and> proofValidation (batchProof b) = Some (Some snapshot)
    \<and> live V w w1
    \<and> validate_module_confinement (pkFs (avHost V)) snapshot w1 = (Inr (), w2)
    \<and> changed_go_packages (avHost V) snapshot changed w2 = (Inr (packages, full), w3)
    \<and> avSnapshotAttempt V root w3 = (Inr attempted, w4) \<and> live V w4 w5
    \<and> check_integrity (avJudge V) (avOriginal V) attempted = Inr fs \<and> Fingerprint ` set fs \<subseteq> set (avWaived V)
    \<and> still_verified V b w5 w6
    \<and> run_gates snapshot b w6 = (gates, w7) \<and> still_verified V b w7 w8
    \<and> gvErrored gates = [] \<and> Fingerprint ` set (batchFindings b) \<inter> Fingerprint ` set (gvBlocking gates) = {}
    \<and> blocker_mset (gvBlocking gates) \<subset># blocker_mset (avBaseline V)
    \<and> suite_ran V run_packages snapshot packages full b w8 w9
    \<and> still_verified V b w9 w'
    \<and> vProof r = batchProof b \<and> vChangedFiles r = sort (remdups changed)"
  using assms(1)
proof (cases rule: validate_attempt_cases)
  case 1
  with assms(2) show ?thesis by (auto simp: failed_answer_def)
next
  case 2
  from 2(2) obtain snapshot ch packages full w3 where inputs: "judge_inputs V changed b w = (Inr (snapshot, ch, packages, full), w3)"
    by (auto simp: judge_attempt_def proceed_accepts)
  from 2(2) inputs obtain run_gates run_packages baseline assigned v4 w6 w7 w8 v8 w9 gates where
    runs: "avRunGates V = Some run_gates" "avRunPackages V = Some run_packages"
    and base: "judge_baseline V ch b w3 = (Inr (baseline, assigned), v4)"
    and integrity: "judge_integrity V ch root b v4 = (Inr (), w6)"
    and gates: "run_gates snapshot b w6 = (gates, w7)" "still_prepared V ch (batchProof b) ''after gate validation'' w7 = (Inr (), w8)"
    and evidence: "judge_gate_evidence ch baseline assigned gates w8 = (Inr (), v8)"
    and suite: "judge_suite V run_packages ch snapshot packages full b (gvBlocking gates) v8 = (Inr (), w9)"
    and verified: "still_prepared V ch (batchProof b) ''at validation completion'' w9 = (Inr (), w')"
    by (auto simp: judge_attempt_def fallible_accepts infrastructure_def split: option.splits)
  note b = judged_baseline [OF base]
  from b(3) integrity have integrity: "judge_integrity V ch root b w3 = (Inr (), w6)" by simp
  from evidence obtain after where after: "gvErrored gates = []" "blocking_multiset (gvBlocking gates) = Inr after"
    "\<forall>(p, n) \<in> set assigned. count_of after p = 0" "strictly_shrinks after baseline" and v8: "v8 = w8"
    by (auto simp: judged_gates)
  have gone: "Fingerprint ` set (batchFindings b) \<inter> Fingerprint ` set (gvBlocking gates) = {}"
  proof -
    have "p \<notin> Fingerprint ` set (gvBlocking gates)" if "p \<in> fst ` set assigned" for p
      using that after(3) count_of_blockers [OF after(2), of p] by auto
    with blockers_keys [OF b(2)] show ?thesis by blast
  qed
  have shrink: "blocker_mset (gvBlocking gates) \<subset># blocker_mset (avBaseline V)"
    by (rule shrinks_blockers [OF after(2) b(1) after(4)])
  note run = judged_suite [OF suite [unfolded v8]] gates(1) gates(2) [unfolded still_prepared_accepts]
    verified [unfolded still_prepared_accepts]
  from judged_start [OF inputs] obtain w1 w2 where start: "live V w w1"
    "validate_module_confinement (pkFs (avHost V)) snapshot w1 = (Inr (), w2)"
    "changed_go_packages (avHost V) snapshot changed w2 = (Inr (packages, full), w3)" by blast
  from judged_integrity [OF integrity] obtain attempted fs w4 w5 where
    int: "avSnapshotAttempt V root w3 = (Inr attempted, w4)" "live V w4 w5"
    "check_integrity (avJudge V) (avOriginal V) attempted = Inr fs" "Fingerprint ` set fs \<subseteq> set (avWaived V)"
    "still_verified V b w5 w6" by blast
  have result: "vProof r = batchProof b" "vChangedFiles r = sort (remdups changed)"
    using judged_attempt(1) [OF 2(2)] by simp_all
  note facts = runs judged_inputs(2,4) [OF inputs] start int run after(1) gone shrink result
  show ?thesis
    by (rule exI [of _ run_gates], rule exI [of _ run_packages], rule exI [of _ snapshot], rule exI [of _ attempted],
        rule exI [of _ fs], rule exI [of _ packages], rule exI [of _ full], rule exI [of _ gates],
        rule exI [of _ w1], rule exI [of _ w2], rule exI [of _ w3], rule exI [of _ w4],
        rule exI [of _ w5], rule exI [of _ w6], rule exI [of _ w7], rule exI [of _ w8],
        rule exI [of _ w9], intro conjI, (rule facts)+)
qed

text \<open>An attempt that changed one file, on an obliging host, and whose gates find nothing.\<close>

definition calm_fs :: "unit tree_fs" where
  "calm_fs = \<lparr>fsLstat = (\<lambda>p w. (if p = ''/r'' then LstatDir else if p = ''/r/README'' then LstatRegular else LstatMissing, w)),
     fsRead = (\<lambda>_ _ w. (OpenFailed, w)), fsAbs = (\<lambda>p w. (Some p, w)), fsEval = (\<lambda>p w. (Some p, w))\<rparr>"

definition calm_host :: "unit package_host" where
  "calm_host = \<lparr>pkFs = calm_fs, pkReadDir = (\<lambda>_ w. (None, w)), pkMatchFile = (\<lambda>_ _ _ w. (None, w)),
     pkImportsC = (\<lambda>_ _ w. (None, w)),
     pkContext = \<lparr>bcArch = [], bcCgo = False, bcBuildTags = [], bcToolTags = [], bcReleaseTags = []\<rparr>\<rparr>"

definition calm_judge :: "unit integrity_judge" where
  "calm_judge = \<lparr>ijInvalidNewTests = (\<lambda>_ _. False), ijLoader = \<lparr>load = (\<lambda>_ _ _. Inl ResourceLimit), sites_of = (\<lambda>_ _ _. Inl ResourceLimit)\<rparr>,
     ijTests = (\<lambda>_ _. Inr []), ijSuppressionText = (\<lambda>_. []), ijGroupText = (\<lambda>_. [])\<rparr>"

definition calm_validator :: "(unit, unit) attempt_validator" where
  "calm_validator = \<lparr>avHost = calm_host, avJudge = calm_judge, avOriginal = \<lparr>snapshotFiles = []\<rparr>,
     avBaseline = [sample_blocker], avWaived = [],
     avRunGates = Some (\<lambda>_ _ w. (\<lparr>gvBlocking = [], gvErrored = []\<rparr>, w)),
     avRunPackages = Some (\<lambda>_ _ _ w. (\<lparr>svPassed = True, svInfrastructureError = []\<rparr>, w)),
     avCause = (\<lambda>w. (None, w)), avRecoveryEnded = (\<lambda>w. (False, w)), avVerify = (\<lambda>_ w. (None, w)),
     avSnapshotAttempt = (\<lambda>_ w. (Inr \<lparr>snapshotFiles = []\<rparr>, w))\<rparr>"

definition calm_batch :: batch where
  "calm_batch = \<lparr>batchName = [], primaryFile = [], batchFindings = [sample_blocker], batchStatus = BatchRunning,
     batchAttempts = [], batchIdentity = \<lparr>waveDigest = [], identityProof = []\<rparr>,
     batchProof = \<lparr>proofOwner = Some 0, proofTree = replicate 40 (CHR ''c''), proofChanged = [], proofVerify = True,
       proofValidation = Some (Some ''/r''), proofCapture = 0\<rparr>\<rparr>"

named_theorems calm \<open>the steps of the judgement on the obliging host\<close>

lemma calm_unless [calm]: "unless_cancelled calm_validator changed () = (Inr (), ())"
  by (simp add: unless_cancelled_def calm_validator_def proceed_def asking_def accept_def)

lemma calm_proof [calm]: "proof_present (batchProof calm_batch)" "proofValidation (batchProof calm_batch) = Some (Some ''/r'')"
  by (simp_all add: calm_batch_def proof_present_def valid_object_id_def list_all_iff is_lower_hex_def byte_def)

lemma calm_prepared [calm]: "still_prepared calm_validator changed (batchProof calm_batch) label () = (Inr (), ())"
  using calm_proof calm_unless
  by (simp add: still_prepared_def verify_prepared_batch_def proceed_def asking_def)
    (simp add: calm_validator_def)

lemma calm_confined [calm]: "validate_module_confinement (pkFs calm_host) ''/r'' () = (Inr (), ())"
  by code_simp

lemma calm_paths:
  "path_base ''README'' = ''README''" "path_dir ''README'' = dot" "path_ext ''README'' = []"
  "path_clean ''README'' = ''README''"
  by code_simp+

lemma calm_trimmed: "trim_space ''/r'' = ''/r''" "trim_space ''README'' = ''README''"
  by (simp_all add: trim_space_plain plain_ends_def byte_def is_space_def)

lemma calm_canonical: "canonical_changed_path ''README'' = Inr ''README''"
  by (simp add: canonical_changed_path_def calm_trimmed calm_paths max_changed_package_path_bytes_def nul_byte_def
      backslash_def is_abs_def slash_def has_prefix_def windows_changed_path_def dot_def dotdot_def)

lemma calm_valid_path: "validate_changed_path calm_fs ''/r'' ''/r'' ''README'' () = (Inr (), ())"
  by code_simp

lemma calm_packages [calm]: "changed_go_packages calm_host ''/r'' [''README''] () = (Inr ([], False), ())"
proof -
  have F: "pkFs calm_host = calm_fs" "fsLstat calm_fs ''/r'' () = (LstatDir, ())"
    "fsAbs calm_fs ''/r'' () = (Some ''/r'', ())" "fsEval calm_fs ''/r'' () = (Some ''/r'', ())"
    by (simp_all add: calm_host_def calm_fs_def)
  have "check_changed_file calm_host ''/r'' ''/r'' ''README'' () = (Inr ''README'', ())"
    by (simp add: check_changed_file_def calm_canonical calm_paths F calm_valid_path proceed_def accept_def has_prefix_def)
  then have "check_changed_files calm_host ''/r'' ''/r'' [''README''] () = (Inr [''README''], ())"
    by (simp add: proceed_def accept_def)
  moreover have "\<not> module_marker ''README''" by (simp add: module_marker_def)
  ultimately show ?thesis
    by (simp add: changed_go_packages_def F calm_trimmed calm_paths proceed_def requiring_def asking_def answered_def accept_def
        max_changed_package_files_def)
qed

lemma calm_inputs:
  "judge_inputs calm_validator [''README''] calm_batch () = (Inr (''/r'', [''README''], [], False), ())"
proof -
  have host: "avHost calm_validator = calm_host" by (simp add: calm_validator_def)
  show ?thesis
    by (simp add: judge_inputs_def calm host proceed_def relabel_def relabel_by_def accept_def)
qed

lemma sample_within: "validation_evidence_within_bounds [sample_blocker]" "validation_evidence_within_bounds []"
  by (simp_all add: validation_evidence_within_bounds_def sample_blocker_def canonical_copy_def sample_finding_def
      max_validation_findings_def max_validation_occurrences_def max_validation_evidence_bytes_def
      max_brief_identity_def max_brief_diagnostic_def path_eval)

lemma calm_judged:
  obtains m where "blocking_multiset [sample_blocker] = Inr m" "m \<noteq> []" "multiset_subset m m" "strictly_shrinks [] m"
    "blocking_multiset [] = Inr []"
proof -
  let ?m = "[(Fingerprint sample_blocker, 1 + int (length (Occurrences sample_blocker)))]"
  have m: "blocking_multiset [sample_blocker] = Inr ?m"
    by (simp add: blocking_multiset_Inr sample_blocker_canonical)
  moreover have "multiset_subset ?m ?m" "strictly_shrinks [] ?m"
    by (simp_all add: multiset_subset_def count_of_def strictly_shrinks_def)
  ultimately show ?thesis using that no_blockers by blast
qed

lemma calm_integrity: "judge_integrity calm_validator [''README''] ''/r'' calm_batch () = (Inr (), ())"
proof -
  have "check_integrity calm_judge \<lparr>snapshotFiles = []\<rparr> \<lparr>snapshotFiles = []\<rparr> = Inr []" by code_simp
  moreover have "avJudge calm_validator = calm_judge" "avOriginal calm_validator = \<lparr>snapshotFiles = []\<rparr>"
    "avSnapshotAttempt calm_validator ''/r'' () = (Inr \<lparr>snapshotFiles = []\<rparr>, ())"
    by (simp_all add: calm_validator_def)
  ultimately show ?thesis
    by (simp add: judge_integrity_def proceed_def asking_def calm unwaived_integrity_findings_def)
qed

lemma calm_passed: "vKind (fst (validate_attempt calm_validator True ''/r'' [''README''] calm_batch ())) = ValidationPassed"
proof -
  obtain m where m: "blocking_multiset [sample_blocker] = Inr m" "m \<noteq> []" "multiset_subset m m" "strictly_shrinks [] m"
    "blocking_multiset [] = Inr []" by (rule calm_judged)
  have V: "avBaseline calm_validator = [sample_blocker]" "batchFindings calm_batch = [sample_blocker]"
    "avRunGates calm_validator = Some (\<lambda>_ _ w. (\<lparr>gvBlocking = [], gvErrored = []\<rparr>, w))"
    "avRunPackages calm_validator = Some (\<lambda>_ _ _ w. (\<lparr>svPassed = True, svInfrastructureError = []\<rparr>, w))"
    by (simp_all add: calm_validator_def calm_batch_def)
  have base: "judge_baseline calm_validator [''README''] calm_batch () = (Inr (m, m), ())"
    using m by (simp add: judge_baseline_def V sample_within accept_def)
  have gates: "judge_gate_evidence [''README''] m m \<lparr>gvBlocking = [], gvErrored = []\<rparr> () = (Inr (), ())"
    using m by (simp add: judged_gates sample_within count_of_def multiset_subset_def)
  have suite: "judge_suite calm_validator run [''README''] ''/r'' [] False calm_batch [] () = (Inr (), ())" for run
    by (simp add: judge_suite_def)
  have "judge_attempt calm_validator ''/r'' [''README''] calm_batch () =
      (Inr \<lparr>vKind = ValidationPassed, vFailure = [], vFindings = [], vChangedFiles = [''README''],
            vProof = batchProof calm_batch\<rparr>, ())"
    by (simp add: judge_attempt_def proceed_def calm_inputs V base calm_integrity asking_def calm gates suite accept_def)
  then show ?thesis by (simp add: validate_attempt_def)
qed

theorem passed_attempt_has_evidence_witness:
  "\<exists>r. validate_attempt calm_validator True ''/r'' [''README''] calm_batch () = (r, ()) \<and>
     vProof r = batchProof calm_batch \<and> vChangedFiles r = [''README'']"
proof -
  obtain r where r: "validate_attempt calm_validator True ''/r'' [''README''] calm_batch () = (r, ())"
    by (cases "validate_attempt calm_validator True ''/r'' [''README''] calm_batch ()") auto
  from r calm_passed have "vKind r = ValidationPassed" by simp
  from passed_attempt_has_evidence [OF r this] r show ?thesis by auto
qed

end
