(* ===== verification/Histories.thy ===== *)
theory Histories
  imports Modules
begin

text \<open>
  Actions that append to a history kept in their state: what the entries of a run that ends early have in
  common, and what those of a run that goes on have, together with its value. Triples state the same of the states
  before and after an action.
\<close>

definition extends ::
  "('s \<Rightarrow> 'ev list) \<Rightarrow> ('s \<Rightarrow> bool) \<Rightarrow> ('e \<Rightarrow> 'ev list \<Rightarrow> bool) \<Rightarrow> ('a \<Rightarrow> 'ev list \<Rightarrow> bool) \<Rightarrow> ('s, 'e, 'a) action \<Rightarrow> bool" where
  "extends log J E A m \<longleftrightarrow> (\<forall>s r s'. J s \<longrightarrow> m s = (r, s') \<longrightarrow> J s' \<and>
     (\<exists>l. log s' = l @ log s \<and> (case r of Inl e \<Rightarrow> E e l | Inr a \<Rightarrow> A a l)))"

lemma extendsD:
  assumes "extends log J E A m" "J s" "m s = (r, s')"
  obtains l where "J s'" "log s' = l @ log s" "case r of Inl e \<Rightarrow> E e l | Inr a \<Rightarrow> A a l"
  using assms unfolding extends_def by blast

lemma extends_mono:
  assumes "extends log J E A m" "\<And>e l. E e l \<Longrightarrow> E' e l" "\<And>a l. A a l \<Longrightarrow> A' a l"
  shows "extends log J E' A' m"
  unfolding extends_def
proof (intro allI impI)
  fix s r s'
  assume "J s" "m s = (r, s')"
  with assms(1) obtain l where "J s'" "log s' = l @ log s" "case r of Inl e \<Rightarrow> E e l | Inr a \<Rightarrow> A a l"
    by (rule extendsD)
  with assms(2,3) show "J s' \<and> (\<exists>l. log s' = l @ log s \<and> (case r of Inl e \<Rightarrow> E' e l | Inr a \<Rightarrow> A' a l))"
    by (auto split: sum.splits)
qed

lemma extends_proceed:
  assumes "extends log J E A m" "\<And>a l. A a l \<Longrightarrow> extends log J (\<lambda>e l'. E e (l' @ l)) (\<lambda>b l'. B b (l' @ l)) (f a)"
  shows "extends log J E B (proceed m f)"
  unfolding extends_def
proof (intro allI impI)
  fix s r s'
  assume ok: "J s" and run: "proceed m f s = (r, s')"
  obtain r1 s1 where m: "m s = (r1, s1)" by fastforce
  from extendsD [OF assms(1) ok m] obtain l
    where l: "J s1" "log s1 = l @ log s" "case r1 of Inl e \<Rightarrow> E e l | Inr a \<Rightarrow> A a l" .
  show "J s' \<and> (\<exists>l. log s' = l @ log s \<and> (case r of Inl e \<Rightarrow> E e l | Inr b \<Rightarrow> B b l))"
  proof (cases r1)
    case (Inl e)
    with run m l show ?thesis by (auto simp: proceed_def)
  next
    case (Inr a)
    with run m have f: "f a s1 = (r, s')" by (simp add: proceed_def)
    from Inr l have "A a l" by simp
    from extendsD [OF assms(2) [OF this] l(1) f] obtain l' where "J s'" "log s' = l' @ log s1"
      "case r of Inl e \<Rightarrow> E e (l' @ l) | Inr b \<Rightarrow> B b (l' @ l)" .
    with l(2) show ?thesis by auto
  qed
qed

lemma extends_accept: "A a [] \<Longrightarrow> extends log J E A (accept a)"
  by (simp add: extends_def accept_def)

lemma extends_reject: "E e [] \<Longrightarrow> extends log J E A (reject e)"
  by (simp add: extends_def reject_def)

lemma extends_ask:
  assumes "\<And>s. J s \<Longrightarrow> \<exists>l. log (snd (f s)) = l @ log s \<and> A (fst (f s)) l" "\<And>s. J s \<Longrightarrow> J (snd (f s))"
  shows "extends log J E A (asking f)"
  using assms by (auto simp: extends_def asking_def case_prod_beta)

lemma extends_answer:
  assumes "\<And>s. log (snd (f s)) = log s" "\<And>s. A (fst (f s)) []" "\<And>s. J s \<Longrightarrow> J (snd (f s))"
  shows "extends log J E A (asking f)"
  by (rule extends_ask) (use assms in auto)

subsection \<open>Triples\<close>

definition holds ::
  "('s \<Rightarrow> bool) \<Rightarrow> ('e \<Rightarrow> 's \<Rightarrow> bool) \<Rightarrow> ('a \<Rightarrow> 's \<Rightarrow> bool) \<Rightarrow> ('s, 'e, 'a) action \<Rightarrow> bool" where
  "holds P E Q m \<longleftrightarrow> (\<forall>s r s'. P s \<longrightarrow> m s = (r, s') \<longrightarrow> (case r of Inl e \<Rightarrow> E e s' | Inr a \<Rightarrow> Q a s'))"

named_theorems triples \<open>rules that reduce a triple to its conditions\<close>

lemma holdsD: "holds P E Q m \<Longrightarrow> P s \<Longrightarrow> m s = (r, s') \<Longrightarrow> (case r of Inl e \<Rightarrow> E e s' | Inr a \<Rightarrow> Q a s')"
  unfolding holds_def by blast

lemma holds_proceed:
  assumes "holds P E Q m" "\<And>a. holds (Q a) E R (f a)"
  shows "holds P E R (proceed m f)"
  unfolding holds_def
proof (intro allI impI)
  fix s r s' assume "P s" and run: "proceed m f s = (r, s')"
  obtain r1 s1 where m: "m s = (r1, s1)" by fastforce
  from holdsD [OF assms(1) \<open>P s\<close> m] run m holdsD [OF assms(2), of _ s1 r s']
  show "case r of Inl e \<Rightarrow> E e s' | Inr a \<Rightarrow> R a s'" by (cases r1) (auto simp: proceed_def)
qed

lemma holds_accept [triples]: "(\<And>s. P s \<Longrightarrow> Q a s) \<Longrightarrow> holds P E Q (accept a)"
  by (simp add: holds_def accept_def)

lemma holds_reject [triples]: "(\<And>s. P s \<Longrightarrow> E e s) \<Longrightarrow> holds P E Q (reject e)"
  by (simp add: holds_def reject_def)

lemma holds_weaken: "holds P' E Q' m \<Longrightarrow> (\<And>s. P s \<Longrightarrow> P' s) \<Longrightarrow> (\<And>a s. Q' a s \<Longrightarrow> Q a s) \<Longrightarrow> holds P E Q m"
  unfolding holds_def by (metis (mono_tags, lifting) old.sum.simps(5) old.sum.simps(6) sum.exhaust)

lemma then_same:
  "holds P E (\<lambda>_. P) m \<Longrightarrow> (\<And>a. holds P E R (f a)) \<Longrightarrow> holds P E R (proceed m f)"
  by (rule holds_proceed)

lemma holds_choice:
  "(b \<Longrightarrow> holds P E Q m) \<Longrightarrow> (\<not> b \<Longrightarrow> holds P E Q n) \<Longrightarrow> holds P E Q (if b then m else n)"
  "(\<And>e. holds P E Q (h e)) \<Longrightarrow> (\<And>a. holds P E Q (k a)) \<Longrightarrow> holds P E Q (case x of Inl e \<Rightarrow> h e | Inr a \<Rightarrow> k a)"
  "holds P E Q n \<Longrightarrow> (\<And>a. holds P E Q (j a)) \<Longrightarrow> holds P E Q (case y of None \<Rightarrow> n | Some a \<Rightarrow> j a)"
  by (simp_all split: sum.split option.split)

end
