(* ===== verification/FixLoop.thy ===== *)
theory FixLoop
  imports Judgement Collection
begin

text \<open>
  \<open>internal/run/fix.go\<close>, first part: the gates of a fixing run, the ports it hands to the engine, and
  \<open>executeFixLoop\<close> from the choice of the agent to the landing. Git, the file system, the worktree, the
  suite, the agent, the pool of workers and the clock are a record of functions over an arbitrary world.
  What the closures of the code capture and change is the state of the loop: the usage of the agent, the
  reports of the last barrier and the disposition of the cleanup. \<open>lpLog\<close> is a history variable: the
  calls after the engine with their answers, latest first; the code keeps no such list.
\<close>

subsection \<open>The staged diff\<close>

fun staged_ranges ::
  "'w repo \<Rightarrow> gostring \<Rightarrow> gostring \<Rightarrow> gostring \<Rightarrow> changed_path list \<Rightarrow> changed_lines \<Rightarrow> int \<Rightarrow>
     ('w, changed_lines \<times> int) act" where
  "staged_ranges R root base tree [] lines n = GitActions.give (lines, n)"
| "staged_ranges R root base tree (p # ps) lines n =
     and_then (git R root diff_limit
       ([''diff'', ''--unified=0'', ''--no-color''] @ deterministic_diff_options @ [base, tree, ''--'']
        @ (if cpPrevious p \<noteq> [] then [literal_pathspec (cpPrevious p)] else []) @ [literal_pathspec (cpCurrent p)]))
       (\<lambda>r. case r of
          Inl _ \<Rightarrow> fail ''read staged changed-line ranges''
        | Inr patch \<Rightarrow>
            and_then (\<lambda>s. case parse_diff_hunks R root tree (cpCurrent p) patch s of
                             (r, s') \<Rightarrow> (with_prefix ''parse staged changed-line ranges: '' r, s')) (\<lambda>ranges.
            staged_ranges R root base tree ps (lines @ [(cpCurrent p, ranges)]) (range_sum ranges n)))"

text \<open>A Git command whose failure is replaced by a text.\<close>

definition git_named :: "'w repo \<Rightarrow> gostring \<Rightarrow> int \<Rightarrow> message \<Rightarrow> gostring list \<Rightarrow> ('w, gostring) act" where
  "git_named R root limit label args =
     and_then (git R root limit args) (\<lambda>r. case r of Inl _ \<Rightarrow> fail label | Inr out \<Rightarrow> GitActions.give out)"

definition resolve_staged_diff :: "'w repo \<Rightarrow> gostring \<Rightarrow> gostring \<Rightarrow> ('w, diff) act" where
  "resolve_staged_diff R root fork =
     and_then (canonical_diff_root R root) (\<lambda>root.
     and_then (\<lambda>s. case resolve_diff_commit R root fork s of
                      (Inl _, s') \<Rightarrow> (Inl ''resolve staged diff merge base'', s')
                    | (Inr base, s') \<Rightarrow>
                        (if base \<noteq> fork then Inl ''resolve staged diff merge base'' else Inr (), s')) (\<lambda>_.
     and_then (git_named R root reference_limit ''resolve staged tree'' [''write-tree'']) (\<lambda>out.
     and_then (checked (case parse_object_id out of Inl _ \<Rightarrow> Inl ''parse staged tree'' | Inr tree \<Rightarrow> Inr tree)) (\<lambda>tree.
     and_then (git_named R root paths_limit ''list staged changed paths''
       ([''diff'', ''--name-status'', ''--diff-filter=ACMRTUXB''] @ deterministic_diff_options
        @ [''-z'', fork, tree, ''--''])) (\<lambda>out.
     and_then (checked (with_prefix ''parse staged changed paths: '' (parse_changed_paths root out))) (\<lambda>paths.
     and_then fresh_cache (\<lambda>_.
     and_then (staged_ranges R root fork tree paths [] 0) (\<lambda>(lines, n).
     GitActions.give \<lparr>diffBaseRef = fork, diffBaseCommit = fork, diffMergeBase = fork, diffHead = tree,
           diffChangedFiles = length paths, diffChangedLines = n, diffLines = lines\<rparr>))))))))"

subsection \<open>The host\<close>

text \<open>
  A validated tree is seen through a handle. Where only the presence of an error matters, an answer is
  true when the call failed. \<open>fhFinalCause\<close> is the cause of the context of the final suite and
  \<open>fhCause\<close> that of the run. \<open>fhPorts\<close> holds what the engine's ports take from the agent, the ledger and the
  worktree; its \<open>pAdapterRun\<close>, \<open>pValidate\<close> and \<open>pBarrier\<close> are given by the loop.
\<close>

record ('w, 'snap) fix_host =
  fhRepo :: "'w repo"
  fhEngines :: gate_engines
  fhSupply :: "nat \<Rightarrow> nat"
  fhRawSink :: "gostring \<Rightarrow> gostring \<Rightarrow> 'w \<Rightarrow> message option \<times> 'w"
  fhCollect :: "gate_request list \<Rightarrow> 'w \<Rightarrow> gate_report list \<times> 'w"
  fhSuite :: "gostring \<Rightarrow> gostring list \<Rightarrow> bool \<Rightarrow> 'w \<Rightarrow> (bool \<times> suite_result) \<times> 'w"
  fhHasAgent :: bool
  fhAgentRun :: "gostring \<Rightarrow> nat \<Rightarrow> 'w \<Rightarrow> (usage option \<times> adapter_error option) \<times> 'w"
  fhIdentity :: "'w \<Rightarrow> (message, gostring) res \<times> 'w"
  fhSnapshotOriginal :: "gostring \<Rightarrow> 'w \<Rightarrow> (message, tree_snapshot) res \<times> 'w"
  fhCreateWorkspace :: "gostring \<Rightarrow> 'w \<Rightarrow> (message, bool) res \<times> 'w"
  fhWorkspaceRoot :: gostring
  fhPackages :: "'w package_host"
  fhJudge :: "'snap integrity_judge"
  fhValidationCause :: "'w \<Rightarrow> gostring option \<times> 'w"
  fhRecoveryEnded :: "'w \<Rightarrow> bool \<times> 'w"
  fhVerifyProof :: "batch_proof \<Rightarrow> 'w \<Rightarrow> gostring option \<times> 'w"
  fhSnapshotAttempt :: "gostring \<Rightarrow> 'w \<Rightarrow> (message, tree_snapshot) res \<times> 'w"
  fhSnapshotValidated :: "'w \<Rightarrow> (bool \<times> nat option) \<times> 'w"
  fhTreeRoot :: "nat \<Rightarrow> gostring"
  fhTreeVerify :: "nat \<Rightarrow> 'w \<Rightarrow> bool \<times> 'w"
  fhTreeClose :: "nat \<Rightarrow> 'w \<Rightarrow> bool \<times> 'w"
  fhSquash :: "nat \<Rightarrow> 'w \<Rightarrow> (message, gostring) res \<times> 'w"
  fhLand :: "gostring \<Rightarrow> 'w \<Rightarrow> (landing_status \<times> message option) \<times> 'w"
  fhFinalCause :: "'w \<Rightarrow> ctx_end option \<times> 'w"
  fhCause :: "'w \<Rightarrow> ctx_end option \<times> 'w"
  fhPorts :: "'w ports"

subsection \<open>Gates\<close>

fun prepare_gates ::
  "('w, 'snap) fix_host \<Rightarrow> gostring \<Rightarrow> changed_lines \<Rightarrow> nat \<Rightarrow> gate_request list \<Rightarrow> ('w, gate_request list) fallible" where
  "prepare_gates H root lines i [] = accept []"
| "prepare_gates H root lines i (req # reqs) =
     proceed (asking (fhRawSink H (gate_name (reqGate req)) (wrLanguage (reqBinding req)))) (\<lambda>e. case e of
       Some e \<Rightarrow> reject (''prepare raw sink: '' @ e)
     | None \<Rightarrow>
         proceed (prepare_gates H root lines (Suc i) reqs) (\<lambda>rest.
         accept (((clone_execution_request (fhEngines H) (fhSupply H i) req)\<lparr>reqRoot := root, reqHasSink := True,
                    reqChangedLines := (if mfScope (gtManifest (reqGate req)) = diff_scope then Some lines
                                        else reqChangedLines req)\<rparr>) # rest)))"

definition collect_gates ::
  "('w, 'snap) fix_host \<Rightarrow> gate_request list \<Rightarrow> gostring \<Rightarrow> diff \<Rightarrow> ('w, gate_report list) fallible" where
  "collect_gates H requests root d =
     proceed (prepare_gates H root (diffLines d) 0 requests) (\<lambda>prepared. asking (fhCollect H prepared))"

text \<open>An action on Git with a cache of its own.\<close>

definition with_cache :: "('w, 'a) act \<Rightarrow> ('w, 'a) fallible" where
  "with_cache m w = (case m \<lparr>dsWorld = w, dsCache = Map.empty\<rparr> of (r, s) \<Rightarrow> (r, dsWorld s))"

record prepared_run =
  prRequests :: "gate_request list"
  prRoot :: gostring
  prDiff :: diff
  prRunID :: gostring
  prRepoID :: gostring

definition collect_validation_gates ::
  "('w, 'snap) fix_host \<Rightarrow> prepared_run \<Rightarrow> gostring \<Rightarrow> gostring \<Rightarrow> bool \<Rightarrow> gate_request list \<Rightarrow>
     ('w, gate_report list) fallible" where
  "collect_validation_gates H prepared git_root execution_root staged requests =
     proceed (relabel_by (\<lambda>e. ''recompute validation diff: '' @ e)
                (with_cache (if staged then resolve_staged_diff (fhRepo H) git_root (diffMergeBase (prDiff prepared))
                             else resolve_diff (fhRepo H) git_root (diffMergeBase (prDiff prepared)))))
       (\<lambda>d. collect_gates H requests execution_root d)"

text \<open>Reports of a collection that failed are nil.\<close>

definition reports_of :: "(message, gate_report list) res \<Rightarrow> gate_report list" where
  "reports_of r = (case r of Inl _ \<Rightarrow> [] | Inr reports \<Rightarrow> reports)"

subsection \<open>The validator and the ports\<close>

definition attempt_gates ::
  "('w, 'snap) fix_host \<Rightarrow> prepared_run \<Rightarrow> gostring \<Rightarrow> batch \<Rightarrow> 'w \<Rightarrow> gate_validation \<times> 'w" where
  "attempt_gates H prepared root b w =
     (case collect_validation_gates H prepared (fhWorkspaceRoot H) root True
             (validation_requests (fhEngines H) (fhSupply H) (prRequests prepared) (batchFindings b)) w of
        (r, w') \<Rightarrow>
          (\<lparr>gvBlocking = blocking_findings (reports_of r),
            gvErrored = (if isl r then [''ledger''] else []) @ errored_gate_names (reports_of r)\<rparr>, w'))"

definition attempt_packages ::
  "('w, 'snap) fix_host \<Rightarrow> gostring \<Rightarrow> gostring list \<Rightarrow> bool \<Rightarrow> 'w \<Rightarrow> suite_validation \<times> 'w" where
  "attempt_packages H root packages full w =
     (case fhSuite H root packages full w of
        ((failed, result), w') \<Rightarrow>
          (if failed \<or> srStatus result = suite_errored
           then \<lparr>svPassed = False, svInfrastructureError = ''behavioral suite infrastructure failed''\<rparr>
           else \<lparr>svPassed = (srStatus result = suite_passed), svInfrastructureError = []\<rparr>, w'))"

definition fix_validator ::
  "('w, 'snap) fix_host \<Rightarrow> prepared_run \<Rightarrow> tree_snapshot \<Rightarrow> finding list \<Rightarrow> gostring list \<Rightarrow> ('w, 'snap) attempt_validator" where
  "fix_validator H prepared original blockers waived =
     \<lparr>avHost = fhPackages H, avJudge = fhJudge H, avOriginal = original, avBaseline = blockers, avWaived = waived,
      avRunGates = Some (attempt_gates H prepared), avRunPackages = Some (attempt_packages H),
      avCause = fhValidationCause H, avRecoveryEnded = fhRecoveryEnded H, avVerify = fhVerifyProof H,
      avSnapshotAttempt = fhSnapshotAttempt H\<rparr>"

text \<open>The state of the closures: the world, the usage so far and the reports of the last barrier.\<close>

record 'w fix_world =
  fwWorld :: 'w
  fwUsage :: "usage option"
  fwBarrier :: "gate_report list"

definition lifted :: "('w \<Rightarrow> 'a \<times> 'w) \<Rightarrow> 'w fix_world \<Rightarrow> 'a \<times> 'w fix_world" where
  "lifted f s = (case f (fwWorld s) of (a, w) \<Rightarrow> (a, s\<lparr>fwWorld := w\<rparr>))"

definition add_usage :: "usage option \<Rightarrow> usage option \<Rightarrow> usage option" where
  "add_usage seen u =
     (case u of
        None \<Rightarrow> seen
      | Some u \<Rightarrow>
          (let t = (case seen of None \<Rightarrow> \<lparr>InputTokens = 0, CachedInputTokens = 0, OutputTokens = 0\<rparr> | Some t \<Rightarrow> t)
           in Some \<lparr>InputTokens = wrap64 (InputTokens t + InputTokens u),
                    CachedInputTokens = wrap64 (CachedInputTokens t + CachedInputTokens u),
                    OutputTokens = wrap64 (OutputTokens t + OutputTokens u)\<rparr>))"

text \<open>\<open>usageAdapter.Run\<close>.\<close>

definition usage_adapter_run ::
  "('w, 'snap) fix_host \<Rightarrow> gostring \<Rightarrow> nat \<Rightarrow> 'w fix_world \<Rightarrow> adapter_error option \<times> 'w fix_world" where
  "usage_adapter_run H brief sink s =
     (case fhAgentRun H brief sink (fwWorld s) of
        ((u, e), w) \<Rightarrow> (e, s\<lparr>fwWorld := w, fwUsage := add_usage (fwUsage s) u\<rparr>))"

definition infrastructure_answer :: "gostring \<Rightarrow> finding list \<Rightarrow> validation_result" where
  "infrastructure_answer failure fs =
     \<lparr>vKind = ValidationInfrastructureFailure, vFailure = failure, vFindings = fs, vChangedFiles = [], vProof = no_proof\<rparr>"

definition fix_validate ::
  "('w, 'snap) fix_host \<Rightarrow> prepared_run \<Rightarrow> tree_snapshot \<Rightarrow> finding list \<Rightarrow> gostring list \<Rightarrow> batch \<Rightarrow> 'w \<Rightarrow>
     validation_result \<times> 'w" where
  "fix_validate H prepared original blockers waived b w =
     (case pChangedFiles (fhPorts H) w of
        (Inl _, w') \<Rightarrow> (infrastructure_answer ''inspect changed files'' [], w')
      | (Inr changed, w') \<Rightarrow>
          validate_attempt (fix_validator H prepared original blockers waived) True (fhWorkspaceRoot H) changed b w')"

definition fix_barrier ::
  "('w, 'snap) fix_host \<Rightarrow> prepared_run \<Rightarrow> 'w fix_world \<Rightarrow> validation_result \<times> 'w fix_world" where
  "fix_barrier H prepared s =
     (case fhSnapshotValidated H (fwWorld s) of
        ((failed, tree), w) \<Rightarrow>
          (case tree of
             Some t \<Rightarrow>
               if failed
               then (infrastructure_answer ''create immutable all-gate barrier snapshot'' [], s\<lparr>fwWorld := w\<rparr>)
               else (case collect_validation_gates H prepared (fhWorkspaceRoot H) (fhTreeRoot H t) False
                            (prRequests prepared) w of
                       (r, w) \<Rightarrow>
                     (case fhTreeVerify H t w of (unverified, w) \<Rightarrow>
                     (case fhTreeClose H t w of (unclosed, w) \<Rightarrow>
                       (if isl r \<or> unverified \<or> unclosed \<or> gates_errored (reports_of r)
                        then infrastructure_answer ''all-gate barrier infrastructure failed'' (blocking_findings (reports_of r))
                        else \<lparr>vKind = ValidationPassed, vFailure = [], vFindings = blocking_findings (reports_of r),
                              vChangedFiles = [], vProof = no_proof\<rparr>,
                        s\<lparr>fwWorld := w, fwBarrier := reports_of r\<rparr>))))
           | None \<Rightarrow>
               (infrastructure_answer ''create immutable all-gate barrier snapshot'' [], s\<lparr>fwWorld := w\<rparr>)))"

definition fix_ports ::
  "('w, 'snap) fix_host \<Rightarrow> prepared_run \<Rightarrow> tree_snapshot \<Rightarrow> finding list \<Rightarrow> gostring list \<Rightarrow> 'w fix_world ports" where
  "fix_ports H prepared original blockers waived =
     (let P = fhPorts H in
      \<lparr>pClock = lifted (pClock P), pCtx = lifted (pCtx P), pWritePlan = (\<lambda>p. lifted (pWritePlan P p)),
       pWriteBrief = (\<lambda>b n t. lifted (pWriteBrief P b n t)), pAdapterSink = (\<lambda>b n. lifted (pAdapterSink P b n)),
       pSnapshotGit = lifted (pSnapshotGit P), pAdapterRun = usage_adapter_run H, pCheckGit = (\<lambda>g. lifted (pCheckGit P g)),
       pChangedFiles = lifted (pChangedFiles P), pPrepareBatch = (\<lambda>fs. lifted (pPrepareBatch P fs)),
       pValidate = (\<lambda>b. lifted (fix_validate H prepared original blockers waived b)),
       pVerifyBatch = (\<lambda>q. lifted (pVerifyBatch P q)), pResetAttempt = lifted (pResetAttempt P),
       pCommitBatch = (\<lambda>f q. lifted (pCommitBatch P f q)), pRollbackBatch = (\<lambda>c. lifted (pRollbackBatch P c)),
       pBarrier = fix_barrier H prepared, pQuote = pQuote P, pPlanErrorText = pPlanErrorText P,
       pBriefErrorText = pBriefErrorText P, hasAdapter = True, hasWorkspace = True, hasAudit = True,
       hasValidate = True, hasBarrier = True\<rparr>)"

end
