(* ===== verification/FixRuns.thy ===== *)
theory FixRuns
  imports FixLoop
begin

text \<open>
  \<open>internal/run/fix.go\<close>, second part: \<open>executeFixLoop\<close> in its stages, \<open>composeFixReport\<close> and the decisions of
  \<open>runFix\<close>. An early return of the code is the left side of an action.
\<close>

subsection \<open>State\<close>

datatype fix_event =
    FxEngine outcome_kind
  | FxSnapshot "nat option"
  | FxSuite nat suite_status
  | FxVerify nat bool
  | FxAdmit bool
  | FxSquash nat "gostring option"
  | FxLand gostring landing_status bool

record 'w loop_state =
  lpWorld :: "'w fix_world"
  lpRails :: rails
  lpLog :: "fix_event list"

text \<open>
  \<open>fixExecution\<close>. \<open>feCleanup\<close> is the cleanup closure, if a worktree exists, with the disposition it captures:
  whether the worktree was landed. An error is the text the code gives it.
\<close>

record fix_execution =
  feBaseline :: suite_result
  feFinal :: "suite_result option"
  feGates :: "gate_report list"
  feOutcome :: "outcome option"
  feIntegrity :: "finding list"
  feLanding :: landing_report
  feBranch :: gostring
  feUsage :: "usage option"
  feVerdict :: verdict
  feFailure :: "message option"
  feCleanup :: "bool option"

type_synonym ('w, 'a) looping = "('w loop_state, fix_execution, 'a) action"

definition on_world :: "('w \<Rightarrow> 'a \<times> 'w) \<Rightarrow> ('w, 'a) looping" where
  "on_world f = asking (\<lambda>s. case lifted f (lpWorld s) of (a, w) \<Rightarrow> (a, s\<lparr>lpWorld := w\<rparr>))"

definition on_rails :: "('w, 'snap) fix_host \<Rightarrow> (int \<Rightarrow> rails \<Rightarrow> 'a \<times> rails) \<Rightarrow> ('w, 'a) looping" where
  "on_rails H m = proceed (on_world (pClock (fhPorts H)))
     (\<lambda>t. asking (\<lambda>s. case m t (lpRails s) of (a, r) \<Rightarrow> (a, s\<lparr>lpRails := r\<rparr>)))"

definition logged :: "fix_event \<Rightarrow> ('w, unit) looping" where
  "logged e = asking (\<lambda>s. ((), s\<lparr>lpLog := e # lpLog s\<rparr>))"

text \<open>A call with its entry in the history.\<close>

definition recorded :: "('w \<Rightarrow> 'a \<times> 'w) \<Rightarrow> ('a \<Rightarrow> fix_event) \<Rightarrow> ('w, 'a) looping" where
  "recorded f ev = proceed (on_world f) (\<lambda>a. proceed (logged (ev a)) (\<lambda>_. accept a))"

subsection \<open>Verdicts\<close>

definition verdict_for_flywheel :: "outcome_kind \<Rightarrow> verdict" where
  "verdict_for_flywheel k =
     (case k of OutcomeReady \<Rightarrow> verdict_unsealed | OutcomeBlocked \<Rightarrow> verdict_blocked
      | OutcomeRails \<Rightarrow> verdict_rails | OutcomeErrored \<Rightarrow> verdict_errored)"

definition has_validated_batch :: "batch list \<Rightarrow> bool" where
  "has_validated_batch bs \<longleftrightarrow> list_ex (\<lambda>b. batchStatus b = BatchDone) bs"

definition public_fix_failure :: "verdict \<Rightarrow> landing_status \<Rightarrow> gostring" where
  "public_fix_failure v status =
     (if status = landing_complete then ''landing completed but post-landing cleanup failed''
      else if v = verdict_unverified then ''behavioral baseline is not verified''
      else if v = verdict_blocked then ''fix loop blocked''
      else if v = verdict_rails then ''execution rail exhausted''
      else ''fix loop infrastructure failed'')"

definition preserved_branch :: "prepared_run \<Rightarrow> gostring" where
  "preserved_branch prepared = ''togi/run-'' @ prRunID prepared"

definition preserving :: "prepared_run \<Rightarrow> fix_execution \<Rightarrow> fix_execution" where
  "preserving prepared e = e\<lparr>feLanding := (feLanding e)\<lparr>lrPreservedBranch := preserved_branch prepared\<rparr>\<rparr>"

definition stopped_with :: "prepared_run \<Rightarrow> verdict \<Rightarrow> message \<Rightarrow> fix_execution \<Rightarrow> fix_execution" where
  "stopped_with prepared v failure e = preserving prepared (e\<lparr>feVerdict := v, feFailure := Some failure\<rparr>)"

definition unclosed_snapshot :: message where
  "unclosed_snapshot = ''close immutable final-suite snapshot''"

text \<open>Closing the snapshot; a failure to close takes the place of the verdict.\<close>

definition close_and_stop ::
  "('w, 'snap) fix_host \<Rightarrow> prepared_run \<Rightarrow> nat \<Rightarrow> verdict \<Rightarrow> message \<Rightarrow> fix_execution \<Rightarrow> ('w, 'a) looping" where
  "close_and_stop H prepared t v failure e =
     proceed (on_world (fhTreeClose H t)) (\<lambda>unclosed.
     reject (if unclosed then stopped_with prepared verdict_errored unclosed_snapshot e
             else stopped_with prepared v failure e))"

subsection \<open>The stages of executeFixLoop\<close>

definition loop_setup ::
  "('w, 'snap) fix_host \<Rightarrow> prepared_run \<Rightarrow> fix_execution \<Rightarrow> ('w, fix_execution \<times> tree_snapshot) looping" where
  "loop_setup H prepared e =
     (if \<not> fhHasAgent H then reject (e\<lparr>feFailure := Some ''agent adapter is unavailable''\<rparr>)
      else proceed (on_world (fhIdentity H)) (\<lambda>identity. case identity of
        Inl m \<Rightarrow> reject (e\<lparr>feFailure := Some m\<rparr>)
      | Inr branch \<Rightarrow>
          proceed (on_world (fhSnapshotOriginal H (diffHead (prDiff prepared)))) (\<lambda>original. case original of
            Inl m \<Rightarrow> reject (e\<lparr>feBranch := branch, feFailure := Some (''snapshot original tree: '' @ m)\<rparr>)
          | Inr original \<Rightarrow>
              proceed (on_world (fhCreateWorkspace H branch)) (\<lambda>workspace. case workspace of
                Inl m \<Rightarrow> reject (e\<lparr>feBranch := branch, feFailure := Some (''create fix worktree: '' @ m)\<rparr>)
              | Inr present \<Rightarrow>
                  if \<not> present
                  then reject (e\<lparr>feBranch := branch, feFailure := Some ''create fix worktree: workspace is unavailable''\<rparr>)
                  else accept (e\<lparr>feBranch := branch, feCleanup := Some False\<rparr>, original)))))"

text \<open>
  The engine on the state of the loop. Without a state of its own the engine has read the rails once,
  for the iterations of its outcome.
\<close>

definition run_engine :: "'w fix_world ports \<Rightarrow> request \<Rightarrow> ('w, outcome) looping" where
  "run_engine P rq = asking (\<lambda>s.
     case execute P (rq\<lparr>reqRails := Some (lpRails s)\<rparr>) True (lpWorld s) of
       (out, Some engine) \<Rightarrow>
         (out, s\<lparr>lpWorld := eWorld engine, lpRails := eRails engine, lpLog := FxEngine (outKind out) # lpLog s\<rparr>)
     | (out, None) \<Rightarrow>
         (case pClock P (lpWorld s) of (t, w) \<Rightarrow>
            (out, s\<lparr>lpWorld := w, lpRails := snd (snapshot t (lpRails s)), lpLog := FxEngine (outKind out) # lpLog s\<rparr>)))"

definition engine_request :: "prepared_run \<Rightarrow> finding list \<Rightarrow> request" where
  "engine_request prepared blockers =
     \<lparr>reqMergeBase = diffMergeBase (prDiff prepared), reqOriginalHead = diffHead (prDiff prepared),
      reqInitialFindings = blockers, reqRails = None\<rparr>"

definition after_engine :: "'w fix_world \<Rightarrow> outcome \<Rightarrow> fix_execution \<Rightarrow> fix_execution" where
  "after_engine w out e =
     e\<lparr>feOutcome := Some out, feUsage := fwUsage w,
       feGates := (if fwBarrier w \<noteq> [] then fwBarrier w else feGates e),
       feIntegrity := feIntegrity e @ filter (\<lambda>f. Gate f = ''integrity'') (outFindings out),
       feVerdict := verdict_for_flywheel (outKind out)\<rparr>"

definition loop_engine ::
  "('w, 'snap) fix_host \<Rightarrow> prepared_run \<Rightarrow> finding list \<Rightarrow> gostring list \<Rightarrow> fix_execution \<times> tree_snapshot \<Rightarrow>
     ('w, fix_execution) looping" where
  "loop_engine H prepared blockers waived = (\<lambda>(e, original).
     proceed (run_engine (fix_ports H prepared original blockers waived) (engine_request prepared blockers)) (\<lambda>out.
     proceed (asking (\<lambda>s. (after_engine (lpWorld s) out e, s))) (\<lambda>e.
     if outKind out \<noteq> OutcomeReady
     then reject ((if has_validated_batch (planBatches (outPlan out)) then preserving prepared else id)
                    (e\<lparr>feFailure := Some (outFailure out)\<rparr>))
     else accept e)))"

text \<open>\<open>rails.ObserveExecutionContext\<close> reads the cause of the context again, which keeps a cause it has.\<close>

definition observe_final :: "('w, 'snap) fix_host \<Rightarrow> ctx_end option \<Rightarrow> ('w, unit) looping" where
  "observe_final H cause =
     proceed (case cause of Some c \<Rightarrow> accept (Some c) | None \<Rightarrow> on_world (fhFinalCause H)) (\<lambda>cause.
     asking (\<lambda>s. ((), s\<lparr>lpRails := observe_execution_context
                           (case cause of None \<Rightarrow> False | Some c \<Rightarrow> ctxRail c) (lpRails s)\<rparr>)))"

definition final_context ::
  "('w, 'snap) fix_host \<Rightarrow> prepared_run \<Rightarrow> fix_execution \<Rightarrow> ('w, unit) looping" where
  "final_context H prepared e =
     proceed (on_rails H (execution_context True)) (\<lambda>r. case r of
       Inl err \<Rightarrow>
         reject (stopped_with prepared (case err of RailExhausted _ \<Rightarrow> verdict_rails | _ \<Rightarrow> verdict_errored)
                   (rails_error_text err) e)
     | Inr _ \<Rightarrow> accept ())"

text \<open>Closing a snapshot that may be nil: whether that failed.\<close>

definition close_if :: "('w, 'snap) fix_host \<Rightarrow> nat option \<Rightarrow> ('w, bool) looping" where
  "close_if H tree = (case tree of None \<Rightarrow> accept False | Some t \<Rightarrow> on_world (fhTreeClose H t))"

definition final_snapshot ::
  "('w, 'snap) fix_host \<Rightarrow> prepared_run \<Rightarrow> fix_execution \<Rightarrow> ('w, nat) looping" where
  "final_snapshot H prepared e =
     proceed (recorded (fhSnapshotValidated H) (\<lambda>(failed, tree). FxSnapshot (if failed then None else tree))) (\<lambda>(failed, tree).
     proceed (on_world (fhFinalCause H)) (\<lambda>cause.
     proceed (observe_final H cause) (\<lambda>_.
     case cause of
       Some c \<Rightarrow>
         proceed (close_if H tree) (\<lambda>unclosed.
         reject (if unclosed then stopped_with prepared verdict_errored unclosed_snapshot e
                 else if ctxRail c then stopped_with prepared verdict_rails (ctxCause c) e
                 else stopped_with prepared verdict_errored (''immutable final-suite snapshot canceled: '' @ ctxCause c) e))
     | None \<Rightarrow>
         (case tree of
            None \<Rightarrow> reject (stopped_with prepared verdict_errored ''create immutable final-suite snapshot'' e)
          | Some t \<Rightarrow>
              if failed
              then proceed (close_if H tree) (\<lambda>_.
                   reject (stopped_with prepared verdict_errored ''create immutable final-suite snapshot'' e))
              else accept t))))"

definition final_suite ::
  "('w, 'snap) fix_host \<Rightarrow> prepared_run \<Rightarrow> nat \<Rightarrow> fix_execution \<Rightarrow> ('w, fix_execution) looping" where
  "final_suite H prepared t e =
     proceed (recorded (fhSuite H (fhTreeRoot H t) [] True)
                (\<lambda>(failed, final). FxSuite t (if failed then suite_errored else srStatus final))) (\<lambda>(failed, final).
     proceed (recorded (fhTreeVerify H t) (FxVerify t)) (\<lambda>unverified.
     proceed (on_world (fhFinalCause H)) (\<lambda>cause.
     proceed (observe_final H cause) (\<lambda>_.
     (let e = e\<lparr>feFinal := Some final\<rparr> in
      case cause of
        Some c \<Rightarrow>
          if ctxRail c then close_and_stop H prepared t verdict_rails (ctxCause c) e
          else close_and_stop H prepared t verdict_errored (''final behavioral suite canceled: '' @ ctxCause c) e
      | None \<Rightarrow>
          if failed \<or> unverified \<or> srStatus final = suite_errored \<or> srStatus final = suite_missing
          then close_and_stop H prepared t verdict_errored ''final behavioral suite infrastructure failed'' e
          else if srStatus final \<noteq> suite_passed
          then close_and_stop H prepared t verdict_blocked ''final behavioral suite failed'' e
          else accept e)))))"

definition admit_final ::
  "('w, 'snap) fix_host \<Rightarrow> prepared_run \<Rightarrow> nat \<Rightarrow> fix_execution \<Rightarrow> ('w, unit) looping" where
  "admit_final H prepared t e =
     proceed (on_rails H admit_landing) (\<lambda>err.
     proceed (logged (FxAdmit (err = None))) (\<lambda>_.
     case err of
       Some err \<Rightarrow> close_and_stop H prepared t verdict_rails (rails_error_text err) e
     | None \<Rightarrow>
         proceed (on_world (fhCause H)) (\<lambda>cause. case cause of
           Some c \<Rightarrow> close_and_stop H prepared t verdict_errored (''landing admission canceled: '' @ ctxCause c) e
         | None \<Rightarrow> accept ())))"

definition squash_final ::
  "('w, 'snap) fix_host \<Rightarrow> prepared_run \<Rightarrow> nat \<Rightarrow> fix_execution \<Rightarrow> ('w, fix_execution \<times> gostring) looping" where
  "squash_final H prepared t e =
     proceed (recorded (fhSquash H t) (\<lambda>r. FxSquash t (case r of Inl _ \<Rightarrow> None | Inr c \<Rightarrow> Some c))) (\<lambda>squash.
     proceed (on_world (fhTreeClose H t)) (\<lambda>unclosed.
     case squash of
       Inl m \<Rightarrow> reject (stopped_with prepared verdict_errored (''create landing commit: '' @ m) e)
     | Inr commit \<Rightarrow>
         if unclosed then reject (stopped_with prepared verdict_errored unclosed_snapshot e)
         else accept (e\<lparr>feLanding := (feLanding e)\<lparr>lrCommit := commit\<rparr>\<rparr>, commit)))"

definition failed_landing :: "message \<Rightarrow> fix_execution \<Rightarrow> fix_execution" where
  "failed_landing m e = e\<lparr>feFailure := Some m, feLanding := (feLanding e)\<lparr>lrError := m\<rparr>\<rparr>"

text \<open>What the answer of the landing makes of the execution.\<close>

definition land_answer ::
  "prepared_run \<Rightarrow> landing_status \<Rightarrow> message option \<Rightarrow> fix_execution \<Rightarrow> fix_execution" where
  "land_answer prepared status err e =
     (let e = e\<lparr>feLanding := (feLanding e)\<lparr>lrStatus := status\<rparr>\<rparr> in
      if status = landing_complete
      then (case err of
              Some m \<Rightarrow> failed_landing (''finish completed landing: '' @ m)
                          (e\<lparr>feVerdict := verdict_errored, feCleanup := Some True\<rparr>)
            | None \<Rightarrow> e\<lparr>feVerdict := verdict_unsealed, feFailure := None, feCleanup := Some True\<rparr>)
      else if err \<noteq> None \<or> status = landing_blocked
      then preserving prepared (failed_landing
             (''guard landing: '' @ (case err of None \<Rightarrow> ''landing was refused'' | Some m \<Rightarrow> m))
             (e\<lparr>feVerdict := verdict_blocked\<rparr>))
      else e\<lparr>feVerdict := verdict_errored, feFailure := Some ''landing returned unexpected status''\<rparr>)"

definition land_final ::
  "('w, 'snap) fix_host \<Rightarrow> prepared_run \<Rightarrow> gostring \<Rightarrow> fix_execution \<Rightarrow> ('w, fix_execution) looping" where
  "land_final H prepared commit e =
     proceed (recorded (fhLand H commit) (\<lambda>(status, err). FxLand commit status (err = None))) (\<lambda>(status, err).
     accept (land_answer prepared status err e))"

definition loop_stages ::
  "('w, 'snap) fix_host \<Rightarrow> prepared_run \<Rightarrow> finding list \<Rightarrow> gostring list \<Rightarrow> fix_execution \<Rightarrow>
     ('w, fix_execution) looping" where
  "loop_stages H prepared blockers waived e =
     proceed (loop_setup H prepared e) (\<lambda>setup.
     proceed (loop_engine H prepared blockers waived setup) (\<lambda>e.
     proceed (final_context H prepared e) (\<lambda>_.
     proceed (final_snapshot H prepared e) (\<lambda>t.
     proceed (final_suite H prepared t e) (\<lambda>e.
     proceed (admit_final H prepared t e) (\<lambda>_.
     proceed (squash_final H prepared t e) (\<lambda>(e, commit).
     land_final H prepared commit e)))))))"

definition execute_fix_loop ::
  "('w, 'snap) fix_host \<Rightarrow> prepared_run \<Rightarrow> finding list \<Rightarrow> gostring list \<Rightarrow> fix_execution \<Rightarrow> 'w loop_state \<Rightarrow>
     fix_execution \<times> 'w loop_state" where
  "execute_fix_loop H prepared blockers waived e s =
     (case loop_stages H prepared blockers waived e s of (Inl e, s') \<Rightarrow> (e, s') | (Inr e, s') \<Rightarrow> (e, s'))"

subsection \<open>The report\<close>

text \<open>A duration in milliseconds, rounded up; durations are nanoseconds.\<close>

definition report_milliseconds :: "int \<Rightarrow> int" where
  "report_milliseconds d =
     (if d \<le> 0 then 0 else d div 1000000 + (if d mod 1000000 \<noteq> 0 then 1 else 0))"

definition rails_report_of :: "rail_snapshot \<Rightarrow> rails_report" where
  "rails_report_of r =
     \<lparr>rrMaxIterations = snapMaxIterations r, rrIterations = snapIterations r,
      rrMaxWallClockMS = report_milliseconds (snapMaxWallClock r), rrElapsedMS = report_milliseconds (snapElapsed r)\<rparr>"

definition fix_report_of :: "diff \<Rightarrow> fix_execution \<Rightarrow> rail_snapshot \<Rightarrow> gostring \<Rightarrow> fix_report" where
  "fix_report_of d e r agent =
     \<lparr>frOriginalHead = diffHead d, frFeatureBranch = feBranch e,
      frAgent = \<lparr>arName = agent, arUsage = feUsage e\<rparr>, frBaseline = feBaseline e, frFinal = feFinal e,
      frRails = rails_report_of r,
      frBatches = Some (case feOutcome e of None \<Rightarrow> [] | Some out \<Rightarrow> planBatches (outPlan out)),
      frIntegrity = Some (feIntegrity e),
      frLanding = (if feFailure e \<noteq> None
                   then (feLanding e)\<lparr>lrError := public_fix_failure (feVerdict e) (lrStatus (feLanding e))\<rparr>
                   else feLanding e)\<rparr>"

definition compose_fix_report ::
  "prepared_run \<Rightarrow> int \<Rightarrow> int \<Rightarrow> fix_execution \<Rightarrow> rail_snapshot \<Rightarrow> gostring \<Rightarrow> (problem, report) res" where
  "compose_fix_report prepared started finished e r agent =
     (case compose_report (prRunID prepared) (prRepoID prepared) started finished (prDiff prepared) (feGates e) of
        Inl p \<Rightarrow> Inl p
      | Inr base \<Rightarrow>
          (let rep = base\<lparr>repVerdict := feVerdict e, repFix := Some (fix_report_of (prDiff prepared) e r agent)\<rparr>
           in case validate_report rep (prRunID prepared) of Some p \<Rightarrow> Inl p | None \<Rightarrow> Inr rep))"

end
