(* ===== verification/EngineWorlds.thy ===== *)
theory EngineWorlds
  imports EngineFacts
begin

text \<open>
  What a run of the engine does to the world behind its ports: the locale \<open>barrier_world\<close> states that every
  port keeps a relation between the answer of the last barrier and the world, and the barrier establishes
  it; then it holds at the end of every run. The engine is taken as it is, step by step.
\<close>

fun last_barrier :: "event list \<Rightarrow> validation_result option" where
  "last_barrier [] = None"
| "last_barrier (EvBarrier v # l) = Some v"
| "last_barrier (e # l) = last_barrier l"

lemma last_barrier_skip: "\<not> is_barrier e \<Longrightarrow> last_barrier (e # l) = last_barrier l"
  by (cases e) simp_all

definition keeping :: "('s \<Rightarrow> bool) \<Rightarrow> ('s, 'a) state \<Rightarrow> bool" where
  "keeping J m \<longleftrightarrow> (\<forall>s. J s \<longrightarrow> J (snd (run_state m s)))"

named_theorems keep \<open>steps that keep an invariant of the state\<close>

lemma keeping_bind [keep]: "keeping J m \<Longrightarrow> (\<And>a. keeping J (f a)) \<Longrightarrow> keeping J (State_Monad.bind m f)"
  by (simp add: keeping_def split: prod.split) (metis snd_conv)

lemma keeping_return [keep]: "keeping J (State_Monad.return a)"
  by (simp add: keeping_def)

lemma keeping_gets [keep]: "keeping J (gets f)"
  by (simp add: keeping_def gets_def)

lemma keeping_persisted [keep]: "keeping J get_persisted"
  unfolding get_persisted_def by (rule keeping_gets)

lemma keeping_if [keep]: "keeping J m \<Longrightarrow> keeping J n \<Longrightarrow> keeping J (if b then m else n)"
  by simp

lemma keeping_option [keep]:
  "keeping J m \<Longrightarrow> (\<And>x. keeping J (f x)) \<Longrightarrow> keeping J (case y of None \<Rightarrow> m | Some x \<Rightarrow> f x)"
  by (cases y) simp_all

lemma keeping_sum [keep]:
  "(\<And>x. keeping J (f x)) \<Longrightarrow> (\<And>x. keeping J (g x)) \<Longrightarrow> keeping J (case y of Inl x \<Rightarrow> f x | Inr x \<Rightarrow> g x)"
  by (cases y) simp_all

lemma keeping_prod [keep]: "(\<And>x z. keeping J (f x z)) \<Longrightarrow> keeping J (case y of (x, z) \<Rightarrow> f x z)"
  by (cases y) simp

lemma keeping_let [keep]: "keeping J (f x) \<Longrightarrow> keeping J (let y = x in f y)"
  by simp

lemma keeping_kind [keep]:
  "keeping J m \<Longrightarrow> keeping J n \<Longrightarrow> keeping J q \<Longrightarrow> (\<And>k. keeping J (r k)) \<Longrightarrow>
     keeping J (case v of ValidationPassed \<Rightarrow> m | ValidationSemanticFailure \<Rightarrow> n
                  | ValidationInfrastructureFailure \<Rightarrow> q | ValidationOther k \<Rightarrow> r k)"
  by (cases v) simp_all

lemma keeping_result [keep]:
  "keeping J m \<Longrightarrow> (\<And>a b. keeping J (n a b)) \<Longrightarrow> (\<And>a b c. keeping J (q a b c)) \<Longrightarrow> (\<And>k. keeping J (r k)) \<Longrightarrow>
     keeping J (case v of AttemptSucceeded \<Rightarrow> m | SemanticFailure a b \<Rightarrow> n a b
                  | InfrastructureFailure a b c \<Rightarrow> q a b c | AttemptStopped k \<Rightarrow> r k)"
  by (cases v) simp_all

lemma keeping_decision [keep]:
  "(\<And>a. keeping J (m a)) \<Longrightarrow> (\<And>a. keeping J (n a)) \<Longrightarrow>
     keeping J (case v of BarrierStop a \<Rightarrow> m a | BarrierContinue a \<Rightarrow> n a)"
  by (cases v) simp_all

locale barrier_world =
  fixes P :: "'w ports" and R :: "validation_result \<Rightarrow> 'w \<Rightarrow> bool"
  assumes clock: "R v w \<Longrightarrow> R v (snd (pClock P w))"
    and ctx: "R v w \<Longrightarrow> R v (snd (pCtx P w))"
    and write_plan: "R v w \<Longrightarrow> R v (snd (pWritePlan P p w))"
    and write_brief: "R v w \<Longrightarrow> R v (snd (pWriteBrief P t n u w))"
    and adapter_sink: "R v w \<Longrightarrow> R v (snd (pAdapterSink P t n w))"
    and snapshot_git: "R v w \<Longrightarrow> R v (snd (pSnapshotGit P w))"
    and adapter_run: "R v w \<Longrightarrow> R v (snd (pAdapterRun P t n w))"
    and check_git: "R v w \<Longrightarrow> R v (snd (pCheckGit P n w))"
    and changed_files: "R v w \<Longrightarrow> R v (snd (pChangedFiles P w))"
    and prepare_batch: "R v w \<Longrightarrow> R v (snd (pPrepareBatch P ts w))"
    and validate: "R v w \<Longrightarrow> R v (snd (pValidate P b w))"
    and verify_batch: "R v w \<Longrightarrow> R v (snd (pVerifyBatch P q w))"
    and reset_attempt: "R v w \<Longrightarrow> R v (snd (pResetAttempt P w))"
    and commit_batch: "R v w \<Longrightarrow> R v (snd (pCommitBatch P t q w))"
    and rollback_batch: "R v w \<Longrightarrow> R v (snd (pRollbackBatch P t w))"
    and barrier: "R (fst (pBarrier P w)) (snd (pBarrier P w))"
begin

definition related :: "'w engine \<Rightarrow> bool" where
  "related s \<longleftrightarrow> (\<forall>v. last_barrier (eLog (eCore s)) = Some v \<longrightarrow> R v (eWorld s))"

lemma keep_call:
  assumes "\<And>a. \<not> is_barrier (ev a)" "\<And>v w. R v w \<Longrightarrow> R v (snd (f w))"
  shows "keeping related (call f ev)"
proof -
  have "related (snd (run_state (call f ev) s))" if r: "related s" for s
  proof -
    obtain a w where f: "f (eWorld s) = (a, w)" by force
    have "R v w" if "last_barrier (eLog (eCore s)) = Some v" for v
      using r that assms(2) [of v "eWorld s"] f by (auto simp: related_def)
    then show ?thesis
      using assms(1) [of a] by (simp add: related_def call_def f record_event_def last_barrier_skip)
  qed
  then show ?thesis by (simp add: keeping_def)
qed

lemma keep_barrier [keep]: "keeping related (call (pBarrier P) EvBarrier)"
  using barrier by (auto simp: keeping_def related_def call_def record_event_def split: prod.splits) (metis fst_conv snd_conv)

lemma keep_modify: "(\<And>c. eLog (f c) = eLog c) \<Longrightarrow> keeping related (modify_core f)"
  by (simp add: keeping_def related_def modify_core_def)

lemma keep_rails [keep]: "keeping related (with_rails P m)"
  using clock by (auto simp: keeping_def related_def with_rails_def split: prod.splits) (metis snd_conv)

lemma keep_ctx [keep]: "keeping related (ctx_done P)"
  using ctx by (auto simp: keeping_def related_def ctx_done_def split: prod.splits option.splits) (metis snd_conv)

lemma keep_observe [keep]: "keeping related (observe_ctx c)"
  by (simp add: keeping_def related_def observe_ctx_def)

lemma keep_event [keep]: "\<not> is_barrier e \<Longrightarrow> keeping related (modify_core (record_event e))"
  by (simp add: keeping_def related_def modify_core_def record_event_def last_barrier_skip)

lemmas keep_calls [keep] =
  keep_call [OF _ write_plan] keep_call [OF _ write_brief] keep_call [OF _ adapter_sink]
  keep_call [OF _ snapshot_git] keep_call [OF _ adapter_run] keep_call [OF _ check_git]
  keep_call [OF _ changed_files] keep_call [OF _ prepare_batch] keep_call [OF _ validate]
  keep_call [OF _ verify_batch] keep_call [OF _ reset_attempt] keep_call [OF _ commit_batch]
  keep_call [OF _ rollback_batch]

lemma keep_batch [keep]: "keeping related (modify_core (on_batch i f))"
  by (rule keep_modify) (simp add: on_batch_def)

lemma keep_outcome [keep]: "keeping related (engine_outcome P k p fs f)"
  unfolding engine_outcome_def by (intro keep)

lemma keep_persist [keep]: "keeping related (persist P)"
  unfolding persist_def by (intro keep keep_modify) simp_all

lemma keep_stops [keep]:
  "keeping related (context_outcome P c p)" "keeping related (rail_exhausted_now P)"
  "keeping related (stop_for_context P p)" "keeping related (stop_for_rail P p)"
  "keeping related (stopped P k f)" "keeping related (stop_with P k fs f)"
  unfolding context_outcome_def rail_exhausted_now_def stop_for_context_def stop_for_rail_def stopped_def stop_with_def
  by (intro keep)+

lemma keep_core [keep]:
  "keeping related (modify_core (\<lambda>c. c\<lparr>ePlan := f c\<rparr>))" "keeping related (modify_core (\<lambda>c. c\<lparr>eSemantic := g c\<rparr>))"
  by (simp_all add: keep_modify)

lemma keep_reset [keep]: "keeping related (fail_and_reset P i n f)"
  unfolding fail_and_reset_def by (rule keep | simp)+

lemma keep_checks [keep]:
  "keeping related (checkpoint_context P i n)"
  unfolding checkpoint_context_def by (rule keep | simp)+

lemma keep_stopping [keep]: "keeping related m \<Longrightarrow> keeping related n \<Longrightarrow> keeping related (stopping m n)"
  unfolding stopping_def by (rule keep | simp)+

lemma keep_checkpoint [keep]: "keeping related (checkpoint P i n)"
  unfolding checkpoint_def by (rule keep | simp)+

lemma keep_abort [keep]: "keeping related (abort_semantic P i n f)"
  unfolding abort_semantic_def by (rule keep | simp)+

lemma keep_after_commit [keep]: "keeping related (after_commit P)"
  unfolding after_commit_def by (rule keep | simp)+

lemma keep_run_commit [keep]: "keeping related (run_commit P i n ch q)"
  unfolding run_commit_def record_commit_def undo_commit_def by (rule keep | simp)+

lemma keep_run_judge [keep]: "keeping related (run_judge P i n ch v)"
  unfolding run_judge_def by (rule keep | simp)+

lemma keep_run_validate [keep]: "keeping related (run_validate P i n ch q)"
  unfolding run_validate_def by (rule keep | simp)+

lemma keep_run_changes [keep]: "keeping related (run_changes P i n)"
  unfolding run_changes_def by (rule keep | simp)+

lemma keep_run_agent [keep]: "keeping related (run_agent P i n b sink git)"
  unfolding run_agent_def by (rule keep | simp)+

lemma keep_run_attempt [keep]: "keeping related (run_attempt P rq i n retry)"
  unfolding run_attempt_def by (rule keep | simp)+

lemma keep_admit [keep]: "keeping related (admit P i n)"
  unfolding admit_def by (rule keep | simp)+

lemma keep_after_attempt [keep]:
  "(\<And>f. keeping related (retry f)) \<Longrightarrow> keeping related (after_attempt P i n result retry)"
  unfolding after_attempt_def by (rule keep | simp)+

lemma keep_attempts [keep]: "keeping related (execute_attempts P rq i retry ns)"
  by (induction ns arbitrary: retry) (simp only: execute_attempts.simps, (rule keep | assumption)+)+

lemma keep_wave [keep]: "keeping related (execute_wave P rq stuck is)"
  by (induction "is" arbitrary: stuck)
    (simp only: execute_wave.simps execute_batch_def, (rule keep | assumption)+)+

lemma keep_evaluate [keep]: "keeping related (evaluate_barrier P v before stuck)"
  unfolding evaluate_barrier_def by (rule keep | simp)+

lemma keep_next_wave [keep]: "keeping related (next_wave P v after)"
  unfolding next_wave_def by (rule keep | simp)+

lemma keep_run_wave [keep]: "keeping related (run_wave P rq start before)"
  unfolding run_wave_def with_findings_def by (rule keep | simp)+

lemma keep_start [keep]: "keeping related (start_execute P rq)"
  unfolding start_execute_def by (rule keep | simp)+

lemma keep_run_waves: "Q = P \<Longrightarrow> related s \<Longrightarrow> related (snd (run_waves Q rq start before s))"
proof (induction Q rq start before s rule: run_waves.induct)
  case (1 Q rq start before s)
  obtain r s1 where r: "run_state (run_wave Q rq start before) s = (r, s1)" by fastforce
  with 1(2,3) keep_run_wave [of rq start before] have s1: "related s1" unfolding keeping_def by (metis snd_conv)
  show ?case
  proof (cases r)
    case (Inl out)
    with r s1 show ?thesis by (simp add: run_waves.simps)
  next
    case (Inr x)
    obtain start' after where x: "x = (start', after)" by (cases x)
    from 1(1) [OF r [symmetric] Inr x [symmetric] 1(2) s1] r Inr x show ?thesis
      by (simp add: run_waves.simps [of Q rq start before])
  qed
qed

text \<open>The relation at the end of a run, for the last answer of the barrier.\<close>

lemma execute_related:
  assumes "execute P rq ctx w = (out, Some s)"
  shows "related s"
proof -
  let ?s = "\<lparr>eCore = initial_core, eRails = the (reqRails rq), eCtx = None, eWorld = w\<rparr>"
  obtain a s1 where a: "run_state (start_execute P rq) ?s = (a, s1)" by fastforce
  have "related ?s" by (simp add: related_def initial_core_def)
  then have "related s1" using keep_start [of rq] a unfolding keeping_def by (metis snd_conv)
  moreover have "s = s1 \<or> (\<exists>m. s = snd (run_waves P rq 0 m s1))"
  proof (cases a)
    case (Inr m)
    with assms a have "run_waves P rq 0 m s1 = (out, s)"
      by (auto simp: execute_def Let_def split: if_splits prod.splits)
    then have "s = snd (run_waves P rq 0 m s1)" by simp
    then show ?thesis by blast
  qed (use assms a in \<open>auto simp: execute_def Let_def split: if_splits\<close>)
  ultimately show ?thesis using keep_run_waves [OF refl] by blast
qed

lemma execute_last_barrier:
  "execute P rq ctx w = (out, Some s) \<Longrightarrow> last_barrier (eLog (eCore s)) = Some v \<Longrightarrow> R v (eWorld s)"
  using execute_related unfolding related_def by blast

end

end
