(* ===== verification/LandingFacts.thy ===== *)
theory LandingFacts
  imports Histories FixRuns EngineProps EngineWorlds ReportFacts
begin

text \<open>
  What the stages of \<open>executeFixLoop\<close> leave in the history, and when a run lands: only after the engine
  was ready and the whole suite passed on the tree that is landed.
\<close>

subsection \<open>Stages and their histories\<close>

text \<open>
  An action appends to the history of the loop: the entries of a run that ends early have one property,
  those of a run that goes on have another, together with the value. The rails stay well formed.
\<close>

abbreviation appends ::
  "(fix_execution \<Rightarrow> fix_event list \<Rightarrow> bool) \<Rightarrow> ('a \<Rightarrow> fix_event list \<Rightarrow> bool) \<Rightarrow> ('w, 'a) looping \<Rightarrow> bool" where
  "appends \<equiv> extends lpLog (\<lambda>s. rails_ok (lpRails s))"

lemma appends_on_world: "(\<And>w. A (fst (f w)) []) \<Longrightarrow> appends E A (on_world f)"
  unfolding on_world_def by (rule extends_answer) (simp_all add: lifted_def case_prod_beta)

lemma appends_logged: "A () [e] \<Longrightarrow> appends E A (logged e)"
  by (simp add: extends_def logged_def asking_def)

lemma appends_recorded: "(\<And>w. A (fst (f w)) [ev (fst (f w))]) \<Longrightarrow> appends E A (recorded f ev)"
  unfolding recorded_def
  by (rule extends_proceed [OF appends_on_world [where A = "\<lambda>a l. l = [] \<and> (\<exists>w. a = fst (f w))"]])
    (auto intro!: extends_proceed [OF appends_logged [where A = "\<lambda>_ l. l = [ev _]"]] extends_accept)

lemma appends_on_rails: "quiet_rails m \<Longrightarrow> (\<And>a. A a []) \<Longrightarrow> appends E A (on_rails H m)"
  unfolding on_rails_def
  by (rule extends_proceed [OF appends_on_world [where A = "\<lambda>_ l. l = []"]])
    (auto intro!: extends_answer simp: quiet_rails_def case_prod_beta)

subsection \<open>Runs that end before the landing\<close>

definition halted :: "verdict \<Rightarrow> fix_execution \<Rightarrow> fix_event list \<Rightarrow> bool" where
  "halted v e l \<longleftrightarrow> (feVerdict e = verdict_unsealed \<longrightarrow> v = verdict_unsealed) \<and> (\<forall>c status ok. FxLand c status ok \<notin> set l)"

lemma halted_stopped [simp]:
  "halted v0 (stopped_with prepared v m e) l \<longleftrightarrow>
     (v = verdict_unsealed \<longrightarrow> v0 = verdict_unsealed) \<and> (\<forall>c status ok. FxLand c status ok \<notin> set l)"
  by (simp add: halted_def stopped_with_def preserving_def)

lemma observe_keeps: "rails_ok r \<Longrightarrow> rails_ok (observe_execution_context b r)"
  by (simp add: observe_execution_context_def rails_ok_def)

text \<open>Steps that add nothing; a run that ends in one ends with what the history held.\<close>

lemma silent_world: "(\<And>a. appends E A (f a)) \<Longrightarrow> appends E A (proceed (on_world g) f)"
  by (rule extends_proceed [OF appends_on_world [where A = "\<lambda>_ l. l = []"]]) auto

lemma silent_rails: "quiet_rails g \<Longrightarrow> (\<And>a. appends E A (f a)) \<Longrightarrow> appends E A (proceed (on_rails H g) f)"
  by (rule extends_proceed [OF appends_on_rails [where A = "\<lambda>_ l. l = []"]]) auto

lemma silent_observe: "appends E A (f ()) \<Longrightarrow> appends E A (proceed (observe_final H cause) f)"
proof (rule extends_proceed [where A = "\<lambda>_ l. l = []"])
  show "appends E (\<lambda>_ l. l = []) (observe_final H cause)"
    unfolding observe_final_def
    by (rule extends_proceed [where A = "\<lambda>_ l. l = []"])
      (auto intro!: extends_answer extends_accept appends_on_world
         simp: observe_keeps split: option.splits)
qed auto

lemma silent_close_if: "(\<And>a. appends E A (f a)) \<Longrightarrow> appends E A (proceed (close_if H tree) f)"
  by (rule extends_proceed [where A = "\<lambda>_ l. l = []"])
    (auto simp: close_if_def intro!: extends_accept appends_on_world split: option.splits)

lemma then_answered:
  assumes "\<And>a. \<exists>w. fst (g w) = a \<Longrightarrow> appends (\<lambda>e l. E e (l @ [ev a])) (\<lambda>b l. A b (l @ [ev a])) (f a)"
  shows "appends E A (proceed (recorded g ev) f)"
  by (rule extends_proceed [OF appends_recorded [where A = "\<lambda>a l. l = [ev a] \<and> (\<exists>w. fst (g w) = a)"]])
    (use assms in auto)

lemma then_recorded:
  "(\<And>a. appends (\<lambda>e l. E e (l @ [ev a])) (\<lambda>b l. A b (l @ [ev a])) (f a)) \<Longrightarrow>
     appends E A (proceed (recorded g ev) f)"
  by (rule then_answered)

lemma then_logged:
  assumes "appends (\<lambda>e l. E e (l @ [v])) (\<lambda>b l. A b (l @ [v])) (f ())"
  shows "appends E A (proceed (logged v) f)"
  by (rule extends_proceed [OF appends_logged [where A = "\<lambda>a l. l = [v]"]]) (simp_all add: assms)

lemma appends_close:
  assumes "E (stopped_with prepared v m e) []" "E (stopped_with prepared verdict_errored unclosed_snapshot e) []"
  shows "appends E A (close_and_stop H prepared t v m e)"
  unfolding close_and_stop_def by (rule silent_world, rule extends_reject) (simp add: assms)

subsection \<open>The reports of the last barrier\<close>

text \<open>Package \<open>run\<close>'s \<open>Collect\<close> answers one report for each request.\<close>

definition collecting :: "('w, 'snap) fix_host \<Rightarrow> bool" where
  "collecting H \<longleftrightarrow> (\<forall>requests w. length (fst (fhCollect H requests w)) = length requests)"

text \<open>What an answer of the barrier says of the reports the loop keeps.\<close>

definition clean_reports ::
  "('w, 'snap) fix_host \<Rightarrow> prepared_run \<Rightarrow> finding list \<Rightarrow> 'w fix_world \<Rightarrow> bool" where
  "clean_reports H prepared fs w \<longleftrightarrow> \<not> gates_errored (fwBarrier w) \<and> blocking_findings (fwBarrier w) = fs
     \<and> (collecting H \<and> prRequests prepared \<noteq> [] \<longrightarrow> fwBarrier w \<noteq> [])"

definition barrier_answered ::
  "('w, 'snap) fix_host \<Rightarrow> prepared_run \<Rightarrow> validation_result \<Rightarrow> 'w fix_world \<Rightarrow> bool" where
  "barrier_answered H prepared v w \<longleftrightarrow>
     (vKind v = ValidationPassed \<longrightarrow> clean_reports H prepared (vFindings v) w)"

lemma lifted_reports: "fwBarrier (snd (lifted f w)) = fwBarrier w"
  by (simp add: lifted_def split: prod.split)

lemma adapter_reports: "fwBarrier (snd (usage_adapter_run H t n w)) = fwBarrier w"
  by (simp add: usage_adapter_run_def split: prod.split)

lemma answered_reports:
  "barrier_answered H prepared v w \<Longrightarrow> fwBarrier w' = fwBarrier w \<Longrightarrow> barrier_answered H prepared v w'"
  by (simp add: barrier_answered_def clean_reports_def)

lemma fix_ports_calls:
  "pClock (fix_ports H prepared original blockers waived) = lifted (pClock (fhPorts H))"
  "pCtx (fix_ports H prepared original blockers waived) = lifted (pCtx (fhPorts H))"
  "pWritePlan (fix_ports H prepared original blockers waived) p = lifted (pWritePlan (fhPorts H) p)"
  "pWriteBrief (fix_ports H prepared original blockers waived) t n u = lifted (pWriteBrief (fhPorts H) t n u)"
  "pAdapterSink (fix_ports H prepared original blockers waived) t n = lifted (pAdapterSink (fhPorts H) t n)"
  "pSnapshotGit (fix_ports H prepared original blockers waived) = lifted (pSnapshotGit (fhPorts H))"
  "pAdapterRun (fix_ports H prepared original blockers waived) = usage_adapter_run H"
  "pCheckGit (fix_ports H prepared original blockers waived) n = lifted (pCheckGit (fhPorts H) n)"
  "pChangedFiles (fix_ports H prepared original blockers waived) = lifted (pChangedFiles (fhPorts H))"
  "pPrepareBatch (fix_ports H prepared original blockers waived) fs = lifted (pPrepareBatch (fhPorts H) fs)"
  "pValidate (fix_ports H prepared original blockers waived) b = lifted (fix_validate H prepared original blockers waived b)"
  "pVerifyBatch (fix_ports H prepared original blockers waived) q = lifted (pVerifyBatch (fhPorts H) q)"
  "pResetAttempt (fix_ports H prepared original blockers waived) = lifted (pResetAttempt (fhPorts H))"
  "pCommitBatch (fix_ports H prepared original blockers waived) t q = lifted (pCommitBatch (fhPorts H) t q)"
  "pRollbackBatch (fix_ports H prepared original blockers waived) t = lifted (pRollbackBatch (fhPorts H) t)"
  "pBarrier (fix_ports H prepared original blockers waived) = fix_barrier H prepared"
  by (simp_all add: fix_ports_def Let_def)

lemma prepared_gates: "prepare_gates H root lines i reqs w = (Inr prepared, w') \<Longrightarrow> length prepared = length reqs"
  by (induction reqs arbitrary: i w prepared w')
    (auto simp: proceed_accepts split: option.splits)

lemma collected_length:
  assumes "collect_validation_gates H prepared git_root root staged requests w = (Inr reports, w')" "collecting H"
  shows "length reports = length requests"
proof -
  from assms(1) obtain d :: diff and w1 ready w2 where "prepare_gates H root (diffLines d) 0 requests w1 = (Inr ready, w2)"
    "fhCollect H ready w2 = (reports, w')"
    by (auto simp: collect_validation_gates_def collect_gates_def fallible_accepts)
  with prepared_gates [OF this(1)] assms(2) show ?thesis unfolding collecting_def by (metis fst_conv)
qed

lemma clean_collected:
  assumes "collect_validation_gates H prepared git_root root staged (prRequests prepared) w0 = (Inr reports, w1)"
    "\<not> gates_errored reports"
  shows "clean_reports H prepared (blocking_findings reports) (w\<lparr>fwWorld := world, fwBarrier := reports\<rparr>)"
  using collected_length [OF assms(1)] assms(2) by (auto simp: clean_reports_def)

lemma barrier_establishes:
  "barrier_answered H prepared (fst (fix_barrier H prepared w)) (snd (fix_barrier H prepared w))"
proof -
  obtain failed tree w1 where s: "fhSnapshotValidated H (fwWorld w) = ((failed, tree), w1)"
    by (metis surj_pair)
  show ?thesis
  proof (cases "\<exists>t. tree = Some t \<and> \<not> failed")
    case False
    with s have "vKind (fst (fix_barrier H prepared w)) \<noteq> ValidationPassed"
      by (auto simp: fix_barrier_def infrastructure_answer_def split: option.splits)
    then show ?thesis by (simp add: barrier_answered_def)
  next
    case True
    then obtain t where t: "tree = Some t" "\<not> failed" by blast
    obtain r w2 where r: "collect_validation_gates H prepared (fhWorkspaceRoot H) (fhTreeRoot H t) False
        (prRequests prepared) w1 = (r, w2)" by fastforce
    obtain unverified w3 where v: "fhTreeVerify H t w2 = (unverified, w3)" by fastforce
    obtain unclosed w4 where c: "fhTreeClose H t w3 = (unclosed, w4)" by fastforce
    note b = fix_barrier_def [of H prepared w, unfolded s prod.case t option.case if_False r v c]
    show ?thesis
    proof (cases r)
      case (Inl e)
      with b t(2) show ?thesis by (simp add: barrier_answered_def infrastructure_answer_def)
    next
      case (Inr reports)
      with b t(2) clean_collected [OF r [unfolded Inr], where w = w and world = w4] show ?thesis
        by (simp add: barrier_answered_def infrastructure_answer_def reports_of_def)
    qed
  qed
qed

interpretation fix_loop: barrier_world "fix_ports H prepared original blockers waived" "barrier_answered H prepared"
  for H prepared original blockers waived
  by unfold_locales
    (simp_all only: fix_ports_calls barrier_establishes,
     (erule answered_reports, simp only: lifted_reports adapter_reports)+)

text \<open>What a ready engine leaves.\<close>

definition ready_result :: "('w, 'snap) fix_host \<Rightarrow> prepared_run \<Rightarrow> 'w fix_world \<Rightarrow> outcome \<Rightarrow> bool" where
  "ready_result H prepared w out \<longleftrightarrow> outKind out = OutcomeReady \<and> all_done (outPlan out) \<and> outFindings out = []
     \<and> clean_reports H prepared [] w"

lemma engine_ready:
  assumes "execute (fix_ports H prepared original blockers waived) rq True w = (out, Some s)"
    "reqRails rq = Some r" "rails_ok r" "outKind out = OutcomeReady"
  shows "ready_result H prepared (eWorld s) out"
proof -
  have final: "final_ok (r, barriers (eLog (eCore s))) (eCore s) out" by (rule execute_facts(1) [OF assms(1-3)])
  with assms(4) obtain v l where v: "eLog (eCore s) = EvWritePlan (outPlan out) None # EvBarrier v # l"
    "vKind v = ValidationPassed" "vFindings v = []"
    by (auto simp: final_ok_def ready_end_def)
  then have "clean_reports H prepared [] (eWorld s)"
    using fix_loop.execute_last_barrier [OF assms(1), of v] by (simp add: barrier_answered_def)
  with final assms(4) show ?thesis unfolding ready_result_def final_ok_def by blast
qed

subsection \<open>The stages\<close>

abbreviation silent :: "'a \<Rightarrow> fix_event list \<Rightarrow> bool" where
  "silent _ l \<equiv> l = []"

definition set_up :: "fix_execution \<Rightarrow> gostring \<Rightarrow> fix_execution" where
  "set_up e branch = e\<lparr>feBranch := branch, feCleanup := Some False\<rparr>"

lemma set_up_some [simp]: "\<exists>b. set_up e a = set_up e b"
  by blast

lemma setup_appends:
  "appends (halted (feVerdict e)) (\<lambda>(e', _) l. l = [] \<and> (\<exists>branch. e' = set_up e branch)) (loop_setup H prepared e)"
  unfolding loop_setup_def set_up_def [symmetric]
  by (auto intro!: silent_world extends_accept extends_reject simp: halted_def split: sum.splits)

lemma flywheel_unsealed: "verdict_for_flywheel k = verdict_unsealed \<longleftrightarrow> k = OutcomeReady"
  by (cases k) (simp_all add: verdict_for_flywheel_def)

lemma execute_no_state: "execute P rq True w = (out, None) \<Longrightarrow> outKind out = OutcomeErrored"
  by (auto simp: execute_def early_outcome_def Let_def split: if_splits prod.splits sum.splits)

lemma after_engine_verdict [simp]: "feVerdict (after_engine w out e) = verdict_for_flywheel (outKind out)"
  by (simp add: after_engine_def)

text \<open>The engine on the loop, then the look at what its ports gathered.\<close>

lemma run_engine_result:
  assumes "rails_ok (lpRails s)" "run_engine (fix_ports H prepared original blockers waived) rq s = (r, s')"
  obtains out where "r = Inr out" "rails_ok (lpRails s')" "lpLog s' = FxEngine (outKind out) # lpLog s"
    "outKind out = OutcomeReady \<longrightarrow> ready_result H prepared (lpWorld s') out"
proof -
  let ?P = "fix_ports H prepared original blockers waived"
  obtain out engine where x: "execute ?P (rq\<lparr>reqRails := Some (lpRails s)\<rparr>) True (lpWorld s) = (out, engine)" by fastforce
  show ?thesis
  proof (cases engine)
    case None
    obtain t w where c: "pClock ?P (lpWorld s) = (t, w)" by fastforce
    from None x have "outKind out = OutcomeErrored" by (simp add: execute_no_state)
    moreover have "rails_ok (snd (snapshot t (lpRails s)))" using assms(1) quiet_methods(2) unfolding quiet_rails_def by blast
    ultimately show ?thesis using assms(2) x None c that [of out] by (auto simp: run_engine_def asking_def)
  next
    case (Some engine)
    note x = x [unfolded Some]
    have "rails_ok (eRails engine)" by (rule execute_facts(2) [OF x _ assms(1)]) simp
    moreover have "outKind out = OutcomeReady \<longrightarrow> ready_result H prepared (eWorld engine) out"
      using engine_ready [OF x] assms(1) by simp
    ultimately show ?thesis using assms(2) x that [of out] by (auto simp: run_engine_def asking_def)
  qed
qed

lemma engine_appends:
  "appends (halted v) (\<lambda>e' l. l = [FxEngine OutcomeReady]
     \<and> (\<exists>w out. e' = after_engine w out e \<and> ready_result H prepared w out))
     (loop_engine H prepared blockers waived (e, original))"
  unfolding extends_def
proof (intro allI impI)
  fix s r and s' :: "'a loop_state"
  let ?run = "run_engine (fix_ports H prepared original blockers waived) (engine_request prepared blockers)"
  assume ok: "rails_ok (lpRails s)" and run: "loop_engine H prepared blockers waived (e, original) s = (r, s')"
  obtain r1 s1 where m: "?run s = (r1, s1)" by fastforce
  from run_engine_result [OF ok m] obtain out where out: "r1 = Inr out" "rails_ok (lpRails s1)"
    "lpLog s1 = FxEngine (outKind out) # lpLog s" "outKind out = OutcomeReady \<longrightarrow> ready_result H prepared (lpWorld s1) out" .
  have s': "s' = s1" and r: "r = (if outKind out \<noteq> OutcomeReady
      then Inl ((if has_validated_batch (planBatches (outPlan out)) then preserving prepared else id)
                  ((after_engine (lpWorld s1) out e)\<lparr>feFailure := Some (outFailure out)\<rparr>))
      else Inr (after_engine (lpWorld s1) out e))"
    using run m out(1) by (auto simp: loop_engine_def proceed_def asking_def reject_def accept_def split: if_splits)
  show "rails_ok (lpRails s') \<and> (\<exists>l. lpLog s' = l @ lpLog s \<and> (case r of Inl e \<Rightarrow> halted v e l
      | Inr e' \<Rightarrow> l = [FxEngine OutcomeReady] \<and> (\<exists>w out. e' = after_engine w out e \<and> ready_result H prepared w out)))"
    using out s' r flywheel_unsealed [of "outKind out"]
    by (auto simp: halted_def preserving_def)
qed

lemma context_appends: "appends (halted v) silent (final_context H prepared e)"
  unfolding final_context_def
  by (rule silent_rails) (auto intro!: extends_accept extends_reject split: sum.splits rails_error.splits)

lemma snapshot_appends: "appends (halted v) (\<lambda>t l. l = [FxSnapshot (Some t)]) (final_snapshot H prepared e)"
  unfolding final_snapshot_def
  by (rule then_recorded)
    (auto intro!: silent_world silent_observe silent_close_if extends_accept extends_reject
       split: option.splits)

lemma suite_appends:
  "appends (halted v) (\<lambda>e' l. l = [FxVerify t False, FxSuite t suite_passed]
     \<and> (\<exists>final. e' = e\<lparr>feFinal := Some final\<rparr> \<and> srStatus final = suite_passed)) (final_suite H prepared t e)"
  unfolding final_suite_def Let_def
  by (rule then_recorded, simp only: case_prod_beta, rule then_recorded)
    (auto intro!: silent_world silent_observe appends_close extends_accept split: option.splits)

lemma admit_appends: "appends (halted v) (\<lambda>_ l. l = [FxAdmit True]) (admit_final H prepared t e)"
  unfolding admit_final_def
  by (rule silent_rails, simp, rule then_logged)
    (auto intro!: silent_world appends_close extends_accept split: option.splits)

definition with_commit :: "gostring \<Rightarrow> fix_execution \<Rightarrow> fix_execution" where
  "with_commit commit e = e\<lparr>feLanding := (feLanding e)\<lparr>lrCommit := commit\<rparr>\<rparr>"

lemma squash_appends:
  "appends (halted v) (\<lambda>(e', commit) l. l = [FxSquash t (Some commit)] \<and> e' = with_commit commit e
     \<and> (\<exists>w. fst (fhSquash H t w) = Inr commit))
     (squash_final H prepared t e)"
  unfolding squash_final_def with_commit_def
  by (rule then_answered) (auto intro!: silent_world extends_reject extends_accept split: sum.splits)

lemma land_appends:
  "appends (halted v) (\<lambda>e' l. \<exists>status err. l = [FxLand commit status (err = None)] \<and> e' = land_answer prepared status err e)
     (land_final H prepared commit e)"
  unfolding land_final_def by (rule then_recorded) (auto intro!: extends_accept)

text \<open>The history of a run that reaches the landing, and what it makes of the execution.\<close>

definition landing_history :: "nat \<Rightarrow> gostring \<Rightarrow> landing_status \<Rightarrow> bool \<Rightarrow> fix_event list" where
  "landing_history t commit status ok =
     [FxLand commit status ok, FxSquash t (Some commit), FxAdmit True, FxVerify t False, FxSuite t suite_passed,
      FxSnapshot (Some t), FxEngine OutcomeReady]"

definition landing_execution ::
  "'w fix_world \<Rightarrow> outcome \<Rightarrow> suite_result \<Rightarrow> gostring \<Rightarrow> gostring \<Rightarrow> fix_execution \<Rightarrow> fix_execution" where
  "landing_execution w out final branch commit e =
     with_commit commit ((after_engine w out (set_up e branch))\<lparr>feFinal := Some final\<rparr>)"

definition landing_tried ::
  "('w, 'snap) fix_host \<Rightarrow> prepared_run \<Rightarrow> fix_execution \<Rightarrow> fix_execution \<Rightarrow> fix_event list \<Rightarrow> bool" where
  "landing_tried H prepared e e' l \<longleftrightarrow> (\<exists>t commit status err w out final branch.
     l = landing_history t commit status (err = None) \<and> ready_result H prepared w out \<and> srStatus final = suite_passed
     \<and> (\<exists>world. fst (fhSquash H t world) = Inr commit)
     \<and> e' = land_answer prepared status err (landing_execution w out final branch commit e))"

lemma halted_append: "halted v e l \<Longrightarrow> \<forall>c status ok. FxLand c status ok \<notin> set l0 \<Longrightarrow> halted v e (l @ l0)"
  by (simp add: halted_def)

lemma then_stage:
  assumes "appends (halted v) A m" "\<forall>c status ok. FxLand c status ok \<notin> set l0"
    "\<And>a l. A a l \<Longrightarrow> appends (\<lambda>e l'. halted v e (l' @ l @ l0)) (\<lambda>b l'. B b (l' @ l @ l0)) (f a)"
  shows "appends (\<lambda>e l. halted v e (l @ l0)) (\<lambda>b l. B b (l @ l0)) (proceed m f)"
proof (rule extends_proceed)
  show "appends (\<lambda>e l. halted v e (l @ l0)) A m"
    by (rule extends_mono [OF assms(1)]) (use assms(2) in \<open>auto intro: halted_append\<close>)
qed (use assms(3) in simp)

lemma last_stage:
  assumes "appends (halted v) A m" "\<forall>c status ok. FxLand c status ok \<notin> set l0" "\<And>b l. A b l \<Longrightarrow> B b (l @ l0)"
  shows "appends (\<lambda>e l. halted v e (l @ l0)) (\<lambda>b l. B b (l @ l0)) m"
  by (rule extends_mono [OF assms(1)]) (use assms(2,3) in \<open>auto intro: halted_append\<close>)

lemma stages_append:
  "appends (halted (feVerdict e)) (landing_tried H prepared e) (loop_stages H prepared blockers waived e)"
proof -
  let ?v = "feVerdict e"
  have "appends (\<lambda>e l. halted ?v e (l @ [])) (\<lambda>b l. landing_tried H prepared e b (l @ []))
      (loop_stages H prepared blockers waived e)"
    unfolding loop_stages_def
    apply (rule then_stage [OF setup_appends], simp)
    apply (clarsimp simp only: split_paired_all prod.case)
    apply (rule then_stage [OF engine_appends], simp)
    apply (rule then_stage [OF context_appends], simp)
    apply (rule then_stage [OF snapshot_appends], simp)
    apply (rule then_stage [OF suite_appends], simp)
    apply (rule then_stage [OF admit_appends], simp)
    apply (rule then_stage [OF squash_appends], simp)
    apply (clarsimp simp only: split_paired_all prod.case)
    apply (rule last_stage [OF land_appends], simp)
    apply (clarsimp simp only: landing_tried_def landing_execution_def append.simps append_Nil2)
    apply (fastforce simp: landing_history_def)
    done
  then show ?thesis by simp
qed

text \<open>A run of the loop stops before the landing or tries it.\<close>

lemma execute_fix_loop_end:
  assumes "execute_fix_loop H prepared blockers waived e s = (e', s')" "rails_ok (lpRails s)"
  obtains l where "lpLog s' = l @ lpLog s" "halted (feVerdict e) e' l \<or> landing_tried H prepared e e' l"
proof -
  obtain r s1 where r: "loop_stages H prepared blockers waived e s = (r, s1)" by fastforce
  from extendsD [OF stages_append assms(2) r] obtain l where l: "lpLog s1 = l @ lpLog s"
    "case r of Inl e' \<Rightarrow> halted (feVerdict e) e' l | Inr e' \<Rightarrow> landing_tried H prepared e e' l" .
  from assms(1) r have "s' = s1" "r = Inl e' \<or> r = Inr e'"
    by (auto simp: execute_fix_loop_def split: sum.splits)
  with l that [of l] show ?thesis by auto
qed

subsection \<open>Composed reports\<close>

lemma composed_base:
  assumes "compose_report run_id repo_id started ended d gates = Inr report"
  shows "repGates report = sort_by less_gate_report gates" "repDiff report = diff_report_of d" "repRunID report = run_id"
    "repFix report = None" "validate_report report run_id = None"
  using assms by (auto simp: compose_report_def Let_def split: option.splits sum.splits)

text \<open>A valid report stays valid when a fix with no problems and its verdict take the place of none.\<close>

lemma validate_with_fix:
  assumes "validate_report report run_id = None" "repFix report = None" "v \<in> {verdict_unsealed, verdict_blocked, verdict_rails, verdict_errored}"
    "validate_fix_report f (repDiff report) v (repGates report) (repRunID report) = None"
  shows "validate_report (report\<lparr>repVerdict := v, repFix := Some f\<rparr>) run_id = None"
  using assms by (auto simp: validate_report_def validate_report_header_def validate_report_summary_def Let_def)

end
