(* ===== verification/LandingDemo.thy ===== *)
theory LandingDemo
  imports LandingFacts JudgementFacts
begin

text \<open>
  A whole run of the loop on an obliging host: the run that the properties of the landing are applied to.
  The engine has nothing to fix; its barrier collects the gates on a snapshot over a repository with one
  changed file, the suite passes and the landing completes.
\<close>

lemma demo_id_base: "validate_requested_base demo_id = None" "demo_id \<noteq> []"
proof -
  have "trim_space demo_id = demo_id"
    by (rule trim_space_plain) (simp add: plain_ends_def is_space_def byte_def demo_id_def)
  moreover have "list_all (\<lambda>c. byte c < 128) demo_id" by (simp add: demo_id_def byte_def list_all_length)
  then have "valid_utf8 demo_id" by (rule ascii_valid)
  moreover have "runes demo_id = replicate 40 97"
  proof -
    have "runes (replicate n (CHR ''a'')) = replicate n 97" for n by (induction n) (simp_all add: byte_def)
    then show ?thesis by (simp add: demo_id_def)
  qed
  ultimately show "validate_requested_base demo_id = None"
    by (simp add: validate_requested_base_def) (simp add: has_prefix_def demo_id_def)
qed (simp add: demo_id_def)

definition landing_demo_diff :: diff where
  "landing_demo_diff = demo_diff\<lparr>diffBaseRef := demo_id\<rparr>"

lemma landing_demo_resolves: "fst (resolve_diff demo_repo ''/r'' demo_id demo_start) = Inr landing_demo_diff"
  using demo_paths
  by (simp add: resolve_diff_def canonical_diff_root_def resolve_diff_base_ref_def demo_id_base demo_clean demo_head_commit
      demo_merge_base demo_ranges demo_acts paths_limit_def with_prefix_def fresh_cache_def demo_diff_def
      landing_demo_diff_def del: path_ranges.simps)

definition landing_demo_host :: "(unit, unit) fix_host" where
  "landing_demo_host = \<lparr>fhRepo = demo_repo, fhEngines = sample_engines, fhSupply = id,
     fhRawSink = (\<lambda>_ _ w. (None, w)), fhCollect = (\<lambda>requests w. (map (\<lambda>_. sample_gate_report) requests, w)),
     fhSuite = (\<lambda>_ _ _ w. ((False, sample_suite), w)), fhHasAgent = True, fhAgentRun = (\<lambda>_ _ w. ((None, None), w)),
     fhIdentity = (\<lambda>w. (Inr ''f'', w)), fhSnapshotOriginal = (\<lambda>_ w. (Inr \<lparr>snapshotFiles = []\<rparr>, w)),
     fhCreateWorkspace = (\<lambda>_ w. (Inr True, w)), fhWorkspaceRoot = ''/r'', fhPackages = calm_host, fhJudge = calm_judge,
     fhValidationCause = (\<lambda>w. (None, w)), fhRecoveryEnded = (\<lambda>w. (False, w)), fhVerifyProof = (\<lambda>_ w. (None, w)),
     fhSnapshotAttempt = (\<lambda>_ w. (Inr \<lparr>snapshotFiles = []\<rparr>, w)), fhSnapshotValidated = (\<lambda>w. ((False, Some 0), w)),
     fhTreeRoot = (\<lambda>_. ''/s''), fhTreeVerify = (\<lambda>_ w. (False, w)), fhTreeClose = (\<lambda>_ w. (False, w)),
     fhSquash = (\<lambda>_ w. (Inr demo_id, w)), fhLand = (\<lambda>_ w. ((landing_complete, None), w)),
     fhFinalCause = (\<lambda>w. (None, w)), fhCause = (\<lambda>w. (None, w)), fhPorts = demo\<rparr>"

definition landing_demo_prepared :: prepared_run where
  "landing_demo_prepared = \<lparr>prRequests = [\<lparr>reqGate = no_gate, reqBinding = no_binding, reqPosition = 0, reqRoot = ''/r'',
       reqHasSink = False, reqChangedLines = None\<rparr>], prRoot = ''/r'', prDiff = demo_diff, prRunID = ''run'', prRepoID = demo_id\<rparr>"

definition landing_demo_start :: fix_execution where
  "landing_demo_start = \<lparr>feBaseline = sample_suite, feFinal = None, feGates = [sample_gate_report], feOutcome = None,
     feIntegrity = [], feLanding = \<lparr>lrStatus = landing_blocked, lrCommit = [], lrPreservedBranch = [], lrError = []\<rparr>,
     feBranch = ''f'', feUsage = None, feVerdict = verdict_errored, feFailure = None, feCleanup = None\<rparr>"

definition landing_demo_state :: "unit loop_state" where
  "landing_demo_state = \<lparr>lpWorld = \<lparr>fwWorld = (), fwUsage = None, fwBarrier = []\<rparr>, lpRails = demo_rails 0, lpLog = []\<rparr>"

abbreviation landing_demo_ports :: "unit fix_world ports" where
  "landing_demo_ports \<equiv> fix_ports landing_demo_host landing_demo_prepared \<lparr>snapshotFiles = []\<rparr> [] []"

abbreviation landing_demo_world :: "gate_report list \<Rightarrow> unit fix_world" where
  "landing_demo_world reports \<equiv> \<lparr>fwWorld = (), fwUsage = None, fwBarrier = reports\<rparr>"

lemma landing_demo_gates:
  "collect_validation_gates landing_demo_host landing_demo_prepared ''/r'' root False
     (prRequests landing_demo_prepared) () = (Inr [sample_gate_report], ())"
proof -
  have "with_cache (resolve_diff demo_repo ''/r'' demo_id) () = (Inr landing_demo_diff, ())"
    using landing_demo_resolves by (simp add: with_cache_def demo_start_def [symmetric] case_prod_beta prod_eq_iff)
  moreover have "prRequests landing_demo_prepared = [r] \<Longrightarrow> mfScope (gtManifest (reqGate r)) \<noteq> diff_scope" for r
    by (auto simp: landing_demo_prepared_def no_gate_def no_manifest_def diff_scope_def)
  ultimately show ?thesis
    by (simp add: collect_validation_gates_def collect_gates_def proceed_def relabel_by_def asking_def accept_def
        landing_demo_host_def landing_demo_prepared_def demo_diff_def)
qed

lemma landing_demo_barrier:
  "fix_barrier landing_demo_host landing_demo_prepared (landing_demo_world reports)
     = (demo_passed, landing_demo_world [sample_gate_report])"
proof -
  have host: "fhSnapshotValidated landing_demo_host () = ((False, Some 0), ())" "fhWorkspaceRoot landing_demo_host = ''/r''"
    "fhTreeVerify landing_demo_host 0 () = (False, ())" "fhTreeClose landing_demo_host 0 () = (False, ())"
    by (simp_all add: landing_demo_host_def)
  have "\<not> gates_errored [sample_gate_report]" "blocking_findings [sample_gate_report] = []"
    by (simp_all add: gates_errored_def errored_gate_names_def blocking_findings_def sample_gate_report_def group_empty
        gate_errored_def gate_passed_def)
  then show ?thesis
    by (simp add: fix_barrier_def host landing_demo_gates reports_of_def demo_passed_def)
qed

lemma landing_demo_calls:
  "pClock landing_demo_ports w = (0, w)" "pCtx landing_demo_ports w = (None, w)"
  "pWritePlan landing_demo_ports p w = (None, w)"
  "pBarrier landing_demo_ports (landing_demo_world reports) = (demo_passed, landing_demo_world [sample_gate_report])"
  by (simp_all only: fix_ports_calls landing_demo_barrier) (simp_all add: landing_demo_host_def demo_def lifted_def)

definition landing_demo_engine :: "core \<Rightarrow> gate_report list \<Rightarrow> unit fix_world engine" where
  "landing_demo_engine c reports =
     \<lparr>eCore = c, eRails = demo_rails 0, eCtx = None, eWorld = landing_demo_world reports\<rparr>"

lemma landing_demo_steps:
  "run_state (stop_for_context landing_demo_ports p) (landing_demo_engine c reports) = (None, landing_demo_engine c reports)"
  "run_state (stop_for_rail landing_demo_ports p) (landing_demo_engine c reports) = (None, landing_demo_engine c reports)"
  "run_state (ctx_done landing_demo_ports) (landing_demo_engine c reports) = (None, landing_demo_engine c reports)"
  "run_state (with_rails landing_demo_ports admit_landing) (landing_demo_engine c reports) = (None, landing_demo_engine c reports)"
  "run_state (with_rails landing_demo_ports (execution_context True)) (landing_demo_engine c reports)
     = (Inr 10, landing_demo_engine c reports)"
  "run_state (persist landing_demo_ports) (landing_demo_engine c reports)
     = (None, landing_demo_engine (after_persist c None) reports)"
  "run_state (modify_core f) (landing_demo_engine c reports) = ((), landing_demo_engine (f c) reports)"
  "run_state get_persisted (landing_demo_engine c reports) = (ePersisted c, landing_demo_engine c reports)"
  "run_state (gets g) s = (g s, s)" "eCore (landing_demo_engine c reports) = c"
  "run_state (call (pBarrier landing_demo_ports) EvBarrier) (landing_demo_engine c reports)
     = (demo_passed, landing_demo_engine (record_event (EvBarrier demo_passed) c) [sample_gate_report])"
  by (simp_all add: stop_for_context_def stop_for_rail_def ctx_done_def with_rails_def persist_def modify_core_def
      get_persisted_def gets_def call_def landing_demo_engine_def landing_demo_calls after_persist_def Let_def
      published_def del: fix_ports_calls)

lemma landing_demo_outcome:
  "run_state (engine_outcome landing_demo_ports kind p fs f) (landing_demo_engine c reports) =
     (\<lparr>outKind = kind, outPlan = p, outFindings = fs, outIterations = 0, outFailure = bounded_failure f\<rparr>,
      landing_demo_engine c reports)"
proof -
  have "run_state (with_rails landing_demo_ports snapshot) (landing_demo_engine c reports)
      = (fst (snapshot 0 (demo_rails 0)), landing_demo_engine c reports)"
    by (simp add: with_rails_def landing_demo_engine_def landing_demo_calls case_prod_beta)
  then show ?thesis by (simp add: engine_outcome_def)
qed

lemma no_findings_plan: obtains p where "new_plan [] = Inr p" "planBatches p = []"
  using new_plan_total [of "[]"] new_plan_empty [of "[]"] by (auto simp: canonical_input_def)

lemma landing_demo_revisions: "valid_revision demo_id"
  using sample_revisions by (simp add: demo_id_def)

text \<open>The engine: a plan without batches, a clean barrier, ready.\<close>

lemma landing_demo_execute:
  obtains out s where
    "execute landing_demo_ports ((engine_request landing_demo_prepared [])\<lparr>reqRails := Some (demo_rails 0)\<rparr>) True
       (landing_demo_world []) = (out, Some s)"
    "outKind out = OutcomeReady" "outFindings out = []" "planBatches (outPlan out) = []" "eRails s = demo_rails 0"
    "eWorld s = landing_demo_world [sample_gate_report]"
proof -
  let ?rq = "(engine_request landing_demo_prepared [])\<lparr>reqRails := Some (demo_rails 0)\<rparr>"
  obtain p where p: "new_plan [] = Inr p" "planBatches p = []" by (rule no_findings_plan)
  have rq: "reqInitialFindings ?rq = []" "reqRails ?rq = Some (demo_rails 0)" by (simp_all add: engine_request_def)
  have input: "validate_engine_input ?rq landing_demo_ports = []"
    using landing_demo_revisions
    by (simp add: validate_engine_input_def engine_request_def landing_demo_prepared_def demo_diff_def fix_ports_def Let_def)
  have start: "run_state (start_execute landing_demo_ports ?rq) (landing_demo_engine initial_core [])
      = (Inr [], landing_demo_engine (after_persist (initial_core\<lparr>ePlan := p\<rparr>) None) [])"
    by (simp add: start_execute_def landing_demo_steps rq p no_blockers)
  let ?c = "after_persist (initial_core\<lparr>ePlan := p\<rparr>) None"
  let ?d = "after_persist (record_event (EvBarrier demo_passed) ?c) None"
  have barrier: "run_state (evaluate_barrier landing_demo_ports demo_passed [] False)
      (landing_demo_engine (record_event (EvBarrier demo_passed) ?c) [sample_gate_report])
      = (BarrierStop \<lparr>outKind = OutcomeReady, outPlan = p, outFindings = [], outIterations = 0,
           outFailure = bounded_failure []\<rparr>, landing_demo_engine ?d [sample_gate_report])"
    by (simp add: evaluate_barrier_def landing_demo_steps landing_demo_outcome classify_barrier_def demo_passed_def
        no_blockers validate_barrier_result_def published_def)
  have "run_state (run_wave landing_demo_ports ?rq 0 []) (landing_demo_engine ?c [])
      = (Inl \<lparr>outKind = OutcomeReady, outPlan = p, outFindings = [], outIterations = 0,
           outFailure = bounded_failure []\<rparr>, landing_demo_engine ?d [sample_gate_report])"
    using p(2) by (simp add: run_wave_def landing_demo_steps barrier)
  then have "execute landing_demo_ports ?rq True (landing_demo_world []) =
      (\<lparr>outKind = OutcomeReady, outPlan = p, outFindings = [], outIterations = 0, outFailure = bounded_failure []\<rparr>,
       Some (landing_demo_engine ?d [sample_gate_report]))"
    using start by (simp add: execute_def input Let_def rq landing_demo_engine_def [symmetric] run_waves.simps)
  from that [OF this] p(2) show ?thesis by (simp add: landing_demo_engine_def)
qed

subsection \<open>The loop\<close>

abbreviation landing_demo_at :: "gate_report list \<Rightarrow> fix_event list \<Rightarrow> unit loop_state" where
  "landing_demo_at reports l \<equiv> \<lparr>lpWorld = landing_demo_world reports, lpRails = demo_rails 0, lpLog = l\<rparr>"

lemma on_landing_demo:
  "f () = (a, ()) \<Longrightarrow> on_world f (landing_demo_at reports l) = (Inr a, landing_demo_at reports l)"
  "f () = (a, ()) \<Longrightarrow> recorded f ev (landing_demo_at reports l) = (Inr a, landing_demo_at reports (ev a # l))"
  "m 0 (demo_rails 0) = (b, demo_rails 0) \<Longrightarrow>
     on_rails landing_demo_host m (landing_demo_at reports l) = (Inr b, landing_demo_at reports l)"
  by (simp_all add: on_world_def recorded_def on_rails_def logged_def proceed_def asking_def accept_def lifted_def
      landing_demo_host_def demo_def)

lemmas on_landing_demo_no = on_landing_demo(1) [where a = False] on_landing_demo(2) [where a = False]

lemma landing_demo_answers:
  "fhHasAgent landing_demo_host" "fhIdentity landing_demo_host () = (Inr ''f'', ())"
  "fhSnapshotOriginal landing_demo_host h () = (Inr \<lparr>snapshotFiles = []\<rparr>, ())"
  "fhCreateWorkspace landing_demo_host b () = (Inr True, ())" "fhSnapshotValidated landing_demo_host () = ((False, Some 0), ())"
  "fhFinalCause landing_demo_host () = (None, ())" "fhCause landing_demo_host () = (None, ())"
  "fhSuite landing_demo_host root ps full () = ((False, sample_suite), ())"
  "fhTreeVerify landing_demo_host t () = (False, ())" "fhTreeClose landing_demo_host t () = (False, ())"
  "fhSquash landing_demo_host t () = (Inr demo_id, ())" "fhLand landing_demo_host c () = ((landing_complete, None), ())"
  by (simp_all add: landing_demo_host_def)

lemma landing_demo_observe:
  "observe_final landing_demo_host None (landing_demo_at reports l) = (Inr (), landing_demo_at reports l)"
  by (simp add: observe_final_def proceed_def asking_def on_landing_demo landing_demo_answers observe_execution_context_def)

lemma sample_passed: "srStatus sample_suite = suite_passed"
  by (simp add: sample_suite_def)

lemma landing_demo_final:
  "final_context landing_demo_host landing_demo_prepared e (landing_demo_at reports l) = (Inr (), landing_demo_at reports l)"
  "final_snapshot landing_demo_host landing_demo_prepared e (landing_demo_at reports l)
     = (Inr 0, landing_demo_at reports (FxSnapshot (Some 0) # l))"
  "final_suite landing_demo_host landing_demo_prepared 0 e (landing_demo_at reports l)
     = (Inr (e\<lparr>feFinal := Some sample_suite\<rparr>),
        landing_demo_at reports (FxVerify 0 False # FxSuite 0 suite_passed # l))"
  "admit_final landing_demo_host landing_demo_prepared 0 e (landing_demo_at reports l)
     = (Inr (), landing_demo_at reports (FxAdmit True # l))"
  "squash_final landing_demo_host landing_demo_prepared 0 e (landing_demo_at reports l)
     = (Inr (with_commit demo_id e, demo_id), landing_demo_at reports (FxSquash 0 (Some demo_id) # l))"
  "land_final landing_demo_host landing_demo_prepared demo_id e (landing_demo_at reports l)
     = (Inr (land_answer landing_demo_prepared landing_complete None e),
        landing_demo_at reports (FxLand demo_id landing_complete True # l))"
  by (simp_all add: final_context_def final_snapshot_def final_suite_def admit_final_def squash_final_def land_final_def
      proceed_def on_landing_demo on_landing_demo_no landing_demo_answers landing_demo_observe accept_def Let_def
      logged_def asking_def sample_passed with_commit_def)

lemma landing_demo_run:
  obtains e' s' out where
    "execute_fix_loop landing_demo_host landing_demo_prepared [] [] landing_demo_start landing_demo_state = (e', s')"
    "lpLog s' = landing_history 0 demo_id landing_complete True" "feVerdict e' = verdict_unsealed"
    "feGates e' = [sample_gate_report]" "feOutcome e' = Some out" "planBatches (outPlan out) = []"
    "feBranch e' = ''f''" "feUsage e' = None" "feBaseline e' = sample_suite" "feFinal e' = Some sample_suite"
    "feIntegrity e' = []"
proof -
  obtain out s where x: "execute landing_demo_ports ((engine_request landing_demo_prepared [])\<lparr>reqRails := Some (demo_rails 0)\<rparr>) True
       (landing_demo_world []) = (out, Some s)"
    "outKind out = OutcomeReady" "outFindings out = []" "planBatches (outPlan out) = []" "eRails s = demo_rails 0"
    "eWorld s = landing_demo_world [sample_gate_report]"
    by (rule landing_demo_execute)
  let ?e = "landing_execution (landing_demo_world [sample_gate_report]) out sample_suite ''f'' demo_id landing_demo_start"
  have begun: "loop_setup landing_demo_host landing_demo_prepared landing_demo_start landing_demo_state
      = (Inr (set_up landing_demo_start ''f'', \<lparr>snapshotFiles = []\<rparr>), landing_demo_at [] [])"
    by (simp add: loop_setup_def landing_demo_state_def landing_demo_answers proceed_def on_landing_demo accept_def set_up_def)
  have engine: "loop_engine landing_demo_host landing_demo_prepared [] [] (set_up landing_demo_start ''f'', \<lparr>snapshotFiles = []\<rparr>)
      (landing_demo_at [] []) = (Inr (after_engine (landing_demo_world [sample_gate_report]) out (set_up landing_demo_start ''f'')),
        landing_demo_at [sample_gate_report] [FxEngine OutcomeReady])"
    using x by (simp add: loop_engine_def run_engine_def proceed_def asking_def accept_def)
  have "execute_fix_loop landing_demo_host landing_demo_prepared [] [] landing_demo_start landing_demo_state =
      (land_answer landing_demo_prepared landing_complete None ?e,
       landing_demo_at [sample_gate_report] (landing_history 0 demo_id landing_complete True))"
    by (simp add: execute_fix_loop_def loop_stages_def proceed_def begun engine landing_demo_final landing_history_def
        landing_execution_def)
  from that [OF this] x show ?thesis
    by (simp add: land_answer_def landing_execution_def with_commit_def after_engine_def set_up_def landing_demo_start_def)
qed

end
