(* ===== verification/LandingProps.thy ===== *)
theory LandingProps
  imports LandingDemo
begin

text \<open>
  Properties of \<open>executeFixLoop\<close> and of the report composed from its result: what a landing requires, and
  that a landed run is reported.
\<close>

lemma land_unsealed:
  "feVerdict (land_answer prepared status err e) = verdict_unsealed \<longleftrightarrow> status = landing_complete \<and> err = None"
  by (auto simp: land_answer_def Let_def preserving_def failed_landing_def split: option.splits)

lemma land_keeps:
  "feOutcome (land_answer prepared status err e) = feOutcome e" "feFinal (land_answer prepared status err e) = feFinal e"
  "feGates (land_answer prepared status err e) = feGates e"
  "feIntegrity (land_answer prepared status err e) = feIntegrity e"
  "feBaseline (land_answer prepared status err e) = feBaseline e"
  "lrCommit (feLanding (land_answer prepared status err e)) = lrCommit (feLanding e)"
  "lrStatus (feLanding (land_answer prepared status err e)) = status"
  by (simp_all add: land_answer_def Let_def preserving_def failed_landing_def split: option.split)

lemma landing_fields:
  "feOutcome (landing_execution w out final branch commit e) = Some out"
  "feFinal (landing_execution w out final branch commit e) = Some final"
  "feBaseline (landing_execution w out final branch commit e) = feBaseline e"
  "feGates (landing_execution w out final branch commit e) = (if fwBarrier w \<noteq> [] then fwBarrier w else feGates e)"
  "feIntegrity (landing_execution w out final branch commit e) =
     feIntegrity e @ filter (\<lambda>f. Gate f = ''integrity'') (outFindings out)"
  "feLanding (landing_execution w out final branch commit e) = (feLanding e)\<lparr>lrCommit := commit\<rparr>"
  by (simp_all add: landing_execution_def with_commit_def after_engine_def set_up_def)

text \<open>
  C1: A fixing run lands nothing unless the engine was ready with every batch done, the whole suite passed
  on a snapshot that was still intact afterwards, the rails admitted the landing, and the commit landed was
  made from that snapshot; these steps occur once each, in this order, and nothing follows the landing.
  The verdict is unsealed exactly when the landing completed without an error.
\<close>

theorem landing_is_earned:
  assumes "execute_fix_loop H prepared blockers waived e s = (e', s')" "rails_ok (lpRails s)" "lpLog s = []"
    "FxLand commit status ok \<in> set (lpLog s')"
  shows "(\<exists>t. lpLog s' = landing_history t commit status ok \<and> (\<exists>w. fst (fhSquash H t w) = Inr commit))
    \<and> (\<exists>out. feOutcome e' = Some out \<and> outKind out = OutcomeReady \<and> all_done (outPlan out))
    \<and> (\<exists>final. feFinal e' = Some final \<and> srStatus final = suite_passed)
    \<and> lrStatus (feLanding e') = status \<and> lrCommit (feLanding e') = commit
    \<and> (feVerdict e' = verdict_unsealed \<longleftrightarrow> status = landing_complete \<and> ok)"
proof -
  obtain l where l: "lpLog s' = l @ lpLog s" "halted (feVerdict e) e' l \<or> landing_tried H prepared e e' l"
    by (rule execute_fix_loop_end [OF assms(1,2)])
  with assms(3,4) have "landing_tried H prepared e e' (lpLog s')" by (auto simp: halted_def)
  then obtain t c st err w out final branch where h: "lpLog s' = landing_history t c st (err = None)"
    "ready_result H prepared w out" "srStatus final = suite_passed" "\<exists>w. fst (fhSquash H t w) = Inr c"
    "e' = land_answer prepared st err (landing_execution w out final branch c e)"
    unfolding landing_tried_def by blast
  from h(1) assms(4) have same: "c = commit" "st = status" "ok = (err = None)" by (auto simp: landing_history_def)
  have "\<exists>t. lpLog s' = landing_history t commit status ok \<and> (\<exists>w. fst (fhSquash H t w) = Inr commit)"
    using h(1,4) same by blast
  then show ?thesis
    using h(2,3) by (simp add: h(5) same land_unsealed land_keeps landing_fields ready_result_def)
qed

lemma landing_is_earned_witness:
  "\<exists>e' s'. execute_fix_loop landing_demo_host landing_demo_prepared [] [] landing_demo_start landing_demo_state = (e', s')
     \<and> FxLand demo_id landing_complete True \<in> set (lpLog s') \<and> feVerdict e' = verdict_unsealed"
proof -
  obtain e' s' out where run:
    "execute_fix_loop landing_demo_host landing_demo_prepared [] [] landing_demo_start landing_demo_state = (e', s')"
    "lpLog s' = landing_history 0 demo_id landing_complete True" by (rule landing_demo_run)
  have ok: "rails_ok (lpRails landing_demo_state)" "lpLog landing_demo_state = []"
    using demo_request_rails(2) by (simp_all add: landing_demo_state_def)
  have "FxLand demo_id landing_complete True \<in> set (lpLog s')" by (simp add: run(2) landing_history_def)
  with landing_is_earned [OF run(1) ok this] run(1) show ?thesis by blast
qed

subsection \<open>The report of a landed run\<close>

text \<open>The execution as \<open>runFix\<close> hands it to the loop.\<close>

definition fresh_execution :: "fix_execution \<Rightarrow> bool" where
  "fresh_execution e \<longleftrightarrow> srStatus (feBaseline e) = suite_passed \<and> feFinal e = None \<and> feIntegrity e = []
     \<and> feVerdict e = verdict_errored
     \<and> feLanding e = \<lparr>lrStatus = landing_blocked, lrCommit = [], lrPreservedBranch = [], lrError = []\<rparr>"

lemma no_blockers_sorted:
  assumes "list_all sound_gate gates" "blocking_findings gates = []"
  shows "blocking_findings (sort_by less_gate_report gates) = []"
proof -
  let ?s = "sort_by less_gate_report gates"
  have "\<not> some_blocking ?s" using no_blocking_findings [OF assms] by (simp add: some_blocking_def)
  then have "\<forall>g \<in> set ?s. filter (blocks g) (grFindings g) = []" by (auto simp: some_blocking_def filter_empty_conv)
  then have "concat (map (\<lambda>g. filter (blocks g) (grFindings g)) ?s) = []" by simp
  then show ?thesis unfolding blocking_findings_def by (simp only: group_empty sum.case)
qed

lemma errored_sorted: "gates_errored (sort_by less_gate_report gates) \<longleftrightarrow> gates_errored gates"
  by (simp add: gates_errored_def errored_gate_names_def filter_empty_conv)

lemma landed_evidence:
  assumes "landing_tried H prepared e e' l" "feVerdict e' = verdict_unsealed" "fresh_execution e"
    "collecting H" "prRequests prepared \<noteq> []"
  obtains t w commit final where "fst (fhSquash H t w) = Inr commit"
    "feLanding e' = \<lparr>lrStatus = landing_complete, lrCommit = commit, lrPreservedBranch = [], lrError = []\<rparr>"
    "\<not> gates_errored (feGates e')" "blocking_findings (feGates e') = []" "feIntegrity e' = []"
    "srStatus (feBaseline e') = suite_passed" "feFinal e' = Some final" "srStatus final = suite_passed" "feFailure e' = None"
proof -
  from assms(1) obtain t c st err w out final branch where h: "ready_result H prepared w out"
    "srStatus final = suite_passed" "\<exists>w. fst (fhSquash H t w) = Inr c"
    "e' = land_answer prepared st err (landing_execution w out final branch c e)"
    unfolding landing_tried_def by blast
  from h(3) obtain w0 where w0: "fst (fhSquash H t w0) = Inr c" by blast
  from assms(2) have complete: "st = landing_complete" "err = None" by (simp_all add: h(4) land_unsealed)
  have clean: "clean_reports H prepared [] w" "outFindings out = []" using h(1) by (simp_all add: ready_result_def)
  show ?thesis
  proof (rule that [OF w0])
    show "feLanding e' = \<lparr>lrStatus = landing_complete, lrCommit = c, lrPreservedBranch = [], lrError = []\<rparr>"
      "feFailure e' = None"
      using assms(3) by (simp_all add: h(4) complete land_answer_def landing_fields fresh_execution_def)
  qed (use clean assms(3-5) h(2) in \<open>simp_all add: h(4) land_keeps landing_fields clean_reports_def fresh_execution_def\<close>)
qed

text \<open>
  C13: A landed run is reported: when the loop ends unsealed on a repository whose landing commits are object
  IDs, the report composed from its result is the base report with the unsealed verdict and the fix, whose
  evidence the validation of the ledger accepts; only the parts of the fix that do not depend on the landing
  (names, usage, rails, batches) are left to check.
\<close>

theorem landed_run_is_reported:
  assumes "execute_fix_loop H prepared blockers waived e s = (e', s')" "rails_ok (lpRails s)"
    "fresh_execution e" "feVerdict e' = verdict_unsealed" "collecting H" "prRequests prepared \<noteq> []"
    "\<forall>t w c. fst (fhSquash H t w) = Inr c \<longrightarrow> valid_object_id_string c \<and> length c = length (diffHead (prDiff prepared))"
    "compose_report (prRunID prepared) (prRepoID prepared) started ended (prDiff prepared) (feGates e') = Inr report"
    "fix_parts (fix_report_of (prDiff prepared) e' r agent) (diff_report_of (prDiff prepared)) verdict_unsealed = None"
  shows "compose_fix_report prepared started ended e' r agent =
    Inr (report\<lparr>repVerdict := verdict_unsealed, repFix := Some (fix_report_of (prDiff prepared) e' r agent)\<rparr>)"
proof -
  let ?f = "fix_report_of (prDiff prepared) e' r agent"
  note b = composed_base [OF assms(8)]
  obtain l where l: "halted (feVerdict e) e' l \<or> landing_tried H prepared e e' l"
    using execute_fix_loop_end [OF assms(1,2)] by blast
  have "feVerdict e \<noteq> verdict_unsealed" using assms(3) by (simp add: fresh_execution_def)
  with l assms(4) have "landing_tried H prepared e e' l" by (auto simp: halted_def)
  from landed_evidence [OF this assms(4,3,5,6)] obtain t w commit final where
    sq: "fst (fhSquash H t w) = Inr commit" and
    x: "feLanding e' = \<lparr>lrStatus = landing_complete, lrCommit = commit, lrPreservedBranch = [], lrError = []\<rparr>"
    "\<not> gates_errored (feGates e')" "blocking_findings (feGates e') = []" "feIntegrity e' = []"
    "srStatus (feBaseline e') = suite_passed" "feFinal e' = Some final" "srStatus final = suite_passed" "feFailure e' = None" .
  from sq assms(7) have commit: "valid_object_id_string commit" "length commit = length (diffHead (prDiff prepared))"
    by blast+
  have fields: "frLanding ?f = feLanding e'" "frBaseline ?f = feBaseline e'" "frFinal ?f = feFinal e'" "frIntegrity ?f = Some []"
    using x(4,8) by (simp_all add: fix_report_of_def)
  have sound: "list_all sound_gate (feGates e')"
  proof -
    have "gates_problem 0 None (repGates report) = None" using b(5) by (simp add: validate_report_def)
    from gates_problem_sound [OF this] show ?thesis by (simp add: b(1) list_all_iff)
  qed
  have "commit \<noteq> []" using commit(1) by (auto simp: valid_object_id_string_def)
  then have "landing_problem (frLanding ?f) (repDiff report) verdict_unsealed (prRunID prepared) = None"
    using commit by (simp add: fields x landing_problem_def contains_any_def b(2) diff_report_of_def
        landing_complete_def landing_blocked_def landing_not_needed_def)
  moreover have "\<not> gates_errored (repGates report)" "blocking_findings (repGates report) = []"
    using x(2,3) no_blockers_sorted [OF sound] by (simp_all add: b(1) errored_sorted)
  ultimately have "validate_fix_report ?f (repDiff report) verdict_unsealed (repGates report) (repRunID report) = None"
    using assms(9) by (simp add: validate_fix_report_def Let_def fields x b(2,3) baseline_problem_def final_problem_def)
  from validate_with_fix [OF b(5,4) _ this] show ?thesis
    by (simp add: compose_fix_report_def assms(8) assms(4) Let_def)
qed

definition landing_demo_rails :: rail_snapshot where
  "landing_demo_rails = \<lparr>snapMaxIterations = 5, snapIterations = 0, snapMaxWallClock = 10, snapStartedAt = 0,
     snapDeadline = 10, snapElapsed = 0\<rparr>"

lemma landing_demo_base:
  obtains report where "compose_report ''run'' demo_id 5 7 demo_diff [sample_gate_report] = Inr report"
proof -
  have gate: "placed sample_gate_report" "all_findings [sample_gate_report] = []"
    by (simp_all add: placed_def all_findings_def sample_gate_report_def max_int_def)
  have "collision_free (all_findings [sample_gate_report])" by (simp add: gate collision_free_def)
  from composed_accepted [OF demo_diff_valid _ _ _ _ this, of demo_id 5 "''run''" 7] gate(1) sample_gate_valid demo_id_strings
  show ?thesis using that by auto
qed

lemma landed_run_is_reported_witness:
  "\<exists>e' s' report. execute_fix_loop landing_demo_host landing_demo_prepared [] [] landing_demo_start landing_demo_state = (e', s')
     \<and> compose_fix_report landing_demo_prepared 5 7 e' landing_demo_rails ''a'' = Inr report
     \<and> repVerdict report = verdict_unsealed"
proof -
  obtain e' s' out where run:
    "execute_fix_loop landing_demo_host landing_demo_prepared [] [] landing_demo_start landing_demo_state = (e', s')"
    "feVerdict e' = verdict_unsealed" "feGates e' = [sample_gate_report]" "feOutcome e' = Some out"
    "planBatches (outPlan out) = []" "feBranch e' = ''f''" "feUsage e' = None" "feBaseline e' = sample_suite"
    "feFinal e' = Some sample_suite" "feIntegrity e' = []" by (rule landing_demo_run)
  obtain report where r: "compose_report ''run'' demo_id 5 7 demo_diff [sample_gate_report] = Inr report"
    by (rule landing_demo_base)
  have ok: "rails_ok (lpRails landing_demo_state)"
    using demo_request_rails(2) by (simp add: landing_demo_state_def)
  have fresh: "fresh_execution landing_demo_start" "collecting landing_demo_host" "prRequests landing_demo_prepared \<noteq> []"
    by (simp_all add: fresh_execution_def landing_demo_start_def sample_passed collecting_def landing_demo_host_def
        landing_demo_prepared_def)
  have commits: "\<forall>t w c. fst (fhSquash landing_demo_host t w) = Inr c \<longrightarrow>
      valid_object_id_string c \<and> length c = length (diffHead (prDiff landing_demo_prepared))"
    using demo_id_strings by (simp add: landing_demo_host_def landing_demo_prepared_def demo_diff_def)
  have trims: "trim_space ''f'' = ''f''" "trim_space ''a'' = ''a''"
    by (rule trim_space_plain; simp add: plain_ends_def is_space_def byte_def)+
  have parts: "fix_parts (fix_report_of (prDiff landing_demo_prepared) e' landing_demo_rails ''a'')
      (diff_report_of (prDiff landing_demo_prepared)) verdict_unsealed = None"
    using demo_id_strings trims
    by (simp add: fix_parts_def Let_def fix_report_of_def run landing_demo_prepared_def diff_report_of_def demo_diff_def
        contains_any_def line_breaks_def nul_byte_def cr_def lf_def usage_problem_def validate_suite_report_def
        sample_suite_def rails_report_of_def landing_demo_rails_def report_milliseconds_def validate_fix_batches_def
        regrouped_iff group_empty)
  have "compose_report (prRunID landing_demo_prepared) (prRepoID landing_demo_prepared) 5 7 (prDiff landing_demo_prepared)
      (feGates e') = Inr report"
    using r by (simp add: run landing_demo_prepared_def)
  from landed_run_is_reported [OF run(1) ok fresh(1) run(2) fresh(2,3) commits this parts] run(1) show ?thesis by auto
qed

end
