(* ===== verification/FixCommand.thy ===== *)
theory FixCommand
  imports FixRuns
begin

text \<open>
  \<open>internal/run/fix.go\<close>, third part: \<open>runFix\<close>, from the start of the ledger to the report and the exit code.
  The ledger, the store of waivers, the rendering and the output are functions of the host. \<open>rnLog\<close> is a
  history variable, latest first. A function deferred by the code runs after the part that can end early.
\<close>

subsection \<open>State\<close>

datatype run_event =
    RnStart bool
  | RnLoop "fix_event list" "bool option"
  | RnAudit report bool
  | RnCleanup bool bool
  | RnWrite report bool
  | RnOutput bool
  | RnClose bool

record 'w run_state =
  rnWorld :: 'w
  rnRails :: rails
  rnLog :: "run_event list"

text \<open>
  What \<open>runFix\<close> returns: the report, if there is one, the code of an \<open>ExitError\<close>, and the errors joined. An
  error is the text the code gives it, that of a refused report its label.
\<close>

record run_answer =
  raReport :: "report option"
  raExit :: "int option"
  raErrors :: "message list"

type_synonym ('w, 'a) running = "('w run_state, run_answer, 'a) action"

record ('w, 'snap) run_host =
  rhFix :: "('w, 'snap) fix_host"
  rhStart :: "'w \<Rightarrow> message option \<times> 'w"
  rhWaivers :: "'w \<Rightarrow> (message, gostring list) res \<times> 'w"
  rhBranch :: "'w \<Rightarrow> (message, gostring) res \<times> 'w"
  rhRender :: "report \<Rightarrow> 'w \<Rightarrow> (message, gostring) res \<times> 'w"
  rhAudit :: "report \<Rightarrow> 'w \<Rightarrow> message option \<times> 'w"
  rhCleanup :: "bool \<Rightarrow> 'w \<Rightarrow> message option \<times> 'w"
  rhWrite :: "report \<Rightarrow> 'w \<Rightarrow> message option \<times> 'w"
  rhOutput :: "gostring \<Rightarrow> 'w \<Rightarrow> message option \<times> 'w"
  rhClose :: "'w \<Rightarrow> message option \<times> 'w"

definition in_world :: "('w \<Rightarrow> 'a \<times> 'w) \<Rightarrow> ('w, 'a) running" where
  "in_world f = asking (\<lambda>s. case f (rnWorld s) of (a, w) \<Rightarrow> (a, s\<lparr>rnWorld := w\<rparr>))"

text \<open>A call that may fail, with its entry in the history.\<close>

definition attempted :: "('w \<Rightarrow> message option \<times> 'w) \<Rightarrow> (bool \<Rightarrow> run_event) \<Rightarrow> ('w, message option) running" where
  "attempted f ev = asking (\<lambda>s. case f (rnWorld s) of
     (e, w) \<Rightarrow> (e, s\<lparr>rnWorld := w, rnLog := ev (e = None) # rnLog s\<rparr>))"

definition read_clock :: "('w, 'snap) run_host \<Rightarrow> ('w, int) running" where
  "read_clock R = in_world (pClock (fhPorts (rhFix R)))"

definition without_report :: "message \<Rightarrow> run_answer" where
  "without_report m = \<lparr>raReport = None, raExit = None, raErrors = [m]\<rparr>"

definition with_report :: "report \<Rightarrow> message \<Rightarrow> run_answer" where
  "with_report report m = \<lparr>raReport = Some report, raExit = None, raErrors = [m]\<rparr>"

definition joined :: "run_answer \<Rightarrow> message option \<Rightarrow> run_answer" where
  "joined a e = (case e of None \<Rightarrow> a | Some m \<Rightarrow> a\<lparr>raErrors := raErrors a @ [m]\<rparr>)"

text \<open>The error of the answer as the command resolves it.\<close>

definition answer_error :: "run_answer \<Rightarrow> command_error option" where
  "answer_error a =
     (case raExit a of Some code \<Rightarrow> Some (Coded (Some code)) | None \<Rightarrow> if raErrors a = [] then None else Some Plain)"

subsection \<open>Before the loop\<close>

definition initial_execution :: fix_execution where
  "initial_execution = \<lparr>feBaseline = \<lparr>srCommand = [], srPackages = [], srStatus = [], srDurationMS = 0, srDiagnostic = []\<rparr>,
     feFinal = None, feGates = [], feOutcome = None, feIntegrity = [],
     feLanding = \<lparr>lrStatus = landing_blocked, lrCommit = [], lrPreservedBranch = [], lrError = []\<rparr>,
     feBranch = [], feUsage = None, feVerdict = verdict_errored, feFailure = None, feCleanup = None\<rparr>"

definition baseline_result :: "bool \<Rightarrow> suite_result \<Rightarrow> suite_result" where
  "baseline_result failed s =
     (if failed \<and> srStatus s = []
      then s\<lparr>srStatus := suite_errored, srDiagnostic := ''behavioral suite infrastructure failed''\<rparr> else s)"

definition loop_in_run ::
  "('w, 'snap) run_host \<Rightarrow> prepared_run \<Rightarrow> finding list \<Rightarrow> gostring list \<Rightarrow> fix_execution \<Rightarrow> ('w, fix_execution) running" where
  "loop_in_run R prepared blockers waived e = asking (\<lambda>s.
     case execute_fix_loop (rhFix R) prepared blockers waived e
            \<lparr>lpWorld = \<lparr>fwWorld = rnWorld s, fwUsage = None, fwBarrier = []\<rparr>, lpRails = rnRails s, lpLog = []\<rparr> of
       (e', l) \<Rightarrow> (e', s\<lparr>rnWorld := fwWorld (lpWorld l), rnRails := lpRails l,
                          rnLog := RnLoop (lpLog l) (feCleanup e') # rnLog s\<rparr>))"

text \<open>The switch of \<open>runFix\<close> on what the baseline showed.\<close>

definition decide ::
  "('w, 'snap) run_host \<Rightarrow> prepared_run \<Rightarrow> gostring list \<Rightarrow> bool \<Rightarrow> fix_execution \<Rightarrow> ('w, fix_execution) running" where
  "decide R prepared waived failed e =
     (let blockers = blocking_findings (feGates e); status = srStatus (feBaseline e) in
      if feFailure e \<noteq> None then accept (e\<lparr>feVerdict := verdict_errored\<rparr>)
      else if gates_errored (feGates e) then accept (e\<lparr>feVerdict := verdict_errored\<rparr>)
      else if status = suite_missing \<or> status = suite_failed then accept (e\<lparr>feVerdict := verdict_unverified\<rparr>)
      else if status \<noteq> suite_passed \<or> failed then accept (e\<lparr>feVerdict := verdict_errored\<rparr>)
      else if blockers = []
      then accept (e\<lparr>feVerdict := verdict_unsealed, feLanding := (feLanding e)\<lparr>lrStatus := landing_not_needed\<rparr>\<rparr>)
      else loop_in_run R prepared blockers waived e)"

definition gather_baseline ::
  "('w, 'snap) run_host \<Rightarrow> prepared_run \<Rightarrow> ('w, bool \<times> fix_execution) running" where
  "gather_baseline R prepared =
     proceed (in_world (fhSuite (rhFix R) (prRoot prepared) [] True)) (\<lambda>(failed, suite).
     proceed (in_world (collect_gates (rhFix R) (prRequests prepared) (prRoot prepared) (prDiff prepared))) (\<lambda>gates.
     proceed (in_world (rhBranch R)) (\<lambda>branch.
     accept (failed,
       (let e = initial_execution\<lparr>feBaseline := baseline_result failed suite, feGates := reports_of gates,
                  feFailure := (case gates of Inl m \<Rightarrow> Some m | Inr _ \<Rightarrow> None)\<rparr>
        in case branch of
             Inr b \<Rightarrow> e\<lparr>feBranch := b\<rparr>
           | Inl m \<Rightarrow> if feFailure e = None then e\<lparr>feFailure := Some m\<rparr> else e)))))"

subsection \<open>Names from Git\<close>

text \<open>
  The functions the service uses for \<open>fhIdentity\<close> and \<open>rhBranch\<close> when it is given none; \<open>G\<close> runs Git in a
  hermetic environment or in one that keeps the global configuration, with at most 64 KiB of output.
\<close>

datatype git_env = Hermetic | HonourGlobal

type_synonym 'w git_runner = "git_env \<Rightarrow> gostring list \<Rightarrow> 'w \<Rightarrow> (message, gostring) res \<times> 'w"

definition git_value :: "'w git_runner \<Rightarrow> git_env \<Rightarrow> gostring list \<Rightarrow> message \<Rightarrow> ('w, message, gostring) action" where
  "git_value G env args label =
     proceed (asking (G env args)) (\<lambda>out. case out of Inl _ \<Rightarrow> reject label | Inr raw \<Rightarrow> accept (trim_space raw))"

definition resolve_feature_branch :: "'w git_runner \<Rightarrow> ('w, message, gostring) action" where
  "resolve_feature_branch G =
     proceed (git_value G Hermetic [''symbolic-ref'', ''--short'', ''HEAD''] ''resolve feature branch'') (\<lambda>branch.
     if branch = [] then reject ''resolve feature branch'' else accept branch)"

record git_identity =
  giName :: gostring
  giEmail :: gostring

definition resolve_fix_identity :: "'w git_runner \<Rightarrow> ('w, message, gostring \<times> git_identity) action" where
  "resolve_fix_identity G =
     proceed (git_value G Hermetic [''symbolic-ref'', ''--short'', ''HEAD''] ''resolve feature branch'') (\<lambda>branch.
     proceed (git_value G HonourGlobal [''config'', ''--get'', ''user.name''] ''resolve Git user.name'') (\<lambda>name.
     proceed (git_value G HonourGlobal [''config'', ''--get'', ''user.email''] ''resolve Git user.email'') (\<lambda>email.
     accept (branch, \<lparr>giName = name, giEmail = email\<rparr>))))"

subsection \<open>The report\<close>

definition compose_now ::
  "('w, 'snap) run_host \<Rightarrow> prepared_run \<Rightarrow> int \<Rightarrow> gostring \<Rightarrow> fix_execution \<Rightarrow> ('w, report) running" where
  "compose_now R prepared started agent e =
     proceed (read_clock R) (\<lambda>ended.
     case compose_report (prRunID prepared) (prRepoID prepared) started ended (prDiff prepared) (feGates e) of
       Inl p \<Rightarrow> reject (without_report (fst p))
     | Inr _ \<Rightarrow>
         proceed (read_clock R) (\<lambda>t.
         proceed (asking (\<lambda>s. case snapshot t (rnRails s) of (r, rails) \<Rightarrow> (r, s\<lparr>rnRails := rails\<rparr>))) (\<lambda>r.
         case compose_fix_report prepared started ended e r agent of
           Inl p \<Rightarrow> reject (without_report (fst p)) | Inr report \<Rightarrow> accept report)))"

definition render_now :: "('w, 'snap) run_host \<Rightarrow> message \<Rightarrow> report \<Rightarrow> ('w, gostring) running" where
  "render_now R label report =
     proceed (in_world (rhRender R report)) (\<lambda>out. case out of
       Inl m \<Rightarrow> reject (without_report (label @ m)) | Inr shown \<Rightarrow> accept shown)"

definition after_cleanup_failure :: "message \<Rightarrow> fix_execution \<Rightarrow> fix_execution" where
  "after_cleanup_failure m e =
     e\<lparr>feVerdict := verdict_errored, feFailure := Some (''clean up fix worktree: '' @ m),
       feLanding := (feLanding e)\<lparr>lrError := public_fix_failure verdict_errored (lrStatus (feLanding e))\<rparr>\<rparr>"

text \<open>Up to the audit, while the worktree still exists.\<close>

definition audit_report ::
  "('w, 'snap) run_host \<Rightarrow> prepared_run \<Rightarrow> int \<Rightarrow> gostring \<Rightarrow> fix_execution \<Rightarrow> ('w, report \<times> gostring) running" where
  "audit_report R prepared started agent e =
     proceed (compose_now R prepared started agent e) (\<lambda>report.
     proceed (render_now R ''stage report rendering: '' report) (\<lambda>shown.
     proceed (attempted (rhAudit R report) (RnAudit report)) (\<lambda>err. case err of
       Some m \<Rightarrow> reject (with_report report (''write pre-cleanup report audit: '' @ m))
     | None \<Rightarrow> accept (report, shown))))"

text \<open>The cleanup deferred by the code runs when the audit ends early; else it runs here.\<close>

definition clean_worktree ::
  "('w, 'snap) run_host \<Rightarrow> prepared_run \<Rightarrow> int \<Rightarrow> gostring \<Rightarrow> fix_execution \<Rightarrow> report \<times> gostring \<Rightarrow>
     ('w, report \<times> gostring) running" where
  "clean_worktree R prepared started agent e staged =
     (case feCleanup e of
        None \<Rightarrow> accept staged
      | Some landed \<Rightarrow>
          proceed (attempted (rhCleanup R landed) (RnCleanup landed)) (\<lambda>err. case err of
            None \<Rightarrow> accept staged
          | Some m \<Rightarrow>
              proceed (compose_now R prepared started agent (after_cleanup_failure m e)) (\<lambda>report.
              proceed (render_now R ''restage report rendering: '' report) (\<lambda>shown. accept (report, shown)))))"

definition deferred_cleanup ::
  "('w, 'snap) run_host \<Rightarrow> fix_execution \<Rightarrow> ('w, 'a) running \<Rightarrow> ('w, 'a) running" where
  "deferred_cleanup R e m s =
     (case m s of
        (Inr a, s') \<Rightarrow> (Inr a, s')
      | (Inl early, s') \<Rightarrow>
          (case feCleanup e of
             None \<Rightarrow> (Inl early, s')
           | Some landed \<Rightarrow>
               proceed (attempted (rhCleanup R landed) (RnCleanup landed)) (\<lambda>err. reject (joined early err)) s'))"

definition publish ::
  "('w, 'snap) run_host \<Rightarrow> report \<times> gostring \<Rightarrow> ('w, report) running" where
  "publish R = (\<lambda>(report, shown).
     proceed (attempted (rhWrite R report) (RnWrite report)) (\<lambda>err. case err of
       Some m \<Rightarrow> reject (with_report report (''write report: '' @ m))
     | None \<Rightarrow>
         proceed (attempted (rhOutput R shown) RnOutput) (\<lambda>err. case err of
           Some m \<Rightarrow> reject (with_report report (''render report: '' @ m))
         | None \<Rightarrow> accept report)))"

subsection \<open>runFix\<close>

definition report_of_run ::
  "('w, 'snap) run_host \<Rightarrow> prepared_run \<Rightarrow> int \<Rightarrow> gostring \<Rightarrow> fix_execution \<Rightarrow> ('w, report) running" where
  "report_of_run R prepared started agent e =
     proceed (deferred_cleanup R e (audit_report R prepared started agent e)) (\<lambda>staged.
     proceed (clean_worktree R prepared started agent e staged) (publish R))"

definition run_body ::
  "('w, 'snap) run_host \<Rightarrow> prepared_run \<Rightarrow> rail_config \<Rightarrow> gostring \<Rightarrow> int \<Rightarrow> ('w, report) running" where
  "run_body R prepared config agent started =
     proceed (if cfgMaxIterations config \<le> 0 \<or> cfgMaxWallClock config \<le> 0 then accept 0 else read_clock R) (\<lambda>t.
     case new_rails config (Some t) of
       Inl err \<Rightarrow> reject (without_report (''construct fix rails: '' @ rails_error_text err))
     | Inr rails \<Rightarrow>
         proceed (asking (\<lambda>s. ((), s\<lparr>rnRails := rails\<rparr>))) (\<lambda>_.
         proceed (in_world (rhWaivers R)) (\<lambda>waived. case waived of
           Inl m \<Rightarrow> reject (without_report (''load waivers: '' @ m))
         | Inr waived \<Rightarrow>
             proceed (gather_baseline R prepared) (\<lambda>(failed, e).
             proceed (decide R prepared waived failed e) (report_of_run R prepared started agent)))))"

text \<open>
  The ledger is closed at the end, and, when the run ended early or this close failed, by the deferred
  function.
\<close>

definition closing :: "('w, 'snap) run_host \<Rightarrow> run_answer \<Rightarrow> 'w run_state \<Rightarrow> run_answer \<times> 'w run_state" where
  "closing R a s = (case attempted (rhClose R) RnClose s of (Inr err, s') \<Rightarrow> (joined a err, s') | (Inl b, s') \<Rightarrow> (b, s'))"

definition run_fix ::
  "('w, 'snap) run_host \<Rightarrow> prepared_run \<Rightarrow> rail_config \<Rightarrow> gostring \<Rightarrow> 'w run_state \<Rightarrow> run_answer \<times> 'w run_state" where
  "run_fix R prepared config agent s =
     (case proceed (read_clock R) (\<lambda>started.
           proceed (attempted (rhStart R) RnStart) (\<lambda>err. case err of
             Some m \<Rightarrow> reject (without_report (''start run ledger: '' @ m)) | None \<Rightarrow> accept started)) s of
        (Inl a, s') \<Rightarrow> (a, s')
      | (Inr started, s') \<Rightarrow>
          (case run_body R prepared config agent started s' of
             (Inl a, s') \<Rightarrow> closing R a s'
           | (Inr report, s') \<Rightarrow>
               (case attempted (rhClose R) RnClose s' of
                  (Inr None, s') \<Rightarrow>
                    (\<lparr>raReport = Some report, raExit = Some (exit_code (repVerdict report)), raErrors = []\<rparr>, s')
                | (Inr (Some m), s') \<Rightarrow> closing R (with_report report (''close run ledger: '' @ m)) s'
                | (Inl a, s') \<Rightarrow> (a, s'))))"

end
