(* ===== verification/FixCommandFacts.thy ===== *)
theory FixCommandFacts
  imports FixCommand LandingDemo
begin

text \<open>
  What \<open>runFix\<close> leaves on every path: a worktree of the loop is cleaned up exactly once, a started ledger is
  closed last, and an exit code stands for a report that was audited, published and is valid.
\<close>

subsection \<open>Histories\<close>

fun cleanups :: "run_event list \<Rightarrow> bool list" where
  "cleanups [] = []"
| "cleanups (RnCleanup landed ok # l) = landed # cleanups l"
| "cleanups (e # l) = cleanups l"

fun worktrees :: "run_event list \<Rightarrow> bool list" where
  "worktrees [] = []"
| "worktrees (RnLoop h (Some landed) # l) = landed # worktrees l"
| "worktrees (e # l) = worktrees l"

definition cleanup_due :: "fix_execution \<Rightarrow> bool list" where
  "cleanup_due e = (case feCleanup e of None \<Rightarrow> [] | Some landed \<Rightarrow> [landed])"

definition early :: "bool list \<Rightarrow> run_answer \<Rightarrow> run_event list \<Rightarrow> bool" where
  "early due a l \<longleftrightarrow> raExit a = None \<and> raErrors a \<noteq> [] \<and> cleanups l = due \<and> worktrees l = []"

lemma cleanups_append [simp]: "cleanups (l @ l') = cleanups l @ cleanups l'"
  by (induction l rule: cleanups.induct) simp_all

lemma worktrees_append [simp]: "worktrees (l @ l') = worktrees l @ worktrees l'"
  by (induction l rule: worktrees.induct) simp_all

lemma early_answers [simp]:
  "early due (without_report m) l \<longleftrightarrow> cleanups l = due \<and> worktrees l = []"
  "early due (with_report report m) l \<longleftrightarrow> cleanups l = due \<and> worktrees l = []"
  by (auto simp: early_def without_report_def with_report_def)

lemma early_joined: "early due a l \<Longrightarrow> raExit (joined a err) = None \<and> raErrors (joined a err) \<noteq> []"
  by (simp add: early_def joined_def split: option.split)

abbreviation tells ::
  "(run_answer \<Rightarrow> run_event list \<Rightarrow> bool) \<Rightarrow> ('a \<Rightarrow> run_event list \<Rightarrow> bool) \<Rightarrow> ('w, 'a) running \<Rightarrow> bool" where
  "tells \<equiv> extends rnLog (\<lambda>_. True)"

lemma tells_ends [simp]: "tells E A (reject a) \<longleftrightarrow> E a []" "tells E A (accept b) \<longleftrightarrow> A b []"
  by (simp_all add: extends_def reject_def accept_def)

lemma in_world_then: "(\<And>a. tells E A (f a)) \<Longrightarrow> tells E A (proceed (in_world g) f)"
  by (rule extends_proceed [where A = "\<lambda>_ l. l = []"])
    (auto simp: in_world_def case_prod_beta intro!: extends_answer)

lemma clock_then: "(\<And>a. tells E A (f a)) \<Longrightarrow> tells E A (proceed (read_clock R) f)"
  unfolding read_clock_def by (rule in_world_then)

lemma attempted_tells: "(\<And>err. A err [ev (err = None)]) \<Longrightarrow> tells E A (attempted f ev)"
  unfolding attempted_def by (rule extends_ask) (auto simp: case_prod_beta)

lemma attempted_then:
  assumes "\<And>err. tells (\<lambda>a l. E a (l @ [ev (err = None)])) (\<lambda>b l. A b (l @ [ev (err = None)])) (f err)"
  shows "tells E A (proceed (attempted g ev) f)"
  by (rule extends_proceed [OF attempted_tells [where A = "\<lambda>err l. l = [ev (err = None)]"]]) (use assms in auto)

subsection \<open>The stages\<close>

lemma gather_tells: "tells E (\<lambda>(_, e) l. l = [] \<and> feCleanup e = None) (gather_baseline R prepared)"
  unfolding gather_baseline_def
  by (auto intro!: in_world_then simp: initial_execution_def Let_def split: sum.splits)

lemma decide_tells:
  assumes "feCleanup e = None"
  shows "tells E (\<lambda>e' l. (l = [] \<and> feCleanup e' = None) \<or> (\<exists>h. l = [RnLoop h (feCleanup e')])) (decide R prepared waived failed e)"
  unfolding decide_def Let_def loop_in_run_def
  by (auto intro!: extends_ask simp: assms case_prod_beta)

text \<open>A report that the run may publish.\<close>

definition composed :: "prepared_run \<Rightarrow> verdict \<Rightarrow> report \<Rightarrow> bool" where
  "composed prepared v report \<longleftrightarrow> validate_report report (prRunID prepared) = None \<and> repVerdict report = v"

lemma compose_fix_composed: "compose_fix_report prepared started ended e r agent = Inr report \<Longrightarrow> composed prepared (feVerdict e) report"
  by (auto simp: compose_fix_report_def composed_def Let_def split: sum.splits option.splits)

lemma compose_tells:
  "tells (early []) (\<lambda>report l. l = [] \<and> composed prepared (feVerdict e) report) (compose_now R prepared started agent e)"
proof -
  have snap: "tells E A (proceed (asking (\<lambda>s. case snapshot t (rnRails s) of (r, rails) \<Rightarrow> (r, s\<lparr>rnRails := rails\<rparr>))) f)"
    if "\<And>a. tells E A (f a)" for E t and A :: "report \<Rightarrow> run_event list \<Rightarrow> bool" and f
    by (rule extends_proceed [where A = "\<lambda>_ l. l = []"]) (use that in \<open>auto simp: case_prod_beta intro!: extends_answer\<close>)
  show ?thesis
    unfolding compose_now_def
    by (auto intro!: clock_then snap split: sum.splits)
      (erule compose_fix_composed)
qed

lemma render_tells: "tells (early []) (\<lambda>_ l. l = []) (render_now R label report)"
  unfolding render_now_def by (auto intro!: in_world_then split: sum.splits)

lemma audit_tells:
  "tells (early []) (\<lambda>(report, _) l. l = [RnAudit report True] \<and> composed prepared (feVerdict e) report)
     (audit_report R prepared started agent e)"
  unfolding audit_report_def
  by (rule extends_proceed [OF compose_tells], rule extends_proceed [where A = "\<lambda>_ l. l = []"],
      rule extends_mono [OF render_tells])
    (auto intro!: attempted_then split: option.splits)

lemma deferred_tells:
  assumes "tells (early []) A m"
  shows "tells (early (cleanup_due e)) A (deferred_cleanup R e m)"
  unfolding extends_def
proof (intro allI impI conjI TrueI)
  fix s r s'
  assume run: "deferred_cleanup R e m s = (r, s')"
  obtain r1 s1 where m: "m s = (r1, s1)" by fastforce
  from extendsD [OF assms TrueI m] obtain l where l: "rnLog s1 = l @ rnLog s" "case r1 of Inl a \<Rightarrow> early [] a l | Inr b \<Rightarrow> A b l" .
  show "\<exists>l. rnLog s' = l @ rnLog s \<and> (case r of Inl a \<Rightarrow> early (cleanup_due e) a l | Inr b \<Rightarrow> A b l)"
  proof (cases r1)
    case (Inl a)
    with l have a: "early [] a l" by simp
    show ?thesis
    proof (cases "feCleanup e")
      case None
      with run m Inl l a show ?thesis by (auto simp: deferred_cleanup_def cleanup_due_def)
    next
      case (Some landed)
      obtain err s2 where c: "rhCleanup R landed (rnWorld s1) = (err, s2)" by fastforce
      from run m Inl Some c have "r = Inl (joined a err)" "rnLog s' = RnCleanup landed (err = None) # rnLog s1"
        by (auto simp: deferred_cleanup_def proceed_def attempted_def asking_def reject_def)
      with l(1) a early_joined [OF a, of err] Some show ?thesis
        by (intro exI [of _ "RnCleanup landed (err = None) # l"]) (simp add: early_def cleanup_due_def)
    qed
  next
    case (Inr b)
    with run m l show ?thesis by (auto simp: deferred_cleanup_def)
  qed
qed

lemma after_cleanup_verdict [simp]: "feVerdict (after_cleanup_failure m e) = verdict_errored"
  by (simp add: after_cleanup_failure_def)

definition cleaned :: "prepared_run \<Rightarrow> fix_execution \<Rightarrow> report \<Rightarrow> report \<Rightarrow> run_event list \<Rightarrow> bool" where
  "cleaned prepared e audited report l \<longleftrightarrow>
     (case feCleanup e of
        None \<Rightarrow> l = [] \<and> report = audited
      | Some landed \<Rightarrow> l = [RnCleanup landed True] \<and> report = audited
          \<or> l = [RnCleanup landed False] \<and> composed prepared verdict_errored report)"

lemma clean_tells:
  "tells (early (cleanup_due e)) (\<lambda>staged l. cleaned prepared e audited (fst staged) l)
     (clean_worktree R prepared started agent e (audited, shown))"
proof (cases "feCleanup e")
  case None
  then show ?thesis by (simp add: clean_worktree_def cleaned_def)
next
  case (Some landed)
  have again: "tells (early []) (\<lambda>staged l. l = [] \<and> composed prepared verdict_errored (fst staged))
      (proceed (compose_now R prepared started agent (after_cleanup_failure m e)) (\<lambda>report.
       proceed (render_now R label report) (\<lambda>shown. accept (report, shown))))" for m label
  proof (rule extends_proceed [OF compose_tells [where prepared = prepared]])
    fix report and l :: "run_event list"
    assume c: "l = [] \<and> composed prepared (feVerdict (after_cleanup_failure m e)) report"
    have "tells (early []) (\<lambda>staged l. l = [] \<and> composed prepared verdict_errored (fst staged))
        (proceed (render_now R label report) (\<lambda>shown. accept (report, shown)))"
      by (rule extends_proceed [OF render_tells]) (use c in simp)
    with c show "tells (\<lambda>e l'. early [] e (l' @ l)) (\<lambda>b l'. l' @ l = [] \<and> composed prepared verdict_errored (fst b))
        (proceed (render_now R label report) (\<lambda>shown. accept (report, shown)))" by simp
  qed
  have "tells (\<lambda>a l. early [landed] a (l @ [RnCleanup landed (err = None)]))
      (\<lambda>staged l. cleaned prepared e audited (fst staged) (l @ [RnCleanup landed (err = None)]))
      (case err of None \<Rightarrow> accept (audited, shown)
       | Some m \<Rightarrow> proceed (compose_now R prepared started agent (after_cleanup_failure m e)) (\<lambda>report.
           proceed (render_now R ''restage report rendering: '' report) (\<lambda>shown. accept (report, shown))))" for err
  proof (cases err)
    case (Some m)
    show ?thesis
      unfolding Some option.case
      by (rule extends_mono [OF again]) (simp_all add: early_def cleaned_def \<open>feCleanup e = Some landed\<close>)
  qed (simp add: cleaned_def Some)
  then show ?thesis
    unfolding clean_worktree_def Some option.case cleanup_due_def by (rule attempted_then)
qed

lemma publish_tells:
  "tells (early []) (\<lambda>report' l. report' = report \<and> l = [RnOutput True, RnWrite report True]) (publish R (report, shown))"
proof -
  have shown: "tells (early []) (\<lambda>report' l. report' = report \<and> l = [RnOutput True])
      (proceed (attempted (rhOutput R shown) RnOutput) (\<lambda>err. case err of
         Some m \<Rightarrow> reject (with_report report (''render report: '' @ m)) | None \<Rightarrow> accept report))"
    by (rule attempted_then) (auto split: option.split)
  have "tells (\<lambda>a l. early [] a (l @ [RnWrite report (err = None)]))
      (\<lambda>report' l. report' = report \<and> l @ [RnWrite report (err = None)] = [RnOutput True, RnWrite report True])
      (case err of Some m \<Rightarrow> reject (with_report report (''write report: '' @ m))
       | None \<Rightarrow> proceed (attempted (rhOutput R shown) RnOutput) (\<lambda>err. case err of
           Some m \<Rightarrow> reject (with_report report (''render report: '' @ m)) | None \<Rightarrow> accept report))" for err
  proof (cases err)
    case None
    show ?thesis unfolding None option.case by (rule extends_mono [OF shown]) (auto simp: early_def)
  qed simp
  then show ?thesis unfolding publish_def prod.case by (rule attempted_then)
qed

text \<open>The history of a published report, latest first.\<close>

definition publishes :: "prepared_run \<Rightarrow> fix_execution \<Rightarrow> report \<Rightarrow> run_event list \<Rightarrow> bool" where
  "publishes prepared e report l \<longleftrightarrow> (\<exists>l' audited. l = RnOutput True # RnWrite report True # l' @ [RnAudit audited True]
     \<and> composed prepared (feVerdict e) audited \<and> cleaned prepared e audited report l')"

lemma cleaned_events: "cleaned prepared e audited report l \<Longrightarrow> cleanups l = cleanup_due e \<and> worktrees l = []"
  by (auto simp: cleaned_def cleanup_due_def split: option.splits)

lemma report_tells:
  "tells (early (cleanup_due e)) (publishes prepared e) (report_of_run R prepared started agent e)"
proof -
  let ?stage = "\<lambda>audited shown. proceed (clean_worktree R prepared started agent e (audited, shown)) (publish R)"
  have later: "tells (\<lambda>a l. early (cleanup_due e) a (l @ [RnAudit audited True]))
      (\<lambda>b l. publishes prepared e b (l @ [RnAudit audited True])) (?stage audited shown)"
    if c: "composed prepared (feVerdict e) audited" for audited shown
  proof (rule extends_proceed [where A = "\<lambda>staged l. cleaned prepared e audited (fst staged) l"])
    show "tells (\<lambda>a l. early (cleanup_due e) a (l @ [RnAudit audited True]))
        (\<lambda>staged l. cleaned prepared e audited (fst staged) l) (clean_worktree R prepared started agent e (audited, shown))"
      by (rule extends_mono [OF clean_tells]) (simp_all add: early_def)
  next
    fix staged :: "report \<times> gostring" and l
    assume l: "cleaned prepared e audited (fst staged) l"
    obtain report shown' where staged: "staged = (report, shown')" by fastforce
    show "tells (\<lambda>a l'. early (cleanup_due e) a ((l' @ l) @ [RnAudit audited True]))
        (\<lambda>b l'. publishes prepared e b ((l' @ l) @ [RnAudit audited True])) (publish R staged)"
      unfolding staged
      by (rule extends_mono [OF publish_tells])
        (use l c cleaned_events [OF l] in \<open>auto simp: staged early_def publishes_def\<close>)
  qed
  have "tells (early (cleanup_due e)) (publishes prepared e)
      (proceed (deferred_cleanup R e (audit_report R prepared started agent e))
         (\<lambda>staged. ?stage (fst staged) (snd staged)))"
    by (rule extends_proceed [OF deferred_tells [OF audit_tells]]) (auto intro!: later)
  then show ?thesis by (simp add: report_of_run_def)
qed

subsection \<open>The command\<close>

definition tidy :: "run_event list \<Rightarrow> bool" where
  "tidy l \<longleftrightarrow> cleanups l = worktrees l \<and> length (worktrees l) \<le> 1"

definition gave_up :: "run_answer \<Rightarrow> run_event list \<Rightarrow> bool" where
  "gave_up a l \<longleftrightarrow> raExit a = None \<and> raErrors a \<noteq> [] \<and> tidy l"

lemma gave_up_answers [simp]:
  "gave_up (without_report m) l \<longleftrightarrow> tidy l" "gave_up (with_report report m) l \<longleftrightarrow> tidy l"
  by (auto simp: gave_up_def without_report_def with_report_def)

text \<open>The history of a run with a published report, up to the close of the ledger: the loop ran or was not needed.\<close>

definition delivered :: "prepared_run \<Rightarrow> report \<Rightarrow> run_event list \<Rightarrow> bool" where
  "delivered prepared report l \<longleftrightarrow> (\<exists>e l1. publishes prepared e report l1
     \<and> (l = l1 \<and> feCleanup e = None \<or> (\<exists>h. l = l1 @ [RnLoop h (feCleanup e)])))"

lemma publishes_events: "publishes prepared e report l \<Longrightarrow> cleanups l = cleanup_due e \<and> worktrees l = []"
  using cleaned_events by (fastforce simp: publishes_def)

lemma loop_worktrees: "worktrees [RnLoop h c] = (case c of None \<Rightarrow> [] | Some landed \<Rightarrow> [landed])"
  by (cases c) simp_all

lemma loop_tidy:
  assumes "cleanups l = cleanup_due e" "worktrees l = []" "l0 = [] \<and> feCleanup e = None \<or> (\<exists>h. l0 = [RnLoop h (feCleanup e)])"
  shows "tidy (l @ l0)"
proof -
  have "cleanups l0 = []" "worktrees l0 = cleanup_due e"
    using assms(3) by (auto simp: loop_worktrees cleanup_due_def split: option.splits)
  with assms(1,2) show ?thesis by (simp add: tidy_def cleanup_due_def split: option.splits)
qed

lemma delivered_tidy: "delivered prepared report l \<Longrightarrow> tidy l"
  unfolding delivered_def using publishes_events loop_tidy by (metis append_Nil2)

lemma decided_tells:
  assumes "feCleanup e = None"
  shows "tells gave_up (delivered prepared)
    (proceed (decide R prepared waived failed e) (report_of_run R prepared started agent))"
proof (rule extends_proceed [OF decide_tells [OF assms]])
  fix e' :: fix_execution and l0
  assume l0: "l0 = [] \<and> feCleanup e' = None \<or> (\<exists>h. l0 = [RnLoop h (feCleanup e')])"
  show "tells (\<lambda>a l. gave_up a (l @ l0)) (\<lambda>b l. delivered prepared b (l @ l0)) (report_of_run R prepared started agent e')"
  proof (rule extends_mono [OF report_tells])
    fix a l
    assume "early (cleanup_due e') a l"
    with loop_tidy [OF _ _ l0, of l] show "gave_up a (l @ l0)" by (simp add: early_def gave_up_def)
  next
    fix report l
    assume "publishes prepared e' report l"
    with l0 show "delivered prepared report (l @ l0)" unfolding delivered_def by auto
  qed
qed

lemma tidy_nil [simp]: "tidy []"
  by (simp add: tidy_def)

lemma body_tells: "tells gave_up (delivered prepared) (run_body R prepared config agent started)"
proof -
  have gathered: "tells gave_up (delivered prepared) (proceed (gather_baseline R prepared) (\<lambda>(failed, e).
      proceed (decide R prepared waived failed e) (report_of_run R prepared started agent)))" for waived
    by (rule extends_proceed [OF gather_tells]) (auto simp: decided_tells)
  have waivers: "tells gave_up (delivered prepared) (proceed (asking (\<lambda>s. ((), s\<lparr>rnRails := rails\<rparr>))) (\<lambda>_.
      proceed (in_world (rhWaivers R)) (\<lambda>waived. case waived of
        Inl m \<Rightarrow> reject (without_report (''load waivers: '' @ m))
      | Inr waived \<Rightarrow> proceed (gather_baseline R prepared) (\<lambda>(failed, e).
          proceed (decide R prepared waived failed e) (report_of_run R prepared started agent)))))" for rails
    by (rule extends_proceed [OF extends_answer [where A = "\<lambda>_ l. l = []"]])
      (auto intro!: in_world_then gathered split: sum.split)
  have "tells E (\<lambda>_ l. l = []) (if c then accept 0 else read_clock R)" for E c
    by (auto simp: read_clock_def in_world_def case_prod_beta intro!: extends_answer)
  then show ?thesis
    unfolding run_body_def
  proof (rule extends_proceed)
    fix t and l :: "run_event list"
    assume l: "l = []"
    show "tells (\<lambda>a l'. gave_up a (l' @ l)) (\<lambda>b l'. delivered prepared b (l' @ l))
        (case new_rails config (Some t) of
           Inl err \<Rightarrow> reject (without_report (''construct fix rails: '' @ rails_error_text err))
         | Inr rails \<Rightarrow>
             proceed (asking (\<lambda>s. ((), s\<lparr>rnRails := rails\<rparr>))) (\<lambda>_.
             proceed (in_world (rhWaivers R)) (\<lambda>waived. case waived of
               Inl m \<Rightarrow> reject (without_report (''load waivers: '' @ m))
             | Inr waived \<Rightarrow>
                 proceed (gather_baseline R prepared) (\<lambda>(failed, e).
                 proceed (decide R prepared waived failed e) (report_of_run R prepared started agent)))))"
    proof (cases "new_rails config (Some t)")
      case (Inr rails)
      show ?thesis unfolding Inr sum.case l append_Nil2 by (rule waivers)
    qed (simp add: l)
  qed
qed

text \<open>How a run ends: the ledger did not start, or it ends with a close after all else.\<close>

definition run_ended :: "run_answer \<Rightarrow> prepared_run \<Rightarrow> run_event list \<Rightarrow> bool" where
  "run_ended a prepared l \<longleftrightarrow>
     l = [RnStart False] \<and> raExit a = None \<and> raErrors a \<noteq> []
     \<or> (\<exists>report l'. l = RnClose True # l' @ [RnStart True] \<and> delivered prepared report l'
          \<and> a = \<lparr>raReport = Some report, raExit = Some (exit_code (repVerdict report)), raErrors = []\<rparr>)
     \<or> (\<exists>ok l'. l = RnClose ok # l' @ [RnStart True] \<and> raExit a = None \<and> raErrors a \<noteq> [] \<and> tidy l')"

lemma closing_ends:
  assumes "closing R a s = (b, s')"
  shows "\<exists>err. b = joined a err \<and> rnLog s' = RnClose (err = None) # rnLog s"
proof -
  obtain err w where "rhClose R (rnWorld s) = (err, w)" by fastforce
  with assms show ?thesis by (auto simp: closing_def attempted_def asking_def)
qed

lemma run_fix_ended:
  assumes "run_fix R prepared config agent s = (a, s')" "rnLog s = []"
  shows "run_ended a prepared (rnLog s')"
proof -
  obtain started w1 where t: "pClock (fhPorts (rhFix R)) (rnWorld s) = (started, w1)" by fastforce
  obtain err w2 where start: "rhStart R w1 = (err, w2)" by fastforce
  let ?s = "s\<lparr>rnWorld := w2, rnLog := [RnStart (err = None)]\<rparr>"
  have first: "proceed (read_clock R) (\<lambda>started. proceed (attempted (rhStart R) RnStart) (\<lambda>err. case err of
        Some m \<Rightarrow> reject (without_report (''start run ledger: '' @ m)) | None \<Rightarrow> accept started)) s
      = (case err of Some m \<Rightarrow> (Inl (without_report (''start run ledger: '' @ m)), ?s) | None \<Rightarrow> (Inr started, ?s))"
    using t start assms(2)
    by (simp add: proceed_def read_clock_def in_world_def attempted_def asking_def reject_def accept_def split: option.split)
  show ?thesis
  proof (cases err)
    case (Some m)
    then have "run_fix R prepared config agent s = (without_report (''start run ledger: '' @ m), ?s)"
      by (simp add: run_fix_def first)
    with assms(1) Some show ?thesis by (auto simp: run_ended_def without_report_def)
  next
    case None
    note first = first [unfolded None option.case]
    obtain r s2 where body: "run_body R prepared config agent started ?s = (r, s2)" by fastforce
    from extendsD [OF body_tells TrueI body] obtain l where l: "rnLog s2 = l @ [RnStart True]"
      "case r of Inl a \<Rightarrow> gave_up a l | Inr report \<Rightarrow> delivered prepared report l" using None by auto
    show ?thesis
    proof (cases r)
      case (Inl early)
      with assms(1) first body None have "closing R early s2 = (a, s')" by (simp add: run_fix_def)
      from closing_ends [OF this] l Inl show ?thesis
        by (auto simp: run_ended_def gave_up_def joined_def split: option.splits)
    next
      case (Inr report)
      with l have d: "delivered prepared report l" "tidy l" by (simp_all add: delivered_tidy)
      obtain e w3 where c: "rhClose R (rnWorld s2) = (e, w3)" by fastforce
      let ?s3 = "s2\<lparr>rnWorld := w3, rnLog := RnClose (e = None) # rnLog s2\<rparr>"
      have at: "attempted (rhClose R) RnClose s2 = (Inr e, ?s3)" using c by (simp add: attempted_def asking_def)
      show ?thesis
      proof (cases e)
        case None
        with assms(1) first body Inr at have "a = \<lparr>raReport = Some report, raExit = Some (exit_code (repVerdict report)), raErrors = []\<rparr>"
          "s' = ?s3" using \<open>err = None\<close> by (simp_all add: run_fix_def)
        with None d(1) l(1) show ?thesis by (auto simp: run_ended_def)
      next
        case (Some m)
        with assms(1) first body Inr at have "closing R (with_report report (''close run ledger: '' @ m)) ?s3 = (a, s')"
          using \<open>err = None\<close> by (simp add: run_fix_def)
        from closing_ends [OF this] obtain again where "a = joined (with_report report (''close run ledger: '' @ m)) again"
          "rnLog s' = RnClose (again = None) # RnClose False # l @ [RnStart True]" using Some l(1) by auto
        moreover have "tidy (RnClose False # l)" using d(2) by (simp add: tidy_def)
        ultimately show ?thesis
          by (auto simp: run_ended_def joined_def with_report_def split: option.splits intro!: exI [of _ "RnClose False # l"])
      qed
    qed
  qed
qed

text \<open>
  C8: A fixing run cleans up the worktree of the loop exactly once, with the disposition the loop left, on
  every path, makes at most one, and closes a ledger that was started after everything else.
\<close>

theorem run_fix_cleans_up:
  assumes "run_fix R prepared config agent s = (a, s')" "rnLog s = []"
  shows "cleanups (rnLog s') = worktrees (rnLog s') \<and> length (worktrees (rnLog s')) \<le> 1
    \<and> (RnStart True \<in> set (rnLog s') \<longrightarrow> (\<exists>ok. hd (rnLog s') = RnClose ok))"
proof -
  have "tidy (rnLog s') \<and> (RnStart True \<in> set (rnLog s') \<longrightarrow> (\<exists>ok. hd (rnLog s') = RnClose ok))"
    using run_fix_ended [OF assms] delivered_tidy by (auto simp: run_ended_def tidy_def)
  then show ?thesis by (simp add: tidy_def)
qed

text \<open>
  C12: An exit code stands for a report: a fixing run that returns one wrote, showed and closed a report that
  the ledger's validation accepts and whose verdict has that code; the report is the one audited before the
  cleanup, unless the cleanup failed, and then its verdict is errored.
\<close>

theorem run_fix_exit_reports:
  assumes "run_fix R prepared config agent s = (a, s')" "rnLog s = []" "raExit a = Some code"
  shows "\<exists>report audited l. raReport a = Some report \<and> raErrors a = [] \<and> code = exit_code (repVerdict report)
    \<and> validate_report report (prRunID prepared) = None
    \<and> rnLog s' = RnClose True # RnOutput True # RnWrite report True # l \<and> RnAudit audited True \<in> set l
    \<and> (report = audited \<or> repVerdict report = verdict_errored \<and> (\<exists>landed. RnCleanup landed False \<in> set l))"
proof -
  from run_fix_ended [OF assms(1,2)] assms(3) obtain report l' where
    e: "rnLog s' = RnClose True # l' @ [RnStart True]" "delivered prepared report l'"
      "a = \<lparr>raReport = Some report, raExit = Some (exit_code (repVerdict report)), raErrors = []\<rparr>"
    by (auto simp: run_ended_def)
  from e(2) obtain x l1 l2 where p: "publishes prepared x report l1" "l' = l1 @ l2"
    unfolding delivered_def by force
  from p(1) obtain l3 audited where q: "l1 = RnOutput True # RnWrite report True # l3 @ [RnAudit audited True]"
    "composed prepared (feVerdict x) audited" "cleaned prepared x audited report l3"
    unfolding publishes_def by blast
  have valid: "validate_report report (prRunID prepared) = None"
    using q(2,3) by (auto simp: composed_def cleaned_def split: option.splits)
  have same: "report = audited \<or> repVerdict report = verdict_errored \<and> (\<exists>landed. RnCleanup landed False \<in> set l3)"
    using q(3) by (auto simp: composed_def cleaned_def split: option.splits)
  show ?thesis
    using e(1,3) p(2) q(1) valid same assms(3)
    by (intro exI [of _ report] exI [of _ audited] exI [of _ "l3 @ RnAudit audited True # l2 @ [RnStart True]"]) auto
qed

subsection \<open>A run with nothing to fix\<close>

definition calm_run_host :: "(unit, unit) run_host" where
  "calm_run_host = \<lparr>rhFix = landing_demo_host\<lparr>fhPorts := demo\<lparr>pClock := (\<lambda>w. (5, w))\<rparr>\<rparr>, rhStart = (\<lambda>w. (None, w)),
     rhWaivers = (\<lambda>w. (Inr [], w)), rhBranch = (\<lambda>w. (Inr ''f'', w)), rhRender = (\<lambda>_ w. (Inr ''shown'', w)),
     rhAudit = (\<lambda>_ w. (None, w)), rhCleanup = (\<lambda>_ w. (None, w)), rhWrite = (\<lambda>_ w. (None, w)),
     rhOutput = (\<lambda>_ w. (None, w)), rhClose = (\<lambda>w. (None, w))\<rparr>"

definition calm_rails :: rails where
  "calm_rails = \<lparr>maxIterations = 5, iterations = 0, maxWallClock = 10, startedAt = 5, deadline = 15, observedAt = 5,
     hasClock = True\<rparr>"

definition calm_config :: rail_config where
  "calm_config = \<lparr>cfgMaxIterations = 5, cfgMaxWallClock = 10\<rparr>"

definition calm_execution :: fix_execution where
  "calm_execution = initial_execution\<lparr>feBaseline := sample_suite, feGates := [sample_gate_report], feBranch := ''f'',
     feVerdict := verdict_unsealed, feLanding := (feLanding initial_execution)\<lparr>lrStatus := landing_not_needed\<rparr>\<rparr>"

abbreviation calm_at :: "run_event list \<Rightarrow> unit run_state" where
  "calm_at l \<equiv> \<lparr>rnWorld = (), rnRails = calm_rails, rnLog = l\<rparr>"

lemma calm_calls:
  "read_clock calm_run_host s = (Inr 5, s)"
  "in_world (fhSuite (rhFix calm_run_host) root ps full) s = (Inr (False, sample_suite), s)"
  "in_world (rhBranch calm_run_host) s = (Inr (Inr ''f''), s)" "in_world (rhWaivers calm_run_host) s = (Inr (Inr []), s)"
  "in_world (rhRender calm_run_host report) s = (Inr (Inr ''shown''), s)"
  "attempted (rhStart calm_run_host) ev s = (Inr None, s\<lparr>rnLog := ev True # rnLog s\<rparr>)"
  "attempted (rhAudit calm_run_host report) ev s = (Inr None, s\<lparr>rnLog := ev True # rnLog s\<rparr>)"
  "attempted (rhWrite calm_run_host report) ev s = (Inr None, s\<lparr>rnLog := ev True # rnLog s\<rparr>)"
  "attempted (rhOutput calm_run_host t) ev s = (Inr None, s\<lparr>rnLog := ev True # rnLog s\<rparr>)"
  "attempted (rhClose calm_run_host) ev s = (Inr None, s\<lparr>rnLog := ev True # rnLog s\<rparr>)"
  by (simp_all add: read_clock_def in_world_def attempted_def asking_def calm_run_host_def landing_demo_host_def)

lemma calm_collected:
  "in_world (collect_gates (rhFix calm_run_host) (prRequests landing_demo_prepared) (prRoot landing_demo_prepared)
     (prDiff landing_demo_prepared)) s = (Inr (Inr [sample_gate_report]), s)"
proof -
  have "\<not> diff_scope = []" by (simp add: diff_scope_def)
  then show ?thesis
    by (simp add: in_world_def asking_def collect_gates_def proceed_def accept_def calm_run_host_def landing_demo_host_def
        landing_demo_prepared_def)
qed

lemma calm_gathered: "gather_baseline calm_run_host landing_demo_prepared s
    = (Inr (False, initial_execution\<lparr>feBaseline := sample_suite, feGates := [sample_gate_report], feBranch := ''f''\<rparr>), s)"
  by (simp add: gather_baseline_def proceed_def calm_calls calm_collected accept_def reports_of_def baseline_result_def
      Let_def) (simp add: initial_execution_def)

lemma quiet_sample: "\<not> gates_errored [sample_gate_report]" "blocking_findings [sample_gate_report] = []"
  by (simp_all add: gates_errored_def errored_gate_names_def blocking_findings_def sample_gate_report_def group_empty
      gate_errored_def gate_passed_def)

lemma calm_decided:
  "decide calm_run_host landing_demo_prepared [] False
     (initial_execution\<lparr>feBaseline := sample_suite, feGates := [sample_gate_report], feBranch := ''f''\<rparr>) s
   = (Inr calm_execution, s)"
  using quiet_sample sample_passed
  by (simp add: decide_def Let_def accept_def calm_execution_def) (simp add: initial_execution_def)

lemma calm_base:
  obtains report where "compose_report ''run'' demo_id 5 5 demo_diff [sample_gate_report] = Inr report"
proof -
  have gate: "placed sample_gate_report" "all_findings [sample_gate_report] = []"
    by (simp_all add: placed_def all_findings_def sample_gate_report_def max_int_def)
  have "collision_free (all_findings [sample_gate_report])" by (simp add: gate collision_free_def)
  from composed_accepted [OF demo_diff_valid _ _ _ _ this, of demo_id 5 "''run''" 5] gate(1) sample_gate_valid demo_id_strings
  show ?thesis using that by auto
qed

lemma calm_composed:
  obtains report where
    "compose_now calm_run_host landing_demo_prepared 5 ''a'' calm_execution (calm_at l) = (Inr report, calm_at l)"
    "repVerdict report = verdict_unsealed"
proof -
  obtain base where r: "compose_report ''run'' demo_id 5 5 demo_diff [sample_gate_report] = Inr base" by (rule calm_base)
  note b = composed_base [OF r]
  have snap: "snapshot 5 calm_rails = (\<lparr>snapMaxIterations = 5, snapIterations = 0, snapMaxWallClock = 10, snapStartedAt = 5,
      snapDeadline = 15, snapElapsed = 0\<rparr>, calm_rails)"
    by (simp add: snapshot_def calm_rails_def observe_locked_def Let_def)
  let ?r = "fst (snapshot 5 calm_rails)"
  let ?f = "fix_report_of (prDiff landing_demo_prepared) calm_execution ?r ''a''"
  have trims: "trim_space ''f'' = ''f''" "trim_space ''a'' = ''a''"
    by (rule trim_space_plain; simp add: plain_ends_def is_space_def byte_def)+
  have e: "feFailure calm_execution = None" "feVerdict calm_execution = verdict_unsealed" "feGates calm_execution = [sample_gate_report]"
    "feBaseline calm_execution = sample_suite" "feFinal calm_execution = None" "feIntegrity calm_execution = []"
    "feBranch calm_execution = ''f''" "feUsage calm_execution = None" "feOutcome calm_execution = None"
    "feLanding calm_execution = \<lparr>lrStatus = landing_not_needed, lrCommit = [], lrPreservedBranch = [], lrError = []\<rparr>"
    by (simp_all add: calm_execution_def initial_execution_def)
  have "fix_parts ?f (diff_report_of demo_diff) verdict_unsealed = None"
    using demo_id_strings trims
    by (simp add: fix_parts_def Let_def fix_report_of_def e snap landing_demo_prepared_def diff_report_of_def demo_diff_def
        contains_any_def line_breaks_def nul_byte_def cr_def lf_def usage_problem_def validate_suite_report_def
        sample_suite_def rails_report_of_def report_milliseconds_def validate_fix_batches_def regrouped_iff group_empty)
  moreover have "frLanding ?f = feLanding calm_execution" "frBaseline ?f = sample_suite" "frFinal ?f = None" "frIntegrity ?f = Some []"
    by (simp_all add: fix_report_of_def e)
  moreover have "landing_problem (feLanding calm_execution) d verdict_unsealed run_id = None" for d run_id
    by (simp add: e landing_problem_def contains_any_def landing_not_needed_def landing_complete_def landing_blocked_def)
  ultimately have "validate_fix_report ?f (repDiff base) verdict_unsealed (repGates base) (repRunID base) = None"
    using quiet_sample sample_passed
    by (simp add: validate_fix_report_def Let_def b(1-3) e baseline_problem_def final_problem_def)
  from validate_with_fix [OF b(5,4) _ this] r have
    "compose_fix_report landing_demo_prepared 5 5 calm_execution ?r ''a''
       = Inr (base\<lparr>repVerdict := verdict_unsealed, repFix := Some ?f\<rparr>)"
    by (simp add: compose_fix_report_def e landing_demo_prepared_def Let_def)
  then have "compose_now calm_run_host landing_demo_prepared 5 ''a'' calm_execution (calm_at l)
      = (Inr (base\<lparr>repVerdict := verdict_unsealed, repFix := Some ?f\<rparr>), calm_at l)"
    using r by (simp add: compose_now_def proceed_def calm_calls asking_def accept_def e landing_demo_prepared_def snap)
  from that [OF this] show ?thesis by simp
qed

lemma calm_run:
  obtains report where "run_fix calm_run_host landing_demo_prepared calm_config ''a'' (calm_at [])
    = (\<lparr>raReport = Some report, raExit = Some 6, raErrors = []\<rparr>,
       calm_at [RnClose True, RnOutput True, RnWrite report True, RnAudit report True, RnStart True])"
proof -
  let ?l = "[RnStart True]"
  obtain report where c: "compose_now calm_run_host landing_demo_prepared 5 ''a'' calm_execution (calm_at ?l)
      = (Inr report, calm_at ?l)" and v: "repVerdict report = verdict_unsealed" by (rule calm_composed)
  have clean: "feCleanup calm_execution = None" by (simp add: calm_execution_def initial_execution_def)
  have "report_of_run calm_run_host landing_demo_prepared 5 ''a'' calm_execution (calm_at ?l)
      = (Inr report, calm_at [RnOutput True, RnWrite report True, RnAudit report True, RnStart True])"
    by (simp add: report_of_run_def deferred_cleanup_def audit_report_def clean_worktree_def publish_def render_now_def
        proceed_def c calm_calls accept_def clean)
  then have "run_body calm_run_host landing_demo_prepared calm_config ''a'' 5 (calm_at ?l)
      = (Inr report, calm_at [RnOutput True, RnWrite report True, RnAudit report True, RnStart True])"
    by (simp add: run_body_def calm_config_def new_rails_def proceed_def calm_calls asking_def accept_def
        calm_rails_def [symmetric] calm_gathered calm_decided)
  then have "run_fix calm_run_host landing_demo_prepared calm_config ''a'' (calm_at [])
    = (\<lparr>raReport = Some report, raExit = Some (exit_code (repVerdict report)), raErrors = []\<rparr>,
       calm_at [RnClose True, RnOutput True, RnWrite report True, RnAudit report True, RnStart True])"
    by (simp add: run_fix_def proceed_def calm_calls accept_def)
  moreover have "exit_code verdict_unsealed = 6" by (simp add: exit_code_def)
  ultimately show ?thesis using that by (simp add: v)
qed

lemma run_fix_cleans_up_witness:
  "\<exists>a s'. run_fix calm_run_host landing_demo_prepared calm_config ''a'' (calm_at []) = (a, s')
     \<and> RnStart True \<in> set (rnLog s') \<and> (\<exists>ok. hd (rnLog s') = RnClose ok)"
proof -
  obtain report where r: "run_fix calm_run_host landing_demo_prepared calm_config ''a'' (calm_at [])
    = (\<lparr>raReport = Some report, raExit = Some 6, raErrors = []\<rparr>,
       calm_at [RnClose True, RnOutput True, RnWrite report True, RnAudit report True, RnStart True])" by (rule calm_run)
  from run_fix_cleans_up [OF r] r show ?thesis by simp
qed

lemma run_fix_exit_reports_witness:
  "\<exists>a s' report. run_fix calm_run_host landing_demo_prepared calm_config ''a'' (calm_at []) = (a, s')
     \<and> raExit a = Some 6 \<and> raReport a = Some report \<and> validate_report report ''run'' = None"
proof -
  obtain report where r: "run_fix calm_run_host landing_demo_prepared calm_config ''a'' (calm_at [])
    = (\<lparr>raReport = Some report, raExit = Some 6, raErrors = []\<rparr>,
       calm_at [RnClose True, RnOutput True, RnWrite report True, RnAudit report True, RnStart True])" by (rule calm_run)
  from run_fix_exit_reports [OF r] r show ?thesis by (simp add: landing_demo_prepared_def)
qed

end
