(* ===== verification/RunBranch.thy ===== *)
theory RunBranch
  imports Judgement
begin

text \<open>
  The run branch of a worktree (\<open>internal/flywheel/worktree.go\<close>, \<open>landing.go\<close>): the state of a reference as Git
  reports it, \<open>CommitBatch\<close>, \<open>RollbackBatch\<close> and \<open>Squash\<close>. Git is a function of the environment it adds,
  the directory and the arguments on a state of the world; which context a call gets does not show, since no two
  answers are assumed alike. The points where tests inject code (\<open>beforeBatchRefUpdate\<close> and so on) are calls
  that may fail; a nil one never does. The workspace and the contexts are not nil. \<open>rbLog\<close> is a history variable, latest first.
\<close>

subsection \<open>State\<close>

datatype seam =
    BeforeBatchRefUpdate | AfterBatchRefUpdate | BeforeSquashRefUpdate | AfterSquashRefUpdate
  | BeforeLandingMerge | BeforeLandingExec | AfterLandingBind | BeforeLandingStart | AfterLandingMerge
  | BeforeLandingRecovery | BeforeWorktreeRemove | BeforeWorktreeQuarantine | BeforeRegistrationRemove
  | AfterWorktreeRemove | BeforeCleanupRefDelete

text \<open>The constant fields of \<open>Workspace\<close> and the operations on files and Git it is given.\<close>

record 'w worktree =
  wtRepositoryRoot :: gostring
  wtPath :: gostring
  wtGitDir :: gostring
  wtCommonDir :: gostring
  wtFeatureGitDir :: gostring
  wtBranch :: gostring
  wtFeatureBranch :: gostring
  wtOriginalHead :: gostring
  wtName :: gostring
  wtEmail :: gostring
  wtGit :: "(gostring \<times> gostring) list \<Rightarrow> gostring \<Rightarrow> gostring list \<Rightarrow> 'w \<Rightarrow> (message, gostring) res \<times> 'w"
  wtSwap :: "(gostring \<Rightarrow> gostring \<Rightarrow> gostring \<Rightarrow> 'w \<Rightarrow> message option \<times> 'w) option"
  wtControlBinding :: "'w \<Rightarrow> message option \<times> 'w"
  wtCause :: "'w \<Rightarrow> message option \<times> 'w"
  wtContextError :: "'w \<Rightarrow> message option \<times> 'w"
  wtVerifyBatch :: "batch_proof \<Rightarrow> gostring \<Rightarrow> bool \<Rightarrow> bool \<Rightarrow> 'w \<Rightarrow> message option \<times> 'w"
  wtDiscardSnapshot :: "batch_proof option \<Rightarrow> 'w \<Rightarrow> message option \<times> 'w"
  wtResetAttempt :: "gostring \<Rightarrow> 'w \<Rightarrow> message option \<times> 'w"
  wtSeam :: "seam \<Rightarrow> 'w \<Rightarrow> message option \<times> 'w"

datatype ref_event =
    EvAdvance gostring gostring bool
  | EvRestore gostring gostring bool

record 'w run_branch =
  rbWorld :: 'w
  rbGreen :: gostring
  rbLog :: "ref_event list"

type_synonym ('w, 'a) branching = "('w run_branch, message, 'a) action"

definition on_tree :: "('w \<Rightarrow> 'a \<times> 'w) \<Rightarrow> ('w, 'a) branching" where
  "on_tree f = asking (\<lambda>s. case f (rbWorld s) of (a, w) \<Rightarrow> (a, s\<lparr>rbWorld := w\<rparr>))"

text \<open>The error of an action that gives no value.\<close>

definition outcome_of :: "('w, message, unit) action \<Rightarrow> 'w \<Rightarrow> message option \<times> 'w" where
  "outcome_of m w = (case m w of (Inl e, w') \<Rightarrow> (Some e, w') | (Inr _, w') \<Rightarrow> (None, w'))"

text \<open>A call whose error ends the operation with a labelled error.\<close>

definition insisting :: "('w \<Rightarrow> message option \<times> 'w) \<Rightarrow> message \<Rightarrow> ('w, unit) branching" where
  "insisting f label = proceed (on_tree f) (\<lambda>e. case e of None \<Rightarrow> accept () | Some m \<Rightarrow> reject (label @ m))"

text \<open>Calls in order up to the first that fails.\<close>

fun first_failure :: "('w \<Rightarrow> message option \<times> 'w) list \<Rightarrow> 'w \<Rightarrow> message option \<times> 'w" where
  "first_failure [] w = (None, w)"
| "first_failure (f # fs) w = (case f w of (Some m, w') \<Rightarrow> (Some m, w') | (None, w') \<Rightarrow> first_failure fs w')"

subsection \<open>References\<close>

record ref_state =
  refObject :: gostring
  refSymbolic :: gostring

definition no_ref :: ref_state where
  "no_ref = \<lparr>refObject = [], refSymbolic = []\<rparr>"

fun parse_ref_lines :: "(gostring \<times> ref_state) list \<Rightarrow> gostring list \<Rightarrow> (message, (gostring \<times> ref_state) list) res" where
  "parse_ref_lines refs [] = Inr refs"
| "parse_ref_lines refs (line # lines) =
     (case split_on nul_byte line of
        [name, object, symbolic] \<Rightarrow>
          if \<not> has_prefix name ''refs/'' \<or> \<not> valid_object_id object \<or> (symbolic \<noteq> [] \<and> \<not> has_prefix symbolic ''refs/'')
          then Inl ''Git returned malformed refs''
          else if map_of refs name \<noteq> None then Inl ''Git returned duplicate refs''
          else parse_ref_lines ((name, \<lparr>refObject = object, refSymbolic = symbolic\<rparr>) # refs) lines
      | _ \<Rightarrow> Inl ''Git returned malformed refs'')"

definition parse_refs :: "gostring \<Rightarrow> (message, (gostring \<times> ref_state) list) res" where
  "parse_refs out =
     (if out = [] then Inr []
      else if last out \<noteq> lf then Inl ''Git returned unterminated refs''
      else parse_ref_lines [] (split_on lf (butlast out)))"

definition git_path :: "'w worktree \<Rightarrow> gostring \<Rightarrow> gostring list \<Rightarrow> 'w \<Rightarrow> (message, gostring) res \<times> 'w" where
  "git_path W dir args w =
     (case wtGit W [] dir args w of (Inl e, w') \<Rightarrow> (Inl e, w') | (Inr out, w') \<Rightarrow> (Inr (trim_space out), w'))"

text \<open>At most three rounds, until two in a row agree.\<close>

fun inspect_rounds ::
  "'w worktree \<Rightarrow> gostring \<Rightarrow> gostring list \<Rightarrow> gostring \<Rightarrow> nat \<Rightarrow> ref_state option \<Rightarrow> ('w, message, ref_state) action" where
  "inspect_rounds W dir options ref 0 earlier = reject ''ref changed while inspecting direct state''"
| "inspect_rounds W dir options ref (Suc n) earlier =
     proceed (asking (wtGit W [] dir (options @ [''symbolic-ref'', ''-q'', ref]))) (\<lambda>target.
     proceed (wtGit W [] dir
                (options @ [''for-each-ref'', ''--format=%(refname)%00%(objectname)%00%(symref)'', ref])) (\<lambda>out.
     case parse_refs out of
       Inl e \<Rightarrow> reject e
     | Inr refs \<Rightarrow>
         (let state = (case map_of refs ref of None \<Rightarrow> no_ref | Some r \<Rightarrow> r) in
          case target of
            Inr t \<Rightarrow>
              if \<not> has_prefix (trim_space t) ''refs/'' then reject ''Git returned malformed symbolic ref target''
              else (let state = state\<lparr>refSymbolic := trim_space t\<rparr> in
                    if earlier = Some state then accept state else inspect_rounds W dir options ref n (Some state))
          | Inl _ \<Rightarrow>
              if earlier = Some state then accept state else inspect_rounds W dir options ref n (Some state))))"

definition inspect_ref_state_at ::
  "'w worktree \<Rightarrow> gostring \<Rightarrow> gostring \<Rightarrow> gostring \<Rightarrow> ('w, message, ref_state) action" where
  "inspect_ref_state_at W dir git_dir ref =
     inspect_rounds W dir (if git_dir \<noteq> [] then [''--git-dir='' @ git_dir] else []) ref 3 None"

definition run_ref :: "'w worktree \<Rightarrow> gostring" where
  "run_ref W = ''refs/heads/'' @ wtBranch W"

text \<open>\<open>requireDirectRunRef\<close> without the index of an attempt.\<close>

definition require_direct_run_ref :: "'w worktree \<Rightarrow> gostring \<Rightarrow> 'w \<Rightarrow> message option \<times> 'w" where
  "require_direct_run_ref W expected = outcome_of
     (proceed (asking (wtControlBinding W)) (\<lambda>binding. case binding of
        Some e \<Rightarrow> reject e
      | None \<Rightarrow>
          proceed (asking (git_path W (wtPath W)
                     [''--git-dir='' @ wtGitDir W, ''--work-tree='' @ wtPath W, ''symbolic-ref'', ''-q'', ''HEAD''])) (\<lambda>head.
          if head \<noteq> Inr (run_ref W) then reject ''workspace HEAD is not the owned run branch''
          else proceed (relabel ''inspect owned run ref'' (inspect_ref_state_at W (wtPath W) (wtCommonDir W) (run_ref W))) (\<lambda>state.
               if refSymbolic state \<noteq> [] \<or> refObject state = [] \<or> refObject state \<noteq> expected
               then reject ''owned run ref is symbolic, missing, or unexpected'' else accept ()))))"

definition direct :: "'w worktree \<Rightarrow> gostring \<Rightarrow> message \<Rightarrow> ('w, unit) branching" where
  "direct W expected label = insisting (require_direct_run_ref W expected) label"

definition update_batch_ref_direct ::
  "'w worktree \<Rightarrow> gostring \<Rightarrow> gostring \<Rightarrow> gostring \<Rightarrow> 'w \<Rightarrow> message option \<times> 'w" where
  "update_batch_ref_direct W ref new old w =
     (case wtGit W [] (wtPath W) [''--git-dir='' @ wtCommonDir W, ''-c'', ''core.hooksPath=/dev/null'',
              ''update-ref'', ''--no-deref'', ref, new, old] w of
        (Inl e, w') \<Rightarrow> (Some e, w') | (Inr _, w') \<Rightarrow> (None, w'))"

definition compare_and_swap_batch_ref ::
  "'w worktree \<Rightarrow> gostring \<Rightarrow> gostring \<Rightarrow> gostring \<Rightarrow> 'w \<Rightarrow> message option \<times> 'w" where
  "compare_and_swap_batch_ref W ref new old =
     (case wtSwap W of Some f \<Rightarrow> f ref new old | None \<Rightarrow> update_batch_ref_direct W ref new old)"

text \<open>An update with its entry in the history.\<close>

definition updating :: "('w \<Rightarrow> message option \<times> 'w) \<Rightarrow> (bool \<Rightarrow> ref_event) \<Rightarrow> ('w, message option) branching" where
  "updating f ev = asking (\<lambda>s. case f (rbWorld s) of
     (e, w) \<Rightarrow> (e, s\<lparr>rbWorld := w, rbLog := ev (e = None) # rbLog s\<rparr>))"

definition advancing :: "'w worktree \<Rightarrow> gostring \<Rightarrow> gostring \<Rightarrow> ('w, message option) branching" where
  "advancing W new old = updating (compare_and_swap_batch_ref W (run_ref W) new old) (EvAdvance new old)"

definition restoring :: "'w worktree \<Rightarrow> gostring \<Rightarrow> gostring \<Rightarrow> ('w, message option) branching" where
  "restoring W new old = updating (update_batch_ref_direct W (run_ref W) new old) (EvRestore new old)"

definition set_green :: "gostring \<Rightarrow> ('w, unit) branching" where
  "set_green commit = asking (\<lambda>s. ((), s\<lparr>rbGreen := commit\<rparr>))"

definition get_green :: "('w, gostring) branching" where
  "get_green = asking (\<lambda>s. (rbGreen s, s))"

text \<open>An update that has to be undone: the error depends on whether that worked.\<close>

definition rolled_back :: "'w worktree \<Rightarrow> gostring \<Rightarrow> gostring \<Rightarrow> message \<Rightarrow> message \<Rightarrow> ('w, 'a) branching" where
  "rolled_back W old new failed undone =
     proceed (restoring W old new) (\<lambda>e. reject (if e \<noteq> None then failed else undone))"

definition identity_env :: "'w worktree \<Rightarrow> (gostring \<times> gostring) list" where
  "identity_env W = [(''GIT_AUTHOR_NAME'', wtName W), (''GIT_AUTHOR_EMAIL'', wtEmail W),
     (''GIT_COMMITTER_NAME'', wtName W), (''GIT_COMMITTER_EMAIL'', wtEmail W)]"

definition commit_of :: "(message, gostring) res \<Rightarrow> message \<Rightarrow> message \<Rightarrow> (message, gostring) res" where
  "commit_of out label invalid =
     (case out of Inl e \<Rightarrow> Inl (label @ e)
      | Inr raw \<Rightarrow> if valid_object_id (trim_space raw) then Inr (trim_space raw) else Inl invalid)"

definition given :: "('e, 'a) res \<Rightarrow> ('s, 'e, 'a) action" where
  "given r = (case r of Inl e \<Rightarrow> reject e | Inr a \<Rightarrow> accept a)"

subsection \<open>Committing a batch\<close>

definition valid_relative_path :: "gostring \<Rightarrow> bool" where
  "valid_relative_path p \<longleftrightarrow> p \<noteq> [] \<and> \<not> is_abs p \<and> path_clean p = p \<and> p \<noteq> ''..'' \<and> \<not> has_prefix p ''../''
     \<and> \<not> list_ex is_control (runes p)"

text \<open>The commit object, up to the moment the reference may move.\<close>

definition batch_commit :: "'w worktree \<Rightarrow> gostring \<Rightarrow> gostring \<Rightarrow> batch_proof \<Rightarrow> ('w, gostring) branching" where
  "batch_commit W green primary proof =
     proceed (insisting (wtDiscardSnapshot W (Some proof)) ''discard validated snapshot before commit: '') (\<lambda>_.
     proceed (insisting (wtVerifyBatch W proof green True False) ''refuse batch commit after snapshot cleanup: '') (\<lambda>_.
     proceed (direct W green ''refuse staged batch commit: '') (\<lambda>_.
     proceed (insisting (wtControlBinding W) ''refuse batch object creation: '') (\<lambda>_.
     proceed (on_tree (wtGit W (identity_env W) (wtRepositoryRoot W) [''--git-dir='' @ wtCommonDir W, ''commit-tree'',
                proofTree proof, ''-p'', green, ''-m'', ''togi batch: '' @ primary])) (\<lambda>out.
     proceed (given (commit_of out ''create batch commit: '' ''create batch commit returned an invalid object ID'')) (\<lambda>commit.
     proceed (insisting (wtVerifyBatch W proof green True False) ''refuse batch ref update: '') (\<lambda>_.
     proceed (direct W green ''refuse batch ref update: '') (\<lambda>_.
     proceed (insisting (wtSeam W BeforeBatchRefUpdate) ''before batch ref update: '') (\<lambda>_.
     proceed (insisting (wtVerifyBatch W proof green True False) ''refuse final batch ref update: '') (\<lambda>_.
     accept commit))))))))))"

text \<open>The checks after the update; the proof is verified even when an earlier check failed.\<close>

definition batch_drift :: "'w worktree \<Rightarrow> batch_proof \<Rightarrow> gostring \<Rightarrow> 'w \<Rightarrow> message option \<times> 'w" where
  "batch_drift W proof commit w =
     (case first_failure [wtSeam W AfterBatchRefUpdate, wtCause W] w of (early, w) \<Rightarrow>
     (case wtVerifyBatch W proof commit False False w of (verified, w) \<Rightarrow>
      if early \<noteq> None then (early, w) else if verified \<noteq> None then (verified, w) else wtCause W w))"

definition advance_batch :: "'w worktree \<Rightarrow> gostring \<Rightarrow> batch_proof \<Rightarrow> gostring \<Rightarrow> ('w, unit) branching" where
  "advance_batch W green proof commit =
     proceed (advancing W commit green) (\<lambda>err. case err of
       Some _ \<Rightarrow>
         proceed (on_tree (require_direct_run_ref W commit)) (\<lambda>moved.
         if moved = None
         then rolled_back W green commit ''batch ref update was ambiguous and rollback failed''
                ''advance batch run ref by compare-and-swap''
         else proceed (on_tree (require_direct_run_ref W green)) (\<lambda>kept.
              reject (if kept \<noteq> None then ''batch ref update failed with an unexpected run ref''
                      else ''advance batch run ref by compare-and-swap'')))
     | None \<Rightarrow>
         proceed (on_tree (batch_drift W proof commit)) (\<lambda>drift. case drift of
           Some m \<Rightarrow> rolled_back W green commit ''batch proof drifted after ref update and rollback failed''
                       (''batch proof drifted after ref update: '' @ m)
         | None \<Rightarrow> accept ()))"

definition ws_commit_batch :: "'w worktree \<Rightarrow> gostring \<Rightarrow> batch_proof \<Rightarrow> ('w, gostring) branching" where
  "ws_commit_batch W primary proof =
     (if \<not> valid_relative_path primary then reject ''invalid primary file''
      else proceed get_green (\<lambda>green.
           proceed (on_tree (wtVerifyBatch W proof green True True)) (\<lambda>verified. case verified of
             Some m \<Rightarrow>
               proceed (on_tree (wtDiscardSnapshot W (Some proof))) (\<lambda>discarded.
               reject (case discarded of
                         Some d \<Rightarrow> ''refuse batch commit and discard validation snapshot: '' @ d
                       | None \<Rightarrow> ''refuse batch commit: '' @ m))
           | None \<Rightarrow>
               proceed (batch_commit W green primary proof) (\<lambda>commit.
               proceed (advance_batch W green proof commit) (\<lambda>_.
               proceed (set_green commit) (\<lambda>_. accept commit))))))"

definition ws_rollback_batch :: "'w worktree \<Rightarrow> gostring \<Rightarrow> ('w, unit) branching" where
  "ws_rollback_batch W commit =
     proceed get_green (\<lambda>green.
     if \<not> valid_object_id commit \<or> commit \<noteq> green
     then reject ''refuse batch rollback: commit is not the latest green commit''
     else
       proceed (direct W commit ''refuse batch rollback: '') (\<lambda>_.
       proceed (on_tree (git_path W (wtPath W) [''--git-dir='' @ wtCommonDir W, ''rev-parse'', commit @ ''^''])) (\<lambda>parent.
       proceed (given (case parent of
                  Inl _ \<Rightarrow> Inl ''refuse batch rollback: resolve exact parent''
                | Inr p \<Rightarrow> if valid_object_id p then Inr p else Inl ''refuse batch rollback: resolve exact parent'')) (\<lambda>parent.
       proceed (updating (update_batch_ref_direct W (run_ref W) parent commit) (EvAdvance parent commit)) (\<lambda>err. case err of
         Some _ \<Rightarrow> reject ''refuse batch rollback: run ref moved from committed batch''
       | None \<Rightarrow>
           proceed (set_green parent) (\<lambda>_.
           insisting (wtResetAttempt W parent) ''batch ref rolled back but tree restoration failed: ''))))))"

subsection \<open>The squash\<close>

definition squash_subject :: gostring where
  "squash_subject = ''togi: apply verified fixes''"

text \<open>The text before and after the first empty line.\<close>

fun cut_blank :: "gostring \<Rightarrow> (gostring \<times> gostring) option" where
  "cut_blank (c # d # rest) =
     (if c = lf \<and> d = lf then Some ([], rest)
      else (case cut_blank (d # rest) of None \<Rightarrow> None | Some (a, b) \<Rightarrow> Some (c # a, b)))"
| "cut_blank s = None"

record header_counts =
  hcTrees :: nat
  hcParents :: nat
  hcAuthors :: nat
  hcCommitters :: nat

definition signed_by :: "gostring \<Rightarrow> 'w worktree \<Rightarrow> gostring" where
  "signed_by role W = role @ '' '' @ wtName W @ '' <'' @ wtEmail W @ ''> ''"

definition header_line :: "'w worktree \<Rightarrow> gostring \<Rightarrow> gostring \<Rightarrow> header_counts \<Rightarrow> (message, header_counts) res" where
  "header_line W tree line c =
     (if line = ''tree '' @ tree then Inr (c\<lparr>hcTrees := Suc (hcTrees c)\<rparr>)
      else if has_prefix line ''tree '' then Inl ''squash commit has an unexpected tree''
      else if line = ''parent '' @ wtOriginalHead W then Inr (c\<lparr>hcParents := Suc (hcParents c)\<rparr>)
      else if has_prefix line ''parent '' then Inl ''squash commit has an unexpected parent''
      else if has_prefix line (signed_by ''author'' W) then Inr (c\<lparr>hcAuthors := Suc (hcAuthors c)\<rparr>)
      else if has_prefix line ''author '' then Inl ''squash commit has an unexpected author''
      else if has_prefix line (signed_by ''committer'' W) then Inr (c\<lparr>hcCommitters := Suc (hcCommitters c)\<rparr>)
      else if has_prefix line ''committer '' then Inl ''squash commit has an unexpected committer''
      else Inr c)"

fun header_lines :: "'w worktree \<Rightarrow> gostring \<Rightarrow> gostring list \<Rightarrow> header_counts \<Rightarrow> (message, header_counts) res" where
  "header_lines W tree [] c = Inr c"
| "header_lines W tree (line # lines) c =
     (case header_line W tree line c of Inl e \<Rightarrow> Inl e | Inr c \<Rightarrow> header_lines W tree lines c)"

text \<open>The judgement of \<open>verifySquashObject\<close> on the commit object.\<close>

definition squash_object :: "'w worktree \<Rightarrow> gostring \<Rightarrow> gostring \<Rightarrow> message option" where
  "squash_object W tree raw =
     (case cut_blank raw of
        None \<Rightarrow> Some ''squash commit message differs from the fixed subject''
      | Some (header, body) \<Rightarrow>
          if body \<noteq> squash_subject @ [lf] then Some ''squash commit message differs from the fixed subject''
          else (case header_lines W tree (split_on lf header) \<lparr>hcTrees = 0, hcParents = 0, hcAuthors = 0, hcCommitters = 0\<rparr> of
                  Inl e \<Rightarrow> Some e
                | Inr c \<Rightarrow>
                    if hcTrees c \<noteq> 1 \<or> hcParents c \<noteq> 1 \<or> hcAuthors c \<noteq> 1 \<or> hcCommitters c \<noteq> 1
                    then Some ''squash commit object shape is incomplete or ambiguous'' else None))"

definition verify_squash_object :: "'w worktree \<Rightarrow> gostring \<Rightarrow> gostring \<Rightarrow> 'w \<Rightarrow> message option \<times> 'w" where
  "verify_squash_object W commit tree w =
     (if \<not> valid_object_id commit \<or> \<not> valid_object_id tree then (Some ''invalid squash object identity'', w)
      else (case wtGit W [] (wtPath W) [''--git-dir='' @ wtCommonDir W, ''cat-file'', ''commit'', commit] w of
              (Inl _, w') \<Rightarrow> (Some ''read squash commit object'', w')
            | (Inr raw, w') \<Rightarrow> (squash_object W tree raw, w')))"

definition require_validated_ancestry :: "'w worktree \<Rightarrow> gostring \<Rightarrow> ('w, unit) branching" where
  "require_validated_ancestry W latest =
     (if \<not> valid_object_id (wtOriginalHead W) \<or> \<not> valid_object_id latest
      then reject ''refuse squash: invalid validated ancestry''
      else proceed (on_tree (wtGit W [] (wtPath W)
                  [''--git-dir='' @ wtCommonDir W, ''merge-base'', ''--is-ancestor'', wtOriginalHead W, latest])) (\<lambda>out.
           case out of
             Inl _ \<Rightarrow> reject ''refuse squash: latest validated commit does not descend from original HEAD''
           | Inr _ \<Rightarrow> accept ()))"

definition squash_commit :: "'w worktree \<Rightarrow> gostring \<Rightarrow> ('w, gostring \<times> gostring) branching" where
  "squash_commit W latest =
     proceed (direct W latest ''refuse squash creation: '') (\<lambda>_.
     proceed (require_validated_ancestry W latest) (\<lambda>_.
     proceed (on_tree (git_path W (wtPath W) [''--git-dir='' @ wtCommonDir W, ''rev-parse'', latest @ ''^{tree}''])) (\<lambda>tree.
     proceed (given (case tree of
                Inl _ \<Rightarrow> Inl ''resolve latest validated tree''
              | Inr t \<Rightarrow> if valid_object_id t then Inr t else Inl ''resolve latest validated tree'')) (\<lambda>tree.
     proceed (on_tree (wtGit W (identity_env W) (wtPath W) [''--git-dir='' @ wtCommonDir W, ''-c'', ''core.hooksPath=/dev/null'',
                ''commit-tree'', tree, ''-p'', wtOriginalHead W, ''-m'', squash_subject])) (\<lambda>out.
     proceed (given (commit_of out ''create squash commit: '' ''create squash commit returned an invalid object ID'')) (\<lambda>commit.
     proceed (insisting (verify_squash_object W commit tree) ''verify squash commit: '') (\<lambda>_.
     proceed (direct W latest ''refuse squash ref update: '') (\<lambda>_.
     proceed (insisting (wtSeam W BeforeSquashRefUpdate) ''before squash ref update: '') (\<lambda>_.
     proceed (insisting (verify_squash_object W commit tree) ''refuse squash ref update after object drift: '') (\<lambda>_.
     proceed (direct W latest ''refuse final squash ref update: '') (\<lambda>_.
     accept (commit, tree))))))))))))"

definition advance_squash :: "'w worktree \<Rightarrow> gostring \<Rightarrow> gostring \<Rightarrow> gostring \<Rightarrow> ('w, unit) branching" where
  "advance_squash W latest commit tree =
     proceed (advancing W commit latest) (\<lambda>err. case err of
       Some _ \<Rightarrow>
         proceed (on_tree (require_direct_run_ref W commit)) (\<lambda>moved.
         if moved = None
         then rolled_back W latest commit ''squash ref update was ambiguous and rollback failed''
                ''squash ref update was ambiguous and was rolled back''
         else proceed (on_tree (require_direct_run_ref W latest)) (\<lambda>kept.
              reject (if kept = None then ''advance squash run ref by compare-and-swap''
                      else ''squash ref update failed with an unexpected run ref; concurrent state preserved'')))
     | None \<Rightarrow>
         proceed (on_tree (first_failure [wtSeam W AfterSquashRefUpdate, wtCause W, verify_squash_object W commit tree,
                    require_direct_run_ref W commit])) (\<lambda>drift. case drift of
           Some m \<Rightarrow> rolled_back W latest commit ''squash ref update was ambiguous and rollback failed''
                       (''squash ref update verification failed: '' @ m)
         | None \<Rightarrow> accept ()))"

text \<open>\<open>Squash\<close>; there is nothing to squash when no batch was committed.\<close>

definition ws_squash :: "'w worktree \<Rightarrow> ('w, gostring) branching" where
  "ws_squash W =
     proceed (insisting (wtContextError W) []) (\<lambda>_.
     proceed get_green (\<lambda>latest.
     if latest = wtOriginalHead W then accept []
     else proceed (squash_commit W latest) (\<lambda>(commit, tree).
          proceed (advance_squash W latest commit tree) (\<lambda>_.
          proceed (set_green commit) (\<lambda>_. accept commit)))))"

end
