(* ===== verification/Cleanup.thy ===== *)
theory Cleanup
  imports RunBranch
begin

text \<open>
  \<open>internal/flywheel/landing.go\<close>: \<open>Cleanup\<close>, which removes the owned worktree and then its run branch and may be
  called again after a failure, and the registrations of worktrees it reads (\<open>parseWorktreeStates\<close> of
  \<open>worktree.go\<close>). The moves of directories below a bound root (\<open>quarantineOwnedWorktree\<close>, \<open>discard\<close>,
  \<open>removeWorktreeDirect\<close>) are calls of a host. \<open>clDeletes\<close> is a history variable: the deletions of the run branch.
\<close>

subsection \<open>Registered worktrees\<close>

record worktree_state =
  wsPath :: gostring
  wsRawPath :: gostring
  wsHead :: gostring
  wsBranch :: gostring
  wsDetached :: bool
  wsBare :: bool
  wsLocked :: bool
  wsLockReason :: gostring
  wsPrunable :: bool
  wsPrunableReason :: gostring

text \<open>\<open>bytes.Split\<close> at two zero bytes; the first argument is the piece so far, reversed.\<close>

fun split_records :: "gostring \<Rightarrow> gostring \<Rightarrow> gostring list" where
  "split_records piece (c # d # rest) =
     (if c = nul_byte \<and> d = nul_byte then rev piece # split_records [] rest else split_records (c # piece) (d # rest))"
| "split_records piece [c] = [rev (c # piece)]"
| "split_records piece [] = [rev piece]"

definition reason_after :: "gostring \<Rightarrow> gostring \<Rightarrow> gostring" where
  "reason_after word field = trim_prefix (trim_prefix field word) '' ''"

definition worded :: "gostring \<Rightarrow> gostring \<Rightarrow> bool" where
  "worded word field \<longleftrightarrow> field = word \<or> has_prefix field (word @ '' '') \<and> length field > length word + 1"

definition worktree_field :: "gostring \<Rightarrow> worktree_state \<Rightarrow> worktree_state option" where
  "worktree_field field st =
     (if has_prefix field ''HEAD '' \<and> valid_object_id (trim_prefix field ''HEAD '') \<and> wsHead st = []
      then Some (st\<lparr>wsHead := trim_prefix field ''HEAD ''\<rparr>)
      else if has_prefix field ''branch refs/'' \<and> length field > length ''branch refs/'' \<and> wsBranch st = [] \<and> \<not> wsDetached st
      then Some (st\<lparr>wsBranch := trim_prefix field ''branch ''\<rparr>)
      else if field = ''detached'' \<and> wsBranch st = [] \<and> \<not> wsDetached st then Some (st\<lparr>wsDetached := True\<rparr>)
      else if field = ''bare'' \<and> \<not> wsBare st then Some (st\<lparr>wsBare := True\<rparr>)
      else if worded ''locked'' field \<and> \<not> wsLocked st
      then Some (st\<lparr>wsLocked := True, wsLockReason := reason_after ''locked'' field\<rparr>)
      else if worded ''prunable'' field \<and> \<not> wsPrunable st
      then Some (st\<lparr>wsPrunable := True, wsPrunableReason := reason_after ''prunable'' field\<rparr>)
      else None)"

fun worktree_fields :: "gostring list \<Rightarrow> worktree_state \<Rightarrow> worktree_state option" where
  "worktree_fields [] st = Some st"
| "worktree_fields (field # later) st =
     (case worktree_field field st of None \<Rightarrow> None | Some st \<Rightarrow> worktree_fields later st)"

definition worktree_complete :: "worktree_state \<Rightarrow> message option" where
  "worktree_complete st =
     (if wsBare st
      then (if wsHead st \<noteq> [] \<or> wsBranch st \<noteq> [] \<or> wsDetached st
            then Some ''Git returned contradictory bare worktree metadata'' else None)
      else if wsHead st = [] \<or> (wsBranch st = []) = (\<not> wsDetached st)
      then Some ''Git returned incomplete worktree metadata'' else None)"

text \<open>One registration; \<open>canonical\<close> is \<open>canonicalCandidate\<close>, which asks the file system.\<close>

definition worktree_record ::
  "(gostring \<Rightarrow> 'w \<Rightarrow> gostring option \<times> 'w) \<Rightarrow> gostring set \<Rightarrow> gostring \<Rightarrow> ('w, message, worktree_state) action" where
  "worktree_record canonical seen rec =
     (if rec = [] then reject ''Git returned an empty worktree registration''
      else (let parts = split_on nul_byte rec; first = hd parts in
        if \<not> has_prefix first ''worktree '' \<or> length first = length ''worktree ''
        then reject ''Git returned malformed worktree identity''
        else proceed (asking (canonical (drop (length ''worktree '') first))) (\<lambda>path. case path of
               None \<Rightarrow> reject ''Git returned an invalid worktree path''
             | Some path \<Rightarrow>
                 if path \<in> seen then reject ''Git returned duplicate worktree identity''
                 else (case worktree_fields (tl parts)
                         \<lparr>wsPath = path, wsRawPath = drop (length ''worktree '') first, wsHead = [], wsBranch = [],
                          wsDetached = False, wsBare = False, wsLocked = False, wsLockReason = [],
                          wsPrunable = False, wsPrunableReason = []\<rparr> of
                         None \<Rightarrow> reject ''Git returned malformed or ambiguous worktree metadata''
                       | Some st \<Rightarrow>
                           (case worktree_complete st of Some m \<Rightarrow> reject m | None \<Rightarrow> accept st)))))"

fun worktree_records ::
  "(gostring \<Rightarrow> 'w \<Rightarrow> gostring option \<times> 'w) \<Rightarrow> gostring set \<Rightarrow> gostring list \<Rightarrow> ('w, message, worktree_state list) action" where
  "worktree_records canonical seen [] = accept []"
| "worktree_records canonical seen (rec # recs) =
     proceed (worktree_record canonical seen rec) (\<lambda>st.
     proceed (worktree_records canonical (insert (wsPath st) seen) recs) (\<lambda>sts. accept (st # sts)))"

definition worktree_before :: "worktree_state \<Rightarrow> worktree_state \<Rightarrow> bool" where
  "worktree_before a b \<longleftrightarrow> (if wsPath a = wsPath b then wsRawPath a < wsRawPath b else wsPath a < wsPath b)"

definition parse_worktree_states ::
  "(gostring \<Rightarrow> 'w \<Rightarrow> gostring option \<times> 'w) \<Rightarrow> gostring \<Rightarrow> ('w, message, worktree_state list) action" where
  "parse_worktree_states canonical out =
     (if length out < 2 \<or> \<not> has_suffix out [nul_byte, nul_byte]
      then reject ''Git returned unterminated worktree registrations''
      else proceed (worktree_records canonical {} (split_records [] (take (length out - 2) out))) (\<lambda>states.
           accept (sort_by worktree_before states)))"

subsection \<open>State\<close>

datatype cleanup_disposition = CleanupLanded | CleanupPreserveValidated | CleanupOther gostring

text \<open>The workspace at the end of a run and the operations of the host; a nil function is the default one.\<close>

record ('w, 'q) cleaner =
  cnTree :: "'w worktree"
  cnGreen :: gostring
  cnLandingComplete :: bool
  cnCommonIdentity :: "'w \<Rightarrow> message option \<times> 'w"
  cnPathMissing :: "'w \<Rightarrow> bool \<times> 'w"
  cnCanonical :: "gostring \<Rightarrow> 'w \<Rightarrow> gostring option \<times> 'w"
  cnQuarantineTree :: "'w \<Rightarrow> (message, 'q) res \<times> 'w"
  cnDiscard :: "'q \<Rightarrow> 'w \<Rightarrow> message option \<times> 'w"
  cnRemove :: "'q option \<Rightarrow> 'w \<Rightarrow> message option \<times> 'w"
  cnDelete :: "(gostring \<Rightarrow> gostring \<Rightarrow> 'w \<Rightarrow> message option \<times> 'w) option"

record ('w, 'q) cleaning =
  clWorld :: 'w
  clDisposition :: "cleanup_disposition option"
  clQuarantine :: "'q option"
  clUnregistered :: bool
  clWorktreeRemoved :: bool
  clRefDeleted :: bool
  clPreserved :: bool
  clDeletes :: "(gostring \<times> gostring) list"

type_synonym ('w, 'q, 'a) cleanup_action = "(('w, 'q) cleaning, message, 'a) action"

definition fresh_cleaning :: "'w \<Rightarrow> ('w, 'q) cleaning" where
  "fresh_cleaning w = \<lparr>clWorld = w, clDisposition = None, clQuarantine = None, clUnregistered = False,
     clWorktreeRemoved = False, clRefDeleted = False, clPreserved = False, clDeletes = []\<rparr>"

definition outside :: "('w \<Rightarrow> 'a \<times> 'w) \<Rightarrow> ('w, 'q, 'a) cleanup_action" where
  "outside f = asking (\<lambda>s. case f (clWorld s) of (a, w) \<Rightarrow> (a, s\<lparr>clWorld := w\<rparr>))"

definition demand :: "('w \<Rightarrow> message option \<times> 'w) \<Rightarrow> (message \<Rightarrow> message) \<Rightarrow> ('w, 'q, unit) cleanup_action" where
  "demand f label = proceed (outside f) (\<lambda>e. case e of None \<Rightarrow> accept () | Some m \<Rightarrow> reject (label m))"

definition marking :: "(('w, 'q) cleaning \<Rightarrow> ('w, 'q) cleaning) \<Rightarrow> ('w, 'q, unit) cleanup_action" where
  "marking f = asking (\<lambda>s. ((), f s))"

definition current :: "(('w, 'q) cleaning \<Rightarrow> 'a) \<Rightarrow> ('w, 'q, 'a) cleanup_action" where
  "current f = asking (\<lambda>s. (f s, s))"

subsection \<open>Steps\<close>

text \<open>\<open>worktreeRegistrationsSnapshotAt\<close> in the common directory: raw paths and branches.\<close>

definition worktree_registrations :: "('w, 'q) cleaner \<Rightarrow> ('w, message, (gostring \<times> gostring) list) action" where
  "worktree_registrations C =
     proceed (relabel_by (\<lambda>e. ''list registered worktrees: '' @ e)
       (wtGit (cnTree C) [] (wtCommonDir (cnTree C)) [''--git-dir='' @ wtCommonDir (cnTree C), ''worktree'', ''list'', ''--porcelain'', ''-z'']))
     (\<lambda>out. proceed (parse_worktree_states (cnCanonical C) out)
     (\<lambda>states. accept (map (\<lambda>st. (wsRawPath st, wsBranch st)) states)))"

definition verify_worktree_removed :: "('w, 'q) cleaner \<Rightarrow> 'w \<Rightarrow> message option \<times> 'w" where
  "verify_worktree_removed C = outcome_of
     (proceed (asking (cnCommonIdentity C)) (\<lambda>binding.
      if binding \<noteq> None then reject ''cleanup common Git directory binding changed''
      else proceed (asking (cnPathMissing C)) (\<lambda>missing.
      if \<not> missing then reject ''cache worktree path remains or was replaced after removal''
      else proceed (relabel ''inspect worktree registrations after cleanup'' (worktree_registrations C)) (\<lambda>registrations.
      if list_ex (\<lambda>(path, branch). path_clean path = wtPath (cnTree C) \<or> branch = run_ref (cnTree C)) registrations
      then reject ''cache worktree registration remains or run branch is still attached''
      else accept ()))))"

definition cleanup_ref :: "('w, 'q) cleaner \<Rightarrow> 'w \<Rightarrow> (message, ref_state) res \<times> 'w" where
  "cleanup_ref C = inspect_ref_state_at (cnTree C) (wtCommonDir (cnTree C)) (wtCommonDir (cnTree C)) (run_ref (cnTree C))"

definition is_green_ref :: "('w, 'q) cleaner \<Rightarrow> (message, ref_state) res \<Rightarrow> bool" where
  "is_green_ref C ref \<longleftrightarrow> (case ref of Inl _ \<Rightarrow> False | Inr r \<Rightarrow> refSymbolic r = [] \<and> refObject r = cnGreen C)"

definition delete_run_ref_direct :: "('w, 'q) cleaner \<Rightarrow> gostring \<Rightarrow> gostring \<Rightarrow> 'w \<Rightarrow> message option \<times> 'w" where
  "delete_run_ref_direct C ref expected w =
     (case wtGit (cnTree C) [] (wtCommonDir (cnTree C)) [''--git-dir='' @ wtCommonDir (cnTree C), ''-c'',
              ''core.hooksPath=/dev/null'', ''update-ref'', ''--no-deref'', ''-d'', ref, expected] w of
        (Inl e, w') \<Rightarrow> (Some e, w') | (Inr _, w') \<Rightarrow> (None, w'))"

text \<open>A deletion with its entry in the history.\<close>

definition deleting :: "('w, 'q) cleaner \<Rightarrow> ('w, 'q, message option) cleanup_action" where
  "deleting C = asking (\<lambda>s.
     case (case cnDelete C of None \<Rightarrow> delete_run_ref_direct C | Some f \<Rightarrow> f) (run_ref (cnTree C)) (cnGreen C) (clWorld s) of
       (e, w) \<Rightarrow> (e, s\<lparr>clWorld := w, clDeletes := (run_ref (cnTree C), cnGreen C) # clDeletes s\<rparr>))"

text \<open>The worktree is moved aside, after its attempt is reset or its snapshot is discarded.\<close>

definition quarantine_worktree :: "('w, 'q) cleaner \<Rightarrow> cleanup_disposition \<Rightarrow> ('w, 'q, unit) cleanup_action" where
  "quarantine_worktree C disposition =
     proceed (if disposition = CleanupPreserveValidated
              then demand (wtResetAttempt (cnTree C) (cnGreen C)) (\<lambda>m. ''reset invalid attempt before cleanup: '' @ m)
              else demand (wtDiscardSnapshot (cnTree C) None) (\<lambda>m. ''discard validation snapshot before cleanup: '' @ m)) (\<lambda>_.
     proceed (demand (require_direct_run_ref (cnTree C) (cnGreen C)) (\<lambda>m. ''refuse worktree cleanup: '' @ m)) (\<lambda>_.
     proceed (demand (wtSeam (cnTree C) BeforeWorktreeRemove) (\<lambda>m. ''before worktree cleanup: '' @ m)) (\<lambda>_.
     proceed (demand (require_direct_run_ref (cnTree C) (cnGreen C)) (\<lambda>m. ''refuse final worktree cleanup: '' @ m)) (\<lambda>_.
     proceed (demand (wtSeam (cnTree C) BeforeWorktreeQuarantine) (\<lambda>m. ''before worktree quarantine: '' @ m)) (\<lambda>_.
     proceed (outside (cnQuarantineTree C)) (\<lambda>q. case q of
       Inl m \<Rightarrow> reject (''refuse worktree quarantine: '' @ m)
     | Inr q \<Rightarrow> marking (clQuarantine_update (\<lambda>_. Some q))))))))"

text \<open>The registration goes; the result is the error of a removal that worked all the same.\<close>

definition unregister_worktree :: "('w, 'q) cleaner \<Rightarrow> ('w, 'q, message option) cleanup_action" where
  "unregister_worktree C =
     proceed (demand (wtSeam (cnTree C) BeforeRegistrationRemove) (\<lambda>m. ''before worktree registration removal: '' @ m)) (\<lambda>_.
     proceed (current clQuarantine) (\<lambda>q.
     proceed (outside (cnRemove C q)) (\<lambda>failed.
     proceed (outside (verify_worktree_removed C)) (\<lambda>kept. case kept of
       Some m \<Rightarrow> reject (case failed of Some f \<Rightarrow> ''remove cache worktree registration: '' @ f | None \<Rightarrow> m)
     | None \<Rightarrow> proceed (marking (clUnregistered_update (\<lambda>_. True))) (\<lambda>_. accept failed)))))"

definition discard_quarantine :: "('w, 'q) cleaner \<Rightarrow> ('w, 'q, unit) cleanup_action" where
  "discard_quarantine C =
     proceed (current clQuarantine) (\<lambda>q. case q of
       None \<Rightarrow> accept ()
     | Some q \<Rightarrow>
         proceed (demand (cnDiscard C q) (\<lambda>m. ''remove quarantined cache worktree: '' @ m)) (\<lambda>_.
         marking (clQuarantine_update (\<lambda>_. None))))"

definition remove_worktree :: "('w, 'q) cleaner \<Rightarrow> cleanup_disposition \<Rightarrow> ('w, 'q, unit) cleanup_action" where
  "remove_worktree C disposition =
     proceed (current (\<lambda>s. clQuarantine s = None \<and> \<not> clUnregistered s)) (\<lambda>untouched.
     proceed (if untouched then quarantine_worktree C disposition else accept ()) (\<lambda>_.
     proceed (current clUnregistered) (\<lambda>unregistered.
     proceed (if unregistered then accept None else unregister_worktree C) (\<lambda>failed.
     proceed (discard_quarantine C) (\<lambda>_.
     proceed (demand (verify_worktree_removed C) (\<lambda>m. m)) (\<lambda>_.
     proceed (marking (clWorktreeRemoved_update (\<lambda>_. True))) (\<lambda>_. case failed of
       Some m \<Rightarrow> reject (''cache worktree registration removal succeeded with an ambiguous command result: '' @ m)
     | None \<Rightarrow> demand (wtSeam (cnTree C) AfterWorktreeRemove) (\<lambda>m. ''after worktree cleanup: '' @ m))))))))"

text \<open>The run branch goes, once it is direct and at the green commit.\<close>

definition delete_run_branch :: "('w, 'q) cleaner \<Rightarrow> ('w, 'q, unit) cleanup_action" where
  "delete_run_branch C =
     proceed (outside (cleanup_ref C)) (\<lambda>ref.
     if \<not> is_green_ref C ref then reject ''refuse run branch cleanup: ref is symbolic, missing, or unexpected''
     else
       proceed (demand (wtSeam (cnTree C) BeforeCleanupRefDelete) (\<lambda>m. ''before run branch cleanup: '' @ m)) (\<lambda>_.
       proceed (demand (verify_worktree_removed C) (\<lambda>m. m)) (\<lambda>_.
       proceed (demand (cnCommonIdentity C) (\<lambda>_. ''refuse run branch cleanup: common Git directory changed'')) (\<lambda>_.
       proceed (deleting C) (\<lambda>failed.
       proceed (outside (cleanup_ref C)) (\<lambda>observed.
       if observed = Inr no_ref then marking (clRefDeleted_update (\<lambda>_. True))
       else reject (if failed = None then ''run branch deletion result is ambiguous''
                    else if is_green_ref C observed then ''delete owned run branch by compare-and-swap''
                    else ''run branch deletion failed with unexpected concurrent state preserved'')))))))"

definition settle_run_branch :: "('w, 'q) cleaner \<Rightarrow> cleanup_disposition \<Rightarrow> ('w, 'q, unit) cleanup_action" where
  "settle_run_branch C disposition =
     (if disposition = CleanupPreserveValidated \<and> cnGreen C \<noteq> wtOriginalHead (cnTree C)
      then proceed (outside (cleanup_ref C)) (\<lambda>ref.
           if \<not> is_green_ref C ref then reject ''validated run branch changed during cleanup''
           else marking (clPreserved_update (\<lambda>_. True)))
      else proceed (current clRefDeleted) (\<lambda>deleted.
           if deleted
           then proceed (outside (cleanup_ref C)) (\<lambda>ref.
                if ref = Inr no_ref then accept ()
                else reject ''deleted run branch was recreated or became ambiguous'')
           else delete_run_branch C))"

text \<open>\<open>Cleanup\<close>.\<close>

definition cleanup :: "('w, 'q) cleaner \<Rightarrow> cleanup_disposition \<Rightarrow> ('w, 'q, unit) cleanup_action" where
  "cleanup C disposition =
     (if disposition \<noteq> CleanupLanded \<and> disposition \<noteq> CleanupPreserveValidated then reject ''invalid cleanup disposition''
      else if disposition = CleanupLanded \<and> \<not> cnLandingComplete C
      then reject ''refuse landed cleanup without a verified successful landing''
      else
        proceed (current clDisposition) (\<lambda>earlier.
        if earlier \<noteq> None \<and> earlier \<noteq> Some disposition then reject ''cleanup disposition changed across attempts''
        else
          proceed (marking (clDisposition_update (\<lambda>_. Some disposition))) (\<lambda>_.
          proceed (current clWorktreeRemoved) (\<lambda>removed.
          proceed (if removed then demand (verify_worktree_removed C) (\<lambda>m. m) else remove_worktree C disposition) (\<lambda>_.
          settle_run_branch C disposition)))))"

end
