(* ===== verification/SampleTree.thy ===== *)
theory SampleTree
  imports Cleanup
begin

text \<open>
  A small Git for concrete runs: its world is the value of the run branch, empty when the branch is gone.
\<close>

definition original_id :: gostring where "original_id = replicate 40 (CHR ''a'')"
definition batch_commit_id :: gostring where "batch_commit_id = replicate 40 (CHR ''b'')"
definition squash_id :: gostring where "squash_id = replicate 40 (CHR ''c'')"
definition tree_id :: gostring where "tree_id = replicate 40 (CHR ''d'')"

definition sample_squash :: gostring where
  "sample_squash = ''tree '' @ tree_id @ [lf] @ ''parent '' @ original_id @ [lf] @ ''author A <a> 1 +0000'' @ [lf]
     @ ''committer A <a> 1 +0000'' @ [lf, lf] @ ''togi: apply verified fixes'' @ [lf]"

definition sample_worktrees :: gostring where
  "sample_worktrees = ''worktree /repo'' @ [nul_byte] @ ''HEAD '' @ original_id @ [nul_byte] @ ''branch refs/heads/main'' @ [nul_byte, nul_byte]"

definition sample_git ::
  "(gostring \<times> gostring) list \<Rightarrow> gostring \<Rightarrow> gostring list \<Rightarrow> gostring \<Rightarrow> (message, gostring) res \<times> gostring" where
  "sample_git env dir args w =
     (let given = (\<lambda>a. a \<in> set args) in
      if given ''commit-tree''
      then (Inr (if last args = squash_subject then squash_id else batch_commit_id), w)
      else if given ''update-ref''
      then (if last args \<noteq> w then (Inl ''the reference moved'', w)
            else (Inr [], if given ''-d'' then [] else last (butlast args)))
      else if given ''symbolic-ref''
      then ((if last args = ''HEAD'' then Inr ''refs/heads/run'' else Inl ''no symbolic reference''), w)
      else if given ''for-each-ref''
      then (Inr (if w = [] then [] else ''refs/heads/run'' @ [nul_byte] @ w @ [nul_byte, lf]), w)
      else if given ''rev-parse'' then (Inr (if has_suffix (last args) ''^'' then original_id else tree_id), w)
      else if given ''cat-file'' then (Inr sample_squash, w)
      else if given ''worktree'' then (Inr sample_worktrees, w)
      else (Inr [], w))"

definition fine :: "'w \<Rightarrow> message option \<times> 'w" where
  "fine w = (None, w)"

definition sample_tree :: "gostring worktree" where
  "sample_tree = \<lparr>wtRepositoryRoot = ''/repo'', wtPath = ''/cache/run'', wtGitDir = ''/repo/.git/worktrees/run'',
     wtCommonDir = ''/repo/.git'', wtFeatureGitDir = ''/repo/.git'', wtBranch = ''run'', wtFeatureBranch = ''main'',
     wtOriginalHead = original_id, wtName = ''A'', wtEmail = ''a'', wtGit = sample_git, wtSwap = None,
     wtControlBinding = fine, wtCause = fine, wtContextError = fine, wtVerifyBatch = (\<lambda>_ _ _ _. fine), wtDiscardSnapshot = (\<lambda>_. fine),
     wtResetAttempt = (\<lambda>_. fine), wtSeam = (\<lambda>_. fine)\<rparr>"

definition sample_cleaner :: "(gostring, unit) cleaner" where
  "sample_cleaner = \<lparr>cnTree = sample_tree, cnGreen = squash_id, cnLandingComplete = True, cnCommonIdentity = fine,
     cnPathMissing = (\<lambda>w. (True, w)), cnCanonical = (\<lambda>p w. (Some p, w)), cnQuarantineTree = (\<lambda>w. (Inr (), w)),
     cnDiscard = (\<lambda>_. fine), cnRemove = (\<lambda>_. fine), cnDelete = None\<rparr>"

subsection \<open>What it answers\<close>

lemma sample_trims:
  "trim_space ''refs/heads/run'' = ''refs/heads/run''" "trim_space original_id = original_id" "trim_space batch_commit_id = batch_commit_id"
  "trim_space squash_id = squash_id" "trim_space tree_id = tree_id"
  by (rule trim_space_plain;
      simp add: plain_ends_def byte_def is_space_def original_id_def batch_commit_id_def squash_id_def tree_id_def)+

lemma sample_ids:
  "valid_object_id original_id" "valid_object_id batch_commit_id" "valid_object_id squash_id" "valid_object_id tree_id"
  by code_simp+

lemma sample_refs:
  "inspect_ref_state_at sample_tree dir ''/repo/.git'' ''refs/heads/run'' squash_id =
     (Inr \<lparr>refObject = squash_id, refSymbolic = []\<rparr>, squash_id)"
  "inspect_ref_state_at sample_tree dir ''/repo/.git'' ''refs/heads/run'' batch_commit_id =
     (Inr \<lparr>refObject = batch_commit_id, refSymbolic = []\<rparr>, batch_commit_id)"
  "inspect_ref_state_at sample_tree dir ''/repo/.git'' ''refs/heads/run'' original_id =
     (Inr \<lparr>refObject = original_id, refSymbolic = []\<rparr>, original_id)"
  "inspect_ref_state_at sample_tree dir ''/repo/.git'' ''refs/heads/run'' [] = (Inr no_ref, [])"
  by code_simp+

lemma sample_fields:
  "wtRepositoryRoot sample_tree = ''/repo''" "wtPath sample_tree = ''/cache/run''" "wtGitDir sample_tree = ''/repo/.git/worktrees/run''"
  "wtCommonDir sample_tree = ''/repo/.git''" "wtBranch sample_tree = ''run''" "wtOriginalHead sample_tree = original_id" "wtName sample_tree = ''A''" "wtEmail sample_tree = ''a''"
  "wtGit sample_tree = sample_git" "wtSwap sample_tree = None" "wtControlBinding sample_tree w = (None, w)"
  "wtCause sample_tree w = (None, w)" "wtContextError sample_tree w = (None, w)" "wtVerifyBatch sample_tree p c b b' w = (None, w)"
  "wtDiscardSnapshot sample_tree q w = (None, w)" "wtResetAttempt sample_tree c w = (None, w)" "wtSeam sample_tree m w = (None, w)"
  "run_ref sample_tree = ''refs/heads/run''"
  by (simp_all add: sample_tree_def fine_def run_ref_def)

lemmas running = proceed_def asking_def accept_def reject_def relabel_def relabel_by_def outcome_of_def sample_fields
  sample_trims sample_ids sample_refs

lemma sample_apart: "original_id \<noteq> []" "batch_commit_id \<noteq> []" "squash_id \<noteq> []" "original_id \<noteq> batch_commit_id" "squash_id \<noteq> original_id"
  "batch_commit_id \<noteq> squash_id" "batch_commit_id \<noteq> original_id"
  by (simp_all add: original_id_def batch_commit_id_def squash_id_def)

text \<open>Words of a command are no object IDs.\<close>

lemma sample_no_words:
  "length s \<noteq> 40 \<Longrightarrow> s \<noteq> original_id" "length s \<noteq> 40 \<Longrightarrow> s \<noteq> batch_commit_id"
  "length s \<noteq> 40 \<Longrightarrow> s \<noteq> squash_id" "length s \<noteq> 40 \<Longrightarrow> s \<noteq> tree_id"
  by (auto simp: original_id_def batch_commit_id_def squash_id_def tree_id_def)

lemma sample_direct:
  "require_direct_run_ref sample_tree squash_id squash_id = (None, squash_id)"
  "require_direct_run_ref sample_tree batch_commit_id batch_commit_id = (None, batch_commit_id)"
  "require_direct_run_ref sample_tree original_id original_id = (None, original_id)"
  by (simp_all add: require_direct_run_ref_def running sample_apart git_path_def sample_git_def)

lemma sample_removed:
  "verify_worktree_removed sample_cleaner squash_id = (None, squash_id)"
  "verify_worktree_removed sample_cleaner [] = (None, [])"
  by code_simp+

lemma sample_green: "cnTree sample_cleaner = sample_tree" "cnGreen sample_cleaner = squash_id" "cnLandingComplete sample_cleaner"
  "cnCommonIdentity sample_cleaner w = (None, w)" "cnQuarantineTree sample_cleaner w = (Inr (), w)"
  "cnDiscard sample_cleaner q w = (None, w)" "cnRemove sample_cleaner r w = (None, w)" "cnDelete sample_cleaner = None"
  by (simp_all add: sample_cleaner_def fine_def)

lemma sample_cleanup:
  "cleanup sample_cleaner CleanupLanded (fresh_cleaning squash_id) =
     (Inr (), (fresh_cleaning [])\<lparr>clDisposition := Some CleanupLanded, clUnregistered := True, clWorktreeRemoved := True,
        clRefDeleted := True, clDeletes := [(''refs/heads/run'', squash_id)]\<rparr>)"
  by (simp add: cleanup_def remove_worktree_def quarantine_worktree_def unregister_worktree_def discard_quarantine_def
      settle_run_branch_def delete_run_branch_def cleanup_ref_def deleting_def delete_run_ref_direct_def is_green_ref_def
      outside_def demand_def marking_def current_def fresh_cleaning_def sample_git_def running sample_apart sample_no_words sample_direct
      sample_removed sample_green no_ref_def)

subsection \<open>A batch, its rollback, a batch and a squash\<close>

definition sample_proof :: batch_proof where
  "sample_proof = \<lparr>proofOwner = Some 0, proofTree = tree_id, proofChanged = [''main.go''], proofVerify = True,
     proofValidation = Some (Some []), proofCapture = 0\<rparr>"

definition at_branch :: "gostring \<Rightarrow> ref_event list \<Rightarrow> gostring run_branch" where
  "at_branch c l = \<lparr>rbWorld = c, rbGreen = c, rbLog = l\<rparr>"

lemma sample_words_apart:
  "''commit-tree'' \<noteq> ''togi batch: main.go''" "''togi batch: main.go'' \<noteq> squash_subject" "has_suffix (batch_commit_id @ ''^'') ''^''"
  "\<not> has_suffix (batch_commit_id @ ''^{tree}'') ''^''" "valid_relative_path ''main.go''"
  by code_simp+

lemmas sample_branching = on_tree_def insisting_def direct_def given_def commit_of_def advancing_def restoring_def updating_def
  set_green_def get_green_def compare_and_swap_batch_ref_def update_batch_ref_direct_def git_path_def sample_git_def at_branch_def
  running sample_apart sample_no_words sample_direct sample_words_apart

lemma sample_commit:
  "ws_commit_batch sample_tree ''main.go'' sample_proof (at_branch original_id l) =
     (Inr batch_commit_id, at_branch batch_commit_id (EvAdvance batch_commit_id original_id True # l))"
  by (simp add: ws_commit_batch_def batch_commit_def advance_batch_def batch_drift_def sample_branching sample_proof_def)

lemma sample_rollback:
  "ws_rollback_batch sample_tree batch_commit_id (at_branch batch_commit_id l) =
     (Inr (), at_branch original_id (EvAdvance original_id batch_commit_id True # l))"
  by (simp add: ws_rollback_batch_def sample_branching)

definition sample_header :: gostring where
  "sample_header = ''tree '' @ tree_id @ [lf] @ ''parent '' @ original_id @ [lf] @ ''author A <a> 1 +0000'' @ [lf]
     @ ''committer A <a> 1 +0000''"

lemma sample_cut: "cut_blank sample_squash = Some (sample_header, squash_subject @ [lf])"
  by code_simp

lemma sample_lines: "split_on lf sample_header =
    [''tree '' @ tree_id, ''parent '' @ original_id, ''author A <a> 1 +0000'', ''committer A <a> 1 +0000'']"
  by code_simp

lemma sample_squash_object: "squash_object sample_tree tree_id sample_squash = None"
  by (simp add: squash_object_def sample_cut sample_lines header_line_def has_prefix_def signed_by_def sample_fields)

lemma sample_squashed:
  "ws_squash sample_tree (at_branch batch_commit_id l) =
     (Inr squash_id, at_branch squash_id (EvAdvance squash_id batch_commit_id True # l))"
  by (simp add: ws_squash_def squash_commit_def require_validated_ancestry_def advance_squash_def verify_squash_object_def
      sample_squash_object sample_branching)

end
