(* ===== verification/RunBranchFacts.thy ===== *)
theory RunBranchFacts
  imports SampleTree Histories
begin

text \<open>
  The run branch moves only by compare-and-swap from the latest green commit, and an operation that fails
  takes its own move back; the commit object of the squash is judged exactly.
\<close>

subsection \<open>Operations that do not touch the branch\<close>

abbreviation at_green :: "gostring \<Rightarrow> 'w run_branch \<Rightarrow> bool" where
  "at_green g s \<equiv> rbGreen s = g"

abbreviation moves ::
  "gostring \<Rightarrow> (message \<Rightarrow> ref_event list \<Rightarrow> bool) \<Rightarrow> ('a \<Rightarrow> ref_event list \<Rightarrow> bool) \<Rightarrow> ('w, 'a) branching \<Rightarrow> bool" where
  "moves g \<equiv> extends rbLog (at_green g)"

abbreviation calm_branch :: "gostring \<Rightarrow> ('w, 'a) branching \<Rightarrow> bool" where
  "calm_branch g \<equiv> moves g (\<lambda>_ l. l = []) (\<lambda>_ l. l = [])"

named_theorems calm_steps \<open>steps that leave the run branch alone\<close>

lemma calm_proceed [calm_steps]: "calm_branch g m \<Longrightarrow> (\<And>a. calm_branch g (f a)) \<Longrightarrow> calm_branch g (proceed m f)"
  by (rule extends_proceed [where A = "\<lambda>_ l. l = []"]) auto

lemma calm_on_tree [calm_steps]: "calm_branch g (on_tree f)"
  unfolding on_tree_def by (rule extends_answer) (simp_all add: case_prod_beta)

lemma calm_ends [calm_steps]: "calm_branch g (accept a)" "calm_branch g (reject e)" "calm_branch g (given r)"
  by (simp_all add: given_def extends_accept extends_reject split: sum.split)

lemma calm_insisting [calm_steps]: "calm_branch g (insisting f label)"
  unfolding insisting_def by (rule calm_proceed [OF calm_on_tree]) (auto split: option.split intro: calm_steps)

lemma calm_direct [calm_steps]: "calm_branch g (direct W c label)"
  unfolding direct_def by (rule calm_insisting)

lemma calm_cases [calm_steps]:
  "(\<And>x. calm_branch g (f x)) \<Longrightarrow> calm_branch g n \<Longrightarrow> calm_branch g (case y of None \<Rightarrow> n | Some x \<Rightarrow> f x)"
  "(\<And>e. calm_branch g (h e)) \<Longrightarrow> (\<And>x. calm_branch g (k x)) \<Longrightarrow> calm_branch g (case z of Inl e \<Rightarrow> h e | Inr x \<Rightarrow> k x)"
  "calm_branch g n \<Longrightarrow> calm_branch g n' \<Longrightarrow> calm_branch g (if b then n else n')"
  by (simp_all split: option.split sum.split)

lemma calm_batch_commit [calm_steps]: "calm_branch g (batch_commit W green primary proof)"
  unfolding batch_commit_def by (intro calm_steps)

lemma calm_ancestry [calm_steps]: "calm_branch g (require_validated_ancestry W latest)"
  unfolding require_validated_ancestry_def by (intro calm_steps)

lemma calm_squash_commit [calm_steps]: "calm_branch g (squash_commit W latest)"
  unfolding squash_commit_def by (intro calm_steps)

subsection \<open>Moves\<close>

text \<open>What an operation that fails may leave in the history, latest first.\<close>

definition still :: "gostring \<Rightarrow> ref_event list \<Rightarrow> bool" where
  "still g l \<longleftrightarrow> l = [] \<or> (\<exists>c. l = [EvAdvance c g False]) \<or> (\<exists>c ok ok'. l = [EvRestore g c ok', EvAdvance c g ok])"

lemma updating_moves: "moves g E (\<lambda>e l. l = [ev (e = None)]) (updating f ev)"
  unfolding updating_def by (rule extends_ask) (auto simp: case_prod_beta)

lemma rolled_back_moves:
  "moves g (\<lambda>_ l. \<exists>ok. l = [EvRestore old new ok]) A (rolled_back W old new failed undone)"
  unfolding rolled_back_def restoring_def
  by (rule extends_proceed [OF updating_moves]) (auto intro!: extends_reject)

abbreviation undone :: "gostring \<Rightarrow> gostring \<Rightarrow> ref_event list \<Rightarrow> bool" where
  "undone g c l \<equiv> l = [] \<or> (\<exists>ok. l = [EvRestore g c ok])"

lemma advanced:
  fixes refused :: "message \<Rightarrow> ('w, unit) branching"
  assumes "\<And>m. moves g (\<lambda>_. undone g c) (\<lambda>_ l. False) (refused m)"
    "moves g (\<lambda>_ l. \<exists>ok. l = [EvRestore g c ok]) (\<lambda>_ l. l = []) taken"
  shows "moves g (\<lambda>_. still g) (\<lambda>_ l. l = [EvAdvance c g True])
    (proceed (advancing W c g) (\<lambda>err. case err of Some m \<Rightarrow> refused m | None \<Rightarrow> taken))"
  unfolding advancing_def
proof (rule extends_proceed [OF updating_moves])
  fix err :: "message option" and l
  assume l: "l = [EvAdvance c g (err = None)]"
  show "moves g (\<lambda>_ l'. still g (l' @ l)) (\<lambda>_ l'. l' @ l = [EvAdvance c g True])
      (case err of Some m \<Rightarrow> refused m | None \<Rightarrow> taken)"
  proof (cases err)
    case None
    have "moves g (\<lambda>_ l'. still g (l' @ l)) (\<lambda>_ l'. l' @ l = [EvAdvance c g True]) taken"
      by (rule extends_mono [OF assms(2)]) (auto simp: still_def l None)
    with None show ?thesis by simp
  next
    case (Some m)
    have "moves g (\<lambda>_ l'. still g (l' @ l)) (\<lambda>_ l'. l' @ l = [EvAdvance c g True]) (refused m)"
      by (rule extends_mono [OF assms(1)]) (auto simp: still_def l Some)
    with Some show ?thesis by simp
  qed
qed

lemma moves_inspect:
  "(\<And>a. moves g E A (f a)) \<Longrightarrow> moves g (\<lambda>e l. E e l) (\<lambda>a l. A a l) (proceed (on_tree h) f)"
  by (rule extends_proceed [where A = "\<lambda>_ l. l = []"]) (auto simp: on_tree_def case_prod_beta intro: extends_answer)

lemma advance_batch_moves:
  "moves g (\<lambda>_. still g) (\<lambda>_ l. l = [EvAdvance c g True]) (advance_batch W g proof c)"
  unfolding advance_batch_def
proof (rule advanced)
  fix m
  show "moves g (\<lambda>_. undone g c) (\<lambda>_ l. False)
     (proceed (on_tree (require_direct_run_ref W c)) (\<lambda>moved.
         if moved = None
         then rolled_back W g c ''batch ref update was ambiguous and rollback failed''
                ''advance batch run ref by compare-and-swap''
         else proceed (on_tree (require_direct_run_ref W g)) (\<lambda>kept.
              reject (if kept \<noteq> None then ''batch ref update failed with an unexpected run ref''
                      else ''advance batch run ref by compare-and-swap''))))"
    by (auto intro!: moves_inspect extends_reject extends_mono [OF rolled_back_moves])
next
  show "moves g (\<lambda>_ l. \<exists>ok. l = [EvRestore g c ok]) (\<lambda>_ l. l = [])
     (proceed (on_tree (batch_drift W proof c)) (\<lambda>drift. case drift of
           Some m \<Rightarrow> rolled_back W g c ''batch proof drifted after ref update and rollback failed''
                       (''batch proof drifted after ref update: '' @ m)
         | None \<Rightarrow> accept ()))"
    by (auto intro!: moves_inspect extends_accept rolled_back_moves split: option.split)
qed

lemma advance_squash_moves:
  "moves g (\<lambda>_. still g) (\<lambda>_ l. l = [EvAdvance c g True]) (advance_squash W g c t)"
  unfolding advance_squash_def
proof (rule advanced)
  fix m
  show "moves g (\<lambda>_. undone g c) (\<lambda>_ l. False)
     (proceed (on_tree (require_direct_run_ref W c)) (\<lambda>moved.
         if moved = None
         then rolled_back W g c ''squash ref update was ambiguous and rollback failed''
                ''squash ref update was ambiguous and was rolled back''
         else proceed (on_tree (require_direct_run_ref W g)) (\<lambda>kept.
              reject (if kept = None then ''advance squash run ref by compare-and-swap''
                      else ''squash ref update failed with an unexpected run ref; concurrent state preserved''))))"
    by (auto intro!: moves_inspect extends_reject extends_mono [OF rolled_back_moves])
next
  show "moves g (\<lambda>_ l. \<exists>ok. l = [EvRestore g c ok]) (\<lambda>_ l. l = [])
     (proceed (on_tree (first_failure [wtSeam W AfterSquashRefUpdate, wtCause W, verify_squash_object W c t,
                    require_direct_run_ref W c])) (\<lambda>drift. case drift of
           Some m \<Rightarrow> rolled_back W g c ''squash ref update was ambiguous and rollback failed''
                       (''squash ref update verification failed: '' @ m)
         | None \<Rightarrow> accept ()))"
    by (auto simp del: first_failure.simps intro!: moves_inspect extends_accept rolled_back_moves split: option.split)
qed

subsection \<open>The latest green commit follows\<close>

lemma calmD:
  assumes "calm_branch g m" "at_green g s" "m s = (r, s')"
  shows "at_green g s'" "rbLog s' = rbLog s"
proof -
  from extendsD [OF assms] obtain l where "at_green g s'" "rbLog s' = l @ rbLog s"
    "case r of Inl e \<Rightarrow> l = [] | Inr a \<Rightarrow> l = []" .
  then show "at_green g s'" "rbLog s' = rbLog s" by (auto split: sum.splits)
qed

text \<open>What a step from the green commit \<open>g\<close> did: its outcome, its part of the history, the green commit after it.\<close>

definition steps ::
  "gostring \<Rightarrow> ((message, 'a) res \<Rightarrow> ref_event list \<Rightarrow> gostring \<Rightarrow> bool) \<Rightarrow> ('w, 'a) branching \<Rightarrow> bool" where
  "steps g R m \<longleftrightarrow> (\<forall>s r s'. at_green g s \<longrightarrow> m s = (r, s') \<longrightarrow>
     (\<exists>l. rbLog s' = l @ rbLog s \<and> R r l (rbGreen s')))"

lemma stepsD:
  assumes "steps g R m" "at_green g s" "m s = (r, s')"
  obtains l where "rbLog s' = l @ rbLog s" "R r l (rbGreen s')"
  using assms unfolding steps_def by blast

lemma steps_mono: "steps g R m \<Longrightarrow> (\<And>r l g'. R r l g' \<Longrightarrow> R' r l g') \<Longrightarrow> steps g R' m"
  unfolding steps_def by blast

abbreviation calm_with :: "gostring \<Rightarrow> ('a \<Rightarrow> bool) \<Rightarrow> ('w, 'a) branching \<Rightarrow> bool" where
  "calm_with g A \<equiv> moves g (\<lambda>_ l. l = []) (\<lambda>a l. l = [] \<and> A a)"

lemma calm_withD:
  assumes "calm_with g A m" "at_green g s" "m s = (r, s')"
  shows "at_green g s'" "rbLog s' = rbLog s" "r = Inr a \<Longrightarrow> A a"
proof -
  from extendsD [OF assms] obtain l where "at_green g s'" "rbLog s' = l @ rbLog s"
    "case r of Inl e \<Rightarrow> l = [] | Inr a \<Rightarrow> l = [] \<and> A a" .
  then show "at_green g s'" "rbLog s' = rbLog s" "r = Inr a \<Longrightarrow> A a" by (auto split: sum.splits)
qed

lemma calm_any: "calm_branch g m \<Longrightarrow> calm_with g (\<lambda>_. True) m"
  by simp

lemma steps_ends: "R (Inr a) [] g \<Longrightarrow> steps g R (accept a)" "R (Inl e) [] g \<Longrightarrow> steps g R (reject e)"
  by (simp_all add: steps_def accept_def reject_def)

lemma steps_after:
  assumes m: "calm_with g A m" and f: "\<And>a. A a \<Longrightarrow> steps g R (f a)" and e: "\<And>e. R (Inl e) [] g"
  shows "steps g R (proceed m f)"
  unfolding steps_def
proof (intro allI impI)
  fix s r s' assume g: "at_green g s" and run: "proceed m f s = (r, s')"
  obtain r1 s1 where m1: "m s = (r1, s1)" by fastforce
  note s1 = calm_withD [OF m g m1]
  show "\<exists>l. rbLog s' = l @ rbLog s \<and> R r l (rbGreen s')"
  proof (cases r1)
    case (Inl e)
    with run m1 s1 assms(3) show ?thesis by (auto simp: proceed_def)
  next
    case (Inr a)
    with run m1 have "f a s1 = (r, s')" by (simp add: proceed_def)
    from stepsD [OF f [OF s1(3) [OF Inr]] s1(1) this] s1(2) show ?thesis by metis
  qed
qed

lemma steps_moved:
  assumes m: "moves g (\<lambda>_. still g) (\<lambda>_ l. l = [EvAdvance c g True]) m" and f: "calm_branch c (f ())"
    and R: "\<And>e l. still g l \<Longrightarrow> R (Inl e) l g" "\<And>s. R (fst (f () s)) [EvAdvance c g True] c"
  shows "steps g R (proceed m (\<lambda>_. proceed (set_green c) f))"
  unfolding steps_def
proof (intro allI impI)
  fix s r s' assume g: "at_green g s" and run: "proceed m (\<lambda>_. proceed (set_green c) f) s = (r, s')"
  obtain r1 s1 where m1: "m s = (r1, s1)" by fastforce
  from extendsD [OF m g m1] obtain l
    where s1: "at_green g s1" "rbLog s1 = l @ rbLog s"
      "case r1 of Inl e \<Rightarrow> still g l | Inr a \<Rightarrow> l = [EvAdvance c g True]" .
  show "\<exists>l. rbLog s' = l @ rbLog s \<and> R r l (rbGreen s')"
  proof (cases r1)
    case (Inl e)
    with run m1 s1 R(1) show ?thesis by (auto simp: proceed_def)
  next
    case (Inr a)
    with run m1 have "f () (s1\<lparr>rbGreen := c\<rparr>) = (r, s')" by (simp add: proceed_def set_green_def asking_def)
    from calmD [OF f _ this] R(2) [of "s1\<lparr>rbGreen := c\<rparr>"] this s1 Inr show ?thesis by simp
  qed
qed

lemma steps_get_green: "steps g R (f g) \<Longrightarrow> steps g R (proceed get_green f)"
  by (simp add: steps_def proceed_def get_green_def asking_def)

subsection \<open>The operations\<close>

text \<open>A step that gives no value leaves the green commit; one that gives a commit has moved to it.\<close>

definition batch_outcome :: "gostring \<Rightarrow> (message, gostring) res \<Rightarrow> ref_event list \<Rightarrow> gostring \<Rightarrow> bool" where
  "batch_outcome g r l g' \<longleftrightarrow> (case r of
       Inl e \<Rightarrow> still g l \<and> g' = g
     | Inr c \<Rightarrow> valid_object_id c \<and> l = [EvAdvance c g True] \<and> g' = c)"

lemma commit_of_valid: "commit_of out label invalid = Inr c \<Longrightarrow> valid_object_id c"
  by (auto simp: commit_of_def split: sum.splits if_splits)

lemma given_with: "(\<And>a. r = Inr a \<Longrightarrow> A a) \<Longrightarrow> calm_with g A (given r)"
  by (auto simp: given_def intro: extends_reject extends_accept split: sum.split)

lemma calm_with_proceed:
  "calm_with g A m \<Longrightarrow> (\<And>a. A a \<Longrightarrow> calm_with g B (f a)) \<Longrightarrow> calm_with g B (proceed m f)"
  by (rule extends_proceed [where A = "\<lambda>a l. l = [] \<and> A a"]) auto

lemma calm_with_after: "calm_branch g m \<Longrightarrow> (\<And>a. calm_with g B (f a)) \<Longrightarrow> calm_with g B (proceed m f)"
  by (rule extends_proceed [where A = "\<lambda>_ l. l = []"]) auto

lemma calm_with_accept: "B a \<Longrightarrow> calm_with g B (accept a)"
  by (simp add: extends_accept)

lemma given_commit: "calm_with g valid_object_id (given (commit_of out label invalid))"
  by (rule given_with) (rule commit_of_valid)

lemma batch_commit_valid: "calm_with g valid_object_id (batch_commit W green primary proof)"
  unfolding batch_commit_def
  by (rule calm_with_after calm_insisting calm_direct calm_on_tree calm_with_proceed [OF given_commit]
      calm_with_accept | assumption)+

lemma squash_commit_valid: "calm_with g (\<lambda>ct. valid_object_id (fst ct)) (squash_commit W latest)"
  unfolding squash_commit_def
  by (rule calm_with_after calm_insisting calm_direct calm_on_tree calm_ancestry
      calm_with_proceed [OF given_commit] calm_ends(3) calm_with_accept | simp)+

lemma still_nothing: "still g []"
  by (simp add: still_def)

lemma accept_outcome: "fst (accept a s) = Inr a"
  by (simp add: accept_def)

lemma commit_batch_steps: "steps g (batch_outcome g) (ws_commit_batch W primary proof)"
proof -
  have "steps g (batch_outcome g)
    (proceed (batch_commit W g primary proof) (\<lambda>commit.
     proceed (advance_batch W g proof commit) (\<lambda>_. proceed (set_green commit) (\<lambda>_. accept commit))))"
    by (rule steps_after [OF batch_commit_valid], rule steps_moved [OF advance_batch_moves calm_ends(1)])
      (auto simp: batch_outcome_def still_nothing accept_outcome)
  then show ?thesis
    unfolding ws_commit_batch_def
    by (auto simp: batch_outcome_def still_nothing split: option.split
        intro!: steps_ends steps_get_green steps_after [OF calm_any [OF calm_on_tree]])
qed

definition squash_outcome :: "'w worktree \<Rightarrow> gostring \<Rightarrow> (message, gostring) res \<Rightarrow> ref_event list \<Rightarrow> gostring \<Rightarrow> bool" where
  "squash_outcome W g r l g' \<longleftrightarrow>
     (if g = wtOriginalHead W then l = [] \<and> g' = g \<and> (\<forall>c. r = Inr c \<longrightarrow> c = []) else batch_outcome g r l g')"

lemma squash_steps: "steps g (squash_outcome W g) (ws_squash W)"
proof (cases "g = wtOriginalHead W")
  case True
  have "steps g (squash_outcome W g)
    (proceed (insisting (wtContextError W) []) (\<lambda>_. proceed get_green (\<lambda>latest. if latest = wtOriginalHead W then accept [] else f latest)))" for f
    by (rule steps_after [OF calm_any [OF calm_insisting]], rule steps_get_green)
      (auto simp: True squash_outcome_def intro!: steps_ends)
  then show ?thesis by (simp add: ws_squash_def)
next
  case False
  have "steps g (batch_outcome g) (proceed (squash_commit W g) (\<lambda>(commit, tree).
      proceed (advance_squash W g commit tree) (\<lambda>_. proceed (set_green commit) (\<lambda>_. accept commit))))"
  proof (rule steps_after [OF squash_commit_valid])
    fix ct :: "gostring \<times> gostring" assume "valid_object_id (fst ct)"
    then show "steps g (batch_outcome g) (case ct of (commit, tree) \<Rightarrow>
        proceed (advance_squash W g commit tree) (\<lambda>_. proceed (set_green commit) (\<lambda>_. accept commit)))"
      by (cases ct) (auto simp: batch_outcome_def accept_outcome intro!: steps_moved [OF advance_squash_moves calm_ends(1)])
  qed (simp add: batch_outcome_def still_nothing)
  with False have "steps g (batch_outcome g) (ws_squash W)"
    unfolding ws_squash_def
    by (auto simp: batch_outcome_def still_nothing intro!: steps_get_green steps_after [OF calm_any [OF calm_insisting]])
  then show ?thesis by (rule steps_mono) (simp add: squash_outcome_def False)
qed

definition rollback_outcome :: "gostring \<Rightarrow> gostring \<Rightarrow> (message, unit) res \<Rightarrow> ref_event list \<Rightarrow> gostring \<Rightarrow> bool" where
  "rollback_outcome g commit r l g' \<longleftrightarrow>
     commit = g \<and> l = [EvAdvance g' g True] \<or> (\<exists>e. r = Inl e) \<and> still g l \<and> g' = g"

lemma proceed_update:
  "proceed m (\<lambda>e. case e of Some x \<Rightarrow> reject y | None \<Rightarrow> k) =
   proceed (proceed m (\<lambda>e. case e of Some x \<Rightarrow> reject y | None \<Rightarrow> accept ())) (\<lambda>_. k)"
  by (rule ext) (auto simp: proceed_def reject_def accept_def split: prod.split sum.split option.split)

lemma update_moves:
  "moves g (\<lambda>_. still g) (\<lambda>_ l. l = [EvAdvance c g True])
     (proceed (updating f (EvAdvance c g)) (\<lambda>e. case e of Some x \<Rightarrow> reject y | None \<Rightarrow> accept ()))"
  by (rule extends_proceed [OF updating_moves])
    (auto simp: still_def intro: extends_reject extends_accept split: option.split)

lemma steps_updated:
  assumes "calm_branch c k" "\<And>e l. still g l \<Longrightarrow> R (Inl e) l g" "\<And>s. R (fst (k s)) [EvAdvance c g True] c"
  shows "steps g R (proceed (updating f (EvAdvance c g)) (\<lambda>e. case e of Some x \<Rightarrow> reject y
    | None \<Rightarrow> proceed (set_green c) (\<lambda>_. k)))"
  by (subst proceed_update, rule steps_moved [OF update_moves]) (use assms in simp_all)

lemma rollback_steps: "steps g (rollback_outcome g commit) (ws_rollback_batch W commit)"
  unfolding ws_rollback_batch_def
  by (auto simp: rollback_outcome_def still_nothing
      intro!: steps_get_green steps_ends steps_after [OF calm_any [OF calm_direct]] steps_after [OF calm_any [OF calm_on_tree]]
        steps_after [OF calm_any [OF calm_ends(3)]] steps_updated calm_insisting)

subsection \<open>Any operations in any order\<close>

datatype branch_op = OpCommit gostring batch_proof | OpRollback gostring | OpSquash

fun after_op :: "'w worktree \<Rightarrow> branch_op \<Rightarrow> 'w run_branch \<Rightarrow> 'w run_branch" where
  "after_op W (OpCommit primary evidence) s = snd (ws_commit_batch W primary evidence s)"
| "after_op W (OpRollback commit) s = snd (ws_rollback_batch W commit s)"
| "after_op W OpSquash s = snd (ws_squash W s)"

definition after_ops :: "'w worktree \<Rightarrow> branch_op list \<Rightarrow> 'w run_branch \<Rightarrow> 'w run_branch" where
  "after_ops W ops s = fold (after_op W) ops s"

text \<open>The value the updates that worked left in the reference, and a history in which each update starts there.\<close>

fun branch_tip :: "gostring \<Rightarrow> ref_event list \<Rightarrow> gostring" where
  "branch_tip g [] = g"
| "branch_tip g (EvAdvance new old ok # l) = (if ok then new else branch_tip g l)"
| "branch_tip g (EvRestore new old ok # l) = (if ok then new else branch_tip g l)"

fun chained :: "gostring \<Rightarrow> ref_event list \<Rightarrow> bool" where
  "chained g [] \<longleftrightarrow> True"
| "chained g (EvAdvance new old ok # l) \<longleftrightarrow> old = branch_tip g l \<and> chained g l"
| "chained g (EvRestore new old ok # l) \<longleftrightarrow> (\<exists>moved l'. l = EvAdvance old new moved # l') \<and> chained g l"

definition restored :: "ref_event list \<Rightarrow> bool" where
  "restored l \<longleftrightarrow> list_all (\<lambda>e. case e of EvRestore new old ok \<Rightarrow> ok | EvAdvance new old ok \<Rightarrow> True) l"

definition tracking :: "gostring \<Rightarrow> 'w run_branch \<Rightarrow> bool" where
  "tracking g s \<longleftrightarrow> (restored (rbLog s) \<longrightarrow> branch_tip g (rbLog s) = rbGreen s \<and> chained g (rbLog s))"

definition stepped :: "gostring \<Rightarrow> ref_event list \<Rightarrow> gostring \<Rightarrow> bool" where
  "stepped g l g' \<longleftrightarrow> still g l \<and> g' = g \<or> l = [EvAdvance g' g True]"

lemma after_op_stepped:
  obtains l where "rbLog (after_op W op s) = l @ rbLog s" "stepped (rbGreen s) l (rbGreen (after_op W op s))"
proof (cases op)
  case (OpCommit primary evidence)
  from stepsD [OF commit_batch_steps [of _ W primary evidence] refl surjective_pairing, of s] obtain l
    where "rbLog (snd (ws_commit_batch W primary evidence s)) = l @ rbLog s"
      "batch_outcome (rbGreen s) (fst (ws_commit_batch W primary evidence s)) l
         (rbGreen (snd (ws_commit_batch W primary evidence s)))" .
  with OpCommit that [of l] show ?thesis by (auto simp: batch_outcome_def stepped_def split: sum.splits)
next
  case (OpRollback commit)
  from stepsD [OF rollback_steps [of _ commit W] refl surjective_pairing, of s] obtain l
    where "rbLog (snd (ws_rollback_batch W commit s)) = l @ rbLog s"
      "rollback_outcome (rbGreen s) commit (fst (ws_rollback_batch W commit s)) l
         (rbGreen (snd (ws_rollback_batch W commit s)))" .
  with OpRollback that [of l] show ?thesis by (auto simp: rollback_outcome_def stepped_def)
next
  case OpSquash
  from stepsD [OF squash_steps [of _ W] refl surjective_pairing, of s] obtain l
    where "rbLog (snd (ws_squash W s)) = l @ rbLog s"
      "squash_outcome W (rbGreen s) (fst (ws_squash W s)) l (rbGreen (snd (ws_squash W s)))" .
  with OpSquash that [of l] show ?thesis
    by (auto simp: squash_outcome_def batch_outcome_def stepped_def still_nothing split: sum.splits if_splits)
qed

lemma tracking_step: "tracking g s \<Longrightarrow> tracking g (after_op W op s)"
  by (rule after_op_stepped [of W op s])
    (auto simp: tracking_def stepped_def still_def restored_def)

lemma tracking_ops: "tracking g s \<Longrightarrow> tracking g (after_ops W ops s)"
  unfolding after_ops_def by (induction ops arbitrary: s) (simp_all add: tracking_step)

text \<open>
  C10: However batches are committed, rolled back and squashed, and wherever one of these operations fails, the updates
  of the run branch that worked leave it at the latest green commit, each one started from the green commit of its
  time, and a move is only taken back by the operation that made it, provided no restoration of the branch failed.
\<close>

theorem run_branch_tracks_green:
  assumes "after_ops W ops \<lparr>rbWorld = w, rbGreen = g, rbLog = []\<rparr> = s" "restored (rbLog s)"
  shows "branch_tip g (rbLog s) = rbGreen s \<and> chained g (rbLog s)"
  using tracking_ops [of g "\<lparr>rbWorld = w, rbGreen = g, rbLog = []\<rparr>" W ops] assms
  by (auto simp: tracking_def)

theorem run_branch_tracks_green_witness:
  "branch_tip original_id [EvAdvance squash_id batch_commit_id True, EvAdvance batch_commit_id original_id True,
       EvAdvance original_id batch_commit_id True, EvAdvance batch_commit_id original_id True] = squash_id \<and>
   chained original_id [EvAdvance squash_id batch_commit_id True, EvAdvance batch_commit_id original_id True,
       EvAdvance original_id batch_commit_id True, EvAdvance batch_commit_id original_id True]"
proof -
  have run: "after_ops sample_tree [OpCommit ''main.go'' sample_proof, OpRollback batch_commit_id,
      OpCommit ''main.go'' sample_proof, OpSquash] \<lparr>rbWorld = original_id, rbGreen = original_id, rbLog = []\<rparr> =
    at_branch squash_id [EvAdvance squash_id batch_commit_id True, EvAdvance batch_commit_id original_id True,
       EvAdvance original_id batch_commit_id True, EvAdvance batch_commit_id original_id True]"
    using sample_commit sample_rollback sample_squashed by (simp add: after_ops_def at_branch_def)
  show ?thesis using run_branch_tracks_green [OF run] by (simp add: at_branch_def restored_def)
qed

subsection \<open>The commit object of the squash\<close>

text \<open>Whether a text has two line ends in a row.\<close>

fun has_blank :: "gostring \<Rightarrow> bool" where
  "has_blank (c # d # rest) \<longleftrightarrow> c = lf \<and> d = lf \<or> has_blank (d # rest)"
| "has_blank s \<longleftrightarrow> False"

lemma has_blank_Cons: "has_blank (c # s) \<longleftrightarrow> (c = lf \<and> s \<noteq> [] \<and> hd s = lf) \<or> has_blank s"
  by (cases s) auto

lemma cut_blank_exact: "cut_blank s = Some (a, b) \<longleftrightarrow> s = a @ [lf, lf] @ b \<and> \<not> has_blank (a @ [lf])"
proof (induction s arbitrary: a rule: cut_blank.induct)
  case (1 c d rest)
  show ?case
  proof (cases "c = lf \<and> d = lf")
    case True
    then show ?thesis by (cases a; cases "tl a") (auto simp: has_blank_Cons hd_append)
  next
    case False
    show ?thesis
    proof (cases a)
      case Nil
      with False show ?thesis by (auto split: option.split)
    next
      case (Cons x a')
      have "cut_blank (c # d # rest) = Some (a, b) \<longleftrightarrow> x = c \<and> cut_blank (d # rest) = Some (a', b)"
        using False Cons by (auto split: option.split)
      also have "\<dots> \<longleftrightarrow> x = c \<and> d # rest = a' @ [lf, lf] @ b \<and> \<not> has_blank (a' @ [lf])"
        using 1 [OF False] by blast
      also have "\<dots> \<longleftrightarrow> c # d # rest = a @ [lf, lf] @ b \<and> \<not> has_blank (a @ [lf])"
        using False Cons by (cases a') auto
      finally show ?thesis .
    qed
  qed
qed auto

definition line_ok :: "'w worktree \<Rightarrow> gostring \<Rightarrow> gostring \<Rightarrow> bool" where
  "line_ok W tree line \<longleftrightarrow>
     (has_prefix line ''tree '' \<longrightarrow> line = ''tree '' @ tree) \<and>
     (has_prefix line ''parent '' \<longrightarrow> line = ''parent '' @ wtOriginalHead W) \<and>
     (has_prefix line ''author '' \<longrightarrow> has_prefix line (signed_by ''author'' W)) \<and>
     (has_prefix line ''committer '' \<longrightarrow> has_prefix line (signed_by ''committer'' W))"

definition lines_with :: "gostring \<Rightarrow> gostring list \<Rightarrow> gostring list" where
  "lines_with p ls = filter (\<lambda>l. has_prefix l p) ls"

lemma prefix_heads: "has_prefix s (c # p) \<Longrightarrow> has_prefix s (d # q) \<Longrightarrow> c = d"
  by (cases s) (auto simp: has_prefix_def)

lemma prefix_shorter: "has_prefix s (p @ q) \<Longrightarrow> has_prefix s p"
  unfolding has_prefix_def by (metis append_eq_conv_conj append_assoc append_take_drop_id)

lemma signed_prefix: "has_prefix s (signed_by role W) \<Longrightarrow> has_prefix s (role @ '' '')"
  unfolding signed_by_def by (rule prefix_shorter [where q = "wtName W @ '' <'' @ wtEmail W @ ''> ''"]) simp

lemma header_choice:
  assumes "T' \<Longrightarrow> T" "P' \<Longrightarrow> P" "A' \<Longrightarrow> A" "C' \<Longrightarrow> C"
    "\<not> (T \<and> P)" "\<not> (T \<and> A)" "\<not> (T \<and> C)" "\<not> (P \<and> A)" "\<not> (P \<and> C)" "\<not> (A \<and> C)"
  shows "(if T' then Inr (c\<lparr>hcTrees := Suc (hcTrees c)\<rparr>) else if T then Inl e1
      else if P' then Inr (c\<lparr>hcParents := Suc (hcParents c)\<rparr>) else if P then Inl e2
      else if A' then Inr (c\<lparr>hcAuthors := Suc (hcAuthors c)\<rparr>) else if A then Inl e3
      else if C' then Inr (c\<lparr>hcCommitters := Suc (hcCommitters c)\<rparr>) else if C then Inl e4 else Inr c) = Inr c' \<longleftrightarrow>
    ((T \<longrightarrow> T') \<and> (P \<longrightarrow> P') \<and> (A \<longrightarrow> A') \<and> (C \<longrightarrow> C')) \<and>
     c' = \<lparr>hcTrees = hcTrees c + of_bool T, hcParents = hcParents c + of_bool P,
           hcAuthors = hcAuthors c + of_bool A, hcCommitters = hcCommitters c + of_bool C\<rparr>"
  using assms by (cases c; cases c') (auto split: if_split)

lemma header_line_exact:
  "header_line W tree l c = Inr c' \<longleftrightarrow> line_ok W tree l \<and>
     c' = \<lparr>hcTrees = hcTrees c + of_bool (has_prefix l ''tree ''), hcParents = hcParents c + of_bool (has_prefix l ''parent ''),
           hcAuthors = hcAuthors c + of_bool (has_prefix l ''author ''),
           hcCommitters = hcCommitters c + of_bool (has_prefix l ''committer '')\<rparr>"
proof -
  let ?t = "has_prefix l ''tree ''" and ?p = "has_prefix l ''parent ''" and ?a = "has_prefix l ''author ''"
    and ?c = "has_prefix l ''committer ''"
  have apart: "\<not> (?t \<and> ?p)" "\<not> (?t \<and> ?a)" "\<not> (?t \<and> ?c)" "\<not> (?p \<and> ?a)" "\<not> (?p \<and> ?c)" "\<not> (?a \<and> ?c)"
    by (auto dest: prefix_heads)
  have t: "?t" if "l = ''tree '' @ tree" unfolding that by (rule has_prefix_append)
  have p: "?p" if "l = ''parent '' @ wtOriginalHead W" unfolding that by (rule has_prefix_append)
  have a: "?a" if "has_prefix l (signed_by ''author'' W)" using signed_prefix [OF that] by simp
  have c: "?c" if "has_prefix l (signed_by ''committer'' W)" using signed_prefix [OF that] by simp
  show ?thesis
    unfolding header_line_def line_ok_def by (rule header_choice [OF t p a c apart])
qed

lemma header_lines_exact:
  "header_lines W tree ls c = Inr c' \<longleftrightarrow> list_all (line_ok W tree) ls \<and>
     c' = \<lparr>hcTrees = hcTrees c + length (lines_with ''tree '' ls), hcParents = hcParents c + length (lines_with ''parent '' ls),
           hcAuthors = hcAuthors c + length (lines_with ''author '' ls),
           hcCommitters = hcCommitters c + length (lines_with ''committer '' ls)\<rparr>"
proof (induction ls arbitrary: c)
  case Nil
  then show ?case by (cases c) (auto simp: lines_with_def)
next
  case (Cons l ls)
  have "header_lines W tree (l # ls) c = Inr c' \<longleftrightarrow>
      (\<exists>d. header_line W tree l c = Inr d \<and> header_lines W tree ls d = Inr c')"
    by (auto split: sum.split)
  then show ?case by (auto simp: header_line_exact Cons.IH lines_with_def)
qed

lemma only_line: "length (lines_with p ls) = 1 \<longleftrightarrow> (\<exists>l. lines_with p ls = [l])"
  by (cases "lines_with p ls") auto

lemma all_lines_ok:
  "list_all (line_ok W tree) ls \<longleftrightarrow>
     list_all (\<lambda>l. l = ''tree '' @ tree) (lines_with ''tree '' ls) \<and>
     list_all (\<lambda>l. l = ''parent '' @ wtOriginalHead W) (lines_with ''parent '' ls) \<and>
     list_all (\<lambda>l. has_prefix l (signed_by ''author'' W)) (lines_with ''author '' ls) \<and>
     list_all (\<lambda>l. has_prefix l (signed_by ''committer'' W)) (lines_with ''committer '' ls)"
  unfolding line_ok_def lines_with_def list_all_iff by auto

text \<open>
  The check of a squash accepts a commit object exactly when its body is the fixed subject and its header, up to
  the first empty line, has one tree, one parent, one author and one committer line: the validated tree, the
  original head and the identity of the run.
\<close>

theorem squash_object_exact:
  "squash_object W tree raw = None \<longleftrightarrow>
     (\<exists>header author committer.
        raw = header @ [lf, lf] @ squash_subject @ [lf] \<and> \<not> has_blank (header @ [lf]) \<and>
        lines_with ''tree '' (split_on lf header) = [''tree '' @ tree] \<and>
        lines_with ''parent '' (split_on lf header) = [''parent '' @ wtOriginalHead W] \<and>
        lines_with ''author '' (split_on lf header) = [author] \<and> has_prefix author (signed_by ''author'' W) \<and>
        lines_with ''committer '' (split_on lf header) = [committer] \<and> has_prefix committer (signed_by ''committer'' W))"
proof -
  let ?zero = "\<lparr>hcTrees = 0, hcParents = 0, hcAuthors = 0, hcCommitters = 0\<rparr>"
  have "squash_object W tree raw = None \<longleftrightarrow>
      (\<exists>header c. cut_blank raw = Some (header, squash_subject @ [lf]) \<and>
         header_lines W tree (split_on lf header) ?zero = Inr c \<and>
         hcTrees c = 1 \<and> hcParents c = 1 \<and> hcAuthors c = 1 \<and> hcCommitters c = 1)"
    unfolding squash_object_def by (auto split: option.split sum.split)
  also have "\<dots> \<longleftrightarrow> (\<exists>header. cut_blank raw = Some (header, squash_subject @ [lf]) \<and>
      list_all (line_ok W tree) (split_on lf header) \<and>
      length (lines_with ''tree '' (split_on lf header)) = 1 \<and> length (lines_with ''parent '' (split_on lf header)) = 1 \<and>
      length (lines_with ''author '' (split_on lf header)) = 1 \<and> length (lines_with ''committer '' (split_on lf header)) = 1)"
    unfolding header_lines_exact by auto
  finally show ?thesis
    unfolding cut_blank_exact only_line all_lines_ok by auto
qed

subsection \<open>One batch\<close>

text \<open>
  A batch that is committed moved the run branch once, from the green commit to the commit that is returned, which
  is the green commit afterwards; a batch that is refused has left the green commit, after no move, after a move
  that failed, or after a move that it took back.
\<close>

theorem batch_commit_moves_once:
  "\<exists>l. rbLog (snd (ws_commit_batch W primary evidence s)) = l @ rbLog s \<and>
     batch_outcome (rbGreen s) (fst (ws_commit_batch W primary evidence s)) l
       (rbGreen (snd (ws_commit_batch W primary evidence s)))"
  by (rule stepsD [OF commit_batch_steps refl surjective_pairing]) blast

end
