(* ===== verification/CleanupFacts.thy ===== *)
theory CleanupFacts
  imports SampleTree Histories
begin

text \<open>
  However often the cleanup of a worktree is tried, and with whatever dispositions, it deletes the run branch only
  when no validated commit would be lost, and a cleanup that succeeds has seen the branch gone or in place.
\<close>

subsection \<open>Progress\<close>

text \<open>A condition on the progress of the cleanup does not read the world.\<close>

definition worldless :: "(('w, 'q) cleaning \<Rightarrow> bool) \<Rightarrow> bool" where
  "worldless P \<longleftrightarrow> (\<forall>s w. P (s\<lparr>clWorld := w\<rparr>) = P s)"

lemma holds_outside: "worldless P \<Longrightarrow> holds P E (\<lambda>_. P) (outside f)"
  by (auto simp: holds_def outside_def asking_def worldless_def split: prod.splits)

lemma holds_demand: "worldless P \<Longrightarrow> (\<And>e s. P s \<Longrightarrow> E e s) \<Longrightarrow> holds P E (\<lambda>_. P) (demand f label)"
  unfolding demand_def
  by (rule holds_proceed [OF holds_outside]) (auto split: option.split intro!: triples)

lemma holds_marking: "(\<And>s. P s \<Longrightarrow> Q () (f s)) \<Longrightarrow> holds P E Q (marking f)"
  by (auto simp: holds_def marking_def asking_def)

lemma holds_current: "holds P E (\<lambda>a s. P s \<and> f s = a) (current f)"
  by (auto simp: holds_def current_def asking_def)

subsection \<open>What is deleted\<close>

definition expendable :: "('w, 'q) cleaner \<Rightarrow> cleanup_disposition option \<Rightarrow> bool" where
  "expendable C d \<longleftrightarrow> d = Some CleanupLanded \<and> cnLandingComplete C
     \<or> d = Some CleanupPreserveValidated \<and> cnGreen C = wtOriginalHead (cnTree C)"

definition safe_deletes :: "('w, 'q) cleaner \<Rightarrow> ('w, 'q) cleaning \<Rightarrow> bool" where
  "safe_deletes C s \<longleftrightarrow> list_all (\<lambda>d. d = (run_ref (cnTree C), cnGreen C)) (clDeletes s) \<and>
     (clDeletes s = [] \<or> clWorktreeRemoved s \<and> expendable C (clDisposition s))"

text \<open>The same while a cleanup with a disposition is under way.\<close>

definition underway :: "('w, 'q) cleaner \<Rightarrow> cleanup_disposition \<Rightarrow> ('w, 'q) cleaning \<Rightarrow> bool" where
  "underway C d s \<longleftrightarrow> safe_deletes C s \<and> clDisposition s = Some d"

abbreviation settled :: "('w, 'q) cleaner \<Rightarrow> cleanup_disposition \<Rightarrow> ('w, 'q) cleaning \<Rightarrow> bool" where
  "settled C d s \<equiv> underway C d s \<and> clWorktreeRemoved s"

lemma worldless_progress [simp]:
  "worldless (safe_deletes C)" "worldless (underway C d)" "worldless (settled C d)"
  "worldless P \<Longrightarrow> worldless (\<lambda>s. P s \<and> clRefDeleted s = b)"
  by (simp_all add: worldless_def underway_def safe_deletes_def)

lemma underway_safe: "underway C d s \<Longrightarrow> safe_deletes C s"
  by (simp add: underway_def)

lemma settled_safe: "settled C d s \<Longrightarrow> safe_deletes C s"
  by (simp add: underway_def)

lemma holds_forget: "holds P E (\<lambda>a s. P s \<and> f s = a) m \<Longrightarrow> holds P E (\<lambda>_. P) m"
  by (erule holds_weaken) auto

lemmas then_demand = then_same [OF holds_demand]
lemmas then_outside = then_same [OF holds_outside]
lemmas then_current = then_same [OF holds_forget [OF holds_current]]

lemma marking_underway:
  "(\<And>s. clDisposition (f s) = clDisposition s) \<Longrightarrow> (\<And>s. clDeletes (f s) = clDeletes s) \<Longrightarrow>
   (\<And>s. clWorktreeRemoved s \<Longrightarrow> clWorktreeRemoved (f s)) \<Longrightarrow> holds (underway C d) E (\<lambda>_. underway C d) (marking f)"
  "(\<And>s. clDisposition (f s) = clDisposition s) \<Longrightarrow> (\<And>s. clDeletes (f s) = clDeletes s) \<Longrightarrow>
   (\<And>s. clWorktreeRemoved s \<Longrightarrow> clWorktreeRemoved (f s)) \<Longrightarrow> holds (settled C d) E (\<lambda>_. settled C d) (marking f)"
  by (auto intro!: holds_marking simp: underway_def safe_deletes_def)

lemmas underway_steps = then_demand then_outside then_current then_same [OF marking_underway(1)]
  holds_choice holds_demand marking_underway holds_accept holds_reject

lemma quarantine_underway:
  "holds (underway C d) (\<lambda>_. safe_deletes C) (\<lambda>_. underway C d) (quarantine_worktree C d')"
  unfolding quarantine_worktree_def
  by (rule then_same, (rule underway_steps | erule underway_safe settled_safe | simp)+)

lemma unregister_underway:
  "holds (underway C d) (\<lambda>_. safe_deletes C) (\<lambda>_. underway C d) (unregister_worktree C)"
  unfolding unregister_worktree_def by (rule underway_steps | erule underway_safe settled_safe | simp)+

lemma discard_underway:
  "holds (underway C d) (\<lambda>_. safe_deletes C) (\<lambda>_. underway C d) (discard_quarantine C)"
  unfolding discard_quarantine_def by (rule underway_steps | erule underway_safe settled_safe | simp)+

lemma removal_settled:
  "holds (underway C d) (\<lambda>_. safe_deletes C) (\<lambda>_. settled C d) (remove_worktree C d')"
  unfolding remove_worktree_def
  apply (rule holds_proceed [OF holds_forget [OF holds_current]])
  apply (rule holds_proceed [where Q = "\<lambda>_. underway C d"])
  subgoal by (auto intro: quarantine_underway triples)
  apply (rule holds_proceed [OF holds_forget [OF holds_current]])
  apply (rule holds_proceed [where Q = "\<lambda>_. underway C d"])
  subgoal by (auto intro: unregister_underway triples)
  apply (rule holds_proceed [OF discard_underway])
  apply (rule holds_proceed [OF holds_demand])
    apply (simp_all add: underway_safe)
  apply (rule holds_proceed [where Q = "\<lambda>_. settled C d"])
  subgoal by (rule holds_marking) (auto simp: underway_def safe_deletes_def)
  by (auto intro!: triples holds_demand split: option.split simp: underway_safe)

lemma deleting_settled:
  "expendable C (Some d) \<Longrightarrow> holds (settled C d) (\<lambda>_. safe_deletes C) (\<lambda>_. settled C d) (deleting C)"
  by (auto simp: holds_def deleting_def asking_def underway_def safe_deletes_def split: prod.splits)

lemma delete_settled:
  "expendable C (Some d) \<Longrightarrow> holds (settled C d) (\<lambda>_. safe_deletes C) (\<lambda>_. settled C d) (delete_run_branch C)"
  unfolding delete_run_branch_def
  by (rule then_same [OF deleting_settled] underway_steps | erule underway_safe settled_safe | simp)+

lemma settling_keeps:
  assumes "d = CleanupLanded \<and> cnLandingComplete C \<or> d = CleanupPreserveValidated"
  shows "holds (settled C d) (\<lambda>_. safe_deletes C) (\<lambda>_. settled C d) (settle_run_branch C d)"
proof (cases "d = CleanupPreserveValidated \<and> cnGreen C \<noteq> wtOriginalHead (cnTree C)")
  case True
  then show ?thesis unfolding settle_run_branch_def by simp (rule underway_steps | erule underway_safe settled_safe | simp)+
next
  case False
  with assms have "expendable C (Some d)" by (auto simp: expendable_def)
  note deletion = delete_settled [OF this]
  show ?thesis unfolding settle_run_branch_def if_not_P [OF False]
    by (rule deletion underway_steps | erule underway_safe settled_safe | simp)+
qed

text \<open>The disposition is that of the first attempt; only then may the state be called under way.\<close>

lemma cleanup_safe: "holds (safe_deletes C) (\<lambda>_. safe_deletes C) (\<lambda>_. settled C d) (cleanup C d)"
proof (cases "d = CleanupLanded \<and> cnLandingComplete C \<or> d = CleanupPreserveValidated")
  case False
  then show ?thesis unfolding cleanup_def by (auto intro!: triples)
next
  case True
  have run: "holds (underway C d) (\<lambda>_. safe_deletes C) (\<lambda>_. settled C d)
      (proceed (current clWorktreeRemoved) (\<lambda>removed.
        proceed (if removed then demand (verify_worktree_removed C) (\<lambda>m. m) else remove_worktree C d) (\<lambda>_.
        settle_run_branch C d)))"
    apply (rule holds_proceed [OF holds_current])
    apply (rule holds_proceed [OF _ settling_keeps [OF True]])
    subgoal for removed
      by (cases removed)
        (auto intro!: holds_weaken [OF removal_settled [of C d d]]
          holds_weaken [OF holds_demand [of "settled C d" "\<lambda>_. safe_deletes C"]] simp: underway_safe)
    done
  have start: "holds (\<lambda>s. safe_deletes C s \<and> clDisposition s = e) (\<lambda>_. safe_deletes C) (\<lambda>_. underway C d)
      (marking (clDisposition_update (\<lambda>_. Some d)))" if "e = None \<or> e = Some d" for e
    using that by (auto intro!: holds_marking simp: underway_def safe_deletes_def expendable_def)
  note first = holds_proceed [OF start run]
  have next_step: "holds (\<lambda>s. safe_deletes C s \<and> clDisposition s = e) (\<lambda>_. safe_deletes C) (\<lambda>_. settled C d)
      (if e \<noteq> None \<and> e \<noteq> Some d then reject m else proceed (marking (clDisposition_update (\<lambda>_. Some d))) (\<lambda>_.
        proceed (current clWorktreeRemoved) (\<lambda>removed.
        proceed (if removed then demand (verify_worktree_removed C) (\<lambda>m. m) else remove_worktree C d) (\<lambda>_.
        settle_run_branch C d))))" for e m
    by (rule holds_choice(1), rule holds_reject, simp, rule first) auto
  from True have "\<not> (d \<noteq> CleanupLanded \<and> d \<noteq> CleanupPreserveValidated)" "\<not> (d = CleanupLanded \<and> \<not> cnLandingComplete C)"
    by auto
  then show ?thesis
    unfolding cleanup_def if_not_P by (simp only: if_False, intro holds_proceed [OF holds_current] next_step)
qed

subsection \<open>Attempts\<close>

definition cleanup_attempts :: "('w, 'q) cleaner \<Rightarrow> cleanup_disposition list \<Rightarrow> ('w, 'q) cleaning \<Rightarrow> ('w, 'q) cleaning" where
  "cleanup_attempts C ds s = fold (\<lambda>d s. snd (cleanup C d s)) ds s"

lemma safe_attempts: "safe_deletes C s \<Longrightarrow> safe_deletes C (cleanup_attempts C ds s)"
  unfolding cleanup_attempts_def
proof (induction ds arbitrary: s)
  case (Cons d ds)
  from holdsD [OF cleanup_safe [of C d] Cons.prems, of "fst (cleanup C d s)" "snd (cleanup C d s)"]
  have "safe_deletes C (snd (cleanup C d s))" by (simp add: underway_def split: sum.splits)
  with Cons.IH show ?case by simp
qed simp


subsection \<open>Success\<close>

lemma settled_accepts:
  assumes "settle_run_branch C d s = (Inr (), s')"
  shows "\<exists>w ref. cleanup_ref C w = (ref, clWorld s') \<and>
     (if d = CleanupPreserveValidated \<and> cnGreen C \<noteq> wtOriginalHead (cnTree C)
      then is_green_ref C ref \<and> clPreserved s' else ref = Inr no_ref \<and> clRefDeleted s')"
  using assms unfolding settle_run_branch_def delete_run_branch_def
  by (auto simp: fallible_accepts outside_def marking_def current_def asking_def split: if_splits prod.splits) blast+

text \<open>
  A cleanup that succeeds, at any attempt, has removed the worktree, and the last thing it looked at was the run
  branch: still direct and at the green commit when validated work has to stay reachable, and gone otherwise.
\<close>

theorem cleanup_success_settles:
  assumes "cleanup C d (cleanup_attempts C ds (fresh_cleaning w)) = (Inr (), s)"
  shows "clWorktreeRemoved s" "clDisposition s = Some d"
    "\<exists>w ref. cleanup_ref C w = (ref, clWorld s) \<and>
       (if d = CleanupPreserveValidated \<and> cnGreen C \<noteq> wtOriginalHead (cnTree C)
        then is_green_ref C ref \<and> clPreserved s else ref = Inr no_ref \<and> clRefDeleted s)"
proof -
  have "safe_deletes C (cleanup_attempts C ds (fresh_cleaning w))"
    by (rule safe_attempts) (simp add: safe_deletes_def fresh_cleaning_def)
  from holdsD [OF cleanup_safe this assms] show "clWorktreeRemoved s" "clDisposition s = Some d"
    by (simp_all add: underway_def)
  from assms obtain s1 where "settle_run_branch C d s1 = (Inr (), s)"
    unfolding cleanup_def by (auto simp: proceed_accepts split: if_splits)
  then show "\<exists>w ref. cleanup_ref C w = (ref, clWorld s) \<and>
       (if d = CleanupPreserveValidated \<and> cnGreen C \<noteq> wtOriginalHead (cnTree C)
        then is_green_ref C ref \<and> clPreserved s else ref = Inr no_ref \<and> clRefDeleted s)"
    by (rule settled_accepts)
qed

theorem cleanup_success_settles_witness:
  "\<exists>s. cleanup sample_cleaner CleanupLanded (fresh_cleaning squash_id) = (Inr (), s) \<and> clWorktreeRemoved s \<and>
     clRefDeleted s \<and> (\<exists>w. cleanup_ref sample_cleaner w = (Inr no_ref, clWorld s))"
proof -
  have run: "cleanup sample_cleaner CleanupLanded (cleanup_attempts sample_cleaner [] (fresh_cleaning squash_id)) =
     (Inr (), (fresh_cleaning [])\<lparr>clDisposition := Some CleanupLanded, clUnregistered := True, clWorktreeRemoved := True,
        clRefDeleted := True, clDeletes := [(''refs/heads/run'', squash_id)]\<rparr>)"
    by (simp add: cleanup_attempts_def sample_cleanup)
  from cleanup_success_settles [OF run] show ?thesis
    by (auto simp: sample_cleanup)
qed

end
