(* ===== verification/Landing.thy ===== *)
theory Landing
  imports RunBranch
begin

text \<open>
  \<open>internal/flywheel/landing.go\<close>: \<open>Land\<close>, the guarded fast-forward of the feature checkout, with its guards, the
  verification of its result and the authentication of what the hook of the merge reported. The snapshots of files
  and the bound directories are values of a host. \<open>ldMerges\<close> is a history variable: the merges that were launched.
\<close>

subsection \<open>Evidence of the merge\<close>

record exact_file =
  efExists :: bool
  efRegular :: bool
  efBytes :: gostring

definition no_file :: exact_file where
  "no_file = \<lparr>efExists = False, efRegular = False, efBytes = []\<rparr>"

definition tab :: char where "tab = CHR 0x09"

definition evidence_stages :: "gostring list" where
  "evidence_stages = [''preparing'', ''prepared'', ''committed'', ''aborted'']"

text \<open>One line of the report: the state of the feature transaction after it. The errors leave out what \<open>%q\<close> prints.\<close>

definition evidence_line ::
  "gostring \<Rightarrow> gostring \<Rightarrow> gostring \<Rightarrow> gostring \<Rightarrow> nat \<Rightarrow> gostring \<Rightarrow> (message, nat) res" where
  "evidence_line nonce actual squash moving_ref state line =
     (case split_on tab line of
        [n, stage, old, new, ref] \<Rightarrow>
          if n \<noteq> nonce then Inl ''private transaction evidence is malformed or has the wrong nonce''
          else if stage \<notin> set evidence_stages then Inl ''private transaction evidence has unknown stage''
          else if ref \<noteq> moving_ref \<or> stage = ''preparing'' then Inr state
          else if new \<noteq> squash \<or> old \<noteq> actual
          then Inl ''private transaction evidence contains a conflicting feature ref transition''
          else if stage = ''prepared''
          then (if state \<noteq> 0 then Inl ''private feature transaction stage is out of order'' else Inr 1)
          else if stage = ''committed''
          then (if state \<noteq> 1 then Inl ''private feature transaction stage is out of order'' else Inr 2)
          else Inl ''feature ref transaction aborted''
      | _ \<Rightarrow> Inl ''private transaction evidence is malformed or has the wrong nonce'')"

fun evidence_lines ::
  "gostring \<Rightarrow> gostring \<Rightarrow> gostring \<Rightarrow> gostring \<Rightarrow> nat \<Rightarrow> gostring list \<Rightarrow> (message, nat) res" where
  "evidence_lines nonce actual squash moving_ref state [] = Inr state"
| "evidence_lines nonce actual squash moving_ref state (line # lines) =
     (case evidence_line nonce actual squash moving_ref state line of
        Inl e \<Rightarrow> Inl e
      | Inr state \<Rightarrow> evidence_lines nonce actual squash moving_ref state lines)"

text \<open>\<open>authenticateLandingEvidence\<close>: the head the feature branch moved from.\<close>

definition authenticate_landing_evidence ::
  "gostring \<Rightarrow> gostring \<Rightarrow> exact_file \<Rightarrow> gostring \<Rightarrow> gostring \<Rightarrow> (message, gostring) res" where
  "authenticate_landing_evidence nonce transaction orig_head squash moving_ref =
     (if \<not> efExists orig_head \<or> \<not> efRegular orig_head then Inl ''ORIG_HEAD was not recorded as a regular file''
      else (let actual = trim_space (efBytes orig_head) in
        if \<not> valid_object_id actual \<or> contains_any (efBytes orig_head) [CHR '' '', tab, CHR 0x0D]
        then Inl ''ORIG_HEAD is malformed''
        else (case evidence_lines nonce actual squash moving_ref 0 (split_on lf (trim_space transaction)) of
                Inl e \<Rightarrow> Inl e
              | Inr state \<Rightarrow>
                  if state \<noteq> 2 then Inl ''private transaction evidence is missing or duplicated'' else Inr actual)))"

text \<open>The filters the paths of a commit ask for, from the output of \<open>check-attr -z\<close>.\<close>

fun attribute_drivers :: "gostring list \<Rightarrow> (message, gostring list) res" where
  "attribute_drivers (path # attribute # value # rest) =
     (if attribute \<noteq> ''filter'' then Inl ''Git returned an unexpected attribute name''
      else (case attribute_drivers rest of
              Inl e \<Rightarrow> Inl e
            | Inr drivers \<Rightarrow>
                Inr (if value \<in> {''unspecified'', ''unset'', ''set'', []} then drivers else value # drivers)))"
| "attribute_drivers rest = Inr []"

definition parse_attribute_drivers :: "gostring \<Rightarrow> (message, gostring list) res" where
  "parse_attribute_drivers out =
     (let fields = split_on nul_byte out in
      if length fields mod 3 \<noteq> 1 \<or> last fields \<noteq> [] then Inl ''Git returned malformed filter attributes''
      else (case attribute_drivers fields of Inl e \<Rightarrow> Inl e | Inr drivers \<Rightarrow> Inr (sort (remdups drivers))))"

subsection \<open>The host and the state\<close>

datatype landing_status = LandingNotNeeded | LandingComplete | LandingBlocked

record ('w, 's, 'f, 'i, 'e) lander =
  ldTree :: "'w worktree"
  ldGreen :: gostring
  ldFeatureBinding :: "bool \<Rightarrow> 'w \<Rightarrow> message option \<times> 'w"
  ldShared :: "'w \<Rightarrow> (message, 's) res \<times> 'w"
  ldSameShared :: "'s \<Rightarrow> 's \<Rightarrow> bool"
  ldFeature :: "'w \<Rightarrow> (message, 'f) res \<times> 'w"
  ldSameFeature :: "'f \<Rightarrow> 'f \<Rightarrow> bool"
  ldBindGitDir :: "'w \<Rightarrow> message option \<times> 'w"
  ldBindWorkTree :: "'w \<Rightarrow> message option \<times> 'w"
  ldBeforeClose :: "'w \<Rightarrow> message option \<times> 'w"
  ldCloseWorkTree :: "'w \<Rightarrow> message option \<times> 'w"
  ldCloseGitDir :: "'w \<Rightarrow> message option \<times> 'w"
  ldFeatureIndex :: 'i
  ldIndex :: "'w \<Rightarrow> (message, 'i) res \<times> 'w"
  ldSameIndex :: "'i \<Rightarrow> 'i \<Rightarrow> bool"
  ldOrigHead :: "'w \<Rightarrow> (message, exact_file) res \<times> 'w"
  ldCreate :: "'w \<Rightarrow> (message, 'e) res \<times> 'w"
  ldNonce :: "'e \<Rightarrow> gostring"
  ldFinish :: "'e \<Rightarrow> 'w \<Rightarrow> (gostring \<times> message option \<times> message option) \<times> 'w"
  ldCloseEvidence :: "'e \<Rightarrow> 'w \<Rightarrow> message option \<times> 'w"
  ldAttributes :: "gostring \<Rightarrow> 'e \<Rightarrow> 'w \<Rightarrow> (message, gostring) res \<times> 'w"
  ldConfig :: "'e \<Rightarrow> gostring list \<Rightarrow> 'w \<Rightarrow> (message, (gostring \<times> gostring) list) res \<times> 'w"
  ldMerge :: "'e \<Rightarrow> (gostring \<times> gostring) list \<Rightarrow> gostring list \<Rightarrow> 'w \<Rightarrow> message option \<times> 'w"

record 'w landing =
  ldWorld :: 'w
  ldClosed :: bool
  ldComplete :: bool
  ldMerges :: nat

type_synonym landing_answer = "landing_status \<times> message option"
type_synonym ('w, 'a) landing_action = "('w landing, landing_answer, 'a) action"

definition beside :: "('w \<Rightarrow> 'a \<times> 'w) \<Rightarrow> ('w, 'a) landing_action" where
  "beside f = asking (\<lambda>s. case f (ldWorld s) of (a, w) \<Rightarrow> (a, s\<lparr>ldWorld := w\<rparr>))"

definition blocked :: "message \<Rightarrow> ('w, 'a) landing_action" where
  "blocked m = reject (LandingBlocked, Some m)"

definition passing :: "('w \<Rightarrow> message option \<times> 'w) \<Rightarrow> message \<Rightarrow> ('w, unit) landing_action" where
  "passing f label = proceed (beside f) (\<lambda>e. case e of None \<Rightarrow> accept () | Some m \<Rightarrow> blocked (label @ m))"

definition taking :: "('w \<Rightarrow> (message, 'a) res \<times> 'w) \<Rightarrow> (message \<Rightarrow> message) \<Rightarrow> ('w, 'a) landing_action" where
  "taking f label = proceed (beside f) (\<lambda>r. case r of Inl m \<Rightarrow> blocked (label m) | Inr a \<Rightarrow> accept a)"

text \<open>\<open>errors.Join\<close>, and \<open>fmt.Errorf\<close> with \<open>%w\<close> of an error that may be nil.\<close>

definition join_errors :: "message option list \<Rightarrow> message option" where
  "join_errors es = (case filter (\<lambda>e. e \<noteq> None) es of [] \<Rightarrow> None | ms \<Rightarrow> Some (join [lf] (map the ms)))"

definition wrapping :: "message \<Rightarrow> message option \<Rightarrow> message" where
  "wrapping label e = label @ (case e of None \<Rightarrow> ''%!w(<nil>)'' | Some m \<Rightarrow> m)"

subsection \<open>Guards\<close>

definition feature_ref :: "'w worktree \<Rightarrow> gostring" where
  "feature_ref W = ''refs/heads/'' @ wtFeatureBranch W"

definition feature_git :: "'w worktree \<Rightarrow> gostring list \<Rightarrow> gostring list" where
  "feature_git W args = [''--git-dir='' @ wtFeatureGitDir W, ''--work-tree='' @ wtRepositoryRoot W] @ args"

definition feature_status :: "'w worktree \<Rightarrow> 'w \<Rightarrow> (message, gostring) res \<times> 'w" where
  "feature_status W = wtGit W [] (wtRepositoryRoot W)
     (feature_git W [''status'', ''--porcelain=v2'', ''-z'', ''--untracked-files=all'', ''--ignored=matching''])"

text \<open>The feature checkout is on its branch and at a commit; the messages are those of the caller.\<close>

definition feature_at :: "'w worktree \<Rightarrow> gostring \<Rightarrow> message \<Rightarrow> message \<Rightarrow> message \<Rightarrow> ('w, message, unit) action" where
  "feature_at W expected branch_error head_error ref_error =
     proceed (asking (git_path W (wtRepositoryRoot W) (feature_git W [''symbolic-ref'', ''-q'', ''HEAD'']))) (\<lambda>head_ref.
     if head_ref \<noteq> Inr (feature_ref W) then reject branch_error
     else proceed (asking (git_path W (wtRepositoryRoot W) (feature_git W [''rev-parse'', ''HEAD'']))) (\<lambda>head.
     if head \<noteq> Inr expected then reject head_error
     else proceed (asking (inspect_ref_state_at W (wtRepositoryRoot W) (wtCommonDir W) (feature_ref W))) (\<lambda>ref.
     if ref \<noteq> Inr \<lparr>refObject = expected, refSymbolic = []\<rparr> then reject ref_error
     else accept ())))"

definition guard_landing :: "('w, 's, 'f, 'i, 'e) lander \<Rightarrow> gostring \<Rightarrow> gostring \<Rightarrow> 'w \<Rightarrow> message option \<times> 'w" where
  "guard_landing H squash expected = outcome_of
     (proceed (asking (ldFeatureBinding H True)) (\<lambda>binding. case binding of
        Some m \<Rightarrow> reject (''feature checkout binding changed: '' @ m)
      | None \<Rightarrow>
     proceed (asking (require_direct_run_ref (ldTree H) squash)) (\<lambda>run. case run of
        Some m \<Rightarrow> reject (''validated run branch changed: '' @ m)
      | None \<Rightarrow>
     proceed (asking (git_path (ldTree H) (wtRepositoryRoot (ldTree H))
                [''--git-dir='' @ wtCommonDir (ldTree H), ''rev-parse'', squash @ ''^{tree}''])) (\<lambda>tree.
     proceed (asking (verify_squash_object (ldTree H) squash (case tree of Inl _ \<Rightarrow> [] | Inr t \<Rightarrow> t))) (\<lambda>object. case object of
        Some m \<Rightarrow> reject (''squash object changed: '' @ m)
      | None \<Rightarrow>
     proceed (feature_at (ldTree H) expected ''feature checkout is detached or on a different branch''
                ''feature checkout HEAD moved'' ''feature branch ref moved or became symbolic'') (\<lambda>_.
     proceed (relabel ''inspect feature checkout status'' (feature_status (ldTree H))) (\<lambda>status.
     if status \<noteq> [] then reject ''feature checkout is not clean, including untracked or ignored files''
     else accept ())))))))"

definition verify_landing_result :: "('w, 's, 'f, 'i, 'e) lander \<Rightarrow> gostring \<Rightarrow> 'w \<Rightarrow> message option \<times> 'w" where
  "verify_landing_result H squash = outcome_of
     (proceed (asking (ldFeatureBinding H False)) (\<lambda>binding. case binding of
        Some m \<Rightarrow> reject m
      | None \<Rightarrow>
     proceed (feature_at (ldTree H) squash ''feature checkout branch changed''
                ''feature checkout did not reach squash'' ''feature branch did not reach squash'') (\<lambda>_.
     proceed (asking (feature_status (ldTree H))) (\<lambda>status.
     if status \<noteq> Inr [] then reject ''landed feature checkout is not clean'' else accept ()))))"

subsection \<open>Launching the merge\<close>

text \<open>Both snapshots, for the first time and against earlier ones.\<close>

definition first_snapshots :: "('w, 's, 'f, 'i, 'e) lander \<Rightarrow> ('w, 's \<times> 'f) landing_action" where
  "first_snapshots H =
     proceed (taking (ldShared H) (\<lambda>m. ''snapshot shared Git state before landing: '' @ m)) (\<lambda>shared.
     proceed (taking (ldFeature H) (\<lambda>m. ''snapshot feature Git control state before landing: '' @ m)) (\<lambda>feature.
     accept (shared, feature)))"

definition unchanged :: "('a \<Rightarrow> 'a \<Rightarrow> bool) \<Rightarrow> 'a \<Rightarrow> (message, 'a) res \<Rightarrow> bool" where
  "unchanged same before after = (case after of Inl _ \<Rightarrow> False | Inr a \<Rightarrow> same before a)"

definition same_snapshots ::
  "('w, 's, 'f, 'i, 'e) lander \<Rightarrow> 's \<times> 'f \<Rightarrow> message \<Rightarrow> message \<Rightarrow> ('w, 's \<times> 'f) landing_action" where
  "same_snapshots H before shared_error feature_error =
     proceed (beside (ldShared H)) (\<lambda>shared.
     if \<not> unchanged (ldSameShared H) (fst before) shared then blocked shared_error
     else proceed (beside (ldFeature H)) (\<lambda>feature.
     if \<not> unchanged (ldSameFeature H) (snd before) feature then blocked feature_error
     else accept (projr shared, projr feature)))"

text \<open>A round of checks: injected code, the guard, and both snapshots again.\<close>

definition landing_round ::
  "('w, 's, 'f, 'i, 'e) lander \<Rightarrow> gostring \<Rightarrow> seam \<Rightarrow> message \<Rightarrow> message \<Rightarrow> message \<Rightarrow> message \<Rightarrow> 's \<times> 'f
     \<Rightarrow> ('w, 's \<times> 'f) landing_action" where
  "landing_round H squash seam seam_label label shared_error feature_error before =
     proceed (passing (wtSeam (ldTree H) seam) seam_label) (\<lambda>_.
     proceed (passing (guard_landing H squash (wtOriginalHead (ldTree H))) (label @ '': '')) (\<lambda>_.
     same_snapshots H before (label @ shared_error) (label @ feature_error)))"

text \<open>A check that fails closes both directories, whatever that gives.\<close>

definition closing_both :: "('w, 's, 'f, 'i, 'e) lander \<Rightarrow> ('w, 'a) landing_action \<Rightarrow> ('w, 'a) landing_action" where
  "closing_both H m s =
     (case m s of
        (Inl e, s') \<Rightarrow> (Inl e, s'\<lparr>ldWorld := snd (ldCloseGitDir H (snd (ldCloseWorkTree H (ldWorld s'))))\<rparr>)
      | (Inr a, s') \<Rightarrow> (Inr a, s'))"

definition close_bindings :: "('w, 's, 'f, 'i, 'e) lander \<Rightarrow> ('w, message option) landing_action" where
  "close_bindings H = asking (\<lambda>s.
     if ldClosed s then (None, s)
     else (case ldBeforeClose H (ldWorld s) of (e1, w) \<Rightarrow>
          (case ldCloseWorkTree H w of (e2, w) \<Rightarrow>
          (case ldCloseGitDir H w of (e3, w) \<Rightarrow> (join_errors [e1, e2, e3], s\<lparr>ldWorld := w, ldClosed := True\<rparr>)))))"

text \<open>An early return that closes the bindings and joins their errors.\<close>

definition closing_with :: "('w, 's, 'f, 'i, 'e) lander \<Rightarrow> message \<Rightarrow> message option \<Rightarrow> ('w, 'a) landing_action" where
  "closing_with H label e = proceed (close_bindings H) (\<lambda>c. blocked (wrapping label (join_errors [e, c])))"

definition error_of :: "(message, 'a) res \<Rightarrow> message option" where
  "error_of r = (case r of Inl m \<Rightarrow> Some m | Inr _ \<Rightarrow> None)"

definition bind_directories :: "('w, 's, 'f, 'i, 'e) lander \<Rightarrow> ('w, unit) landing_action" where
  "bind_directories H =
     proceed (passing (ldBindGitDir H) ''bind feature Git directory for landing: '') (\<lambda>_.
     proceed (beside (ldBindWorkTree H)) (\<lambda>e. case e of
       None \<Rightarrow> accept ()
     | Some m \<Rightarrow> proceed (beside (ldCloseGitDir H)) (\<lambda>_. blocked (''bind feature worktree for landing: '' @ m))))"

definition bound_checks ::
  "('w, 's, 'f, 'i, 'e) lander \<Rightarrow> gostring \<Rightarrow> 's \<times> 'f \<Rightarrow> ('w, 'f) landing_action" where
  "bound_checks H squash before = closing_both H
     (proceed (landing_round H squash AfterLandingBind ''after landing directory binding: '' ''bound landing launch guard''
                '': shared Git state changed and was preserved'' '': feature Git control changed and was preserved'' before) (\<lambda>bound.
      proceed (beside (ldIndex H)) (\<lambda>index.
      if \<not> unchanged (ldSameIndex H) (ldFeatureIndex H) index
      then blocked ''bound landing launch guard: feature index changed and was preserved''
      else proceed (taking (ldOrigHead H) (\<lambda>m. ''snapshot pre-merge evidence: '' @ m)) (\<lambda>_. accept (snd bound)))))"

text \<open>All checks before the evidence of the merge is prepared; the result is the control state of the feature checkout.\<close>

definition landing_admission :: "('w, 's, 'f, 'i, 'e) lander \<Rightarrow> gostring \<Rightarrow> ('w, 'f) landing_action" where
  "landing_admission H squash =
     proceed (passing (guard_landing H squash (wtOriginalHead (ldTree H))) []) (\<lambda>_.
     proceed (first_snapshots H) (\<lambda>before.
     proceed (landing_round H squash BeforeLandingMerge ''before landing merge: '' ''final landing guard''
                '': concurrent shared Git state changed and was preserved''
                '': feature Git control state changed and was preserved'' before) (\<lambda>after.
     proceed (landing_round H squash BeforeLandingExec ''before landing execution: '' ''immediate landing guard''
                '': shared Git state changed and was preserved''
                '': feature Git control state changed and was preserved'' after) (\<lambda>final.
     proceed (bind_directories H) (\<lambda>_.
     bound_checks H squash final)))))"

definition landing_attributes :: "('w, 's, 'f, 'i, 'e) lander \<Rightarrow> gostring \<Rightarrow> 'e \<Rightarrow> 'w \<Rightarrow> (message, gostring list) res \<times> 'w" where
  "landing_attributes H squash e w =
     (case ldAttributes H squash e w of
        (Inl m, w') \<Rightarrow> (Inl m, w') | (Inr out, w') \<Rightarrow> (parse_attribute_drivers out, w'))"

text \<open>The configuration that turns the filters off, resolved between two looks at the control state.\<close>

definition landing_launch ::
  "('w, 's, 'f, 'i, 'e) lander \<Rightarrow> gostring \<Rightarrow> 'e \<Rightarrow> 'f \<Rightarrow> ('w, (gostring \<times> gostring) list) landing_action" where
  "landing_launch H squash e bound =
     proceed (beside (wtSeam (ldTree H) BeforeLandingStart)) (\<lambda>seam.
     if seam \<noteq> None then closing_with H ''before landing start: '' seam
     else proceed (beside (ldFeature H)) (\<lambda>launch.
     if \<not> unchanged (ldSameFeature H) bound launch
     then closing_with H ''landing launch control changed and was preserved: '' (error_of launch)
     else proceed (beside (landing_attributes H squash e)) (\<lambda>drivers. case drivers of
       Inl m \<Rightarrow> closing_with H ''resolve landing conversion filters: '' (Some m)
     | Inr drivers \<Rightarrow>
     proceed (beside (ldConfig H e drivers)) (\<lambda>config. case config of
       Inl m \<Rightarrow> closing_with H ''prepare landing command configuration: '' (Some m)
     | Inr config \<Rightarrow>
     proceed (beside (ldFeature H)) (\<lambda>again.
     if \<not> unchanged (ldSameFeature H) (projr launch) again
     then closing_with H ''landing launch control changed during filter isolation and was preserved: '' (error_of again)
     else accept config)))))"

subsection \<open>The merge and its result\<close>

definition merging ::
  "('w, 's, 'f, 'i, 'e) lander \<Rightarrow> gostring \<Rightarrow> 'e \<Rightarrow> (gostring \<times> gostring) list \<Rightarrow> ('w, message option) landing_action" where
  "merging H squash e config = asking (\<lambda>s.
     case ldMerge H e config [''merge'', ''--ff-only'', squash] (ldWorld s) of
       (err, w) \<Rightarrow> (err, s\<lparr>ldWorld := w, ldMerges := Suc (ldMerges s)\<rparr>))"

text \<open>The error of the merge, and the head it started from or the error of the evidence.\<close>

definition merge_outcome ::
  "('w, 's, 'f, 'i, 'e) lander \<Rightarrow> gostring \<Rightarrow> 'e \<Rightarrow> (gostring \<times> gostring) list
     \<Rightarrow> ('w, message option \<times> gostring \<times> message option) landing_action" where
  "merge_outcome H squash e config =
     proceed (merging H squash e config) (\<lambda>merge.
     proceed (beside (ldFinish H e)) (\<lambda>(raw, transaction, cleanup).
     proceed (beside (ldIndex H)) (\<lambda>index.
     proceed (beside (wtSeam (ldTree H) AfterLandingMerge)) (\<lambda>seam.
     proceed (beside (ldOrigHead H)) (\<lambda>after.
     (let evidence = authenticate_landing_evidence (ldNonce H e) raw (case after of Inl _ \<Rightarrow> no_file | Inr f \<Rightarrow> f)
                       squash (feature_ref (ldTree H)) in
      accept (join_errors [merge, transaction, cleanup, error_of index, seam],
              (case evidence of Inl _ \<Rightarrow> [] | Inr actual \<Rightarrow> actual),
              join_errors [transaction, error_of after, error_of evidence])))))))"

definition observe_result ::
  "('w, 's, 'f, 'i, 'e) lander \<Rightarrow> gostring \<Rightarrow> 'f \<Rightarrow> ('w, bool \<times> message option) landing_action" where
  "observe_result H squash bound =
     proceed (beside (ldFeature H)) (\<lambda>feature.
     proceed (beside (verify_landing_result H squash)) (\<lambda>complete.
     accept (unchanged (ldSameFeature H) bound feature, complete)))"

definition completed :: "('w, 's, 'f, 'i, 'e) lander \<Rightarrow> message option \<Rightarrow> ('w, landing_answer) landing_action" where
  "completed H merge_error =
     proceed (asking (\<lambda>s. ((), s\<lparr>ldComplete := True\<rparr>))) (\<lambda>_.
     proceed (close_bindings H) (\<lambda>c. accept (LandingComplete, join_errors [merge_error, c])))"

definition intact :: "('w, 's, 'f, 'i, 'e) lander \<Rightarrow> message option \<Rightarrow> ('w, 'a) landing_action" where
  "intact H merge_error =
     closing_with H ''guarded fast-forward failed with original checkout intact: ''
       (Some (case merge_error of None \<Rightarrow> ''fast-forward reported success without updating the feature checkout'' | Some m \<Rightarrow> m))"

text \<open>A result that is not complete: what the error says of the feature checkout.\<close>

definition unfinished ::
  "('w, 's, 'f, 'i, 'e) lander \<Rightarrow> gostring \<Rightarrow> message option \<Rightarrow> gostring \<Rightarrow> message option \<Rightarrow> message option
     \<Rightarrow> ('w, landing_answer) landing_action" where
  "unfinished H squash merge_error actual evidence_error complete_error =
     (if evidence_error \<noteq> None
      then closing_with H ''guarded fast-forward pre-merge evidence is incomplete or changed; preserve the run branch: '' evidence_error
      else
        proceed (if actual = wtOriginalHead (ldTree H)
                 then beside (guard_landing H squash (wtOriginalHead (ldTree H))) else accept (Some [])) (\<lambda>moved.
        if moved = None then intact H merge_error
        else proceed (beside (wtSeam (ldTree H) BeforeLandingRecovery)) (\<lambda>seam.
        if seam \<noteq> None
        then closing_with H ''guarded fast-forward recovery incomplete; preserve the run branch and inspect the feature checkout: '' seam
        else if actual \<noteq> wtOriginalHead (ldTree H) \<or> complete_error \<noteq> None
        then proceed (close_bindings H) (\<lambda>c. blocked
               (''guarded fast-forward recovery incomplete; automatic recovery cannot preserve concurrent ref, index, worktree, and ORIG_HEAD state atomically''
                @ (case c of None \<Rightarrow> [] | Some m \<Rightarrow> ''; descriptor closure failed: '' @ m)))
        else proceed (beside (guard_landing H squash (wtOriginalHead (ldTree H)))) (\<lambda>moved.
             if moved = None then intact H merge_error
             else proceed (close_bindings H) (\<lambda>c. blocked (case c of
                    None \<Rightarrow> ''guarded fast-forward result is ambiguous; preserve the run branch and inspect the feature checkout''
                  | Some m \<Rightarrow> ''guarded fast-forward result is ambiguous and descriptor closure failed; preserve the run branch and inspect the feature checkout: '' @ m))))))"

definition landing_reached ::
  "('w, 's, 'f, 'i, 'e) lander \<Rightarrow> gostring \<Rightarrow> message option \<Rightarrow> bool \<times> message option \<Rightarrow> bool" where
  "landing_reached H actual evidence_error seen \<longleftrightarrow>
     snd seen = None \<and> fst seen \<and> evidence_error = None \<and> actual = wtOriginalHead (ldTree H)"

text \<open>After the merge: looked at once, and once more before anything is called unfinished.\<close>

definition landing_result ::
  "('w, 's, 'f, 'i, 'e) lander \<Rightarrow> gostring \<Rightarrow> 'f \<Rightarrow> message option \<times> gostring \<times> message option
     \<Rightarrow> ('w, landing_answer) landing_action" where
  "landing_result H squash bound outcome =
     (case outcome of (merge_error, actual, evidence_error) \<Rightarrow>
      proceed (observe_result H squash bound) (\<lambda>first.
      if landing_reached H actual evidence_error first then completed H merge_error
      else proceed (observe_result H squash bound) (\<lambda>second.
           if landing_reached H actual evidence_error second then completed H merge_error
           else unfinished H squash merge_error actual evidence_error (snd second))))"

text \<open>The deferred functions, last one first.\<close>

definition closing_evidence ::
  "('w, 's, 'f, 'i, 'e) lander \<Rightarrow> 'e \<Rightarrow> ('w, landing_answer) landing_action \<Rightarrow> ('w, landing_answer) landing_action" where
  "closing_evidence H e m s =
     (case m s of (r, s') \<Rightarrow>
      (case ldCloseEvidence H e (ldWorld s') of (c, w) \<Rightarrow>
       (case r of Inl (status, err) \<Rightarrow> (Inl (status, join_errors [err, c]), s'\<lparr>ldWorld := w\<rparr>)
        | Inr (status, err) \<Rightarrow> (Inr (status, join_errors [err, c]), s'\<lparr>ldWorld := w\<rparr>))))"

definition closing_last :: "('w, 's, 'f, 'i, 'e) lander \<Rightarrow> ('w, landing_answer) landing_action \<Rightarrow> ('w, landing_answer) landing_action" where
  "closing_last H m s = (case m s of (r, s') \<Rightarrow> (r, snd (close_bindings H s')))"

definition landing_transaction :: "('w, 's, 'f, 'i, 'e) lander \<Rightarrow> gostring \<Rightarrow> 'f \<Rightarrow> ('w, landing_answer) landing_action" where
  "landing_transaction H squash bound = closing_last H
     (proceed (beside (ldCreate H)) (\<lambda>created. case created of
        Inl m \<Rightarrow> closing_with H ''create private landing transaction evidence: '' (Some m)
      | Inr e \<Rightarrow> closing_evidence H e
          (proceed (landing_launch H squash e bound) (\<lambda>config.
           proceed (merge_outcome H squash e config) (\<lambda>outcome.
           landing_result H squash bound outcome)))))"

text \<open>\<open>Land\<close>.\<close>

definition land_squash :: "('w, 's, 'f, 'i, 'e) lander \<Rightarrow> gostring \<Rightarrow> ('w, landing_answer) landing_action" where
  "land_squash H squash =
     (if squash = []
      then (if ldGreen H = wtOriginalHead (ldTree H)
            then proceed (asking (\<lambda>s. ((), s\<lparr>ldComplete := True\<rparr>))) (\<lambda>_. accept (LandingNotNeeded, None))
            else blocked ''landing squash commit is required'')
      else if squash \<noteq> ldGreen H \<or> \<not> valid_object_id squash
      then blocked ''landing commit is not the latest validated squash''
      else proceed (landing_admission H squash) (\<lambda>bound. landing_transaction H squash bound))"

definition land :: "('w, 's, 'f, 'i, 'e) lander \<Rightarrow> gostring \<Rightarrow> 'w landing \<Rightarrow> landing_answer \<times> 'w landing" where
  "land H squash s =
     (case land_squash H squash (s\<lparr>ldClosed := False\<rparr>) of (Inl a, s') \<Rightarrow> (a, s') | (Inr a, s') \<Rightarrow> (a, s'))"

end
