(* ===== verification/LandingChain.thy ===== *)
theory LandingChain
  imports Landing Histories
begin

text \<open>
  What a landing that is reported complete went through: every call of the host, each one on the world that the one
  before it left.
\<close>

subsection \<open>The chain\<close>

text \<open>A round of checks: injected code, the guard on what it left, and both snapshots unchanged after the guard.\<close>

definition round_passed ::
  "('w, 's, 'f, 'i, 'e) lander \<Rightarrow> gostring \<Rightarrow> seam \<Rightarrow> 's \<times> 'f \<Rightarrow> 'w \<Rightarrow> 's \<times> 'f \<Rightarrow> 'w \<Rightarrow> bool" where
  "round_passed H squash seam before w after w' \<longleftrightarrow>
     (\<exists>w1 w2 w3. wtSeam (ldTree H) seam w = (None, w1)
       \<and> guard_landing H squash (wtOriginalHead (ldTree H)) w1 = (None, w2)
       \<and> ldShared H w2 = (Inr (fst after), w3) \<and> ldSameShared H (fst before) (fst after)
       \<and> ldFeature H w3 = (Inr (snd after), w') \<and> ldSameFeature H (snd before) (snd after))"

text \<open>
  All checks before the merge is prepared: the guard, the first snapshots, a round of checks before and after
  the directories are bound, the index of the feature checkout unchanged, \<open>ORIG_HEAD\<close> readable.
\<close>

definition admitted :: "('w, 's, 'f, 'i, 'e) lander \<Rightarrow> gostring \<Rightarrow> 'w \<Rightarrow> 'f \<Rightarrow> 'w \<Rightarrow> bool" where
  "admitted H squash w bound w' \<longleftrightarrow>
     (\<exists>first second third fourth index orig w1 w2 w3 w4 w5 w6 w7 w8 w9.
       guard_landing H squash (wtOriginalHead (ldTree H)) w = (None, w1)
       \<and> ldShared H w1 = (Inr (fst first), w2) \<and> ldFeature H w2 = (Inr (snd first), w3)
       \<and> round_passed H squash BeforeLandingMerge first w3 second w4
       \<and> round_passed H squash BeforeLandingExec second w4 third w5
       \<and> ldBindGitDir H w5 = (None, w6) \<and> ldBindWorkTree H w6 = (None, w7)
       \<and> round_passed H squash AfterLandingBind third w7 fourth w8 \<and> bound = snd fourth
       \<and> ldIndex H w8 = (Inr index, w9) \<and> ldSameIndex H (ldFeatureIndex H) index
       \<and> ldOrigHead H w9 = (Inr orig, w'))"

text \<open>The configuration without filters, made between two looks at the control state of the feature checkout.\<close>

definition launched ::
  "('w, 's, 'f, 'i, 'e) lander \<Rightarrow> gostring \<Rightarrow> 'e \<Rightarrow> 'f \<Rightarrow> 'w \<Rightarrow> (gostring \<times> gostring) list \<Rightarrow> 'w \<Rightarrow> bool" where
  "launched H squash e bound w config w' \<longleftrightarrow>
     (\<exists>launch drivers again w1 w2 w3 w4. wtSeam (ldTree H) BeforeLandingStart w = (None, w1)
       \<and> ldFeature H w1 = (Inr launch, w2) \<and> ldSameFeature H bound launch
       \<and> landing_attributes H squash e w2 = (Inr drivers, w3) \<and> ldConfig H e drivers w3 = (Inr config, w4)
       \<and> ldFeature H w4 = (Inr again, w') \<and> ldSameFeature H launch again)"

text \<open>
  The one merge, and the report of its hook: it was read after the merge, and together with \<open>ORIG_HEAD\<close> it
  authenticates the move of the feature branch from the original head to the squash.
\<close>

definition merge_reported ::
  "('w, 's, 'f, 'i, 'e) lander \<Rightarrow> gostring \<Rightarrow> 'e \<Rightarrow> (gostring \<times> gostring) list \<Rightarrow> 'w \<Rightarrow> 'w \<Rightarrow> bool" where
  "merge_reported H squash e config w w' \<longleftrightarrow>
     (\<exists>merge raw cleanup index seam orig w1 w2 w3 w4.
       ldMerge H e config [''merge'', ''--ff-only'', squash] w = (merge, w1)
       \<and> ldFinish H e w1 = ((raw, None, cleanup), w2) \<and> ldIndex H w2 = (index, w3)
       \<and> wtSeam (ldTree H) AfterLandingMerge w3 = (seam, w4) \<and> ldOrigHead H w4 = (Inr orig, w')
       \<and> authenticate_landing_evidence (ldNonce H e) raw orig squash (feature_ref (ldTree H)) = Inr (wtOriginalHead (ldTree H)))"

definition looked :: "('w, 's, 'f, 'i, 'e) lander \<Rightarrow> gostring \<Rightarrow> 'w \<Rightarrow> 'w \<Rightarrow> bool" where
  "looked H squash w w' \<longleftrightarrow> (\<exists>feature w1 e. ldFeature H w = (feature, w1) \<and> verify_landing_result H squash w1 = (e, w'))"

text \<open>The control state is the one before the merge, and the feature checkout is at the squash and clean.\<close>

definition seen_at_squash :: "('w, 's, 'f, 'i, 'e) lander \<Rightarrow> gostring \<Rightarrow> 'f \<Rightarrow> 'w \<Rightarrow> 'w \<Rightarrow> bool" where
  "seen_at_squash H squash bound w w' \<longleftrightarrow>
     (\<exists>feature w1. ldFeature H w = (Inr feature, w1) \<and> ldSameFeature H bound feature
       \<and> verify_landing_result H squash w1 = (None, w'))"

definition all_closed :: "('w, 's, 'f, 'i, 'e) lander \<Rightarrow> 'e \<Rightarrow> 'w \<Rightarrow> 'w \<Rightarrow> bool" where
  "all_closed H e w w' \<longleftrightarrow>
     w' = snd (ldCloseEvidence H e (snd (ldCloseGitDir H (snd (ldCloseWorkTree H (snd (ldBeforeClose H w)))))))"

definition completed_chain :: "('w, 's, 'f, 'i, 'e) lander \<Rightarrow> gostring \<Rightarrow> 'w \<Rightarrow> 'w \<Rightarrow> bool" where
  "completed_chain H squash w w' \<longleftrightarrow>
     (\<exists>bound e config w1 w2 w3 w4 w5 w6. admitted H squash w bound w1
       \<and> ldCreate H w1 = (Inr e, w2)
       \<and> launched H squash e bound w2 config w3
       \<and> merge_reported H squash e config w3 w4
       \<and> (w5 = w4 \<or> looked H squash w4 w5)
       \<and> seen_at_squash H squash bound w5 w6
       \<and> all_closed H e w6 w')"

subsection \<open>Inversion of the steps\<close>

text \<open>A step that left everything but the world alone.\<close>

abbreviation kept :: "'w landing \<Rightarrow> 'w landing \<Rightarrow> bool" where
  "kept s s' \<equiv> ldClosed s' = ldClosed s \<and> ldComplete s' = ldComplete s \<and> ldMerges s' = ldMerges s"

lemma blocked_accepts [simp]: "\<not> blocked m s = (Inr a, s')"
  by (simp add: blocked_def reject_def)

lemma beside_accepts: "beside f s = (Inr a, s') \<longleftrightarrow> f (ldWorld s) = (a, ldWorld s') \<and> kept s s'"
  by (cases "f (ldWorld s)") (auto simp: beside_def asking_def)

lemma passing_accepts: "passing f label s = (Inr a, s') \<longleftrightarrow> f (ldWorld s) = (None, ldWorld s') \<and> kept s s'"
  by (auto simp: passing_def proceed_accepts beside_accepts split: option.splits)

lemma taking_accepts: "taking f label s = (Inr a, s') \<longleftrightarrow> f (ldWorld s) = (Inr a, ldWorld s') \<and> kept s s'"
  by (cases "f (ldWorld s)")
    (auto simp: taking_def proceed_def beside_def asking_def accept_def blocked_def reject_def split: sum.splits)

lemma closing_with_accepts [simp]: "\<not> closing_with H label e s = (Inr a, s')"
  by (simp add: closing_with_def proceed_accepts)

lemma refusal_accepts:
  "(case r of Inl m \<Rightarrow> closing_with H label (Some m) | Inr a \<Rightarrow> f a) s = (Inr b, s') \<longleftrightarrow> (\<exists>a. r = Inr a \<and> f a s = (Inr b, s'))"
  "(if c then closing_with H label x else g) s = (Inr b, s') \<longleftrightarrow> \<not> c \<and> g s = (Inr b, s')"
  "(if c then blocked m else g) s = (Inr b, s') \<longleftrightarrow> \<not> c \<and> g s = (Inr b, s')"
  by (simp_all split: sum.split)

lemma unchanged_taken: "unchanged same before r \<longleftrightarrow> (\<exists>a. r = Inr a \<and> same before a)"
  by (auto simp: unchanged_def split: sum.splits)

lemmas step_accepts = proceed_accepts beside_accepts passing_accepts taking_accepts

lemma same_snapshots_accepts:
  assumes "same_snapshots H before l1 l2 s = (Inr after, s')"
  shows "(\<exists>w. ldShared H (ldWorld s) = (Inr (fst after), w) \<and> ldSameShared H (fst before) (fst after)
    \<and> ldFeature H w = (Inr (snd after), ldWorld s') \<and> ldSameFeature H (snd before) (snd after)) \<and> kept s s'"
  using assms unfolding same_snapshots_def
  by (auto simp: step_accepts unchanged_taken split: if_splits)

lemma landing_round_accepts:
  assumes "landing_round H squash seam sl l se fe before s = (Inr after, s')"
  shows "round_passed H squash seam before (ldWorld s) after (ldWorld s') \<and> kept s s'"
proof -
  from assms obtain s1 s2 where
    r: "wtSeam (ldTree H) seam (ldWorld s) = (None, ldWorld s1)"
      "guard_landing H squash (wtOriginalHead (ldTree H)) (ldWorld s1) = (None, ldWorld s2)"
      "same_snapshots H before (l @ se) (l @ fe) s2 = (Inr after, s')" and k: "kept s s1" "kept s1 s2"
    unfolding landing_round_def step_accepts by blast
  from same_snapshots_accepts [OF r(3)] r(1,2) k show ?thesis
    unfolding round_passed_def by auto
qed

lemma bind_accepts:
  assumes "bind_directories H s = (Inr u, s')"
  shows "(\<exists>w. ldBindGitDir H (ldWorld s) = (None, w) \<and> ldBindWorkTree H w = (None, ldWorld s')) \<and> kept s s'"
  using assms unfolding bind_directories_def by (auto simp: step_accepts split: option.splits)

lemma closing_both_accepts: "closing_both H m s = (Inr a, s') \<longleftrightarrow> m s = (Inr a, s')"
  by (auto simp: closing_both_def split: prod.splits sum.splits)

lemma bound_accepts:
  assumes "bound_checks H squash before s = (Inr bound, s')"
  shows "\<exists>after index orig w1 w2. round_passed H squash AfterLandingBind before (ldWorld s) after w1 \<and> bound = snd after
    \<and> ldIndex H w1 = (Inr index, w2) \<and> ldSameIndex H (ldFeatureIndex H) index
    \<and> ldOrigHead H w2 = (Inr orig, ldWorld s')"
    and "kept s s'"
proof -
  from assms obtain sl l se fe after s1 index s2 orig where
    round: "landing_round H squash AfterLandingBind sl l se fe before s = (Inr after, s1)"
    and r: "ldIndex H (ldWorld s1) = (index, ldWorld s2)" "unchanged (ldSameIndex H) (ldFeatureIndex H) index"
      "ldOrigHead H (ldWorld s2) = (Inr orig, ldWorld s')" "bound = snd after"
    and k: "kept s1 s2" "kept s2 s'"
    unfolding bound_checks_def closing_both_accepts step_accepts refusal_accepts accept_accepts
    by auto
  note round = landing_round_accepts [OF round]
  with r show "\<exists>after index orig w1 w2. round_passed H squash AfterLandingBind before (ldWorld s) after w1 \<and> bound = snd after
    \<and> ldIndex H w1 = (Inr index, w2) \<and> ldSameIndex H (ldFeatureIndex H) index
    \<and> ldOrigHead H w2 = (Inr orig, ldWorld s')"
    unfolding unchanged_taken by blast
  from round k show "kept s s'" by simp
qed

lemma admission_accepts:
  assumes "landing_admission H squash s = (Inr bound, s')"
  shows "admitted H squash (ldWorld s) bound (ldWorld s') \<and> kept s s'"
proof -
  from assms obtain s1 s2 s3 second s4 third s5 s6 a b where
    r: "guard_landing H squash (wtOriginalHead (ldTree H)) (ldWorld s) = (None, ldWorld s1)"
      "ldShared H (ldWorld s1) = (Inr a, ldWorld s2)" "ldFeature H (ldWorld s2) = (Inr b, ldWorld s3)"
      "round_passed H squash BeforeLandingMerge (a, b) (ldWorld s3) second (ldWorld s4)"
      "round_passed H squash BeforeLandingExec second (ldWorld s4) third (ldWorld s5)"
      "bind_directories H s5 = (Inr (), s6)" "bound_checks H squash third s6 = (Inr bound, s')"
    and k: "kept s s1" "kept s1 s2" "kept s2 s3" "kept s3 s4" "kept s4 s5"
    unfolding landing_admission_def first_snapshots_def step_accepts by (auto dest!: landing_round_accepts)
  from bind_accepts [OF r(6)] obtain w6 where
    b: "ldBindGitDir H (ldWorld s5) = (None, w6)" "ldBindWorkTree H w6 = (None, ldWorld s6)" "kept s5 s6" by blast
  from bound_accepts(1) [OF r(7)] obtain after index orig w1 w2 where
    f: "round_passed H squash AfterLandingBind third (ldWorld s6) after w1" "bound = snd after"
      "ldIndex H w1 = (Inr index, w2)" "ldSameIndex H (ldFeatureIndex H) index" "ldOrigHead H w2 = (Inr orig, ldWorld s')"
    by blast
  have "admitted H squash (ldWorld s) bound (ldWorld s')"
    unfolding admitted_def
    by (rule exI [of _ "(a, b)"], rule exI [of _ second], rule exI [of _ third], rule exI [of _ after], rule exI [of _ index],
        rule exI [of _ orig], rule exI [of _ "ldWorld s1"], rule exI [of _ "ldWorld s2"], rule exI [of _ "ldWorld s3"],
        rule exI [of _ "ldWorld s4"], rule exI [of _ "ldWorld s5"], rule exI [of _ w6], rule exI [of _ "ldWorld s6"],
        rule exI [of _ w1], rule exI [of _ w2], intro conjI) (use r f b in simp_all)
  with k b(3) bound_accepts(2) [OF r(7)] show ?thesis by simp
qed

lemma launch_accepts:
  assumes "landing_launch H squash e bound s = (Inr config, s')"
  shows "launched H squash e bound (ldWorld s) config (ldWorld s') \<and> kept s s'"
proof -
  from assms obtain s1 launch s2 drivers s3 s4 again where
    r: "wtSeam (ldTree H) BeforeLandingStart (ldWorld s) = (None, ldWorld s1)"
      "ldFeature H (ldWorld s1) = (launch, ldWorld s2)" "unchanged (ldSameFeature H) bound launch"
      "landing_attributes H squash e (ldWorld s2) = (Inr drivers, ldWorld s3)"
      "ldConfig H e drivers (ldWorld s3) = (Inr config, ldWorld s4)" "ldFeature H (ldWorld s4) = (again, ldWorld s')"
      "unchanged (ldSameFeature H) (projr launch) again"
    and k: "kept s s1" "kept s1 s2" "kept s2 s3" "kept s3 s4" "kept s4 s'"
    unfolding landing_launch_def step_accepts refusal_accepts accept_accepts by auto
  then have "launched H squash e bound (ldWorld s) config (ldWorld s')"
    unfolding launched_def unchanged_taken by auto
  with k show ?thesis by simp
qed

subsection \<open>The merge and after it\<close>

lemma join_errors_None: "join_errors es = None \<longleftrightarrow> list_all (\<lambda>e. e = None) es"
  by (induction es) (auto simp: join_errors_def split: list.splits)

lemma merging_accepts:
  "merging H squash e config s = (Inr m, s') \<longleftrightarrow>
     ldMerge H e config [''merge'', ''--ff-only'', squash] (ldWorld s) = (m, ldWorld s')
     \<and> ldClosed s' = ldClosed s \<and> ldComplete s' = ldComplete s \<and> ldMerges s' = Suc (ldMerges s)"
  by (cases "ldMerge H e config [''merge'', ''--ff-only'', squash] (ldWorld s)") (auto simp: merging_def asking_def)

lemma merge_accepts:
  assumes "merge_outcome H squash e config s = (Inr (merge_error, actual, evidence_error), s')"
  shows "ldClosed s' = ldClosed s \<and> ldComplete s' = ldComplete s \<and> ldMerges s' = Suc (ldMerges s)"
    and "evidence_error = None \<Longrightarrow> actual = wtOriginalHead (ldTree H)
      \<Longrightarrow> merge_reported H squash e config (ldWorld s) (ldWorld s')"
proof -
  from assms obtain merge raw transaction cleanup index seam after s1 s2 s3 s4 where
    r: "merging H squash e config s = (Inr merge, s1)" "ldFinish H e (ldWorld s1) = ((raw, transaction, cleanup), ldWorld s2)"
      "ldIndex H (ldWorld s2) = (index, ldWorld s3)" "wtSeam (ldTree H) AfterLandingMerge (ldWorld s3) = (seam, ldWorld s4)"
      "ldOrigHead H (ldWorld s4) = (after, ldWorld s')"
    and k: "kept s1 s2" "kept s2 s3" "kept s3 s4" "kept s4 s'"
    and actual: "actual = (case authenticate_landing_evidence (ldNonce H e) raw (case after of Inl _ \<Rightarrow> no_file | Inr f \<Rightarrow> f)
        squash (feature_ref (ldTree H)) of Inl _ \<Rightarrow> [] | Inr actual \<Rightarrow> actual)"
    and evidence: "evidence_error = join_errors [transaction, error_of after,
        error_of (authenticate_landing_evidence (ldNonce H e) raw (case after of Inl _ \<Rightarrow> no_file | Inr f \<Rightarrow> f)
          squash (feature_ref (ldTree H)))]"
    unfolding merge_outcome_def Let_def by (auto simp: step_accepts)
  note m = r(1) [unfolded merging_accepts]
  from m k show "ldClosed s' = ldClosed s \<and> ldComplete s' = ldComplete s \<and> ldMerges s' = Suc (ldMerges s)" by simp
  assume "evidence_error = None" "actual = wtOriginalHead (ldTree H)"
  with evidence have none: "transaction = None" "error_of after = None" "error_of (authenticate_landing_evidence (ldNonce H e) raw
      (case after of Inl _ \<Rightarrow> no_file | Inr f \<Rightarrow> f) squash (feature_ref (ldTree H))) = None"
    by (simp_all add: join_errors_None [of "[_, _, _]", simplified] eq_commute [of None])
  from none(2) obtain orig where orig: "after = Inr orig" by (auto simp: error_of_def split: sum.splits)
  with none(3) actual \<open>actual = wtOriginalHead (ldTree H)\<close>
  have a: "authenticate_landing_evidence (ldNonce H e) raw orig squash (feature_ref (ldTree H)) = Inr (wtOriginalHead (ldTree H))"
    by (auto simp: error_of_def split: sum.splits)
  show "merge_reported H squash e config (ldWorld s) (ldWorld s')"
    unfolding merge_reported_def using m r(2-5) none(1) orig a by blast
qed

lemma close_accepts:
  assumes "close_bindings H s = (Inr c, s')" "\<not> ldClosed s"
  shows "ldWorld s' = snd (ldCloseGitDir H (snd (ldCloseWorkTree H (snd (ldBeforeClose H (ldWorld s))))))" "ldClosed s'"
  using assms by (auto simp: close_bindings_def asking_def split: prod.splits)

lemma observe_accepts:
  assumes "observe_result H squash bound s = (Inr seen, s')"
  shows "looked H squash (ldWorld s) (ldWorld s') \<and> kept s s'"
    and "snd seen = None \<Longrightarrow> fst seen \<Longrightarrow> seen_at_squash H squash bound (ldWorld s) (ldWorld s')"
  using assms unfolding observe_result_def looked_def seen_at_squash_def
  by (auto simp: step_accepts unchanged_taken)

subsection \<open>The whole landing\<close>

lemma unfinished_accepts [simp]: "\<not> unfinished H squash merge_error actual evidence_error complete_error s = (Inr a, s')"
  by (auto simp: unfinished_def intact_def proceed_accepts split: if_splits)

lemma completed_accepts:
  assumes "completed H merge_error s = (Inr a, s')" "\<not> ldClosed s"
  shows "fst a = LandingComplete \<and> ldClosed s' \<and> ldComplete s' \<and> ldMerges s' = ldMerges s
    \<and> ldWorld s' = snd (ldCloseGitDir H (snd (ldCloseWorkTree H (snd (ldBeforeClose H (ldWorld s))))))"
  using assms by (auto simp: completed_def proceed_accepts asking_def close_bindings_def split: prod.splits)

lemma result_accepts:
  assumes "landing_result H squash bound (merge_error, actual, evidence_error) s = (Inr a, s')" "\<not> ldClosed s"
  shows "\<exists>w w1. (w = ldWorld s \<or> looked H squash (ldWorld s) w) \<and> seen_at_squash H squash bound w w1
      \<and> ldWorld s' = snd (ldCloseGitDir H (snd (ldCloseWorkTree H (snd (ldBeforeClose H w1)))))"
    and "evidence_error = None \<and> actual = wtOriginalHead (ldTree H) \<and> fst a = LandingComplete
      \<and> ldClosed s' \<and> ldComplete s' \<and> ldMerges s' = ldMerges s"
proof -
  from assms(1) obtain seen s1 s2 where
    at: "s1 = s \<or> looked H squash (ldWorld s) (ldWorld s1) \<and> kept s s1"
    and seen: "observe_result H squash bound s1 = (Inr seen, s2)" "landing_reached H actual evidence_error seen"
    and finish: "completed H merge_error s2 = (Inr a, s')"
  proof -
    from assms(1) obtain first s2 where first: "observe_result H squash bound s = (Inr first, s2)"
      and rest: "(if landing_reached H actual evidence_error first then completed H merge_error
        else proceed (observe_result H squash bound) (\<lambda>second.
           if landing_reached H actual evidence_error second then completed H merge_error
           else unfinished H squash merge_error actual evidence_error (snd second))) s2 = (Inr a, s')"
      unfolding landing_result_def prod.case by (auto simp only: proceed_accepts)
    show ?thesis
    proof (cases "landing_reached H actual evidence_error first")
      case True
      with first rest that [of s first s2] show ?thesis by simp
    next
      case False
      with rest obtain second s3 where second: "observe_result H squash bound s2 = (Inr second, s3)"
        and last: "(if landing_reached H actual evidence_error second then completed H merge_error
           else unfinished H squash merge_error actual evidence_error (snd second)) s3 = (Inr a, s')"
        by (auto simp only: proceed_accepts if_False)
      from last have "landing_reached H actual evidence_error second" "completed H merge_error s3 = (Inr a, s')"
        by (simp_all split: if_splits)
      with observe_accepts(1) [OF first] second that show ?thesis by blast
    qed
  qed
  note look = observe_accepts [OF seen(1)]
  from at look(1) assms(2) have open2: "\<not> ldClosed s2" "ldMerges s2 = ldMerges s" by auto
  note finished = completed_accepts [OF finish open2(1)]
  from seen(2) look(2) have "seen_at_squash H squash bound (ldWorld s1) (ldWorld s2)"
    by (simp add: landing_reached_def)
  with at finished show "\<exists>w w1. (w = ldWorld s \<or> looked H squash (ldWorld s) w) \<and> seen_at_squash H squash bound w w1
      \<and> ldWorld s' = snd (ldCloseGitDir H (snd (ldCloseWorkTree H (snd (ldBeforeClose H w1)))))" by blast
  from seen(2) finished open2(2) show "evidence_error = None \<and> actual = wtOriginalHead (ldTree H) \<and> fst a = LandingComplete
      \<and> ldClosed s' \<and> ldComplete s' \<and> ldMerges s' = ldMerges s"
    by (simp add: landing_reached_def)
qed

lemma closing_evidence_accepts:
  assumes "closing_evidence H e m s = (Inr a, s')"
  shows "\<exists>b s1. m s = (Inr b, s1) \<and> fst a = fst b \<and> s' = s1\<lparr>ldWorld := snd (ldCloseEvidence H e (ldWorld s1))\<rparr>"
  using assms by (auto simp: closing_evidence_def split: prod.splits sum.splits)

lemma closing_last_accepts:
  assumes "closing_last H m s = (Inr a, s')"
  shows "\<exists>s1. m s = (Inr a, s1) \<and> s' = snd (close_bindings H s1)"
  using assms by (auto simp: closing_last_def split: prod.splits)

lemma close_again [simp]: "ldClosed s \<Longrightarrow> close_bindings H s = (Inr None, s)"
  by (simp add: close_bindings_def asking_def)

lemma transaction_accepts:
  assumes "landing_transaction H squash bound s = (Inr a, s')" "\<not> ldClosed s"
  shows "\<exists>e config w2 w3 w4 w5 w6. ldCreate H (ldWorld s) = (Inr e, w2)
      \<and> launched H squash e bound w2 config w3 \<and> merge_reported H squash e config w3 w4
      \<and> (w5 = w4 \<or> looked H squash w4 w5) \<and> seen_at_squash H squash bound w5 w6 \<and> all_closed H e w6 (ldWorld s')"
    and "fst a = LandingComplete \<and> ldComplete s' \<and> ldMerges s' = Suc (ldMerges s)"
proof -
  from closing_last_accepts [OF assms(1) [unfolded landing_transaction_def]] obtain e s1 s2 where
    create: "ldCreate H (ldWorld s) = (Inr e, ldWorld s1)" "kept s s1"
    and body: "closing_evidence H e (proceed (landing_launch H squash e bound) (\<lambda>config.
        proceed (merge_outcome H squash e config) (\<lambda>outcome. landing_result H squash bound outcome))) s1 = (Inr a, s2)"
    and last: "s' = snd (close_bindings H s2)"
    unfolding proceed_accepts beside_accepts refusal_accepts by auto
  from closing_evidence_accepts [OF body] obtain b config s3 merge_error actual evidence_error s4 s5 where
    launch: "landing_launch H squash e bound s1 = (Inr config, s3)"
    and merge: "merge_outcome H squash e config s3 = (Inr (merge_error, actual, evidence_error), s4)"
    and result: "landing_result H squash bound (merge_error, actual, evidence_error) s4 = (Inr b, s5)"
    and ends: "fst a = fst b" "s2 = s5\<lparr>ldWorld := snd (ldCloseEvidence H e (ldWorld s5))\<rparr>"
    unfolding proceed_accepts by auto
  note launch = launch_accepts [OF launch]
  note merged = merge_accepts(1) [OF merge]
  from create(2) launch merged assms(2) have still: "\<not> ldClosed s4" "ldMerges s4 = Suc (ldMerges s)" by auto
  note result = result_accepts [OF result still(1)]
  from merge_accepts(2) [OF merge] result(2) have reported: "merge_reported H squash e config (ldWorld s3) (ldWorld s4)" by blast
  from ends(2) result(2) last have s': "s' = s2" by simp
  from result(1) obtain w5 w6 where seen: "w5 = ldWorld s4 \<or> looked H squash (ldWorld s4) w5" "seen_at_squash H squash bound w5 w6"
    "ldWorld s5 = snd (ldCloseGitDir H (snd (ldCloseWorkTree H (snd (ldBeforeClose H w6)))))" by blast
  with s' ends(2) have "all_closed H e w6 (ldWorld s')" by (simp add: all_closed_def)
  with create(1) launch reported seen show "\<exists>e config w2 w3 w4 w5 w6. ldCreate H (ldWorld s) = (Inr e, w2)
      \<and> launched H squash e bound w2 config w3 \<and> merge_reported H squash e config w3 w4
      \<and> (w5 = w4 \<or> looked H squash w4 w5) \<and> seen_at_squash H squash bound w5 w6 \<and> all_closed H e w6 (ldWorld s')"
    by blast
  from ends result(2) still(2) s' show "fst a = LandingComplete \<and> ldComplete s' \<and> ldMerges s' = Suc (ldMerges s)" by simp
qed

lemma landing_accepts:
  assumes "proceed (landing_admission H squash) (\<lambda>bound. landing_transaction H squash bound) s = (Inr a, s')" "\<not> ldClosed s"
  shows "completed_chain H squash (ldWorld s) (ldWorld s')"
    and "fst a = LandingComplete \<and> ldComplete s' \<and> ldMerges s' = Suc (ldMerges s)"
proof -
  from assms(1) obtain bound s1 where
    r: "landing_admission H squash s = (Inr bound, s1)" "landing_transaction H squash bound s1 = (Inr a, s')"
    unfolding proceed_accepts by blast
  note admission = admission_accepts [OF r(1)]
  with assms(2) have "\<not> ldClosed s1" by simp
  note transaction = transaction_accepts [OF r(2) this]
  from admission transaction(1) show "completed_chain H squash (ldWorld s) (ldWorld s')"
    unfolding completed_chain_def by blast
  from admission transaction(2) show "fst a = LandingComplete \<and> ldComplete s' \<and> ldMerges s' = Suc (ldMerges s)" by simp
qed

end
