(* ===== verification/LandFacts.thy ===== *)
theory LandFacts
  imports LandingChain
begin

text \<open>
  A landing reports the truth: completion at the end of its whole chain of checks, a reason otherwise, one merge at
  most; and the evidence of the merge is judged exactly.
\<close>

subsection \<open>The report of the hook\<close>

definition evidence_relevant :: "gostring \<Rightarrow> gostring list \<Rightarrow> bool" where
  "evidence_relevant moving_ref parts \<longleftrightarrow> parts ! 4 = moving_ref \<and> parts ! 1 \<noteq> ''preparing''"

definition evidence_shaped :: "gostring \<Rightarrow> gostring list \<Rightarrow> bool" where
  "evidence_shaped nonce parts \<longleftrightarrow> length parts = 5 \<and> hd parts = nonce \<and> parts ! 1 \<in> set evidence_stages"

text \<open>The two lines of a move of the feature branch from \<open>actual\<close> to \<open>squash\<close>.\<close>

definition evidence_move :: "gostring \<Rightarrow> gostring \<Rightarrow> gostring \<Rightarrow> gostring \<Rightarrow> gostring list list" where
  "evidence_move nonce actual squash moving_ref =
     [[nonce, ''prepared'', actual, squash, moving_ref], [nonce, ''committed'', actual, squash, moving_ref]]"

lemma stage_choice:
  assumes "\<not> (p \<and> c)"
  shows "(if \<not> a then Inl m1 else if \<not> k then Inl m2 else if \<not> r \<or> g then Inr st else if \<not> x \<or> \<not> y then Inl m3
      else if p then (if st \<noteq> (0::nat) then Inl m4 else Inr 1) else if c then (if st \<noteq> 1 then Inl m4 else Inr 2)
      else Inl m5) = Inr st' \<longleftrightarrow>
    a \<and> k \<and> (if r \<and> \<not> g then st' = Suc st \<and> x \<and> y \<and> (st = 0 \<and> p \<or> st = 1 \<and> c) else st' = st)"
  using assms by (auto split: if_splits)

lemma evidence_move_nth:
  "state < 2 \<and> parts = evidence_move nonce actual squash ref ! state \<longleftrightarrow>
     state = 0 \<and> parts = [nonce, ''prepared'', actual, squash, ref] \<or>
     state = 1 \<and> parts = [nonce, ''committed'', actual, squash, ref]"
  by (cases state) (auto simp: evidence_move_def numeral_2_eq_2 less_Suc_eq)

lemma five_only: "length xs \<noteq> 5 \<Longrightarrow> (case xs of [a, b, c, d, e] \<Rightarrow> f a b c d e | _ \<Rightarrow> g) = g"
  by (auto split: list.split)

lemma evidence_line_exact:
  "evidence_line nonce actual squash moving_ref state line = Inr state' \<longleftrightarrow>
     evidence_shaped nonce (split_on tab line) \<and>
     (if evidence_relevant moving_ref (split_on tab line)
      then state' = Suc state \<and> state < 2 \<and> split_on tab line = evidence_move nonce actual squash moving_ref ! state
      else state' = state)"
proof (cases "length (split_on tab line) = 5")
  case False
  then have "evidence_line nonce actual squash moving_ref state line =
      Inl ''private transaction evidence is malformed or has the wrong nonce''"
    unfolding evidence_line_def by (rule five_only)
  with False show ?thesis by (simp add: evidence_shaped_def)
next
  case True
  then obtain n stage old new ref where f: "split_on tab line = [n, stage, old, new, ref]"
    by (auto simp: numeral_eq_Suc length_Suc_conv)
  have "\<not> (stage = ''prepared'' \<and> stage = ''committed'')" by simp
  note choice = stage_choice [OF this]
  have "evidence_line nonce actual squash moving_ref state line = Inr state' \<longleftrightarrow>
     n = nonce \<and> stage \<in> set evidence_stages \<and>
     (if ref = moving_ref \<and> stage \<noteq> ''preparing'' then state' = Suc state \<and> new = squash \<and> old = actual \<and>
        (state = 0 \<and> stage = ''prepared'' \<or> state = 1 \<and> stage = ''committed'') else state' = state)"
    unfolding evidence_line_def f list.case by (rule choice)
  moreover have "evidence_shaped nonce (split_on tab line) \<longleftrightarrow> n = nonce \<and> stage \<in> set evidence_stages"
    "evidence_relevant moving_ref (split_on tab line) \<longleftrightarrow> ref = moving_ref \<and> stage \<noteq> ''preparing''"
    by (simp_all add: f evidence_shaped_def evidence_relevant_def numeral_eq_Suc)
  ultimately show ?thesis unfolding evidence_move_nth f list.inject by argo
qed

lemma evidence_lines_exact:
  assumes "state \<le> 2"
  shows "evidence_lines nonce actual squash moving_ref state ls = Inr 2 \<longleftrightarrow>
     list_all (evidence_shaped nonce) (map (split_on tab) ls) \<and>
     filter (evidence_relevant moving_ref) (map (split_on tab) ls) = drop state (evidence_move nonce actual squash moving_ref)"
  using assms
proof (induction ls arbitrary: state)
  case Nil
  then show ?case by (auto simp: evidence_move_def le_Suc_eq numeral_2_eq_2)
next
  case (Cons l ls)
  let ?rel = "evidence_relevant moving_ref (split_on tab l)"
  have step: "evidence_lines nonce actual squash moving_ref state (l # ls) = Inr 2 \<longleftrightarrow>
      (\<exists>state'. evidence_line nonce actual squash moving_ref state l = Inr state' \<and>
         evidence_lines nonce actual squash moving_ref state' ls = Inr 2)"
    by (auto split: sum.split)
  consider "state = 0" | "state = 1" | "state = 2" using Cons.prems by linarith
  then show ?case
    unfolding step evidence_line_exact
    by cases (auto simp: Cons.IH evidence_move_def)
qed

text \<open>
  The evidence of a merge is accepted exactly when \<open>ORIG_HEAD\<close> is a regular file that holds an object ID, every
  line of the hook's report has the nonce, five fields and a known stage, and the lines of the feature branch after
  its preparation are one prepared and then one committed move from that ID to the squash.
\<close>

theorem evidence_exact:
  "authenticate_landing_evidence nonce transaction orig squash moving_ref = Inr actual \<longleftrightarrow>
     efExists orig \<and> efRegular orig \<and> actual = trim_space (efBytes orig) \<and> valid_object_id actual \<and>
     \<not> contains_any (efBytes orig) [CHR '' '', tab, CHR 0x0D] \<and>
     list_all (evidence_shaped nonce) (map (split_on tab) (split_on lf (trim_space transaction))) \<and>
     filter (evidence_relevant moving_ref) (map (split_on tab) (split_on lf (trim_space transaction)))
       = evidence_move nonce actual squash moving_ref"
proof -
  have "authenticate_landing_evidence nonce transaction orig squash moving_ref = Inr actual \<longleftrightarrow>
     efExists orig \<and> efRegular orig \<and> actual = trim_space (efBytes orig) \<and> valid_object_id actual \<and>
     \<not> contains_any (efBytes orig) [CHR '' '', tab, CHR 0x0D] \<and>
     evidence_lines nonce actual squash moving_ref 0 (split_on lf (trim_space transaction)) = Inr 2"
    unfolding authenticate_landing_evidence_def by (auto simp: Let_def split: sum.split)
  then show ?thesis by (simp only: evidence_lines_exact [of 0, simplified]) 
qed

subsection \<open>Steps that launch no merge\<close>

abbreviation landed_at :: "nat \<Rightarrow> bool \<Rightarrow> 'w landing \<Rightarrow> bool" where
  "landed_at k c s \<equiv> ldMerges s = k \<and> ldComplete s = c"

text \<open>An end without a landing: at most one merge was launched, and nothing is called complete.\<close>

definition refused :: "nat \<Rightarrow> bool \<Rightarrow> landing_answer \<Rightarrow> 'w landing \<Rightarrow> bool" where
  "refused n c a s \<longleftrightarrow> fst a = LandingBlocked \<and> snd a \<noteq> None \<and> n \<le> ldMerges s \<and> ldMerges s \<le> Suc n \<and> ldComplete s = c"

text \<open>An action that launches no merge, when none or one was launched before.\<close>

definition quiet :: "('w, 'a) landing_action \<Rightarrow> bool" where
  "quiet m \<longleftrightarrow> (\<forall>n c k. n \<le> k \<and> k \<le> Suc n \<longrightarrow> holds (landed_at k c) (refused n c) (\<lambda>_. landed_at k c) m)"

lemma quietD: "quiet m \<Longrightarrow> n \<le> k \<Longrightarrow> k \<le> Suc n \<Longrightarrow> holds (landed_at k c) (refused n c) (\<lambda>_. landed_at k c) m"
  by (simp add: quiet_def)

lemma quiet_then: "quiet m \<Longrightarrow> (\<And>a. quiet (f a)) \<Longrightarrow> quiet (proceed m f)"
  unfolding quiet_def by (blast intro: then_same)

lemma quiet_accept: "quiet (accept a)"
  by (simp add: quiet_def holds_accept)

lemma quiet_blocked: "quiet (blocked m)"
  by (auto simp: quiet_def blocked_def refused_def intro!: holds_reject)

lemma quiet_beside: "quiet (beside f)"
  by (auto simp: quiet_def holds_def beside_def asking_def split: prod.splits)

lemma quiet_choice:
  "(b \<Longrightarrow> quiet m) \<Longrightarrow> (\<not> b \<Longrightarrow> quiet n) \<Longrightarrow> quiet (if b then m else n)"
  "(\<And>e. quiet (h e)) \<Longrightarrow> (\<And>a. quiet (k a)) \<Longrightarrow> quiet (case x of Inl e \<Rightarrow> h e | Inr a \<Rightarrow> k a)"
  "quiet n \<Longrightarrow> (\<And>a. quiet (j a)) \<Longrightarrow> quiet (case y of None \<Rightarrow> n | Some a \<Rightarrow> j a)"
  "(\<And>a b. quiet (l a b)) \<Longrightarrow> quiet (case p of (a, b) \<Rightarrow> l a b)"
  by (simp_all split: sum.split option.split prod.split)

lemmas quietly = quiet_then quiet_choice quiet_accept quiet_blocked quiet_beside

lemma quiet_passing: "quiet (passing f label)"
  unfolding passing_def by (intro quietly)

lemma quiet_taking: "quiet (taking f label)"
  unfolding taking_def by (intro quietly)

lemma quiet_close: "quiet (close_bindings H)"
  by (auto simp: quiet_def holds_def close_bindings_def asking_def split: prod.splits if_splits)

lemma quiet_closing_with: "quiet (closing_with H label e)"
  unfolding closing_with_def by (intro quietly quiet_close)

lemma quiet_closing_both:
  assumes "quiet m"
  shows "quiet (closing_both H m)"
  unfolding quiet_def holds_def
proof (intro allI impI)
  fix n k c s r s'
  assume k: "n \<le> k \<and> k \<le> Suc n" and s: "landed_at k c s" and run: "closing_both H m s = (r, s')"
  obtain r1 s1 where m: "m s = (r1, s1)" by fastforce
  from k holdsD [OF quietD [OF assms] s m] run m
  show "case r of Inl e \<Rightarrow> refused n c e s' | Inr a \<Rightarrow> landed_at k c s'"
    by (cases r1) (auto simp: closing_both_def refused_def)
qed

lemmas quiet_steps = quietly quiet_passing quiet_taking quiet_close quiet_closing_with quiet_closing_both

lemma quiet_admission: "quiet (landing_admission H squash)"
  unfolding landing_admission_def first_snapshots_def landing_round_def same_snapshots_def bind_directories_def bound_checks_def
  by (intro quiet_steps)

lemma quiet_launch: "quiet (landing_launch H squash e bound)"
  unfolding landing_launch_def by (intro quiet_steps)

lemma quiet_observe: "quiet (observe_result H squash bound)"
  unfolding observe_result_def by (intro quiet_steps)

lemma quiet_unfinished: "quiet (unfinished H squash merge_error actual evidence_error complete_error)"
  unfolding unfinished_def intact_def by (intro quiet_steps)

subsection \<open>The merge and after it\<close>

text \<open>What a refusal says; nothing is said of an end that is not one.\<close>

abbreviation (input) refusing :: "nat \<Rightarrow> nat \<Rightarrow> bool \<Rightarrow> ('w, 'a) landing_action \<Rightarrow> bool" where
  "refusing n k c m \<equiv> holds (landed_at k c) (refused n c) (\<lambda>_ _. True) m"

lemma quiet_refusing: "quiet m \<Longrightarrow> n \<le> k \<Longrightarrow> k \<le> Suc n \<Longrightarrow> refusing n k c m"
  by (rule holds_weaken [OF quietD]) auto

lemma completed_refusing: "refusing n k c (completed H merge_error)"
  by (auto simp: holds_def completed_def close_bindings_def proceed_def asking_def accept_def split: prod.splits if_splits)

lemma result_refusing: "refusing n (Suc n) c (landing_result H squash bound outcome)"
proof -
  have look: "holds (landed_at (Suc n) c) (refused n c) (\<lambda>_. landed_at (Suc n) c) (observe_result H squash bound)"
    by (rule quietD [OF quiet_observe]) simp_all
  have last: "refusing n (Suc n) c (unfinished H squash merge_error actual evidence_error e)" for merge_error actual evidence_error e
    by (rule quiet_refusing [OF quiet_unfinished]) simp_all
  show ?thesis
    unfolding landing_result_def
    by (cases outcome) (simp only: prod.case, intro holds_proceed [OF look] holds_choice completed_refusing last)
qed

lemma merge_refusing:
  "refusing n n c (proceed (merge_outcome H squash e config) (\<lambda>outcome. landing_result H squash bound outcome))"
proof (rule holds_proceed [OF _ result_refusing])
  have merging: "holds (landed_at n c) (refused n c) (\<lambda>_. landed_at (Suc n) c) (merging H squash e config)"
    by (auto simp: holds_def merging_def asking_def split: prod.splits)
  show "holds (landed_at n c) (refused n c) (\<lambda>_. landed_at (Suc n) c) (merge_outcome H squash e config)"
    unfolding merge_outcome_def Let_def by (rule holds_proceed [OF merging], rule quietD) (intro quiet_steps, simp_all)
qed

subsection \<open>The whole landing\<close>

lemma join_errors_Some: "\<exists>y. join_errors (Some x # es) = Some y"
  by (simp add: join_errors_def)

lemma closing_evidence_refusing:
  assumes "refusing n k c m"
  shows "refusing n k c (closing_evidence H e m)"
  unfolding holds_def
proof (intro allI impI)
  fix s r s' assume s: "landed_at k c s" and run: "closing_evidence H e m s = (r, s')"
  obtain r1 s1 where m: "m s = (r1, s1)" by fastforce
  from holdsD [OF assms s m] run m
  show "case r of Inl a \<Rightarrow> refused n c a s' | Inr a \<Rightarrow> True"
    by (auto simp: closing_evidence_def refused_def join_errors_Some split: sum.splits prod.splits)
qed

lemma closing_last_refusing:
  assumes "refusing n k c m"
  shows "refusing n k c (closing_last H m)"
  unfolding holds_def
proof (intro allI impI)
  fix s r s' assume s: "landed_at k c s" and run: "closing_last H m s = (r, s')"
  obtain r1 s1 where m: "m s = (r1, s1)" by fastforce
  from holdsD [OF assms s m] run m
  show "case r of Inl a \<Rightarrow> refused n c a s' | Inr a \<Rightarrow> True"
    by (auto simp: closing_last_def refused_def close_bindings_def asking_def split: sum.splits prod.splits if_splits)
qed

lemma transaction_refusing: "refusing n n c (landing_transaction H squash bound)"
  unfolding landing_transaction_def
  by (intro closing_last_refusing holds_proceed [OF quietD [OF quiet_beside]] holds_choice closing_evidence_refusing
      holds_proceed [OF quietD [OF quiet_launch]] merge_refusing quiet_refusing [OF quiet_closing_with]) simp_all

text \<open>
  C9: A landing that reports completion went through the whole chain for the latest validated squash, every step on the
  world the one before it left: the guard held at the start and in three rounds of checks, the last one with the directories
  bound, with the control state unchanged since; then one merge of the squash was launched; its hook's report, read after it,
  was the one move of the feature branch from the original head; then the checkout was looked at once or twice, and the
  last look saw the control state unchanged and the checkout at the squash and clean; then everything was closed, once.
  A landing that is blocked says why, launched at most one merge and never counts as complete; one that was not needed found
  no batch, launched none and asked the host nothing.
\<close>

theorem land_reports_truthfully:
  "case land H squash s of ((status, err), s') \<Rightarrow>
     (case status of
        LandingComplete \<Rightarrow>
          squash = ldGreen H \<and> valid_object_id squash \<and> ldMerges s' = Suc (ldMerges s) \<and> ldComplete s' \<and>
          (\<exists>bound e config w1 w2 w3 w4 w5 w6. admitted H squash (ldWorld s) bound w1
             \<and> ldCreate H w1 = (Inr e, w2)
             \<and> launched H squash e bound w2 config w3
             \<and> merge_reported H squash e config w3 w4
             \<and> (w5 = w4 \<or> looked H squash w4 w5)
             \<and> seen_at_squash H squash bound w5 w6
             \<and> all_closed H e w6 (ldWorld s'))
      | LandingBlocked \<Rightarrow>
          err \<noteq> None \<and> ldMerges s \<le> ldMerges s' \<and> ldMerges s' \<le> Suc (ldMerges s) \<and> ldComplete s' = ldComplete s
      | LandingNotNeeded \<Rightarrow>
          squash = [] \<and> ldGreen H = wtOriginalHead (ldTree H) \<and> err = None
          \<and> ldWorld s' = ldWorld s \<and> ldMerges s' = ldMerges s \<and> ldComplete s')"
proof -
  let ?s = "s\<lparr>ldClosed := False\<rparr>"
  have main: "refusing (ldMerges s) (ldMerges s) (ldComplete s)
      (proceed (landing_admission H squash) (\<lambda>bound. landing_transaction H squash bound))"
    by (rule holds_proceed [OF quietD [OF quiet_admission] transaction_refusing]) simp_all
  obtain r s' where run: "land_squash H squash ?s = (r, s')" by fastforce
  show ?thesis
  proof (cases "squash = [] \<or> squash \<noteq> ldGreen H \<or> \<not> valid_object_id squash")
    case True
    with run show ?thesis
      by (auto simp: land_def land_squash_def proceed_def asking_def accept_def blocked_def reject_def split: if_splits)
  next
    case False
    with run have go: "proceed (landing_admission H squash) (\<lambda>bound. landing_transaction H squash bound) ?s = (r, s')"
      by (simp add: land_squash_def)
    show ?thesis
    proof (cases r)
      case (Inl a)
      with holdsD [OF main _ go] run show ?thesis by (auto simp: land_def refused_def)
    next
      case (Inr a)
      from landing_accepts [OF go [unfolded Inr]] False have
        "completed_chain H squash (ldWorld s) (ldWorld s')" "fst a = LandingComplete" "ldComplete s'"
        "ldMerges s' = Suc (ldMerges s)" by simp_all
      with False Inr run show ?thesis by (cases a) (simp add: land_def completed_chain_def)
    qed
  qed
qed

end
