(* ===== verification/Spec2Isabelle.thy ===== *)
theory Spec2Isabelle
  imports Scope EngineProps Versions SuppressionFacts DiffFacts CollectionFacts JudgementFacts LandingProps FixCommandFacts
    RunBranchFacts CleanupFacts LandFacts
begin

text \<open>
  Togi runs quality gates over a Go repository, reports what they find, and lets an agent fix what
  blocks, one batch of findings at a time, until nothing blocks or a budget is spent. This development
  models the logic of that program from its Go sources and proves what makes it correct. Paths below are
  relative to \<open>src/\<close>.

  \<^bold>\<open>The program.\<close> A run resolves the committed diff of a branch (\<open>internal/run/diff.go\<close>), loads and compiles
  gates (\<open>internal/gate\<close>), selects one request for each gate (\<open>internal/run/run.go\<close>) and executes the requests
  on a pool of workers (\<open>collector.go\<close>). An execution (\<open>executor.go\<close>) runs the tool with a bounded capture
  (\<open>internal/runner/buffer.go\<close>), turns its output into findings (\<open>internal/normalizer\<close>), groups them
  (\<open>internal/finding\<close>), adds the extent of Go declarations (\<open>internal/enricher\<close>) and drops what the diff does
  not touch. The reports of all gates make the report of the run, which is validated before the ledger
  stores it (\<open>report.go\<close>, \<open>ledger.go\<close>). A fixing run hands the blocking findings to the engine
  (\<open>internal/flywheel/engine.go\<close>), which plans batches (\<open>plan.go\<close>), writes a brief for each attempt (\<open>brief.go\<close>),
  spends budgets (\<open>rails.go\<close>), asks the agent, validates each attempt (\<open>validate.go\<close>, \<open>module.go\<close>), judges
  suppressions (\<open>suppression.go\<close>, \<open>test_integrity.go\<close>) and commits or rolls back. Around the engine, \<open>fix.go\<close>
  runs the suite, gives the engine its ports, runs the suite again on what the engine made, lands it, reports,
  and cleans up.

  \<^bold>\<open>The theories.\<close>
  \<^item> Prelude: rule collections, results as sums, first errors, sorting by a comparator. The locale
    \<open>key_comparator\<close> states what a comparison function owes to a key; every comparator of the program is
    an interpretation of it, in the theory that defines the comparator.
  \<^item> GoText, GoPath, GoHash, GoJson: what the code uses of Go's library: bytes and runes, \<open>strings\<close>,
    \<open>path/filepath\<close> on Linux, SHA-256, JSON strings.
  \<^item> Findings, Grouping, Scope: \<open>internal/finding\<close>. A finding is a record; a path, a fingerprint and a
    validation are functions of it; grouping merges by fingerprint; scope restricts to changed lines.
  \<^item> Rails, Plans, Briefs: the budgets as a state machine driven by clock readings, plans and their
    identities, and the text handed to the agent.
  \<^item> Engine, EngineLogic, EngineFacts, EngineProps: the fix loop in a state monad over ports, with the
    history of its calls; a small program logic (weakest preconditions and invariants of the history);
    and what holds of every run.
  \<^item> Versions: semantic versions, their precedence and constraints (\<open>internal/gate/version.go\<close>).
  \<^item> Constraints, Matching, Suppressions, SuppressionFacts: build constraints with a metered decision
    procedure, the augmenting-path matching of suppression sites, and the integrity check on them.
  \<^item> GitActions, Diffs, DiffFacts: the calls of Git as actions on a repository, the parsers of its output
    and the resolved diff.
  \<^item> Normalizers, NormalizerFacts: parsers of tool output, source lines and findings.
  \<^item> Gates, GateFacts, Loader: manifests, bindings, \<open>Compile\<close>, validity, and the loader.
  \<^item> Buffers, Enrichers, EnricherFacts: the bounded capture; the Go enricher. The locale
    \<open>enricher_contract\<close> is the interface of enrichers (only missing end lines change) with the Go enricher
    and the no-op as interpretations.
  \<^item> Execution, ExecutionFacts, Collection, CollectionFacts: one execution, the selection of requests, and
    the pool of workers as a step relation.
  \<^item> Reports, ReportFacts: the report, its composition, and all rules by which a stored one is accepted.
  \<^item> Modules, Validation, Judgement, JudgementFacts: the confinement of modules, the packages a change
    affects, and \<open>Validate\<close> in its stages. Modules also holds the actions (state, early exit, value) that the
    theories after it are written in.
  \<^item> FixLoop, FixRuns, FixCommand: \<open>internal/run/fix.go\<close>: the gates, validator and ports of a fixing run,
    \<open>executeFixLoop\<close> and \<open>composeFixReport\<close> (\<open>execute_fix_loop\<close>, \<open>compose_fix_report\<close>), and \<open>runFix\<close> (\<open>run_fix\<close>).
  \<^item> Histories, EngineWorlds, LandingFacts, LandingDemo, LandingProps, FixCommandFacts: a small logic of
    actions, with rules for the history they append to and triples for the states around them; the locale \<open>barrier_world\<close>, in which what the last barrier established
    about the world is shown to survive to the end of every run of the engine, interpreted on the ports of the
    loop; the properties of the loop and the command, and the runs their witnesses evaluate.

  \<^item> RunBranch, RunBranchFacts: the run branch of a worktree (\<open>internal/flywheel/worktree.go\<close>, \<open>landing.go\<close>):
    how a reference is inspected, \<open>CommitBatch\<close>, \<open>RollbackBatch\<close>, \<open>Squash\<close> and the check of its commit object.
  \<^item> Landing, LandFacts: \<open>Land\<close> with its guards, the launch of the merge, the evidence of its hook and the judgement
    on the result. Cleanup, CleanupFacts: \<open>Cleanup\<close> as attempts on a state of flags, and the registrations of worktrees.
  \<^item> SampleTree: a small Git on which the witnesses about worktrees run.

  \<^bold>\<open>How code is represented.\<close> A Go string is a list of bytes. An \<open>int\<close> is an integer, and arithmetic that
  could leave 64 bits is wrapped where the code computes with it. An error is the left side of a sum; its
  text leaves out the values the code quotes into it. A map is the list of its entries in key order, or a
  list when the order cannot matter. What reads a clock, a file, a process or Git is a record of functions
  on a state of the world, so no theorem assumes that two calls answer alike.

  \<^bold>\<open>What the lemmas show.\<close>
  \<^item> Engine: a batch is committed only with the whole chain of evidence, a run is ready only if its last
    barrier was clean, waves end because the blocking findings shrink, attempts and time stay within the
    rails, the agent runs only between a checkpoint and a judgement, and every outcome carries the plan
    that was published last.
  \<^item> Validation: an attempt passes only on confined modules, unchanged integrity, gates that shrink the
    blocking findings and a suite that passed; its answers are what the engine accepts.
  \<^item> Fixing runs: nothing lands unless the engine was ready, the suite passed on the landed snapshot and the
    rails admitted it; a landed run is never refused by the validation of its own report; a worktree is cleaned
    up once on every path; an exit code stands for a published, valid report.
  \<^item> Worktrees: the run branch moves only from the latest green commit, and an operation that fails takes its move
    back; a landing counts as complete only after the guards, a merge whose hook reported the one expected move, and
    the verification of the checkout; the run branch is deleted only when no validated work would be lost.
  \<^item> Gates and runs: validity cannot be forged; an execution always ends in an acceptable report and
    says passed only on evidence; the pool ends with every report in its slot under all interleavings;
    the composed report of a report-only run passes the validation of the ledger.
  \<^item> Reports: a diff that resolves is accepted; a verdict of success is accepted only with its evidence.
  \<^item> Findings: grouping is exact, independent of order and (on closed paths) idempotent; scope keeps
    exactly the touched locations; fingerprints determine identities.
  \<^item> Decision procedures and parsers: the suppression check charges each site to its own original, the
    constraint procedure decides implication, version order is precedence, source lines, diff hunks,
    changed paths, brief values, versions and captured streams are what their formats say.

  \<^bold>\<open>Termination.\<close> No definition has fuel. Loops over data are structural or have a measure on the rest of the
  input; the waves of the engine end because each one that follows another has strictly fewer blocking
  findings; the searches of the matching are metered by the budget the code itself counts down.

  \<^bold>\<open>Not modelled.\<close> The creation and the snapshots of worktrees and their indexes, private directories, the ledger's
  directories, locks, the starting of processes, the stream of the agent and the running of the suite are file-system, Git and process operations
  (their results are ports or hosts of the models); the comparison of tests works on typed syntax trees of Go's
  own libraries and is a function of two trees in \<open>CheckIntegrity\<close>; the command line, the wiki, rendering,
  configuration and test support hold no logic of a run. Regular expressions, templates, TOML, JSON decoding
  and the Go parser are parameters. Settings of a binding are finite trees, so the check for cyclic containers
  in \<open>cloneSettingValue\<close> has no counterpart, and nil and empty slices are told apart only for the blocking
  severities of a manifest. Clones of values and the cancellation of contexts whose answers are not read again
  are the identity.
\<close>

end
